(* ===== verification/Prelude.thy ===== *)
theory Prelude
  imports Main "HOL-Library.Word" "HOL-Library.AList" "HOL-Library.Tree"
begin

text \<open>
  Shared vocabulary of the development: the machine integers of the code as words, the
  C string functions the code calls (\<^verbatim>\<open>strcasecmp\<close>, \<^verbatim>\<open>c_str()\<close>), hash maps as association
  lists, first-match searches of \<^verbatim>\<open>std::find_if\<close>, and the collections of rewrite rules the
  component theories extend.
\<close>

unbundle bit_operations_syntax

section \<open>Names of the machine types\<close>

type_synonym u8 = "8 word"
type_synonym u16 = "16 word"
type_synonym u32 = "32 word"
type_synonym u64 = "64 word"

section \<open>Collections of rules\<close>

named_theorems bits_simps \<open>how one bit reads after an operation of the code's bit sets\<close>
named_theorems frame_simps \<open>what an operation leaves unchanged\<close>
named_theorems step_defs \<open>definitions of the handlers, unfolded together\<close>

section \<open>Lists\<close>

text \<open>
  \<^verbatim>\<open>for (i = begin; i != end; ++i) if (p(*i)) return &*i; return nullptr\<close> is the library's
  \<^const>\<open>find\<close>. The following facts characterise it from both sides.
\<close>

lemma find_eq_Some_mem: "find P xs = Some x \<Longrightarrow> x \<in> set xs \<and> P x"
  by (induction xs) (auto split: if_splits)

lemma find_eq_None: "find P xs = None \<longleftrightarrow> (\<forall>x\<in>set xs. \<not> P x)"
  by (induction xs) auto

lemma find_append_ex:
  "find P (xs @ ys) = (case find P xs of Some x \<Rightarrow> Some x | None \<Rightarrow> find P ys)"
  by (induction xs) auto

lemma find_eq_Some_first:
  "find P xs = Some x \<longleftrightarrow> (\<exists>us vs. xs = us @ x # vs \<and> P x \<and> (\<forall>u\<in>set us. \<not> P u))"
proof (induction xs)
  case Nil
  then show ?case by simp
next
  case (Cons a xs)
  show ?case
  proof (cases "P a")
    case True
    then show ?thesis
      by (auto simp: Cons_eq_append_conv)
  next
    case False
    with Cons.IH show ?thesis
      by (auto simp: Cons_eq_append_conv) (metis append_Cons set_ConsD)
  qed
qed

lemma find_map_conv: "find P (map f xs) = map_option f (find (P \<circ> f) xs)"
  by (induction xs) auto

lemma fold_set_frame:
  "(\<And>x s. x \<in> set xs \<Longrightarrow> g (f x s) = g s) \<Longrightarrow> g (fold f xs s) = g s"
  by (induction xs arbitrary: s) auto

lemma fold_invariant_list:
  "(\<And>x s. x \<in> set xs \<Longrightarrow> P s \<Longrightarrow> P (f x s)) \<Longrightarrow> P s \<Longrightarrow> P (fold f xs s)"
  by (induction xs arbitrary: s) auto

text \<open>A loop that returns at the first failure.\<close>

primrec opt_fold :: "('x \<Rightarrow> 's \<Rightarrow> 's option) \<Rightarrow> 'x list \<Rightarrow> 's \<Rightarrow> 's option" where
  "opt_fold f [] s = Some s"
| "opt_fold f (x # xs) s = (case f x s of None \<Rightarrow> None | Some s' \<Rightarrow> opt_fold f xs s')"

lemma opt_fold_total: "(\<And>x s. x \<in> set xs \<Longrightarrow> f x s = Some (g x s)) \<Longrightarrow> opt_fold f xs s = Some (fold g xs s)"
  by (induction xs arbitrary: s) auto

lemma opt_fold_invariant:
  "(\<And>x s s'. x \<in> set xs \<Longrightarrow> P s \<Longrightarrow> f x s = Some s' \<Longrightarrow> P s') \<Longrightarrow> P s \<Longrightarrow> opt_fold f xs s = Some s' \<Longrightarrow> P s'"
  by (induction xs arbitrary: s) (auto split: option.splits)

section \<open>Masks\<close>

lemma and_eq_right_bits:
  fixes a b :: "'a::len word"
  shows "a AND b = b \<longleftrightarrow> (\<forall>i. bit b i \<longrightarrow> bit a i)"
proof
  assume "a AND b = b"
  then show "\<forall>i. bit b i \<longrightarrow> bit a i" by (metis bit_and_iff)
next
  assume "\<forall>i. bit b i \<longrightarrow> bit a i"
  then show "a AND b = b" by (intro bit_word_eqI) (auto simp: bit_and_iff)
qed

lemma and_eq_zero_bits:
  fixes a b :: "'a::len word"
  shows "a AND b = 0 \<longleftrightarrow> (\<forall>i. \<not> (bit a i \<and> bit b i))"
proof
  assume "a AND b = 0"
  then have "bit (a AND b) i = bit 0 i" for i by simp
  then show "\<forall>i. \<not> (bit a i \<and> bit b i)" by (simp add: bit_and_iff)
next
  assume "\<forall>i. \<not> (bit a i \<and> bit b i)"
  then show "a AND b = 0" by (intro bit_word_eqI) (auto simp: bit_and_iff)
qed

section \<open>Hash maps\<close>

text \<open>
  A \<^verbatim>\<open>std::unordered_map\<close> is an association list with distinct keys: \<^const>\<open>map_of\<close> is
  \<^verbatim>\<open>find\<close>, \<^const>\<open>AList.update\<close> is \<^verbatim>\<open>m[k] = v\<close>. The order of the list stands for the
  unspecified iteration order of the container; statements about iterating operations are
  made for every such list.
\<close>

abbreviation wf_umap :: "('k \<times> 'v) list \<Rightarrow> bool" where
  "wf_umap m \<equiv> distinct (map fst m)"

lemma wf_umap_update [intro]: "wf_umap m \<Longrightarrow> wf_umap (AList.update k v m)"
  by (rule distinct_update)

lemma map_of_map_snd:
  "map_of (map (\<lambda>(k, v). (k, f k v)) m) k = map_option (f k) (map_of m k)"
  by (induction m) auto

section \<open>Constant tables\<close>

text \<open>
  Ground lookups in a long constant association list are quadratic for the rewriter. A search
  tree with the same in-order contents answers them in a few steps.
\<close>

fun tlookup :: "(int \<times> 'v) tree \<Rightarrow> int \<Rightarrow> 'v option" where
  "tlookup \<langle>\<rangle> k = None"
| "tlookup \<langle>l, (a, v), r\<rangle> k =
     (if k < a then tlookup l k else if k = a then Some v else tlookup r k)"

lemma map_of_eq_None_less: "\<forall>x\<in>set (map fst xs). k \<noteq> x \<Longrightarrow> map_of xs k = None"
  by (simp add: map_of_eq_None_iff) blast

lemma tlookup_inorder:
  "sorted_wrt (<) (map fst (inorder t)) \<Longrightarrow> tlookup t k = map_of (inorder t) k"
proof (induction t k rule: tlookup.induct)
  case (1 k)
  then show ?case by simp
next
  case (2 l a v r k)
  from 2(3) have sl: "sorted_wrt (<) (map fst (inorder l))" and sr: "sorted_wrt (<) (map fst (inorder r))"
    and la: "\<forall>x\<in>set (map fst (inorder l)). x < a" and ra: "\<forall>x\<in>set (map fst (inorder r)). a < x"
    by (auto simp: sorted_wrt_append)
  consider "k < a" | "k = a" | "a < k" by linarith
  then show ?case
  proof cases
    case 1
    then have "map_of (inorder r) k = None"
      using ra by (intro map_of_eq_None_less) fastforce
    with 1 2 sl show ?thesis by (simp add: map_add_def split: option.splits)
  next
    case 2
    then have "map_of (inorder l) k = None"
      using la by (intro map_of_eq_None_less) fastforce
    with 2 show ?thesis by (simp add: map_add_def)
  next
    case 3
    then have "map_of (inorder l) k = None"
      using la by (intro map_of_eq_None_less) fastforce
    with 3 2 sr show ?thesis by (simp add: map_add_def split: option.splits)
  qed
qed

text \<open>The order of a ground table is checked on neighbours only.\<close>

lemma tlookup_successively:
  "successively (<) (map fst (inorder t)) \<Longrightarrow> tlookup t k = map_of (inorder t) k"
  by (rule tlookup_inorder) (subst successively_conv_sorted_wrt [symmetric], auto)

lemma map_of_filter_key: "map_of xs k = map_of (filter (\<lambda>x. fst x = k) xs) k"
  by (induction xs) auto

lemma map_of_sort_key: "map_of (sort_key fst xs) k = map_of (xs :: ('k::linorder \<times> 'v) list) k"
  by (metis (mono_tags, lifting) map_of_filter_key sort_key_stable filter_cong)

lemma map_of_map_key:
  assumes "inj_on f (insert k (fst ` set xs))"
  shows "map_of (map (\<lambda>(a, b). (f a, b)) xs) (f k) = map_of xs k"
  using assms by (induction xs) (auto simp: inj_on_def)

section \<open>C strings\<close>

text \<open>\<^verbatim>\<open>c_str()\<close> seen through the C library: everything before the first NUL.\<close>

definition c_str :: "string \<Rightarrow> string" where
  "c_str s = takeWhile (\<lambda>c. c \<noteq> CHR 0x00) s"

text \<open>\<^verbatim>\<open>tolower\<close> of the POSIX locale, on the byte value.\<close>

definition tolower_byte :: "char \<Rightarrow> nat" where
  "tolower_byte c = (let n = of_char c :: nat in if 65 \<le> n \<and> n \<le> 90 then n + 32 else n)"

fun strcasecmp_bytes :: "nat list \<Rightarrow> nat list \<Rightarrow> int" where
  "strcasecmp_bytes [] [] = 0"
| "strcasecmp_bytes [] (y # ys) = - int y"
| "strcasecmp_bytes (x # xs) [] = int x"
| "strcasecmp_bytes (x # xs) (y # ys) =
     (if x = y then strcasecmp_bytes xs ys else int x - int y)"

text \<open>\<^verbatim>\<open>strcasecmp_utf8\<close> (utils/stringtool.cpp): on Linux the C library's \<^verbatim>\<open>strcasecmp\<close>.\<close>

definition strcasecmp_utf8 :: "string \<Rightarrow> string \<Rightarrow> int" where
  "strcasecmp_utf8 s1 s2 =
     strcasecmp_bytes (map tolower_byte (c_str s1)) (map tolower_byte (c_str s2))"

text \<open>The case-folded name that the comparison looks at.\<close>

definition fold_name :: "string \<Rightarrow> nat list" where
  "fold_name s = map tolower_byte (c_str s)"

lemma strcasecmp_bytes_refl [simp]: "strcasecmp_bytes xs xs = 0"
  by (induction xs) auto

lemma strcasecmp_bytes_eq_0:
  "0 \<notin> set xs \<Longrightarrow> 0 \<notin> set ys \<Longrightarrow> strcasecmp_bytes xs ys = 0 \<longleftrightarrow> xs = ys"
  by (induction xs ys rule: strcasecmp_bytes.induct) auto

lemma c_str_no_nul: "CHR 0x00 \<notin> set (c_str s)"
  unfolding c_str_def by (metis set_takeWhileD)

lemma of_char_eq_0: "(of_char c :: nat) = 0 \<longleftrightarrow> c = CHR 0x00"
  using of_char_eq_iff [where 'a = nat, of c "CHR 0x00"] by simp

lemma tolower_byte_eq_0: "tolower_byte c = 0 \<longleftrightarrow> c = CHR 0x00"
  by (auto simp: tolower_byte_def Let_def of_char_eq_0)

lemma fold_name_no_zero: "0 \<notin> set (fold_name s)"
proof
  assume "0 \<in> set (fold_name s)"
  then obtain c where "c \<in> set (c_str s)" and "tolower_byte c = 0"
    by (auto simp: fold_name_def)
  then show False
    using c_str_no_nul [of s] by (simp add: tolower_byte_eq_0)
qed

lemma strcasecmp_utf8_eq_0: "strcasecmp_utf8 s t = 0 \<longleftrightarrow> fold_name s = fold_name t"
proof -
  have "0 \<notin> set (fold_name s)" and "0 \<notin> set (fold_name t)"
    by (rule fold_name_no_zero)+
  then show ?thesis
    unfolding strcasecmp_utf8_def fold_name_def by (rule strcasecmp_bytes_eq_0)
qed

lemma strcasecmp_utf8_refl [simp]: "strcasecmp_utf8 s s = 0"
  by (simp add: strcasecmp_utf8_eq_0)

end
