(* ===== verification/Key_Types.thy ===== *)
theory Key_Types
  imports Prelude
begin

text \<open>
  The value types of src/core/input/keyboard.h and keyboard.cpp: \<^verbatim>\<open>ScanCode\<close>, \<^verbatim>\<open>Key\<close>,
  \<^verbatim>\<open>Modifier\<close> (two 64-bit masks: pressed bits and don't-care bits) and \<^verbatim>\<open>ModifiedKey\<close>
  (a modifier, a key pointer and the 256 virtual modifier bits M00 to MFF).
\<close>

unbundle bit_operations_syntax

section \<open>Scan codes\<close>

text \<open>\<^verbatim>\<open>KEYBOARD_INPUT_DATA::BREAK\<close>, \<^verbatim>\<open>E0\<close>, \<^verbatim>\<open>E1\<close> and \<^verbatim>\<open>E0E1\<close> (src/core/input/input_event.h).\<close>

definition KID_BREAK :: u16 where "KID_BREAK = 1"
definition KID_E0 :: u16 where "KID_E0 = 2"
definition KID_E1 :: u16 where "KID_E1 = 4"
definition KID_E0E1 :: u16 where "KID_E0E1 = 6"

record ScanCode =
  m_scan :: u16
  m_flags :: u16

text \<open>\<^verbatim>\<open>operator==\<close>: the break flag does not take part.\<close>

definition ScanCode_eq :: "ScanCode \<Rightarrow> ScanCode \<Rightarrow> bool" where
  "ScanCode_eq a b \<longleftrightarrow>
     m_scan a = m_scan b \<and> KID_E0E1 AND m_flags a = KID_E0E1 AND m_flags b"

lemma ScanCode_eq_refl [simp]: "ScanCode_eq a a"
  by (simp add: ScanCode_eq_def)

lemma ScanCode_eq_sym: "ScanCode_eq a b \<Longrightarrow> ScanCode_eq b a"
  by (simp add: ScanCode_eq_def)

lemma ScanCode_eq_trans: "ScanCode_eq a b \<Longrightarrow> ScanCode_eq b c \<Longrightarrow> ScanCode_eq a c"
  by (simp add: ScanCode_eq_def)

section \<open>Keys\<close>

record Key =
  m_isPressed :: bool
  m_isPressedOnWin32 :: bool
  m_isPressedByAssign :: bool
  m_names :: "string list"
  m_scanCodes :: "ScanCode list"

text \<open>\<^verbatim>\<open>Key()\<close> and \<^verbatim>\<open>Key(name)\<close>, the latter for the event keys only.\<close>

definition new_Key :: Key where
  "new_Key = \<lparr>m_isPressed = False, m_isPressedOnWin32 = False, m_isPressedByAssign = False,
              m_names = [], m_scanCodes = []\<rparr>"

definition addName :: "string \<Rightarrow> Key \<Rightarrow> Key" where
  "addName n k = k\<lparr>m_names := m_names k @ [n]\<rparr>"

definition addScanCode :: "ScanCode \<Rightarrow> Key \<Rightarrow> Key" where
  "addScanCode sc k = k\<lparr>m_scanCodes := m_scanCodes k @ [sc]\<rparr>"

definition event_Key :: "string \<Rightarrow> Key" where
  "event_Key n = addScanCode \<lparr>m_scan = 0, m_flags = 0\<rparr> (addName n new_Key)"

text \<open>\<^verbatim>\<open>Key::initialize\<close>.\<close>

definition Key_initialize :: "Key \<Rightarrow> Key" where
  "Key_initialize k = k\<lparr>m_names := [], m_isPressed := False, m_isPressedOnWin32 := False,
                        m_isPressedByAssign := False, m_scanCodes := []\<rparr>"

text \<open>\<^verbatim>\<open>getName\<close> is \<^verbatim>\<open>m_names.front()\<close>, undefined on a key without names (None here).\<close>

definition Key_getName :: "Key \<Rightarrow> string option" where
  "Key_getName k = (case m_names k of [] \<Rightarrow> None | n # _ \<Rightarrow> Some n)"

text \<open>\<^verbatim>\<open>operator==(const std::string &)\<close>: some name agrees up to case.\<close>

definition Key_eq_name :: "Key \<Rightarrow> string \<Rightarrow> bool" where
  "Key_eq_name k n \<longleftrightarrow> (\<exists>name\<in>set (m_names k). strcasecmp_utf8 name n = 0)"

text \<open>
  \<^verbatim>\<open>isPrefixScanCode\<close> walks the codes of \<^verbatim>\<open>i_key\<close> and reads \<^verbatim>\<open>m_scanCodes[i]\<close> without a
  bound check: None is the read past the end.
\<close>

fun prefix_codes :: "ScanCode list \<Rightarrow> ScanCode list \<Rightarrow> bool option" where
  "prefix_codes mine [] = Some True"
| "prefix_codes [] (c # cs) = None"
| "prefix_codes (m # ms) (c # cs) =
     (if \<not> ScanCode_eq m c then Some False else prefix_codes ms cs)"

definition isPrefixScanCode :: "Key \<Rightarrow> Key \<Rightarrow> bool option" where
  "isPrefixScanCode self i_key = prefix_codes (m_scanCodes self) (m_scanCodes i_key)"

definition isSameScanCode :: "Key \<Rightarrow> Key \<Rightarrow> bool option" where
  "isSameScanCode self i_key =
     (if length (m_scanCodes self) \<noteq> length (m_scanCodes i_key) then Some False
      else isPrefixScanCode self i_key)"

lemma prefix_codes_total:
  "length cs \<le> length ms \<Longrightarrow> prefix_codes ms cs = Some (list_all2 ScanCode_eq (take (length cs) ms) cs)"
  by (induction ms cs rule: prefix_codes.induct) auto

lemma isSameScanCode_total:
  "isSameScanCode a b = Some (list_all2 ScanCode_eq (m_scanCodes a) (m_scanCodes b))"
  by (auto simp: isSameScanCode_def isPrefixScanCode_def prefix_codes_total list_all2_lengthD)

section \<open>Modifier types\<close>

text \<open>
  \<^verbatim>\<open>enum Modifier::Type\<close>. The enumerators that only mark ends (\<^verbatim>\<open>Type_BASIC\<close>,
  \<^verbatim>\<open>Type_KEYSEQ\<close>, \<^verbatim>\<open>Type_ASSIGN\<close>) are the numbers below.
\<close>

datatype modifier_type =
    Type_Shift | Type_Alt | Type_Control | Type_Windows
  | Type_Up | Type_Down
  | Type_Repeat | Type_ImeLock | Type_ImeComp | Type_NumLock | Type_CapsLock | Type_ScrollLock
  | Type_KanaLock | Type_Maximized | Type_Minimized | Type_MdiMaximized | Type_MdiMinimized
  | Type_Touchpad | Type_TouchpadSticky
  | Type_Lock0 | Type_Lock1 | Type_Lock2 | Type_Lock3 | Type_Lock4
  | Type_Lock5 | Type_Lock6 | Type_Lock7 | Type_Lock8 | Type_Lock9

definition all_types :: "modifier_type list" where
  "all_types = [Type_Shift, Type_Alt, Type_Control, Type_Windows, Type_Up, Type_Down,
     Type_Repeat, Type_ImeLock, Type_ImeComp, Type_NumLock, Type_CapsLock, Type_ScrollLock,
     Type_KanaLock, Type_Maximized, Type_Minimized, Type_MdiMaximized, Type_MdiMinimized,
     Type_Touchpad, Type_TouchpadSticky, Type_Lock0, Type_Lock1, Type_Lock2, Type_Lock3,
     Type_Lock4, Type_Lock5, Type_Lock6, Type_Lock7, Type_Lock8, Type_Lock9]"

definition basic_types :: "modifier_type list" where
  "basic_types = [Type_Shift, Type_Alt, Type_Control, Type_Windows]"

definition lock_types :: "modifier_type list" where
  "lock_types = [Type_Lock0, Type_Lock1, Type_Lock2, Type_Lock3, Type_Lock4,
     Type_Lock5, Type_Lock6, Type_Lock7, Type_Lock8, Type_Lock9]"

primrec type_index :: "modifier_type \<Rightarrow> nat" where
  "type_index Type_Shift = 0" | "type_index Type_Alt = 1"
| "type_index Type_Control = 2" | "type_index Type_Windows = 3"
| "type_index Type_Up = 4" | "type_index Type_Down = 5"
| "type_index Type_Repeat = 6" | "type_index Type_ImeLock = 7"
| "type_index Type_ImeComp = 8" | "type_index Type_NumLock = 9"
| "type_index Type_CapsLock = 10" | "type_index Type_ScrollLock = 11"
| "type_index Type_KanaLock = 12" | "type_index Type_Maximized = 13"
| "type_index Type_Minimized = 14" | "type_index Type_MdiMaximized = 15"
| "type_index Type_MdiMinimized = 16" | "type_index Type_Touchpad = 17"
| "type_index Type_TouchpadSticky = 18" | "type_index Type_Lock0 = 19"
| "type_index Type_Lock1 = 20" | "type_index Type_Lock2 = 21"
| "type_index Type_Lock3 = 22" | "type_index Type_Lock4 = 23"
| "type_index Type_Lock5 = 24" | "type_index Type_Lock6 = 25"
| "type_index Type_Lock7 = 26" | "type_index Type_Lock8 = 27"
| "type_index Type_Lock9 = 28"

definition Type_BASIC :: nat where "Type_BASIC = 4"
definition Type_KEYSEQ :: nat where "Type_KEYSEQ = 6"
definition Type_ASSIGN :: nat where "Type_ASSIGN = 29"

lemma type_index_less [simp]: "type_index t < 29"
  by (cases t) simp_all

lemma type_index_not_ge [simp]: "\<not> 29 \<le> type_index t"
  by (simp add: not_le)

lemma type_index_less64 [simp]: "type_index t < 64"
  using type_index_less [of t] by linarith

lemma map_type_index: "map type_index all_types = [0..<29]"
  by (simp add: all_types_def upt_rec)

lemma all_types_nth: "all_types ! type_index t = t"
  by (cases t) (simp_all add: all_types_def)

lemma type_index_inject [simp]: "type_index s = type_index t \<longleftrightarrow> s = t"
  by (metis all_types_nth)

lemma set_all_types [simp]: "t \<in> set all_types"
  by (cases t) (simp_all add: all_types_def)

lemma distinct_all_types [simp]: "distinct all_types"
  by (simp add: all_types_def)

instantiation modifier_type :: linorder
begin

definition less_eq_modifier_type :: "modifier_type \<Rightarrow> modifier_type \<Rightarrow> bool" where
  "less_eq_modifier_type s t \<longleftrightarrow> type_index s \<le> type_index t"

definition less_modifier_type :: "modifier_type \<Rightarrow> modifier_type \<Rightarrow> bool" where
  "less_modifier_type s t \<longleftrightarrow> type_index s < type_index t"

instance
  by standard (auto simp: less_eq_modifier_type_def less_modifier_type_def)

end

section \<open>Modifiers\<close>

record Modifier =
  m_modifiers :: u64
  m_dontcares :: u64

definition care :: "modifier_type \<Rightarrow> Modifier \<Rightarrow> Modifier" where
  "care t m = m\<lparr>m_dontcares := m_dontcares m AND NOT (push_bit (type_index t) 1)\<rparr>"

definition dontcare :: "modifier_type \<Rightarrow> Modifier \<Rightarrow> Modifier" where
  "dontcare t m = m\<lparr>m_dontcares := m_dontcares m OR push_bit (type_index t) 1\<rparr>"

definition press :: "modifier_type \<Rightarrow> Modifier \<Rightarrow> Modifier" where
  "press t m = care t (m\<lparr>m_modifiers := m_modifiers m OR push_bit (type_index t) 1\<rparr>)"

definition release :: "modifier_type \<Rightarrow> Modifier \<Rightarrow> Modifier" where
  "release t m = care t (m\<lparr>m_modifiers := m_modifiers m AND NOT (push_bit (type_index t) 1)\<rparr>)"

text \<open>The two-argument \<^verbatim>\<open>press\<close>/\<^verbatim>\<open>on\<close> and \<^verbatim>\<open>care\<close>.\<close>

definition press_if :: "modifier_type \<Rightarrow> bool \<Rightarrow> Modifier \<Rightarrow> Modifier" where
  "press_if t b m = (if b then press t m else release t m)"

definition care_if :: "modifier_type \<Rightarrow> bool \<Rightarrow> Modifier \<Rightarrow> Modifier" where
  "care_if t b m = (if b then care t m else dontcare t m)"

definition dontcare_all :: "Modifier \<Rightarrow> Modifier" where
  "dontcare_all m = m\<lparr>m_dontcares := NOT 0\<rparr>"

definition isPressed :: "Modifier \<Rightarrow> modifier_type \<Rightarrow> bool" where
  "isPressed m t \<longleftrightarrow> m_modifiers m AND push_bit (type_index t) 1 \<noteq> 0"

definition isDontcare :: "Modifier \<Rightarrow> modifier_type \<Rightarrow> bool" where
  "isDontcare m t \<longleftrightarrow> m_dontcares m AND push_bit (type_index t) 1 \<noteq> 0"

text \<open>The constructor: all modifiers released; everything but Shift, Alt, Control and
  Windows is a don't-care.\<close>

definition default_dontcares :: "modifier_type list" where
  "default_dontcares = [Type_Up, Type_Down, Type_Repeat,
     Type_ImeLock, Type_ImeComp, Type_NumLock, Type_CapsLock, Type_ScrollLock,
     Type_KanaLock, Type_Maximized, Type_Minimized, Type_MdiMaximized, Type_MdiMinimized,
     Type_Touchpad, Type_TouchpadSticky,
     Type_Lock0, Type_Lock1, Type_Lock2, Type_Lock3, Type_Lock4,
     Type_Lock5, Type_Lock6, Type_Lock7, Type_Lock8, Type_Lock9]"

definition new_Modifier :: Modifier where
  "new_Modifier = fold dontcare default_dontcares \<lparr>m_modifiers = 0, m_dontcares = 0\<rparr>"

lemma new_Modifier_word [code]: "new_Modifier = \<lparr>m_modifiers = 0, m_dontcares = 0x1FFFFFF0\<rparr>"
  by (simp add: new_Modifier_def default_dontcares_def dontcare_def)

text \<open>\<^verbatim>\<open>Modifier::add\<close>: take over the other's cared-for bits where this one does not care.\<close>

definition add_step :: "Modifier \<Rightarrow> modifier_type \<Rightarrow> Modifier \<Rightarrow> Modifier" where
  "add_step i_m t m =
     (if isDontcare m t then
        (if \<not> isDontcare i_m t then
           (if isPressed i_m t then press t m else release t m)
         else m)
      else m)"

definition Modifier_add :: "Modifier \<Rightarrow> Modifier \<Rightarrow> Modifier" where
  "Modifier_add m i_m = fold (add_step i_m) all_types m"

text \<open>\<^verbatim>\<open>doesMatch\<close> and the order used to sort assignments.\<close>

definition doesMatch :: "Modifier \<Rightarrow> Modifier \<Rightarrow> bool" where
  "doesMatch m i_m \<longleftrightarrow>
     m_modifiers m OR m_dontcares m = m_modifiers i_m OR m_dontcares m"

definition Modifier_less :: "Modifier \<Rightarrow> Modifier \<Rightarrow> bool" where
  "Modifier_less a b \<longleftrightarrow> m_modifiers a < m_modifiers b \<or>
     (m_modifiers a = m_modifiers b \<and> m_dontcares a < m_dontcares b)"

subsection \<open>Reading one bit\<close>

lemma and_push_bit_1: "(w :: 'a::len word) AND push_bit n 1 \<noteq> 0 \<longleftrightarrow> bit w n"
  by (simp add: push_bit_of_1 and_exp_eq_0_iff_not_bit)

lemma bit_push_bit_1: "bit (push_bit n (1 :: 'a::len word)) k \<longleftrightarrow> k = n \<and> n < LENGTH('a)"
  by (auto simp: bit_simps)

lemma isPressed_bit: "isPressed m t \<longleftrightarrow> bit (m_modifiers m) (type_index t)"
  by (simp only: isPressed_def and_push_bit_1)

lemma isDontcare_bit: "isDontcare m t \<longleftrightarrow> bit (m_dontcares m) (type_index t)"
  by (simp only: isDontcare_def and_push_bit_1)

lemma isDontcare_care [simp]: "isDontcare (care t m) s \<longleftrightarrow> s \<noteq> t \<and> isDontcare m s"
  by (auto simp: isDontcare_bit care_def bit_simps)

lemma isPressed_care [simp]: "isPressed (care t m) s = isPressed m s"
  by (simp add: isPressed_bit care_def)

lemma isDontcare_dontcare [simp]: "isDontcare (dontcare t m) s \<longleftrightarrow> s = t \<or> isDontcare m s"
  by (auto simp: isDontcare_bit dontcare_def bit_simps)

lemma isPressed_dontcare [simp]: "isPressed (dontcare t m) s = isPressed m s"
  by (simp add: isPressed_bit dontcare_def)

lemma isPressed_press [simp]: "isPressed (press t m) s \<longleftrightarrow> s = t \<or> isPressed m s"
  by (auto simp: press_def isPressed_bit care_def bit_simps)

lemma isDontcare_press [simp]: "isDontcare (press t m) s \<longleftrightarrow> s \<noteq> t \<and> isDontcare m s"
  by (auto simp: press_def isDontcare_bit care_def bit_simps)

lemma isPressed_release [simp]: "isPressed (release t m) s \<longleftrightarrow> s \<noteq> t \<and> isPressed m s"
  by (auto simp: release_def isPressed_bit care_def bit_simps)

lemma isDontcare_release [simp]: "isDontcare (release t m) s \<longleftrightarrow> s \<noteq> t \<and> isDontcare m s"
  by (auto simp: release_def isDontcare_bit care_def bit_simps)

lemma isPressed_press_if [simp]:
  "isPressed (press_if t b m) s = (if s = t then b else isPressed m s)"
  by (simp add: press_if_def)

lemma isDontcare_press_if [simp]:
  "isDontcare (press_if t b m) s \<longleftrightarrow> s \<noteq> t \<and> isDontcare m s"
  by (simp add: press_if_def)

lemma isDontcare_fold_dontcare:
  "isDontcare (fold dontcare ts m) s \<longleftrightarrow> s \<in> set ts \<or> isDontcare m s"
  by (induction ts arbitrary: m) auto

lemma isPressed_fold_dontcare: "isPressed (fold dontcare ts m) s = isPressed m s"
  by (induction ts arbitrary: m) auto

lemma isPressed_zero [simp]: "\<not> isPressed \<lparr>m_modifiers = 0, m_dontcares = d\<rparr> t"
  by (simp add: isPressed_def)

lemma isDontcare_zero [simp]: "\<not> isDontcare \<lparr>m_modifiers = d, m_dontcares = 0\<rparr> t"
  by (simp add: isDontcare_def)

lemma isPressed_new [simp]: "\<not> isPressed new_Modifier t"
  by (simp add: new_Modifier_def isPressed_fold_dontcare)

lemma isDontcare_new [simp]: "isDontcare new_Modifier t \<longleftrightarrow> t \<notin> set basic_types"
  unfolding new_Modifier_def isDontcare_fold_dontcare
  by (cases t) (simp_all add: default_dontcares_def basic_types_def)

text \<open>
  A modifier whose two masks only use the 29 bits of the type. Every operation of the class
  but \<^verbatim>\<open>dontcare()\<close> (all 64 bits) keeps it.
\<close>

definition wf_Modifier :: "Modifier \<Rightarrow> bool" where
  "wf_Modifier m \<longleftrightarrow>
     take_bit 29 (m_modifiers m) = m_modifiers m \<and> take_bit 29 (m_dontcares m) = m_dontcares m"

lemma bit64_less: "bit (w :: u64) n \<Longrightarrow> n < 64"
  using bit_imp_le_length [of w n] by simp

lemma take_bit_eq_iff_bits: "take_bit k (w :: u64) = w \<longleftrightarrow> (\<forall>n\<ge>k. \<not> bit w n)"
proof
  assume "take_bit k w = w"
  then show "\<forall>n\<ge>k. \<not> bit w n"
    by (metis bit_take_bit_iff not_le)
next
  assume "\<forall>n\<ge>k. \<not> bit w n"
  then show "take_bit k w = w"
    by (intro bit_eqI) (auto simp: bit_take_bit_iff not_le [symmetric])
qed

lemma wf_Modifier_bits:
  "wf_Modifier m \<longleftrightarrow> (\<forall>n\<ge>29. \<not> bit (m_modifiers m) n \<and> \<not> bit (m_dontcares m) n)"
  by (auto simp: wf_Modifier_def take_bit_eq_iff_bits)

lemma wf_press [intro]: "wf_Modifier m \<Longrightarrow> wf_Modifier (press t m)"
  using type_index_less [of t]
  by (auto simp: wf_Modifier_bits press_def care_def bit_simps)

lemma wf_release [intro]: "wf_Modifier m \<Longrightarrow> wf_Modifier (release t m)"
  using type_index_less [of t]
  by (auto simp: wf_Modifier_bits release_def care_def bit_simps)

lemma wf_press_if [intro]: "wf_Modifier m \<Longrightarrow> wf_Modifier (press_if t b m)"
  by (auto simp: press_if_def)

lemma wf_dontcare [intro]: "wf_Modifier m \<Longrightarrow> wf_Modifier (dontcare t m)"
  using type_index_less [of t]
  by (auto simp: wf_Modifier_bits dontcare_def bit_simps)

lemma wf_new [simp]: "wf_Modifier new_Modifier"
proof -
  have "wf_Modifier (fold dontcare ts m)" if "wf_Modifier m" for ts m
    using that by (induction ts arbitrary: m) auto
  then show ?thesis
    by (simp add: new_Modifier_def wf_Modifier_def)
qed

lemma index_of_bit: "n < 29 \<Longrightarrow> \<exists>t. type_index t = n"
proof -
  assume "n < 29"
  then have "n \<in> set (map type_index all_types)"
    by (simp only: map_type_index set_upt) simp
  then show ?thesis by auto
qed

text \<open>Two well-formed modifiers are equal when they agree at every type.\<close>

lemma Modifier_eqI:
  assumes "wf_Modifier a" "wf_Modifier b"
    and "\<And>t. isPressed a t = isPressed b t" and "\<And>t. isDontcare a t = isDontcare b t"
  shows "a = b"
proof -
  have "bit (m_modifiers a) n = bit (m_modifiers b) n \<and> bit (m_dontcares a) n = bit (m_dontcares b) n"
    for n
  proof (cases "n < 29")
    case True
    then obtain t where "type_index t = n" using index_of_bit by blast
    with assms(3,4) [of t] show ?thesis by (simp add: isPressed_bit isDontcare_bit)
  next
    case False
    with assms(1,2) show ?thesis by (simp add: wf_Modifier_bits)
  qed
  then show ?thesis
    by (intro Modifier.equality) (auto intro: bit_eqI)
qed

subsection \<open>What \<^verbatim>\<open>add\<close> and \<^verbatim>\<open>doesMatch\<close> compute\<close>

lemma wf_add_step [intro]: "wf_Modifier m \<Longrightarrow> wf_Modifier (add_step i_m t m)"
  by (auto simp: add_step_def)

lemma isPressed_add_step:
  "isPressed (add_step i_m t m) s =
     (if s = t \<and> isDontcare m s \<and> \<not> isDontcare i_m s then isPressed i_m s else isPressed m s)"
  by (cases "s = t") (auto simp: add_step_def)

lemma isDontcare_add_step:
  "isDontcare (add_step i_m t m) s \<longleftrightarrow> isDontcare m s \<and> (s = t \<longrightarrow> isDontcare i_m s)"
  by (auto simp: add_step_def)

lemma fold_add_step:
  "distinct ts \<Longrightarrow>
     isPressed (fold (add_step i_m) ts m) s =
       (if s \<in> set ts \<and> isDontcare m s \<and> \<not> isDontcare i_m s then isPressed i_m s else isPressed m s)
   \<and> isDontcare (fold (add_step i_m) ts m) s =
       (if s \<in> set ts then isDontcare m s \<and> isDontcare i_m s else isDontcare m s)"
proof (induction ts arbitrary: m)
  case Nil
  then show ?case by simp
next
  case (Cons t ts)
  then have IH: "isPressed (fold (add_step i_m) ts (add_step i_m t m)) s =
       (if s \<in> set ts \<and> isDontcare (add_step i_m t m) s \<and> \<not> isDontcare i_m s
        then isPressed i_m s else isPressed (add_step i_m t m) s)
   \<and> isDontcare (fold (add_step i_m) ts (add_step i_m t m)) s =
       (if s \<in> set ts then isDontcare (add_step i_m t m) s \<and> isDontcare i_m s
        else isDontcare (add_step i_m t m) s)"
    by simp
  show ?case
    using Cons.prems by (simp add: IH isPressed_add_step isDontcare_add_step)
qed

lemma isPressed_add:
  "isPressed (Modifier_add m i_m) t =
     (if isDontcare m t \<and> \<not> isDontcare i_m t then isPressed i_m t else isPressed m t)"
  using fold_add_step [OF distinct_all_types, of i_m m t] by (simp add: Modifier_add_def)

lemma isDontcare_add:
  "isDontcare (Modifier_add m i_m) t \<longleftrightarrow> isDontcare m t \<and> isDontcare i_m t"
  using fold_add_step [OF distinct_all_types, of i_m m t] by (simp add: Modifier_add_def)

lemma wf_add [intro]: "wf_Modifier m \<Longrightarrow> wf_Modifier (Modifier_add m i_m)"
  unfolding Modifier_add_def by (rule fold_invariant_list) auto

lemma doesMatch_bits:
  "doesMatch m i_m \<longleftrightarrow>
     (\<forall>n. bit (m_dontcares m) n \<or> bit (m_modifiers m) n = bit (m_modifiers i_m) n)"
  by (auto simp: doesMatch_def bit_eq_iff bit_simps dest: bit64_less)

lemma doesMatch_iff:
  assumes "wf_Modifier m" "wf_Modifier i_m"
  shows "doesMatch m i_m \<longleftrightarrow> (\<forall>t. isDontcare m t \<or> isPressed m t = isPressed i_m t)"
proof -
  have "(\<forall>n. bit (m_dontcares m) n \<or> bit (m_modifiers m) n = bit (m_modifiers i_m) n) \<longleftrightarrow>
        (\<forall>n<29. bit (m_dontcares m) n \<or> bit (m_modifiers m) n = bit (m_modifiers i_m) n)"
    using assms by (auto simp: wf_Modifier_bits) (meson not_le)+
  also have "\<dots> \<longleftrightarrow> (\<forall>t. isDontcare m t \<or> isPressed m t = isPressed i_m t)"
    unfolding isDontcare_bit isPressed_bit
    by (metis index_of_bit type_index_less)
  finally show ?thesis by (simp add: doesMatch_bits)
qed

section \<open>Modified keys\<close>

text \<open>
  A \<^verbatim>\<open>Key *\<close> points to a key of the keyboard (by its position in the keyboard's store), to
  one of the three static event keys of setting.cpp, or to the keyboard's sync key.
\<close>

datatype event_key = Ev_prefixed | Ev_before_key_down | Ev_after_key_up

datatype keyref = KeyAt nat | EventKey event_key | SyncKey

definition Event_events :: "keyref list" where
  "Event_events = [EventKey Ev_prefixed, EventKey Ev_before_key_down, EventKey Ev_after_key_up]"

record ModifiedKey =
  mk_modifier :: Modifier
  mk_key :: "keyref option"
  mk_virtualMods :: "u32 list"

text \<open>The three constructors; the virtual modifier words start at zero.\<close>

definition new_ModifiedKey :: ModifiedKey where
  "new_ModifiedKey =
     \<lparr>mk_modifier = new_Modifier, mk_key = None, mk_virtualMods = replicate 8 0\<rparr>"

definition ModifiedKey_of :: "keyref \<Rightarrow> ModifiedKey" where
  "ModifiedKey_of k =
     \<lparr>mk_modifier = new_Modifier, mk_key = Some k, mk_virtualMods = replicate 8 0\<rparr>"

definition ModifiedKey_eq :: "ModifiedKey \<Rightarrow> ModifiedKey \<Rightarrow> bool" where
  "ModifiedKey_eq a b \<longleftrightarrow> mk_modifier a = mk_modifier b \<and> mk_key a = mk_key b \<and>
     (\<forall>i<8. mk_virtualMods a ! i = mk_virtualMods b ! i)"

definition setVirtualMod :: "u8 \<Rightarrow> bool \<Rightarrow> ModifiedKey \<Rightarrow> ModifiedKey" where
  "setVirtualMod modNum active mk =
     (let idx = unat modNum div 32; b = unat modNum mod 32; w = mk_virtualMods mk ! idx in
      mk\<lparr>mk_virtualMods := (mk_virtualMods mk)[idx :=
        (if active then w OR push_bit b 1 else w AND NOT (push_bit b 1))]\<rparr>)"

definition isVirtualModActive :: "ModifiedKey \<Rightarrow> u8 \<Rightarrow> bool" where
  "isVirtualModActive mk modNum \<longleftrightarrow>
     (let idx = unat modNum div 32; b = unat modNum mod 32 in
      mk_virtualMods mk ! idx AND push_bit b 1 \<noteq> 0)"

definition wf_ModifiedKey :: "ModifiedKey \<Rightarrow> bool" where
  "wf_ModifiedKey mk \<longleftrightarrow> length (mk_virtualMods mk) = 8 \<and> wf_Modifier (mk_modifier mk)"

lemma unat_u8_less [simp]: "unat (m :: u8) < 256"
  by (rule order_less_le_trans [OF unsigned_less]) simp

lemma unat_u8_div [simp]: "unat (m :: u8) div 32 < 8"
  using unat_u8_less [of m] by linarith

lemma wf_new_ModifiedKey [simp]: "wf_ModifiedKey new_ModifiedKey" "wf_ModifiedKey (ModifiedKey_of k)"
  by (simp_all add: wf_ModifiedKey_def new_ModifiedKey_def ModifiedKey_of_def)

lemma wf_setVirtualMod [intro]: "wf_ModifiedKey mk \<Longrightarrow> wf_ModifiedKey (setVirtualMod m b mk)"
  by (simp add: wf_ModifiedKey_def setVirtualMod_def Let_def)

lemma ModifiedKey_eq_iff:
  "wf_ModifiedKey a \<Longrightarrow> wf_ModifiedKey b \<Longrightarrow> ModifiedKey_eq a b \<longleftrightarrow> a = b"
  by (auto simp: ModifiedKey_eq_def wf_ModifiedKey_def intro!: ModifiedKey.equality nth_equalityI)

lemma isVirtualModActive_bit:
  "isVirtualModActive mk m \<longleftrightarrow> bit (mk_virtualMods mk ! (unat m div 32)) (unat m mod 32)"
  by (simp only: isVirtualModActive_def Let_def and_push_bit_1)

lemma unat_u8_split: "unat (m :: u8) div 32 = unat n div 32 \<Longrightarrow> unat m mod 32 = unat n mod 32 \<Longrightarrow> m = n"
  by (metis div_mult_mod_eq word_unat_eq_iff)

lemma isVirtualModActive_set:
  assumes "wf_ModifiedKey mk"
  shows "isVirtualModActive (setVirtualMod m b mk) n \<longleftrightarrow>
           (if n = m then b else isVirtualModActive mk n)"
proof -
  have len: "unat m div 32 < length (mk_virtualMods mk)"
    using assms by (simp add: wf_ModifiedKey_def)
  show ?thesis
  proof (cases "unat n div 32 = unat m div 32")
    case False
    then have "n \<noteq> m" by auto
    with False show ?thesis
      by (simp add: isVirtualModActive_bit setVirtualMod_def Let_def)
  next
    case True
    then have "n = m \<longleftrightarrow> unat n mod 32 = unat m mod 32"
      using unat_u8_split [of n m] by auto
    with True len show ?thesis
      by (cases b) (auto simp: isVirtualModActive_bit setVirtualMod_def Let_def
          bit_or_iff bit_and_iff bit_not_iff bit_exp_iff)
  qed
qed

lemma isVirtualModActive_new [simp]:
  "\<not> isVirtualModActive new_ModifiedKey m" "\<not> isVirtualModActive (ModifiedKey_of k) m"
  by (simp_all add: isVirtualModActive_bit new_ModifiedKey_def ModifiedKey_of_def)

end
