(* ===== verification/Modifier_State.thy ===== *)
theory Modifier_State
  imports Key_Types
begin

text \<open>
  src/core/input/modifier_state.h and modifier_state.cpp: the 528-bit set that holds the
  16 standard modifier flags, the 256 virtual modifiers M00 to MFF and the 256 locks L00 to
  LFF. The bit set is a \<^typ>\<open>528 word\<close>. The lock-change callback is a flag saying whether one is
  installed and the list of the arrays it was called with.
\<close>

unbundle bit_operations_syntax

section \<open>Layout\<close>

definition STD_MOD_COUNT :: nat where "STD_MOD_COUNT = 16"
definition VIRTUAL_MOD_COUNT :: nat where "VIRTUAL_MOD_COUNT = 256"
definition LOCK_COUNT :: nat where "LOCK_COUNT = 256"
definition STD_OFFSET :: nat where "STD_OFFSET = 0"
definition VIRTUAL_OFFSET :: nat where "VIRTUAL_OFFSET = STD_OFFSET + STD_MOD_COUNT"
definition LOCK_OFFSET :: nat where "LOCK_OFFSET = VIRTUAL_OFFSET + VIRTUAL_MOD_COUNT"
definition TOTAL_BITS :: nat where "TOTAL_BITS = LOCK_OFFSET + LOCK_COUNT"

type_synonym state_bits = "528 word"

lemmas layout_defs = STD_MOD_COUNT_def VIRTUAL_MOD_COUNT_def LOCK_COUNT_def STD_OFFSET_def
  VIRTUAL_OFFSET_def LOCK_OFFSET_def TOTAL_BITS_def

lemma VIRTUAL_OFFSET_val [simp]: "VIRTUAL_OFFSET = 16" by (simp add: layout_defs)
lemma LOCK_OFFSET_val [simp]: "LOCK_OFFSET = 272" by (simp add: layout_defs)
lemma TOTAL_BITS_val: "TOTAL_BITS = LENGTH(528)" by (simp add: layout_defs)

text \<open>\<^verbatim>\<open>enum StdModifier\<close>; its sentinel \<^verbatim>\<open>static_cast<StdModifier>(-1)\<close> is None below.\<close>

datatype StdModifier = LSHIFT | RSHIFT | LCTRL | RCTRL | LALT | RALT | LWIN | RWIN
  | CAPSLOCK | NUMLOCK | SCROLLLOCK | STD_UP | STD_DOWN | STD_REPEAT | IMELOCK | IMECOMP

primrec std_index :: "StdModifier \<Rightarrow> nat" where
  "std_index LSHIFT = 0" | "std_index RSHIFT = 1" | "std_index LCTRL = 2" | "std_index RCTRL = 3"
| "std_index LALT = 4" | "std_index RALT = 5" | "std_index LWIN = 6" | "std_index RWIN = 7"
| "std_index CAPSLOCK = 8" | "std_index NUMLOCK = 9" | "std_index SCROLLLOCK = 10"
| "std_index STD_UP = 11" | "std_index STD_DOWN = 12" | "std_index STD_REPEAT = 13"
| "std_index IMELOCK = 14" | "std_index IMECOMP = 15"

lemma std_index_less [simp]: "std_index m < 16"
  by (cases m) simp_all

lemma std_index_inject [simp]: "std_index a = std_index b \<longleftrightarrow> a = b"
  by (cases a; cases b) simp_all

section \<open>State\<close>

record ModifierState =
  ms_state :: state_bits
  ms_notifyCallback :: bool
  ms_notified :: "u32 list list"

text \<open>The key event fields the class reads (src/core/platform/types.h).\<close>

record KeyEvent =
  ke_isKeyDown :: bool
  ke_isExtended :: bool
  ke_scanCode :: u32
  ke_extraInfo :: u64

text \<open>\<^verbatim>\<open>KEYBOARD_INPUT_DATA\<close> (src/core/input/input_event.h).\<close>

record KEYBOARD_INPUT_DATA =
  UnitId :: u16
  MakeCode :: u16
  Flags :: u16
  Reserved :: u16
  ExtraInformation :: u64

definition set_state_bit :: "nat \<Rightarrow> bool \<Rightarrow> state_bits \<Rightarrow> state_bits" where
  "set_state_bit n b w = (if b then set_bit n w else unset_bit n w)"

lemma bit_set_state_bit [bits_simps]:
  "bit (set_state_bit n b w) k \<longleftrightarrow> (if k = n then b \<and> n < 528 else bit w k)"
  using bit_imp_le_length [of w n] by (auto simp: set_state_bit_def bit_simps)

section \<open>Notification of lock changes\<close>

text \<open>The loop of \<^verbatim>\<open>notifyGUILocks\<close>: \<^verbatim>\<open>lock_bits[i / 32] |= (1u << (i % 32))\<close>.\<close>

definition lock_bits_step :: "state_bits \<Rightarrow> nat \<Rightarrow> u32 list \<Rightarrow> u32 list" where
  "lock_bits_step w i lb =
     (if bit w (LOCK_OFFSET + i) then lb[i div 32 := lb ! (i div 32) OR push_bit (i mod 32) 1]
      else lb)"

definition lock_bits :: "state_bits \<Rightarrow> u32 list" where
  "lock_bits w = fold (lock_bits_step w) [0..<256] (replicate 8 0)"

definition notifyGUILocks :: "ModifierState \<Rightarrow> ModifierState" where
  "notifyGUILocks s =
     (if ms_notifyCallback s then s\<lparr>ms_notified := ms_notified s @ [lock_bits (ms_state s)]\<rparr>
      else s)"

section \<open>Operations\<close>

definition new_ModifierState :: ModifierState where
  "new_ModifierState = \<lparr>ms_state = 0, ms_notifyCallback = False, ms_notified = []\<rparr>"

definition ms_reset :: "ModifierState \<Rightarrow> ModifierState" where
  "ms_reset s = notifyGUILocks (s\<lparr>ms_state := 0\<rparr>)"

definition setNotificationCallback :: "ModifierState \<Rightarrow> ModifierState" where
  "setNotificationCallback s = s\<lparr>ms_notifyCallback := True\<rparr>"

definition setStdFlag :: "StdModifier \<Rightarrow> bool \<Rightarrow> ModifierState \<Rightarrow> ModifierState" where
  "setStdFlag f b s = s\<lparr>ms_state := set_state_bit (STD_OFFSET + std_index f) b (ms_state s)\<rparr>"

text \<open>\<^verbatim>\<open>scancodeToStdModifier\<close>: the two cases 0x5B and 0x5C fall out of the switch when the
  extended flag is missing.\<close>

definition scancodeToStdModifier :: "u16 \<Rightarrow> u16 \<Rightarrow> StdModifier option" where
  "scancodeToStdModifier scancode flags =
     (let isExtended = flags AND KID_E0 \<noteq> 0 in
      if scancode = 0x2A then Some LSHIFT
      else if scancode = 0x36 then Some RSHIFT
      else if scancode = 0x1D then (if isExtended then Some RCTRL else Some LCTRL)
      else if scancode = 0x38 then (if isExtended then Some RALT else Some LALT)
      else if scancode = 0x5B then (if isExtended then Some LWIN else None)
      else if scancode = 0x5C then (if isExtended then Some RWIN else None)
      else if scancode = 0x3A then Some CAPSLOCK
      else if scancode = 0x45 then Some NUMLOCK
      else if scancode = 0x46 then Some SCROLLLOCK
      else None)"

definition keycodeToStdModifier :: "u32 \<Rightarrow> StdModifier option" where
  "keycodeToStdModifier keycode =
     (if keycode = 42 then Some LSHIFT
      else if keycode = 54 then Some RSHIFT
      else if keycode = 29 then Some LCTRL
      else if keycode = 97 then Some RCTRL
      else if keycode = 56 then Some LALT
      else if keycode = 100 then Some RALT
      else if keycode = 125 then Some LWIN
      else if keycode = 126 then Some RWIN
      else if keycode = 58 then Some CAPSLOCK
      else if keycode = 69 then Some NUMLOCK
      else if keycode = 70 then Some SCROLLLOCK
      else None)"

definition isModifierScancode :: "u16 \<Rightarrow> u16 \<Rightarrow> bool" where
  "isModifierScancode scancode flags \<longleftrightarrow> scancodeToStdModifier scancode flags \<noteq> None"

definition isModifierKeycode :: "u32 \<Rightarrow> bool" where
  "isModifierKeycode keycode \<longleftrightarrow> keycodeToStdModifier keycode \<noteq> None"

definition updateFromKeyEvent :: "KeyEvent \<Rightarrow> ModifierState \<Rightarrow> bool \<times> ModifierState" where
  "updateFromKeyEvent event s =
     (let m0 = scancodeToStdModifier (ucast (ke_scanCode event))
                 (if ke_isExtended event then KID_E0 else 0);
          m1 = (if m0 = Some RCTRL \<and> \<not> ke_isExtended event then Some LCTRL else m0);
          m2 = (if m1 = Some RALT \<and> \<not> ke_isExtended event then Some LALT else m1);
          m3 = (if m2 = None then keycodeToStdModifier (ke_scanCode event) else m2)
      in case m3 of
           Some m \<Rightarrow> (True, setStdFlag m (ke_isKeyDown event) s)
         | None \<Rightarrow> (False, s))"

definition updateFromKID :: "KEYBOARD_INPUT_DATA \<Rightarrow> ModifierState \<Rightarrow> bool \<times> ModifierState" where
  "updateFromKID kid s =
     (let isKeyDown = (Flags kid AND KID_BREAK = 0) in
      case scancodeToStdModifier (MakeCode kid) (Flags kid) of
        Some m \<Rightarrow> (True, setStdFlag m isKeyDown s)
      | None \<Rightarrow> (False, s))"

definition std_flag :: "ModifierState \<Rightarrow> StdModifier \<Rightarrow> bool" where
  "std_flag s f = bit (ms_state s) (std_index f)"

definition isShiftPressed :: "ModifierState \<Rightarrow> bool" where
  "isShiftPressed s \<longleftrightarrow> std_flag s LSHIFT \<or> std_flag s RSHIFT"
definition isCtrlPressed :: "ModifierState \<Rightarrow> bool" where
  "isCtrlPressed s \<longleftrightarrow> std_flag s LCTRL \<or> std_flag s RCTRL"
definition isAltPressed :: "ModifierState \<Rightarrow> bool" where
  "isAltPressed s \<longleftrightarrow> std_flag s LALT \<or> std_flag s RALT"
definition isWinPressed :: "ModifierState \<Rightarrow> bool" where
  "isWinPressed s \<longleftrightarrow> std_flag s LWIN \<or> std_flag s RWIN"

definition activateModifier :: "u8 \<Rightarrow> ModifierState \<Rightarrow> ModifierState" where
  "activateModifier n s = s\<lparr>ms_state := set_state_bit (VIRTUAL_OFFSET + unat n) True (ms_state s)\<rparr>"

definition deactivateModifier :: "u8 \<Rightarrow> ModifierState \<Rightarrow> ModifierState" where
  "deactivateModifier n s =
     s\<lparr>ms_state := set_state_bit (VIRTUAL_OFFSET + unat n) False (ms_state s)\<rparr>"

definition isModifierActive :: "ModifierState \<Rightarrow> u8 \<Rightarrow> bool" where
  "isModifierActive s n = bit (ms_state s) (VIRTUAL_OFFSET + unat n)"

definition toggleLock :: "u8 \<Rightarrow> ModifierState \<Rightarrow> ModifierState" where
  "toggleLock n s = notifyGUILocks (s\<lparr>ms_state := flip_bit (LOCK_OFFSET + unat n) (ms_state s)\<rparr>)"

definition isLockActive :: "ModifierState \<Rightarrow> u8 \<Rightarrow> bool" where
  "isLockActive s n = bit (ms_state s) (LOCK_OFFSET + unat n)"

text \<open>\<^verbatim>\<open>toModifier\<close>: the seven flags, pressed onto a default modifier in the code's order.\<close>

definition toModifier :: "ModifierState \<Rightarrow> Modifier" where
  "toModifier s = fold (\<lambda>(b, t) m. if b then press t m else m)
     [(isShiftPressed s, Type_Shift), (isCtrlPressed s, Type_Control),
      (isAltPressed s, Type_Alt), (isWinPressed s, Type_Windows),
      (std_flag s CAPSLOCK, Type_CapsLock), (std_flag s NUMLOCK, Type_NumLock),
      (std_flag s SCROLLLOCK, Type_ScrollLock)] new_Modifier"

section \<open>What one operation changes\<close>

lemma unat_u8_inject: "unat (a :: u8) = unat b \<longleftrightarrow> a = b"
  by (simp add: word_unat_eq_iff)

lemma notifyGUILocks_state [simp]: "ms_state (notifyGUILocks s) = ms_state s"
  by (simp add: notifyGUILocks_def)

lemma activate_reads [bits_simps]:
  "isModifierActive (activateModifier n s) k \<longleftrightarrow> k = n \<or> isModifierActive s k"
  "isLockActive (activateModifier n s) k = isLockActive s k"
  "std_flag (activateModifier n s) f = std_flag s f"
  using unat_u8_less [of n] unat_u8_less [of k] std_index_less [of f]
  by (auto simp: isModifierActive_def isLockActive_def std_flag_def activateModifier_def
      bit_set_state_bit unat_u8_inject simp del: std_index_less unat_u8_less)

lemma deactivate_reads [bits_simps]:
  "isModifierActive (deactivateModifier n s) k \<longleftrightarrow> k \<noteq> n \<and> isModifierActive s k"
  "isLockActive (deactivateModifier n s) k = isLockActive s k"
  "std_flag (deactivateModifier n s) f = std_flag s f"
  using unat_u8_less [of n] unat_u8_less [of k] std_index_less [of f]
  by (auto simp: isModifierActive_def isLockActive_def std_flag_def deactivateModifier_def
      bit_set_state_bit unat_u8_inject simp del: std_index_less unat_u8_less)

lemma setStdFlag_reads [bits_simps]:
  "isModifierActive (setStdFlag g b s) k = isModifierActive s k"
  "isLockActive (setStdFlag g b s) k = isLockActive s k"
  "std_flag (setStdFlag g b s) f = (if f = g then b else std_flag s f)"
  using std_index_less [of g]
  by (auto simp: isModifierActive_def isLockActive_def std_flag_def setStdFlag_def
      bit_set_state_bit STD_OFFSET_def simp del: std_index_less unat_u8_less)

lemma toggleLock_reads [bits_simps]:
  "isModifierActive (toggleLock n s) k = isModifierActive s k"
  "isLockActive (toggleLock n s) k \<longleftrightarrow> (if k = n then \<not> isLockActive s k else isLockActive s k)"
  "std_flag (toggleLock n s) f = std_flag s f"
  using unat_u8_less [of n] unat_u8_less [of k] std_index_less [of f]
  by (auto simp: isModifierActive_def isLockActive_def std_flag_def toggleLock_def
      bit_flip_bit_iff possible_bit_def unat_u8_inject simp del: std_index_less unat_u8_less)

lemma reset_reads [bits_simps]:
  "\<not> isModifierActive (ms_reset s) k" "\<not> isLockActive (ms_reset s) k" "\<not> std_flag (ms_reset s) f"
  by (simp_all add: isModifierActive_def isLockActive_def std_flag_def ms_reset_def)

section \<open>The lock array\<close>

lemma lock_bits_fold:
  "is \<subseteq> {..<256} \<Longrightarrow> distinct xs \<Longrightarrow> set xs = is \<Longrightarrow> length lb = 8 \<Longrightarrow>
     length (fold (lock_bits_step w) xs lb) = 8 \<and>
     (\<forall>k<256. bit (fold (lock_bits_step w) xs lb ! (k div 32)) (k mod 32) \<longleftrightarrow>
        bit (lb ! (k div 32)) (k mod 32) \<or> (k \<in> is \<and> bit w (LOCK_OFFSET + k)))"
proof (induction xs arbitrary: lb "is")
  case Nil
  then show ?case by simp
next
  case (Cons i xs)
  let ?lb = "lock_bits_step w i lb"
  have i: "i < 256" and len: "length ?lb = 8"
    using Cons.prems by (auto simp: lock_bits_step_def)
  have one: "bit (?lb ! (k div 32)) (k mod 32) \<longleftrightarrow>
      bit (lb ! (k div 32)) (k mod 32) \<or> (k = i \<and> bit w (LOCK_OFFSET + k))" if "k < 256" for k
  proof (cases "k div 32 = i div 32")
    case False
    then show ?thesis by (auto simp: lock_bits_step_def)
  next
    case True
    have "i div 32 < length lb" using i Cons.prems(4) by simp
    moreover have "k = i \<longleftrightarrow> k mod 32 = i mod 32"
      using True by (metis div_mult_mod_eq)
    ultimately show ?thesis
      using True by (auto simp: lock_bits_step_def bit_or_iff bit_exp_iff)
  qed
  have sub: "set xs \<subseteq> {..<256}" and "distinct xs"
    using Cons.prems(1,2,3) by auto
  then have IH: "length (fold (lock_bits_step w) xs ?lb) = 8 \<and>
     (\<forall>k<256. bit (fold (lock_bits_step w) xs ?lb ! (k div 32)) (k mod 32) \<longleftrightarrow>
        bit (?lb ! (k div 32)) (k mod 32) \<or> (k \<in> set xs \<and> bit w (LOCK_OFFSET + k)))"
    using Cons.IH [OF sub _ refl len] by blast
  show ?case
    using IH one Cons.prems(3) by auto
qed

lemma length_lock_bits [simp]: "length (lock_bits w) = 8"
  unfolding lock_bits_def
  using lock_bits_fold [of "{..<256}" "[0..<256]" "replicate 8 0" w] by (simp add: atLeast0LessThan)

lemma bit_lock_bits:
  "k < 256 \<Longrightarrow> bit (lock_bits w ! (k div 32)) (k mod 32) \<longleftrightarrow> bit w (LOCK_OFFSET + k)"
  unfolding lock_bits_def
  using lock_bits_fold [of "{..<256}" "[0..<256]" "replicate 8 0" w] by (simp add: atLeast0LessThan)

end
