(* ===== verification/Modifier_Key_Handler.thy ===== *)
theory Modifier_Key_Handler
  imports Modifier_State
begin

text \<open>
  src/core/engine/modifier_key_handler.h and modifier_key_handler.cpp: the hold-versus-tap
  state machine of the keys that act as modifiers. \<^verbatim>\<open>std::chrono::steady_clock::now()\<close> is the
  argument \<open>clock\<close>: \<open>clock i\<close> is the i-th reading an operation takes, in nanoseconds.
\<close>

unbundle bit_operations_syntax

section \<open>Data\<close>

text \<open>\<^verbatim>\<open>enum class EventType\<close> (engine_event_processor.h).\<close>

datatype EventType = RELEASE | PRESS | REPEAT

datatype HardwareModifier = HW_NONE | HW_LSHIFT | HW_RSHIFT | HW_LCTRL | HW_RCTRL
  | HW_LALT | HW_RALT | HW_LWIN | HW_RWIN

datatype NumberKeyState = IDLE | WAITING | MODIFIER_ACTIVE | TAP_DETECTED

datatype ProcessingAction = NOT_A_NUMBER_MODIFIER | ACTIVATE_MODIFIER | DEACTIVATE_MODIFIER
  | APPLY_SUBSTITUTION_PRESS | APPLY_SUBSTITUTION_RELEASE | WAITING_FOR_THRESHOLD

record NumberKeyResult =
  nk_action :: ProcessingAction
  nk_output :: u16
  nk_modifier_type :: int
  nk_valid :: bool

text \<open>The two non-default constructors; the three-argument one stores modifier type -1.\<close>

definition NumberKeyResult3 :: "ProcessingAction \<Rightarrow> u16 \<Rightarrow> bool \<Rightarrow> NumberKeyResult" where
  "NumberKeyResult3 a c v = \<lparr>nk_action = a, nk_output = c, nk_modifier_type = -1, nk_valid = v\<rparr>"

definition NumberKeyResult4 :: "ProcessingAction \<Rightarrow> u16 \<Rightarrow> int \<Rightarrow> bool \<Rightarrow> NumberKeyResult" where
  "NumberKeyResult4 a c m v = \<lparr>nk_action = a, nk_output = c, nk_modifier_type = m, nk_valid = v\<rparr>"

record KeyState =
  ks_state :: NumberKeyState
  ks_press_time :: int
  ks_target_modifier :: HardwareModifier
  ks_is_virtual :: bool
  ks_virtual_mod_num :: u8
  ks_tap_output :: u16

definition new_KeyState :: KeyState where
  "new_KeyState = \<lparr>ks_state = IDLE, ks_press_time = 0, ks_target_modifier = HW_NONE,
                   ks_is_virtual = False, ks_virtual_mod_num = 0, ks_tap_output = 0\<rparr>"

record ModifierKeyHandler =
  mh_number_to_modifier :: "(u16 \<times> HardwareModifier) list"
  mh_key_states :: "(u16 \<times> KeyState) list"
  mh_virtual_modifiers :: "(u16 \<times> u16) list"
  mh_hold_threshold_ms :: u32

definition new_ModifierKeyHandler :: "u32 \<Rightarrow> ModifierKeyHandler" where
  "new_ModifierKeyHandler thr = \<lparr>mh_number_to_modifier = [], mh_key_states = [],
     mh_virtual_modifiers = [], mh_hold_threshold_ms = thr\<rparr>"

section \<open>Registration\<close>

text \<open>\<^verbatim>\<open>m_key_states[k]\<close> creates a default entry when the key is new.\<close>

definition key_state_at :: "ModifierKeyHandler \<Rightarrow> u16 \<Rightarrow> KeyState" where
  "key_state_at h k = (case map_of (mh_key_states h) k of Some ks \<Rightarrow> ks | None \<Rightarrow> new_KeyState)"

definition put_key_state :: "u16 \<Rightarrow> KeyState \<Rightarrow> ModifierKeyHandler \<Rightarrow> ModifierKeyHandler" where
  "put_key_state k ks h = h\<lparr>mh_key_states := AList.update k ks (mh_key_states h)\<rparr>"

definition mh_registerNumberModifier ::
    "u16 \<Rightarrow> HardwareModifier \<Rightarrow> ModifierKeyHandler \<Rightarrow> ModifierKeyHandler" where
  "mh_registerNumberModifier k m h =
     put_key_state k (new_KeyState\<lparr>ks_target_modifier := m\<rparr>)
       (h\<lparr>mh_number_to_modifier := AList.update k m (mh_number_to_modifier h)\<rparr>)"

definition mh_registerVirtualModifier ::
    "u16 \<Rightarrow> u16 \<Rightarrow> ModifierKeyHandler \<Rightarrow> ModifierKeyHandler" where
  "mh_registerVirtualModifier code tap h =
     put_key_state code
       ((key_state_at h code)\<lparr>ks_is_virtual := True, ks_virtual_mod_num := ucast (code - 0xF000),
                              ks_tap_output := tap\<rparr>)
       (h\<lparr>mh_virtual_modifiers := AList.update code tap (mh_virtual_modifiers h)\<rparr>)"

definition mh_registerVirtualModifiersFromMap ::
    "(u8 \<times> u16) list \<Rightarrow> ModifierKeyHandler \<Rightarrow> ModifierKeyHandler" where
  "mh_registerVirtualModifiersFromMap m h =
     fold (\<lambda>(mod_num, tap). mh_registerVirtualModifier (0xF000 + ucast mod_num) tap) m h"

definition mh_registerVirtualModifierTrigger ::
    "u16 \<Rightarrow> u8 \<Rightarrow> u16 \<Rightarrow> ModifierKeyHandler \<Rightarrow> ModifierKeyHandler" where
  "mh_registerVirtualModifierTrigger trigger mod_num tap h =
     put_key_state trigger
       ((key_state_at h trigger)\<lparr>ks_is_virtual := True, ks_virtual_mod_num := mod_num,
                                 ks_tap_output := tap, ks_state := IDLE\<rparr>) h"

section \<open>Time\<close>

text \<open>\<^verbatim>\<open>duration_cast\<close> truncates towards zero.\<close>

definition duration_cast :: "int \<Rightarrow> int \<Rightarrow> int" where
  "duration_cast unit d = (if 0 \<le> d then d div unit else - ((- d) div unit))"

definition hasExceededThreshold :: "u32 \<Rightarrow> int \<Rightarrow> int \<Rightarrow> bool" where
  "hasExceededThreshold thr press_time now \<longleftrightarrow>
     uint thr \<le> duration_cast 1000000 (now - press_time)"

definition hasExceededMaximum :: "int \<Rightarrow> int \<Rightarrow> bool" where
  "hasExceededMaximum press_time now \<longleftrightarrow> 5 < duration_cast 1000000000 (now - press_time)"

section \<open>The state machine\<close>

text \<open>\<^verbatim>\<open>getModifierVKCode\<close>, with the values of src/core/input/vk_constants.h.\<close>

primrec getModifierVKCode :: "HardwareModifier \<Rightarrow> u16" where
  "getModifierVKCode HW_LSHIFT = 0xA0"
| "getModifierVKCode HW_RSHIFT = 0xA1"
| "getModifierVKCode HW_LCTRL = 0xA2"
| "getModifierVKCode HW_RCTRL = 0xA3"
| "getModifierVKCode HW_LALT = 0xA4"
| "getModifierVKCode HW_RALT = 0xA5"
| "getModifierVKCode HW_LWIN = 0x5B"
| "getModifierVKCode HW_RWIN = 0x5C"
| "getModifierVKCode HW_NONE = 0"

text \<open>The PRESS half of \<^verbatim>\<open>processNumberKey\<close> on the entry of the key.\<close>

definition process_press :: "(nat \<Rightarrow> int) \<Rightarrow> u32 \<Rightarrow> KeyState \<Rightarrow> KeyState \<times> NumberKeyResult" where
  "process_press clock thr ks =
     (case ks_state ks of
        IDLE \<Rightarrow> (ks\<lparr>ks_state := WAITING, ks_press_time := clock 0\<rparr>,
                 NumberKeyResult3 WAITING_FOR_THRESHOLD 0 False)
      | WAITING \<Rightarrow>
          (if hasExceededMaximum (ks_press_time ks) (clock 0) then
             (ks\<lparr>ks_state := IDLE\<rparr>, NumberKeyResult3 NOT_A_NUMBER_MODIFIER 0 False)
           else if hasExceededThreshold thr (ks_press_time ks) (clock 1) then
             (ks\<lparr>ks_state := MODIFIER_ACTIVE\<rparr>,
              (if ks_is_virtual ks
               then NumberKeyResult4 ACTIVATE_MODIFIER 0 (uint (ks_virtual_mod_num ks)) True
               else NumberKeyResult3 ACTIVATE_MODIFIER
                      (getModifierVKCode (ks_target_modifier ks)) True))
           else (ks, NumberKeyResult3 WAITING_FOR_THRESHOLD 0 False))
      | MODIFIER_ACTIVE \<Rightarrow> (ks, NumberKeyResult3 WAITING_FOR_THRESHOLD 0 False)
      | TAP_DETECTED \<Rightarrow> (ks\<lparr>ks_state := WAITING, ks_press_time := clock 0\<rparr>,
                         NumberKeyResult3 WAITING_FOR_THRESHOLD 0 False))"

text \<open>The RELEASE half. Reading 0 is taken for the log line, reading 1 by the threshold test.\<close>

definition process_release :: "(nat \<Rightarrow> int) \<Rightarrow> u32 \<Rightarrow> KeyState \<Rightarrow> KeyState \<times> NumberKeyResult" where
  "process_release clock thr ks =
     (case ks_state ks of
        IDLE \<Rightarrow> (ks, NumberKeyResult3 NOT_A_NUMBER_MODIFIER 0 False)
      | WAITING \<Rightarrow>
          (if hasExceededThreshold thr (ks_press_time ks) (clock 1) then
             (ks\<lparr>ks_state := IDLE\<rparr>, NumberKeyResult3 WAITING_FOR_THRESHOLD 0 False)
           else
             (ks\<lparr>ks_state := IDLE\<rparr>,
              (if ks_is_virtual ks then
                 (if ks_tap_output ks \<noteq> 0
                  then NumberKeyResult3 APPLY_SUBSTITUTION_RELEASE (ks_tap_output ks) True
                  else NumberKeyResult3 WAITING_FOR_THRESHOLD 0 False)
               else NumberKeyResult3 APPLY_SUBSTITUTION_RELEASE 0 True)))
      | MODIFIER_ACTIVE \<Rightarrow>
          (ks\<lparr>ks_state := IDLE\<rparr>,
           (if ks_is_virtual ks
            then NumberKeyResult4 DEACTIVATE_MODIFIER 0 (uint (ks_virtual_mod_num ks)) True
            else NumberKeyResult3 DEACTIVATE_MODIFIER
                   (getModifierVKCode (ks_target_modifier ks)) True))
      | TAP_DETECTED \<Rightarrow>
          (ks\<lparr>ks_state := IDLE\<rparr>, NumberKeyResult3 APPLY_SUBSTITUTION_RELEASE 0 True))"

definition processNumberKey ::
    "(nat \<Rightarrow> int) \<Rightarrow> u16 \<Rightarrow> EventType \<Rightarrow> ModifierKeyHandler \<Rightarrow> ModifierKeyHandler \<times> NumberKeyResult" where
  "processNumberKey clock k ty h =
     (case map_of (mh_key_states h) k of
        None \<Rightarrow> (h, NumberKeyResult3 NOT_A_NUMBER_MODIFIER 0 False)
      | Some ks \<Rightarrow>
          (case ty of
             PRESS \<Rightarrow> (let (ks', r) = process_press clock (mh_hold_threshold_ms h) ks
                       in (put_key_state k ks' h, r))
           | RELEASE \<Rightarrow> (let (ks', r) = process_release clock (mh_hold_threshold_ms h) ks
                         in (put_key_state k ks' h, r))
           | REPEAT \<Rightarrow> (h, NumberKeyResult3 NOT_A_NUMBER_MODIFIER 0 False)))"

text \<open>
  \<^verbatim>\<open>checkAndActivateWaitingModifiers\<close>: one pass over the entries, in the container's order;
  each WAITING entry takes one reading of the clock.
\<close>

fun check_states ::
    "(nat \<Rightarrow> int) \<Rightarrow> u32 \<Rightarrow> nat \<Rightarrow> (u16 \<times> KeyState) list \<Rightarrow> (u16 \<times> KeyState) list \<times> (u16 \<times> u8) list" where
  "check_states clock thr n [] = ([], [])"
| "check_states clock thr n ((k, ks) # rest) =
     (if ks_state ks \<noteq> WAITING then
        (let (sts, act) = check_states clock thr n rest in ((k, ks) # sts, act))
      else if hasExceededThreshold thr (ks_press_time ks) (clock n) then
        (let (sts, act) = check_states clock thr (Suc n) rest
         in ((k, ks\<lparr>ks_state := MODIFIER_ACTIVE\<rparr>) # sts,
             (if ks_is_virtual ks then (k, ks_virtual_mod_num ks) # act else act)))
      else
        (let (sts, act) = check_states clock thr (Suc n) rest in ((k, ks) # sts, act)))"

definition checkAndActivateWaitingModifiers ::
    "(nat \<Rightarrow> int) \<Rightarrow> ModifierKeyHandler \<Rightarrow> ModifierKeyHandler \<times> (u16 \<times> u8) list" where
  "checkAndActivateWaitingModifiers clock h =
     (let (sts, act) = check_states clock (mh_hold_threshold_ms h) 0 (mh_key_states h)
      in (h\<lparr>mh_key_states := sts\<rparr>, act))"

section \<open>Queries and reset\<close>

definition isNumberModifier :: "ModifierKeyHandler \<Rightarrow> u16 \<Rightarrow> bool" where
  "isNumberModifier h k \<longleftrightarrow> map_of (mh_number_to_modifier h) k \<noteq> None"

definition isVirtualModifier :: "ModifierKeyHandler \<Rightarrow> u16 \<Rightarrow> bool" where
  "isVirtualModifier h k =
     (case map_of (mh_key_states h) k of None \<Rightarrow> False | Some ks \<Rightarrow> ks_is_virtual ks)"

definition isModifierHeld :: "ModifierKeyHandler \<Rightarrow> u16 \<Rightarrow> bool" where
  "isModifierHeld h k =
     (case map_of (mh_key_states h) k of None \<Rightarrow> False | Some ks \<Rightarrow> ks_state ks = MODIFIER_ACTIVE)"

definition isWaitingForThreshold :: "ModifierKeyHandler \<Rightarrow> u16 \<Rightarrow> bool" where
  "isWaitingForThreshold h k =
     (case map_of (mh_key_states h) k of None \<Rightarrow> False | Some ks \<Rightarrow> ks_state ks = WAITING)"

definition mh_reset :: "ModifierKeyHandler \<Rightarrow> ModifierKeyHandler" where
  "mh_reset h = h\<lparr>mh_key_states := map (\<lambda>(k, ks). (k, ks\<lparr>ks_state := IDLE\<rparr>)) (mh_key_states h)\<rparr>"

section \<open>Basic facts\<close>

lemma map_of_put_key_state [simp]:
  "map_of (mh_key_states (put_key_state k ks h)) j =
     (if j = k then Some ks else map_of (mh_key_states h) j)"
  by (simp add: put_key_state_def update_conv')

lemma put_key_state_threshold [simp]:
  "mh_hold_threshold_ms (put_key_state k ks h) = mh_hold_threshold_ms h"
  by (simp add: put_key_state_def)

lemma keys_put_key_state:
  "fst ` set (mh_key_states (put_key_state k ks h)) = insert k (fst ` set (mh_key_states h))"
  by (metis dom_map_of_conv_image_fst put_key_state_def ModifierKeyHandler.select_convs(2)
      ModifierKeyHandler.update_convs(2) ModifierKeyHandler.surjective dom_fun_upd option.distinct(1) update_conv')

text \<open>The pass of \<^const>\<open>check_states\<close> key by key, for a clock that shows one instant.\<close>

definition check_key :: "u32 \<Rightarrow> int \<Rightarrow> KeyState \<Rightarrow> KeyState" where
  "check_key thr now ks =
     (if ks_state ks = WAITING \<and> hasExceededThreshold thr (ks_press_time ks) now
      then ks\<lparr>ks_state := MODIFIER_ACTIVE\<rparr> else ks)"

lemma check_states_const:
  "fst (check_states (\<lambda>_. now) thr n sts) = map (\<lambda>(k, ks). (k, check_key thr now ks)) sts"
  "snd (check_states (\<lambda>_. now) thr n sts) =
     map (\<lambda>(k, ks). (k, ks_virtual_mod_num ks))
       (filter (\<lambda>(k, ks). ks_state ks = WAITING \<and>
          hasExceededThreshold thr (ks_press_time ks) now \<and> ks_is_virtual ks) sts)"
  by (induction sts arbitrary: n) (auto simp: check_key_def case_prod_unfold Let_def)

lemma check_states_keys: "map fst (fst (check_states clock thr n sts)) = map fst sts"
  by (induction sts arbitrary: n) (auto simp: case_prod_unfold Let_def)

text \<open>For any clock: an entry is left alone or goes from WAITING to MODIFIER_ACTIVE.\<close>

lemma check_states_rel:
  "list_all2 (\<lambda>(k, ks) (k', ks'). k' = k \<and>
       (ks' = ks \<or> ks_state ks = WAITING \<and> ks' = ks\<lparr>ks_state := MODIFIER_ACTIVE\<rparr>))
     sts (fst (check_states clock thr n sts))"
proof (induction sts arbitrary: n)
  case Nil
  then show ?case by simp
next
  case (Cons a sts)
  show ?case
    using Cons.IH [of n] Cons.IH [of "Suc n"] by (cases a) (simp add: case_prod_unfold Let_def)
qed

lemma list_all2_map_of:
  assumes "list_all2 (\<lambda>(k, v) (k', v'). k' = k \<and> R v v') xs ys"
  shows "rel_option R (map_of xs k) (map_of ys k)"
  using assms by (induction rule: list_all2_induct) auto

lemma check_states_entry:
  "rel_option (\<lambda>ks ks'. ks' = ks \<or>
       ks_state ks = WAITING \<and> ks' = ks\<lparr>ks_state := MODIFIER_ACTIVE\<rparr>)
     (map_of sts k) (map_of (fst (check_states clock thr n sts)) k)"
  by (rule list_all2_map_of) (rule check_states_rel)

section \<open>Configuration and phase of a key\<close>

text \<open>The virtual modifier a key triggers, if it is registered as such.\<close>

definition trigger_of :: "ModifierKeyHandler \<Rightarrow> u16 \<Rightarrow> u8 option" where
  "trigger_of h k =
     (case map_of (mh_key_states h) k of
        None \<Rightarrow> None
      | Some ks \<Rightarrow> if ks_is_virtual ks then Some (ks_virtual_mod_num ks) else None)"

definition same_config :: "KeyState \<Rightarrow> KeyState \<Rightarrow> bool" where
  "same_config a b \<longleftrightarrow>
     ks_target_modifier b = ks_target_modifier a \<and> ks_is_virtual b = ks_is_virtual a \<and>
     ks_virtual_mod_num b = ks_virtual_mod_num a \<and> ks_tap_output b = ks_tap_output a"

lemma same_config_refl [simp]: "same_config a a"
  by (simp add: same_config_def)

lemma process_press_config: "same_config ks (fst (process_press clock thr ks))"
  by (simp add: process_press_def same_config_def split: NumberKeyState.splits)

lemma process_release_config: "same_config ks (fst (process_release clock thr ks))"
  by (simp add: process_release_def same_config_def split: NumberKeyState.splits)

text \<open>What one step of a key reports, by the phase it leaves the key in.\<close>

definition result_ok :: "KeyState \<Rightarrow> KeyState \<Rightarrow> NumberKeyResult \<Rightarrow> bool" where
  "result_ok ks ks' r \<longleftrightarrow>
     (nk_modifier_type r = (if ks_is_virtual ks \<and> nk_action r \<in> {ACTIVATE_MODIFIER, DEACTIVATE_MODIFIER}
                            then uint (ks_virtual_mod_num ks) else -1)) \<and>
     (ks_state ks' = MODIFIER_ACTIVE \<longleftrightarrow>
        nk_action r = ACTIVATE_MODIFIER \<or>
        (ks_state ks = MODIFIER_ACTIVE \<and> nk_action r \<noteq> DEACTIVATE_MODIFIER))"

lemma process_press_result:
  "result_ok ks (fst (process_press clock thr ks)) (snd (process_press clock thr ks))"
  by (auto simp: process_press_def result_ok_def NumberKeyResult3_def NumberKeyResult4_def
      split: NumberKeyState.splits)

lemma process_release_result:
  "result_ok ks (fst (process_release clock thr ks)) (snd (process_release clock thr ks))"
  by (auto simp: process_release_def result_ok_def NumberKeyResult3_def NumberKeyResult4_def
      split: NumberKeyState.splits)

lemma processNumberKey_cases:
  obtains (unknown) "map_of (mh_key_states h) k = None"
      "processNumberKey clock k ty h = (h, NumberKeyResult3 NOT_A_NUMBER_MODIFIER 0 False)"
  | (repeat) "ty = REPEAT"
      "processNumberKey clock k ty h = (h, NumberKeyResult3 NOT_A_NUMBER_MODIFIER 0 False)"
  | (key) ks ks' r where "map_of (mh_key_states h) k = Some ks" "ty \<noteq> REPEAT"
      "processNumberKey clock k ty h = (put_key_state k ks' h, r)"
      "(ks', r) = (if ty = PRESS then process_press clock (mh_hold_threshold_ms h) ks
                   else process_release clock (mh_hold_threshold_ms h) ks)"
      "same_config ks ks'" "result_ok ks ks' r"
proof (cases "map_of (mh_key_states h) k")
  case None
  then show ?thesis by (intro unknown) (simp_all add: processNumberKey_def)
next
  case (Some ks)
  let ?pp = "process_press clock (mh_hold_threshold_ms h) ks"
  let ?pr = "process_release clock (mh_hold_threshold_ms h) ks"
  show ?thesis
  proof (cases ty)
    case RELEASE
    with Some show ?thesis
      using process_release_config [of ks clock] process_release_result [of ks clock]
      by (intro key [of ks "fst ?pr" "snd ?pr"]) (simp_all add: processNumberKey_def case_prod_unfold Let_def)
  next
    case PRESS
    with Some show ?thesis
      using process_press_config [of ks clock] process_press_result [of ks clock]
      by (intro key [of ks "fst ?pp" "snd ?pp"]) (simp_all add: processNumberKey_def case_prod_unfold Let_def)
  next
    case REPEAT
    with Some show ?thesis by (intro repeat) (simp_all add: processNumberKey_def)
  qed
qed

section \<open>The contract of a hold-or-tap handler\<close>

text \<open>
  What the event processor relies on: an event of a key changes the phase of no other key and
  the configuration of none; the reported action says whether the key is now held; and the pass
  over the waiting keys reports exactly the virtual triggers it turned into held ones.
\<close>

locale hold_tap =
  fixes ok :: "'h \<Rightarrow> bool"
    and step :: "(nat \<Rightarrow> int) \<Rightarrow> u16 \<Rightarrow> EventType \<Rightarrow> 'h \<Rightarrow> 'h \<times> NumberKeyResult"
    and check :: "(nat \<Rightarrow> int) \<Rightarrow> 'h \<Rightarrow> 'h \<times> (u16 \<times> u8) list"
    and trigger :: "'h \<Rightarrow> u16 \<Rightarrow> u8 option"
    and held :: "'h \<Rightarrow> u16 \<Rightarrow> bool"
  assumes ok_step: "ok h \<Longrightarrow> ok (fst (step c k ty h))"
    and ok_check: "ok h \<Longrightarrow> ok (fst (check c h))"
    and trigger_step: "trigger (fst (step c k ty h)) j = trigger h j"
    and trigger_check: "trigger (fst (check c h)) j = trigger h j"
    and held_other: "j \<noteq> k \<Longrightarrow> held (fst (step c k ty h)) j = held h j"
    and held_same: "held (fst (step c k ty h)) k \<longleftrightarrow>
        nk_action (snd (step c k ty h)) = ACTIVATE_MODIFIER \<or>
        (held h k \<and> nk_action (snd (step c k ty h)) \<noteq> DEACTIVATE_MODIFIER)"
    and type_trigger: "nk_modifier_type (snd (step c k ty h)) =
        (if nk_action (snd (step c k ty h)) \<in> {ACTIVATE_MODIFIER, DEACTIVATE_MODIFIER}
         then (case trigger h k of Some m \<Rightarrow> uint m | None \<Rightarrow> -1) else -1)"
    and check_sound: "ok h \<Longrightarrow> (k, m) \<in> set (snd (check c h)) \<Longrightarrow>
        trigger h k = Some m \<and> held (fst (check c h)) k"
    and check_complete: "ok h \<Longrightarrow> trigger h k = Some m \<Longrightarrow>
        held (fst (check c h)) k \<longleftrightarrow> held h k \<or> (k, m) \<in> set (snd (check c h))"
    and release_ends: "\<not> held (fst (step c k RELEASE h)) k"

definition handler_ok :: "ModifierKeyHandler \<Rightarrow> bool" where
  "handler_ok h \<longleftrightarrow> wf_umap (mh_key_states h)"

lemma handler_ok_put [intro]: "handler_ok h \<Longrightarrow> handler_ok (put_key_state k ks h)"
  by (simp add: handler_ok_def put_key_state_def distinct_update)

lemma isModifierHeld_put [simp]:
  "isModifierHeld (put_key_state k ks h) j =
     (if j = k then ks_state ks = MODIFIER_ACTIVE else isModifierHeld h j)"
  by (simp add: isModifierHeld_def)

lemma trigger_of_put [simp]:
  "trigger_of (put_key_state k ks h) j =
     (if j = k then if ks_is_virtual ks then Some (ks_virtual_mod_num ks) else None
      else trigger_of h j)"
  by (simp add: trigger_of_def)

lemma check_states_act_keys: "(k, m) \<in> set (snd (check_states clock thr n sts)) \<Longrightarrow> k \<in> fst ` set sts"
proof (induction sts arbitrary: n)
  case Nil
  then show ?case by simp
next
  case (Cons a sts)
  then show ?case
    by (cases a) (auto simp: case_prod_unfold Let_def split: if_splits)
qed

text \<open>The reported pairs are the waiting virtual entries that the pass made active.\<close>

lemma check_states_acts:
  assumes "wf_umap sts"
  shows "(k, m) \<in> set (snd (check_states clock thr n sts)) \<longleftrightarrow>
     (\<exists>ks ks'. map_of sts k = Some ks \<and> ks_is_virtual ks \<and> ks_virtual_mod_num ks = m \<and>
        ks_state ks = WAITING \<and> map_of (fst (check_states clock thr n sts)) k = Some ks' \<and>
        ks_state ks' = MODIFIER_ACTIVE)"
  using assms
proof (induction sts arbitrary: n)
  case Nil
  then show ?case by simp
next
  case (Cons a sts)
  obtain j ks where a: "a = (j, ks)" by (cases a)
  have IH: "(k, m) \<in> set (snd (check_states clock thr n sts)) \<longleftrightarrow>
     (\<exists>ks ks'. map_of sts k = Some ks \<and> ks_is_virtual ks \<and> ks_virtual_mod_num ks = m \<and>
        ks_state ks = WAITING \<and> map_of (fst (check_states clock thr n sts)) k = Some ks' \<and>
        ks_state ks' = MODIFIER_ACTIVE)" for n
    using Cons by auto
  have "j \<notin> fst ` set sts" using Cons.prems a by simp
  then have j: "(j, m) \<notin> set (snd (check_states clock thr n sts))" for n
    using check_states_act_keys by blast
  show ?case
    by (cases "k = j") (auto simp: a case_prod_unfold Let_def IH j)
qed

lemma check_fields [simp]:
  "mh_key_states (fst (checkAndActivateWaitingModifiers clock h)) =
     fst (check_states clock (mh_hold_threshold_ms h) 0 (mh_key_states h))"
  "snd (checkAndActivateWaitingModifiers clock h) =
     snd (check_states clock (mh_hold_threshold_ms h) 0 (mh_key_states h))"
  "mh_hold_threshold_ms (fst (checkAndActivateWaitingModifiers clock h)) = mh_hold_threshold_ms h"
  by (simp_all add: checkAndActivateWaitingModifiers_def case_prod_unfold Let_def)

lemma check_trigger_of: "trigger_of (fst (checkAndActivateWaitingModifiers clock h)) j = trigger_of h j"
  using check_states_entry [of "mh_key_states h" j clock "mh_hold_threshold_ms h" 0]
  by (auto simp: trigger_of_def rel_option_iff split: option.splits)

lemma check_held:
  assumes "handler_ok h" "trigger_of h k = Some m"
  shows "isModifierHeld (fst (checkAndActivateWaitingModifiers clock h)) k \<longleftrightarrow>
           isModifierHeld h k \<or> (k, m) \<in> set (snd (checkAndActivateWaitingModifiers clock h))"
  using check_states_entry [of "mh_key_states h" k clock "mh_hold_threshold_ms h" 0] assms
  by (auto simp: trigger_of_def isModifierHeld_def rel_option_iff check_states_acts handler_ok_def
      simp del: map_of_eq_Some_iff split: option.splits if_splits)

lemma check_reported:
  assumes "handler_ok h" "(k, m) \<in> set (snd (checkAndActivateWaitingModifiers clock h))"
  shows "trigger_of h k = Some m \<and> isModifierHeld (fst (checkAndActivateWaitingModifiers clock h)) k"
  using assms
  by (auto simp: trigger_of_def isModifierHeld_def check_states_acts handler_ok_def
      simp del: map_of_eq_Some_iff)

lemma released_phase: "ks_state (fst (process_release clock thr ks)) = IDLE"
  by (simp add: process_release_def split: NumberKeyState.splits)

interpretation mkh: hold_tap handler_ok processNumberKey checkAndActivateWaitingModifiers
    trigger_of isModifierHeld
proof (unfold_locales, goal_cases)
  case (1 h c k ty)
  then show ?case by (cases rule: processNumberKey_cases [of h k c ty]) auto
next
  case (2 h c)
  then show ?case by (simp add: handler_ok_def check_states_keys)
next
  case (3 c k ty h j)
  show ?case
    by (cases rule: processNumberKey_cases [of h k c ty]) (auto simp: same_config_def trigger_of_def)
next
  case (4 c h j)
  show ?case by (rule check_trigger_of)
next
  case (5 j k c ty h)
  then show ?case by (cases rule: processNumberKey_cases [of h k c ty]) auto
next
  case (6 c k ty h)
  show ?case
    by (cases rule: processNumberKey_cases [of h k c ty])
       (auto simp: NumberKeyResult3_def result_ok_def isModifierHeld_def)
next
  case (7 c k ty h)
  show ?case
    by (cases rule: processNumberKey_cases [of h k c ty])
       (auto simp: NumberKeyResult3_def result_ok_def trigger_of_def)
next
  case (8 h k m c)
  then show ?case by (rule check_reported)
next
  case (9 h k m c)
  then show ?case by (rule check_held)
next
  case (10 c k h)
  show ?case
    by (cases rule: processNumberKey_cases [of h k c RELEASE])
       (auto simp: isModifierHeld_def released_phase dest: arg_cong [of _ _ fst])
qed

end
