(* ===== verification/Lookup_Table.thy ===== *)
theory Lookup_Table
  imports Modifier_State
begin

text \<open>
  src/core/engine/compiled_rule.h and lookup_table.h: compiled rules (the modifier bits that
  must be on, those that must be off, the output code) and the table of buckets, one vector of
  rules per input scan code, searched in insertion order. The log lines of \<^verbatim>\<open>findMatch\<close> for
  four scan codes have no effect on the result.
\<close>

unbundle bit_operations_syntax

section \<open>Rules\<close>

record CompiledRule =
  requiredOn :: state_bits
  requiredOff :: state_bits
  outputScanCode :: u16

definition matches :: "CompiledRule \<Rightarrow> state_bits \<Rightarrow> bool" where
  "matches rule currentState =
     (if currentState AND requiredOn rule \<noteq> requiredOn rule then False
      else if currentState AND requiredOff rule \<noteq> 0 then False
      else True)"

lemma matches_bits:
  "matches r st \<longleftrightarrow>
     (\<forall>i. (bit (requiredOn r) i \<longrightarrow> bit st i) \<and> (bit (requiredOff r) i \<longrightarrow> \<not> bit st i))"
  by (auto simp: matches_def and_eq_right_bits and_eq_zero_bits)

section \<open>The table\<close>

record RuleLookupTable =
  m_buckets :: "(u16 \<times> CompiledRule list) list"

definition new_RuleLookupTable :: RuleLookupTable where
  "new_RuleLookupTable = \<lparr>m_buckets = []\<rparr>"

text \<open>\<^verbatim>\<open>m_buckets[inputScanCode].push_back(rule)\<close>: the subscript makes an empty bucket.\<close>

definition addRule :: "u16 \<Rightarrow> CompiledRule \<Rightarrow> RuleLookupTable \<Rightarrow> RuleLookupTable" where
  "addRule inputScanCode rule t =
     t\<lparr>m_buckets := AList.update inputScanCode
        ((case map_of (m_buckets t) inputScanCode of None \<Rightarrow> [] | Some rs \<Rightarrow> rs) @ [rule])
        (m_buckets t)\<rparr>"

definition table_clear :: "RuleLookupTable \<Rightarrow> RuleLookupTable" where
  "table_clear t = t\<lparr>m_buckets := []\<rparr>"

definition findMatch :: "RuleLookupTable \<Rightarrow> u16 \<Rightarrow> state_bits \<Rightarrow> CompiledRule option" where
  "findMatch t scanCode state =
     (case map_of (m_buckets t) scanCode of
        None \<Rightarrow> None
      | Some rules \<Rightarrow> find (\<lambda>rule. matches rule state) rules)"

section \<open>What the table promises\<close>

text \<open>The rules of one scan code, in the order they are tried.\<close>

definition bucket :: "RuleLookupTable \<Rightarrow> u16 \<Rightarrow> CompiledRule list" where
  "bucket t k = (case map_of (m_buckets t) k of None \<Rightarrow> [] | Some rs \<Rightarrow> rs)"

text \<open>
  The interface the compiler of rules and the event processor rely on: adding appends to the
  bucket of one code, clearing empties them all, and a search returns the first rule of the
  bucket that matches.
\<close>

locale rule_table =
  fixes empty_table :: "'t \<Rightarrow> 't"
    and add_rule :: "u16 \<Rightarrow> CompiledRule \<Rightarrow> 't \<Rightarrow> 't"
    and find_match :: "'t \<Rightarrow> u16 \<Rightarrow> state_bits \<Rightarrow> CompiledRule option"
    and rules_of :: "'t \<Rightarrow> u16 \<Rightarrow> CompiledRule list"
  assumes rules_empty: "rules_of (empty_table t) k = []"
    and rules_add: "rules_of (add_rule c r t) k = (if k = c then rules_of t k @ [r] else rules_of t k)"
    and find_rules: "find_match t k st = find (\<lambda>r. matches r st) (rules_of t k)"
begin

lemma rules_add_all:
  "rules_of (fold (\<lambda>(c, r). add_rule c r) xs t) k =
     rules_of t k @ map snd (filter (\<lambda>(c, r). c = k) xs)"
  by (induction xs arbitrary: t) (auto simp: rules_add)

text \<open>After a rebuild the table answers with the first matching pair of the list it was built
  from.\<close>

lemma find_after_rebuild:
  "find_match (fold (\<lambda>(c, r). add_rule c r) xs (empty_table t)) k st =
     map_option snd (find (\<lambda>(c, r). c = k \<and> matches r st) xs)"
proof -
  have "find (\<lambda>r. matches r st) (map snd (filter (\<lambda>(c, r). c = k) xs)) =
        map_option snd (find (\<lambda>(c, r). c = k \<and> matches r st) xs)"
    by (induction xs) auto
  then show ?thesis
    by (simp add: find_rules rules_add_all rules_empty)
qed

lemma find_add_other: "k \<noteq> c \<Longrightarrow> find_match (add_rule c r t) k st = find_match t k st"
  by (simp add: find_rules rules_add)

lemma find_add_same:
  "find_match (add_rule c r t) c st =
     (case find_match t c st of Some q \<Rightarrow> Some q
      | None \<Rightarrow> if matches r st then Some r else None)"
  by (simp add: find_rules rules_add find_append_ex split: option.splits)

lemma find_sound: "find_match t k st = Some r \<Longrightarrow> r \<in> set (rules_of t k) \<and> matches r st"
  by (auto simp: find_rules dest: find_eq_Some_mem)

lemma find_complete: "find_match t k st = None \<longleftrightarrow> (\<forall>r\<in>set (rules_of t k). \<not> matches r st)"
  by (simp add: find_rules find_eq_None)

text \<open>Only the cared-for bits of the rules of the bucket decide.\<close>

lemma find_cong_state:
  assumes "\<And>r i. r \<in> set (rules_of t k) \<Longrightarrow> bit (requiredOn r) i \<or> bit (requiredOff r) i \<Longrightarrow>
             bit st i = bit st' i"
  shows "find_match t k st = find_match t k st'"
proof -
  have "matches r st = matches r st'" if "r \<in> set (rules_of t k)" for r
    using assms [OF that] by (auto simp: matches_bits)
  then show ?thesis
    by (auto simp: find_rules intro: find_cong)
qed

end

interpretation lt: rule_table table_clear addRule findMatch bucket
  by unfold_locales
     (auto simp: table_clear_def addRule_def findMatch_def bucket_def update_conv'
        split: option.splits)

end
