(* ===== verification/Keycode_Mapping.thy ===== *)
theory Keycode_Mapping
  imports Prelude "HOL-Library.Sublist"
begin

text \<open>
  src/platform/linux/keycode_mapping.h and keycode_mapping.cpp: the translation between evdev
  codes and YAMY codes. The numbers of the \<^verbatim>\<open>KEY_*\<close> macros come from
  \<^verbatim>\<open><linux/input-event-codes.h>\<close>, which is not part of the repository: every definition that
  needs them takes \<open>ev\<close>, the value of a macro. \<open>ev_ok\<close> states what the header
  documents and the code relies on; \<open>linux_ev\<close> is the header's instance.
\<close>

section \<open>Ranges of virtual codes\<close>

definition YAMY_VIRTUAL_KEY_BASE :: u16 where "YAMY_VIRTUAL_KEY_BASE = 0xD000"
definition YAMY_VIRTUAL_KEY_MAX :: u16 where "YAMY_VIRTUAL_KEY_MAX = 0xDFFF"
definition YAMY_MOD_00 :: u16 where "YAMY_MOD_00 = 0xF000"
definition YAMY_MOD_FF :: u16 where "YAMY_MOD_FF = 0xF0FF"
definition YAMY_LOCK_00 :: u16 where "YAMY_LOCK_00 = 0xF100"
definition YAMY_LOCK_FF :: u16 where "YAMY_LOCK_FF = 0xF1FF"

lemmas yamy_ranges = YAMY_VIRTUAL_KEY_BASE_def YAMY_VIRTUAL_KEY_MAX_def YAMY_MOD_00_def
  YAMY_MOD_FF_def YAMY_LOCK_00_def YAMY_LOCK_FF_def

definition isVirtualKey :: "u16 \<Rightarrow> bool" where
  "isVirtualKey code \<longleftrightarrow> YAMY_VIRTUAL_KEY_BASE \<le> code \<and> code \<le> YAMY_VIRTUAL_KEY_MAX"

definition isModifier :: "u16 \<Rightarrow> bool" where
  "isModifier code \<longleftrightarrow> YAMY_MOD_00 \<le> code \<and> code \<le> YAMY_MOD_FF"

definition isLock :: "u16 \<Rightarrow> bool" where
  "isLock code \<longleftrightarrow> YAMY_LOCK_00 \<le> code \<and> code \<le> YAMY_LOCK_FF"

definition getModifierNumber :: "u16 \<Rightarrow> u8" where
  "getModifierNumber code = ucast (code - YAMY_MOD_00)"

definition getLockNumber :: "u16 \<Rightarrow> u8" where
  "getLockNumber code = ucast (code - YAMY_LOCK_00)"

section \<open>Names of the evdev macros\<close>

text \<open>
  The \<^verbatim>\<open>KEY_*\<close> macros the file uses, numbered by their first appearance. The numbers only
  identify the macros; their values are \<open>ev KEY_A\<close> and so on.
\<close>

type_synonym evkey = nat

definition KEY_A :: evkey where "KEY_A = 0"
definition KEY_B :: evkey where "KEY_B = 1"
definition KEY_C :: evkey where "KEY_C = 2"
definition KEY_D :: evkey where "KEY_D = 3"
definition KEY_E :: evkey where "KEY_E = 4"
definition KEY_F :: evkey where "KEY_F = 5"
definition KEY_G :: evkey where "KEY_G = 6"
definition KEY_H :: evkey where "KEY_H = 7"
definition KEY_I :: evkey where "KEY_I = 8"
definition KEY_J :: evkey where "KEY_J = 9"
definition KEY_K :: evkey where "KEY_K = 10"
definition KEY_L :: evkey where "KEY_L = 11"
definition KEY_M :: evkey where "KEY_M = 12"
definition KEY_N :: evkey where "KEY_N = 13"
definition KEY_O :: evkey where "KEY_O = 14"
definition KEY_P :: evkey where "KEY_P = 15"
definition KEY_Q :: evkey where "KEY_Q = 16"
definition KEY_R :: evkey where "KEY_R = 17"
definition KEY_S :: evkey where "KEY_S = 18"
definition KEY_T :: evkey where "KEY_T = 19"
definition KEY_U :: evkey where "KEY_U = 20"
definition KEY_V :: evkey where "KEY_V = 21"
definition KEY_W :: evkey where "KEY_W = 22"
definition KEY_X :: evkey where "KEY_X = 23"
definition KEY_Y :: evkey where "KEY_Y = 24"
definition KEY_Z :: evkey where "KEY_Z = 25"
definition KEY_0 :: evkey where "KEY_0 = 26"
definition KEY_1 :: evkey where "KEY_1 = 27"
definition KEY_2 :: evkey where "KEY_2 = 28"
definition KEY_3 :: evkey where "KEY_3 = 29"
definition KEY_4 :: evkey where "KEY_4 = 30"
definition KEY_5 :: evkey where "KEY_5 = 31"
definition KEY_6 :: evkey where "KEY_6 = 32"
definition KEY_7 :: evkey where "KEY_7 = 33"
definition KEY_8 :: evkey where "KEY_8 = 34"
definition KEY_9 :: evkey where "KEY_9 = 35"
definition KEY_F1 :: evkey where "KEY_F1 = 36"
definition KEY_F2 :: evkey where "KEY_F2 = 37"
definition KEY_F3 :: evkey where "KEY_F3 = 38"
definition KEY_F4 :: evkey where "KEY_F4 = 39"
definition KEY_F5 :: evkey where "KEY_F5 = 40"
definition KEY_F6 :: evkey where "KEY_F6 = 41"
definition KEY_F7 :: evkey where "KEY_F7 = 42"
definition KEY_F8 :: evkey where "KEY_F8 = 43"
definition KEY_F9 :: evkey where "KEY_F9 = 44"
definition KEY_F10 :: evkey where "KEY_F10 = 45"
definition KEY_F11 :: evkey where "KEY_F11 = 46"
definition KEY_F12 :: evkey where "KEY_F12 = 47"
definition KEY_F13 :: evkey where "KEY_F13 = 48"
definition KEY_F14 :: evkey where "KEY_F14 = 49"
definition KEY_F15 :: evkey where "KEY_F15 = 50"
definition KEY_F16 :: evkey where "KEY_F16 = 51"
definition KEY_F17 :: evkey where "KEY_F17 = 52"
definition KEY_F18 :: evkey where "KEY_F18 = 53"
definition KEY_F19 :: evkey where "KEY_F19 = 54"
definition KEY_F20 :: evkey where "KEY_F20 = 55"
definition KEY_F21 :: evkey where "KEY_F21 = 56"
definition KEY_F22 :: evkey where "KEY_F22 = 57"
definition KEY_F23 :: evkey where "KEY_F23 = 58"
definition KEY_F24 :: evkey where "KEY_F24 = 59"
definition KEY_LEFTSHIFT :: evkey where "KEY_LEFTSHIFT = 60"
definition KEY_RIGHTSHIFT :: evkey where "KEY_RIGHTSHIFT = 61"
definition KEY_LEFTCTRL :: evkey where "KEY_LEFTCTRL = 62"
definition KEY_RIGHTCTRL :: evkey where "KEY_RIGHTCTRL = 63"
definition KEY_LEFTALT :: evkey where "KEY_LEFTALT = 64"
definition KEY_RIGHTALT :: evkey where "KEY_RIGHTALT = 65"
definition KEY_LEFTMETA :: evkey where "KEY_LEFTMETA = 66"
definition KEY_RIGHTMETA :: evkey where "KEY_RIGHTMETA = 67"
definition KEY_ESC :: evkey where "KEY_ESC = 68"
definition KEY_TAB :: evkey where "KEY_TAB = 69"
definition KEY_CAPSLOCK :: evkey where "KEY_CAPSLOCK = 70"
definition KEY_ENTER :: evkey where "KEY_ENTER = 71"
definition KEY_BACKSPACE :: evkey where "KEY_BACKSPACE = 72"
definition KEY_SPACE :: evkey where "KEY_SPACE = 73"
definition KEY_INSERT :: evkey where "KEY_INSERT = 74"
definition KEY_DELETE :: evkey where "KEY_DELETE = 75"
definition KEY_HOME :: evkey where "KEY_HOME = 76"
definition KEY_END :: evkey where "KEY_END = 77"
definition KEY_PAGEUP :: evkey where "KEY_PAGEUP = 78"
definition KEY_PAGEDOWN :: evkey where "KEY_PAGEDOWN = 79"
definition KEY_LEFT :: evkey where "KEY_LEFT = 80"
definition KEY_RIGHT :: evkey where "KEY_RIGHT = 81"
definition KEY_UP :: evkey where "KEY_UP = 82"
definition KEY_DOWN :: evkey where "KEY_DOWN = 83"
definition KEY_NUMLOCK :: evkey where "KEY_NUMLOCK = 84"
definition KEY_SCROLLLOCK :: evkey where "KEY_SCROLLLOCK = 85"
definition KEY_KP0 :: evkey where "KEY_KP0 = 86"
definition KEY_KP1 :: evkey where "KEY_KP1 = 87"
definition KEY_KP2 :: evkey where "KEY_KP2 = 88"
definition KEY_KP3 :: evkey where "KEY_KP3 = 89"
definition KEY_KP4 :: evkey where "KEY_KP4 = 90"
definition KEY_KP5 :: evkey where "KEY_KP5 = 91"
definition KEY_KP6 :: evkey where "KEY_KP6 = 92"
definition KEY_KP7 :: evkey where "KEY_KP7 = 93"
definition KEY_KP8 :: evkey where "KEY_KP8 = 94"
definition KEY_KP9 :: evkey where "KEY_KP9 = 95"
definition KEY_KPASTERISK :: evkey where "KEY_KPASTERISK = 96"
definition KEY_KPPLUS :: evkey where "KEY_KPPLUS = 97"
definition KEY_KPMINUS :: evkey where "KEY_KPMINUS = 98"
definition KEY_KPDOT :: evkey where "KEY_KPDOT = 99"
definition KEY_KPSLASH :: evkey where "KEY_KPSLASH = 100"
definition KEY_KPENTER :: evkey where "KEY_KPENTER = 101"
definition KEY_MINUS :: evkey where "KEY_MINUS = 102"
definition KEY_EQUAL :: evkey where "KEY_EQUAL = 103"
definition KEY_LEFTBRACE :: evkey where "KEY_LEFTBRACE = 104"
definition KEY_RIGHTBRACE :: evkey where "KEY_RIGHTBRACE = 105"
definition KEY_SEMICOLON :: evkey where "KEY_SEMICOLON = 106"
definition KEY_APOSTROPHE :: evkey where "KEY_APOSTROPHE = 107"
definition KEY_GRAVE :: evkey where "KEY_GRAVE = 108"
definition KEY_BACKSLASH :: evkey where "KEY_BACKSLASH = 109"
definition KEY_COMMA :: evkey where "KEY_COMMA = 110"
definition KEY_DOT :: evkey where "KEY_DOT = 111"
definition KEY_SLASH :: evkey where "KEY_SLASH = 112"
definition KEY_102ND :: evkey where "KEY_102ND = 113"
definition KEY_SYSRQ :: evkey where "KEY_SYSRQ = 114"
definition KEY_PAUSE :: evkey where "KEY_PAUSE = 115"
definition KEY_MENU :: evkey where "KEY_MENU = 116"
definition KEY_HENKAN :: evkey where "KEY_HENKAN = 117"
definition KEY_KATAKANAHIRAGANA :: evkey where "KEY_KATAKANAHIRAGANA = 118"
definition KEY_MUHENKAN :: evkey where "KEY_MUHENKAN = 119"
definition KEY_RO :: evkey where "KEY_RO = 120"
definition KEY_SLEEP :: evkey where "KEY_SLEEP = 121"
definition KEY_YEN :: evkey where "KEY_YEN = 122"

lemmas KEY_defs =
  KEY_A_def KEY_B_def KEY_C_def KEY_D_def KEY_E_def
  KEY_F_def KEY_G_def KEY_H_def KEY_I_def KEY_J_def
  KEY_K_def KEY_L_def KEY_M_def KEY_N_def KEY_O_def
  KEY_P_def KEY_Q_def KEY_R_def KEY_S_def KEY_T_def
  KEY_U_def KEY_V_def KEY_W_def KEY_X_def KEY_Y_def
  KEY_Z_def KEY_0_def KEY_1_def KEY_2_def KEY_3_def
  KEY_4_def KEY_5_def KEY_6_def KEY_7_def KEY_8_def
  KEY_9_def KEY_F1_def KEY_F2_def KEY_F3_def KEY_F4_def
  KEY_F5_def KEY_F6_def KEY_F7_def KEY_F8_def KEY_F9_def
  KEY_F10_def KEY_F11_def KEY_F12_def KEY_F13_def KEY_F14_def
  KEY_F15_def KEY_F16_def KEY_F17_def KEY_F18_def KEY_F19_def
  KEY_F20_def KEY_F21_def KEY_F22_def KEY_F23_def KEY_F24_def
  KEY_LEFTSHIFT_def KEY_RIGHTSHIFT_def KEY_LEFTCTRL_def KEY_RIGHTCTRL_def KEY_LEFTALT_def
  KEY_RIGHTALT_def KEY_LEFTMETA_def KEY_RIGHTMETA_def KEY_ESC_def KEY_TAB_def
  KEY_CAPSLOCK_def KEY_ENTER_def KEY_BACKSPACE_def KEY_SPACE_def KEY_INSERT_def
  KEY_DELETE_def KEY_HOME_def KEY_END_def KEY_PAGEUP_def KEY_PAGEDOWN_def
  KEY_LEFT_def KEY_RIGHT_def KEY_UP_def KEY_DOWN_def KEY_NUMLOCK_def
  KEY_SCROLLLOCK_def KEY_KP0_def KEY_KP1_def KEY_KP2_def KEY_KP3_def
  KEY_KP4_def KEY_KP5_def KEY_KP6_def KEY_KP7_def KEY_KP8_def
  KEY_KP9_def KEY_KPASTERISK_def KEY_KPPLUS_def KEY_KPMINUS_def KEY_KPDOT_def
  KEY_KPSLASH_def KEY_KPENTER_def KEY_MINUS_def KEY_EQUAL_def KEY_LEFTBRACE_def
  KEY_RIGHTBRACE_def KEY_SEMICOLON_def KEY_APOSTROPHE_def KEY_GRAVE_def KEY_BACKSLASH_def
  KEY_COMMA_def KEY_DOT_def KEY_SLASH_def KEY_102ND_def KEY_SYSRQ_def
  KEY_PAUSE_def KEY_MENU_def KEY_HENKAN_def KEY_KATAKANAHIRAGANA_def KEY_MUHENKAN_def
  KEY_RO_def KEY_SLEEP_def KEY_YEN_def

definition evkey_count :: nat where "evkey_count = 123"

section \<open>Tables\<close>

text \<open>The initialisers of the five hash maps and the two switches, in source order; the
  \<^verbatim>\<open>VK_\<close> constants of the third map are written as their values.\<close>

definition g_evdevToYamyMap :: "(evkey \<times> u16) list" where
  "g_evdevToYamyMap =
    [(KEY_A, 0x1E), (KEY_B, 0x30), (KEY_C, 0x2E), (KEY_D, 0x20),
     (KEY_E, 0x12), (KEY_F, 0x21), (KEY_G, 0x22), (KEY_H, 0x23),
     (KEY_I, 0x17), (KEY_J, 0x24), (KEY_K, 0x25), (KEY_L, 0x26),
     (KEY_M, 0x32), (KEY_N, 0x31), (KEY_O, 0x18), (KEY_P, 0x19),
     (KEY_Q, 0x10), (KEY_R, 0x13), (KEY_S, 0x1F), (KEY_T, 0x14),
     (KEY_U, 0x16), (KEY_V, 0x2F), (KEY_W, 0x11), (KEY_X, 0x2D),
     (KEY_Y, 0x15), (KEY_Z, 0x2C), (KEY_0, 0x0B), (KEY_1, 0x02),
     (KEY_2, 0x03), (KEY_3, 0x04), (KEY_4, 0x05), (KEY_5, 0x06),
     (KEY_6, 0x07), (KEY_7, 0x08), (KEY_8, 0x09), (KEY_9, 0x0A),
     (KEY_F1, 0x3B), (KEY_F2, 0x3C), (KEY_F3, 0x3D), (KEY_F4, 0x3E),
     (KEY_F5, 0x3F), (KEY_F6, 0x40), (KEY_F7, 0x41), (KEY_F8, 0x42),
     (KEY_F9, 0x43), (KEY_F10, 0x44), (KEY_F11, 0x57), (KEY_F12, 0x58),
     (KEY_F13, 0x64), (KEY_F14, 0x65), (KEY_F15, 0x66), (KEY_F16, 0x67),
     (KEY_F17, 0x68), (KEY_F18, 0x69), (KEY_F19, 0x6A), (KEY_F20, 0x6B),
     (KEY_F21, 0x6C), (KEY_F22, 0x6D), (KEY_F23, 0x6E), (KEY_F24, 0x76),
     (KEY_LEFTSHIFT, 0x2A), (KEY_RIGHTSHIFT, 0x36), (KEY_LEFTCTRL, 0x1D), (KEY_RIGHTCTRL, 0xE01D),
     (KEY_LEFTALT, 0x38), (KEY_RIGHTALT, 0xE038), (KEY_LEFTMETA, 0xE05B), (KEY_RIGHTMETA, 0xE05C),
     (KEY_ESC, 0x01), (KEY_TAB, 0x0F), (KEY_CAPSLOCK, 0x3A), (KEY_ENTER, 0x1C),
     (KEY_BACKSPACE, 0x0E), (KEY_SPACE, 0x39), (KEY_INSERT, 0xE052), (KEY_DELETE, 0xE053),
     (KEY_HOME, 0xE047), (KEY_END, 0xE04F), (KEY_PAGEUP, 0xE049), (KEY_PAGEDOWN, 0xE051),
     (KEY_LEFT, 0xE04B), (KEY_RIGHT, 0xE04D), (KEY_UP, 0xE048), (KEY_DOWN, 0xE050),
     (KEY_NUMLOCK, 0x45), (KEY_SCROLLLOCK, 0x46), (KEY_KP0, 0x52), (KEY_KP1, 0x4F),
     (KEY_KP2, 0x50), (KEY_KP3, 0x51), (KEY_KP4, 0x4B), (KEY_KP5, 0x4C),
     (KEY_KP6, 0x4D), (KEY_KP7, 0x47), (KEY_KP8, 0x48), (KEY_KP9, 0x49),
     (KEY_KPASTERISK, 0x37), (KEY_KPPLUS, 0x4E), (KEY_KPMINUS, 0x4A), (KEY_KPDOT, 0x53),
     (KEY_KPSLASH, 0xE035), (KEY_KPENTER, 0xE01C), (KEY_MINUS, 0x0C), (KEY_EQUAL, 0x0D),
     (KEY_LEFTBRACE, 0x1A), (KEY_RIGHTBRACE, 0x1B), (KEY_SEMICOLON, 0x27), (KEY_APOSTROPHE, 0x28),
     (KEY_GRAVE, 0x29), (KEY_BACKSLASH, 0x2B), (KEY_COMMA, 0x33), (KEY_DOT, 0x34),
     (KEY_SLASH, 0x35), (KEY_102ND, 0x56), (KEY_SYSRQ, 0xE037), (KEY_PAUSE, 0xE11D),
     (KEY_MENU, 0xE05D)]"

definition g_yamyToEvdevMap :: "(u16 \<times> evkey) list" where
  "g_yamyToEvdevMap =
    [(0x41, KEY_A), (0x42, KEY_B), (0x43, KEY_C), (0x44, KEY_D),
     (0x45, KEY_E), (0x46, KEY_F), (0x47, KEY_G), (0x48, KEY_H),
     (0x49, KEY_I), (0x4A, KEY_J), (0x4B, KEY_K), (0x4C, KEY_L),
     (0x4D, KEY_M), (0x4E, KEY_N), (0x4F, KEY_O), (0x50, KEY_P),
     (0x51, KEY_Q), (0x52, KEY_R), (0x53, KEY_S), (0x54, KEY_T),
     (0x55, KEY_U), (0x56, KEY_V), (0x57, KEY_W), (0x58, KEY_X),
     (0x59, KEY_Y), (0x5A, KEY_Z), (0x30, KEY_0), (0x31, KEY_1),
     (0x32, KEY_2), (0x33, KEY_3), (0x34, KEY_4), (0x35, KEY_5),
     (0x36, KEY_6), (0x37, KEY_7), (0x38, KEY_8), (0x39, KEY_9),
     (0x70, KEY_F1), (0x71, KEY_F2), (0x72, KEY_F3), (0x73, KEY_F4),
     (0x74, KEY_F5), (0x75, KEY_F6), (0x76, KEY_F7), (0x77, KEY_F8),
     (0x78, KEY_F9), (0x79, KEY_F10), (0x7A, KEY_F11), (0x7B, KEY_F12),
     (0x7C, KEY_F13), (0x7D, KEY_F14), (0x7E, KEY_F15), (0x7F, KEY_F16),
     (0x80, KEY_F17), (0x81, KEY_F18), (0x82, KEY_F19), (0x83, KEY_F20),
     (0x84, KEY_F21), (0x85, KEY_F22), (0x86, KEY_F23), (0x87, KEY_F24),
     (0xA0, KEY_LEFTSHIFT), (0xA1, KEY_RIGHTSHIFT), (0xA2, KEY_LEFTCTRL), (0xA3, KEY_RIGHTCTRL),
     (0xA4, KEY_LEFTALT), (0xA5, KEY_RIGHTALT), (0x5B, KEY_LEFTMETA), (0x5C, KEY_RIGHTMETA),
     (0x1B, KEY_ESC), (0x09, KEY_TAB), (0x14, KEY_CAPSLOCK), (0x0D, KEY_ENTER),
     (0x08, KEY_BACKSPACE), (0x20, KEY_SPACE), (0x2D, KEY_INSERT), (0x2E, KEY_DELETE),
     (0x24, KEY_HOME), (0x23, KEY_END), (0x21, KEY_PAGEUP), (0x22, KEY_PAGEDOWN),
     (0x25, KEY_LEFT), (0x27, KEY_RIGHT), (0x26, KEY_UP), (0x28, KEY_DOWN),
     (0x90, KEY_NUMLOCK), (0x91, KEY_SCROLLLOCK), (0x60, KEY_KP0), (0x61, KEY_KP1),
     (0x62, KEY_KP2), (0x63, KEY_KP3), (0x64, KEY_KP4), (0x65, KEY_KP5),
     (0x66, KEY_KP6), (0x67, KEY_KP7), (0x68, KEY_KP8), (0x69, KEY_KP9),
     (0x6A, KEY_KPASTERISK), (0x6B, KEY_KPPLUS), (0x6D, KEY_KPMINUS), (0x6E, KEY_KPDOT),
     (0x6F, KEY_KPSLASH), (0xBD, KEY_MINUS), (0xBB, KEY_EQUAL), (0xDB, KEY_LEFTBRACE),
     (0xDD, KEY_RIGHTBRACE), (0xBA, KEY_SEMICOLON), (0xDE, KEY_APOSTROPHE), (0xC0, KEY_GRAVE),
     (0xDC, KEY_BACKSLASH), (0xBC, KEY_COMMA), (0xBE, KEY_DOT), (0xBF, KEY_SLASH),
     (0xE2, KEY_102ND), (0x2C, KEY_SYSRQ), (0x13, KEY_PAUSE), (0x5D, KEY_MENU)]"

definition g_scanToEvdevMap_US :: "(u16 \<times> evkey) list" where
  "g_scanToEvdevMap_US =
    [(0x01, KEY_ESC), (0x02, KEY_1), (0x03, KEY_2), (0x04, KEY_3),
     (0x05, KEY_4), (0x06, KEY_5), (0x07, KEY_6), (0x08, KEY_7),
     (0x09, KEY_8), (0x0A, KEY_9), (0x0B, KEY_0), (0x0C, KEY_MINUS),
     (0x0D, KEY_EQUAL), (0x0E, KEY_BACKSPACE), (0x0F, KEY_TAB), (0x10, KEY_Q),
     (0x11, KEY_W), (0x12, KEY_E), (0x13, KEY_R), (0x14, KEY_T),
     (0x15, KEY_Y), (0x16, KEY_U), (0x17, KEY_I), (0x18, KEY_O),
     (0x19, KEY_P), (0x1A, KEY_LEFTBRACE), (0x1B, KEY_RIGHTBRACE), (0x1C, KEY_ENTER),
     (0x1D, KEY_LEFTCTRL), (0x1E, KEY_A), (0x1F, KEY_S), (0x20, KEY_D),
     (0x21, KEY_F), (0x22, KEY_G), (0x23, KEY_H), (0x24, KEY_J),
     (0x25, KEY_K), (0x26, KEY_L), (0x27, KEY_SEMICOLON), (0x28, KEY_APOSTROPHE),
     (0x29, KEY_GRAVE), (0x2A, KEY_LEFTSHIFT), (0x2B, KEY_BACKSLASH), (0x2C, KEY_Z),
     (0x2D, KEY_X), (0x2E, KEY_C), (0x2F, KEY_V), (0x30, KEY_B),
     (0x31, KEY_N), (0x32, KEY_M), (0x33, KEY_COMMA), (0x34, KEY_DOT),
     (0x35, KEY_SLASH), (0x36, KEY_RIGHTSHIFT), (0x37, KEY_KPASTERISK), (0x38, KEY_LEFTALT),
     (0x39, KEY_SPACE), (0x3A, KEY_CAPSLOCK), (0x3B, KEY_F1), (0x3C, KEY_F2),
     (0x3D, KEY_F3), (0x3E, KEY_F4), (0x3F, KEY_F5), (0x40, KEY_F6),
     (0x41, KEY_F7), (0x42, KEY_F8), (0x43, KEY_F9), (0x44, KEY_F10),
     (0x45, KEY_NUMLOCK), (0x46, KEY_SCROLLLOCK), (0x47, KEY_KP7), (0x48, KEY_KP8),
     (0x49, KEY_KP9), (0x4A, KEY_KPMINUS), (0x4B, KEY_KP4), (0x4C, KEY_KP5),
     (0x4D, KEY_KP6), (0x4E, KEY_KPPLUS), (0x4F, KEY_KP1), (0x50, KEY_KP2),
     (0x51, KEY_KP3), (0x52, KEY_KP0), (0x53, KEY_KPDOT), (0x57, KEY_F11),
     (0x58, KEY_F12), (0xE01C, KEY_KPENTER), (0xE01D, KEY_RIGHTCTRL), (0xE035, KEY_KPSLASH),
     (0xE037, KEY_SYSRQ), (0xE038, KEY_RIGHTALT), (0xE047, KEY_HOME), (0xE048, KEY_UP),
     (0xE049, KEY_PAGEUP), (0xE04B, KEY_LEFT), (0xE04D, KEY_RIGHT), (0xE04F, KEY_END),
     (0xE050, KEY_DOWN), (0xE051, KEY_PAGEDOWN), (0xE052, KEY_INSERT), (0xE053, KEY_DELETE),
     (0xE05B, KEY_LEFTMETA), (0xE05C, KEY_RIGHTMETA), (0xE05D, KEY_MENU), (0xE05F, KEY_SLEEP)]"

definition g_scanToEvdevMap_JP :: "(u16 \<times> evkey) list" where
  "g_scanToEvdevMap_JP =
    [(0x01, KEY_ESC), (0x02, KEY_1), (0x03, KEY_2), (0x04, KEY_3),
     (0x05, KEY_4), (0x06, KEY_5), (0x07, KEY_6), (0x08, KEY_7),
     (0x09, KEY_8), (0x0A, KEY_9), (0x0B, KEY_0), (0x0C, KEY_MINUS),
     (0x0D, KEY_EQUAL), (0x0E, KEY_BACKSPACE), (0x0F, KEY_TAB), (0x10, KEY_Q),
     (0x11, KEY_W), (0x12, KEY_E), (0x13, KEY_R), (0x14, KEY_T),
     (0x15, KEY_Y), (0x16, KEY_U), (0x17, KEY_I), (0x18, KEY_O),
     (0x19, KEY_P), (0x1A, KEY_LEFTBRACE), (0x1B, KEY_RIGHTBRACE), (0x1C, KEY_ENTER),
     (0x1D, KEY_LEFTCTRL), (0x1E, KEY_A), (0x1F, KEY_S), (0x20, KEY_D),
     (0x21, KEY_F), (0x22, KEY_G), (0x23, KEY_H), (0x24, KEY_J),
     (0x25, KEY_K), (0x26, KEY_L), (0x27, KEY_SEMICOLON), (0x28, KEY_APOSTROPHE),
     (0x29, KEY_GRAVE), (0x2A, KEY_LEFTSHIFT), (0x2B, KEY_BACKSLASH), (0x2C, KEY_Z),
     (0x2D, KEY_X), (0x2E, KEY_C), (0x2F, KEY_V), (0x30, KEY_B),
     (0x31, KEY_N), (0x32, KEY_M), (0x33, KEY_COMMA), (0x34, KEY_DOT),
     (0x35, KEY_SLASH), (0x36, KEY_RIGHTSHIFT), (0x37, KEY_KPASTERISK), (0x38, KEY_LEFTALT),
     (0x39, KEY_SPACE), (0x3A, KEY_CAPSLOCK), (0x3B, KEY_F1), (0x3C, KEY_F2),
     (0x3D, KEY_F3), (0x3E, KEY_F4), (0x3F, KEY_F5), (0x40, KEY_F6),
     (0x41, KEY_F7), (0x42, KEY_F8), (0x43, KEY_F9), (0x44, KEY_F10),
     (0x45, KEY_NUMLOCK), (0x46, KEY_SCROLLLOCK), (0x47, KEY_KP7), (0x48, KEY_KP8),
     (0x49, KEY_KP9), (0x4A, KEY_KPMINUS), (0x4B, KEY_KP4), (0x4C, KEY_KP5),
     (0x4D, KEY_KP6), (0x4E, KEY_KPPLUS), (0x4F, KEY_KP1), (0x50, KEY_KP2),
     (0x51, KEY_KP3), (0x52, KEY_KP0), (0x53, KEY_KPDOT), (0x57, KEY_F11),
     (0x58, KEY_F12), (0x70, KEY_KATAKANAHIRAGANA), (0x73, KEY_RO), (0x79, KEY_HENKAN),
     (0x7B, KEY_MUHENKAN), (0x7D, KEY_YEN), (0xE01C, KEY_KPENTER), (0xE01D, KEY_RIGHTCTRL),
     (0xE035, KEY_KPSLASH), (0xE037, KEY_SYSRQ), (0xE038, KEY_RIGHTALT), (0xE047, KEY_HOME),
     (0xE048, KEY_UP), (0xE049, KEY_PAGEUP), (0xE04B, KEY_LEFT), (0xE04D, KEY_RIGHT),
     (0xE04F, KEY_END), (0xE050, KEY_DOWN), (0xE051, KEY_PAGEDOWN), (0xE052, KEY_INSERT),
     (0xE053, KEY_DELETE), (0xE05B, KEY_LEFTMETA), (0xE05C, KEY_RIGHTMETA), (0xE05D, KEY_MENU),
     (0xE05F, KEY_SLEEP)]"

definition g_numberToModifierMap :: "(u16 \<times> evkey) list" where
  "g_numberToModifierMap =
    [(0x0002, KEY_LEFTSHIFT), (0x0003, KEY_RIGHTSHIFT), (0x0004, KEY_LEFTCTRL), (0x0005, KEY_RIGHTCTRL),
     (0x0006, KEY_LEFTALT), (0x0007, KEY_RIGHTALT), (0x0008, KEY_LEFTMETA), (0x0009, KEY_RIGHTMETA),
     (0x000A, KEY_LEFTSHIFT), (0x000B, KEY_RIGHTSHIFT)]"

definition modifier_keys :: "evkey list" where
  "modifier_keys =
    [KEY_LEFTSHIFT, KEY_RIGHTSHIFT, KEY_LEFTCTRL, KEY_RIGHTCTRL,
     KEY_LEFTALT, KEY_RIGHTALT, KEY_LEFTMETA, KEY_RIGHTMETA,
     KEY_CAPSLOCK, KEY_NUMLOCK, KEY_SCROLLLOCK]"

definition key_names :: "(evkey \<times> string) list" where
  "key_names =
    [(KEY_A, ''A''), (KEY_B, ''B''), (KEY_C, ''C''),
     (KEY_D, ''D''), (KEY_E, ''E''), (KEY_F, ''F''),
     (KEY_G, ''G''), (KEY_H, ''H''), (KEY_I, ''I''),
     (KEY_J, ''J''), (KEY_K, ''K''), (KEY_L, ''L''),
     (KEY_M, ''M''), (KEY_N, ''N''), (KEY_O, ''O''),
     (KEY_P, ''P''), (KEY_Q, ''Q''), (KEY_R, ''R''),
     (KEY_S, ''S''), (KEY_T, ''T''), (KEY_U, ''U''),
     (KEY_V, ''V''), (KEY_W, ''W''), (KEY_X, ''X''),
     (KEY_Y, ''Y''), (KEY_Z, ''Z''), (KEY_1, ''1''),
     (KEY_2, ''2''), (KEY_3, ''3''), (KEY_4, ''4''),
     (KEY_5, ''5''), (KEY_6, ''6''), (KEY_7, ''7''),
     (KEY_8, ''8''), (KEY_9, ''9''), (KEY_0, ''0''),
     (KEY_ESC, ''ESC''), (KEY_TAB, ''TAB''), (KEY_CAPSLOCK, ''CAPSLOCK''),
     (KEY_ENTER, ''ENTER''), (KEY_BACKSPACE, ''BACKSPACE''), (KEY_SPACE, ''SPACE''),
     (KEY_LEFTSHIFT, ''LSHIFT''), (KEY_RIGHTSHIFT, ''RSHIFT''), (KEY_LEFTCTRL, ''LCTRL''),
     (KEY_RIGHTCTRL, ''RCTRL''), (KEY_LEFTALT, ''LALT''), (KEY_RIGHTALT, ''RALT''),
     (KEY_LEFTMETA, ''LWIN''), (KEY_RIGHTMETA, ''RWIN''), (KEY_F1, ''F1''),
     (KEY_F2, ''F2''), (KEY_F3, ''F3''), (KEY_F4, ''F4''),
     (KEY_F5, ''F5''), (KEY_F6, ''F6''), (KEY_F7, ''F7''),
     (KEY_F8, ''F8''), (KEY_F9, ''F9''), (KEY_F10, ''F10''),
     (KEY_F11, ''F11''), (KEY_F12, ''F12'')]"

section \<open>Keyboard layout\<close>

text \<open>The file's statics: the override of the configuration and the cached detection.\<close>

record LayoutState =
  g_layoutOverride :: string
  cachedLayout :: string
  layoutDetected :: bool

definition initial_LayoutState :: LayoutState where
  "initial_LayoutState = \<lparr>g_layoutOverride = [], cachedLayout = [], layoutDetected = False\<rparr>"

definition setLayoutOverride :: "string \<Rightarrow> LayoutState \<Rightarrow> LayoutState" where
  "setLayoutOverride layout s = s\<lparr>g_layoutOverride := layout\<rparr>"

definition clearLayoutOverride :: "LayoutState \<Rightarrow> LayoutState" where
  "clearLayoutOverride s = s\<lparr>g_layoutOverride := []\<rparr>"

text \<open>\<^verbatim>\<open>fgets\<close> into a buffer of \<open>n\<close> bytes: up to \<open>n - 1\<close> characters, ending after a newline;
  None at the end of the stream.\<close>

definition fgets :: "nat \<Rightarrow> string \<Rightarrow> string option" where
  "fgets n stream =
     (if stream = [] then None
      else let l = take (n - 1) stream;
               pre = takeWhile (\<lambda>c. c \<noteq> CHR 0x0A) l
           in Some (if length pre < length l then pre @ [CHR 0x0A] else pre))"

text \<open>
  \<^verbatim>\<open>detectKeyboardLayout\<close>: \<open>pipe\<close> is what \<^verbatim>\<open>popen\<close> gives, None when it fails and the output of
  the command otherwise.
\<close>

definition detectKeyboardLayout :: "string option \<Rightarrow> LayoutState \<Rightarrow> string \<times> LayoutState" where
  "detectKeyboardLayout pipe s =
     (if g_layoutOverride s \<noteq> [] then (g_layoutOverride s, s)
      else if layoutDetected s then (cachedLayout s, s)
      else (case pipe of
          None \<Rightarrow> (''us'', s\<lparr>cachedLayout := ''us'', layoutDetected := True\<rparr>)
        | Some out \<Rightarrow>
            (let buffer = fgets 128 out;
                 result = (case buffer of None \<Rightarrow> []
                           | Some b \<Rightarrow> filter (\<lambda>c. c \<noteq> CHR 0x0A) (c_str b));
                 layout = (if result = [] then ''us''
                           else if prefix ''jp'' result \<or> sublist '',jp'' result then ''jp''
                           else ''us'')
             in (layout, s\<lparr>cachedLayout := layout, layoutDetected := True\<rparr>))))"

section \<open>Translation\<close>

definition evdevToYamyKeyCode :: "(evkey \<Rightarrow> u16) \<Rightarrow> u16 \<Rightarrow> u16" where
  "evdevToYamyKeyCode ev evdev_code =
     (case map_of (map (\<lambda>(n, c). (ev n, c)) g_evdevToYamyMap) evdev_code of
        None \<Rightarrow> 0 | Some c \<Rightarrow> c)"

text \<open>The argument \<open>layout\<close> is what \<^const>\<open>detectKeyboardLayout\<close> returns at the call.\<close>

definition yamyToEvdevKeyCode :: "(evkey \<Rightarrow> u16) \<Rightarrow> string \<Rightarrow> u16 \<Rightarrow> u16" where
  "yamyToEvdevKeyCode ev layout yamy_code =
     (case map_of (if layout = ''jp'' then g_scanToEvdevMap_JP else g_scanToEvdevMap_US) yamy_code of
        Some n \<Rightarrow> ev n
      | None \<Rightarrow> (case map_of g_yamyToEvdevMap yamy_code of Some n \<Rightarrow> ev n | None \<Rightarrow> 0))"

definition isModifierKey :: "(evkey \<Rightarrow> u16) \<Rightarrow> u16 \<Rightarrow> bool" where
  "isModifierKey ev evdev_code \<longleftrightarrow> evdev_code \<in> set (map ev modifier_keys)"

definition getKeyName :: "(evkey \<Rightarrow> u16) \<Rightarrow> u16 \<Rightarrow> string" where
  "getKeyName ev evdev_code =
     (case map_of (map (\<lambda>(n, s). (ev n, s)) key_names) evdev_code of
        Some s \<Rightarrow> s | None \<Rightarrow> ''UNKNOWN'')"

definition getModifierForNumberKey :: "(evkey \<Rightarrow> u16) \<Rightarrow> u16 \<Rightarrow> u16" where
  "getModifierForNumberKey ev yamy_scancode =
     (case map_of g_numberToModifierMap yamy_scancode of Some n \<Rightarrow> ev n | None \<Rightarrow> 0)"

section \<open>The header's values\<close>

text \<open>The values of the macros, in the order of their numbers.\<close>

definition linux_codes :: "u16 list" where
  "linux_codes =
    [30, 48, 46, 32, 18, 33, 34, 35, 23, 36, 37, 38, 50, 49, 24,
     25, 16, 19, 31, 20, 22, 47, 17, 45, 21, 44, 11, 2, 3, 4,
     5, 6, 7, 8, 9, 10, 59, 60, 61, 62, 63, 64, 65, 66, 67,
     68, 87, 88, 183, 184, 185, 186, 187, 188, 189, 190, 191, 192, 193, 194,
     42, 54, 29, 97, 56, 100, 125, 126, 1, 15, 58, 28, 14, 57, 110,
     111, 102, 107, 104, 109, 105, 106, 103, 108, 69, 70, 82, 79, 80, 81,
     75, 76, 77, 71, 72, 73, 55, 78, 74, 83, 98, 96, 12, 13, 26,
     27, 39, 40, 41, 43, 51, 52, 53, 86, 99, 119, 139, 92, 93, 94,
     89, 142, 124]"

definition linux_ev :: "evkey \<Rightarrow> u16" where
  "linux_ev k = (if k < evkey_count then linux_codes ! k else 0)"

text \<open>What the code relies on: the macros of the tables are distinct and none is zero.\<close>

definition ev_ok :: "(evkey \<Rightarrow> u16) \<Rightarrow> bool" where
  "ev_ok ev \<longleftrightarrow> inj_on ev {..<evkey_count} \<and> (\<forall>k<evkey_count. ev k \<noteq> 0)"

section \<open>Lookup by search tree\<close>

lemma inj_uint: "inj_on (uint :: 'a::len word \<Rightarrow> int) A"
  by (auto intro!: inj_onI simp: word_uint_eq_iff)

lemma map_of_uint: "map_of (map (\<lambda>(c, n). (uint c, n)) xs) (uint c) = map_of xs c"
  by (rule map_of_map_key) (rule inj_uint)

definition us_tree :: "(int \<times> evkey) tree" where
  "us_tree =
     \<langle>\<langle>\<langle>\<langle>\<langle>\<langle>\<langle>\<langle>\<rangle>, (1,
     KEY_ESC), \<langle>\<rangle>\<rangle>, (2, KEY_1), \<langle>\<langle>\<rangle>, (3, KEY_2),
     \<langle>\<rangle>\<rangle>\<rangle>, (4, KEY_3), \<langle>\<langle>\<langle>\<rangle>, (5,
     KEY_4), \<langle>\<rangle>\<rangle>, (6, KEY_5), \<langle>\<rangle>\<rangle>\<rangle>, (7,
     KEY_6), \<langle>\<langle>\<langle>\<langle>\<rangle>, (8, KEY_7), \<langle>\<rangle>\<rangle>,
     (9, KEY_8), \<langle>\<langle>\<rangle>, (10, KEY_9), \<langle>\<rangle>\<rangle>\<rangle>,
     (11, KEY_0), \<langle>\<langle>\<langle>\<rangle>, (12, KEY_MINUS),
     \<langle>\<rangle>\<rangle>, (13, KEY_EQUAL), \<langle>\<rangle>\<rangle>\<rangle>\<rangle>,
     (14, KEY_BACKSPACE), \<langle>\<langle>\<langle>\<langle>\<langle>\<rangle>, (15, KEY_TAB),
     \<langle>\<rangle>\<rangle>, (16, KEY_Q), \<langle>\<langle>\<rangle>, (17, KEY_W),
     \<langle>\<rangle>\<rangle>\<rangle>, (18, KEY_E), \<langle>\<langle>\<langle>\<rangle>, (19,
     KEY_R), \<langle>\<rangle>\<rangle>, (20, KEY_T), \<langle>\<rangle>\<rangle>\<rangle>, (21,
     KEY_Y), \<langle>\<langle>\<langle>\<langle>\<rangle>, (22, KEY_U),
     \<langle>\<rangle>\<rangle>, (23, KEY_I), \<langle>\<rangle>\<rangle>, (24, KEY_O),
     \<langle>\<langle>\<langle>\<rangle>, (25, KEY_P), \<langle>\<rangle>\<rangle>, (26,
     KEY_LEFTBRACE), \<langle>\<rangle>\<rangle>\<rangle>\<rangle>\<rangle>, (27, KEY_RIGHTBRACE),
     \<langle>\<langle>\<langle>\<langle>\<langle>\<langle>\<rangle>, (28, KEY_ENTER),
     \<langle>\<rangle>\<rangle>, (29, KEY_LEFTCTRL), \<langle>\<langle>\<rangle>, (30, KEY_A),
     \<langle>\<rangle>\<rangle>\<rangle>, (31, KEY_S), \<langle>\<langle>\<langle>\<rangle>, (32,
     KEY_D), \<langle>\<rangle>\<rangle>, (33, KEY_F), \<langle>\<rangle>\<rangle>\<rangle>, (34,
     KEY_G), \<langle>\<langle>\<langle>\<langle>\<rangle>, (35, KEY_H),
     \<langle>\<rangle>\<rangle>, (36, KEY_J), \<langle>\<rangle>\<rangle>, (37, KEY_K),
     \<langle>\<langle>\<langle>\<rangle>, (38, KEY_L), \<langle>\<rangle>\<rangle>, (39,
     KEY_SEMICOLON), \<langle>\<rangle>\<rangle>\<rangle>\<rangle>, (40, KEY_APOSTROPHE),
     \<langle>\<langle>\<langle>\<langle>\<langle>\<rangle>, (41, KEY_GRAVE),
     \<langle>\<rangle>\<rangle>, (42, KEY_LEFTSHIFT), \<langle>\<langle>\<rangle>, (43,
     KEY_BACKSLASH), \<langle>\<rangle>\<rangle>\<rangle>, (44, KEY_Z),
     \<langle>\<langle>\<langle>\<rangle>, (45, KEY_X), \<langle>\<rangle>\<rangle>, (46, KEY_C),
     \<langle>\<rangle>\<rangle>\<rangle>, (47, KEY_V),
     \<langle>\<langle>\<langle>\<langle>\<rangle>, (48, KEY_B), \<langle>\<rangle>\<rangle>, (49,
     KEY_N), \<langle>\<rangle>\<rangle>, (50, KEY_M), \<langle>\<langle>\<langle>\<rangle>, (51,
     KEY_COMMA), \<langle>\<rangle>\<rangle>, (52, KEY_DOT),
     \<langle>\<rangle>\<rangle>\<rangle>\<rangle>\<rangle>\<rangle>, (53, KEY_SLASH),
     \<langle>\<langle>\<langle>\<langle>\<langle>\<langle>\<langle>\<rangle>, (54, KEY_RIGHTSHIFT),
     \<langle>\<rangle>\<rangle>, (55, KEY_KPASTERISK), \<langle>\<langle>\<rangle>, (56,
     KEY_LEFTALT), \<langle>\<rangle>\<rangle>\<rangle>, (57, KEY_SPACE),
     \<langle>\<langle>\<langle>\<rangle>, (58, KEY_CAPSLOCK), \<langle>\<rangle>\<rangle>, (59,
     KEY_F1), \<langle>\<rangle>\<rangle>\<rangle>, (60, KEY_F2),
     \<langle>\<langle>\<langle>\<langle>\<rangle>, (61, KEY_F3), \<langle>\<rangle>\<rangle>, (62,
     KEY_F4), \<langle>\<rangle>\<rangle>, (63, KEY_F5), \<langle>\<langle>\<langle>\<rangle>, (64,
     KEY_F6), \<langle>\<rangle>\<rangle>, (65, KEY_F7),
     \<langle>\<rangle>\<rangle>\<rangle>\<rangle>, (66, KEY_F8),
     \<langle>\<langle>\<langle>\<langle>\<langle>\<rangle>, (67, KEY_F9),
     \<langle>\<rangle>\<rangle>, (68, KEY_F10), \<langle>\<langle>\<rangle>, (69, KEY_NUMLOCK),
     \<langle>\<rangle>\<rangle>\<rangle>, (70, KEY_SCROLLLOCK),
     \<langle>\<langle>\<langle>\<rangle>, (71, KEY_KP7), \<langle>\<rangle>\<rangle>, (72,
     KEY_KP8), \<langle>\<rangle>\<rangle>\<rangle>, (73, KEY_KP9),
     \<langle>\<langle>\<langle>\<langle>\<rangle>, (74, KEY_KPMINUS), \<langle>\<rangle>\<rangle>,
     (75, KEY_KP4), \<langle>\<rangle>\<rangle>, (76, KEY_KP5),
     \<langle>\<langle>\<langle>\<rangle>, (77, KEY_KP6), \<langle>\<rangle>\<rangle>, (78,
     KEY_KPPLUS), \<langle>\<rangle>\<rangle>\<rangle>\<rangle>\<rangle>, (79, KEY_KP1),
     \<langle>\<langle>\<langle>\<langle>\<langle>\<langle>\<rangle>, (80, KEY_KP2),
     \<langle>\<rangle>\<rangle>, (81, KEY_KP3), \<langle>\<langle>\<rangle>, (82, KEY_KP0),
     \<langle>\<rangle>\<rangle>\<rangle>, (83, KEY_KPDOT), \<langle>\<langle>\<langle>\<rangle>,
     (87, KEY_F11), \<langle>\<rangle>\<rangle>, (88, KEY_F12),
     \<langle>\<rangle>\<rangle>\<rangle>, (57372, KEY_KPENTER),
     \<langle>\<langle>\<langle>\<langle>\<rangle>, (57373, KEY_RIGHTCTRL),
     \<langle>\<rangle>\<rangle>, (57397, KEY_KPSLASH), \<langle>\<rangle>\<rangle>, (57399,
     KEY_SYSRQ), \<langle>\<langle>\<langle>\<rangle>, (57400, KEY_RIGHTALT),
     \<langle>\<rangle>\<rangle>, (57415, KEY_HOME), \<langle>\<rangle>\<rangle>\<rangle>\<rangle>,
     (57416, KEY_UP), \<langle>\<langle>\<langle>\<langle>\<langle>\<rangle>, (57417, KEY_PAGEUP),
     \<langle>\<rangle>\<rangle>, (57419, KEY_LEFT), \<langle>\<langle>\<rangle>, (57421,
     KEY_RIGHT), \<langle>\<rangle>\<rangle>\<rangle>, (57423, KEY_END),
     \<langle>\<langle>\<langle>\<rangle>, (57424, KEY_DOWN), \<langle>\<rangle>\<rangle>, (57425,
     KEY_PAGEDOWN), \<langle>\<rangle>\<rangle>\<rangle>, (57426, KEY_INSERT),
     \<langle>\<langle>\<langle>\<langle>\<rangle>, (57427, KEY_DELETE),
     \<langle>\<rangle>\<rangle>, (57435, KEY_LEFTMETA), \<langle>\<rangle>\<rangle>, (57436,
     KEY_RIGHTMETA), \<langle>\<langle>\<langle>\<rangle>, (57437, KEY_MENU),
     \<langle>\<rangle>\<rangle>, (57439, KEY_SLEEP),
     \<langle>\<rangle>\<rangle>\<rangle>\<rangle>\<rangle>\<rangle>\<rangle>"

lemma us_tree_inorder: "inorder us_tree = map (\<lambda>(c, n). (uint c, n)) g_scanToEvdevMap_US"
  by (simp add: us_tree_def g_scanToEvdevMap_US_def)

lemma us_lookup: "map_of g_scanToEvdevMap_US c = tlookup us_tree (uint c)"
proof -
  have "successively (<) (map fst (inorder us_tree))"
    by (simp add: us_tree_def)
  then show ?thesis
    by (simp add: tlookup_successively us_tree_inorder map_of_uint)
qed

definition jp_tree :: "(int \<times> evkey) tree" where
  "jp_tree =
     \<langle>\<langle>\<langle>\<langle>\<langle>\<langle>\<langle>\<langle>\<rangle>, (1,
     KEY_ESC), \<langle>\<rangle>\<rangle>, (2, KEY_1), \<langle>\<langle>\<rangle>, (3, KEY_2),
     \<langle>\<rangle>\<rangle>\<rangle>, (4, KEY_3), \<langle>\<langle>\<langle>\<rangle>, (5,
     KEY_4), \<langle>\<rangle>\<rangle>, (6, KEY_5), \<langle>\<rangle>\<rangle>\<rangle>, (7,
     KEY_6), \<langle>\<langle>\<langle>\<langle>\<rangle>, (8, KEY_7), \<langle>\<rangle>\<rangle>,
     (9, KEY_8), \<langle>\<langle>\<rangle>, (10, KEY_9), \<langle>\<rangle>\<rangle>\<rangle>,
     (11, KEY_0), \<langle>\<langle>\<langle>\<rangle>, (12, KEY_MINUS),
     \<langle>\<rangle>\<rangle>, (13, KEY_EQUAL), \<langle>\<rangle>\<rangle>\<rangle>\<rangle>,
     (14, KEY_BACKSPACE), \<langle>\<langle>\<langle>\<langle>\<langle>\<rangle>, (15, KEY_TAB),
     \<langle>\<rangle>\<rangle>, (16, KEY_Q), \<langle>\<langle>\<rangle>, (17, KEY_W),
     \<langle>\<rangle>\<rangle>\<rangle>, (18, KEY_E), \<langle>\<langle>\<langle>\<rangle>, (19,
     KEY_R), \<langle>\<rangle>\<rangle>, (20, KEY_T), \<langle>\<rangle>\<rangle>\<rangle>, (21,
     KEY_Y), \<langle>\<langle>\<langle>\<langle>\<rangle>, (22, KEY_U),
     \<langle>\<rangle>\<rangle>, (23, KEY_I), \<langle>\<langle>\<rangle>, (24, KEY_O),
     \<langle>\<rangle>\<rangle>\<rangle>, (25, KEY_P), \<langle>\<langle>\<langle>\<rangle>, (26,
     KEY_LEFTBRACE), \<langle>\<rangle>\<rangle>, (27, KEY_RIGHTBRACE),
     \<langle>\<rangle>\<rangle>\<rangle>\<rangle>\<rangle>, (28, KEY_ENTER),
     \<langle>\<langle>\<langle>\<langle>\<langle>\<langle>\<rangle>, (29, KEY_LEFTCTRL),
     \<langle>\<rangle>\<rangle>, (30, KEY_A), \<langle>\<langle>\<rangle>, (31, KEY_S),
     \<langle>\<rangle>\<rangle>\<rangle>, (32, KEY_D), \<langle>\<langle>\<langle>\<rangle>, (33,
     KEY_F), \<langle>\<rangle>\<rangle>, (34, KEY_G), \<langle>\<rangle>\<rangle>\<rangle>, (35,
     KEY_H), \<langle>\<langle>\<langle>\<langle>\<rangle>, (36, KEY_J),
     \<langle>\<rangle>\<rangle>, (37, KEY_K), \<langle>\<langle>\<rangle>, (38, KEY_L),
     \<langle>\<rangle>\<rangle>\<rangle>, (39, KEY_SEMICOLON),
     \<langle>\<langle>\<langle>\<rangle>, (40, KEY_APOSTROPHE), \<langle>\<rangle>\<rangle>, (41,
     KEY_GRAVE), \<langle>\<rangle>\<rangle>\<rangle>\<rangle>, (42, KEY_LEFTSHIFT),
     \<langle>\<langle>\<langle>\<langle>\<langle>\<rangle>, (43, KEY_BACKSLASH),
     \<langle>\<rangle>\<rangle>, (44, KEY_Z), \<langle>\<langle>\<rangle>, (45, KEY_X),
     \<langle>\<rangle>\<rangle>\<rangle>, (46, KEY_C), \<langle>\<langle>\<langle>\<rangle>, (47,
     KEY_V), \<langle>\<rangle>\<rangle>, (48, KEY_B), \<langle>\<rangle>\<rangle>\<rangle>, (49,
     KEY_N), \<langle>\<langle>\<langle>\<langle>\<rangle>, (50, KEY_M),
     \<langle>\<rangle>\<rangle>, (51, KEY_COMMA), \<langle>\<rangle>\<rangle>, (52, KEY_DOT),
     \<langle>\<langle>\<langle>\<rangle>, (53, KEY_SLASH), \<langle>\<rangle>\<rangle>, (54,
     KEY_RIGHTSHIFT), \<langle>\<rangle>\<rangle>\<rangle>\<rangle>\<rangle>\<rangle>, (55,
     KEY_KPASTERISK), \<langle>\<langle>\<langle>\<langle>\<langle>\<langle>\<langle>\<rangle>, (56,
     KEY_LEFTALT), \<langle>\<rangle>\<rangle>, (57, KEY_SPACE), \<langle>\<langle>\<rangle>, (58,
     KEY_CAPSLOCK), \<langle>\<rangle>\<rangle>\<rangle>, (59, KEY_F1),
     \<langle>\<langle>\<langle>\<rangle>, (60, KEY_F2), \<langle>\<rangle>\<rangle>, (61, KEY_F3),
     \<langle>\<rangle>\<rangle>\<rangle>, (62, KEY_F4),
     \<langle>\<langle>\<langle>\<langle>\<rangle>, (63, KEY_F5), \<langle>\<rangle>\<rangle>, (64,
     KEY_F6), \<langle>\<langle>\<rangle>, (65, KEY_F7), \<langle>\<rangle>\<rangle>\<rangle>, (66,
     KEY_F8), \<langle>\<langle>\<langle>\<rangle>, (67, KEY_F9), \<langle>\<rangle>\<rangle>, (68,
     KEY_F10), \<langle>\<rangle>\<rangle>\<rangle>\<rangle>, (69, KEY_NUMLOCK),
     \<langle>\<langle>\<langle>\<langle>\<langle>\<rangle>, (70, KEY_SCROLLLOCK),
     \<langle>\<rangle>\<rangle>, (71, KEY_KP7), \<langle>\<langle>\<rangle>, (72, KEY_KP8),
     \<langle>\<rangle>\<rangle>\<rangle>, (73, KEY_KP9), \<langle>\<langle>\<langle>\<rangle>, (74,
     KEY_KPMINUS), \<langle>\<rangle>\<rangle>, (75, KEY_KP4), \<langle>\<rangle>\<rangle>\<rangle>,
     (76, KEY_KP5), \<langle>\<langle>\<langle>\<langle>\<rangle>, (77, KEY_KP6),
     \<langle>\<rangle>\<rangle>, (78, KEY_KPPLUS), \<langle>\<langle>\<rangle>, (79, KEY_KP1),
     \<langle>\<rangle>\<rangle>\<rangle>, (80, KEY_KP2), \<langle>\<langle>\<langle>\<rangle>, (81,
     KEY_KP3), \<langle>\<rangle>\<rangle>, (82, KEY_KP0),
     \<langle>\<rangle>\<rangle>\<rangle>\<rangle>\<rangle>, (83, KEY_KPDOT),
     \<langle>\<langle>\<langle>\<langle>\<langle>\<langle>\<rangle>, (87, KEY_F11),
     \<langle>\<rangle>\<rangle>, (88, KEY_F12), \<langle>\<langle>\<rangle>, (112,
     KEY_KATAKANAHIRAGANA), \<langle>\<rangle>\<rangle>\<rangle>, (115, KEY_RO),
     \<langle>\<langle>\<langle>\<rangle>, (121, KEY_HENKAN), \<langle>\<rangle>\<rangle>, (123,
     KEY_MUHENKAN), \<langle>\<rangle>\<rangle>\<rangle>, (125, KEY_YEN),
     \<langle>\<langle>\<langle>\<langle>\<rangle>, (57372, KEY_KPENTER),
     \<langle>\<rangle>\<rangle>, (57373, KEY_RIGHTCTRL), \<langle>\<langle>\<rangle>, (57397,
     KEY_KPSLASH), \<langle>\<rangle>\<rangle>\<rangle>, (57399, KEY_SYSRQ),
     \<langle>\<langle>\<langle>\<rangle>, (57400, KEY_RIGHTALT), \<langle>\<rangle>\<rangle>,
     (57415, KEY_HOME), \<langle>\<rangle>\<rangle>\<rangle>\<rangle>, (57416, KEY_UP),
     \<langle>\<langle>\<langle>\<langle>\<langle>\<rangle>, (57417, KEY_PAGEUP),
     \<langle>\<rangle>\<rangle>, (57419, KEY_LEFT), \<langle>\<langle>\<rangle>, (57421,
     KEY_RIGHT), \<langle>\<rangle>\<rangle>\<rangle>, (57423, KEY_END),
     \<langle>\<langle>\<langle>\<rangle>, (57424, KEY_DOWN), \<langle>\<rangle>\<rangle>, (57425,
     KEY_PAGEDOWN), \<langle>\<rangle>\<rangle>\<rangle>, (57426, KEY_INSERT),
     \<langle>\<langle>\<langle>\<langle>\<rangle>, (57427, KEY_DELETE),
     \<langle>\<rangle>\<rangle>, (57435, KEY_LEFTMETA), \<langle>\<rangle>\<rangle>, (57436,
     KEY_RIGHTMETA), \<langle>\<langle>\<langle>\<rangle>, (57437, KEY_MENU),
     \<langle>\<rangle>\<rangle>, (57439, KEY_SLEEP),
     \<langle>\<rangle>\<rangle>\<rangle>\<rangle>\<rangle>\<rangle>\<rangle>"

lemma jp_tree_inorder: "inorder jp_tree = map (\<lambda>(c, n). (uint c, n)) g_scanToEvdevMap_JP"
  by (simp add: jp_tree_def g_scanToEvdevMap_JP_def)

lemma jp_lookup: "map_of g_scanToEvdevMap_JP c = tlookup jp_tree (uint c)"
proof -
  have "successively (<) (map fst (inorder jp_tree))"
    by (simp add: jp_tree_def)
  then show ?thesis
    by (simp add: tlookup_successively jp_tree_inorder map_of_uint)
qed

definition vk_tree :: "(int \<times> evkey) tree" where
  "vk_tree =
     \<langle>\<langle>\<langle>\<langle>\<langle>\<langle>\<langle>\<langle>\<rangle>, (8,
     KEY_BACKSPACE), \<langle>\<rangle>\<rangle>, (9, KEY_TAB), \<langle>\<langle>\<rangle>, (13,
     KEY_ENTER), \<langle>\<rangle>\<rangle>\<rangle>, (19, KEY_PAUSE),
     \<langle>\<langle>\<langle>\<rangle>, (20, KEY_CAPSLOCK), \<langle>\<rangle>\<rangle>, (27,
     KEY_ESC), \<langle>\<langle>\<rangle>, (32, KEY_SPACE),
     \<langle>\<rangle>\<rangle>\<rangle>\<rangle>, (33, KEY_PAGEUP),
     \<langle>\<langle>\<langle>\<langle>\<rangle>, (34, KEY_PAGEDOWN), \<langle>\<rangle>\<rangle>,
     (35, KEY_END), \<langle>\<langle>\<rangle>, (36, KEY_HOME),
     \<langle>\<rangle>\<rangle>\<rangle>, (37, KEY_LEFT), \<langle>\<langle>\<langle>\<rangle>,
     (38, KEY_UP), \<langle>\<rangle>\<rangle>, (39, KEY_RIGHT),
     \<langle>\<rangle>\<rangle>\<rangle>\<rangle>, (40, KEY_DOWN),
     \<langle>\<langle>\<langle>\<langle>\<langle>\<rangle>, (44, KEY_SYSRQ),
     \<langle>\<rangle>\<rangle>, (45, KEY_INSERT), \<langle>\<langle>\<rangle>, (46, KEY_DELETE),
     \<langle>\<rangle>\<rangle>\<rangle>, (48, KEY_0), \<langle>\<langle>\<langle>\<rangle>, (49,
     KEY_1), \<langle>\<rangle>\<rangle>, (50, KEY_2), \<langle>\<langle>\<rangle>, (51, KEY_3),
     \<langle>\<rangle>\<rangle>\<rangle>\<rangle>, (52, KEY_4),
     \<langle>\<langle>\<langle>\<langle>\<rangle>, (53, KEY_5), \<langle>\<rangle>\<rangle>, (54,
     KEY_6), \<langle>\<langle>\<rangle>, (55, KEY_7), \<langle>\<rangle>\<rangle>\<rangle>, (56,
     KEY_8), \<langle>\<langle>\<langle>\<rangle>, (57, KEY_9), \<langle>\<rangle>\<rangle>, (65,
     KEY_A), \<langle>\<rangle>\<rangle>\<rangle>\<rangle>\<rangle>, (66, KEY_B),
     \<langle>\<langle>\<langle>\<langle>\<langle>\<langle>\<rangle>, (67, KEY_C),
     \<langle>\<rangle>\<rangle>, (68, KEY_D), \<langle>\<langle>\<rangle>, (69, KEY_E),
     \<langle>\<rangle>\<rangle>\<rangle>, (70, KEY_F), \<langle>\<langle>\<langle>\<rangle>, (71,
     KEY_G), \<langle>\<rangle>\<rangle>, (72, KEY_H), \<langle>\<langle>\<rangle>, (73, KEY_I),
     \<langle>\<rangle>\<rangle>\<rangle>\<rangle>, (74, KEY_J),
     \<langle>\<langle>\<langle>\<langle>\<rangle>, (75, KEY_K), \<langle>\<rangle>\<rangle>, (76,
     KEY_L), \<langle>\<langle>\<rangle>, (77, KEY_M), \<langle>\<rangle>\<rangle>\<rangle>, (78,
     KEY_N), \<langle>\<langle>\<langle>\<rangle>, (79, KEY_O), \<langle>\<rangle>\<rangle>, (80,
     KEY_P), \<langle>\<rangle>\<rangle>\<rangle>\<rangle>, (81, KEY_Q),
     \<langle>\<langle>\<langle>\<langle>\<langle>\<rangle>, (82, KEY_R),
     \<langle>\<rangle>\<rangle>, (83, KEY_S), \<langle>\<langle>\<rangle>, (84, KEY_T),
     \<langle>\<rangle>\<rangle>\<rangle>, (85, KEY_U), \<langle>\<langle>\<langle>\<rangle>, (86,
     KEY_V), \<langle>\<rangle>\<rangle>, (87, KEY_W), \<langle>\<rangle>\<rangle>\<rangle>, (88,
     KEY_X), \<langle>\<langle>\<langle>\<langle>\<rangle>, (89, KEY_Y),
     \<langle>\<rangle>\<rangle>, (90, KEY_Z), \<langle>\<langle>\<rangle>, (91, KEY_LEFTMETA),
     \<langle>\<rangle>\<rangle>\<rangle>, (92, KEY_RIGHTMETA),
     \<langle>\<langle>\<langle>\<rangle>, (93, KEY_MENU), \<langle>\<rangle>\<rangle>, (96,
     KEY_KP0), \<langle>\<rangle>\<rangle>\<rangle>\<rangle>\<rangle>\<rangle>, (97, KEY_KP1),
     \<langle>\<langle>\<langle>\<langle>\<langle>\<langle>\<langle>\<rangle>, (98, KEY_KP2),
     \<langle>\<rangle>\<rangle>, (99, KEY_KP3), \<langle>\<langle>\<rangle>, (100, KEY_KP4),
     \<langle>\<rangle>\<rangle>\<rangle>, (101, KEY_KP5), \<langle>\<langle>\<langle>\<rangle>,
     (102, KEY_KP6), \<langle>\<rangle>\<rangle>, (103, KEY_KP7), \<langle>\<langle>\<rangle>, (104,
     KEY_KP8), \<langle>\<rangle>\<rangle>\<rangle>\<rangle>, (105, KEY_KP9),
     \<langle>\<langle>\<langle>\<langle>\<rangle>, (106, KEY_KPASTERISK),
     \<langle>\<rangle>\<rangle>, (107, KEY_KPPLUS), \<langle>\<langle>\<rangle>, (109,
     KEY_KPMINUS), \<langle>\<rangle>\<rangle>\<rangle>, (110, KEY_KPDOT),
     \<langle>\<langle>\<langle>\<rangle>, (111, KEY_KPSLASH), \<langle>\<rangle>\<rangle>, (112,
     KEY_F1), \<langle>\<rangle>\<rangle>\<rangle>\<rangle>, (113, KEY_F2),
     \<langle>\<langle>\<langle>\<langle>\<langle>\<rangle>, (114, KEY_F3),
     \<langle>\<rangle>\<rangle>, (115, KEY_F4), \<langle>\<langle>\<rangle>, (116, KEY_F5),
     \<langle>\<rangle>\<rangle>\<rangle>, (117, KEY_F6), \<langle>\<langle>\<langle>\<rangle>,
     (118, KEY_F7), \<langle>\<rangle>\<rangle>, (119, KEY_F8),
     \<langle>\<rangle>\<rangle>\<rangle>, (120, KEY_F9),
     \<langle>\<langle>\<langle>\<langle>\<rangle>, (121, KEY_F10), \<langle>\<rangle>\<rangle>,
     (122, KEY_F11), \<langle>\<langle>\<rangle>, (123, KEY_F12),
     \<langle>\<rangle>\<rangle>\<rangle>, (124, KEY_F13), \<langle>\<langle>\<langle>\<rangle>,
     (125, KEY_F14), \<langle>\<rangle>\<rangle>, (126, KEY_F15),
     \<langle>\<rangle>\<rangle>\<rangle>\<rangle>\<rangle>, (127, KEY_F16),
     \<langle>\<langle>\<langle>\<langle>\<langle>\<langle>\<rangle>, (128, KEY_F17),
     \<langle>\<rangle>\<rangle>, (129, KEY_F18), \<langle>\<langle>\<rangle>, (130, KEY_F19),
     \<langle>\<rangle>\<rangle>\<rangle>, (131, KEY_F20), \<langle>\<langle>\<langle>\<rangle>,
     (132, KEY_F21), \<langle>\<rangle>\<rangle>, (133, KEY_F22), \<langle>\<langle>\<rangle>, (134,
     KEY_F23), \<langle>\<rangle>\<rangle>\<rangle>\<rangle>, (135, KEY_F24),
     \<langle>\<langle>\<langle>\<langle>\<rangle>, (144, KEY_NUMLOCK), \<langle>\<rangle>\<rangle>,
     (145, KEY_SCROLLLOCK), \<langle>\<langle>\<rangle>, (160, KEY_LEFTSHIFT),
     \<langle>\<rangle>\<rangle>\<rangle>, (161, KEY_RIGHTSHIFT),
     \<langle>\<langle>\<langle>\<rangle>, (162, KEY_LEFTCTRL), \<langle>\<rangle>\<rangle>, (163,
     KEY_RIGHTCTRL), \<langle>\<rangle>\<rangle>\<rangle>\<rangle>, (164, KEY_LEFTALT),
     \<langle>\<langle>\<langle>\<langle>\<langle>\<rangle>, (165, KEY_RIGHTALT),
     \<langle>\<rangle>\<rangle>, (186, KEY_SEMICOLON), \<langle>\<langle>\<rangle>, (187,
     KEY_EQUAL), \<langle>\<rangle>\<rangle>\<rangle>, (188, KEY_COMMA),
     \<langle>\<langle>\<langle>\<rangle>, (189, KEY_MINUS), \<langle>\<rangle>\<rangle>, (190,
     KEY_DOT), \<langle>\<rangle>\<rangle>\<rangle>, (191, KEY_SLASH),
     \<langle>\<langle>\<langle>\<langle>\<rangle>, (192, KEY_GRAVE), \<langle>\<rangle>\<rangle>,
     (219, KEY_LEFTBRACE), \<langle>\<langle>\<rangle>, (220, KEY_BACKSLASH),
     \<langle>\<rangle>\<rangle>\<rangle>, (221, KEY_RIGHTBRACE),
     \<langle>\<langle>\<langle>\<rangle>, (222, KEY_APOSTROPHE), \<langle>\<rangle>\<rangle>, (226,
     KEY_102ND), \<langle>\<rangle>\<rangle>\<rangle>\<rangle>\<rangle>\<rangle>\<rangle>"

lemma vk_uint:
  "map (\<lambda>(c, n). (uint c, n)) g_yamyToEvdevMap =
     [(65, KEY_A), (66, KEY_B), (67, KEY_C), (68, KEY_D), (69, KEY_E), (70, KEY_F), (71, KEY_G), (72,
     KEY_H), (73, KEY_I), (74, KEY_J), (75, KEY_K), (76, KEY_L), (77, KEY_M), (78, KEY_N), (79,
     KEY_O), (80, KEY_P), (81, KEY_Q), (82, KEY_R), (83, KEY_S), (84, KEY_T), (85, KEY_U), (86,
     KEY_V), (87, KEY_W), (88, KEY_X), (89, KEY_Y), (90, KEY_Z), (48, KEY_0), (49, KEY_1), (50,
     KEY_2), (51, KEY_3), (52, KEY_4), (53, KEY_5), (54, KEY_6), (55, KEY_7), (56, KEY_8), (57,
     KEY_9), (112, KEY_F1), (113, KEY_F2), (114, KEY_F3), (115, KEY_F4), (116, KEY_F5), (117,
     KEY_F6), (118, KEY_F7), (119, KEY_F8), (120, KEY_F9), (121, KEY_F10), (122, KEY_F11), (123,
     KEY_F12), (124, KEY_F13), (125, KEY_F14), (126, KEY_F15), (127, KEY_F16), (128, KEY_F17), (129,
     KEY_F18), (130, KEY_F19), (131, KEY_F20), (132, KEY_F21), (133, KEY_F22), (134, KEY_F23), (135,
     KEY_F24), (160, KEY_LEFTSHIFT), (161, KEY_RIGHTSHIFT), (162, KEY_LEFTCTRL), (163,
     KEY_RIGHTCTRL), (164, KEY_LEFTALT), (165, KEY_RIGHTALT), (91, KEY_LEFTMETA), (92,
     KEY_RIGHTMETA), (27, KEY_ESC), (9, KEY_TAB), (20, KEY_CAPSLOCK), (13, KEY_ENTER), (8,
     KEY_BACKSPACE), (32, KEY_SPACE), (45, KEY_INSERT), (46, KEY_DELETE), (36, KEY_HOME), (35,
     KEY_END), (33, KEY_PAGEUP), (34, KEY_PAGEDOWN), (37, KEY_LEFT), (39, KEY_RIGHT), (38, KEY_UP),
     (40, KEY_DOWN), (144, KEY_NUMLOCK), (145, KEY_SCROLLLOCK), (96, KEY_KP0), (97, KEY_KP1), (98,
     KEY_KP2), (99, KEY_KP3), (100, KEY_KP4), (101, KEY_KP5), (102, KEY_KP6), (103, KEY_KP7), (104,
     KEY_KP8), (105, KEY_KP9), (106, KEY_KPASTERISK), (107, KEY_KPPLUS), (109, KEY_KPMINUS), (110,
     KEY_KPDOT), (111, KEY_KPSLASH), (189, KEY_MINUS), (187, KEY_EQUAL), (219, KEY_LEFTBRACE), (221,
     KEY_RIGHTBRACE), (186, KEY_SEMICOLON), (222, KEY_APOSTROPHE), (192, KEY_GRAVE), (220,
     KEY_BACKSLASH), (188, KEY_COMMA), (190, KEY_DOT), (191, KEY_SLASH), (226, KEY_102ND), (44,
     KEY_SYSRQ), (19, KEY_PAUSE), (93, KEY_MENU)]"
  by (simp add: g_yamyToEvdevMap_def)

lemma vk_tree_inorder:
  "inorder vk_tree = sort_key fst (map (\<lambda>(c, n). (uint c, n)) g_yamyToEvdevMap)"
  unfolding vk_uint vk_tree_def KEY_defs by code_simp

lemma vk_lookup: "map_of g_yamyToEvdevMap c = tlookup vk_tree (uint c)"
proof -
  have "successively (<) (map fst (inorder vk_tree))"
    by (simp add: vk_tree_def)
  then show ?thesis
    by (simp add: tlookup_successively vk_tree_inorder map_of_sort_key map_of_uint)
qed

section \<open>Pass-through of a key\<close>

text \<open>The macro that \<^const>\<open>yamyToEvdevKeyCode\<close> answers with.\<close>

definition out_key :: "string \<Rightarrow> u16 \<Rightarrow> evkey option" where
  "out_key layout c =
     (case map_of (if layout = ''jp'' then g_scanToEvdevMap_JP else g_scanToEvdevMap_US) c of
        Some n \<Rightarrow> Some n
      | None \<Rightarrow> map_of g_yamyToEvdevMap c)"

lemma yamyToEvdev_out_key:
  "yamyToEvdevKeyCode ev layout c = (case out_key layout c of Some n \<Rightarrow> ev n | None \<Rightarrow> 0)"
  by (simp add: yamyToEvdevKeyCode_def out_key_def split: option.splits)

lemma out_key_tree:
  "out_key layout c =
     (case tlookup (if layout = ''jp'' then jp_tree else us_tree) (uint c) of
        Some n \<Rightarrow> Some n
      | None \<Rightarrow> tlookup vk_tree (uint c))"
  by (simp add: out_key_def us_lookup jp_lookup vk_lookup cong: option.case_cong)

text \<open>
  The keys of the first map whose YAMY code is missing from both scan-code maps, with what the
  fallback map makes of that code.
\<close>

definition misdelivered :: "(evkey \<times> evkey option) list" where
  "misdelivered =
     [(KEY_F13, Some KEY_KP4), (KEY_F14, Some KEY_KP5), (KEY_F15, Some KEY_KP6), (KEY_F16, Some
     KEY_KP7), (KEY_F17, Some KEY_KP8), (KEY_F18, Some KEY_KP9), (KEY_F19, Some KEY_KPASTERISK),
     (KEY_F20, Some KEY_KPPLUS), (KEY_F21, None), (KEY_F22, Some KEY_KPMINUS), (KEY_F23, Some
     KEY_KPDOT), (KEY_F24, Some KEY_F7), (KEY_102ND, Some KEY_V), (KEY_PAUSE, None)]"

lemma evdev_uint:
  "map (\<lambda>(n, c). (n, uint c)) g_evdevToYamyMap =
     [(KEY_A, 30), (KEY_B, 48), (KEY_C, 46), (KEY_D, 32), (KEY_E, 18), (KEY_F, 33), (KEY_G, 34),
     (KEY_H, 35), (KEY_I, 23), (KEY_J, 36), (KEY_K, 37), (KEY_L, 38), (KEY_M, 50), (KEY_N, 49),
     (KEY_O, 24), (KEY_P, 25), (KEY_Q, 16), (KEY_R, 19), (KEY_S, 31), (KEY_T, 20), (KEY_U, 22),
     (KEY_V, 47), (KEY_W, 17), (KEY_X, 45), (KEY_Y, 21), (KEY_Z, 44), (KEY_0, 11), (KEY_1, 2),
     (KEY_2, 3), (KEY_3, 4), (KEY_4, 5), (KEY_5, 6), (KEY_6, 7), (KEY_7, 8), (KEY_8, 9), (KEY_9,
     10), (KEY_F1, 59), (KEY_F2, 60), (KEY_F3, 61), (KEY_F4, 62), (KEY_F5, 63), (KEY_F6, 64),
     (KEY_F7, 65), (KEY_F8, 66), (KEY_F9, 67), (KEY_F10, 68), (KEY_F11, 87), (KEY_F12, 88),
     (KEY_F13, 100), (KEY_F14, 101), (KEY_F15, 102), (KEY_F16, 103), (KEY_F17, 104), (KEY_F18, 105),
     (KEY_F19, 106), (KEY_F20, 107), (KEY_F21, 108), (KEY_F22, 109), (KEY_F23, 110), (KEY_F24, 118),
     (KEY_LEFTSHIFT, 42), (KEY_RIGHTSHIFT, 54), (KEY_LEFTCTRL, 29), (KEY_RIGHTCTRL, 57373),
     (KEY_LEFTALT, 56), (KEY_RIGHTALT, 57400), (KEY_LEFTMETA, 57435), (KEY_RIGHTMETA, 57436),
     (KEY_ESC, 1), (KEY_TAB, 15), (KEY_CAPSLOCK, 58), (KEY_ENTER, 28), (KEY_BACKSPACE, 14),
     (KEY_SPACE, 57), (KEY_INSERT, 57426), (KEY_DELETE, 57427), (KEY_HOME, 57415), (KEY_END, 57423),
     (KEY_PAGEUP, 57417), (KEY_PAGEDOWN, 57425), (KEY_LEFT, 57419), (KEY_RIGHT, 57421), (KEY_UP,
     57416), (KEY_DOWN, 57424), (KEY_NUMLOCK, 69), (KEY_SCROLLLOCK, 70), (KEY_KP0, 82), (KEY_KP1,
     79), (KEY_KP2, 80), (KEY_KP3, 81), (KEY_KP4, 75), (KEY_KP5, 76), (KEY_KP6, 77), (KEY_KP7, 71),
     (KEY_KP8, 72), (KEY_KP9, 73), (KEY_KPASTERISK, 55), (KEY_KPPLUS, 78), (KEY_KPMINUS, 74),
     (KEY_KPDOT, 83), (KEY_KPSLASH, 57397), (KEY_KPENTER, 57372), (KEY_MINUS, 12), (KEY_EQUAL, 13),
     (KEY_LEFTBRACE, 26), (KEY_RIGHTBRACE, 27), (KEY_SEMICOLON, 39), (KEY_APOSTROPHE, 40),
     (KEY_GRAVE, 41), (KEY_BACKSLASH, 43), (KEY_COMMA, 51), (KEY_DOT, 52), (KEY_SLASH, 53),
     (KEY_102ND, 86), (KEY_SYSRQ, 57399), (KEY_PAUSE, 57629), (KEY_MENU, 57437)]"
  by (simp add: g_evdevToYamyMap_def)

definition pass_check :: "(int \<times> evkey) tree \<Rightarrow> evkey \<times> int \<Rightarrow> bool" where
  "pass_check t = (\<lambda>(n, c).
     (case tlookup t c of Some m \<Rightarrow> Some m | None \<Rightarrow> tlookup vk_tree c) =
     (case map_of misdelivered n of None \<Rightarrow> Some n | Some r \<Rightarrow> r))"

lemma pass_check_us: "list_all (pass_check us_tree) (map (\<lambda>(n, c). (n, uint c)) g_evdevToYamyMap)"
  unfolding evdev_uint by (simp add: pass_check_def misdelivered_def us_tree_def vk_tree_def KEY_defs)

lemma pass_check_jp: "list_all (pass_check jp_tree) (map (\<lambda>(n, c). (n, uint c)) g_evdevToYamyMap)"
  unfolding evdev_uint by (simp add: pass_check_def misdelivered_def jp_tree_def vk_tree_def KEY_defs)

lemma out_key_pass:
  assumes "(n, c) \<in> set g_evdevToYamyMap"
  shows "out_key layout c = (case map_of misdelivered n of None \<Rightarrow> Some n | Some r \<Rightarrow> r)"
proof -
  have "pass_check (if layout = ''jp'' then jp_tree else us_tree) (n, uint c)"
    using assms pass_check_us pass_check_jp by (auto simp: list_all_iff)
  then show ?thesis
    by (simp add: pass_check_def out_key_tree)
qed

lemma evdev_keys: "map fst g_evdevToYamyMap = [0..<117]"
  by (simp add: g_evdevToYamyMap_def KEY_defs upt_rec)

lemma evdevToYamy_lookup:
  assumes "ev_ok ev" "n < evkey_count"
  shows "evdevToYamyKeyCode ev (ev n) = (case map_of g_evdevToYamyMap n of None \<Rightarrow> 0 | Some c \<Rightarrow> c)"
proof -
  have "fst ` set g_evdevToYamyMap = {0..<117}"
    by (metis evdev_keys list.set_map set_upt)
  then have "insert n (fst ` set g_evdevToYamyMap) \<subseteq> {..<evkey_count}"
    using assms(2) by (auto simp: evkey_count_def)
  then have "inj_on ev (insert n (fst ` set g_evdevToYamyMap))"
    using assms(1) inj_on_subset unfolding ev_ok_def by blast
  then show ?thesis
    by (simp add: evdevToYamyKeyCode_def map_of_map_key)
qed

lemma evdevToYamy_entry:
  assumes "ev_ok ev" "(n, c) \<in> set g_evdevToYamyMap"
  shows "evdevToYamyKeyCode ev (ev n) = c"
proof -
  have "distinct (map fst g_evdevToYamyMap)" by (simp only: evdev_keys distinct_upt)
  then have "map_of g_evdevToYamyMap n = Some c" using assms(2) by simp
  moreover have "n \<in> set (map fst g_evdevToYamyMap)" using assms(2) by force
  then have "n < evkey_count" unfolding evdev_keys by (simp add: evkey_count_def)
  ultimately show ?thesis using assms(1) by (simp add: evdevToYamy_lookup)
qed

lemma linux_ev_ok: "ev_ok linux_ev"
proof -
  have len: "length linux_codes = evkey_count" and "distinct linux_codes"
    by (simp_all add: linux_codes_def evkey_count_def)
  then have "inj_on ((!) linux_codes) {..<evkey_count}"
    by (metis inj_on_nth lessThan_iff)
  moreover have "0 \<notin> set linux_codes" by (simp add: linux_codes_def)
  then have "linux_codes ! k \<noteq> 0" if "k < evkey_count" for k
    using that len by (metis nth_mem)
  ultimately show ?thesis
    by (auto simp: ev_ok_def linux_ev_def inj_on_def)
qed

section \<open>Properties\<close>

text \<open>What comes out for a key that no rule touches. Every key of the input map is read as its
  YAMY code, and translating that code back, under either layout, gives the same key, with
  fourteen exceptions: F13 to F20, F22, F23 and F24 and the 102nd key come out as other keys, and
  F21 and Pause are lost.\<close>

theorem passed_through_keys:
  assumes "ev_ok ev" "(n, c) \<in> set g_evdevToYamyMap"
  shows "evdevToYamyKeyCode ev (ev n) = c \<and>
    yamyToEvdevKeyCode ev layout c =
      (case map_of misdelivered n of None \<Rightarrow> ev n | Some None \<Rightarrow> 0 | Some (Some m) \<Rightarrow> ev m)"
  using evdevToYamy_entry [OF assms] out_key_pass [OF assms(2), of layout]
  by (simp add: yamyToEvdev_out_key split: option.splits)

theorem passed_through_keys_witness:
  "yamyToEvdevKeyCode linux_ev ''us'' (evdevToYamyKeyCode linux_ev 183) = 75"
proof -
  have "(KEY_F13, 0x64) \<in> set g_evdevToYamyMap" by (simp add: g_evdevToYamyMap_def)
  from passed_through_keys [OF linux_ev_ok this, of "''us''"] show ?thesis
    by (simp add: misdelivered_def linux_ev_def evkey_count_def linux_codes_def KEY_F13_def KEY_KP4_def)
qed

text \<open>The three ranges of virtual codes are disjoint, and inside them the numbers of modal
  modifiers and locks are read back exactly: code \<open>0xF000 + m\<close> is modifier \<open>m\<close> and nothing else,
  code \<open>0xF100 + l\<close> is lock \<open>l\<close> and nothing else.\<close>

theorem virtual_code_ranges:
  "isModifier (YAMY_MOD_00 + ucast m) \<and> getModifierNumber (YAMY_MOD_00 + ucast m) = m \<and>
   \<not> isLock (YAMY_MOD_00 + ucast m) \<and> \<not> isVirtualKey (YAMY_MOD_00 + ucast m) \<and>
   isLock (YAMY_LOCK_00 + ucast l) \<and> getLockNumber (YAMY_LOCK_00 + ucast l) = l \<and>
   \<not> isModifier (YAMY_LOCK_00 + ucast l) \<and> \<not> isVirtualKey (YAMY_LOCK_00 + ucast l)"
proof -
  have u: "uint (ucast m :: u16) = uint m" "uint (ucast l :: u16) = uint l"
    by (simp_all add: uint_up_ucast is_up)
  have b: "uint m < 256" "uint l < 256" using uint_lt2p [of m] uint_lt2p [of l] by simp_all
  have p: "uint (YAMY_MOD_00 + ucast m) = 0xF000 + uint m" "uint (YAMY_LOCK_00 + ucast l) = 0xF100 + uint l"
    using b u by (simp_all add: yamy_ranges uint_word_ariths)
  have q: "(ucast (ucast m :: u16) :: u8) = m" "(ucast (ucast l :: u16) :: u8) = l"
    by (simp_all add: ucast_up_ucast_id is_up)
  have nn: "0 \<le> uint m" "0 \<le> uint l" by simp_all
  show ?thesis
    using b p q nn
    by (auto simp add: isModifier_def isLock_def isVirtualKey_def word_le_def yamy_ranges
        getModifierNumber_def getLockNumber_def) (insert nn, linarith)+
qed

end
