(* ===== verification/Event_Processor.thy ===== *)
theory Event_Processor
  imports Modifier_Key_Handler Lookup_Table Keycode_Mapping
begin

text \<open>
  src/core/engine/engine_event_processor.h and engine_event_processor.cpp: the three layers an
  input event passes (evdev to YAMY, substitution, YAMY to evdev) with the hold-versus-tap
  handler in front of the rule table. The journey log and the debug log are output only and
  left out. Two readings of the clock belong to one event: \<open>clk\<^sub>a\<close> is read by the pass over the
  waiting keys, \<open>clk\<^sub>b\<close> by the key's own step.
\<close>

section \<open>Data\<close>

record ProcessedEvent =
  output_evdev :: u16
  output_yamy :: u16
  pe_type :: EventType
  pe_valid :: bool
  is_tap :: bool

record EventProcessor =
  m_modifierHandler :: "ModifierKeyHandler option"
  m_currentEventIsTap :: bool
  m_lookupTable :: RuleLookupTable

text \<open>The constructor; \<open>thr\<close> is the handler's default threshold (modifier_key_handler.h).\<close>

definition default_hold_threshold_ms :: u32 where "default_hold_threshold_ms = 200"

definition new_EventProcessor :: EventProcessor where
  "new_EventProcessor =
     \<lparr>m_modifierHandler = Some (new_ModifierKeyHandler default_hold_threshold_ms),
      m_currentEventIsTap = False, m_lookupTable = new_RuleLookupTable\<rparr>"

section \<open>Registration\<close>

definition setModifierHandler :: "ModifierKeyHandler option \<Rightarrow> EventProcessor \<Rightarrow> EventProcessor" where
  "setModifierHandler h ep = ep\<lparr>m_modifierHandler := h\<rparr>"

definition on_handler ::
    "(ModifierKeyHandler \<Rightarrow> ModifierKeyHandler) \<Rightarrow> EventProcessor \<Rightarrow> EventProcessor" where
  "on_handler f ep = ep\<lparr>m_modifierHandler := map_option f (m_modifierHandler ep)\<rparr>"

definition registerVirtualModifiers :: "(u8 \<times> u16) list \<Rightarrow> EventProcessor \<Rightarrow> EventProcessor" where
  "registerVirtualModifiers m = on_handler (mh_registerVirtualModifiersFromMap m)"

definition registerVirtualModifierTrigger ::
    "u16 \<Rightarrow> u8 \<Rightarrow> u16 \<Rightarrow> EventProcessor \<Rightarrow> EventProcessor" where
  "registerVirtualModifierTrigger trigger mod_num tap =
     on_handler (mh_registerVirtualModifierTrigger trigger mod_num tap)"

text \<open>The switch of \<^verbatim>\<open>registerNumberModifier\<close> over evdev codes.\<close>

definition hardware_modifier_of_evdev :: "u16 \<Rightarrow> HardwareModifier option" where
  "hardware_modifier_of_evdev e =
     (if e = 42 then Some HW_LSHIFT else if e = 54 then Some HW_RSHIFT
      else if e = 29 then Some HW_LCTRL else if e = 97 then Some HW_RCTRL
      else if e = 56 then Some HW_LALT else if e = 100 then Some HW_RALT
      else if e = 125 then Some HW_LWIN else if e = 126 then Some HW_RWIN
      else None)"

definition registerNumberModifier ::
    "(evkey \<Rightarrow> u16) \<Rightarrow> string \<Rightarrow> u16 \<Rightarrow> u16 \<Rightarrow> EventProcessor \<Rightarrow> EventProcessor" where
  "registerNumberModifier ev layout yamy_scancode modifier_yamy_code ep =
     (let modifier_evdev = yamyToEvdevKeyCode ev layout modifier_yamy_code in
      if modifier_evdev = 0 then ep
      else (case hardware_modifier_of_evdev modifier_evdev of
              None \<Rightarrow> ep
            | Some hw_mod \<Rightarrow> on_handler (mh_registerNumberModifier yamy_scancode hw_mod) ep))"

section \<open>The layers\<close>

definition layer1_evdevToYamy :: "(evkey \<Rightarrow> u16) \<Rightarrow> u16 \<Rightarrow> u16" where
  "layer1_evdevToYamy ev evdev = evdevToYamyKeyCode ev evdev"

definition layer3_yamyToEvdev :: "(evkey \<Rightarrow> u16) \<Rightarrow> string \<Rightarrow> u16 \<Rightarrow> u16" where
  "layer3_yamyToEvdev ev layout yamy =
     (if isVirtualKey yamy \<or> isModifier yamy \<or> isLock yamy then 0
      else yamyToEvdevKeyCode ev layout yamy)"

text \<open>
  What the switch of \<^verbatim>\<open>layer2_applySubstitution\<close> does to the modifier state, and what it
  returns: \<open>Inl\<close> with the code and the tap flag when it returns, \<open>Inr\<close> when it goes on to the
  rules. The conversion of the modifier type to \<^verbatim>\<open>uint8_t\<close> is \<^const>\<open>word_of_int\<close>.
\<close>

definition apply_result :: "NumberKeyResult \<Rightarrow> ModifierState \<Rightarrow> ModifierState" where
  "apply_result r s =
     (case nk_action r of
        ACTIVATE_MODIFIER \<Rightarrow>
          if 0 \<le> nk_modifier_type r then activateModifier (word_of_int (nk_modifier_type r)) s else s
      | DEACTIVATE_MODIFIER \<Rightarrow>
          if 0 \<le> nk_modifier_type r then deactivateModifier (word_of_int (nk_modifier_type r)) s else s
      | _ \<Rightarrow> s)"

definition result_output :: "NumberKeyResult \<Rightarrow> (u16 \<times> bool) + unit" where
  "result_output r =
     (case nk_action r of
        NOT_A_NUMBER_MODIFIER \<Rightarrow> Inr ()
      | WAITING_FOR_THRESHOLD \<Rightarrow> Inl (0, False)
      | ACTIVATE_MODIFIER \<Rightarrow> Inl (0, False)
      | DEACTIVATE_MODIFIER \<Rightarrow> Inl (0, False)
      | APPLY_SUBSTITUTION_PRESS \<Rightarrow> if nk_output r \<noteq> 0 then Inl (nk_output r, True) else Inr ()
      | APPLY_SUBSTITUTION_RELEASE \<Rightarrow> if nk_output r \<noteq> 0 then Inl (nk_output r, True) else Inr ())"

text \<open>Step 1: the rule table, else pass-through.\<close>

definition apply_rules :: "EventProcessor \<Rightarrow> u16 \<Rightarrow> ModifierState option \<Rightarrow> u16" where
  "apply_rules ep yamy_in io =
     (case io of
        None \<Rightarrow> yamy_in
      | Some s \<Rightarrow> (case findMatch (m_lookupTable ep) yamy_in (ms_state s) of
                    Some rule \<Rightarrow> outputScanCode rule
                  | None \<Rightarrow> yamy_in))"

definition layer2_applySubstitution ::
    "(nat \<Rightarrow> int) \<Rightarrow> u16 \<Rightarrow> EventType \<Rightarrow> EventProcessor \<Rightarrow> ModifierState option \<Rightarrow>
       u16 \<times> EventProcessor \<times> ModifierState option" where
  "layer2_applySubstitution clk yamy_in ty ep io =
     (case (m_modifierHandler ep, io) of
        (Some h, Some s) \<Rightarrow>
          (let (h', r) = processNumberKey clk yamy_in ty h;
               ep' = ep\<lparr>m_modifierHandler := Some h'\<rparr>;
               s' = apply_result r s
           in case result_output r of
                Inl (code, tap) \<Rightarrow>
                  (code, (if tap then ep'\<lparr>m_currentEventIsTap := True\<rparr> else ep'), Some s')
              | Inr _ \<Rightarrow> (apply_rules ep' yamy_in (Some s'), ep', Some s'))
      | _ \<Rightarrow> (apply_rules ep yamy_in io, ep, io))"

definition apply_activations :: "(u16 \<times> u8) list \<Rightarrow> ModifierState \<Rightarrow> ModifierState" where
  "apply_activations to_activate s = fold (\<lambda>(_, mod_num). activateModifier mod_num) to_activate s"

definition check_waiting ::
    "(nat \<Rightarrow> int) \<Rightarrow> EventProcessor \<Rightarrow> ModifierState option \<Rightarrow> EventProcessor \<times> ModifierState option" where
  "check_waiting clk ep io =
     (case (m_modifierHandler ep, io) of
        (Some h, Some s) \<Rightarrow>
          (let (h', to_activate) = checkAndActivateWaitingModifiers clk h
           in (ep\<lparr>m_modifierHandler := Some h'\<rparr>, Some (apply_activations to_activate s)))
      | _ \<Rightarrow> (ep, io))"

definition processEvent ::
    "(evkey \<Rightarrow> u16) \<Rightarrow> string \<Rightarrow> (nat \<Rightarrow> int) \<Rightarrow> (nat \<Rightarrow> int) \<Rightarrow> u16 \<Rightarrow> EventType \<Rightarrow>
       EventProcessor \<Rightarrow> ModifierState option \<Rightarrow>
       ProcessedEvent \<times> EventProcessor \<times> ModifierState option" where
  "processEvent ev layout clk\<^sub>a clk\<^sub>b input_evdev ty ep0 io0 =
     (let (ep1, io1) = check_waiting clk\<^sub>a (ep0\<lparr>m_currentEventIsTap := False\<rparr>) io0;
          invalid = \<lparr>output_evdev = 0, output_yamy = 0, pe_type = ty, pe_valid = False, is_tap = False\<rparr>;
          yamy_l1 = layer1_evdevToYamy ev input_evdev
      in if yamy_l1 = 0 then (invalid, ep1, io1)
         else let (yamy_l2, ep2, io2) = layer2_applySubstitution clk\<^sub>b yamy_l1 ty ep1 io1;
                  out = layer3_yamyToEvdev ev layout yamy_l2
              in if out = 0 then (invalid, ep2, io2)
                 else (\<lparr>output_evdev = out, output_yamy = yamy_l2, pe_type = ty, pe_valid = True,
                        is_tap = m_currentEventIsTap ep2\<rparr>, ep2, io2))"

section \<open>Virtual modifiers follow the held keys\<close>

definition mods_agree :: "(u16 \<Rightarrow> u8 option) \<Rightarrow> (u16 \<Rightarrow> bool) \<Rightarrow> ModifierState \<Rightarrow> bool" where
  "mods_agree trig hld s \<longleftrightarrow> (\<forall>m. isModifierActive s m \<longleftrightarrow> (\<exists>k. trig k = Some m \<and> hld k))"

definition one_trigger :: "(u16 \<Rightarrow> u8 option) \<Rightarrow> bool" where
  "one_trigger trig \<longleftrightarrow> (\<forall>k j m. trig k = Some m \<and> trig j = Some m \<longrightarrow> k = j)"

lemma apply_activations_active:
  "isModifierActive (apply_activations acts s) m \<longleftrightarrow> m \<in> snd ` set acts \<or> isModifierActive s m"
  unfolding apply_activations_def
  by (induction acts arbitrary: s) (auto simp: activate_reads)

lemma apply_activations_frame [frame_simps]:
  "isLockActive (apply_activations acts s) n = isLockActive s n"
  "std_flag (apply_activations acts s) f = std_flag s f"
  unfolding apply_activations_def
  by (induction acts arbitrary: s) (auto simp: activate_reads)

lemma apply_result_active:
  "isModifierActive (apply_result r s) m \<longleftrightarrow>
     (if nk_action r = ACTIVATE_MODIFIER \<and> 0 \<le> nk_modifier_type r \<and> m = word_of_int (nk_modifier_type r)
      then True
      else if nk_action r = DEACTIVATE_MODIFIER \<and> 0 \<le> nk_modifier_type r \<and>
              m = word_of_int (nk_modifier_type r) then False
      else isModifierActive s m)"
  by (auto simp: apply_result_def activate_reads deactivate_reads split: ProcessingAction.splits)

lemma apply_result_frame [frame_simps]:
  "isLockActive (apply_result r s) n = isLockActive s n"
  "std_flag (apply_result r s) f = std_flag s f"
  by (auto simp: apply_result_def activate_reads deactivate_reads split: ProcessingAction.splits)

context hold_tap
begin

lemma step_agrees:
  assumes one: "one_trigger (trigger h)" and agree: "mods_agree (trigger h) (held h) s"
  shows "mods_agree (trigger (fst (step c k ty h))) (held (fst (step c k ty h)))
           (apply_result (snd (step c k ty h)) s)"
proof -
  let ?h = "fst (step c k ty h)" and ?r = "snd (step c k ty h)"
  have keys: "(\<exists>j. trigger h j = Some m \<and> held ?h j) \<longleftrightarrow>
      (if trigger h k = Some m then held ?h k else \<exists>j. trigger h j = Some m \<and> held h j)" for m
    using one held_other [of _ k c ty h] unfolding one_trigger_def by metis
  have old: "isModifierActive s m \<longleftrightarrow> (\<exists>j. trigger h j = Some m \<and> held h j)" for m
    using agree by (simp add: mods_agree_def)
  have own: "isModifierActive s m \<longleftrightarrow> held h k" if "trigger h k = Some m" for m
    using that one unfolding old one_trigger_def by metis
  have "isModifierActive (apply_result ?r s) m \<longleftrightarrow>
      (if trigger h k = Some m then held ?h k else isModifierActive s m)" for m
    using own type_trigger [of c k ty h]
    by (auto simp: apply_result_active held_same split: option.splits if_splits)
  then show ?thesis
    by (simp add: mods_agree_def trigger_step keys old)
qed

lemma check_agrees:
  assumes "ok h" and agree: "mods_agree (trigger h) (held h) s"
  shows "mods_agree (trigger (fst (check c h))) (held (fst (check c h)))
           (apply_activations (snd (check c h)) s)"
proof -
  have "isModifierActive (apply_activations (snd (check c h)) s) m \<longleftrightarrow>
      (\<exists>k. trigger h k = Some m \<and> held (fst (check c h)) k)" for m
  proof
    assume "isModifierActive (apply_activations (snd (check c h)) s) m"
    then consider k where "(k, m) \<in> set (snd (check c h))" | k where "trigger h k = Some m" "held h k"
      using agree by (auto simp: apply_activations_active mods_agree_def)
    then show "\<exists>k. trigger h k = Some m \<and> held (fst (check c h)) k"
      using assms(1) check_sound check_complete by cases blast+
  next
    assume "\<exists>k. trigger h k = Some m \<and> held (fst (check c h)) k"
    then obtain k where k: "trigger h k = Some m" "held (fst (check c h)) k" by blast
    then have "held h k \<or> (k, m) \<in> set (snd (check c h))"
      using assms(1) check_complete by blast
    then show "isModifierActive (apply_activations (snd (check c h)) s) m"
      using agree k(1) by (force simp: apply_activations_active mods_agree_def)
  qed
  then show ?thesis by (simp add: mods_agree_def trigger_check)
qed

text \<open>A pass followed by the step of one key, as one event does.\<close>

lemma event_agrees:
  assumes "ok h" "one_trigger (trigger h)" "mods_agree (trigger h) (held h) s"
    and "h1 = fst (check c h)" "s1 = apply_activations (snd (check c h)) s"
  shows "ok (fst (step d k ty h1))"
    and "one_trigger (trigger (fst (step d k ty h1)))"
    and "mods_agree (trigger (fst (step d k ty h1))) (held (fst (step d k ty h1)))
           (apply_result (snd (step d k ty h1)) s1)"
proof -
  have one: "one_trigger (trigger h1)"
    using assms(2,4) by (simp add: one_trigger_def trigger_check)
  have "ok h1" using assms(1,4) ok_check by simp
  then show "ok (fst (step d k ty h1))" by (rule ok_step)
  show "one_trigger (trigger (fst (step d k ty h1)))"
    using one by (simp add: one_trigger_def trigger_step)
  have "mods_agree (trigger h1) (held h1) s1"
    using check_agrees [OF assms(1,3), of c] assms(4,5) by simp
  then show "mods_agree (trigger (fst (step d k ty h1))) (held (fst (step d k ty h1)))
           (apply_result (snd (step d k ty h1)) s1)"
    by (rule step_agrees [OF one])
qed

end

section \<open>The processor with its handler and modifier state\<close>

text \<open>One event on the pair the engine keeps: the handler is present, so is the state.\<close>

definition handler_of :: "EventProcessor \<Rightarrow> ModifierKeyHandler" where
  "handler_of ep = (case m_modifierHandler ep of Some h \<Rightarrow> h | None \<Rightarrow> new_ModifierKeyHandler 0)"

definition event_check :: "(nat \<Rightarrow> int) \<Rightarrow> EventProcessor \<Rightarrow> ModifierKeyHandler" where
  "event_check ca ep = fst (checkAndActivateWaitingModifiers ca (handler_of ep))"

definition event_state :: "(nat \<Rightarrow> int) \<Rightarrow> EventProcessor \<Rightarrow> ModifierState \<Rightarrow> ModifierState" where
  "event_state ca ep s = apply_activations (snd (checkAndActivateWaitingModifiers ca (handler_of ep))) s"

text \<open>The whole of \<^const>\<open>processEvent\<close> in terms of the handler's two operations.\<close>

definition layer2_code :: "EventProcessor \<Rightarrow> u16 \<Rightarrow> NumberKeyResult \<Rightarrow> ModifierState \<Rightarrow> u16 \<times> bool" where
  "layer2_code ep k r s =
     (case result_output r of
        Inl out \<Rightarrow> out
      | Inr _ \<Rightarrow> (apply_rules ep k (Some s), False))"

lemma apply_rules_upd [simp]:
  "apply_rules (ep\<lparr>m_modifierHandler := x\<rparr>) k io = apply_rules ep k io"
  "apply_rules (ep\<lparr>m_currentEventIsTap := y\<rparr>) k io = apply_rules ep k io"
  by (simp_all add: apply_rules_def cong: option.case_cong)

lemma processEvent_handler:
  assumes h: "m_modifierHandler ep = Some h"
    and h1: "h1 = event_check ca ep" and s1: "s1 = event_state ca ep s"
    and k: "k = layer1_evdevToYamy ev e"
    and st: "(h2, r) = processNumberKey cb k ty h1"
    and out: "(code, tap) = layer2_code ep k r (apply_result r s1)"
  shows "processEvent ev layout ca cb e ty ep (Some s) =
     (if k = 0 then
        (\<lparr>output_evdev = 0, output_yamy = 0, pe_type = ty, pe_valid = False, is_tap = False\<rparr>,
         ep\<lparr>m_modifierHandler := Some h1, m_currentEventIsTap := False\<rparr>, Some s1)
      else
        (if layer3_yamyToEvdev ev layout code = 0
         then \<lparr>output_evdev = 0, output_yamy = 0, pe_type = ty, pe_valid = False, is_tap = False\<rparr>
         else \<lparr>output_evdev = layer3_yamyToEvdev ev layout code, output_yamy = code, pe_type = ty,
               pe_valid = True, is_tap = tap\<rparr>,
         ep\<lparr>m_modifierHandler := Some h2, m_currentEventIsTap := tap\<rparr>, Some (apply_result r s1)))"
proof -
  have chk: "check_waiting ca (ep\<lparr>m_currentEventIsTap := False\<rparr>) (Some s) =
      (ep\<lparr>m_modifierHandler := Some h1, m_currentEventIsTap := False\<rparr>, Some s1)"
    using h h1 s1
    by (simp add: check_waiting_def event_check_def event_state_def handler_of_def case_prod_unfold Let_def)
  have l2: "layer2_applySubstitution cb k ty
        (ep\<lparr>m_modifierHandler := Some h1, m_currentEventIsTap := False\<rparr>) (Some s1) =
      (code, ep\<lparr>m_modifierHandler := Some h2, m_currentEventIsTap := tap\<rparr>, Some (apply_result r s1))"
  proof (cases "result_output r")
    case (Inl o')
    with out show ?thesis
      by (cases o'; cases tap) (simp_all add: layer2_applySubstitution_def st [symmetric] layer2_code_def Let_def)
  next
    case (Inr u)
    with out show ?thesis
      by (simp add: layer2_applySubstitution_def st [symmetric] layer2_code_def Let_def)
  qed
  show ?thesis
    by (simp add: processEvent_def chk l2 k [symmetric])
qed

section \<open>Runs of the processor\<close>

text \<open>
  What happens to the processor and the engine's modifier state between two configurations:
  events, and the updates of standard flags and locks.
\<close>

inductive ep_reach ::
    "(evkey \<Rightarrow> u16) \<Rightarrow> string \<Rightarrow> EventProcessor \<Rightarrow> ModifierState \<Rightarrow> EventProcessor \<Rightarrow> ModifierState \<Rightarrow> bool"
  for ev layout ep0 s0 where
  start: "ep_reach ev layout ep0 s0 ep0 s0"
| event: "ep_reach ev layout ep0 s0 ep s \<Longrightarrow>
    processEvent ev layout ca cb e ty ep (Some s) = (out, ep', Some s') \<Longrightarrow>
    ep_reach ev layout ep0 s0 ep' s'"
| flag: "ep_reach ev layout ep0 s0 ep s \<Longrightarrow> ep_reach ev layout ep0 s0 ep (setStdFlag f b s)"
| lock: "ep_reach ev layout ep0 s0 ep s \<Longrightarrow> ep_reach ev layout ep0 s0 ep (toggleLock n s)"

definition ep_good :: "EventProcessor \<Rightarrow> ModifierState \<Rightarrow> bool" where
  "ep_good ep s \<longleftrightarrow> m_modifierHandler ep \<noteq> None \<and> handler_ok (handler_of ep) \<and>
     one_trigger (trigger_of (handler_of ep)) \<and>
     mods_agree (trigger_of (handler_of ep)) (isModifierHeld (handler_of ep)) s"

lemma ep_goodE:
  assumes "ep_good ep s"
  obtains h where "m_modifierHandler ep = Some h" "handler_of ep = h" "handler_ok h"
    "one_trigger (trigger_of h)" "mods_agree (trigger_of h) (isModifierHeld h) s"
  using assms by (auto simp: ep_good_def handler_of_def)

lemma processEvent_good:
  assumes good: "ep_good ep s"
    and ev: "processEvent ev layout ca cb e ty ep (Some s) = (out, ep', Some s')"
  shows "ep_good ep' s'"
proof -
  from good obtain h where h: "m_modifierHandler ep = Some h" "handler_of ep = h" "handler_ok h"
    "one_trigger (trigger_of h)" "mods_agree (trigger_of h) (isModifierHeld h) s"
    by (rule ep_goodE)
  define h1 where "h1 = event_check ca ep"
  define s1 where "s1 = event_state ca ep s"
  define k where "k = layer1_evdevToYamy ev e"
  obtain h2 r where st: "(h2, r) = processNumberKey cb k ty h1"
    by (metis surj_pair)
  obtain code tap where out': "(code, tap) = layer2_code ep k r (apply_result r s1)"
    by (metis surj_pair)
  have h1': "h1 = fst (checkAndActivateWaitingModifiers ca h)"
    and s1': "s1 = apply_activations (snd (checkAndActivateWaitingModifiers ca h)) s"
    by (simp_all add: h1_def s1_def event_check_def event_state_def h(2))
  have one1: "one_trigger (trigger_of h1)"
    using h(4) by (simp add: h1' mkh.trigger_check one_trigger_def)
  have good1: "handler_ok h1" "mods_agree (trigger_of h1) (isModifierHeld h1) s1"
    using mkh.ok_check [OF h(3), of ca] mkh.check_agrees [OF h(3,5), of ca]
    by (simp_all only: h1' s1')
  note ag = mkh.event_agrees [OF h(3,4,5) h1' s1', of cb k ty]
  have good2: "handler_ok h2" "one_trigger (trigger_of h2)"
      "mods_agree (trigger_of h2) (isModifierHeld h2) (apply_result r s1)"
    using ag by (simp_all add: st [symmetric])
  show ?thesis
    using ev one1 good1 good2
    by (auto simp add: processEvent_handler [OF h(1) h1_def s1_def k_def st out']
        ep_good_def handler_of_def split: if_splits)
qed

lemma mods_agree_frame:
  "(\<And>m. isModifierActive s' m = isModifierActive s m) \<Longrightarrow> mods_agree t hld s' = mods_agree t hld s"
  by (simp add: mods_agree_def)

lemma ep_reach_good: "ep_reach ev layout ep0 s0 ep s \<Longrightarrow> ep_good ep0 s0 \<Longrightarrow> ep_good ep s"
proof (induction rule: ep_reach.induct)
  case start
  then show ?case .
next
  case (event ep s ca cb e ty out ep' s')
  then show ?case using processEvent_good by blast
next
  case (flag ep s f b)
  then show ?case
    by (simp add: ep_good_def mods_agree_frame [of "setStdFlag f b s" s] setStdFlag_reads)
next
  case (lock ep s n)
  then show ?case
    by (simp add: ep_good_def mods_agree_frame [of "toggleLock n s" s] toggleLock_reads)
qed

section \<open>One trigger key over time\<close>

text \<open>
  What a trigger key promises, without the handler's bookkeeping: it is up, pending since an
  instant, or holding. Each event happens at one instant \<open>now\<close> (nanoseconds).
\<close>

datatype phase = Up | Pending int | Holding

definition elapsed :: "u32 \<Rightarrow> int \<Rightarrow> phase \<Rightarrow> bool" where
  "elapsed thr now p = (case p of Pending t \<Rightarrow> uint thr * 1000000 \<le> now - t | _ \<Rightarrow> False)"

definition mature :: "u32 \<Rightarrow> int \<Rightarrow> phase \<Rightarrow> phase" where
  "mature thr now p = (if elapsed thr now p then Holding else p)"

definition spec_event :: "u32 \<Rightarrow> int \<Rightarrow> bool \<Rightarrow> EventType \<Rightarrow> phase \<Rightarrow> phase" where
  "spec_event thr now mine ty p =
     (let p1 = mature thr now p in
      if \<not> mine then p1
      else case ty of
          PRESS \<Rightarrow> (if p1 = Up then Pending now else p1)
        | RELEASE \<Rightarrow> Up
        | REPEAT \<Rightarrow> p1)"

definition phase_of :: "KeyState \<Rightarrow> phase" where
  "phase_of ks = (case ks_state ks of
      IDLE \<Rightarrow> Up | WAITING \<Rightarrow> Pending (ks_press_time ks) | MODIFIER_ACTIVE \<Rightarrow> Holding
    | TAP_DETECTED \<Rightarrow> Up)"

definition key_phase :: "ModifierKeyHandler \<Rightarrow> u16 \<Rightarrow> phase" where
  "key_phase h k = (case map_of (mh_key_states h) k of None \<Rightarrow> Up | Some ks \<Rightarrow> phase_of ks)"

text \<open>\<open>TAP_DETECTED\<close> is never entered.\<close>

definition no_tap_state :: "ModifierKeyHandler \<Rightarrow> bool" where
  "no_tap_state h \<longleftrightarrow> (\<forall>ks\<in>snd ` set (mh_key_states h). ks_state ks \<noteq> TAP_DETECTED)"

lemma duration_cast_le:
  assumes "0 < u" "0 < n"
  shows "n \<le> duration_cast u d \<longleftrightarrow> n * u \<le> d"
proof (cases "0 \<le> d")
  case True
  have "n \<le> d div u \<longleftrightarrow> n * u \<le> d"
  proof
    assume "n \<le> d div u"
    then have "n * u \<le> d div u * u" using assms(1) by simp
    also have "\<dots> \<le> d"
      using pos_mod_sign [OF assms(1), of d] div_mult_mod_eq [of d u] by linarith
    finally show "n * u \<le> d" .
  next
    assume "n * u \<le> d"
    then have "n * u div u \<le> d div u" using assms(1) by (rule zdiv_mono1)
    then show "n \<le> d div u" using assms(1) by simp
  qed
  with True show ?thesis by (simp add: duration_cast_def)
next
  case False
  then have "duration_cast u d \<le> 0"
    using assms(1) by (simp add: duration_cast_def pos_imp_zdiv_nonneg_iff)
  moreover have "0 < n * u" using assms by simp
  ultimately show ?thesis using False assms(2) by linarith
qed

lemma exceeded_iff: "0 < thr \<Longrightarrow> hasExceededThreshold thr t now \<longleftrightarrow> uint thr * 1000000 \<le> now - t"
  unfolding hasExceededThreshold_def by (rule duration_cast_le) (simp_all add: word_less_def)

lemma maximum_iff: "hasExceededMaximum t now \<longleftrightarrow> 6000000000 \<le> now - t"
  using duration_cast_le [of 1000000000 6 "now - t"] by (simp add: hasExceededMaximum_def) linarith

text \<open>Thresholds up to six seconds: a pending key is never old enough for the reset.\<close>

definition thr_ok :: "u32 \<Rightarrow> bool" where
  "thr_ok thr \<longleftrightarrow> 0 < thr \<and> thr \<le> 6000"

lemma not_elapsed_not_maximum:
  assumes "thr_ok thr" "\<not> uint thr * 1000000 \<le> now - t"
  shows "\<not> hasExceededMaximum t now"
proof -
  have "uint thr \<le> 6000" using assms(1) by (simp add: thr_ok_def word_le_def)
  then show ?thesis using assms(2) by (simp add: maximum_iff)
qed

lemma process_press_phase:
  assumes "thr_ok thr" "mature thr now (phase_of ks) = phase_of ks" "ks_state ks \<noteq> TAP_DETECTED"
  shows "phase_of (fst (process_press (\<lambda>_. now) thr ks)) =
           (if phase_of ks = Up then Pending now else phase_of ks)"
    and "phase_of ks \<noteq> Up \<Longrightarrow> snd (process_press (\<lambda>_. now) thr ks) = NumberKeyResult3 WAITING_FOR_THRESHOLD 0 False"
    and "phase_of ks = Up \<Longrightarrow> snd (process_press (\<lambda>_. now) thr ks) = NumberKeyResult3 WAITING_FOR_THRESHOLD 0 False"
  using assms not_elapsed_not_maximum [OF assms(1), of now "ks_press_time ks"]
  by (auto simp: process_press_def phase_of_def mature_def elapsed_def exceeded_iff thr_ok_def
      split: NumberKeyState.splits if_splits)

lemma process_release_phase:
  "phase_of (fst (process_release clock thr ks)) = Up"
  by (simp add: phase_of_def released_phase)

text \<open>What a key reports at its release.\<close>

definition release_result :: "KeyState \<Rightarrow> NumberKeyResult" where
  "release_result ks =
     (case phase_of ks of
        Up \<Rightarrow> NumberKeyResult3 NOT_A_NUMBER_MODIFIER 0 False
      | Pending t \<Rightarrow>
          (if \<not> ks_is_virtual ks then NumberKeyResult3 APPLY_SUBSTITUTION_RELEASE 0 True
           else if ks_tap_output ks \<noteq> 0 then NumberKeyResult3 APPLY_SUBSTITUTION_RELEASE (ks_tap_output ks) True
           else NumberKeyResult3 WAITING_FOR_THRESHOLD 0 False)
      | Holding \<Rightarrow>
          (if ks_is_virtual ks then NumberKeyResult4 DEACTIVATE_MODIFIER 0 (uint (ks_virtual_mod_num ks)) True
           else NumberKeyResult3 DEACTIVATE_MODIFIER (getModifierVKCode (ks_target_modifier ks)) True))"

lemma process_release_snd:
  assumes "thr_ok thr" "mature thr now (phase_of ks) = phase_of ks" "ks_state ks \<noteq> TAP_DETECTED"
  shows "snd (process_release (\<lambda>_. now) thr ks) = release_result ks"
  using assms
  by (auto simp: process_release_def release_result_def phase_of_def mature_def elapsed_def
      exceeded_iff thr_ok_def split: NumberKeyState.splits if_splits)

lemma check_key_phase: "thr_ok thr \<Longrightarrow> phase_of (check_key thr now ks) = mature thr now (phase_of ks)"
  by (auto simp: check_key_def phase_of_def mature_def elapsed_def exceeded_iff thr_ok_def
      split: NumberKeyState.splits if_splits)

lemma mature_idem [simp]: "mature thr now (mature thr now p) = mature thr now p"
  by (simp add: mature_def elapsed_def)

end
