(* ===== verification/Hold_Tap.thy ===== *)
theory Hold_Tap
  imports Event_Processor
begin

text \<open>
  The event processor against the specification of one trigger key over time: the phase of a
  key moves as \<^const>\<open>spec_event\<close> says, a quick press and release yields the tap output, and a
  key held past the threshold turns its virtual modifier on for the events that follow.
\<close>

section \<open>One event refines the specification\<close>

lemma map_of_check:
  "map_of (mh_key_states (fst (checkAndActivateWaitingModifiers (\<lambda>_. now) h))) k =
     map_option (check_key (mh_hold_threshold_ms h) now) (map_of (mh_key_states h) k)"
  by (simp add: check_states_const map_of_map_snd)

lemma no_tap_iff:
  "handler_ok h \<Longrightarrow> no_tap_state h \<longleftrightarrow>
     (\<forall>k ks. map_of (mh_key_states h) k = Some ks \<longrightarrow> ks_state ks \<noteq> TAP_DETECTED)"
  by (auto simp: no_tap_state_def handler_ok_def)

lemma no_tap_put:
  "no_tap_state h \<Longrightarrow> ks_state ks \<noteq> TAP_DETECTED \<Longrightarrow> handler_ok h \<Longrightarrow> no_tap_state (put_key_state k ks h)"
  by (simp add: no_tap_iff handler_ok_put del: map_of_eq_Some_iff)

lemma process_press_no_tap: "ks_state (fst (process_press c thr ks)) \<noteq> TAP_DETECTED"
  by (simp add: process_press_def split: NumberKeyState.splits)

text \<open>What the trace theorems assume of a processor, and every event preserves.\<close>

definition ep_timed :: "EventProcessor \<Rightarrow> ModifierState \<Rightarrow> bool" where
  "ep_timed ep s \<longleftrightarrow> ep_good ep s \<and> no_tap_state (handler_of ep) \<and>
     thr_ok (mh_hold_threshold_ms (handler_of ep))"

text \<open>One event at one instant.\<close>

definition event_at ::
    "(evkey \<Rightarrow> u16) \<Rightarrow> string \<Rightarrow> int \<Rightarrow> u16 \<Rightarrow> EventType \<Rightarrow> EventProcessor \<Rightarrow> ModifierState \<Rightarrow>
       ProcessedEvent \<times> EventProcessor \<times> ModifierState" where
  "event_at ev layout now e ty ep s =
     (let (out, ep', io) = processEvent ev layout (\<lambda>_. now) (\<lambda>_. now) e ty ep (Some s)
      in (out, ep', (case io of Some s' \<Rightarrow> s' | None \<Rightarrow> s)))"

text \<open>The pieces of one event, named once for the proofs below.\<close>

lemma event_at_cases:
  assumes "ep_timed ep s" "event_at ev layout now e ty ep s = (out, ep', s')"
  obtains h h1 s1 k h2 r code tap where
    "m_modifierHandler ep = Some h" "handler_of ep = h"
    "h1 = fst (checkAndActivateWaitingModifiers (\<lambda>_. now) h)"
    "s1 = event_state (\<lambda>_. now) ep s" "k = layer1_evdevToYamy ev e"
    "processNumberKey (\<lambda>_. now) k ty h1 = (h2, r)"
    "layer2_code ep k r (apply_result r s1) = (code, tap)"
    "handler_of ep' = (if k = 0 then h1 else h2)" "m_lookupTable ep' = m_lookupTable ep"
    "s' = (if k = 0 then s1 else apply_result r s1)"
    "out = (if k = 0 \<or> layer3_yamyToEvdev ev layout code = 0
            then \<lparr>output_evdev = 0, output_yamy = 0, pe_type = ty, pe_valid = False, is_tap = False\<rparr>
            else \<lparr>output_evdev = layer3_yamyToEvdev ev layout code, output_yamy = code, pe_type = ty,
                  pe_valid = True, is_tap = tap\<rparr>)"
proof -
  from assms(1) obtain h where h: "m_modifierHandler ep = Some h" "handler_of ep = h"
    unfolding ep_timed_def by (meson ep_goodE)
  define h1 where "h1 = event_check (\<lambda>_. now) ep"
  define s1 where "s1 = event_state (\<lambda>_. now) ep s"
  define k where "k = layer1_evdevToYamy ev e"
  obtain h2 r where st: "(h2, r) = processNumberKey (\<lambda>_. now) k ty h1"
    by (metis surj_pair)
  obtain code tap where co: "(code, tap) = layer2_code ep k r (apply_result r s1)"
    by (metis surj_pair)
  note pe = processEvent_handler [OF h(1) h1_def s1_def k_def st co, of layout]
  show thesis
    using assms(2)
    by (intro that [OF h _ s1_def k_def st [symmetric] co [symmetric]])
       (auto simp: event_at_def pe h1_def event_check_def h handler_of_def split: if_splits)
qed

lemma event_at_processEvent:
  assumes "m_modifierHandler ep \<noteq> None" "event_at ev layout now e ty ep s = (out, ep', s')"
  shows "processEvent ev layout (\<lambda>_. now) (\<lambda>_. now) e ty ep (Some s) = (out, ep', Some s')"
proof -
  obtain h where h: "m_modifierHandler ep = Some h" using assms(1) by blast
  obtain h2 r where st: "(h2, r) = processNumberKey (\<lambda>_. now) (layer1_evdevToYamy ev e) ty (event_check (\<lambda>_. now) ep)"
    by (metis surj_pair)
  obtain code tap where co: "(code, tap) = layer2_code ep (layer1_evdevToYamy ev e) r
      (apply_result r (event_state (\<lambda>_. now) ep s))"
    by (metis surj_pair)
  show ?thesis
    using assms(2)
    by (auto simp: event_at_def processEvent_handler [OF h refl refl refl st co, of layout] split: if_splits)
qed

lemma event_handler_step:
  assumes "thr_ok (mh_hold_threshold_ms h)" "handler_ok h" "no_tap_state h"
    and "h1 = fst (checkAndActivateWaitingModifiers (\<lambda>_. now) h)"
    and "processNumberKey (\<lambda>_. now) k ty h1 = (h2, r)"
    and "map_of (mh_key_states h) j = Some ks"
  shows "\<exists>ks1 ks2. map_of (mh_key_states h1) j = Some ks1 \<and> map_of (mh_key_states h2) j = Some ks2 \<and>
     same_config ks ks1 \<and> same_config ks ks2 \<and>
     phase_of ks1 = mature (mh_hold_threshold_ms h) now (phase_of ks) \<and>
     phase_of ks2 = spec_event (mh_hold_threshold_ms h) now (j = k) ty (phase_of ks) \<and>
     (j = k \<longrightarrow> ty = RELEASE \<longrightarrow> r = release_result ks1) \<and>
     (j = k \<longrightarrow> ty = PRESS \<longrightarrow> r = NumberKeyResult3 WAITING_FOR_THRESHOLD 0 False)"
proof -
  let ?thr = "mh_hold_threshold_ms h"
  define ks1 where "ks1 = check_key ?thr now ks"
  have m1: "map_of (mh_key_states h1) j = Some ks1"
    unfolding assms(4) map_of_check using assms(6) by (simp add: ks1_def)
  have thr1: "mh_hold_threshold_ms h1 = ?thr" by (simp add: assms(4))
  have p1: "phase_of ks1 = mature ?thr now (phase_of ks)"
    using assms(1) by (simp add: ks1_def check_key_phase)
  have c1: "same_config ks ks1" by (simp add: ks1_def check_key_def same_config_def)
  have nt: "ks_state ks1 \<noteq> TAP_DETECTED"
    using assms(2,3,6) by (auto simp: ks1_def check_key_def no_tap_iff simp del: map_of_eq_Some_iff)
  have mt: "mature ?thr now (phase_of ks1) = phase_of ks1" by (simp add: p1)
  show ?thesis
  proof (cases "j = k")
    case False
    then have "map_of (mh_key_states h2) j = Some ks1"
      using assms(5) m1 by (cases rule: processNumberKey_cases [of h1 k "\<lambda>_. now" ty]) auto
    with False m1 c1 p1 show ?thesis
      by (intro exI [of _ ks1]) (simp add: spec_event_def)
  next
    case True
    show ?thesis
    proof (cases rule: processNumberKey_cases [of h1 k "\<lambda>_. now" ty])
      case unknown
      then show ?thesis using m1 True by simp
    next
      case repeat
      then show ?thesis
        using m1 c1 p1 assms(5) True by (intro exI [of _ ks1]) (simp add: spec_event_def)
    next
      case (key ks0 ks' r')
      have [simp]: "ks0 = ks1" using key(1) m1 True by simp
      have h2: "h2 = put_key_state k ks' h1" and r: "r = r'" using key(3) assms(5) by auto
      have cfg: "same_config ks ks'" using c1 key(5) by (simp add: same_config_def)
      have ph: "phase_of ks' = spec_event ?thr now True ty (phase_of ks)"
        using key(2,4) process_press_phase(1) [OF assms(1) mt nt] process_release_phase [of "\<lambda>_. now" ?thr ks1]
        by (cases ty) (auto simp: spec_event_def thr1 p1 dest: arg_cong [of _ _ fst])
      have rr: "ty = RELEASE \<longrightarrow> r = release_result ks1"
        using key(4) process_release_snd [OF assms(1) mt nt] by (auto simp: r thr1 dest: arg_cong [of _ _ snd])
      have rp: "ty = PRESS \<longrightarrow> r = NumberKeyResult3 WAITING_FOR_THRESHOLD 0 False"
        using key(4) process_press_phase(2,3) [OF assms(1) mt nt] 
        by (cases "phase_of ks1 = Up") (auto simp: r thr1 dest: arg_cong [of _ _ snd])
      show ?thesis
        using m1 c1 p1 cfg ph rr rp True by (simp add: h2)
    qed
  qed
qed

lemma event_no_tap:
  assumes "handler_ok h" "no_tap_state h"
    and "h1 = fst (checkAndActivateWaitingModifiers (\<lambda>_. now) h)"
    and "processNumberKey c k ty h1 = (h2, r)"
  shows "no_tap_state h1 \<and> no_tap_state h2 \<and> mh_hold_threshold_ms h1 = mh_hold_threshold_ms h
    \<and> mh_hold_threshold_ms h2 = mh_hold_threshold_ms h"
proof -
  have ok1: "handler_ok h1" using assms(1,3) mkh.ok_check by simp
  have nt1: "no_tap_state h1"
    using assms(1,2) ok1
    by (auto simp: no_tap_iff assms(3) map_of_check check_key_def
        simp del: map_of_eq_Some_iff check_fields)
  have "no_tap_state h2 \<and> mh_hold_threshold_ms h2 = mh_hold_threshold_ms h1"
  proof (cases rule: processNumberKey_cases [of h1 k c ty])
    case unknown
    then show ?thesis using assms(4) nt1 by simp
  next
    case repeat
    then show ?thesis using assms(4) nt1 by simp
  next
    case (key ks ks' r')
    have "ks_state ks' \<noteq> TAP_DETECTED"
      using key(4) process_press_no_tap [of c "mh_hold_threshold_ms h1" ks]
        released_phase [of c "mh_hold_threshold_ms h1" ks]
      by (auto split: if_splits dest: arg_cong [of _ _ fst])
    then show ?thesis
      using key(3) assms(4) nt1 ok1 no_tap_put by auto
  qed
  with nt1 assms(3) show ?thesis by simp
qed

lemma event_at_timed:
  assumes timed: "ep_timed ep s" and ev: "event_at ev layout now e ty ep s = (out, ep', s')"
  shows "ep_timed ep' s' \<and> mh_hold_threshold_ms (handler_of ep') = mh_hold_threshold_ms (handler_of ep)"
proof -
  have good: "ep_good ep' s'"
    using timed event_at_processEvent [OF _ ev] processEvent_good
    unfolding ep_timed_def ep_good_def by blast
  show ?thesis
    using timed ev
  proof (cases rule: event_at_cases)
    case (1 h h1 s1 k h2 r code tap)
    have "handler_ok h" "no_tap_state h" "thr_ok (mh_hold_threshold_ms h)"
      using timed 1(2) by (auto simp: ep_timed_def ep_good_def)
    with event_no_tap [OF this(1,2) 1(3,6)] good 1(2,8) show ?thesis
      by (simp add: ep_timed_def)
  qed
qed

text \<open>The phase of every registered key follows the specification.\<close>

lemma event_at_phase:
  assumes timed: "ep_timed ep s" and ev: "event_at ev layout now e ty ep s = (out, ep', s')"
    and j: "map_of (mh_key_states (handler_of ep)) j = Some ks" "j \<noteq> 0"
  shows "\<exists>ks'. map_of (mh_key_states (handler_of ep')) j = Some ks' \<and> same_config ks ks' \<and>
     phase_of ks' = spec_event (mh_hold_threshold_ms (handler_of ep)) now
        (layer1_evdevToYamy ev e = j) ty (phase_of ks)"
  using timed ev
proof (cases rule: event_at_cases)
  case (1 h h1 s1 k h2 r code tap)
  have hh: "thr_ok (mh_hold_threshold_ms h)" "handler_ok h" "no_tap_state h"
    using timed 1(2) by (auto simp: ep_timed_def ep_good_def)
  have "map_of (mh_key_states h) j = Some ks" using j(1) 1(2) by simp
  from event_handler_step [OF hh 1(3,6) this] j(2) show ?thesis
    by (cases "k = 0"; cases "k = j") (auto simp: 1(2,8) 1(5) [symmetric] spec_event_def Let_def)
qed

section \<open>Outputs of the trigger's own events\<close>

lemma same_config_sym: "same_config a b \<Longrightarrow> same_config b a"
  by (simp add: same_config_def)

lemma event_at_own:
  assumes timed: "ep_timed ep s" and ev: "event_at ev layout now e ty ep s = (out, ep', s')"
    and k: "map_of (mh_key_states (handler_of ep)) k = Some ks" "k \<noteq> 0" "layer1_evdevToYamy ev e = k"
  shows "ty = PRESS \<Longrightarrow> \<not> pe_valid out"
    and "ty = RELEASE \<Longrightarrow> ks_is_virtual ks \<Longrightarrow> ks_tap_output ks \<noteq> 0 \<Longrightarrow>
           mature (mh_hold_threshold_ms (handler_of ep)) now (phase_of ks) = Pending t \<Longrightarrow>
           out = (if layer3_yamyToEvdev ev layout (ks_tap_output ks) = 0
                  then \<lparr>output_evdev = 0, output_yamy = 0, pe_type = RELEASE, pe_valid = False, is_tap = False\<rparr>
                  else \<lparr>output_evdev = layer3_yamyToEvdev ev layout (ks_tap_output ks),
                        output_yamy = ks_tap_output ks, pe_type = RELEASE, pe_valid = True, is_tap = True\<rparr>)"
    and "ty = RELEASE \<Longrightarrow>
           mature (mh_hold_threshold_ms (handler_of ep)) now (phase_of ks) = Holding \<Longrightarrow> \<not> pe_valid out"
proof -
  have z: "layer3_yamyToEvdev ev layout 0 = 0"
    by (simp add: layer3_yamyToEvdev_def yamyToEvdev_out_key out_key_tree us_tree_def jp_tree_def vk_tree_def)
  obtain h h1 s1 kk h2 r code tap ks1 where
    c: "kk = k" "layer2_code ep k r (apply_result r s1) = (code, tap)"
      "out = (if layer3_yamyToEvdev ev layout code = 0
            then \<lparr>output_evdev = 0, output_yamy = 0, pe_type = ty, pe_valid = False, is_tap = False\<rparr>
            else \<lparr>output_evdev = layer3_yamyToEvdev ev layout code, output_yamy = code, pe_type = ty,
                  pe_valid = True, is_tap = tap\<rparr>)"
      "same_config ks ks1" "phase_of ks1 = mature (mh_hold_threshold_ms (handler_of ep)) now (phase_of ks)"
      "ty = RELEASE \<longrightarrow> r = release_result ks1"
      "ty = PRESS \<longrightarrow> r = NumberKeyResult3 WAITING_FOR_THRESHOLD 0 False"
    using timed ev
  proof (cases rule: event_at_cases)
    case (1 h h1 s1 kk h2 r code tap)
    have hh: "thr_ok (mh_hold_threshold_ms h)" "handler_ok h" "no_tap_state h"
      using timed 1(2) by (auto simp: ep_timed_def ep_good_def)
    have kk: "kk = k" using 1(5) k(3) by simp
    have "map_of (mh_key_states h) k = Some ks" using k(1) 1(2) by simp
    from event_handler_step [OF hh 1(3,6) this] obtain ks1 where
      "same_config ks ks1" "phase_of ks1 = mature (mh_hold_threshold_ms h) now (phase_of ks)"
      "ty = RELEASE \<longrightarrow> r = release_result ks1"
      "ty = PRESS \<longrightarrow> r = NumberKeyResult3 WAITING_FOR_THRESHOLD 0 False"
      by (auto simp: kk)
    then show thesis
      using that 1(2,7,11) k(2) kk by simp
  qed
  show "ty = PRESS \<Longrightarrow> \<not> pe_valid out"
    using c by (auto simp: layer2_code_def result_output_def NumberKeyResult3_def z)
  show "ty = RELEASE \<Longrightarrow> mature (mh_hold_threshold_ms (handler_of ep)) now (phase_of ks) = Holding \<Longrightarrow>
      \<not> pe_valid out"
    using c by (auto simp: layer2_code_def result_output_def release_result_def NumberKeyResult3_def
        NumberKeyResult4_def z split: if_splits)
  show "ty = RELEASE \<Longrightarrow> ks_is_virtual ks \<Longrightarrow> ks_tap_output ks \<noteq> 0 \<Longrightarrow>
      mature (mh_hold_threshold_ms (handler_of ep)) now (phase_of ks) = Pending t \<Longrightarrow>
      out = (if layer3_yamyToEvdev ev layout (ks_tap_output ks) = 0
                  then \<lparr>output_evdev = 0, output_yamy = 0, pe_type = RELEASE, pe_valid = False, is_tap = False\<rparr>
                  else \<lparr>output_evdev = layer3_yamyToEvdev ev layout (ks_tap_output ks),
                        output_yamy = ks_tap_output ks, pe_type = RELEASE, pe_valid = True, is_tap = True\<rparr>)"
    using c by (auto simp: layer2_code_def result_output_def release_result_def NumberKeyResult3_def
        same_config_def split: if_splits)
qed

text \<open>A key the handler does not know is looked up with the virtual modifiers of that instant.\<close>

lemma event_at_foreign:
  assumes timed: "ep_timed ep s" and ev: "event_at ev layout now e ty ep s = (out, ep', s')"
    and j: "map_of (mh_key_states (handler_of ep)) j = None" "j \<noteq> 0" "layer1_evdevToYamy ev e = j"
  shows "out = (let code = apply_rules ep j (Some s') in
            if layer3_yamyToEvdev ev layout code = 0
            then \<lparr>output_evdev = 0, output_yamy = 0, pe_type = ty, pe_valid = False, is_tap = False\<rparr>
            else \<lparr>output_evdev = layer3_yamyToEvdev ev layout code, output_yamy = code, pe_type = ty,
                  pe_valid = True, is_tap = False\<rparr>)"
  using timed ev
proof (cases rule: event_at_cases)
  case (1 h h1 s1 kk h2 r code tap)
  have kk: "kk = j" using 1(5) j(3) by simp
  have "map_of (mh_key_states h1) j = None"
    unfolding 1(3) map_of_check using j(1) 1(2) by simp
  then have "r = NumberKeyResult3 NOT_A_NUMBER_MODIFIER 0 False"
    using 1(6) by (simp add: kk processNumberKey_def)
  then have r: "apply_result r s1 = s1" "result_output r = Inr ()"
    by (simp_all add: apply_result_def result_output_def NumberKeyResult3_def)
  show ?thesis
    using 1(7,10,11) j(2) by (auto simp: r kk layer2_code_def Let_def)
qed

section \<open>Traces\<close>

fun ep_run ::
    "(evkey \<Rightarrow> u16) \<Rightarrow> string \<Rightarrow> (int \<times> u16 \<times> EventType) list \<Rightarrow> EventProcessor \<Rightarrow> ModifierState \<Rightarrow>
       ProcessedEvent list \<times> EventProcessor \<times> ModifierState" where
  "ep_run ev layout [] ep s = ([], ep, s)"
| "ep_run ev layout ((now, e, ty) # xs) ep s =
     (let (out, ep1, s1) = event_at ev layout now e ty ep s;
          (outs, ep2, s2) = ep_run ev layout xs ep1 s1
      in (out # outs, ep2, s2))"

lemma ep_run_append:
  "ep_run ev layout (xs @ ys) ep s =
     (let (outs, ep1, s1) = ep_run ev layout xs ep s;
          (outs', ep2, s2) = ep_run ev layout ys ep1 s1
      in (outs @ outs', ep2, s2))"
  by (induction xs arbitrary: ep s) (auto simp: case_prod_unfold Let_def)

lemma ep_run_length: "length (fst (ep_run ev layout xs ep s)) = length xs"
  by (induction xs arbitrary: ep s) (auto simp: case_prod_unfold Let_def)

text \<open>Events of other keys: the phase only matures.\<close>

definition foreign :: "(evkey \<Rightarrow> u16) \<Rightarrow> u16 \<Rightarrow> (int \<times> u16 \<times> EventType) list \<Rightarrow> bool" where
  "foreign ev k fs \<longleftrightarrow> (\<forall>(t, e, ty)\<in>set fs. layer1_evdevToYamy ev e \<noteq> k)"

definition mature_all :: "u32 \<Rightarrow> int list \<Rightarrow> phase \<Rightarrow> phase" where
  "mature_all thr ts p = fold (mature thr) ts p"

lemma mature_all_Pending:
  "mature_all thr ts (Pending t0) =
     (if \<exists>t\<in>set ts. uint thr * 1000000 \<le> t - t0 then Holding else Pending t0)"
proof (induction ts)
  case Nil
  then show ?case by (simp add: mature_all_def)
next
  case (Cons t ts)
  have H: "fold (mature thr) ts Holding = Holding" for ts
    by (induction ts) (simp_all add: mature_def elapsed_def)
  from Cons show ?case
    by (auto simp: mature_all_def mature_def elapsed_def H)
qed

definition key_is :: "EventProcessor \<Rightarrow> u16 \<Rightarrow> KeyState \<Rightarrow> phase \<Rightarrow> bool" where
  "key_is ep k ks p \<longleftrightarrow>
     (\<exists>ks'. map_of (mh_key_states (handler_of ep)) k = Some ks' \<and> same_config ks ks' \<and> phase_of ks' = p)"

lemma key_is_event:
  assumes "ep_timed ep s" "event_at ev layout now e ty ep s = (out, ep', s')" "key_is ep k ks p" "k \<noteq> 0"
  shows "key_is ep' k ks (spec_event (mh_hold_threshold_ms (handler_of ep)) now
           (layer1_evdevToYamy ev e = k) ty p)"
proof -
  obtain ks1 where ks1: "map_of (mh_key_states (handler_of ep)) k = Some ks1" "same_config ks ks1"
      "phase_of ks1 = p"
    using assms(3) unfolding key_is_def by blast
  from event_at_phase [OF assms(1,2) ks1(1) assms(4)] ks1(2,3) show ?thesis
    unfolding key_is_def by (auto simp: same_config_def)
qed

lemma ep_run_foreign:
  assumes "ep_timed ep s" "ep_run ev layout fs ep s = (outs, ep', s')" "key_is ep k ks p" "k \<noteq> 0"
    "foreign ev k fs"
  shows "ep_timed ep' s' \<and> mh_hold_threshold_ms (handler_of ep') = mh_hold_threshold_ms (handler_of ep) \<and>
     key_is ep' k ks (mature_all (mh_hold_threshold_ms (handler_of ep)) (map fst fs) p)"
  using assms
proof (induction fs arbitrary: ep s p outs)
  case Nil
  then show ?case by (simp add: mature_all_def)
next
  case (Cons x fs)
  obtain now e ty where x: "x = (now, e, ty)" by (cases x)
  obtain out ep1 s1 where ev: "event_at ev layout now e ty ep s = (out, ep1, s1)"
    by (metis surj_pair)
  obtain outs1 ep2 s2 where rn: "ep_run ev layout fs ep1 s1 = (outs1, ep2, s2)"
    by (metis surj_pair)
  have res: "ep2 = ep'" "s2 = s'" using Cons.prems(2) by (simp_all add: x ev rn)
  have fe: "layer1_evdevToYamy ev e \<noteq> k" "foreign ev k fs"
    using Cons.prems(5) by (simp_all add: foreign_def x)
  note t1 = event_at_timed [OF Cons.prems(1) ev]
  have k1: "key_is ep1 k ks (mature (mh_hold_threshold_ms (handler_of ep)) now p)"
    using key_is_event [OF Cons.prems(1) ev Cons.prems(3,4)] fe(1) by (simp add: spec_event_def)
  show ?case
    using Cons.IH [OF _ rn [unfolded res] k1 Cons.prems(4) fe(2)] t1 by (simp add: x mature_all_def)
qed

lemma modifier_follows_phase:
  assumes "ep_timed ep s" "key_is ep k ks p" "ks_is_virtual ks" "ks_virtual_mod_num ks = m"
  shows "isModifierActive s m \<longleftrightarrow> p = Holding"
proof -
  from assms(1) have one: "one_trigger (trigger_of (handler_of ep))"
    and ag: "mods_agree (trigger_of (handler_of ep)) (isModifierHeld (handler_of ep)) s"
    by (simp_all add: ep_timed_def ep_good_def)
  from assms(2) obtain ks' where ks': "map_of (mh_key_states (handler_of ep)) k = Some ks'"
      "same_config ks ks'" "phase_of ks' = p"
    unfolding key_is_def by blast
  have tr: "trigger_of (handler_of ep) k = Some m"
    using ks'(1,2) assms(3,4) by (simp add: trigger_of_def same_config_def)
  have "isModifierActive s m \<longleftrightarrow> isModifierHeld (handler_of ep) k"
    using ag one tr unfolding mods_agree_def one_trigger_def by metis
  also have "\<dots> \<longleftrightarrow> p = Holding"
    using ks' by (auto simp: isModifierHeld_def phase_of_def split: NumberKeyState.splits)
  finally show ?thesis .
qed

definition suppressed :: "EventType \<Rightarrow> ProcessedEvent" where
  "suppressed ty = \<lparr>output_evdev = 0, output_yamy = 0, pe_type = ty, pe_valid = False, is_tap = False\<rparr>"

text \<open>The state after the trigger's press and a stretch of other keys' events.\<close>

lemma press_then_foreign:
  assumes "ep_timed ep s" "key_is ep k ks Up" "k \<noteq> 0" "foreign ev k fs" "layer1_evdevToYamy ev ek = k"
    and rn: "ep_run ev layout ((t0, ek, PRESS) # fs) ep s = (outs, ep', s')"
  shows "ep_timed ep' s'" "mh_hold_threshold_ms (handler_of ep') = mh_hold_threshold_ms (handler_of ep)"
    and "key_is ep' k ks (mature_all (mh_hold_threshold_ms (handler_of ep)) (map fst fs) (Pending t0))"
    and "\<not> pe_valid (hd outs)"
proof -
  obtain out ep1 s1 where ev: "event_at ev layout t0 ek PRESS ep s = (out, ep1, s1)"
    by (metis surj_pair)
  obtain outs1 ep2 s2 where r1: "ep_run ev layout fs ep1 s1 = (outs1, ep2, s2)"
    by (metis surj_pair)
  have res: "ep2 = ep'" "s2 = s'" "outs = out # outs1" using rn by (simp_all add: ev r1)
  have k1: "key_is ep1 k ks (Pending t0)"
    using key_is_event [OF assms(1) ev assms(2,3)]
    by (simp add: assms(5) spec_event_def mature_def elapsed_def)
  note t1 = event_at_timed [OF assms(1) ev]
  from ep_run_foreign [OF conjunct1 [OF t1] r1 k1 assms(3,4)] t1
  show "ep_timed ep' s'" "mh_hold_threshold_ms (handler_of ep') = mh_hold_threshold_ms (handler_of ep)"
    "key_is ep' k ks (mature_all (mh_hold_threshold_ms (handler_of ep)) (map fst fs) (Pending t0))"
    by (simp_all add: res)
  obtain ks1 where "map_of (mh_key_states (handler_of ep)) k = Some ks1"
    using assms(2) unfolding key_is_def by blast
  from event_at_own(1) [OF assms(1) ev this assms(3,5) refl] show "\<not> pe_valid (hd outs)"
    by (simp add: res)
qed

section \<open>A configured processor\<close>

text \<open>The processor as the configuration leaves it: the triggers registered one by one.\<close>

definition configure :: "(u16 \<times> u8 \<times> u16) list \<Rightarrow> RuleLookupTable \<Rightarrow> EventProcessor" where
  "configure trigs t =
     (fold (\<lambda>(k, m, tap). registerVirtualModifierTrigger k m tap) trigs new_EventProcessor)
       \<lparr>m_lookupTable := t\<rparr>"

definition trigger_KeyState :: "u8 \<Rightarrow> u16 \<Rightarrow> KeyState" where
  "trigger_KeyState m tap =
     new_KeyState\<lparr>ks_is_virtual := True, ks_virtual_mod_num := m, ks_tap_output := tap\<rparr>"

lemma handler_of_on_handler: "m_modifierHandler ep \<noteq> None \<Longrightarrow>
    handler_of (on_handler f ep) = f (handler_of ep) \<and> m_modifierHandler (on_handler f ep) \<noteq> None"
  by (auto simp: handler_of_def on_handler_def)

lemma register_all:
  assumes "m_modifierHandler ep \<noteq> None" "distinct (map fst trigs)" "handler_ok (handler_of ep)"
    and "\<forall>k\<in>fst ` set trigs. map_of (mh_key_states (handler_of ep)) k = None"
  shows "m_modifierHandler (fold (\<lambda>(k, m, tap). registerVirtualModifierTrigger k m tap) trigs ep) \<noteq> None
    \<and> handler_ok (handler_of (fold (\<lambda>(k, m, tap). registerVirtualModifierTrigger k m tap) trigs ep))
    \<and> mh_hold_threshold_ms (handler_of (fold (\<lambda>(k, m, tap). registerVirtualModifierTrigger k m tap) trigs ep))
        = mh_hold_threshold_ms (handler_of ep)
    \<and> (\<forall>j. map_of (mh_key_states (handler_of (fold (\<lambda>(k, m, tap). registerVirtualModifierTrigger k m tap) trigs ep))) j =
         (case map_of trigs j of Some (m, tap) \<Rightarrow> Some (trigger_KeyState m tap)
          | None \<Rightarrow> map_of (mh_key_states (handler_of ep)) j))"
  using assms
proof (induction trigs arbitrary: ep)
  case Nil
  then show ?case by simp
next
  case (Cons a trigs)
  obtain k m tap where a: "a = (k, m, tap)" by (cases a)
  let ?ep = "registerVirtualModifierTrigger k m tap ep"
  have new: "map_of (mh_key_states (handler_of ep)) k = None" using Cons.prems(4) a by simp
  have ho: "handler_of ?ep = mh_registerVirtualModifierTrigger k m tap (handler_of ep)"
      "m_modifierHandler ?ep \<noteq> None"
    using handler_of_on_handler [OF Cons.prems(1)] by (simp_all add: registerVirtualModifierTrigger_def)
  have ks: "mh_registerVirtualModifierTrigger k m tap (handler_of ep) =
      put_key_state k (trigger_KeyState m tap) (handler_of ep)"
    by (simp add: mh_registerVirtualModifierTrigger_def key_state_at_def new trigger_KeyState_def new_KeyState_def)
  have fresh: "\<forall>j\<in>fst ` set trigs. map_of (mh_key_states (handler_of ?ep)) j = None"
    using Cons.prems(2,4) a by (auto simp: ho ks)
  have nk: "map_of trigs k = None" using Cons.prems(2) by (simp add: a map_of_eq_None_iff)
  have prems: "distinct (map fst trigs)" "handler_ok (handler_of ?ep)"
    using Cons.prems(2,3) by (simp_all add: ho(1) ks handler_ok_put)
  show ?case
    using Cons.IH [OF ho(2) prems fresh] nk by (auto simp add: a ho(1) ks split: option.split)
qed

lemma configure_handler:
  assumes "distinct (map fst trigs)"
  shows "m_modifierHandler (configure trigs t) \<noteq> None"
    and "handler_ok (handler_of (configure trigs t))"
    and "mh_hold_threshold_ms (handler_of (configure trigs t)) = 200"
    and "map_of (mh_key_states (handler_of (configure trigs t))) j =
           map_option (\<lambda>(m, tap). trigger_KeyState m tap) (map_of trigs j)"
proof -
  have e: "handler_of new_EventProcessor = new_ModifierKeyHandler 200"
    by (simp add: new_EventProcessor_def handler_of_def default_hold_threshold_ms_def)
  have u: "handler_of (x\<lparr>m_lookupTable := t\<rparr>) = handler_of x" for x
    by (simp add: handler_of_def cong: option.case_cong)
  have "m_modifierHandler new_EventProcessor \<noteq> None" by (simp add: new_EventProcessor_def)
  from register_all [OF this assms]
  show "m_modifierHandler (configure trigs t) \<noteq> None"
    "handler_ok (handler_of (configure trigs t))"
    "mh_hold_threshold_ms (handler_of (configure trigs t)) = 200"
    "map_of (mh_key_states (handler_of (configure trigs t))) j =
           map_option (\<lambda>(m, tap). trigger_KeyState m tap) (map_of trigs j)"
    by (auto simp: e configure_def u new_ModifierKeyHandler_def handler_ok_def split: option.splits)
qed

lemma configure_trigger:
  assumes "distinct (map fst trigs)"
  shows "trigger_of (handler_of (configure trigs t)) j = map_option fst (map_of trigs j)"
  using configure_handler(4) [OF assms, of t j]
  by (auto simp: trigger_of_def trigger_KeyState_def split: option.splits)

lemma configure_held: "distinct (map fst trigs) \<Longrightarrow> \<not> isModifierHeld (handler_of (configure trigs t)) j"
  using configure_handler(4) [of trigs t j]
  by (auto simp: isModifierHeld_def trigger_KeyState_def new_KeyState_def split: option.splits)

lemma distinct_snd_one:
  assumes "distinct (map (\<lambda>(k, m, tap). m) trigs)" "(k, m, tap) \<in> set trigs" "(j, m, tap') \<in> set trigs"
  shows "k = j"
  using assms by (induction trigs) (force split: prod.splits)+

lemma configure_timed:
  assumes "distinct (map fst trigs)" "distinct (map (\<lambda>(k, m, tap). m) trigs)"
    and "\<And>m. \<not> isModifierActive s m"
  shows "ep_timed (configure trigs t) s"
proof -
  let ?ep = "configure trigs t"
  note hd = configure_handler [OF assms(1), of t]
  have one: "one_trigger (trigger_of (handler_of ?ep))"
    using assms(1) distinct_snd_one [OF assms(2)]
    by (fastforce simp: one_trigger_def configure_trigger dest: map_of_SomeD)
  have "mods_agree (trigger_of (handler_of ?ep)) (isModifierHeld (handler_of ?ep)) s"
    using assms(3) configure_held [OF assms(1)] by (simp add: mods_agree_def)
  moreover have "no_tap_state (handler_of ?ep)"
    using hd(4) by (auto simp: no_tap_iff [OF hd(2)] trigger_KeyState_def new_KeyState_def
        simp del: map_of_eq_Some_iff)
  ultimately show ?thesis
    using hd(1,2,3) one by (simp add: ep_timed_def ep_good_def thr_ok_def)
qed

lemma configure_key:
  assumes "distinct (map fst trigs)" "(k, m, tap) \<in> set trigs"
  shows "key_is (configure trigs t) k (trigger_KeyState m tap) Up"
  using configure_handler(4) [OF assms(1), of t k] assms
  by (simp add: key_is_def trigger_KeyState_def new_KeyState_def phase_of_def same_config_def)

section \<open>Properties\<close>

text \<open>A trigger key that is pressed and released before the hold threshold is a tap. The
  press is suppressed and the release delivers the key's tap output, marked as a tap. This holds
  for a processor with any triggers configured, whatever other keys do in between. At the end the
  virtual modifier is off.\<close>

theorem quick_release_is_a_tap:
  assumes "ep_timed ep s" "key_is ep k ks Up" "k \<noteq> 0"
    and "ks_is_virtual ks" "ks_virtual_mod_num ks = m" "ks_tap_output ks = tap" "tap \<noteq> 0"
    and "layer1_evdevToYamy ev ek = k" "foreign ev k fs"
    and "layer3_yamyToEvdev ev layout tap \<noteq> 0"
    and "\<forall>t\<in>insert t1 (fst ` set fs). t - t0 < uint (mh_hold_threshold_ms (handler_of ep)) * 1000000"
    and "ep_run ev layout ((t0, ek, PRESS) # fs @ [(t1, ek, RELEASE)]) ep s = (outs, ep', s')"
  shows "\<not> pe_valid (hd outs) \<and>
    last outs = \<lparr>output_evdev = layer3_yamyToEvdev ev layout tap, output_yamy = tap,
                 pe_type = RELEASE, pe_valid = True, is_tap = True\<rparr> \<and>
    \<not> isModifierActive s' m"
proof -
  let ?thr = "mh_hold_threshold_ms (handler_of ep)"
  obtain outs1 ep1 s1 where r1: "ep_run ev layout ((t0, ek, PRESS) # fs) ep s = (outs1, ep1, s1)"
    by (metis surj_pair)
  obtain out ep2 s2 where ev: "event_at ev layout t1 ek RELEASE ep1 s1 = (out, ep2, s2)"
    by (metis surj_pair)
  have "ep_run ev layout (((t0, ek, PRESS) # fs) @ [(t1, ek, RELEASE)]) ep s = (outs1 @ [out], ep2, s2)"
    by (simp only: ep_run_append r1) (simp add: ev)
  then have res: "outs = outs1 @ [out]" "ep' = ep2" "s' = s2"
    using assms(12) by simp_all
  note pf = press_then_foreign [OF assms(1,2,3,9,8) r1]
  have "mature_all ?thr (map fst fs) (Pending t0) = Pending t0"
    using assms(11) by (force simp: mature_all_Pending)
  with pf(3) have k1: "key_is ep1 k ks (Pending t0)" by simp
  then obtain ks1 where ks1: "map_of (mh_key_states (handler_of ep1)) k = Some ks1"
      "same_config ks ks1" "phase_of ks1 = Pending t0"
    unfolding key_is_def by blast
  have mt: "mature (mh_hold_threshold_ms (handler_of ep1)) t1 (phase_of ks1) = Pending t0"
    using assms(11) by (simp add: ks1(3) pf(2) mature_def elapsed_def)
  have vt: "ks_is_virtual ks1" "ks_tap_output ks1 = tap"
    using ks1(2) assms(4,6) by (simp_all add: same_config_def)
  have out: "out = \<lparr>output_evdev = layer3_yamyToEvdev ev layout tap, output_yamy = tap,
      pe_type = RELEASE, pe_valid = True, is_tap = True\<rparr>"
    using event_at_own(2) [OF pf(1) ev ks1(1) assms(3,8) refl vt(1) _ mt] assms(7,10) vt(2) by simp
  have "key_is ep2 k ks Up"
    using key_is_event [OF pf(1) ev k1 assms(3)] assms(8) by (simp add: spec_event_def)
  moreover have "ep_timed ep2 s2" using event_at_timed [OF pf(1) ev] by simp
  ultimately have "\<not> isModifierActive s' m"
    using modifier_follows_phase [of ep2 s2 k ks Up m] assms(4,5) by (simp add: res)
  moreover have "length outs1 = Suc (length fs)"
    using ep_run_length [of ev layout "(t0, ek, PRESS) # fs" ep s] r1 by simp
  then have "outs1 \<noteq> []" by auto
  ultimately show ?thesis using pf(4) out by (simp add: res)
qed

text \<open>A trigger key that is held past the threshold turns its virtual modifier on before
  the next event is translated. The first event of another key that arrives after the threshold
  is looked up in the rule table with the modifier active. The trigger's own release is then
  suppressed and turns the modifier off again.\<close>

theorem long_hold_is_a_modifier:
  assumes "ep_timed ep s" "key_is ep k ks Up" "k \<noteq> 0"
    and "ks_is_virtual ks" "ks_virtual_mod_num ks = m"
    and "layer1_evdevToYamy ev ek = k" "foreign ev k fs"
    and "layer1_evdevToYamy ev e = j" "j \<noteq> k" "j \<noteq> 0"
    and "uint (mh_hold_threshold_ms (handler_of ep)) * 1000000 \<le> t - t0"
    and "ep_run ev layout ((t0, ek, PRESS) # fs) ep s = (outs, ep1, s1)"
    and "map_of (mh_key_states (handler_of ep1)) j = None"
    and "event_at ev layout t e ty ep1 s1 = (out2, ep2, s2)"
    and "event_at ev layout t' ek RELEASE ep2 s2 = (out3, ep3, s3)"
  shows "isModifierActive s2 m \<and>
    (pe_valid out2 \<longrightarrow>
       output_yamy out2 = (case findMatch (m_lookupTable ep1) j (ms_state s2) of
                             Some rule \<Rightarrow> outputScanCode rule | None \<Rightarrow> j)) \<and>
    \<not> pe_valid out3 \<and> \<not> isModifierActive s3 m"
proof -
  let ?thr = "mh_hold_threshold_ms (handler_of ep)"
  note pf = press_then_foreign [OF assms(1,2,3,7,6,12)]
  obtain p where p: "key_is ep1 k ks p" "p = Pending t0 \<or> p = Holding"
    using pf(3) by (auto simp: mature_all_Pending split: if_splits)
  have "spec_event ?thr t False ty p = Holding"
    using p(2) assms(11) by (auto simp: spec_event_def mature_def elapsed_def)
  then have k2: "key_is ep2 k ks Holding"
    using key_is_event [OF pf(1) assms(14) p(1) assms(3)] assms(8,9) pf(2) by simp
  have t2: "ep_timed ep2 s2" using event_at_timed [OF pf(1) assms(14)] by simp
  have act: "isModifierActive s2 m"
    using modifier_follows_phase [OF t2 k2 assms(4,5)] by simp
  from event_at_foreign [OF pf(1) assms(14,13,10,8)]
  have o2: "pe_valid out2 \<longrightarrow> output_yamy out2 = apply_rules ep1 j (Some s2)"
    by (simp add: Let_def)
  obtain ks2 where ks2: "map_of (mh_key_states (handler_of ep2)) k = Some ks2" "phase_of ks2 = Holding"
    using k2 unfolding key_is_def by blast
  have "\<not> pe_valid out3"
    by (rule event_at_own(3) [OF t2 assms(15) ks2(1) assms(3,6) refl]) (simp add: ks2(2) mature_def elapsed_def)
  moreover have "key_is ep3 k ks Up"
    using key_is_event [OF t2 assms(15) k2 assms(3)] assms(6) by (simp add: spec_event_def)
  then have "\<not> isModifierActive s3 m"
    using modifier_follows_phase [of ep3 s3 k ks Up m] event_at_timed [OF t2 assms(15)] assms(4,5) by simp
  ultimately show ?thesis
    using act o2 by (simp add: apply_rules_def)
qed

subsection \<open>Runs from a configuration\<close>

lemma processEvent_trigger:
  assumes good: "ep_good ep s"
    and ev: "processEvent ev layout ca cb e ty ep (Some s) = (out, ep', Some s')"
  shows "trigger_of (handler_of ep') = trigger_of (handler_of ep)"
    and "layer1_evdevToYamy ev e \<noteq> 0 \<Longrightarrow> ty = RELEASE \<Longrightarrow>
           \<not> isModifierHeld (handler_of ep') (layer1_evdevToYamy ev e)"
proof -
  from good obtain h where h: "m_modifierHandler ep = Some h" "handler_of ep = h" by (rule ep_goodE)
  define h1 where "h1 = event_check ca ep"
  obtain h2 r where st: "(h2, r) = processNumberKey cb (layer1_evdevToYamy ev e) ty h1"
    by (metis surj_pair)
  obtain code tap where co: "(code, tap) = layer2_code ep (layer1_evdevToYamy ev e) r
      (apply_result r (event_state ca ep s))"
    by (metis surj_pair)
  have ep': "handler_of ep' = (if layer1_evdevToYamy ev e = 0 then h1 else h2)"
    using ev
    by (auto simp add: processEvent_handler [OF h(1) h1_def refl refl st co] handler_of_def split: if_splits)
  have "trigger_of h1 j = trigger_of h j" for j
    using mkh.trigger_check [of ca h j] by (simp only: h1_def event_check_def h(2))
  moreover have "trigger_of h2 j = trigger_of h1 j" for j
    using mkh.trigger_step [of cb "layer1_evdevToYamy ev e" ty h1 j] by (simp add: st [symmetric])
  ultimately show "trigger_of (handler_of ep') = trigger_of (handler_of ep)"
    by (auto simp: ep' h(2))
  show "layer1_evdevToYamy ev e \<noteq> 0 \<Longrightarrow> ty = RELEASE \<Longrightarrow>
      \<not> isModifierHeld (handler_of ep') (layer1_evdevToYamy ev e)"
    using mkh.release_ends [of cb "layer1_evdevToYamy ev e" h1] by (metis ep' st fst_conv)
qed

lemma ep_reach_trigger:
  "ep_reach ev layout ep0 s0 ep s \<Longrightarrow> ep_good ep0 s0 \<Longrightarrow>
     trigger_of (handler_of ep) = trigger_of (handler_of ep0)"
proof (induction rule: ep_reach.induct)
  case (event ep s ca cb e ty out ep' s')
  then show ?case using processEvent_trigger(1) ep_reach_good by metis
qed simp_all

text \<open>Whatever the clock shows, two readings of one event included, a virtual modifier is active
  exactly when the handler flags its trigger as held.\<close>

theorem modifiers_follow_handler:
  assumes "distinct (map fst trigs)" "distinct (map (\<lambda>(k, m, tap). m) trigs)"
    and "ep_reach ev layout (configure trigs t) new_ModifierState ep s"
  shows "isModifierActive s m \<longleftrightarrow>
    (\<exists>(k, n, tap)\<in>set trigs. n = m \<and> isModifierHeld (handler_of ep) k)"
proof -
  have "\<not> isModifierActive new_ModifierState m" for m
    by (simp add: isModifierActive_def new_ModifierState_def)
  then have good0: "ep_good (configure trigs t) new_ModifierState"
    using configure_timed [OF assms(1,2)] unfolding ep_timed_def by blast
  have "mods_agree (trigger_of (handler_of ep)) (isModifierHeld (handler_of ep)) s"
    using ep_reach_good [OF assms(3) good0] by (simp add: ep_good_def)
  then have "isModifierActive s m \<longleftrightarrow>
      (\<exists>k. map_option fst (map_of trigs k) = Some m \<and> isModifierHeld (handler_of ep) k)"
    by (simp add: mods_agree_def ep_reach_trigger [OF assms(3) good0] configure_trigger [OF assms(1)])
  also have "\<dots> \<longleftrightarrow> (\<exists>(k, n, tap)\<in>set trigs. n = m \<and> isModifierHeld (handler_of ep) k)"
    using assms(1) by force
  finally show ?thesis .
qed

text \<open>Releasing a key always ends its hold, and with it the virtual modifier it triggers:
  after the RELEASE event of a key, from any good state and for any clock, the key is not held and
  its modifier is off.\<close>

theorem release_turns_the_modifier_off:
  assumes "ep_good ep s" "layer1_evdevToYamy ev e = k" "k \<noteq> 0"
    and "processEvent ev layout ca cb e RELEASE ep (Some s) = (out, ep', Some s')"
  shows "\<not> isModifierHeld (handler_of ep') k \<and>
    (trigger_of (handler_of ep) k = Some m \<longrightarrow> \<not> isModifierActive s' m)"
proof -
  have held: "\<not> isModifierHeld (handler_of ep') k"
    using processEvent_trigger(2) [OF assms(1,4)] assms(2,3) by simp
  have "ep_good ep' s'" using assms(1,4) processEvent_good by blast
  then have "mods_agree (trigger_of (handler_of ep')) (isModifierHeld (handler_of ep')) s'"
    "one_trigger (trigger_of (handler_of ep'))"
    by (simp_all add: ep_good_def)
  with held show ?thesis
    unfolding mods_agree_def one_trigger_def processEvent_trigger(1) [OF assms(1,4)] by metis
qed

text \<open>
  What happens to the processor between two configurations, in order: events, each at one instant,
  and the updates of standard flags and locks. The specification of one trigger key sees the events.
\<close>

datatype ep_op = Key_event int u16 EventType | Set_flag StdModifier bool | Toggle_lock u8

fun ep_step ::
    "(evkey \<Rightarrow> u16) \<Rightarrow> string \<Rightarrow> ep_op \<Rightarrow> EventProcessor \<times> ModifierState \<Rightarrow> EventProcessor \<times> ModifierState" where
  "ep_step ev layout (Key_event now e ty) (ep, s) = snd (event_at ev layout now e ty ep s)"
| "ep_step ev layout (Set_flag f b) (ep, s) = (ep, setStdFlag f b s)"
| "ep_step ev layout (Toggle_lock n) (ep, s) = (ep, toggleLock n s)"

definition ep_steps ::
    "(evkey \<Rightarrow> u16) \<Rightarrow> string \<Rightarrow> ep_op list \<Rightarrow> EventProcessor \<times> ModifierState \<Rightarrow> EventProcessor \<times> ModifierState" where
  "ep_steps ev layout ops x = fold (ep_step ev layout) ops x"

fun spec_step :: "(evkey \<Rightarrow> u16) \<Rightarrow> u32 \<Rightarrow> u16 \<Rightarrow> ep_op \<Rightarrow> phase \<Rightarrow> phase" where
  "spec_step ev thr k (Key_event now e ty) p = spec_event thr now (layer1_evdevToYamy ev e = k) ty p"
| "spec_step ev thr k (Set_flag f b) p = p"
| "spec_step ev thr k (Toggle_lock n) p = p"

definition spec_steps :: "(evkey \<Rightarrow> u16) \<Rightarrow> u32 \<Rightarrow> u16 \<Rightarrow> ep_op list \<Rightarrow> phase" where
  "spec_steps ev thr k ops = fold (spec_step ev thr k) ops Up"

lemma ep_timed_frame:
  "(\<And>m. isModifierActive s' m = isModifierActive s m) \<Longrightarrow> ep_timed ep s' = ep_timed ep s"
  by (simp add: ep_timed_def ep_good_def mods_agree_frame [of s' s])

lemma ep_step_inv:
  assumes "ep_timed ep s" "ep_step ev layout x (ep, s) = (ep', s')"
  shows "ep_timed ep' s'" "mh_hold_threshold_ms (handler_of ep') = mh_hold_threshold_ms (handler_of ep)"
    "trigger_of (handler_of ep') = trigger_of (handler_of ep)"
    "key_is ep k ks p \<Longrightarrow> k \<noteq> 0 \<Longrightarrow>
       key_is ep' k ks (spec_step ev (mh_hold_threshold_ms (handler_of ep)) k x p)"
proof -
  have "ep_timed ep' s' \<and> mh_hold_threshold_ms (handler_of ep') = mh_hold_threshold_ms (handler_of ep) \<and>
    trigger_of (handler_of ep') = trigger_of (handler_of ep) \<and>
    (key_is ep k ks p \<longrightarrow> k \<noteq> 0 \<longrightarrow> key_is ep' k ks (spec_step ev (mh_hold_threshold_ms (handler_of ep)) k x p))"
  proof (cases x)
    case (Key_event now e ty)
    obtain out where ev: "event_at ev layout now e ty ep s = (out, ep', s')"
      using assms(2) by (metis Key_event ep_step.simps(1) prod.collapse)
    have good: "ep_good ep s" "m_modifierHandler ep \<noteq> None" using assms(1) by (simp_all add: ep_timed_def ep_good_def)
    have "trigger_of (handler_of ep') = trigger_of (handler_of ep)"
      by (rule processEvent_trigger(1) [OF good(1) event_at_processEvent [OF good(2) ev]])
    then show ?thesis
      using event_at_timed [OF assms(1) ev] key_is_event [OF assms(1) ev] by (simp add: Key_event)
  next
    case (Set_flag f b)
    then show ?thesis using assms ep_timed_frame [of "setStdFlag f b s" s] by (auto simp: setStdFlag_reads)
  next
    case (Toggle_lock n)
    then show ?thesis using assms ep_timed_frame [of "toggleLock n s" s] by (auto simp: toggleLock_reads)
  qed
  then show "ep_timed ep' s'" "mh_hold_threshold_ms (handler_of ep') = mh_hold_threshold_ms (handler_of ep)"
    "trigger_of (handler_of ep') = trigger_of (handler_of ep)"
    "key_is ep k ks p \<Longrightarrow> k \<noteq> 0 \<Longrightarrow>
       key_is ep' k ks (spec_step ev (mh_hold_threshold_ms (handler_of ep)) k x p)" by simp_all
qed

lemma ep_steps_inv:
  assumes "ep_timed ep s" "ep_steps ev layout ops (ep, s) = (ep', s')"
  shows "ep_timed ep' s' \<and> trigger_of (handler_of ep') = trigger_of (handler_of ep) \<and>
    (key_is ep k ks p \<longrightarrow> k \<noteq> 0 \<longrightarrow>
       key_is ep' k ks (fold (spec_step ev (mh_hold_threshold_ms (handler_of ep)) k) ops p))"
  using assms
proof (induction ops arbitrary: ep s p)
  case Nil
  then show ?case by (simp add: ep_steps_def)
next
  case (Cons x ops)
  obtain ep1 s1 where x: "ep_step ev layout x (ep, s) = (ep1, s1)" by (metis surj_pair)
  have "ep_steps ev layout ops (ep1, s1) = (ep', s')" using Cons.prems(2) by (simp add: ep_steps_def x)
  from Cons.IH [OF ep_step_inv(1) [OF Cons.prems(1) x] this] ep_step_inv(2,3,4) [OF Cons.prems(1) x]
  show ?case by simp
qed

text \<open>C5: No virtual modifier gets stuck or lost. From a fresh configuration in which every trigger has
  its own key, not code 0, and its own modifier, after any sequence of key events (each read at one
  instant, of any clock), standard-flag updates and lock toggles: a virtual modifier is active exactly
  when its trigger key is held by the events alone, that is, it was pressed, no release of it came
  since, and at some event since then, its own or another key's, 200 ms had passed since the
  press.\<close>

theorem virtual_modifiers_follow_held_keys:
  assumes "distinct (map fst trigs)" "distinct (map (\<lambda>(k, m, tap). m) trigs)" "0 \<notin> fst ` set trigs"
    and "ep_steps ev layout ops (configure trigs t, new_ModifierState) = (ep, s)"
  shows "isModifierActive s m \<longleftrightarrow>
    (\<exists>(k, n, tap)\<in>set trigs. n = m \<and> spec_steps ev 200 k ops = Holding)"
proof -
  have "\<not> isModifierActive new_ModifierState m" for m
    by (simp add: isModifierActive_def new_ModifierState_def)
  then have timed0: "ep_timed (configure trigs t) new_ModifierState" by (rule configure_timed [OF assms(1,2)])
  have inv: "ep_timed ep s" "trigger_of (handler_of ep) k = map_option fst (map_of trigs k)" for k
    using ep_steps_inv [OF timed0 assms(4)] configure_trigger [OF assms(1)] by simp_all
  have iff: "isModifierActive s n \<longleftrightarrow> spec_steps ev 200 k ops = Holding" if "(k, n, tap) \<in> set trigs" for k n tap
  proof -
    have "k \<noteq> 0" using that assms(3) by force
    then have "key_is ep k (trigger_KeyState n tap) (spec_steps ev 200 k ops)"
      using ep_steps_inv [OF timed0 assms(4)] configure_key [OF assms(1) that] configure_handler(3) [OF assms(1)]
      by (simp add: spec_steps_def)
    then show ?thesis
      by (rule modifier_follows_phase [OF inv(1)]) (simp_all add: trigger_KeyState_def)
  qed
  have "\<exists>(k, n, tap)\<in>set trigs. n = m" if "isModifierActive s m"
  proof -
    have "mods_agree (trigger_of (handler_of ep)) (isModifierHeld (handler_of ep)) s"
      using inv(1) by (simp add: ep_timed_def ep_good_def)
    with that obtain k where "trigger_of (handler_of ep) k = Some m" by (auto simp: mods_agree_def)
    then obtain tap where "map_of trigs k = Some (m, tap)" using inv(2) by auto
    then show ?thesis by (force dest: map_of_SomeD)
  qed
  with iff show ?thesis by blast
qed

lemma event_at_keys:
  assumes timed: "ep_timed ep s" and ev: "event_at ev layout now e ty ep s = (out, ep', s')"
  shows "map_of (mh_key_states (handler_of ep')) j = None \<longleftrightarrow> map_of (mh_key_states (handler_of ep)) j = None"
  using timed ev
proof (cases rule: event_at_cases)
  case (1 h h1 s1 k h2 r code tap)
  have h1: "map_of (mh_key_states h1) j = None \<longleftrightarrow> map_of (mh_key_states h) j = None"
    unfolding 1(3) map_of_check by simp
  have "map_of (mh_key_states h2) j = None \<longleftrightarrow> map_of (mh_key_states h1) j = None"
    using 1(6) by (cases rule: processNumberKey_cases [of h1 k "\<lambda>_. now" ty]) (auto split: if_splits)
  with h1 show ?thesis by (simp add: 1(2,8))
qed

text \<open>C6: The handler refines the three-phase specification of a key. Take a processor whose handler
  is present, has one entry for each key and no modifier with two triggers, agrees with the modifier
  state, has no entry in the state no
  operation enters (tap detected) and has a threshold between 1 ms and six seconds, which a configured
  processor has and every event keeps. Over one event at one instant, the phase of every registered
  key with a code other than 0 (up, pending since an instant, holding) moves as the specification
  function says; the registered keys, the modifier each triggers and the threshold stay.\<close>

theorem key_phase_refines_spec:
  assumes "ep_timed ep s" "event_at ev layout now e ty ep s = (out, ep', s')"
    and "map_of (mh_key_states (handler_of ep)) j \<noteq> None" "j \<noteq> 0"
  shows "key_phase (handler_of ep') j =
    spec_event (mh_hold_threshold_ms (handler_of ep)) now (layer1_evdevToYamy ev e = j) ty
      (key_phase (handler_of ep) j) \<and>
    (\<forall>i. map_of (mh_key_states (handler_of ep')) i = None \<longleftrightarrow> map_of (mh_key_states (handler_of ep)) i = None) \<and>
    trigger_of (handler_of ep') = trigger_of (handler_of ep) \<and>
    mh_hold_threshold_ms (handler_of ep') = mh_hold_threshold_ms (handler_of ep) \<and> ep_timed ep' s'"
proof -
  obtain ks where ks: "map_of (mh_key_states (handler_of ep)) j = Some ks" using assms(3) by blast
  have good: "ep_good ep s" "m_modifierHandler ep \<noteq> None" using assms(1) by (simp_all add: ep_timed_def ep_good_def)
  have "key_phase (handler_of ep') j =
      spec_event (mh_hold_threshold_ms (handler_of ep)) now (layer1_evdevToYamy ev e = j) ty (key_phase (handler_of ep) j)"
    using event_at_phase [OF assms(1,2) ks assms(4)] ks by (auto simp: key_phase_def)
  moreover have "trigger_of (handler_of ep') = trigger_of (handler_of ep)"
    by (rule processEvent_trigger(1) [OF good(1) event_at_processEvent [OF good(2) assms(2)]])
  ultimately show ?thesis
    using event_at_keys [OF assms(1,2)] event_at_timed [OF assms(1,2)] by blast
qed

section \<open>Witnesses\<close>

text \<open>The key B triggers M00 and taps as itself; keyboard US, header values of the macros.\<close>

definition ex_trigs :: "(u16 \<times> u8 \<times> u16) list" where
  "ex_trigs = [(0x30, 0, 0x30)]"

definition ex_ep :: EventProcessor where
  "ex_ep = configure ex_trigs new_RuleLookupTable"

lemma ex_timed: "ep_timed ex_ep new_ModifierState"
  unfolding ex_ep_def
  by (rule configure_timed) (simp_all add: ex_trigs_def isModifierActive_def new_ModifierState_def)

lemma ex_key: "key_is ex_ep 0x30 (trigger_KeyState 0 0x30) Up"
  unfolding ex_ep_def by (rule configure_key) (simp_all add: ex_trigs_def)

lemma ex_threshold: "mh_hold_threshold_ms (handler_of ex_ep) = 200"
  unfolding ex_ep_def by (rule configure_handler(3)) (simp add: ex_trigs_def)

lemma ex_KeyState [simp]:
  "ks_is_virtual (trigger_KeyState m tap)" "ks_virtual_mod_num (trigger_KeyState m tap) = m"
  "ks_tap_output (trigger_KeyState m tap) = tap"
  by (simp_all add: trigger_KeyState_def)

lemma ex_layer1: "layer1_evdevToYamy linux_ev 48 = 0x30" "layer1_evdevToYamy linux_ev 30 = 0x1E"
  using evdevToYamy_entry [OF linux_ev_ok, of KEY_B "0x30"]
    evdevToYamy_entry [OF linux_ev_ok, of KEY_A "0x1E"]
  by (simp_all add: layer1_evdevToYamy_def g_evdevToYamyMap_def linux_ev_def evkey_count_def
      linux_codes_def KEY_A_def KEY_B_def)

lemma ex_layer3: "layer3_yamyToEvdev linux_ev ''us'' 0x30 = 48"
  by (simp add: layer3_yamyToEvdev_def isVirtualKey_def isModifier_def isLock_def yamy_ranges
      yamyToEvdev_out_key out_key_tree us_tree_def linux_ev_def evkey_count_def linux_codes_def KEY_B_def)

theorem quick_release_is_a_tap_witness:
  "case ep_run linux_ev ''us'' [(0, 48, PRESS), (50000000, 30, PRESS), (100000000, 48, RELEASE)]
          ex_ep new_ModifierState of
     (outs, ep', s') \<Rightarrow> \<not> pe_valid (hd outs) \<and> last outs =
       \<lparr>output_evdev = 48, output_yamy = 0x30, pe_type = RELEASE, pe_valid = True, is_tap = True\<rparr> \<and>
       \<not> isModifierActive s' 0"
proof -
  obtain outs ep' s' where r: "ep_run linux_ev ''us''
      ((0, 48, PRESS) # [(50000000, 30, PRESS)] @ [(100000000, 48, RELEASE)]) ex_ep new_ModifierState = (outs, ep', s')"
    by (metis surj_pair)
  have f: "foreign linux_ev 0x30 [(50000000, 30, PRESS)]" by (simp add: foreign_def ex_layer1)
  have "\<not> pe_valid (hd outs) \<and> last outs =
      \<lparr>output_evdev = layer3_yamyToEvdev linux_ev ''us'' 0x30, output_yamy = 0x30, pe_type = RELEASE,
       pe_valid = True, is_tap = True\<rparr> \<and> \<not> isModifierActive s' 0"
    by (rule quick_release_is_a_tap [OF ex_timed ex_key _ _ _ _ _ ex_layer1(1) f _ _ r])
      (simp_all add: ex_layer3 ex_threshold)
  with r show ?thesis by (simp add: ex_layer3 del: ep_run.simps)
qed

theorem long_hold_is_a_modifier_witness:
  "case ep_run linux_ev ''us'' [(0, 48, PRESS)] ex_ep new_ModifierState of (outs, ep1, s1) \<Rightarrow>
     (case event_at linux_ev ''us'' 300000000 30 PRESS ep1 s1 of (out2, ep2, s2) \<Rightarrow>
        isModifierActive s2 0)"
proof -
  obtain outs ep1 s1 where r: "ep_run linux_ev ''us'' [(0, 48, PRESS)] ex_ep new_ModifierState = (outs, ep1, s1)"
    by (metis surj_pair)
  obtain out2 ep2 s2 where e2: "event_at linux_ev ''us'' 300000000 30 PRESS ep1 s1 = (out2, ep2, s2)"
    by (metis surj_pair)
  obtain out3 ep3 s3 where e3: "event_at linux_ev ''us'' 400000000 48 RELEASE ep2 s2 = (out3, ep3, s3)"
    by (metis surj_pair)
  obtain out where ev: "event_at linux_ev ''us'' 0 48 PRESS ex_ep new_ModifierState = (out, ep1, s1)"
    using r by (auto split: prod.splits)
  have "map_of (mh_key_states (handler_of ep1)) 0x1E = None"
  proof -
    have "trigger_of (handler_of ex_ep) 0x1E = None \<and> map_of (mh_key_states (handler_of ex_ep)) 0x1E = None"
      unfolding ex_ep_def by (simp add: configure_trigger configure_handler(4) ex_trigs_def)
    then show ?thesis
      using ex_timed ev
    proof (cases rule: event_at_cases [OF ex_timed ev])
      case (1 h h1 s1' k h2 r code tap)
      have "map_of (mh_key_states h1) 0x1E = None"
        using \<open>trigger_of (handler_of ex_ep) 0x1E = None \<and> _\<close> by (simp add: 1(2,3) map_of_check del: check_fields)
      then show ?thesis
        using 1(5,6,8) by (cases rule: processNumberKey_cases [of h1 k "\<lambda>_. 0" PRESS]) (auto simp: ex_layer1)
    qed
  qed
  then have "isModifierActive s2 0"
    using long_hold_is_a_modifier [OF ex_timed ex_key _ _ _ ex_layer1(1) _ ex_layer1(2) _ _ _ _ _ e2 e3, of 0 "[]" 0 outs]
      r by (simp add: foreign_def ex_threshold del: ep_run.simps)
  with r e2 show ?thesis by simp
qed

text \<open>B is pressed, A is pressed 300 ms later, B is released.\<close>

theorem virtual_modifiers_follow_held_keys_witness:
  "isModifierActive (snd (ep_steps linux_ev ''us'' [Key_event 0 48 PRESS, Toggle_lock 3, Key_event 300000000 30 PRESS]
       (ex_ep, new_ModifierState))) 0 \<and>
   \<not> isModifierActive (snd (ep_steps linux_ev ''us'' [Key_event 0 48 PRESS, Key_event 300000000 30 PRESS,
       Key_event 400000000 48 RELEASE] (ex_ep, new_ModifierState))) 0"
proof -
  have act: "isModifierActive (snd (ep_steps linux_ev ''us'' ops (ex_ep, new_ModifierState))) 0 \<longleftrightarrow>
      spec_steps linux_ev 200 0x30 ops = Holding" for ops
  proof -
    obtain ep s where "ep_steps linux_ev ''us'' ops (configure ex_trigs new_RuleLookupTable, new_ModifierState) = (ep, s)"
      by (metis surj_pair)
    from virtual_modifiers_follow_held_keys [OF _ _ _ this, of 0] this show ?thesis
      by (simp add: ex_trigs_def ex_ep_def)
  qed
  show ?thesis
    by (simp add: act spec_steps_def ex_layer1 spec_event_def mature_def elapsed_def)
qed

theorem release_turns_the_modifier_off_witness:
  "case event_at linux_ev ''us'' 7 48 RELEASE ex_ep new_ModifierState of
     (out, ep', s') \<Rightarrow> \<not> isModifierHeld (handler_of ep') 0x30"
proof -
  obtain out ep' s' where e: "event_at linux_ev ''us'' 7 48 RELEASE ex_ep new_ModifierState = (out, ep', s')"
    by (metis surj_pair)
  have good: "ep_good ex_ep new_ModifierState" using ex_timed by (simp add: ep_timed_def)
  then have "m_modifierHandler ex_ep \<noteq> None" by (simp add: ep_good_def)
  from release_turns_the_modifier_off [OF good ex_layer1(1) _ event_at_processEvent [OF this e]]
  have "\<not> isModifierHeld (handler_of ep') 0x30" by simp
  with e show ?thesis by simp
qed

theorem key_phase_refines_spec_witness:
  "case event_at linux_ev ''us'' 7 48 PRESS ex_ep new_ModifierState of
     (out, ep', s') \<Rightarrow> key_phase (handler_of ep') 0x30 = Pending 7"
proof -
  obtain out ep' s' where e: "event_at linux_ev ''us'' 7 48 PRESS ex_ep new_ModifierState = (out, ep', s')"
    by (metis surj_pair)
  have k: "map_of (mh_key_states (handler_of ex_ep)) 0x30 \<noteq> None" "key_phase (handler_of ex_ep) 0x30 = Up"
    using ex_key by (auto simp: key_is_def key_phase_def)
  from key_phase_refines_spec [OF ex_timed e k(1)] k(2)
  have "key_phase (handler_of ep') 0x30 = Pending 7"
    by (simp add: ex_layer1 spec_event_def mature_def elapsed_def)
  with e show ?thesis by simp
qed

end
