(* ===== verification/Keyboard_Model.thy ===== *)
theory Keyboard_Model
  imports Key_Types "HOL-Library.Multiset"
begin

text \<open>
  Class \<^verbatim>\<open>Keyboard\<close> of src/core/input/keyboard.h and keyboard.cpp. Keys live in a store that
  only grows, and a \<^verbatim>\<open>Key *\<close> is a position in it (\<^const>\<open>KeyAt\<close>); the 128 hashed lists hold
  positions. Reading the first scan code of a key that has none is outside the array: None.
\<close>

section \<open>State\<close>

definition HASHED_KEYS_SIZE :: nat where "HASHED_KEYS_SIZE = 128"

record Substitute =
  m_mkeyFrom :: ModifiedKey
  m_mkeyTo :: ModifiedKey

record NumberModifier =
  m_numberKey :: keyref
  m_modifierKey :: keyref

record Keyboard =
  kb_store :: "Key list"
  m_hashedKeys :: "nat list list"
  m_aliases :: "(string \<times> keyref) list"
  m_substitutes :: "Substitute list"
  m_numberModifiers :: "NumberModifier list"
  m_syncKey :: Key
  m_mods :: "modifier_type \<Rightarrow> keyref list"

definition new_Keyboard :: Keyboard where
  "new_Keyboard = \<lparr>kb_store = [], m_hashedKeys = replicate HASHED_KEYS_SIZE [], m_aliases = [],
     m_substitutes = [], m_numberModifiers = [], m_syncKey = new_Key, m_mods = (\<lambda>_. [])\<rparr>"

section \<open>Operations\<close>

text \<open>\<^verbatim>\<open>getKeys\<close>: the index of the list a key belongs to.\<close>

definition getKeys :: "Key \<Rightarrow> nat option" where
  "getKeys i_key =
     (case m_scanCodes i_key of [] \<Rightarrow> None | c # _ \<Rightarrow> Some (unat (m_scan c) mod HASHED_KEYS_SIZE))"

definition addKey :: "Key \<Rightarrow> Keyboard \<Rightarrow> Keyboard option" where
  "addKey i_key kb =
     (case getKeys i_key of
        None \<Rightarrow> None
      | Some b \<Rightarrow> Some (kb\<lparr>kb_store := kb_store kb @ [i_key],
           m_hashedKeys := (m_hashedKeys kb)[b := length (kb_store kb) # m_hashedKeys kb ! b]\<rparr>))"

text \<open>\<^verbatim>\<open>std::map::insert\<close> under the case-insensitive order: an existing entry stays.\<close>

definition find_alias :: "Keyboard \<Rightarrow> string \<Rightarrow> keyref option" where
  "find_alias kb n = map_option snd (find (\<lambda>(a, _). strcasecmp_utf8 a n = 0) (m_aliases kb))"

definition addAlias :: "string \<Rightarrow> keyref \<Rightarrow> Keyboard \<Rightarrow> Keyboard" where
  "addAlias i_aliasName i_key kb =
     (if find_alias kb i_aliasName \<noteq> None then kb
      else kb\<lparr>m_aliases := (i_aliasName, i_key) # m_aliases kb\<rparr>)"

definition addSubstitute :: "ModifiedKey \<Rightarrow> ModifiedKey \<Rightarrow> Keyboard \<Rightarrow> Keyboard" where
  "addSubstitute f t kb =
     kb\<lparr>m_substitutes := \<lparr>m_mkeyFrom = f, m_mkeyTo = t\<rparr> # m_substitutes kb\<rparr>"

definition addNumberModifier :: "keyref \<Rightarrow> keyref \<Rightarrow> Keyboard \<Rightarrow> Keyboard" where
  "addNumberModifier n m kb =
     kb\<lparr>m_numberModifiers := \<lparr>m_numberKey = n, m_modifierKey = m\<rparr> # m_numberModifiers kb\<rparr>"

definition addModifier :: "modifier_type \<Rightarrow> keyref \<Rightarrow> Keyboard \<Rightarrow> Keyboard" where
  "addModifier mt k kb =
     (if k \<in> set (m_mods kb mt) then kb
      else kb\<lparr>m_mods := (m_mods kb)(mt := m_mods kb mt @ [k])\<rparr>)"

text \<open>The key a reference denotes. The event keys are the statics of setting.cpp.\<close>

definition event_key_name :: "event_key \<Rightarrow> string" where
  "event_key_name e = (case e of Ev_prefixed \<Rightarrow> ''prefixed''
     | Ev_before_key_down \<Rightarrow> ''before-key-down'' | Ev_after_key_up \<Rightarrow> ''after-key-up'')"

definition get_key :: "Keyboard \<Rightarrow> keyref \<Rightarrow> Key" where
  "get_key kb r = (case r of KeyAt i \<Rightarrow> kb_store kb ! i
     | EventKey e \<Rightarrow> event_Key (event_key_name e) | SyncKey \<Rightarrow> m_syncKey kb)"

definition searchKey :: "Key \<Rightarrow> Keyboard \<Rightarrow> keyref option option" where
  "searchKey i_key kb =
     (case getKeys i_key of
        None \<Rightarrow> None
      | Some b \<Rightarrow> Some (map_option KeyAt
          (find (\<lambda>i. isSameScanCode (kb_store kb ! i) i_key = Some True) (m_hashedKeys kb ! b))))"

text \<open>The loop of \<^verbatim>\<open>searchPrefixKey\<close>, None when the comparison runs past a key's codes.\<close>

fun search_prefix :: "Key list \<Rightarrow> Key \<Rightarrow> nat list \<Rightarrow> nat option option" where
  "search_prefix store i_key [] = Some None"
| "search_prefix store i_key (i # is) =
     (case isPrefixScanCode (store ! i) i_key of
        None \<Rightarrow> None
      | Some True \<Rightarrow> Some (Some i)
      | Some False \<Rightarrow> search_prefix store i_key is)"

definition searchPrefixKey :: "Key \<Rightarrow> Keyboard \<Rightarrow> keyref option option" where
  "searchPrefixKey i_key kb =
     (case getKeys i_key of
        None \<Rightarrow> None
      | Some b \<Rightarrow> map_option (map_option KeyAt) (search_prefix (kb_store kb) i_key (m_hashedKeys kb ! b)))"

fun search_buckets :: "Key list \<Rightarrow> string \<Rightarrow> nat list list \<Rightarrow> nat option" where
  "search_buckets store n [] = None"
| "search_buckets store n (b # bs) =
     (case find (\<lambda>i. Key_eq_name (store ! i) n) b of
        Some i \<Rightarrow> Some i
      | None \<Rightarrow> search_buckets store n bs)"

definition searchKeyByNonAliasName :: "string \<Rightarrow> Keyboard \<Rightarrow> keyref option" where
  "searchKeyByNonAliasName n kb =
     map_option KeyAt (search_buckets (kb_store kb) n (m_hashedKeys kb))"

definition searchKey_name :: "string \<Rightarrow> Keyboard \<Rightarrow> keyref option" where
  "searchKey_name n kb =
     (case find_alias kb n of Some r \<Rightarrow> Some r | None \<Rightarrow> searchKeyByNonAliasName n kb)"

definition searchSubstitute :: "ModifiedKey \<Rightarrow> Keyboard \<Rightarrow> ModifiedKey" where
  "searchSubstitute i_mkey kb =
     (case find (\<lambda>s. mk_key (m_mkeyFrom s) = mk_key i_mkey \<and>
                     doesMatch (mk_modifier (m_mkeyFrom s)) (mk_modifier i_mkey)) (m_substitutes kb) of
        Some s \<Rightarrow> m_mkeyTo s
      | None \<Rightarrow> new_ModifiedKey)"

section \<open>The key iterator\<close>

text \<open>The lists still to visit, and the rest of the first of them from \<^verbatim>\<open>m_i\<close> on.\<close>

record KeyIterator =
  ki_hashedKeys :: "nat list list"
  ki_i :: "nat list"

fun skip_empty :: "nat list list \<Rightarrow> KeyIterator" where
  "skip_empty [] = \<lparr>ki_hashedKeys = [], ki_i = []\<rparr>"
| "skip_empty (b # rest) =
     (if b = [] then skip_empty rest else \<lparr>ki_hashedKeys = b # rest, ki_i = b\<rparr>)"

definition new_KeyIterator :: "nat list list \<Rightarrow> KeyIterator" where
  "new_KeyIterator bs =
     (case bs of
        [] \<Rightarrow> \<lparr>ki_hashedKeys = [], ki_i = []\<rparr>
      | b # rest \<Rightarrow> if b = [] then skip_empty bs else \<lparr>ki_hashedKeys = bs, ki_i = b\<rparr>)"

definition ki_next :: "KeyIterator \<Rightarrow> KeyIterator" where
  "ki_next it =
     (if ki_hashedKeys it = [] then it
      else if tl (ki_i it) = [] then skip_empty (tl (ki_hashedKeys it))
      else it\<lparr>ki_i := tl (ki_i it)\<rparr>)"

definition ki_deref :: "KeyIterator \<Rightarrow> nat option" where
  "ki_deref it = (if ki_hashedKeys it = [] then None else Some (hd (ki_i it)))"

text \<open>The loop \<^verbatim>\<open>for (it = getKeyIterator(); *it; ++it)\<close>, bounded by \<open>n\<close> rounds.\<close>

fun ki_visit :: "nat \<Rightarrow> KeyIterator \<Rightarrow> nat list" where
  "ki_visit 0 it = []"
| "ki_visit (Suc n) it = (case ki_deref it of None \<Rightarrow> [] | Some i \<Rightarrow> i # ki_visit n (ki_next it))"

definition getKeyIterator :: "Keyboard \<Rightarrow> KeyIterator" where
  "getKeyIterator kb = new_KeyIterator (m_hashedKeys kb)"

text \<open>What is still to come.\<close>

definition ki_rest :: "KeyIterator \<Rightarrow> nat list" where
  "ki_rest it = (if ki_hashedKeys it = [] then [] else ki_i it @ concat (tl (ki_hashedKeys it)))"

definition ki_ok :: "KeyIterator \<Rightarrow> bool" where
  "ki_ok it \<longleftrightarrow> ki_hashedKeys it \<noteq> [] \<longrightarrow> ki_i it \<noteq> []"

lemma skip_empty_rest: "ki_rest (skip_empty bs) = concat bs \<and> ki_ok (skip_empty bs)"
  by (induction bs) (auto simp: ki_rest_def ki_ok_def)

lemma new_KeyIterator_rest: "ki_rest (new_KeyIterator bs) = concat bs \<and> ki_ok (new_KeyIterator bs)"
  using skip_empty_rest [of bs]
  by (cases bs) (auto simp: new_KeyIterator_def ki_rest_def ki_ok_def)

lemma ki_next_rest: "ki_ok it \<Longrightarrow> ki_rest (ki_next it) = tl (ki_rest it) \<and> ki_ok (ki_next it)"
  using skip_empty_rest [of "tl (ki_hashedKeys it)"]
  by (cases "ki_i it"; cases "tl (ki_i it)") (auto simp: ki_next_def ki_rest_def ki_ok_def)

lemma ki_deref_rest: "ki_ok it \<Longrightarrow> ki_deref it = (case ki_rest it of [] \<Rightarrow> None | i # _ \<Rightarrow> Some i)"
  by (cases "ki_i it") (auto simp: ki_deref_def ki_rest_def ki_ok_def)

lemma ki_visit_rest: "ki_ok it \<Longrightarrow> length (ki_rest it) \<le> n \<Longrightarrow> ki_visit n it = ki_rest it"
proof (induction n arbitrary: it)
  case 0
  then show ?case by simp
next
  case (Suc n)
  then show ?case
    using ki_next_rest [of it] ki_deref_rest [of it] by (cases "ki_rest it") auto
qed

lemma keys_visited:
  "length (concat (m_hashedKeys kb)) \<le> n \<Longrightarrow> ki_visit n (getKeyIterator kb) = concat (m_hashedKeys kb)"
  using ki_visit_rest [of "getKeyIterator kb" n] new_KeyIterator_rest [of "m_hashedKeys kb"]
  by (simp add: getKeyIterator_def)

section \<open>Well-formed keyboards\<close>

definition wf_Keyboard :: "Keyboard \<Rightarrow> bool" where
  "wf_Keyboard kb \<longleftrightarrow>
     length (m_hashedKeys kb) = HASHED_KEYS_SIZE \<and>
     distinct (concat (m_hashedKeys kb)) \<and>
     set (concat (m_hashedKeys kb)) = {..<length (kb_store kb)} \<and>
     (\<forall>b<HASHED_KEYS_SIZE. \<forall>i\<in>set (m_hashedKeys kb ! b). getKeys (kb_store kb ! i) = Some b)"

lemma getKeys_less: "getKeys k = Some b \<Longrightarrow> b < HASHED_KEYS_SIZE"
  by (auto simp: getKeys_def HASHED_KEYS_SIZE_def split: list.splits)

lemma new_Keyboard_wf: "wf_Keyboard new_Keyboard"
  by (auto simp: wf_Keyboard_def new_Keyboard_def)

lemma concat_update_mset:
  "b < length bs \<Longrightarrow> mset (concat (bs[b := x # bs ! b])) = add_mset x (mset (concat bs))"
  by (induction bs arbitrary: b) (auto split: nat.splits)

lemma addKey_wf:
  assumes wf: "wf_Keyboard kb" and add: "addKey k kb = Some kb'"
  shows "wf_Keyboard kb'"
proof -
  from add obtain b where b: "getKeys k = Some b"
    and kb': "kb' = kb\<lparr>kb_store := kb_store kb @ [k],
        m_hashedKeys := (m_hashedKeys kb)[b := length (kb_store kb) # m_hashedKeys kb ! b]\<rparr>"
    by (auto simp: addKey_def split: option.splits)
  let ?n = "length (kb_store kb)" and ?bs = "m_hashedKeys kb"
  let ?bs' = "?bs[b := ?n # ?bs ! b]"
  have bl: "b < length ?bs" using getKeys_less [OF b] wf by (simp add: wf_Keyboard_def)
  note ms = concat_update_mset [OF bl, of ?n]
  have new: "?n \<notin> set (concat ?bs)" using wf unfolding wf_Keyboard_def by blast
  have "distinct (concat ?bs')"
    using mset_eq_imp_distinct_iff [of "concat ?bs'" "?n # concat ?bs"] ms new wf
    by (simp add: wf_Keyboard_def)
  moreover have "set (concat ?bs') = insert ?n (set (concat ?bs))"
    using arg_cong [OF ms, of set_mset] by simp
  then have "set (concat ?bs') = {..<Suc ?n}"
    using wf by (auto simp: wf_Keyboard_def lessThan_Suc)
  moreover have "getKeys ((kb_store kb @ [k]) ! i) = Some c"
    if "c < HASHED_KEYS_SIZE" "i \<in> set (?bs' ! c)" for c i
  proof (cases "i = ?n")
    case True
    with that new bl wf have "c = b"
      by (metis (no_types, lifting) UN_I nth_list_update_neq nth_mem set_concat wf_Keyboard_def)
    with True b show ?thesis by simp
  next
    case False
    then have i: "i \<in> set (?bs ! c)"
      using that bl by (cases "c = b") auto
    moreover have "i < ?n"
      using i that(1) wf unfolding wf_Keyboard_def by (metis UN_I lessThan_iff nth_mem set_concat)
    ultimately show ?thesis using wf that(1) by (simp add: wf_Keyboard_def nth_append)
  qed
  ultimately show ?thesis
    using wf by (simp add: wf_Keyboard_def kb')
qed

text \<open>A search by scan codes finds the key that was added last among those with equal codes.\<close>

lemma list_all2_same_getKeys:
  "isSameScanCode a b = Some True \<Longrightarrow> getKeys a = getKeys b"
  by (auto simp: isSameScanCode_total getKeys_def ScanCode_eq_def list_all2_Cons1 split: list.splits)

lemma searchKey_addKey:
  assumes wf: "wf_Keyboard kb" and add: "addKey k kb = Some kb'" and b: "getKeys q = Some bq"
  shows "searchKey q kb' = (if isSameScanCode k q = Some True then Some (Some (KeyAt (length (kb_store kb))))
                            else searchKey q kb)"
proof -
  from add obtain b where b': "getKeys k = Some b"
    and kb': "kb' = kb\<lparr>kb_store := kb_store kb @ [k],
        m_hashedKeys := (m_hashedKeys kb)[b := length (kb_store kb) # m_hashedKeys kb ! b]\<rparr>"
    by (auto simp: addKey_def split: option.splits)
  let ?n = "length (kb_store kb)"
  have bl: "b < length (m_hashedKeys kb)" "bq < length (m_hashedKeys kb)"
    using getKeys_less [OF b'] getKeys_less [OF b] wf by (simp_all add: wf_Keyboard_def)
  have small: "i < ?n" if "i \<in> set (m_hashedKeys kb ! bq)" for i
    using that bl(2) wf unfolding wf_Keyboard_def by (metis UN_I lessThan_iff nth_mem set_concat)
  have old: "find (\<lambda>i. isSameScanCode ((kb_store kb @ [k]) ! i) q = Some True) (m_hashedKeys kb ! bq) =
      find (\<lambda>i. isSameScanCode (kb_store kb ! i) q = Some True) (m_hashedKeys kb ! bq)"
    by (rule find_cong) (auto simp: nth_append dest: small)
  show ?thesis
  proof (cases "b = bq")
    case True
    with bl old show ?thesis by (simp add: searchKey_def b kb')
  next
    case False
    then have "isSameScanCode k q \<noteq> Some True"
      using list_all2_same_getKeys [of k q] b b' by auto
    with False bl old show ?thesis by (simp add: searchKey_def b kb')
  qed
qed

end
