(* ===== verification/Keymap_Model.thy ===== *)
theory Keymap_Model
  imports Keyboard_Model
begin

text \<open>
  src/core/input/keymap.h and keymap.cpp: actions, key sequences, keymaps and their two
  collections. A \<^verbatim>\<open>KeySeq *\<close> and a \<^verbatim>\<open>Keymap *\<close> are positions in stores that only grow; the
  source's \<^verbatim>\<open>std::list\<close>s, filled by \<^verbatim>\<open>push_front\<close>, are the stores read backwards. A null or
  dangling dereference is None.
\<close>

section \<open>Actions and key sequences\<close>

type_synonym ksref = nat
type_synonym kmref = nat

datatype ToggleType = ToggleType_toggle | ToggleType_off | ToggleType_on

text \<open>
  \<^verbatim>\<open>FunctionData\<close> objects: one constructor with its arguments for every command of
  src/core/commands whose \<^verbatim>\<open>exec\<close> changes the engine's state or injects input; the rest, which
  act on windows, dialogs, the mouse pointer, the log or other programs only, by name.
\<close>

datatype FunctionData =
    FD_Default
  | FD_KeymapParent
  | FD_Keymap kmref
  | FD_KeymapPrevPrefix int
  | FD_Prefix kmref bool
  | FD_CancelPrefix
  | FD_EditNextModifier Modifier
  | FD_Variable int int
  | FD_Repeat ksref int
  | FD_Toggle modifier_type ToggleType
  | FD_Ignore
  | FD_Sync
  | FD_Wait int
  | FD_VK u32
  | FD_MouseWheel int
  | FD_Other string

datatype Action =
    ActionKey ModifiedKey
  | ActionKeySeq ksref
  | ActionFunction FunctionData Modifier

text \<open>\<^verbatim>\<open>m_mode\<close> is one of the numbers \<^const>\<open>Type_KEYSEQ\<close> and \<^const>\<open>Type_ASSIGN\<close>.\<close>

record KeySeq =
  sq_actions :: "Action list"
  sq_name :: string
  sq_mode :: nat

definition new_KeySeq :: "string \<Rightarrow> KeySeq" where
  "new_KeySeq n = \<lparr>sq_actions = [], sq_name = n, sq_mode = Type_KEYSEQ\<rparr>"

definition KeySeq_add :: "Action \<Rightarrow> KeySeq \<Rightarrow> KeySeq" where
  "KeySeq_add a ks = ks\<lparr>sq_actions := sq_actions ks @ [a]\<rparr>"

definition isCorrectMode :: "nat \<Rightarrow> KeySeq \<Rightarrow> bool" where
  "isCorrectMode i_mode ks \<longleftrightarrow> sq_mode ks \<le> i_mode"

definition setMode :: "nat \<Rightarrow> KeySeq \<Rightarrow> KeySeq" where
  "setMode i_mode ks = (if sq_mode ks < i_mode then ks\<lparr>sq_mode := i_mode\<rparr> else ks)"

text \<open>\<^verbatim>\<open>getFirstModifiedKey\<close> follows references to other sequences and need not return: the
  value None is non-termination.\<close>

partial_function (option) getFirstModifiedKey :: "KeySeq list \<Rightarrow> ksref \<Rightarrow> ModifiedKey option" where
  [code]: "getFirstModifiedKey seqs r =
     (case sq_actions (seqs ! r) of
        [] \<Rightarrow> Some new_ModifiedKey
      | a # _ \<Rightarrow> (case a of
            ActionKey mk \<Rightarrow> Some mk
          | ActionKeySeq r' \<Rightarrow> getFirstModifiedKey seqs r'
          | ActionFunction _ _ \<Rightarrow> Some new_ModifiedKey))"

text \<open>Class \<^verbatim>\<open>KeySeqs\<close>.\<close>

type_synonym KeySeqs = "KeySeq list"

definition keyseq_searchByName :: "string \<Rightarrow> KeySeqs \<Rightarrow> ksref option" where
  "keyseq_searchByName n seqs =
     find (\<lambda>i. strcasecmp_utf8 n (sq_name (seqs ! i)) = 0) (rev [0..<length seqs])"

definition keyseq_add :: "KeySeq \<Rightarrow> KeySeqs \<Rightarrow> KeySeqs \<times> ksref" where
  "keyseq_add ks seqs =
     (case (if sq_name ks \<noteq> [] then keyseq_searchByName (sq_name ks) seqs else None) of
        Some i \<Rightarrow> (seqs[i := ks], i)
      | None \<Rightarrow> (seqs @ [ks], length seqs))"

section \<open>Keymaps\<close>

datatype AssignOperator = AO_new | AO_add | AO_sub | AO_overwrite

datatype AssignMode = AM_notModifier | AM_normal | AM_true | AM_oneShot | AM_oneShotRepeatable

record KeyAssignment =
  ka_modifiedKey :: ModifiedKey
  ka_keySeq :: ksref

record ModAssignment =
  ma_assignOperator :: AssignOperator
  ma_assignMode :: AssignMode
  ma_key :: keyref

definition HASHED_KEY_ASSIGNMENT_SIZE :: nat where "HASHED_KEY_ASSIGNMENT_SIZE = 32"

record Keymap =
  km_hashedKeyAssignments :: "KeyAssignment list list"
  km_modAssignments :: "modifier_type \<Rightarrow> ModAssignment list"
  km_name :: string
  km_defaultKeySeq :: "ksref option"
  km_parentKeymap :: "kmref option"

definition new_Keymap :: "string \<Rightarrow> ksref option \<Rightarrow> kmref option \<Rightarrow> Keymap" where
  "new_Keymap n d p = \<lparr>km_hashedKeyAssignments = replicate HASHED_KEY_ASSIGNMENT_SIZE [],
     km_modAssignments = (\<lambda>_. []), km_name = n, km_defaultKeySeq = d, km_parentKeymap = p\<rparr>"

definition getKeyAssignments :: "Keyboard \<Rightarrow> ModifiedKey \<Rightarrow> nat option" where
  "getKeyAssignments kb mk =
     (case mk_key mk of
        None \<Rightarrow> None
      | Some k \<Rightarrow> (case m_scanCodes (get_key kb k) of
            [] \<Rightarrow> None
          | c # _ \<Rightarrow> Some (unat (m_scan c) mod HASHED_KEY_ASSIGNMENT_SIZE)))"

text \<open>The loop of \<^verbatim>\<open>addAssignment\<close>: replace the sequence of an equal key, else push in front.\<close>

fun assign_in :: "ModifiedKey \<Rightarrow> ksref \<Rightarrow> KeyAssignment list \<Rightarrow> KeyAssignment list option" where
  "assign_in mk r [] = None"
| "assign_in mk r (a # as) =
     (if ModifiedKey_eq (ka_modifiedKey a) mk then Some (a\<lparr>ka_keySeq := r\<rparr> # as)
      else map_option (\<lambda>bs. a # bs) (assign_in mk r as))"

definition addAssignment :: "Keyboard \<Rightarrow> ModifiedKey \<Rightarrow> ksref \<Rightarrow> Keymap \<Rightarrow> Keymap option" where
  "addAssignment kb mk r km =
     (case getKeyAssignments kb mk of
        None \<Rightarrow> None
      | Some b \<Rightarrow>
          (let ka = km_hashedKeyAssignments km ! b;
               ka' = (case assign_in mk r ka of Some as \<Rightarrow> as
                      | None \<Rightarrow> \<lparr>ka_modifiedKey = mk, ka_keySeq = r\<rparr> # ka)
           in Some (km\<lparr>km_hashedKeyAssignments := (km_hashedKeyAssignments km)[b := ka']\<rparr>)))"

text \<open>\<^verbatim>\<open>Keymap::addModifier\<close>.\<close>

fun change_mod :: "AssignOperator \<Rightarrow> AssignMode \<Rightarrow> keyref \<Rightarrow> ModAssignment list \<Rightarrow> ModAssignment list option" where
  "change_mod ao am k [] = None"
| "change_mod ao am k (m # ms) =
     (if ma_key m = k then Some (m\<lparr>ma_assignOperator := ao, ma_assignMode := am\<rparr> # ms)
      else map_option (\<lambda>ns. m # ns) (change_mod ao am k ms))"

definition keymap_addModifier ::
    "modifier_type \<Rightarrow> AssignOperator \<Rightarrow> AssignMode \<Rightarrow> keyref \<Rightarrow> Keymap \<Rightarrow> Keymap" where
  "keymap_addModifier mt ao am k km =
     (let ma = \<lparr>ma_assignOperator = ao, ma_assignMode = am, ma_key = k\<rparr>;
          old = km_modAssignments km mt;
          new = (if ao = AO_new then [ma]
                 else case change_mod ao am k old of Some ms \<Rightarrow> ms | None \<Rightarrow> old @ [ma])
      in km\<lparr>km_modAssignments := (km_modAssignments km)(mt := new)\<rparr>)"

definition virtualMods_match :: "ModifiedKey \<Rightarrow> ModifiedKey \<Rightarrow> bool" where
  "virtualMods_match a b \<longleftrightarrow> (\<forall>j<8. mk_virtualMods a ! j = mk_virtualMods b ! j)"

text \<open>The two passes of \<^verbatim>\<open>searchAssignment\<close> over one bucket.\<close>

definition exact_match :: "ModifiedKey \<Rightarrow> KeyAssignment \<Rightarrow> bool" where
  "exact_match mk a \<longleftrightarrow> mk_key (ka_modifiedKey a) = mk_key mk \<and>
     doesMatch (mk_modifier (ka_modifiedKey a)) (mk_modifier mk) \<and>
     virtualMods_match (ka_modifiedKey a) mk"

definition base_match :: "ModifiedKey \<Rightarrow> KeyAssignment \<Rightarrow> bool" where
  "base_match mk a \<longleftrightarrow> mk_key (ka_modifiedKey a) = mk_key mk \<and>
     doesMatch (mk_modifier (ka_modifiedKey a)) new_Modifier"

definition search_bucket :: "ModifiedKey \<Rightarrow> KeyAssignment list \<Rightarrow> KeyAssignment option" where
  "search_bucket mk ka =
     (case find (exact_match mk) ka of Some a \<Rightarrow> Some a | None \<Rightarrow> find (base_match mk) ka)"

definition searchAssignment :: "Keyboard \<Rightarrow> Keymap \<Rightarrow> ModifiedKey \<Rightarrow> KeyAssignment option option" where
  "searchAssignment kb km mk =
     (case getKeyAssignments kb mk of
        None \<Rightarrow> None
      | Some b \<Rightarrow> Some (search_bucket mk (km_hashedKeyAssignments km ! b)))"

definition forEachAssignment :: "Keymap \<Rightarrow> KeyAssignment list" where
  "forEachAssignment km = concat (km_hashedKeyAssignments km)"

definition setIfNotYet :: "ksref option \<Rightarrow> kmref option \<Rightarrow> Keymap \<Rightarrow> Keymap \<times> bool" where
  "setIfNotYet d p km =
     (if km_defaultKeySeq km \<noteq> None then (km, False)
      else (km\<lparr>km_defaultKeySeq := d, km_parentKeymap := p\<rparr>, True))"

section \<open>Adjusting modifiers\<close>

text \<open>One round of the "mod adjust" loop.\<close>

fun remove_first :: "keyref \<Rightarrow> ModAssignment list \<Rightarrow> ModAssignment list" where
  "remove_first k [] = []"
| "remove_first k (m # ms) = (if ma_key m = k then ms else m # remove_first k ms)"

definition adjust_step :: "ModAssignment \<Rightarrow> ModAssignment list \<Rightarrow> ModAssignment list" where
  "adjust_step mai mos =
     (let ma = mai\<lparr>ma_assignOperator := AO_new\<rparr> in
      case ma_assignOperator mai of
        AO_new \<Rightarrow> [ma]
      | AO_add \<Rightarrow> mos @ [ma]
      | AO_sub \<Rightarrow> remove_first (ma_key ma) mos
      | AO_overwrite \<Rightarrow> map (\<lambda>m. m\<lparr>ma_assignMode := ma_assignMode mai\<rparr>) mos)"

text \<open>"erase redundant modifiers": the outer loop ends after the first erasure.\<close>

fun erase_redundant :: "ModAssignment list \<Rightarrow> ModAssignment list" where
  "erase_redundant [] = []"
| "erase_redundant (m # ms) =
     (if \<exists>n\<in>set ms. ma_key n = ma_key m then ms else m # erase_redundant ms)"

definition default_mods :: "Keyboard \<Rightarrow> modifier_type \<Rightarrow> ModAssignment list" where
  "default_mods kb t =
     (if type_index t < Type_BASIC
      then map (\<lambda>k. \<lparr>ma_assignOperator = AO_add, ma_assignMode = AM_normal, ma_key = k\<rparr>) (m_mods kb t)
      else [])"

definition adjusted :: "ModAssignment list \<Rightarrow> ModAssignment list \<Rightarrow> ModAssignment list" where
  "adjusted inherited own = erase_redundant (fold adjust_step own inherited)"

type_synonym Keymaps = "Keymap list"

definition keymap_adjustModifier :: "Keyboard \<Rightarrow> kmref \<Rightarrow> Keymaps \<Rightarrow> Keymaps" where
  "keymap_adjustModifier kb i kms =
     (let km = kms ! i in
      kms[i := km\<lparr>km_modAssignments := (\<lambda>t.
        adjusted (case km_parentKeymap km of
                    Some p \<Rightarrow> km_modAssignments (kms ! p) t
                  | None \<Rightarrow> default_mods kb t)
                 (km_modAssignments km t))\<rparr>])"

text \<open>\<^verbatim>\<open>Keymaps\<close>: searching, adding and adjusting, the last from the oldest keymap on.\<close>

definition keymaps_searchByName :: "string \<Rightarrow> Keymaps \<Rightarrow> kmref option" where
  "keymaps_searchByName n kms =
     find (\<lambda>i. strcasecmp_utf8 n (km_name (kms ! i)) = 0) (rev [0..<length kms])"

definition getGlobalKeymap :: "Keymaps \<Rightarrow> kmref option" where
  "getGlobalKeymap kms = keymaps_searchByName ''Global'' kms"

definition keymaps_add :: "Keymap \<Rightarrow> Keymaps \<Rightarrow> Keymaps \<times> kmref" where
  "keymaps_add km kms =
     (case keymaps_searchByName (km_name km) kms of
        Some i \<Rightarrow> (kms, i)
      | None \<Rightarrow> (kms @ [km], length kms))"

definition adjustModifier :: "Keyboard \<Rightarrow> Keymaps \<Rightarrow> Keymaps" where
  "adjustModifier kb kms = fold (keymap_adjustModifier kb) [0..<length kms] kms"

section \<open>Names\<close>

text \<open>
  Both collections look names up case-insensitively, newest first. The shared contract: the
  entry found has the name, and adding under a fresh name makes it findable.
\<close>

locale named_store =
  fixes name_of :: "'a \<Rightarrow> string"
    and search :: "string \<Rightarrow> 'a list \<Rightarrow> nat option"
    and insert_entry :: "'a \<Rightarrow> 'a list \<Rightarrow> 'a list \<times> nat"
  assumes search_def': "search n xs =
      find (\<lambda>i. strcasecmp_utf8 n (name_of (xs ! i)) = 0) (rev [0..<length xs])"
    and insert_fresh: "name_of x \<noteq> [] \<Longrightarrow> search (name_of x) xs = None \<Longrightarrow>
      insert_entry x xs = (xs @ [x], length xs)"
    and insert_known: "name_of x \<noteq> [] \<Longrightarrow> search (name_of x) xs = Some i \<Longrightarrow>
      snd (insert_entry x xs) = i \<and> length (fst (insert_entry x xs)) = length xs \<and>
      strcasecmp_utf8 (name_of x) (name_of (fst (insert_entry x xs) ! i)) = 0 \<and>
      (\<forall>j<length xs. j \<noteq> i \<longrightarrow> fst (insert_entry x xs) ! j = xs ! j)"
begin

lemma search_Some: "search n xs = Some i \<Longrightarrow> i < length xs \<and> strcasecmp_utf8 n (name_of (xs ! i)) = 0"
  by (auto simp: search_def' dest!: find_eq_Some_mem)

lemma search_None: "search n xs = None \<longleftrightarrow> (\<forall>i<length xs. strcasecmp_utf8 n (name_of (xs ! i)) \<noteq> 0)"
  by (auto simp: search_def' find_eq_None)

lemma search_append:
  "search n (xs @ [x]) = (if strcasecmp_utf8 n (name_of x) = 0 then Some (length xs) else search n xs)"
proof -
  have "find (\<lambda>i. strcasecmp_utf8 n (name_of ((xs @ [x]) ! i)) = 0) (rev [0..<length xs]) =
        find (\<lambda>i. strcasecmp_utf8 n (name_of (xs ! i)) = 0) (rev [0..<length xs])"
    by (rule find_cong) (auto simp: nth_append)
  then show ?thesis by (simp add: search_def')
qed

text \<open>What was inserted is found again under its own name, at the position reported.\<close>

lemma search_insert:
  assumes "name_of x \<noteq> []"
  shows "search (name_of x) (fst (insert_entry x xs)) = Some (snd (insert_entry x xs))"
proof (cases "search (name_of x) xs")
  case None
  then show ?thesis using insert_fresh [OF assms None] by (simp add: search_append)
next
  case (Some i)
  note k = insert_known [OF assms Some]
  have "find (\<lambda>j. strcasecmp_utf8 (name_of x) (name_of (fst (insert_entry x xs) ! j)) = 0)
            (rev [0..<length xs]) =
        find (\<lambda>j. strcasecmp_utf8 (name_of x) (name_of (xs ! j)) = 0) (rev [0..<length xs])"
    using k search_Some [OF Some] by (intro find_cong) auto
  with Some k show ?thesis by (simp add: search_def')
qed

end

interpretation seqs: named_store sq_name keyseq_searchByName keyseq_add
proof (unfold_locales, goal_cases)
  case (1 n xs)
  show ?case by (simp add: keyseq_searchByName_def)
next
  case (2 x xs)
  then show ?case by (simp add: keyseq_add_def)
next
  case (3 x xs i)
  then have "i < length xs"
    by (auto simp: keyseq_searchByName_def dest!: find_eq_Some_mem)
  with 3 show ?case by (simp add: keyseq_add_def)
qed

interpretation kms: named_store km_name keymaps_searchByName keymaps_add
proof (unfold_locales, goal_cases)
  case (1 n xs)
  show ?case by (simp add: keymaps_searchByName_def)
next
  case (2 x xs)
  then show ?case by (simp add: keymaps_add_def)
next
  case (3 x xs i)
  then show ?case
    by (auto simp: keymaps_add_def keymaps_searchByName_def dest!: find_eq_Some_mem)
qed

section \<open>What the operations compute\<close>

definition wf_Keymap :: "Keyboard \<Rightarrow> Keymap \<Rightarrow> bool" where
  "wf_Keymap kb km \<longleftrightarrow> length (km_hashedKeyAssignments km) = HASHED_KEY_ASSIGNMENT_SIZE \<and>
     (\<forall>b<HASHED_KEY_ASSIGNMENT_SIZE. \<forall>a\<in>set (km_hashedKeyAssignments km ! b).
        getKeyAssignments kb (ka_modifiedKey a) = Some b)"

lemma wf_new_Keymap [simp]: "wf_Keymap kb (new_Keymap n d p)"
  by (simp add: wf_Keymap_def new_Keymap_def)

lemma getKeyAssignments_less: "getKeyAssignments kb mk = Some b \<Longrightarrow> b < HASHED_KEY_ASSIGNMENT_SIZE"
  by (auto simp: getKeyAssignments_def HASHED_KEY_ASSIGNMENT_SIZE_def split: option.splits list.splits)

lemma getKeyAssignments_key: "mk_key a = mk_key b \<Longrightarrow> getKeyAssignments kb a = getKeyAssignments kb b"
  by (simp add: getKeyAssignments_def)

lemma assign_in_None: "assign_in mk r as = None \<longleftrightarrow> (\<forall>a\<in>set as. \<not> ModifiedKey_eq (ka_modifiedKey a) mk)"
  by (induction as) auto

lemma assign_in_keys: "assign_in mk r as = Some bs \<Longrightarrow> map ka_modifiedKey bs = map ka_modifiedKey as"
  by (induction as arbitrary: bs) (auto split: if_splits)

lemma addAssignment_wf:
  assumes wf: "wf_Keymap kb km" and add: "addAssignment kb mk r km = Some km'"
  shows "wf_Keymap kb km'"
proof -
  from add obtain b where b: "getKeyAssignments kb mk = Some b"
    by (auto simp: addAssignment_def split: option.splits)
  have bl: "b < length (km_hashedKeyAssignments km)"
    using getKeyAssignments_less [OF b] wf by (simp add: wf_Keymap_def)
  define ka' where "ka' = (case assign_in mk r (km_hashedKeyAssignments km ! b) of Some as \<Rightarrow> as
      | None \<Rightarrow> \<lparr>ka_modifiedKey = mk, ka_keySeq = r\<rparr> # km_hashedKeyAssignments km ! b)"
  have km': "km' = km\<lparr>km_hashedKeyAssignments := (km_hashedKeyAssignments km)[b := ka']\<rparr>"
    using add b by (simp add: addAssignment_def ka'_def Let_def)
  have "getKeyAssignments kb (ka_modifiedKey a) = Some b" if "a \<in> set ka'" for a
  proof (cases "assign_in mk r (km_hashedKeyAssignments km ! b)")
    case None
    with that b bl wf show ?thesis by (auto simp: ka'_def wf_Keymap_def)
  next
    case (Some as)
    then have "ka_modifiedKey a \<in> set (map ka_modifiedKey (km_hashedKeyAssignments km ! b))"
      using that assign_in_keys [OF Some] by (metis ka'_def image_eqI list.set_map option.simps(5))
    with bl wf show ?thesis by (auto simp: wf_Keymap_def)
  qed
  with wf bl show ?thesis
    by (auto simp: wf_Keymap_def km' nth_list_update)
qed

text \<open>A new assignment is in front of all others: it answers every search it matches exactly.\<close>

lemma search_after_add:
  assumes wf: "wf_Keymap kb km" and add: "addAssignment kb mk r km = Some km'"
    and fresh: "\<forall>a\<in>set (forEachAssignment km). \<not> ModifiedKey_eq (ka_modifiedKey a) mk"
    and q: "exact_match q \<lparr>ka_modifiedKey = mk, ka_keySeq = r\<rparr>"
  shows "searchAssignment kb km' q = Some (Some \<lparr>ka_modifiedKey = mk, ka_keySeq = r\<rparr>)"
proof -
  from add obtain b where b: "getKeyAssignments kb mk = Some b"
    by (auto simp: addAssignment_def split: option.splits)
  have bl: "b < length (km_hashedKeyAssignments km)"
    using getKeyAssignments_less [OF b] wf by (simp add: wf_Keymap_def)
  have "assign_in mk r (km_hashedKeyAssignments km ! b) = None"
    using fresh bl by (auto simp: assign_in_None forEachAssignment_def)
  then have km': "km' = km\<lparr>km_hashedKeyAssignments := (km_hashedKeyAssignments km)
      [b := \<lparr>ka_modifiedKey = mk, ka_keySeq = r\<rparr> # km_hashedKeyAssignments km ! b]\<rparr>"
    using add b by (simp add: addAssignment_def)
  have "getKeyAssignments kb q = Some b"
    using b q getKeyAssignments_key [of mk q kb] by (simp add: exact_match_def)
  with q bl show ?thesis
    by (simp add: searchAssignment_def km' search_bucket_def)
qed

lemma search_bucket_sound:
  "search_bucket mk ka = Some a \<Longrightarrow>
     a \<in> set ka \<and> mk_key (ka_modifiedKey a) = mk_key mk \<and> (exact_match mk a \<or> base_match mk a)"
  by (auto simp: search_bucket_def exact_match_def base_match_def split: option.splits
      dest!: find_eq_Some_mem)

lemma search_bucket_None:
  "search_bucket mk ka = None \<longleftrightarrow> (\<forall>a\<in>set ka. \<not> exact_match mk a \<and> \<not> base_match mk a)"
  by (auto simp: search_bucket_def find_eq_None split: option.splits dest!: find_eq_Some_mem)

subsection \<open>Modifier adjustment\<close>

lemma fold_adjust:
  assumes parents: "\<forall>i<length kms. \<forall>p. km_parentKeymap (kms ! i) = Some p \<longrightarrow> p < i" and "m \<le> length kms"
  shows "length (fold (keymap_adjustModifier kb) [0..<m] kms) = length kms \<and>
    (\<forall>i<length kms. fold (keymap_adjustModifier kb) [0..<m] kms ! i =
       (if i < m then (kms ! i)\<lparr>km_modAssignments := (\<lambda>t.
          adjusted (case km_parentKeymap (kms ! i) of
                      Some p \<Rightarrow> km_modAssignments (fold (keymap_adjustModifier kb) [0..<m] kms ! p) t
                    | None \<Rightarrow> default_mods kb t)
                   (km_modAssignments (kms ! i) t))\<rparr>
        else kms ! i))"
  using assms(2)
proof (induction m)
  case 0
  then show ?case by simp
next
  case (Suc m)
  let ?k = "fold (keymap_adjustModifier kb) [0..<m] kms"
  have IH: "length ?k = length kms"
    "\<And>i. i < length kms \<Longrightarrow> ?k ! i =
       (if i < m then (kms ! i)\<lparr>km_modAssignments := (\<lambda>t.
          adjusted (case km_parentKeymap (kms ! i) of
                      Some p \<Rightarrow> km_modAssignments (?k ! p) t | None \<Rightarrow> default_mods kb t)
                   (km_modAssignments (kms ! i) t))\<rparr>
        else kms ! i)"
    using Suc by auto
  have m: "m < length kms" using Suc.prems by simp
  define new where "new = (?k ! m)\<lparr>km_modAssignments := (\<lambda>t.
        adjusted (case km_parentKeymap (?k ! m) of
                    Some p \<Rightarrow> km_modAssignments (?k ! p) t | None \<Rightarrow> default_mods kb t)
                 (km_modAssignments (?k ! m) t))\<rparr>"
  have step: "fold (keymap_adjustModifier kb) [0..<Suc m] kms = ?k[m := new]"
    by (simp add: keymap_adjustModifier_def new_def Let_def)
  have km: "?k ! m = kms ! m" using IH(2) [OF m] by simp
  have par: "?k[m := new] ! p = ?k ! p" if "i < Suc m" "km_parentKeymap (kms ! i) = Some p" for i p
    using that parents m by (metis Suc_leI le_less_trans less_Suc_eq_le linorder_not_less nth_list_update_neq order_less_le_trans)
  show ?case
    unfolding step
  proof (intro conjI allI impI)
    show "length (?k[m := new]) = length kms" using IH(1) by simp
  next
    fix i assume i: "i < length kms"
    show "?k[m := new] ! i = (if i < Suc m then (kms ! i)\<lparr>km_modAssignments := (\<lambda>t.
          adjusted (case km_parentKeymap (kms ! i) of
                      Some p \<Rightarrow> km_modAssignments (?k[m := new] ! p) t | None \<Rightarrow> default_mods kb t)
                   (km_modAssignments (kms ! i) t))\<rparr>
        else kms ! i)"
      using IH(1) IH(2) [OF i] m par [of i] km
      by (cases "i = m"; cases "km_parentKeymap (kms ! i)") (auto simp: new_def)
  qed
qed

lemma erase_redundant_distinct:
  "distinct (map ma_key ms) \<Longrightarrow> erase_redundant ms = ms"
  by (induction ms) (auto simp: image_iff)

section \<open>Properties\<close>

text \<open>Assigning a list of pairs in order; None when a key has no scan code.\<close>

fun assign_all :: "Keyboard \<Rightarrow> (ModifiedKey \<times> ksref) list \<Rightarrow> Keymap \<Rightarrow> Keymap option" where
  "assign_all kb [] km = Some km"
| "assign_all kb ((mk, r) # xs) km =
     (case addAssignment kb mk r km of None \<Rightarrow> None | Some km1 \<Rightarrow> assign_all kb xs km1)"

definition assignment_of :: "ModifiedKey \<times> ksref \<Rightarrow> KeyAssignment" where
  "assignment_of = (\<lambda>(mk, r). \<lparr>ka_modifiedKey = mk, ka_keySeq = r\<rparr>)"

definition keys_differ :: "(ModifiedKey \<times> ksref) list \<Rightarrow> bool" where
  "keys_differ xs \<longleftrightarrow> sorted_wrt (\<lambda>x y. \<not> ModifiedKey_eq (fst x) (fst y)) xs"

definition buckets_of :: "Keyboard \<Rightarrow> KeyAssignment list \<Rightarrow> Keymap \<Rightarrow> bool" where
  "buckets_of kb as km \<longleftrightarrow> length (km_hashedKeyAssignments km) = HASHED_KEY_ASSIGNMENT_SIZE \<and>
     (\<forall>b<HASHED_KEY_ASSIGNMENT_SIZE. km_hashedKeyAssignments km ! b =
        filter (\<lambda>a. getKeyAssignments kb (ka_modifiedKey a) = Some b) as)"

lemma buckets_of_add:
  assumes "buckets_of kb as km" "addAssignment kb mk r km = Some km'"
    and "\<forall>a\<in>set as. \<not> ModifiedKey_eq (ka_modifiedKey a) mk"
  shows "buckets_of kb (\<lparr>ka_modifiedKey = mk, ka_keySeq = r\<rparr> # as) km'"
proof -
  from assms(2) obtain b where b: "getKeyAssignments kb mk = Some b"
    by (auto simp: addAssignment_def split: option.splits)
  have bl: "b < HASHED_KEY_ASSIGNMENT_SIZE" by (rule getKeyAssignments_less [OF b])
  then have "assign_in mk r (km_hashedKeyAssignments km ! b) = None"
    using assms(1,3) by (auto simp: assign_in_None buckets_of_def)
  then have "km' = km\<lparr>km_hashedKeyAssignments := (km_hashedKeyAssignments km)
      [b := \<lparr>ka_modifiedKey = mk, ka_keySeq = r\<rparr> # km_hashedKeyAssignments km ! b]\<rparr>"
    using assms(2) b by (simp add: addAssignment_def)
  with assms(1) b bl show ?thesis
    by (auto simp: buckets_of_def nth_list_update)
qed

lemma assign_all_buckets:
  assumes "assign_all kb xs km = Some km'" "buckets_of kb as km" "keys_differ xs"
    and "\<forall>a\<in>set as. \<forall>x\<in>set xs. \<not> ModifiedKey_eq (ka_modifiedKey a) (fst x)"
  shows "buckets_of kb (rev (map assignment_of xs) @ as) km'"
  using assms
proof (induction xs arbitrary: km as)
  case Nil
  then show ?case by simp
next
  case (Cons x xs)
  obtain mk r where x: "x = (mk, r)" by (cases x)
  from Cons.prems(1) obtain km1 where k1: "addAssignment kb mk r km = Some km1"
    and rest: "assign_all kb xs km1 = Some km'"
    by (auto simp: x split: option.splits)
  have "buckets_of kb (assignment_of x # as) km1"
    using buckets_of_add [OF Cons.prems(2) k1] Cons.prems(4) by (simp add: x assignment_of_def)
  moreover have "keys_differ xs" using Cons.prems(3) by (simp add: keys_differ_def)
  moreover have "\<forall>a\<in>set (assignment_of x # as). \<forall>y\<in>set xs. \<not> ModifiedKey_eq (ka_modifiedKey a) (fst y)"
    using Cons.prems(3,4) by (auto simp: keys_differ_def x assignment_of_def)
  ultimately show ?case using Cons.IH [OF rest] by simp
qed

lemma find_filter_weaker: "(\<And>x. P x \<Longrightarrow> Q x) \<Longrightarrow> find P (filter Q xs) = find P xs"
  by (induction xs) auto

text \<open>C25: The 32 hash buckets of a keymap are invisible. After assigning any list of pairwise
  different modified keys to a fresh keymap, a search gives the most recent assignment that
  matches the key exactly (modifiers and virtual modifiers), and failing that the most recent one
  that matches with no modifiers at all.\<close>

theorem keymap_search_is_newest_match:
  assumes "assign_all kb xs (new_Keymap n d p) = Some km" "keys_differ xs"
    and "getKeyAssignments kb q = Some b"
  shows "searchAssignment kb km q = Some (search_bucket q (rev (map assignment_of xs)))"
proof -
  have "buckets_of kb [] (new_Keymap n d p)" by (simp add: buckets_of_def new_Keymap_def)
  from assign_all_buckets [OF assms(1) this assms(2)]
  have bk: "buckets_of kb (rev (map assignment_of xs)) km" by simp
  let ?as = "rev (map assignment_of xs)"
  have same: "exact_match q a \<Longrightarrow> getKeyAssignments kb (ka_modifiedKey a) = Some b"
    "base_match q a \<Longrightarrow> getKeyAssignments kb (ka_modifiedKey a) = Some b" for a
    using assms(3) getKeyAssignments_key [of "ka_modifiedKey a" q kb]
    by (simp_all add: exact_match_def base_match_def)
  have "find (exact_match q) (filter (\<lambda>a. getKeyAssignments kb (ka_modifiedKey a) = Some b) ?as) =
      find (exact_match q) ?as"
    "find (base_match q) (filter (\<lambda>a. getKeyAssignments kb (ka_modifiedKey a) = Some b) ?as) =
      find (base_match q) ?as"
    by (rule find_filter_weaker, erule same)+
  then show ?thesis
    using bk getKeyAssignments_less [OF assms(3)] assms(3)
    by (simp add: searchAssignment_def search_bucket_def buckets_of_def cong: option.case_cong)
qed

text \<open>Modifier assignments are inherited. When every keymap's parent was added before it,
  adjusting gives each keymap its parent's adjusted list (the keyboard's own modifier keys when it
  has no parent), changed by its own operators and with the first redundant entry erased; nothing
  else of a keymap changes.\<close>

theorem modifiers_are_inherited:
  assumes "\<forall>i<length kms. \<forall>p. km_parentKeymap (kms ! i) = Some p \<longrightarrow> p < i" and "i < length kms"
  shows "adjustModifier kb kms ! i = (kms ! i)\<lparr>km_modAssignments := (\<lambda>t.
     adjusted (case km_parentKeymap (kms ! i) of
                 Some p \<Rightarrow> km_modAssignments (adjustModifier kb kms ! p) t
               | None \<Rightarrow> default_mods kb t)
              (km_modAssignments (kms ! i) t))\<rparr>"
  using fold_adjust [OF assms(1) order_refl, of kb] assms(2) unfolding adjustModifier_def by simp

text \<open>C32: A mapping that asks for a virtual modifier also fires without it. A keymap whose only
  assignment is a key with some virtual modifiers and no standard one answers a search for the
  same key under any other set of virtual modifiers, through the second pass of the search.\<close>

theorem virtual_modifier_mapping_fires_without_it:
  assumes "addAssignment kb mk r (new_Keymap n d p) = Some km"
    and "mk_modifier mk = new_Modifier" "mk_key q = mk_key mk"
  shows "searchAssignment kb km q = Some (Some \<lparr>ka_modifiedKey = mk, ka_keySeq = r\<rparr>)"
proof -
  from assms(1) obtain b where b: "getKeyAssignments kb mk = Some b"
    by (auto simp: addAssignment_def split: option.splits)
  then have q: "getKeyAssignments kb q = Some b"
    using getKeyAssignments_key [OF assms(3)] by simp
  have "buckets_of kb [] (new_Keymap n d p)" by (simp add: buckets_of_def new_Keymap_def)
  from buckets_of_add [OF this assms(1)]
  have "km_hashedKeyAssignments km ! b = [\<lparr>ka_modifiedKey = mk, ka_keySeq = r\<rparr>]"
    using getKeyAssignments_less [OF b] b by (simp add: buckets_of_def)
  moreover have "base_match q \<lparr>ka_modifiedKey = mk, ka_keySeq = r\<rparr>"
    using assms(2,3) by (simp add: base_match_def doesMatch_def)
  ultimately show ?thesis
    by (simp add: searchAssignment_def q search_bucket_def)
qed

section \<open>Witnesses\<close>

definition ex_key_a :: Key where
  "ex_key_a = addScanCode \<lparr>m_scan = 0x1E, m_flags = 0\<rparr> (addName ''A'' new_Key)"

definition ex_kb :: Keyboard where
  "ex_kb = (case addKey ex_key_a new_Keyboard of Some kb \<Rightarrow> kb | None \<Rightarrow> new_Keyboard)"

lemma ex_kb_key: "get_key ex_kb (KeyAt 0) = ex_key_a"
  by (simp add: ex_kb_def addKey_def getKeys_def ex_key_a_def addScanCode_def addName_def
      new_Key_def get_key_def new_Keyboard_def)

lemma ex_bucket: "mk_key mk = Some (KeyAt 0) \<Longrightarrow> getKeyAssignments ex_kb mk = Some 30"
  by (simp add: getKeyAssignments_def ex_kb_key ex_key_a_def addScanCode_def addName_def new_Key_def
      HASHED_KEY_ASSIGNMENT_SIZE_def)

definition ex_M00_A :: ModifiedKey where
  "ex_M00_A = setVirtualMod 0 True (ModifiedKey_of (KeyAt 0))"

lemma ex_M00_A_fields [simp]:
  "mk_key ex_M00_A = Some (KeyAt 0)" "mk_modifier ex_M00_A = new_Modifier"
  by (simp_all add: ex_M00_A_def setVirtualMod_def ModifiedKey_of_def Let_def)

lemma ModifiedKey_of_key [simp]: "mk_key (ModifiedKey_of k) = Some k"
  "mk_modifier (ModifiedKey_of k) = new_Modifier"
  by (simp_all add: ModifiedKey_of_def)

theorem keymap_search_is_newest_match_witness:
  "\<exists>km. assign_all ex_kb [(ModifiedKey_of (KeyAt 0), 0), (ex_M00_A, 1)] (new_Keymap ''Global'' None None) = Some km \<and>
     searchAssignment ex_kb km ex_M00_A = Some (Some \<lparr>ka_modifiedKey = ex_M00_A, ka_keySeq = 1\<rparr>)"
proof -
  obtain km where km: "assign_all ex_kb [(ModifiedKey_of (KeyAt 0), 0), (ex_M00_A, 1)]
      (new_Keymap ''Global'' None None) = Some km"
    by (simp add: addAssignment_def ex_bucket Let_def)
  have "\<not> ModifiedKey_eq (ModifiedKey_of (KeyAt 0)) ex_M00_A"
    by (auto simp: ModifiedKey_eq_def ex_M00_A_def ModifiedKey_of_def setVirtualMod_def Let_def
        intro!: exI [of _ 0])
  then have "keys_differ [(ModifiedKey_of (KeyAt 0), 0), (ex_M00_A, 1 :: ksref)]"
    by (simp add: keys_differ_def)
  from keymap_search_is_newest_match [OF km this ex_bucket [of ex_M00_A]] km show ?thesis
    by (simp add: search_bucket_def assignment_of_def exact_match_def virtualMods_match_def doesMatch_def)
qed

theorem modifiers_are_inherited_witness:
  "km_modAssignments (adjustModifier new_Keyboard
      [keymap_addModifier Type_Shift AO_new AM_true (KeyAt 7) (new_Keymap ''Global'' None None),
       new_Keymap ''Child'' None (Some 0)] ! 1) Type_Shift =
     [\<lparr>ma_assignOperator = AO_new, ma_assignMode = AM_true, ma_key = KeyAt 7\<rparr>]"
proof -
  let ?kms = "[keymap_addModifier Type_Shift AO_new AM_true (KeyAt 7) (new_Keymap ''Global'' None None),
       new_Keymap ''Child'' None (Some 0)]"
  have p: "\<forall>i<length ?kms. \<forall>p. km_parentKeymap (?kms ! i) = Some p \<longrightarrow> p < i"
    by (simp add: keymap_addModifier_def new_Keymap_def Let_def All_less_Suc)
  show ?thesis
    using modifiers_are_inherited [OF p, of 0 new_Keyboard] modifiers_are_inherited [OF p, of 1 new_Keyboard]
    by (simp add: keymap_addModifier_def new_Keymap_def Let_def adjusted_def adjust_step_def
        default_mods_def new_Keyboard_def)
qed

theorem virtual_modifier_mapping_fires_without_it_witness:
  "\<exists>km. addAssignment ex_kb ex_M00_A 3 (new_Keymap ''Global'' None None) = Some km \<and>
     searchAssignment ex_kb km (ModifiedKey_of (KeyAt 0)) =
       Some (Some \<lparr>ka_modifiedKey = ex_M00_A, ka_keySeq = 3\<rparr>)"
proof -
  obtain km where km: "addAssignment ex_kb ex_M00_A 3 (new_Keymap ''Global'' None None) = Some km"
    by (simp add: addAssignment_def ex_bucket Let_def)
  with virtual_modifier_mapping_fires_without_it [OF km, of "ModifiedKey_of (KeyAt 0)"] show ?thesis
    by simp
qed

end
