(* ===== verification/Rule_Compiler.thy ===== *)
theory Rule_Compiler
  imports Event_Processor Keymap_Model
begin

text \<open>
  src/core/engine/engine.cpp (\<^verbatim>\<open>compileSubstitute\<close>, \<^verbatim>\<open>compileKeyAssignment\<close>, and the sorted list
  of virtual keymap entries) and \<^verbatim>\<open>buildSubstitutionTable\<close> of engine_setting.cpp: how the
  configuration becomes the event processor's rule table, with class \<^verbatim>\<open>Setting\<close>
  (src/core/settings/setting.h) as far as the engine reads it.
\<close>

unbundle bit_operations_syntax

section \<open>Settings\<close>

record Setting =
  st_keyboard :: Keyboard
  st_keymaps :: Keymaps
  st_keySeqs :: KeySeqs
  st_oneShotRepeatableDelay :: u32
  st_modTapActions :: "(u8 \<times> u16) list"
  st_virtualModTriggers :: "(u16 \<times> u8) list"

definition new_Setting :: Setting where
  "new_Setting = \<lparr>st_keyboard = new_Keyboard, st_keymaps = [], st_keySeqs = [],
     st_oneShotRepeatableDelay = 0, st_modTapActions = [], st_virtualModTriggers = []\<rparr>"

section \<open>Conditions of one modified key\<close>

definition require_on :: "nat \<Rightarrow> CompiledRule \<Rightarrow> CompiledRule" where
  "require_on i r = r\<lparr>requiredOn := set_state_bit i True (requiredOn r)\<rparr>"

definition require_off :: "nat \<Rightarrow> CompiledRule \<Rightarrow> CompiledRule" where
  "require_off i r = r\<lparr>requiredOff := set_state_bit i True (requiredOff r)\<rparr>"

text \<open>A generic modifier: pressed gives a pair to expand, released forbids both sides.\<close>

definition generic_step ::
    "Modifier \<Rightarrow> modifier_type \<times> nat \<times> nat \<Rightarrow> (nat \<times> nat) list \<times> CompiledRule \<Rightarrow>
       (nat \<times> nat) list \<times> CompiledRule" where
  "generic_step m = (\<lambda>(t, l, rr) (gs, r).
     if isPressed m t then (gs @ [(l, rr)], r)
     else if \<not> isDontcare m t then (gs, require_off rr (require_off l r))
     else (gs, r))"

definition specific_step :: "Modifier \<Rightarrow> modifier_type \<times> nat \<Rightarrow> CompiledRule \<Rightarrow> CompiledRule" where
  "specific_step m = (\<lambda>(t, i) r.
     if isPressed m t then require_on i r
     else if \<not> isDontcare m t then require_off i r
     else r)"

definition virtual_step :: "ModifiedKey \<Rightarrow> nat \<Rightarrow> CompiledRule \<Rightarrow> CompiledRule" where
  "virtual_step mk i r = (if isVirtualModActive mk (of_nat i) then require_on (VIRTUAL_OFFSET + i) r else r)"

definition generic_table :: "(modifier_type \<times> nat \<times> nat) list" where
  "generic_table = [(Type_Shift, std_index LSHIFT, std_index RSHIFT),
     (Type_Control, std_index LCTRL, std_index RCTRL),
     (Type_Alt, std_index LALT, std_index RALT),
     (Type_Windows, std_index LWIN, std_index RWIN)]"

definition specific_table :: "(modifier_type \<times> nat) list" where
  "specific_table = [(Type_CapsLock, std_index CAPSLOCK), (Type_NumLock, std_index NUMLOCK),
     (Type_ScrollLock, std_index SCROLLLOCK), (Type_Up, std_index STD_UP)]"

definition lock_table :: "(modifier_type \<times> nat) list" where
  "lock_table = map (\<lambda>i. (lock_types ! i, LOCK_OFFSET + i)) [0..<10]"

text \<open>"Expand Generic Modifiers": one rule for every choice of a side.\<close>

definition expand_generic :: "(nat \<times> nat) list \<Rightarrow> CompiledRule \<Rightarrow> CompiledRule list" where
  "expand_generic gs base =
     (if gs = [] then [base]
      else map (\<lambda>i. fold (\<lambda>j. require_on (if bit (i :: nat) j then snd (gs ! j) else fst (gs ! j)))
                         [0..<length gs] base)
               [0..<2 ^ length gs])"

text \<open>The part \<^verbatim>\<open>compileSubstitute\<close> and \<^verbatim>\<open>compileKeyAssignment\<close> have in common word for word.\<close>

definition compile_conditions :: "ModifiedKey \<Rightarrow> u16 \<Rightarrow> CompiledRule list" where
  "compile_conditions from out =
     (let m = mk_modifier from;
          (gs, r1) = fold (generic_step m) generic_table ([], \<lparr>requiredOn = 0, requiredOff = 0, outputScanCode = out\<rparr>);
          r2 = fold (specific_step m) specific_table r1;
          r3 = fold (virtual_step from) [0..<256] r2;
          r4 = fold (specific_step m) lock_table r3
      in expand_generic gs r4)"

text \<open>The output code: the first scan code of the target key, 0 without one.\<close>

definition output_code :: "Keyboard \<Rightarrow> ModifiedKey \<Rightarrow> u16" where
  "output_code kb to =
     (case mk_key to of
        None \<Rightarrow> 0
      | Some k \<Rightarrow> (case m_scanCodes (get_key kb k) of [] \<Rightarrow> 0 | c # _ \<Rightarrow> m_scan c))"

definition compileSubstitute :: "Keyboard \<Rightarrow> Substitute \<Rightarrow> CompiledRule list" where
  "compileSubstitute kb sub = compile_conditions (m_mkeyFrom sub) (output_code kb (m_mkeyTo sub))"

definition compileKeyAssignment :: "Keyboard \<Rightarrow> KeySeqs \<Rightarrow> KeyAssignment \<Rightarrow> CompiledRule list" where
  "compileKeyAssignment kb seqs a =
     (case sq_actions (seqs ! ka_keySeq a) of
        ActionKey to # _ \<Rightarrow> compile_conditions (ka_modifiedKey a) (output_code kb to)
      | _ \<Rightarrow> [])"

section \<open>What compiled rules mean\<close>

text \<open>The condition a modified key states on the modifier bits, without rules.\<close>

definition generic_holds :: "Modifier \<Rightarrow> state_bits \<Rightarrow> modifier_type \<times> nat \<times> nat \<Rightarrow> bool" where
  "generic_holds m st = (\<lambda>(t, l, r).
     if isPressed m t then bit st l \<or> bit st r
     else isDontcare m t \<or> (\<not> bit st l \<and> \<not> bit st r))"

definition specific_holds :: "Modifier \<Rightarrow> state_bits \<Rightarrow> modifier_type \<times> nat \<Rightarrow> bool" where
  "specific_holds m st = (\<lambda>(t, i).
     if isPressed m t then bit st i else isDontcare m t \<or> \<not> bit st i)"

definition from_holds :: "ModifiedKey \<Rightarrow> state_bits \<Rightarrow> bool" where
  "from_holds mk st \<longleftrightarrow>
     list_all (generic_holds (mk_modifier mk) st) generic_table \<and>
     list_all (specific_holds (mk_modifier mk) st) (specific_table @ lock_table) \<and>
     (\<forall>i<256. isVirtualModActive mk (of_nat i) \<longrightarrow> bit st (VIRTUAL_OFFSET + i))"

lemma matches_require_on: "i < 528 \<Longrightarrow> matches (require_on i r) st \<longleftrightarrow> matches r st \<and> bit st i"
  by (auto simp: matches_bits require_on_def bit_set_state_bit)

lemma matches_require_off: "i < 528 \<Longrightarrow> matches (require_off i r) st \<longleftrightarrow> matches r st \<and> \<not> bit st i"
  by (auto simp: matches_bits require_off_def bit_set_state_bit)

lemma outputs_require [simp]:
  "outputScanCode (require_on i r) = outputScanCode r"
  "outputScanCode (require_off i r) = outputScanCode r"
  by (simp_all add: require_on_def require_off_def)

lemma matches_specific:
  "\<forall>x\<in>set xs. snd x < 528 \<Longrightarrow>
     matches (fold (specific_step m) xs r) st \<longleftrightarrow> matches r st \<and> list_all (specific_holds m st) xs"
proof (induction xs arbitrary: r)
  case Nil
  then show ?case by simp
next
  case (Cons x xs)
  have "matches (specific_step m x r) st \<longleftrightarrow> matches r st \<and> specific_holds m st x"
    using Cons.prems
    by (cases x) (auto simp: specific_step_def specific_holds_def matches_require_on matches_require_off)
  with Cons show ?case by simp
qed

lemma output_specific: "outputScanCode (fold (specific_step m) xs r) = outputScanCode r"
  by (induction xs arbitrary: r) (auto simp: specific_step_def)

lemma matches_virtual:
  "\<forall>i\<in>set is. i < 256 \<Longrightarrow>
     matches (fold (virtual_step mk) is r) st \<longleftrightarrow>
       matches r st \<and> (\<forall>i\<in>set is. isVirtualModActive mk (of_nat i) \<longrightarrow> bit st (VIRTUAL_OFFSET + i))"
  by (induction "is" arbitrary: r) (auto simp: virtual_step_def matches_require_on)

lemma output_virtual: "outputScanCode (fold (virtual_step mk) is r) = outputScanCode r"
  by (induction "is" arbitrary: r) (auto simp: virtual_step_def)

lemma matches_generic:
  "\<forall>x\<in>set xs. fst (snd x) < 528 \<and> snd (snd x) < 528 \<Longrightarrow>
   fold (generic_step m) xs (gs, r) = (gs', r') \<Longrightarrow>
     outputScanCode r' = outputScanCode r \<and>
     (\<exists>hs. gs' = gs @ hs \<and>
       (matches r' st \<and> (\<forall>(a, b)\<in>set hs. bit st a \<or> bit st b) \<longleftrightarrow>
        matches r st \<and> list_all (generic_holds m st) xs) \<and>
       (\<forall>(a, b)\<in>set hs. a < 528 \<and> b < 528))"
proof (induction xs arbitrary: gs r)
  case Nil
  then show ?case by simp
next
  case (Cons x xs)
  obtain t a b where x: "x = (t, a, b)" by (cases x)
  obtain gs1 r1 where s: "generic_step m x (gs, r) = (gs1, r1)" by (metis surj_pair)
  have ab: "a < 528" "b < 528" using Cons.prems(1) x by auto
  have "fold (generic_step m) xs (gs1, r1) = (gs', r')" using Cons.prems(2) s by simp
  from Cons.IH [OF _ this] Cons.prems(1) obtain hs where
    o: "outputScanCode r' = outputScanCode r1" and hs: "gs' = gs1 @ hs"
      "matches r' st \<and> (\<forall>(a, b)\<in>set hs. bit st a \<or> bit st b) \<longleftrightarrow>
        matches r1 st \<and> list_all (generic_holds m st) xs"
      "\<forall>(a, b)\<in>set hs. a < 528 \<and> b < 528"
    by auto
  show ?case
  proof (cases "isPressed m t")
    case True
    then have e: "gs1 = gs @ [(a, b)]" "r1 = r" using s by (simp_all add: x generic_step_def)
    have "generic_holds m st x \<longleftrightarrow> bit st a \<or> bit st b" using True by (simp add: x generic_holds_def)
    with o hs ab e show ?thesis
      by (intro conjI exI [of _ "(a, b) # hs"]) auto
  next
    case False
    then have e: "gs1 = gs" "r1 = (if isDontcare m t then r else require_off b (require_off a r))"
      using s by (auto simp: x generic_step_def split: if_splits)
    have "generic_holds m st x \<longleftrightarrow> isDontcare m t \<or> \<not> bit st a \<and> \<not> bit st b"
      using False by (simp add: x generic_holds_def)
    then have "matches r1 st \<longleftrightarrow> matches r st \<and> generic_holds m st x"
      by (auto simp: e matches_require_off ab)
    moreover have "outputScanCode r1 = outputScanCode r" by (simp add: e)
    ultimately show ?thesis using o hs e(1)
      by (intro conjI exI [of _ hs]) auto
  qed
qed

text \<open>Some choice of sides matches when each pair has a side that is on.\<close>

lemma bits_exist: "\<exists>i<2 ^ n. \<forall>j<n. bit (i :: nat) j = P j"
proof (intro exI conjI allI impI)
  let ?i = "horner_sum of_bool 2 (map P [0..<n]) :: nat"
  show "?i < 2 ^ n" using horner_sum_of_bool_2_less [of "map P [0..<n]"] by simp
  fix j assume "j < n"
  then show "bit ?i j = P j" by (simp add: bit_horner_sum_bit_iff)
qed

lemma matches_sides:
  "\<forall>j\<in>set js. f j < 528 \<Longrightarrow>
     matches (fold (\<lambda>j. require_on (f j)) js r) st \<longleftrightarrow> matches r st \<and> (\<forall>j\<in>set js. bit st (f j))"
  by (induction js arbitrary: r) (auto simp: matches_require_on)

lemma output_sides: "outputScanCode (fold (\<lambda>j. require_on (f j)) js r) = outputScanCode r"
  by (induction js arbitrary: r) auto

lemma bex_map_upt: "(\<exists>r\<in>set (map f [0..<n]). P r) \<longleftrightarrow> (\<exists>i<n. P (f i))"
  by auto

lemma expand_generic_matches:
  assumes "\<forall>(a, b)\<in>set gs. a < 528 \<and> b < 528"
  shows "(\<exists>r\<in>set (expand_generic gs base). matches r st) \<longleftrightarrow>
     matches base st \<and> (\<forall>(a, b)\<in>set gs. bit st a \<or> bit st b)"
proof (cases "gs = []")
  case True
  then show ?thesis by (simp add: expand_generic_def)
next
  case False
  let ?n = "length gs"
  define side where "side i j = (if bit (i :: nat) j then snd (gs ! j) else fst (gs ! j))" for i j
  have lt: "side i j < 528" if "j < ?n" for i j
    using assms that nth_mem [OF that] by (cases "gs ! j") (auto simp: side_def)
  have one: "matches (fold (\<lambda>j. require_on (side i j)) [0..<?n] base) st \<longleftrightarrow>
      matches base st \<and> (\<forall>j<?n. bit st (side i j))" for i
    using matches_sides [of "[0..<?n]" "side i" base st] lt by auto
  have ex: "expand_generic gs base = map (\<lambda>i. fold (\<lambda>j. require_on (side i j)) [0..<?n] base) [0..<2 ^ ?n]"
    using False by (simp add: expand_generic_def side_def)
  have "(\<exists>r\<in>set (expand_generic gs base). matches r st) \<longleftrightarrow>
      (\<exists>i<2 ^ ?n. matches (fold (\<lambda>j. require_on (side i j)) [0..<?n] base) st)"
    by (simp only: ex bex_map_upt)
  also have "\<dots> \<longleftrightarrow> (\<exists>i<2 ^ ?n. matches base st \<and> (\<forall>j<?n. bit st (side i j)))"
    by (simp only: one)
  also have "\<dots> \<longleftrightarrow> matches base st \<and> (\<forall>j<?n. bit st (fst (gs ! j)) \<or> bit st (snd (gs ! j)))"
  proof
    assume "\<exists>i<2 ^ ?n. matches base st \<and> (\<forall>j<?n. bit st (side i j))"
    then show "matches base st \<and> (\<forall>j<?n. bit st (fst (gs ! j)) \<or> bit st (snd (gs ! j)))"
      by (auto simp: side_def split: if_splits)
  next
    assume ok: "matches base st \<and> (\<forall>j<?n. bit st (fst (gs ! j)) \<or> bit st (snd (gs ! j)))"
    obtain i :: nat where "i < 2 ^ ?n" "\<forall>j<?n. bit i j = (\<not> bit st (fst (gs ! j)))"
      using bits_exist [of ?n "\<lambda>j. \<not> bit st (fst (gs ! j))"] by blast
    with ok show "\<exists>i<2 ^ ?n. matches base st \<and> (\<forall>j<?n. bit st (side i j))"
      by (auto simp: side_def)
  qed
  also have "\<dots> \<longleftrightarrow> matches base st \<and> (\<forall>(a, b)\<in>set gs. bit st a \<or> bit st b)"
    by (fastforce simp: in_set_conv_nth split: prod.splits)
  finally show ?thesis .
qed

lemma expand_generic_output:
  "r \<in> set (expand_generic gs base) \<Longrightarrow> outputScanCode r = outputScanCode base"
  by (auto simp: expand_generic_def output_sides split: if_splits)

text \<open>The compiled rules of a key match exactly the states its condition describes.\<close>

lemma compile_conditions_matches:
  "(\<exists>r\<in>set (compile_conditions from out). matches r st) \<longleftrightarrow> from_holds from st"
  "r \<in> set (compile_conditions from out) \<Longrightarrow> outputScanCode r = out"
proof -
  let ?m = "mk_modifier from" and ?r0 = "\<lparr>requiredOn = 0, requiredOff = 0, outputScanCode = out\<rparr>"
  obtain gs r1 where g: "fold (generic_step ?m) generic_table ([], ?r0) = (gs, r1)" by (metis surj_pair)
  have gt: "\<forall>x\<in>set generic_table. fst (snd x) < 528 \<and> snd (snd x) < 528"
    by (simp add: generic_table_def)
  from matches_generic [OF gt g, of st] have
    o1: "outputScanCode r1 = out" and
    m1: "matches r1 st \<and> (\<forall>(a, b)\<in>set gs. bit st a \<or> bit st b) \<longleftrightarrow>
        matches ?r0 st \<and> list_all (generic_holds ?m st) generic_table" and
    lt: "\<forall>(a, b)\<in>set gs. a < 528 \<and> b < 528"
    by auto
  have r0: "matches ?r0 st" by (simp add: matches_bits)
  define r4 where "r4 = fold (specific_step ?m) lock_table
      (fold (virtual_step from) [0..<256] (fold (specific_step ?m) specific_table r1))"
  have cc: "compile_conditions from out = expand_generic gs r4"
    by (simp add: compile_conditions_def g r4_def Let_def)
  have st1: "\<forall>x\<in>set specific_table. snd x < 528" "\<forall>x\<in>set lock_table. snd x < 528"
    by (auto simp: specific_table_def lock_table_def)
  have m4: "matches r4 st \<longleftrightarrow> matches r1 st \<and> list_all (specific_holds ?m st) (specific_table @ lock_table) \<and>
      (\<forall>i<256. isVirtualModActive from (of_nat i) \<longrightarrow> bit st (VIRTUAL_OFFSET + i))"
    by (auto simp: r4_def matches_specific [OF st1(1)] matches_specific [OF st1(2)] matches_virtual)
  show "(\<exists>r\<in>set (compile_conditions from out). matches r st) \<longleftrightarrow> from_holds from st"
    unfolding cc expand_generic_matches [OF lt] m4 from_holds_def using m1 r0 by blast
  show "r \<in> set (compile_conditions from out) \<Longrightarrow> outputScanCode r = out"
    unfolding cc using expand_generic_output [of r gs r4] o1
    by (simp add: r4_def output_specific output_virtual)
qed

section \<open>Building the processor\<close>

text \<open>The scan code a mapping is filed under; None is the \<^verbatim>\<open>continue\<close> of a key without one.\<close>

definition input_code :: "Keyboard \<Rightarrow> keyref option \<Rightarrow> u16 option" where
  "input_code kb k =
     (case k of
        None \<Rightarrow> None
      | Some r \<Rightarrow> (case m_scanCodes (get_key kb r) of [] \<Rightarrow> None | c # _ \<Rightarrow> Some (m_scan c)))"

definition add_substitute :: "Keyboard \<Rightarrow> Substitute \<Rightarrow> RuleLookupTable \<Rightarrow> RuleLookupTable" where
  "add_substitute kb sub t =
     (case input_code kb (mk_key (m_mkeyFrom sub)) of
        None \<Rightarrow> t
      | Some c \<Rightarrow> fold (addRule c) (compileSubstitute kb sub) t)"

definition add_assignment :: "Keyboard \<Rightarrow> KeySeqs \<Rightarrow> KeyAssignment \<Rightarrow> RuleLookupTable \<Rightarrow> RuleLookupTable" where
  "add_assignment kb seqs a t =
     (case input_code kb (mk_key (ka_modifiedKey a)) of
        None \<Rightarrow> t
      | Some c \<Rightarrow> fold (addRule c) (compileKeyAssignment kb seqs a) t)"

definition build_table :: "Keyboard \<Rightarrow> KeySeqs \<Rightarrow> Keymap option \<Rightarrow> RuleLookupTable \<Rightarrow> RuleLookupTable" where
  "build_table kb seqs globalKeymap t =
     (let t1 = fold (add_substitute kb) (m_substitutes kb) (table_clear t)
      in case globalKeymap of
           None \<Rightarrow> t1
         | Some km \<Rightarrow> fold (add_assignment kb seqs) (forEachAssignment km) t1)"

definition register_number ::
    "(evkey \<Rightarrow> u16) \<Rightarrow> string \<Rightarrow> Keyboard \<Rightarrow> NumberModifier \<Rightarrow> EventProcessor \<Rightarrow> EventProcessor" where
  "register_number ev layout kb nm ep =
     (case (input_code kb (Some (m_numberKey nm)), input_code kb (Some (m_modifierKey nm))) of
        (Some n, Some m) \<Rightarrow> registerNumberModifier ev layout n m ep
      | _ \<Rightarrow> ep)"

definition tap_output_of :: "Setting \<Rightarrow> u8 \<Rightarrow> u16" where
  "tap_output_of st m = (case map_of (st_modTapActions st) m of Some c \<Rightarrow> c | None \<Rightarrow> 0)"

text \<open>
  The processor \<^verbatim>\<open>buildSubstitutionTable\<close> makes: its table from the substitutes and the global
  keymap, then the number modifiers, then the triggers of the current setting.
\<close>

definition build_processor ::
    "(evkey \<Rightarrow> u16) \<Rightarrow> string \<Rightarrow> Keyboard \<Rightarrow> Setting option \<Rightarrow> KeySeqs \<Rightarrow> Keymap option \<Rightarrow> EventProcessor" where
  "build_processor ev layout kb setting seqs globalKeymap =
     (let ep1 = new_EventProcessor
            \<lparr>m_lookupTable := build_table kb seqs globalKeymap (m_lookupTable new_EventProcessor)\<rparr>;
          ep2 = fold (register_number ev layout kb) (m_numberModifiers kb) ep1
      in case setting of
           None \<Rightarrow> ep2
         | Some st \<Rightarrow> fold (\<lambda>(trigger, m). registerVirtualModifierTrigger trigger m (tap_output_of st m))
                          (st_virtualModTriggers st) ep2)"

section \<open>The table implements the list of mappings\<close>

text \<open>A configuration as the user reads it: what each mapping maps, in order.\<close>

record mapping_entry =
  me_code :: u16
  me_from :: ModifiedKey
  me_out :: u16

definition substitute_mapping :: "Keyboard \<Rightarrow> Substitute \<Rightarrow> mapping_entry list" where
  "substitute_mapping kb sub =
     (case input_code kb (mk_key (m_mkeyFrom sub)) of
        None \<Rightarrow> []
      | Some c \<Rightarrow> [\<lparr>me_code = c, me_from = m_mkeyFrom sub, me_out = output_code kb (m_mkeyTo sub)\<rparr>])"

definition assignment_mapping :: "Keyboard \<Rightarrow> KeySeqs \<Rightarrow> KeyAssignment \<Rightarrow> mapping_entry list" where
  "assignment_mapping kb seqs a =
     (case (input_code kb (mk_key (ka_modifiedKey a)), sq_actions (seqs ! ka_keySeq a)) of
        (Some c, ActionKey to # _) \<Rightarrow>
          [\<lparr>me_code = c, me_from = ka_modifiedKey a, me_out = output_code kb to\<rparr>]
      | _ \<Rightarrow> [])"

definition mappings_of :: "Keyboard \<Rightarrow> KeySeqs \<Rightarrow> Keymap option \<Rightarrow> mapping_entry list" where
  "mappings_of kb seqs g =
     concat (map (substitute_mapping kb) (m_substitutes kb)) @
     (case g of None \<Rightarrow> [] | Some km \<Rightarrow> concat (map (assignment_mapping kb seqs) (forEachAssignment km)))"

definition rules_of_mapping :: "mapping_entry \<Rightarrow> (u16 \<times> CompiledRule) list" where
  "rules_of_mapping e = map (Pair (me_code e)) (compile_conditions (me_from e) (me_out e))"

lemma fold_addRule:
  "fold (addRule c) rs t = fold (\<lambda>(c, r). addRule c r) (map (Pair c) rs) t"
  by (induction rs arbitrary: t) auto

lemma fold_concat_map: "fold f (concat (map g xs)) t = fold (\<lambda>x. fold f (g x)) xs t"
  by (induction xs arbitrary: t) auto

lemma add_substitute_mapping:
  "add_substitute kb sub t =
     fold (\<lambda>(c, r). addRule c r) (concat (map rules_of_mapping (substitute_mapping kb sub))) t"
  by (simp add: add_substitute_def substitute_mapping_def rules_of_mapping_def compileSubstitute_def
      fold_addRule split: option.split)

lemma add_assignment_mapping:
  "add_assignment kb seqs a t =
     fold (\<lambda>(c, r). addRule c r) (concat (map rules_of_mapping (assignment_mapping kb seqs a))) t"
  by (simp add: add_assignment_def assignment_mapping_def rules_of_mapping_def compileKeyAssignment_def
      fold_addRule split: option.split list.split Action.split)

lemma fold_rules_concat:
  "fold (\<lambda>x. fold f (concat (map h (g x)))) xs t = fold f (concat (map h (concat (map g xs)))) t"
  by (induction xs arbitrary: t) auto

lemma build_table_rules:
  "build_table kb seqs g t =
     fold (\<lambda>(c, r). addRule c r) (concat (map rules_of_mapping (mappings_of kb seqs g))) (table_clear t)"
proof -
  have s: "add_substitute kb = (\<lambda>sub. fold (\<lambda>(c, r). addRule c r)
      (concat (map rules_of_mapping (substitute_mapping kb sub))))"
    by (rule ext)+ (rule add_substitute_mapping)
  have a: "add_assignment kb seqs = (\<lambda>sub. fold (\<lambda>(c, r). addRule c r)
      (concat (map rules_of_mapping (assignment_mapping kb seqs sub))))"
    by (rule ext)+ (rule add_assignment_mapping)
  show ?thesis
    by (cases g) (simp_all only: build_table_def mappings_of_def Let_def s a fold_rules_concat
        option.case map_append concat_append fold_append o_apply append_Nil2)
qed

lemma find_concat_map:
  "find P (concat (map g xs)) = (case find (\<lambda>x. \<exists>y\<in>set (g x). P y) xs of
     None \<Rightarrow> None | Some x \<Rightarrow> find P (g x))"
proof (induction xs)
  case Nil
  then show ?case by simp
next
  case (Cons x xs)
  show ?case
  proof (cases "find P (g x)")
    case None
    then have "\<not> (\<exists>y\<in>set (g x). P y)" by (simp add: find_eq_None)
    with None Cons show ?thesis by (simp add: find_append_ex)
  next
    case (Some y)
    then have "\<exists>y\<in>set (g x). P y" by (metis find_eq_Some_mem)
    with Some show ?thesis by (simp add: find_append_ex)
  qed
qed

lemma build_table_find:
  "map_option outputScanCode (findMatch (build_table kb seqs g t) k st) =
     map_option me_out (find (\<lambda>e. me_code e = k \<and> from_holds (me_from e) st) (mappings_of kb seqs g))"
proof -
  let ?ms = "mappings_of kb seqs g" and ?P = "\<lambda>(c, r). c = k \<and> matches r st"
  have ex: "(\<exists>y\<in>set (rules_of_mapping e). ?P y) \<longleftrightarrow> me_code e = k \<and> from_holds (me_from e) st" for e
    unfolding rules_of_mapping_def compile_conditions_matches(1) [of "me_from e" "me_out e" st, symmetric]
    by auto
  have "findMatch (build_table kb seqs g t) k st =
      map_option snd (find ?P (concat (map rules_of_mapping ?ms)))"
    unfolding build_table_rules by (rule lt.find_after_rebuild)
  also have "\<dots> = map_option snd (case find (\<lambda>e. me_code e = k \<and> from_holds (me_from e) st) ?ms of
      None \<Rightarrow> None | Some e \<Rightarrow> find ?P (rules_of_mapping e))"
    unfolding find_concat_map ex ..
  finally have f: "findMatch (build_table kb seqs g t) k st =
      map_option snd (case find (\<lambda>e. me_code e = k \<and> from_holds (me_from e) st) ?ms of
        None \<Rightarrow> None | Some e \<Rightarrow> find ?P (rules_of_mapping e))" .
  show ?thesis
  proof (cases "find (\<lambda>e. me_code e = k \<and> from_holds (me_from e) st) ?ms")
    case None
    then show ?thesis by (simp add: f)
  next
    case (Some e)
    then have "\<exists>y\<in>set (rules_of_mapping e). ?P y" unfolding ex by (rule find_eq_Some_mem [THEN conjunct2])
    then obtain y where y: "find ?P (rules_of_mapping e) = Some y"
      by (metis (no_types, lifting) find_eq_None not_None_eq)
    then have "y \<in> set (rules_of_mapping e)" using find_eq_Some_mem by metis
    then have "outputScanCode (snd y) = me_out e"
      by (auto simp: rules_of_mapping_def compile_conditions_matches(2))
    with Some y show ?thesis by (simp add: f)
  qed
qed

text \<open>C7: The compiled rule table implements the configuration. For every key code and every
  modifier state, the output the table gives after a rebuild is that of the first mapping
  (substitutes newest first, then the assignments of the global keymap) that is for this code and
  whose condition holds: each required generic modifier is down on one of its sides, forbidden ones
  are up on both, standard and numbered locks are as written, and every required virtual modifier
  is on. Without such a mapping the table gives nothing.\<close>

theorem rule_table_implements_mappings:
  "map_option outputScanCode (findMatch (build_table kb seqs g t) k st) =
     map_option me_out (find (\<lambda>e. me_code e = k \<and> from_holds (me_from e) st) (mappings_of kb seqs g))"
  by (rule build_table_find)

section \<open>The virtual keymap\<close>

text \<open>
  \<^verbatim>\<open>m_virtualKeymap\<close>: entries with two masks of 256 bits each, kept as eight 32-bit words.
\<close>

record KeymapEntry =
  required_mods :: "u32 list"
  required_locks :: "u32 list"
  input_key :: u16
  output_key :: u16
  specificity :: u8

definition popcount32 :: "u32 \<Rightarrow> nat" where
  "popcount32 w = length (filter (bit w) [0..<32])"

text \<open>The running total is a \<^verbatim>\<open>uint8_t\<close>.\<close>

definition popcount_array :: "u32 list \<Rightarrow> u8" where
  "popcount_array bits = foldl (\<lambda>total w. total + of_nat (popcount32 w)) 0 bits"

definition addKeymapEntry ::
    "u16 \<Rightarrow> u16 \<Rightarrow> u32 list \<Rightarrow> u32 list \<Rightarrow> KeymapEntry list \<Rightarrow> KeymapEntry list" where
  "addKeymapEntry i out mods locks km =
     km @ [\<lparr>required_mods = mods, required_locks = locks, input_key = i, output_key = out,
            specificity = popcount_array mods + popcount_array locks\<rparr>]"

text \<open>\<^verbatim>\<open>std::sort\<close> by descending specificity leaves some ordered rearrangement.\<close>

definition sorted_by_specificity :: "KeymapEntry list \<Rightarrow> KeymapEntry list \<Rightarrow> bool" where
  "sorted_by_specificity km km' \<longleftrightarrow>
     mset km' = mset km \<and> sorted_wrt (\<lambda>a b. \<not> specificity a < specificity b) km'"

definition mask_bit :: "u32 list \<Rightarrow> nat \<Rightarrow> bool" where
  "mask_bit m i = bit (m ! (i div 32)) (i mod 32)"

definition entry_holds :: "KeymapEntry \<Rightarrow> state_bits \<Rightarrow> bool" where
  "entry_holds e st \<longleftrightarrow>
     (\<forall>i\<in>set [0..<256]. mask_bit (required_mods e) i \<longrightarrow> bit st (VIRTUAL_OFFSET + i)) \<and>
     (\<forall>i\<in>set [0..<256]. mask_bit (required_locks e) i \<longrightarrow> bit st (LOCK_OFFSET + i))"

definition lookupKeymap :: "u16 \<Rightarrow> ModifierState \<Rightarrow> KeymapEntry list \<Rightarrow> u16" where
  "lookupKeymap key mods km =
     (case find (\<lambda>e. input_key e = key \<and> entry_holds e (ms_state mods)) km of
        Some e \<Rightarrow> output_key e
      | None \<Rightarrow> 0)"

lemma popcount_array_nat: "popcount_array ws = of_nat (sum_list (map popcount32 ws))"
proof -
  have "foldl (\<lambda>total w. total + of_nat (popcount32 w)) (t :: u8) ws = t + of_nat (sum_list (map popcount32 ws))" for t
    by (induction ws arbitrary: t) (simp_all add: add.assoc)
  then show ?thesis by (simp add: popcount_array_def)
qed

text \<open>The conditions an entry states, as numbers, when they stay below 256.\<close>

definition conditions_of :: "KeymapEntry \<Rightarrow> nat" where
  "conditions_of e = sum_list (map popcount32 (required_mods e)) + sum_list (map popcount32 (required_locks e))"

definition entry_of :: "u16 \<times> u16 \<times> u32 list \<times> u32 list \<Rightarrow> KeymapEntry list \<Rightarrow> KeymapEntry list" where
  "entry_of = (\<lambda>(i, out, mods, locks). addKeymapEntry i out mods locks)"

lemma specificity_nat:
  assumes "e \<in> set (fold entry_of xs [])" "conditions_of e < 256"
  shows "unat (specificity e) = conditions_of e"
proof -
  have "e \<in> set (fold entry_of xs km) \<Longrightarrow>
      specificity e = of_nat (conditions_of e) \<or> e \<in> set km" for km
    by (induction xs arbitrary: km)
       (fastforce simp: entry_of_def addKeymapEntry_def conditions_of_def popcount_array_nat)+
  from this [of "[]"] assms(1) have "specificity e = of_nat (conditions_of e)" by simp
  with assms(2) show ?thesis by (simp add: unat_of_nat)
qed

lemma find_sorted:
  assumes "sorted_wrt R xs" "find P xs = Some x" "y \<in> set xs" "P y" "R x x"
  shows "R x y"
  using assms by (induction xs) (auto split: if_splits)

text \<open>The lookup in the virtual keymap picks a most specific entry. After any entries were
  added and the list was sorted (whatever order the sort leaves equal entries in), a lookup returns
  the output of an entry for the key whose required modifiers and locks are all on, and no other such
  entry has more required bits; it returns 0 when there is no such entry. The entries must require
  fewer than 256 bits in all.\<close>

theorem lookup_picks_most_specific:
  assumes "sorted_by_specificity (fold entry_of xs []) km"
    and "\<forall>e\<in>set km. conditions_of e < 256"
  shows "(\<exists>e\<in>set km. input_key e = key \<and> entry_holds e (ms_state mods) \<and>
            lookupKeymap key mods km = output_key e \<and>
            (\<forall>e'\<in>set km. input_key e' = key \<and> entry_holds e' (ms_state mods) \<longrightarrow>
               conditions_of e' \<le> conditions_of e)) \<or>
         (\<forall>e\<in>set km. \<not> (input_key e = key \<and> entry_holds e (ms_state mods))) \<and>
         lookupKeymap key mods km = 0"
proof (cases "find (\<lambda>e. input_key e = key \<and> entry_holds e (ms_state mods)) km")
  case None
  then have "lookupKeymap key mods km = 0" by (simp add: lookupKeymap_def)
  with None show ?thesis unfolding find_eq_None by blast
next
  case (Some e)
  note e = find_eq_Some_mem [OF Some]
  have sp: "unat (specificity x) = conditions_of x" if "x \<in> set km" for x
    using assms that mset_eq_setD specificity_nat [of x xs]
    by (metis sorted_by_specificity_def)
  have "conditions_of e' \<le> conditions_of e"
    if e': "e' \<in> set km" "input_key e' = key \<and> entry_holds e' (ms_state mods)" for e'
  proof -
    have "\<not> specificity e < specificity e'"
      using find_sorted [of "\<lambda>a b. \<not> specificity a < specificity b", OF _ Some e'] assms(1)
      by (simp add: sorted_by_specificity_def)
    then show ?thesis using sp e e'(1) by (simp add: word_less_nat_alt)
  qed
  with e Some show ?thesis by (auto simp: lookupKeymap_def)
qed

text \<open>Two entries for one key: plain, and with M01; both sort orders agree here.\<close>

definition ex_entries :: "(u16 \<times> u16 \<times> u32 list \<times> u32 list) list" where
  "ex_entries = [(0x1E, 0x30, replicate 8 0, replicate 8 0), (0x1E, 0x2E, 2 # replicate 7 0, replicate 8 0)]"

theorem lookup_picks_most_specific_witness:
  "lookupKeymap 0x1E (activateModifier 1 new_ModifierState) (rev (fold entry_of ex_entries [])) = 0x2E"
proof -
  let ?km = "rev (fold entry_of ex_entries [])"
  have pc: "popcount32 0 = 0" "popcount32 2 = 1" by (simp_all add: popcount32_def upt_rec numeral_eq_Suc)
  have es: "?km = [\<lparr>required_mods = 2 # replicate 7 0, required_locks = replicate 8 0, input_key = 0x1E,
        output_key = 0x2E, specificity = 1\<rparr>,
      \<lparr>required_mods = replicate 8 0, required_locks = replicate 8 0, input_key = 0x1E,
        output_key = 0x30, specificity = 0\<rparr>]" (is "_ = [?a, ?b]")
    by (simp add: ex_entries_def entry_of_def addKeymapEntry_def popcount_array_nat sum_list_replicate pc)
  have cond: "conditions_of ?a = 1" "conditions_of ?b = 0"
    by (simp_all add: conditions_of_def pc sum_list_replicate)
  have st: "sorted_by_specificity (fold entry_of ex_entries []) ?km"
    unfolding sorted_by_specificity_def es by (subst es [symmetric]) (simp)
  have "mask_bit (2 # replicate 7 0) i \<Longrightarrow> i = 1" "\<not> mask_bit (replicate 8 0) i" if "i < 256" for i
    using that by (auto simp: mask_bit_def bit_simps nth_Cons' split: if_splits)
  then have a: "entry_holds ?a (ms_state (activateModifier 1 new_ModifierState))"
    by (auto simp: entry_holds_def activateModifier_def bit_set_state_bit VIRTUAL_OFFSET_def)
  from lookup_picks_most_specific [OF st, of "0x1E" "activateModifier 1 new_ModifierState"]
  show ?thesis unfolding es using a cond by auto
qed

end
