(* ===== verification/Engine_State.thy ===== *)
theory Engine_State
  imports Rule_Compiler
begin

text \<open>
  The state of class \<^verbatim>\<open>Engine\<close> (src/core/engine/engine.h) and its operations that do not run
  key sequences: injecting and generating key events, modifiers, the current keymap, and
  changing the configuration (engine_generator.cpp, engine_input.cpp, engine_modifier.cpp,
  engine_lifecycle.cpp, engine_setting.cpp). Logging, GUI notifications and the kill-line buffer
  are output only and left out.
\<close>

unbundle bit_operations_syntax

section \<open>Runs that may fail\<close>

text \<open>
  \<open>Undefined\<close> is undefined behaviour (a null, dangling or out-of-range access),
  \<open>Contract_violation\<close> a failed \<^verbatim>\<open>Expects\<close> or \<^verbatim>\<open>Ensures\<close>, which ends the program, and
  \<open>Out_of_fuel\<close> a run cut off by the bound on nested calls.
\<close>

datatype failure = Undefined | Contract_violation | Out_of_fuel

type_synonym 'a run = "failure + 'a"

definition run_bind :: "'a run \<Rightarrow> ('a \<Rightarrow> 'b run) \<Rightarrow> 'b run" where
  "run_bind m f = (case m of Inl x \<Rightarrow> Inl x | Inr a \<Rightarrow> f a)"

lemma run_bind_simps [simp]: "run_bind (Inl x) f = Inl x" "run_bind (Inr a) f = f a"
  by (simp_all add: run_bind_def)

lemma run_bind_Inr: "run_bind m f = Inr b \<longleftrightarrow> (\<exists>a. m = Inr a \<and> f a = Inr b)"
  by (cases m) auto

lemma run_bind_Inl: "run_bind m f = Inl x \<longleftrightarrow> m = Inl x \<or> (\<exists>a. m = Inr a \<and> f a = Inl x)"
  by (cases m) auto

primrec run_fold :: "('x \<Rightarrow> 's \<Rightarrow> 's run) \<Rightarrow> 'x list \<Rightarrow> 's \<Rightarrow> 's run" where
  "run_fold f [] s = Inr s"
| "run_fold f (x # xs) s = run_bind (f x s) (run_fold f xs)"

definition deref :: "'a option \<Rightarrow> 'a run" where
  "deref p = (case p of None \<Rightarrow> Inl Undefined | Some x \<Rightarrow> Inr x)"

lemma deref_simps [simp]: "deref None = Inl Undefined" "deref (Some x) = Inr x"
  by (simp_all add: deref_def)

lemma deref_Inr: "deref p = Inr x \<longleftrightarrow> p = Some x"
  by (cases p) auto

lemma run_fold_append:
  "run_fold f (xs @ ys) s = run_bind (run_fold f xs s) (run_fold f ys)"
proof (induction xs arbitrary: s)
  case (Cons x xs)
  then show ?case by (cases "f x s") simp_all
qed simp

text \<open>An invariant of every step is an invariant of the whole fold.\<close>

lemma run_fold_invariant:
  assumes "\<And>x s s'. x \<in> set xs \<Longrightarrow> P s \<Longrightarrow> f x s = Inr s' \<Longrightarrow> P s'"
    and "P s" "run_fold f xs s = Inr s'"
  shows "P s'"
  using assms
proof (induction xs arbitrary: s)
  case (Cons x xs)
  from Cons.prems(3) obtain s1 where s1: "f x s = Inr s1" "run_fold f xs s1 = Inr s'"
    by (auto simp: run_bind_Inr)
  have "P s1" using Cons.prems(1) [of x s s1] Cons.prems(2) s1(1) by simp
  show ?case by (rule Cons.IH [OF _ \<open>P s1\<close> s1(2)]) (use Cons.prems(1) in auto)
qed simp

section \<open>State\<close>

datatype MouseButton = MB_Left | MB_Right | MB_Middle | MB_X1 | MB_X2

text \<open>What the engine asks of the input injector, in the order of the calls.\<close>

datatype InjectorCall =
    Inject KEYBOARD_INPUT_DATA
  | InjectMouseButton MouseButton bool
  | InjectMouseWheel int

text \<open>
  The setting the engine points to may have been deleted (\<open>en_settingDeleted\<close>); then using it
  is undefined. The two key press counters are \<^verbatim>\<open>int\<close>s far from their bounds; \<^verbatim>\<open>m_variable\<close>
  is user-controlled arithmetic, where overflow is undefined.
\<close>

record Engine =
  en_setting :: "Setting option"
  en_settingDeleted :: bool
  en_currentConfigPath :: string
  en_isLogMode :: bool
  en_isEnabled :: bool
  en_isSynchronizing :: bool
  en_recursionGuard :: int
  en_currentLock :: Modifier
  en_currentKeyPressCount :: int
  en_currentKeyPressCountOnWin32 :: int
  en_lastGeneratedKey :: "keyref option"
  en_lastPressedKey :: "keyref option \<times> keyref option"
  en_oneShotKey :: ModifiedKey
  en_oneShotRepeatableRepeatCount :: u32
  en_isPrefix :: bool
  en_doesIgnoreModifierForPrefix :: bool
  en_doesEditNextModifier :: bool
  en_modifierForNextKey :: Modifier
  en_currentKeymap :: "kmref option"
  en_globalKeymap :: "kmref option"
  en_keymapPrefixHistory :: "kmref option list"
  en_variable :: int
  en_eventProcessor :: "EventProcessor option"
  en_modifierState :: ModifierState
  en_injected :: "InjectorCall list"

definition MAX_GENERATE_KEYBOARD_EVENTS_RECURSION_COUNT :: int where
  "MAX_GENERATE_KEYBOARD_EVENTS_RECURSION_COUNT = 64"

definition MAX_KEYMAP_PREFIX_HISTORY :: nat where "MAX_KEYMAP_PREFIX_HISTORY = 64"

text \<open>The constructor; members the initialiser list leaves out are passed in.\<close>

definition new_Engine :: "bool \<Rightarrow> bool \<Rightarrow> Engine" where
  "new_Engine ign ed =
     \<lparr>en_setting = None, en_settingDeleted = False, en_currentConfigPath = [], en_isLogMode = False,
      en_isEnabled = True, en_isSynchronizing = False, en_recursionGuard = 0,
      en_currentLock = fold release lock_types (fold dontcare all_types new_Modifier),
      en_currentKeyPressCount = 0, en_currentKeyPressCountOnWin32 = 0, en_lastGeneratedKey = None,
      en_lastPressedKey = (None, None), en_oneShotKey = new_ModifiedKey,
      en_oneShotRepeatableRepeatCount = 0, en_isPrefix = False, en_doesIgnoreModifierForPrefix = ign,
      en_doesEditNextModifier = ed, en_modifierForNextKey = new_Modifier, en_currentKeymap = None,
      en_globalKeymap = None, en_keymapPrefixHistory = [], en_variable = 0, en_eventProcessor = None,
      en_modifierState = new_ModifierState, en_injected = []\<rparr>"

definition setting_of :: "Engine \<Rightarrow> Setting run" where
  "setting_of e = (if en_settingDeleted e then Inl Undefined else deref (en_setting e))"

definition on_keyboard :: "(Keyboard \<Rightarrow> Keyboard) \<Rightarrow> Engine \<Rightarrow> Engine" where
  "on_keyboard f e =
     e\<lparr>en_setting := map_option (\<lambda>st. st\<lparr>st_keyboard := f (st_keyboard st)\<rparr>) (en_setting e)\<rparr>"

definition update_key :: "keyref \<Rightarrow> (Key \<Rightarrow> Key) \<Rightarrow> Keyboard \<Rightarrow> Keyboard" where
  "update_key r f kb =
     (case r of
        KeyAt i \<Rightarrow> kb\<lparr>kb_store := (kb_store kb)[i := f (kb_store kb ! i)]\<rparr>
      | SyncKey \<Rightarrow> kb\<lparr>m_syncKey := f (m_syncKey kb)\<rparr>
      | EventKey _ \<Rightarrow> kb)"

text \<open>The keys the loop over \<^verbatim>\<open>getKeyIterator\<close> visits.\<close>

definition all_keys :: "Keyboard \<Rightarrow> keyref list" where
  "all_keys kb = map KeyAt (ki_visit (length (concat (m_hashedKeys kb))) (getKeyIterator kb))"

text \<open>A keymap pointer into the setting's keymaps.\<close>

definition keymap_at :: "Setting \<Rightarrow> kmref option \<Rightarrow> Keymap run" where
  "keymap_at st r =
     (case r of
        None \<Rightarrow> Inl Undefined
      | Some i \<Rightarrow> if i < length (st_keymaps st) then Inr (st_keymaps st ! i) else Inl Undefined)"

section \<open>Injecting\<close>

definition MOUSE_EVENT_MARKER :: u64 where "MOUSE_EVENT_MARKER = 0x59414D59"

definition injector_calls :: "KEYBOARD_INPUT_DATA \<Rightarrow> InjectorCall list" where
  "injector_calls kid =
     (if ExtraInformation kid = MOUSE_EVENT_MARKER then
        (let down = (Flags kid AND KID_BREAK = 0); c = MakeCode kid in
         if c = 1 then [InjectMouseButton MB_Left down]
         else if c = 2 then [InjectMouseButton MB_Right down]
         else if c = 3 then [InjectMouseButton MB_Middle down]
         else if c = 4 then (if \<not> down then [InjectMouseWheel 120] else [])
         else if c = 5 then (if \<not> down then [InjectMouseWheel (-120)] else [])
         else if c = 6 then [InjectMouseButton MB_X1 down]
         else if c = 7 then [InjectMouseButton MB_X2 down]
         else if c = 8 then (if \<not> down then [InjectMouseWheel 120] else [])
         else if c = 9 then (if \<not> down then [InjectMouseWheel (-120)] else [])
         else if c = 10 then (if \<not> down then [InjectMouseWheel (sint (ucast (ExtraInformation kid) :: u32))] else [])
         else [])
      else [Inject kid])"

definition injectInput :: "KEYBOARD_INPUT_DATA \<Rightarrow> Engine \<Rightarrow> Engine" where
  "injectInput kid e = e\<lparr>en_injected := en_injected e @ injector_calls kid\<rparr>"

text \<open>The data \<^verbatim>\<open>generateKeyEvent\<close> injects for one scan code.\<close>

definition kid_of :: "ScanCode \<Rightarrow> bool \<Rightarrow> KEYBOARD_INPUT_DATA" where
  "kid_of sc doPress =
     \<lparr>UnitId = 0, MakeCode = m_scan sc,
      Flags = (if doPress then m_flags sc else m_flags sc OR KID_BREAK), Reserved = 0,
      ExtraInformation = 0\<rparr>"

section \<open>Generating key events\<close>

definition generateKeyEvent :: "keyref \<Rightarrow> bool \<Rightarrow> bool \<Rightarrow> Engine \<Rightarrow> Engine run" where
  "generateKeyEvent k doPress byAssign e =
     (if k \<in> set Event_events then Inr e
      else run_bind (setting_of e) (\<lambda>st.
        let key = get_key (st_keyboard st) k;
            on = m_isPressedOnWin32 key;
            isAlreadyReleased = (\<not> doPress \<and> \<not> on);
            delta = (if doPress \<and> \<not> on then 1 else if \<not> doPress \<and> on then -1 else 0);
            e1 = e\<lparr>en_currentKeyPressCountOnWin32 := en_currentKeyPressCountOnWin32 e + delta\<rparr>;
            e2 = on_keyboard (update_key k (\<lambda>q. q\<lparr>m_isPressedOnWin32 := doPress,
                   m_isPressedByAssign := (if byAssign then doPress else m_isPressedByAssign q)\<rparr>)) e1
        in if \<not> isAlreadyReleased \<or> k = SyncKey
           then Inr ((fold (\<lambda>sc. injectInput (kid_of sc doPress)) (m_scanCodes key) e2)
                       \<lparr>en_lastGeneratedKey := (if doPress then Some k else None)\<rparr>)
           else Inr e2))"

definition press_if_assigned :: "keyref \<Rightarrow> Engine \<Rightarrow> Engine run" where
  "press_if_assigned k e =
     run_bind (setting_of e) (\<lambda>st.
       if m_isPressedByAssign (get_key (st_keyboard st) k) then generateKeyEvent k True False e
       else Inr e)"

definition press_modifier :: "keyref list \<Rightarrow> Engine \<Rightarrow> Engine run" where
  "press_modifier mods e =
     run_bind (setting_of e) (\<lambda>st.
       let kb = st_keyboard st in
       if list_ex (\<lambda>k. m_isPressedOnWin32 (get_key kb k)) mods then Inr e
       else if \<not> list_ex (\<lambda>k. m_isPressedByAssign (get_key kb k)) mods then
         (case mods of [] \<Rightarrow> Inl Undefined | k # _ \<Rightarrow> generateKeyEvent k True False e)
       else run_fold press_if_assigned mods e)"

text \<open>"avoid such sequences as Alt U-Alt": tap Shift, or Control without a Shift key.\<close>

definition tap_other_modifier :: "keyref list \<Rightarrow> Engine \<Rightarrow> Engine run" where
  "tap_other_modifier mods e =
     (if \<exists>k\<in>set mods. en_lastGeneratedKey e = Some k
      then run_bind (setting_of e) (\<lambda>st.
        let sh = m_mods (st_keyboard st) Type_Shift;
            ms = (if sh = [] then m_mods (st_keyboard st) Type_Control else sh)
        in case ms of
             [] \<Rightarrow> Inr e
           | k # _ \<Rightarrow> run_bind (generateKeyEvent k True False e) (generateKeyEvent k False False))
      else Inr e)"

text \<open>The body of the releasing loops; the flag is \<^verbatim>\<open>i_isByAssign\<close>.\<close>

definition release_if_pressed :: "bool \<Rightarrow> keyref \<Rightarrow> Engine \<Rightarrow> Engine run" where
  "release_if_pressed byAssign k e =
     run_bind (setting_of e) (\<lambda>st.
       if m_isPressedOnWin32 (get_key (st_keyboard st) k) then generateKeyEvent k False byAssign e
       else Inr e)"

definition modifier_step :: "Modifier \<Rightarrow> modifier_type \<Rightarrow> Engine \<Rightarrow> Engine run" where
  "modifier_step m t e =
     run_bind (setting_of e) (\<lambda>st.
       let mods = m_mods (st_keyboard st) t in
       if isDontcare m t then Inr e
       else if isPressed m t then press_modifier mods e
       else run_bind (if t = Type_Alt \<or> t = Type_Windows then tap_other_modifier mods e else Inr e)
              (run_fold (release_if_pressed False) mods))"

definition generateModifierEvents :: "Modifier \<Rightarrow> Engine \<Rightarrow> Engine run" where
  "generateModifierEvents m = run_fold (modifier_step m) basic_types"

definition keyboardResetOnWin32 :: "Engine \<Rightarrow> Engine run" where
  "keyboardResetOnWin32 e =
     run_bind (setting_of e) (\<lambda>st. run_fold (release_if_pressed True) (all_keys (st_keyboard st)) e)"

section \<open>Modifiers\<close>

definition engine_isPressed :: "Keyboard \<Rightarrow> Keymap \<Rightarrow> modifier_type \<Rightarrow> bool" where
  "engine_isPressed kb km mt =
     list_ex (\<lambda>ma. m_isPressed (get_key kb (ma_key ma))) (km_modAssignments km mt)"

text \<open>The two nested loops of \<^verbatim>\<open>fixModifierKey\<close>: the first assignment of the key.\<close>

definition fixModifierKey :: "Keymap \<Rightarrow> ModifiedKey \<Rightarrow> (ModifiedKey \<times> AssignMode \<times> bool) run" where
  "fixModifierKey km mk =
     (case find (\<lambda>(t, ma). mk_key mk = Some (ma_key ma))
             (concat (map (\<lambda>t. map (Pair t) (km_modAssignments km t)) all_types)) of
        None \<Rightarrow> Inr (mk, AM_notModifier, False)
      | Some (t, ma) \<Rightarrow>
          if ma_assignMode ma = AM_notModifier then Inl Contract_violation
          else Inr (mk\<lparr>mk_modifier := dontcare t (mk_modifier mk)\<rparr>, ma_assignMode ma, True))"

definition getCurrentModifiers :: "Keyboard \<Rightarrow> Keymap \<Rightarrow> keyref option \<Rightarrow> bool \<Rightarrow> Engine \<Rightarrow> Modifier" where
  "getCurrentModifiers kb km k pressed e =
     (let m1 = Modifier_add new_Modifier (en_currentLock e);
          m2 = fold (\<lambda>t. press_if t (engine_isPressed kb km t))
                 [Type_Shift, Type_Alt, Type_Control, Type_Windows] m1;
          m3 = press_if Type_Repeat False (press_if Type_Down pressed (press_if Type_Up (\<not> pressed) m2))
      in if fst (en_lastPressedKey e) = k \<and> (pressed \<or> snd (en_lastPressedKey e) = k)
         then press_if Type_Repeat True m3 else m3)"

section \<open>Current keymap and key events\<close>

definition updateLastPressedKey :: "keyref option \<Rightarrow> Engine \<Rightarrow> Engine" where
  "updateLastPressedKey k e = e\<lparr>en_lastPressedKey := (k, fst (en_lastPressedKey e))\<rparr>"

definition setCurrentKeymap :: "kmref option \<Rightarrow> bool \<Rightarrow> Engine \<Rightarrow> Engine" where
  "setCurrentKeymap km doesAddToHistory e =
     (let h = en_keymapPrefixHistory e @ [en_currentKeymap e];
          h' = (if MAX_KEYMAP_PREFIX_HISTORY < length h then tl h else h)
      in e\<lparr>en_keymapPrefixHistory := (if doesAddToHistory then h' else []), en_currentKeymap := km\<rparr>)"

definition keyEventToKID :: "KeyEvent \<Rightarrow> KEYBOARD_INPUT_DATA" where
  "keyEventToKID ev =
     \<lparr>UnitId = 0, MakeCode = ucast (ke_scanCode ev),
      Flags = (if ke_isKeyDown ev then 0 else KID_BREAK) OR (if ke_isExtended ev then KID_E0 else 0),
      Reserved = 0, ExtraInformation = ke_extraInfo ev\<rparr>"

section \<open>Changing the configuration\<close>

definition buildSubstitutionTable :: "(evkey \<Rightarrow> u16) \<Rightarrow> string \<Rightarrow> Keyboard \<Rightarrow> Engine \<Rightarrow> Engine run" where
  "buildSubstitutionTable ev layout kb e =
     (if 0 < en_recursionGuard e then Inr e
      else run_bind (case en_globalKeymap e of
               None \<Rightarrow> Inr None
             | Some g \<Rightarrow> run_bind (setting_of e) (\<lambda>st. run_bind (keymap_at st (Some g)) (\<lambda>km. Inr (Some km))))
        (\<lambda>g. let seqs = (case en_setting e of None \<Rightarrow> [] | Some st \<Rightarrow> st_keySeqs st) in
             Inr (e\<lparr>en_eventProcessor := Some (build_processor ev layout kb (en_setting e) seqs g)\<rparr>)))"

text \<open>The search \<^verbatim>\<open>searchKey\<close> of the new keyboard for a key of the old one.\<close>

definition find_in_new :: "Keyboard \<Rightarrow> Keyboard \<Rightarrow> keyref \<Rightarrow> keyref option run" where
  "find_in_new old new k = deref (searchKey (get_key old k) new)"

definition copy_flags :: "Keyboard \<Rightarrow> keyref \<Rightarrow> Keyboard \<Rightarrow> Keyboard run" where
  "copy_flags old k new =
     run_bind (find_in_new old new k) (\<lambda>found. case found of
         None \<Rightarrow> Inr new
       | Some j \<Rightarrow> Inr (update_key j (\<lambda>q. q\<lparr>m_isPressed := m_isPressed (get_key old k),
            m_isPressedOnWin32 := m_isPressedOnWin32 (get_key old k),
            m_isPressedByAssign := m_isPressedByAssign (get_key old k)\<rparr>) new))"

definition translate_ref :: "Keyboard \<Rightarrow> Keyboard \<Rightarrow> keyref option \<Rightarrow> keyref option run" where
  "translate_ref old new r = (case r of None \<Rightarrow> Inr None | Some k \<Rightarrow> find_in_new old new k)"

text \<open>The block under \<^verbatim>\<open>if (m_setting)\<close> of \<^verbatim>\<open>setSetting\<close>.\<close>

definition take_over_keys :: "Setting \<Rightarrow> Engine \<Rightarrow> (Setting \<times> Engine) run" where
  "take_over_keys new e =
     (case en_setting e of
        None \<Rightarrow> Inr (new, e)
      | Some _ \<Rightarrow> run_bind (setting_of e) (\<lambda>old.
          let okb = st_keyboard old in
          run_bind (run_fold (copy_flags okb) (all_keys okb) (st_keyboard new)) (\<lambda>nkb.
          run_bind (translate_ref okb nkb (en_lastGeneratedKey e)) (\<lambda>lg.
          run_bind (translate_ref okb nkb (fst (en_lastPressedKey e))) (\<lambda>l0.
          run_bind (translate_ref okb nkb (snd (en_lastPressedKey e))) (\<lambda>l1.
          Inr (new\<lparr>st_keyboard := nkb\<rparr>,
               e\<lparr>en_lastGeneratedKey := lg, en_lastPressedKey := (l0, l1)\<rparr>)))))))"

definition setSetting :: "(evkey \<Rightarrow> u16) \<Rightarrow> string \<Rightarrow> Setting \<Rightarrow> Engine \<Rightarrow> (bool \<times> Engine) run" where
  "setSetting ev layout i_setting e =
     (if en_isSynchronizing e then Inr (False, e)
      else run_bind (take_over_keys i_setting e) (\<lambda>(st, e1).
        let kms = st_keymaps st;
            g = (case keymaps_searchByName ''Global'' kms of
                   Some i \<Rightarrow> Some i
                 | None \<Rightarrow> if kms = [] then None else Some (length kms - 1));
            e2 = e1\<lparr>en_setting := Some st, en_settingDeleted := False, en_globalKeymap := g\<rparr>;
            e3 = (case g of None \<Rightarrow> e2 | Some i \<Rightarrow> setCurrentKeymap (Some i) False e2)
        in run_bind (buildSubstitutionTable ev layout (st_keyboard st) e3) (\<lambda>e4. Inr (True, e4))))"

text \<open>
  \<^verbatim>\<open>switchConfiguration\<close>. The file system and the loader are the argument \<open>load\<close> (the parsed
  setting, or None when the file is missing, throws or does not parse); \<open>busy n\<close> is what
  \<^verbatim>\<open>m_isSynchronizing\<close> shows at the n-th try, as another thread sets it.
\<close>

definition maxRetries :: nat where "maxRetries = 10"

function apply_retry ::
    "(Engine \<Rightarrow> (bool \<times> Engine) run) \<Rightarrow> (nat \<Rightarrow> bool) \<Rightarrow> nat \<Rightarrow> Engine \<Rightarrow> (nat \<times> Engine) run" where
  "apply_retry f busy n e =
     run_bind (f (e\<lparr>en_isSynchronizing := busy n\<rparr>)) (\<lambda>(ok, e').
       if \<not> ok \<and> n < maxRetries then apply_retry f busy (Suc n) e' else Inr (n, e'))"
  by auto
termination by (relation "measure (\<lambda>(f, busy, n, e). maxRetries - n)") auto

declare apply_retry.simps [simp del]

definition switchConfiguration ::
    "(evkey \<Rightarrow> u16) \<Rightarrow> string \<Rightarrow> (string \<Rightarrow> Setting option) \<Rightarrow> (nat \<Rightarrow> bool) \<Rightarrow> string \<Rightarrow> Engine \<Rightarrow>
       (bool \<times> Engine) run" where
  "switchConfiguration ev layout load busy path e =
     (if en_currentConfigPath e = path then Inr (True, e)
      else case load path of
          None \<Rightarrow> Inr (False, e)
        | Some new \<Rightarrow>
            run_bind (apply_retry (setSetting ev layout new) busy 0 e) (\<lambda>(retryCount, e1).
              if maxRetries \<le> retryCount
              then Inr (False, e1\<lparr>en_settingDeleted := en_settingDeleted e1 \<or> \<not> busy retryCount\<rparr>)
              else Inr (True, e1\<lparr>en_currentConfigPath := path\<rparr>)))"

end
