(* ===== verification/Key_Generation.thy ===== *)
theory Key_Generation
  imports Engine_State
begin

text \<open>
  What generated key events do: the engine's record of the keys it holds down, its count of them
  and the key state of the system that receives the injected events stay in step, and
  \<^const>\<open>generateModifierEvents\<close> leaves the modifiers as requested, with the exception proved here.
\<close>

unbundle bit_operations_syntax

section \<open>The live keyboard\<close>

definition live :: "Engine \<Rightarrow> bool" where
  "live e \<longleftrightarrow> en_setting e \<noteq> None \<and> \<not> en_settingDeleted e"

definition kb_of :: "Engine \<Rightarrow> Keyboard" where
  "kb_of e = st_keyboard (the (en_setting e))"

definition key_ok :: "Keyboard \<Rightarrow> keyref \<Rightarrow> bool" where
  "key_ok kb k = (case k of KeyAt i \<Rightarrow> i < length (kb_store kb) | SyncKey \<Rightarrow> True | EventKey _ \<Rightarrow> False)"

definition key_on :: "Engine \<Rightarrow> keyref \<Rightarrow> bool" where
  "key_on e k = m_isPressedOnWin32 (get_key (kb_of e) k)"

definition key_by_assign :: "Engine \<Rightarrow> keyref \<Rightarrow> bool" where
  "key_by_assign e k = m_isPressedByAssign (get_key (kb_of e) k)"

lemma setting_of_live: "live e \<Longrightarrow> setting_of e = Inr (the (en_setting e))"
  by (auto simp: live_def setting_of_def)

lemma setting_of_Inr: "setting_of e = Inr st \<longleftrightarrow> live e \<and> st = the (en_setting e)"
  by (auto simp: live_def setting_of_def deref_Inr split: if_splits)

lemma key_ok_event: "key_ok kb k \<Longrightarrow> k \<notin> set Event_events"
  by (auto simp: key_ok_def Event_events_def)

lemma key_ok_update [simp]: "key_ok (update_key k f kb) j = key_ok kb j"
  by (cases k; cases j) (simp_all add: key_ok_def update_key_def)

lemma get_key_update:
  "key_ok kb k \<Longrightarrow> get_key (update_key k f kb) j = (if j = k then f (get_key kb k) else get_key kb j)"
  by (cases k; cases j) (simp_all add: key_ok_def update_key_def get_key_def)

lemma update_key_static [simp]:
  "m_hashedKeys (update_key k f kb) = m_hashedKeys kb"
  "m_mods (update_key k f kb) = m_mods kb"
  "m_substitutes (update_key k f kb) = m_substitutes kb"
  "length (kb_store (update_key k f kb)) = length (kb_store kb)"
  by (cases k; simp add: update_key_def)+

lemma finite_keys: "finite {k. key_ok kb k \<and> P k}"
proof (rule finite_subset)
  show "{k. key_ok kb k \<and> P k} \<subseteq> insert SyncKey (KeyAt ` {..<length (kb_store kb)})"
  proof
    fix k assume "k \<in> {k. key_ok kb k \<and> P k}"
    then show "k \<in> insert SyncKey (KeyAt ` {..<length (kb_store kb)})"
      by (cases k) (simp_all add: key_ok_def)
  qed
qed simp

section \<open>One generated event\<close>

text \<open>Everything but the key flags, the count, the last generated key and the injector's log.\<close>

definition rest_of :: "Engine \<Rightarrow> Engine" where
  "rest_of e = e\<lparr>en_setting := None, en_currentKeyPressCountOnWin32 := 0,
                 en_lastGeneratedKey := None, en_injected := []\<rparr>"

definition gen_frame :: "Engine \<Rightarrow> Engine \<Rightarrow> bool" where
  "gen_frame e e' \<longleftrightarrow>
     rest_of e' = rest_of e \<and>
     live e' \<and> the (en_setting e') = (the (en_setting e))\<lparr>st_keyboard := kb_of e'\<rparr> \<and>
     m_mods (kb_of e') = m_mods (kb_of e) \<and> m_hashedKeys (kb_of e') = m_hashedKeys (kb_of e) \<and>
     m_substitutes (kb_of e') = m_substitutes (kb_of e) \<and>
     (\<forall>k. key_ok (kb_of e') k = key_ok (kb_of e) k) \<and>
     (\<forall>k. key_ok (kb_of e) k \<longrightarrow>
        m_scanCodes (get_key (kb_of e') k) = m_scanCodes (get_key (kb_of e) k) \<and>
        m_isPressed (get_key (kb_of e') k) = m_isPressed (get_key (kb_of e) k))"

lemma gen_frame_refl: "live e \<Longrightarrow> gen_frame e e"
  by (simp add: gen_frame_def kb_of_def)

lemma gen_frame_trans: "gen_frame a b \<Longrightarrow> gen_frame b c \<Longrightarrow> gen_frame a c"
  by (simp add: gen_frame_def)

lemma fold_injectInput:
  "fold (\<lambda>sc. injectInput (kid_of sc p)) scs e =
     e\<lparr>en_injected := en_injected e @ map (\<lambda>sc. Inject (kid_of sc p)) scs\<rparr>"
  by (induction scs arbitrary: e)
     (simp_all add: injectInput_def injector_calls_def kid_of_def MOUSE_EVENT_MARKER_def)

lemma generateKeyEvent_ok: "live e \<Longrightarrow> \<exists>e'. generateKeyEvent k p a e = Inr e'"
  by (simp add: generateKeyEvent_def setting_of_live Let_def)

lemma generateKeyEvent_effect:
  assumes "live e" "key_ok (kb_of e) k" "generateKeyEvent k p a e = Inr e'"
  shows "gen_frame e e'"
    and "key_on e' j = (if j = k then p else key_on e j)"
    and "key_by_assign e' j = (if j = k \<and> a then p else key_by_assign e j)"
    and "en_currentKeyPressCountOnWin32 e' = en_currentKeyPressCountOnWin32 e +
       (if p \<and> \<not> key_on e k then 1 else if \<not> p \<and> key_on e k then -1 else 0)"
    and "en_injected e' = en_injected e @ (if p \<or> key_on e k \<or> k = SyncKey
       then map (\<lambda>sc. Inject (kid_of sc p)) (m_scanCodes (get_key (kb_of e) k)) else [])"
    and "en_lastGeneratedKey e' = (if p then Some k else if key_on e k \<or> k = SyncKey then None
       else en_lastGeneratedKey e)"
proof -
  let ?f = "\<lambda>q :: Key. q\<lparr>m_isPressedOnWin32 := p,
      m_isPressedByAssign := (if a then p else m_isPressedByAssign q)\<rparr>"
  let ?d = "if p \<and> \<not> key_on e k then 1 else if \<not> p \<and> key_on e k then -1 else 0 :: int"
  let ?inj = "if p \<or> key_on e k \<or> k = SyncKey
        then map (\<lambda>sc. Inject (kid_of sc p)) (m_scanCodes (get_key (kb_of e) k)) else []"
  let ?last = "if p then Some k else if key_on e k \<or> k = SyncKey then None else en_lastGeneratedKey e"
  define e1 where "e1 = e\<lparr>en_setting := map_option (\<lambda>st. st\<lparr>st_keyboard := update_key k ?f (st_keyboard st)\<rparr>) (en_setting e),
      en_currentKeyPressCountOnWin32 := en_currentKeyPressCountOnWin32 e + ?d,
      en_injected := en_injected e @ ?inj, en_lastGeneratedKey := ?last\<rparr>"
  obtain st where st: "en_setting e = Some st" "\<not> en_settingDeleted e"
    using assms(1) by (auto simp: live_def)
  have kb: "kb_of e = st_keyboard st" "kb_of e1 = update_key k ?f (kb_of e)"
    by (simp_all add: kb_of_def e1_def st)
  have "generateKeyEvent k p a e = Inr e1"
    using key_ok_event [OF assms(2)]
    by (simp add: generateKeyEvent_def setting_of_def st fold_injectInput e1_def on_keyboard_def
        key_on_def kb(1) Let_def)
  with assms(3) have [simp]: "e' = e1" by simp
  have f: "live e1" "rest_of e1 = rest_of e" "the (en_setting e1) = (the (en_setting e))\<lparr>st_keyboard := kb_of e1\<rparr>"
    using st by (simp_all add: live_def rest_of_def kb_of_def e1_def)
  show "gen_frame e e'" using f by (simp add: gen_frame_def kb(2) get_key_update assms(2))
  show "key_on e' j = (if j = k then p else key_on e j)"
    "key_by_assign e' j = (if j = k \<and> a then p else key_by_assign e j)"
    by (simp_all add: key_on_def key_by_assign_def kb(2) get_key_update assms(2))
  show "en_currentKeyPressCountOnWin32 e' = en_currentKeyPressCountOnWin32 e + ?d"
    "en_injected e' = en_injected e @ ?inj" "en_lastGeneratedKey e' = ?last"
    by (simp_all add: e1_def)
qed

section \<open>The engine and the system agree\<close>

text \<open>The key state of the system behind the injector, by scan code and extension flags.\<close>

definition kid_code :: "KEYBOARD_INPUT_DATA \<Rightarrow> u16 \<times> u16" where
  "kid_code kid = (MakeCode kid, Flags kid AND NOT KID_BREAK)"

definition os_step :: "InjectorCall \<Rightarrow> (u16 \<times> u16) set \<Rightarrow> (u16 \<times> u16) set" where
  "os_step c S = (case c of
      Inject kid \<Rightarrow> if Flags kid AND KID_BREAK = 0 then insert (kid_code kid) S else S - {kid_code kid}
    | _ \<Rightarrow> S)"

definition os_down :: "InjectorCall list \<Rightarrow> (u16 \<times> u16) set" where
  "os_down cs = fold os_step cs {}"

definition code_of :: "ScanCode \<Rightarrow> u16 \<times> u16" where
  "code_of sc = (m_scan sc, m_flags sc)"

text \<open>No scan code belongs to two keys, and none has the break bit.\<close>

definition codes_distinct :: "Keyboard \<Rightarrow> bool" where
  "codes_distinct kb \<longleftrightarrow>
     (\<forall>k sc. key_ok kb k \<longrightarrow> sc \<in> set (m_scanCodes (get_key kb k)) \<longrightarrow> m_flags sc AND KID_BREAK = 0) \<and>
     (\<forall>k j sc sc'. key_ok kb k \<longrightarrow> key_ok kb j \<longrightarrow> sc \<in> set (m_scanCodes (get_key kb k)) \<longrightarrow>
        sc' \<in> set (m_scanCodes (get_key kb j)) \<longrightarrow> code_of sc = code_of sc' \<longrightarrow> k = j)"

definition mods_ok :: "Keyboard \<Rightarrow> bool" where
  "mods_ok kb \<longleftrightarrow> (\<forall>t. \<forall>k\<in>set (m_mods kb t). key_ok kb k)"

definition keys_down :: "Engine \<Rightarrow> keyref set" where
  "keys_down e = {k. key_ok (kb_of e) k \<and> key_on e k}"

text \<open>Every key event that was injected is one of a key of the keyboard.\<close>

definition from_key :: "Keyboard \<Rightarrow> KEYBOARD_INPUT_DATA \<Rightarrow> bool" where
  "from_key kb kid \<longleftrightarrow>
     (\<exists>k sc p. key_ok kb k \<and> sc \<in> set (m_scanCodes (get_key kb k)) \<and> kid = kid_of sc p)"

lemma from_key_static:
  assumes "\<And>k. key_ok kb' k = key_ok kb k"
    and "\<And>k. key_ok kb k \<Longrightarrow> m_scanCodes (get_key kb' k) = m_scanCodes (get_key kb k)"
  shows "from_key kb' = from_key kb"
  unfolding from_key_def [abs_def] using assms by (intro ext ex_cong1) auto

definition in_step :: "Engine \<Rightarrow> bool" where
  "in_step e \<longleftrightarrow> live e \<and> wf_Keyboard (kb_of e) \<and> mods_ok (kb_of e) \<and> codes_distinct (kb_of e) \<and>
     en_currentKeyPressCountOnWin32 e = int (card (keys_down e)) \<and>
     (\<forall>kid. Inject kid \<in> set (en_injected e) \<longrightarrow> from_key (kb_of e) kid) \<and>
     (\<forall>k. key_ok (kb_of e) k \<longrightarrow> (\<forall>sc\<in>set (m_scanCodes (get_key (kb_of e) k)).
        code_of sc \<in> os_down (en_injected e) \<longleftrightarrow> key_on e k))"

lemma kid_of_code: "m_flags sc AND KID_BREAK = 0 \<Longrightarrow> kid_code (kid_of sc p) = code_of sc"
proof -
  assume a: "m_flags sc AND KID_BREAK = 0"
  have nb: "\<not> bit (m_flags sc) 0"
    using arg_cong [OF a, of "\<lambda>w. bit w 0"] by (simp add: KID_BREAK_def bit_simps)
  have "(m_flags sc OR KID_BREAK) AND NOT KID_BREAK = m_flags sc" "m_flags sc AND NOT KID_BREAK = m_flags sc"
    using nb by (auto intro!: bit_word_eqI simp: KID_BREAK_def bit_simps intro: gr0I)
  then show ?thesis by (simp add: kid_code_def kid_of_def code_of_def)
qed

lemma kid_of_break: "m_flags sc AND KID_BREAK = 0 \<Longrightarrow> Flags (kid_of sc p) AND KID_BREAK = 0 \<longleftrightarrow> p"
proof -
  have "(m_flags sc OR KID_BREAK) AND KID_BREAK = KID_BREAK"
    by (rule bit_word_eqI) (auto simp: bit_simps)
  then show "m_flags sc AND KID_BREAK = 0 \<Longrightarrow> Flags (kid_of sc p) AND KID_BREAK = 0 \<longleftrightarrow> p"
    by (auto simp: kid_of_def KID_BREAK_def)
qed

lemma os_sent:
  assumes "\<forall>sc\<in>set scs. m_flags sc AND KID_BREAK = 0"
  shows "os_down (cs @ map (\<lambda>sc. Inject (kid_of sc p)) scs) =
     (if p then os_down cs \<union> code_of ` set scs else os_down cs - code_of ` set scs)"
  using assms
proof (induction scs rule: rev_induct)
  case Nil
  then show ?case by simp
next
  case (snoc sc scs)
  from snoc.prems have sc: "m_flags sc AND KID_BREAK = 0" by simp
  have "os_down ((cs @ map (\<lambda>sc. Inject (kid_of sc p)) scs) @ [Inject (kid_of sc p)]) =
      os_step (Inject (kid_of sc p)) (os_down (cs @ map (\<lambda>sc. Inject (kid_of sc p)) scs))"
    by (simp only: os_down_def fold_append fold.simps o_apply id_apply)
  with snoc show ?case
    by (auto simp: os_step_def kid_of_break [OF sc] kid_of_code [OF sc])
qed

lemma keys_down_finite [simp]: "finite (keys_down e)"
  unfolding keys_down_def by (rule finite_keys)

lemma wf_Keyboard_static:
  "m_hashedKeys kb' = m_hashedKeys kb \<Longrightarrow> (\<forall>k. key_ok kb' k = key_ok kb k) \<Longrightarrow>
   (\<forall>k. key_ok kb k \<longrightarrow> m_scanCodes (get_key kb' k) = m_scanCodes (get_key kb k)) \<Longrightarrow>
   wf_Keyboard kb \<Longrightarrow> wf_Keyboard kb'"
proof -
  assume h: "m_hashedKeys kb' = m_hashedKeys kb" "\<forall>k. key_ok kb' k = key_ok kb k"
    "\<forall>k. key_ok kb k \<longrightarrow> m_scanCodes (get_key kb' k) = m_scanCodes (get_key kb k)" "wf_Keyboard kb"
  have less: "i < length (kb_store kb') \<longleftrightarrow> i < length (kb_store kb)" for i
    using h(2) [rule_format, of "KeyAt i"] by (simp add: key_ok_def)
  have len: "length (kb_store kb') = length (kb_store kb)"
    using less [of "length (kb_store kb)"] less [of "length (kb_store kb')"] by simp
  have "getKeys (kb_store kb' ! i) = getKeys (kb_store kb ! i)" if "i < length (kb_store kb)" for i
    using h(3) [rule_format, of "KeyAt i"] that by (simp add: key_ok_def get_key_def getKeys_def)
  moreover have "i < length (kb_store kb)" if "b < HASHED_KEYS_SIZE" "i \<in> set (m_hashedKeys kb ! b)" for b i
    using that h(4) unfolding wf_Keyboard_def by (metis UN_I lessThan_iff nth_mem set_concat)
  ultimately show ?thesis using h(1,4) by (simp add: wf_Keyboard_def len)
qed

lemma generateKeyEvent_in_step:
  assumes "in_step e" "key_ok (kb_of e) k" "generateKeyEvent k p a e = Inr e'"
  shows "in_step e'"
proof -
  have lv: "live e" using assms(1) by (simp add: in_step_def)
  note eff = generateKeyEvent_effect [OF lv assms(2,3)]
  note fr = eff(1) and on = eff(2) and cnt = eff(4) and inj = eff(5)
  have st: "m_mods (kb_of e') = m_mods (kb_of e)" "m_hashedKeys (kb_of e') = m_hashedKeys (kb_of e)"
    "key_ok (kb_of e') j = key_ok (kb_of e) j"
    "key_ok (kb_of e) j \<Longrightarrow> m_scanCodes (get_key (kb_of e') j) = m_scanCodes (get_key (kb_of e) j)" for j
    using fr by (simp_all add: gen_frame_def)
  have "codes_distinct (kb_of e')" "mods_ok (kb_of e')"
    using assms(1) by (simp_all add: in_step_def codes_distinct_def mods_ok_def st)
  moreover have "wf_Keyboard (kb_of e')"
    by (rule wf_Keyboard_static [of _ "kb_of e"]) (use assms(1) st in \<open>simp_all add: in_step_def\<close>)
  moreover have "keys_down e' = (if p then insert k (keys_down e) else keys_down e - {k})"
    using assms(2) by (auto simp: keys_down_def on st(3))
  then have "en_currentKeyPressCountOnWin32 e' = int (card (keys_down e'))"
    using assms(1,2) cnt card_gt_0_iff [of "keys_down e"]
    by (auto simp: in_step_def card_insert_if keys_down_def [of e])
       (auto simp: keys_down_def [symmetric] card_Diff_singleton_if)
  moreover have "from_key (kb_of e') kid" if "Inject kid \<in> set (en_injected e')" for kid
  proof -
    have "from_key (kb_of e) kid"
      using that assms(1,2) by (auto simp: inj in_step_def from_key_def split: if_splits)
    then show ?thesis using from_key_static [OF st(3,4)] by simp
  qed
  moreover have "code_of sc \<in> os_down (en_injected e') \<longleftrightarrow> key_on e' j"
    if j: "key_ok (kb_of e) j" "sc \<in> set (m_scanCodes (get_key (kb_of e) j))" for j sc
  proof -
    let ?scs = "m_scanCodes (get_key (kb_of e) k)"
    have nobreak: "\<forall>sc\<in>set ?scs. m_flags sc AND KID_BREAK = 0"
      and mine: "code_of sc \<in> code_of ` set ?scs \<longleftrightarrow> j = k"
      and old: "code_of sc \<in> os_down (en_injected e) \<longleftrightarrow> key_on e j"
      using assms(1,2) j unfolding in_step_def codes_distinct_def by blast+
    show ?thesis
      using os_sent [OF nobreak, of "en_injected e" p] mine old by (auto simp: inj on)
  qed
  ultimately show ?thesis using fr by (simp add: in_step_def gen_frame_def)
qed

section \<open>Generating modifiers\<close>

text \<open>What any run of generated events keeps.\<close>

definition gen_rel :: "Engine \<Rightarrow> Engine \<Rightarrow> bool" where
  "gen_rel e e' \<longleftrightarrow> gen_frame e e' \<and> (in_step e \<longrightarrow> in_step e')"

lemma gen_rel_refl: "live e \<Longrightarrow> gen_rel e e"
  by (simp add: gen_rel_def gen_frame_refl)

lemma gen_rel_trans: "gen_rel a b \<Longrightarrow> gen_rel b c \<Longrightarrow> gen_rel a c"
  using gen_frame_trans by (auto simp: gen_rel_def)

lemma gen_rel_live: "gen_rel e e' \<Longrightarrow> live e'"
  by (simp add: gen_rel_def gen_frame_def)

lemma gen_rel_static:
  assumes "gen_rel e e'"
  shows "key_ok (kb_of e') k = key_ok (kb_of e) k" "m_mods (kb_of e') = m_mods (kb_of e)"
    "m_hashedKeys (kb_of e') = m_hashedKeys (kb_of e)"
  using assms by (simp_all add: gen_rel_def gen_frame_def)

lemma generateKeyEvent_rel:
  assumes "live e" "key_ok (kb_of e) k"
  shows "\<exists>e'. generateKeyEvent k p a e = Inr e' \<and> gen_rel e e' \<and>
    (\<forall>j. key_on e' j = (if j = k then p else key_on e j)) \<and>
    (\<forall>j. key_by_assign e' j = (if j = k \<and> a then p else key_by_assign e j)) \<and>
    en_lastGeneratedKey e' = (if p then Some k else if key_on e k \<or> k = SyncKey then None
       else en_lastGeneratedKey e)"
proof -
  obtain e' where e': "generateKeyEvent k p a e = Inr e'" using generateKeyEvent_ok [OF assms(1)] by blast
  note eff = generateKeyEvent_effect [OF assms e']
  have "gen_rel e e'"
    using eff(1) generateKeyEvent_in_step [OF _ assms(2) e'] by (simp add: gen_rel_def)
  then show ?thesis using e' eff(2,3,6) by (intro exI [of _ e'] conjI allI)
qed

lemma release_fold:
  assumes "live e" "\<forall>k\<in>set ks. key_ok (kb_of e) k"
  shows "\<exists>e'. run_fold (release_if_pressed a) ks e = Inr e' \<and> gen_rel e e' \<and>
     (\<forall>j. key_on e' j \<longleftrightarrow> key_on e j \<and> j \<notin> set ks) \<and>
     en_lastGeneratedKey e' \<in> {en_lastGeneratedKey e, None}"
  using assms
proof (induction ks arbitrary: e)
  case Nil
  then show ?case by (simp add: gen_rel_refl)
next
  case (Cons k ks)
  obtain e1 where e1: "release_if_pressed a k e = Inr e1" "gen_rel e e1"
    "\<And>j. key_on e1 j \<longleftrightarrow> key_on e j \<and> j \<noteq> k" "en_lastGeneratedKey e1 \<in> {en_lastGeneratedKey e, None}"
  proof (cases "key_on e k")
    case True
    have kok: "key_ok (kb_of e) k" using Cons.prems(2) by simp
    obtain e1 where
      "generateKeyEvent k False a e = Inr e1" "gen_rel e e1"
      "\<And>j. key_on e1 j = (if j = k then False else key_on e j)"
      "en_lastGeneratedKey e1 = (if key_on e k \<or> k = SyncKey then None else en_lastGeneratedKey e)"
     
      using generateKeyEvent_rel [OF Cons.prems(1) kok, of False a] by auto
    with True show ?thesis
      by (intro that [of e1])
         (auto simp: release_if_pressed_def setting_of_live Cons.prems(1) key_on_def kb_of_def)
  next
    case False
    then show ?thesis
      by (intro that [of e])
         (auto simp: release_if_pressed_def setting_of_live Cons.prems(1) key_on_def kb_of_def
            gen_rel_refl)
  qed
  have "\<forall>k\<in>set ks. key_ok (kb_of e1) k" using Cons.prems(2) gen_rel_static(1) [OF e1(2)] by simp
  from Cons.IH [OF gen_rel_live [OF e1(2)] this] obtain e' where
    "run_fold (release_if_pressed a) ks e1 = Inr e'" "gen_rel e1 e'"
    "\<forall>j. key_on e' j \<longleftrightarrow> key_on e1 j \<and> j \<notin> set ks"
    "en_lastGeneratedKey e' \<in> {en_lastGeneratedKey e1, None}" by blast
  with e1 show ?case using gen_rel_trans [OF e1(2)] by (intro exI [of _ e']) auto
qed

text \<open>Pressing again the keys an assignment holds.\<close>

lemma press_assigned_fold:
  assumes "live e" "\<forall>k\<in>set ks. key_ok (kb_of e) k"
  shows "\<exists>e'. run_fold press_if_assigned ks e = Inr e' \<and> gen_rel e e' \<and>
     (\<forall>j. key_on e' j \<longleftrightarrow> key_on e j \<or> (j \<in> set ks \<and> key_by_assign e j)) \<and>
     en_lastGeneratedKey e' \<in> insert (en_lastGeneratedKey e) (Some ` set ks)"
  using assms
proof (induction ks arbitrary: e)
  case Nil
  then show ?case by (simp add: gen_rel_refl)
next
  case (Cons k ks)
  obtain e1 where e1: "press_if_assigned k e = Inr e1" "gen_rel e e1"
    "\<And>j. key_on e1 j \<longleftrightarrow> key_on e j \<or> (j = k \<and> key_by_assign e j)"
    "\<And>j. key_by_assign e1 j = key_by_assign e j"
    "en_lastGeneratedKey e1 \<in> {en_lastGeneratedKey e, Some k}"
  proof (cases "key_by_assign e k")
    case True
    have kok: "key_ok (kb_of e) k" using Cons.prems(2) by simp
    obtain e1 where
      "generateKeyEvent k True False e = Inr e1" "gen_rel e e1"
      "\<And>j. key_on e1 j = (if j = k then True else key_on e j)"
      "\<And>j. key_by_assign e1 j = key_by_assign e j" "en_lastGeneratedKey e1 = Some k"
      using generateKeyEvent_rel [OF Cons.prems(1) kok, of True False] by auto
    with True show ?thesis
      by (intro that [of e1]) (auto simp: press_if_assigned_def setting_of_live Cons.prems(1) key_by_assign_def kb_of_def)
  next
    case False
    then show ?thesis
      by (intro that [of e])
         (auto simp: press_if_assigned_def setting_of_live Cons.prems(1) key_by_assign_def kb_of_def gen_rel_refl)
  qed
  have "\<forall>k\<in>set ks. key_ok (kb_of e1) k" using Cons.prems(2) gen_rel_static(1) [OF e1(2)] by simp
  from Cons.IH [OF gen_rel_live [OF e1(2)] this] obtain e' where
    "run_fold press_if_assigned ks e1 = Inr e'" "gen_rel e1 e'"
    "\<forall>j. key_on e' j \<longleftrightarrow> key_on e1 j \<or> (j \<in> set ks \<and> key_by_assign e1 j)"
    "en_lastGeneratedKey e' \<in> insert (en_lastGeneratedKey e1) (Some ` set ks)" by blast
  with e1 show ?case using gen_rel_trans [OF e1(2)] by (intro exI [of _ e']) auto
qed

lemma press_modifier_effect:
  assumes "live e" "\<forall>k\<in>set mods. key_ok (kb_of e) k" "mods \<noteq> []"
  shows "\<exists>e'. press_modifier mods e = Inr e' \<and> gen_rel e e' \<and> (\<exists>k\<in>set mods. key_on e' k) \<and>
     (\<forall>j. key_on e j \<longrightarrow> key_on e' j) \<and> (\<forall>j. j \<notin> set mods \<longrightarrow> key_on e' j = key_on e j) \<and>
     en_lastGeneratedKey e' \<in> insert (en_lastGeneratedKey e) (Some ` set mods)"
proof -
  have on: "list_ex (\<lambda>k. m_isPressedOnWin32 (get_key (st_keyboard (the (en_setting e))) k)) mods \<longleftrightarrow>
      (\<exists>k\<in>set mods. key_on e k)"
    "list_ex (\<lambda>k. m_isPressedByAssign (get_key (st_keyboard (the (en_setting e))) k)) mods \<longleftrightarrow>
      (\<exists>k\<in>set mods. key_by_assign e k)"
    by (simp_all add: key_on_def key_by_assign_def kb_of_def list_ex_iff)
  note pm = press_modifier_def [of mods e, unfolded Let_def setting_of_live [OF assms(1)] run_bind_simps on]
  consider (on) "\<exists>k\<in>set mods. key_on e k"
    | (first) "\<not> (\<exists>k\<in>set mods. key_on e k)" "\<not> (\<exists>k\<in>set mods. key_by_assign e k)"
    | (again) "\<not> (\<exists>k\<in>set mods. key_on e k)" "\<exists>k\<in>set mods. key_by_assign e k" by blast
  then show ?thesis
  proof cases
    case on
    then show ?thesis using gen_rel_refl [OF assms(1)] by (intro exI [of _ e]) (simp add: pm)
  next
    case first
    obtain k ks where mods: "mods = k # ks" using assms(3) by (cases mods) auto
    have kok: "key_ok (kb_of e) k" using assms(2) mods by simp
    obtain e' where
      "generateKeyEvent k True False e = Inr e'" "gen_rel e e'"
      "\<And>j. key_on e' j = (if j = k then True else key_on e j)" "en_lastGeneratedKey e' = Some k"
      using generateKeyEvent_rel [OF assms(1) kok, of True False] by auto
    with first show ?thesis by (intro exI [of _ e']) (auto simp: pm [unfolded mods] mods)
  next
    case again
    from press_assigned_fold [OF assms(1,2)] again show ?thesis by (fastforce simp: pm)
  qed
qed

text \<open>What is asked of the keys of one modifier type.\<close>

definition as_requested :: "Modifier \<Rightarrow> modifier_type \<Rightarrow> Engine \<Rightarrow> bool" where
  "as_requested m t e \<longleftrightarrow>
     (\<not> isDontcare m t \<longrightarrow>
        (if isPressed m t then \<exists>k\<in>set (m_mods (kb_of e) t). key_on e k
         else \<forall>k\<in>set (m_mods (kb_of e) t). \<not> key_on e k))"

definition mods_disjoint :: "Keyboard \<Rightarrow> bool" where
  "mods_disjoint kb \<longleftrightarrow> (\<forall>t t'. t \<noteq> t' \<longrightarrow> set (m_mods kb t) \<inter> set (m_mods kb t') = {})"

text \<open>The last generated key is no Alt or Windows key, so that nothing is tapped.\<close>

definition quiet :: "Engine \<Rightarrow> modifier_type \<Rightarrow> bool" where
  "quiet e t \<longleftrightarrow> (t = Type_Alt \<or> t = Type_Windows \<longrightarrow>
     (\<forall>k\<in>set (m_mods (kb_of e) t). en_lastGeneratedKey e \<noteq> Some k))"

lemma modifier_step_effect:
  assumes "live e" "mods_ok (kb_of e)" "quiet e t"
    and "isPressed m t \<Longrightarrow> \<not> isDontcare m t \<Longrightarrow> m_mods (kb_of e) t \<noteq> []"
  shows "\<exists>e'. modifier_step m t e = Inr e' \<and> gen_rel e e' \<and> as_requested m t e' \<and>
     (\<forall>j. j \<notin> set (m_mods (kb_of e) t) \<longrightarrow> key_on e' j = key_on e j) \<and>
     en_lastGeneratedKey e' \<in> {en_lastGeneratedKey e, None} \<union> Some ` set (m_mods (kb_of e) t)"
proof -
  let ?ks = "m_mods (kb_of e) t"
  have kok: "\<forall>k\<in>set ?ks. key_ok (kb_of e) k" using assms(2) by (simp add: mods_ok_def)
  note ms = modifier_step_def [of m t e, unfolded Let_def setting_of_live [OF assms(1)] run_bind_simps,
      folded kb_of_def]
  consider (dc) "isDontcare m t" | (pr) "\<not> isDontcare m t" "isPressed m t"
    | (re) "\<not> isDontcare m t" "\<not> isPressed m t" by blast
  then show ?thesis
  proof cases
    case dc
    then show ?thesis
      using gen_rel_refl [OF assms(1)] by (intro exI [of _ e]) (simp add: ms as_requested_def)
  next
    case pr
    obtain e' where "press_modifier ?ks e = Inr e'" "gen_rel e e'" "\<exists>k\<in>set ?ks. key_on e' k"
      "\<forall>j. j \<notin> set ?ks \<longrightarrow> key_on e' j = key_on e j"
      "en_lastGeneratedKey e' \<in> insert (en_lastGeneratedKey e) (Some ` set ?ks)"
      using press_modifier_effect [OF assms(1) kok assms(4) [OF pr(2,1)]] by blast
    with pr show ?thesis
      using gen_rel_static(2) [of e e'] by (intro exI [of _ e']) (auto simp: ms as_requested_def)
  next
    case re
    have "tap_other_modifier ?ks e = Inr e" if "t = Type_Alt \<or> t = Type_Windows"
      using assms(3) that unfolding quiet_def tap_other_modifier_def by auto
    then have "modifier_step m t e = run_fold (release_if_pressed False) ?ks e" using re by (simp add: ms)
    moreover obtain e' where "run_fold (release_if_pressed False) ?ks e = Inr e'" "gen_rel e e'"
      "\<forall>j. key_on e' j \<longleftrightarrow> key_on e j \<and> j \<notin> set ?ks"
      "en_lastGeneratedKey e' \<in> {en_lastGeneratedKey e, None}"
      using release_fold [OF assms(1) kok] by blast
    ultimately show ?thesis
      using re gen_rel_static(2) [of e e'] by (intro exI [of _ e']) (auto simp: as_requested_def)
  qed
qed

lemma modifiers_fold:
  assumes "live e" "mods_ok (kb_of e)" "mods_disjoint (kb_of e)" "distinct ts"
    and "\<forall>t\<in>set ts. quiet e t"
    and "\<forall>t\<in>set ts. isPressed m t \<and> \<not> isDontcare m t \<longrightarrow> m_mods (kb_of e) t \<noteq> []"
  shows "\<exists>e'. run_fold (modifier_step m) ts e = Inr e' \<and> gen_rel e e' \<and>
     (\<forall>t\<in>set ts. as_requested m t e') \<and>
     (\<forall>j. (\<forall>t\<in>set ts. j \<notin> set (m_mods (kb_of e) t)) \<longrightarrow> key_on e' j = key_on e j)"
  using assms
proof (induction ts arbitrary: e)
  case Nil
  then show ?case by (simp add: gen_rel_refl)
next
  case (Cons t ts)
  have q: "quiet e t" "isPressed m t \<Longrightarrow> \<not> isDontcare m t \<Longrightarrow> m_mods (kb_of e) t \<noteq> []"
    using Cons.prems(5,6) by auto
  obtain e1 where e1: "modifier_step m t e = Inr e1" "gen_rel e e1" "as_requested m t e1"
     "\<forall>j. j \<notin> set (m_mods (kb_of e) t) \<longrightarrow> key_on e1 j = key_on e j"
     "en_lastGeneratedKey e1 \<in> {en_lastGeneratedKey e, None} \<union> Some ` set (m_mods (kb_of e) t)"
    using modifier_step_effect [OF Cons.prems(1,2) q] by blast
  note stat = gen_rel_static [OF e1(2)]
  have apart: "j \<notin> set (m_mods (kb_of e) t')" if "t' \<in> set ts" "j \<in> set (m_mods (kb_of e) t)" for t' j
  proof -
    have "t' \<noteq> t" using Cons.prems(4) that(1) by auto
    with Cons.prems(3) that(2) show ?thesis unfolding mods_disjoint_def by blast
  qed
  have ok1: "mods_ok (kb_of e1)" "mods_disjoint (kb_of e1)"
    using Cons.prems(2,3) by (simp_all add: mods_ok_def mods_disjoint_def stat)
  have q1: "\<forall>t\<in>set ts. quiet e1 t"
  proof
    fix t' assume t': "t' \<in> set ts"
    then have "quiet e t'" using Cons.prems(5) by simp
    then show "quiet e1 t'"
      using e1(5) apart [OF t'] unfolding quiet_def stat by (metis UnE image_iff insert_iff
          option.distinct(1) option.inject singletonD)
  qed
  have "\<forall>t\<in>set ts. isPressed m t \<and> \<not> isDontcare m t \<longrightarrow> m_mods (kb_of e1) t \<noteq> []" "distinct ts"
    using Cons.prems(4,6) by (simp_all add: stat)
  from Cons.IH [OF gen_rel_live [OF e1(2)] ok1 this(2) q1 this(1)] obtain e' where e': "run_fold (modifier_step m) ts e1 = Inr e'" "gen_rel e1 e'"
     "\<forall>t\<in>set ts. as_requested m t e'"
     "\<forall>j. (\<forall>t\<in>set ts. j \<notin> set (m_mods (kb_of e1) t)) \<longrightarrow> key_on e' j = key_on e1 j"
    by blast
  have "as_requested m t e'"
    using e1(3) e'(4) apart by (auto simp: as_requested_def stat gen_rel_static [OF e'(2)] split: if_splits)
  with e1 e' show ?case
    using gen_rel_trans [OF e1(2) e'(2)] by (intro exI [of _ e']) (auto simp: stat)
qed

text \<open>C26: Before an action, the engine brings the modifier keys into the state the action asks for.
  On a keyboard whose modifier keys each belong to one type and which has a key for every modifier
  that is required, and unless an Alt or Windows key was the last key generated,
  \<open>generateModifierEvents\<close> succeeds, and afterwards, for each of Shift, Alt, Control and Windows: if it is required, some key of it is held down; if it is forbidden, none is;
  keys of no modifier are left alone; and the flags, the count of held keys and the system's key
  state still agree. (Where a required modifier has no key, as in every loaded configuration, the call
  is undefined, see C30.)\<close>

theorem modifiers_as_requested:
  assumes "in_step e" "mods_disjoint (kb_of e)" "\<forall>t\<in>set basic_types. quiet e t"
    and "\<forall>t\<in>set basic_types. isPressed m t \<and> \<not> isDontcare m t \<longrightarrow> m_mods (kb_of e) t \<noteq> []"
  shows "\<exists>e'. generateModifierEvents m e = Inr e' \<and> in_step e' \<and>
     (\<forall>t\<in>set basic_types. as_requested m t e') \<and>
     (\<forall>j. (\<forall>t\<in>set basic_types. j \<notin> set (m_mods (kb_of e) t)) \<longrightarrow> key_on e' j = key_on e j)"
proof -
  have "live e" "mods_ok (kb_of e)" "distinct basic_types"
    using assms(1) by (simp_all add: in_step_def basic_types_def)
  from modifiers_fold [OF this(1,2) assms(2) this(3) assms(3,4)] assms(1) show ?thesis
    unfolding generateModifierEvents_def gen_rel_def by blast
qed

text \<open>C31: When an Alt key was the last key generated, releasing Alt can break the Shift it was asked
  for. With Shift required and already down (by its first key only), Alt forbidden and an Alt key the
  last generated, \<open>generateModifierEvents\<close> taps Shift to hide the Alt release, and so leaves
  Shift up: the required modifier is missing afterwards.\<close>

theorem alt_release_drops_required_shift:
  assumes "live e" "mods_ok (kb_of e)" "mods_disjoint (kb_of e)"
    and "m_mods (kb_of e) Type_Shift = s # ss" "key_on e s" "\<forall>k\<in>set ss. \<not> key_on e k"
    and "isPressed m Type_Shift" "\<not> isDontcare m Type_Shift"
    and "\<not> isPressed m Type_Alt" "\<not> isDontcare m Type_Alt"
    and "\<forall>t\<in>{Type_Control, Type_Windows}. isDontcare m t \<or> \<not> isPressed m t"
    and "a \<in> set (m_mods (kb_of e) Type_Alt)" "en_lastGeneratedKey e = Some a"
  shows "\<exists>e'. generateModifierEvents m e = Inr e' \<and> \<not> as_requested m Type_Shift e'"
proof -
  note live = assms(1) and ok = assms(2)
  have sok: "key_ok (kb_of e) s" using ok assms(4) by (metis list.set_intros(1) mods_ok_def)
  have kok: "\<forall>k\<in>set (m_mods (kb_of e) t). key_ok (kb_of e) k" for t using ok by (simp add: mods_ok_def)
  note ms = modifier_step_def [of m _ e, unfolded Let_def setting_of_live [OF live] run_bind_simps,
      folded kb_of_def]
  have disj: "t \<noteq> Type_Shift \<Longrightarrow> set (s # ss) \<inter> set (m_mods (kb_of e) t) = {}" for t
    using assms(3,4) unfolding mods_disjoint_def by metis
  have shift: "modifier_step m Type_Shift e = Inr e"
    using assms(4,5,7,8)
    by (simp add: ms press_modifier_def setting_of_live [OF live] key_on_def kb_of_def)
  obtain e1 where e1: "generateKeyEvent s True False e = Inr e1" "gen_rel e e1"
    "\<forall>j. key_on e1 j = (if j = s then True else key_on e j)"
    using generateKeyEvent_rel [OF live sok, of True False] by blast
  have "live e1" "key_ok (kb_of e1) s" using sok gen_rel_live [OF e1(2)] gen_rel_static [OF e1(2)] by auto
  note e1ok = this
  obtain e2 where e2: "generateKeyEvent s False False e1 = Inr e2" "gen_rel e1 e2"
    "\<forall>j. key_on e2 j = (if j = s then False else key_on e1 j)"
    "en_lastGeneratedKey e2 = (if key_on e1 s \<or> s = SyncKey then None else en_lastGeneratedKey e1)"
    using generateKeyEvent_rel [OF e1ok, of False False] by auto
  have tap: "tap_other_modifier (m_mods (kb_of e) Type_Alt) e = Inr e2"
    using assms(4,12,13) e1(1) e2(1)
    by (auto simp: tap_other_modifier_def setting_of_live [OF live] kb_of_def Let_def)
  note r2 = gen_rel_trans [OF e1(2) e2(2)]
  note st2 = gen_rel_static [OF r2]
  have "\<forall>k\<in>set (m_mods (kb_of e) Type_Alt). key_ok (kb_of e2) k" using kok by (simp add: st2)
  then obtain e3 where e3: "run_fold (release_if_pressed False) (m_mods (kb_of e) Type_Alt) e2 = Inr e3"
    "gen_rel e2 e3" "\<forall>j. key_on e3 j \<longleftrightarrow> key_on e2 j \<and> j \<notin> set (m_mods (kb_of e) Type_Alt)"
    "en_lastGeneratedKey e3 \<in> {en_lastGeneratedKey e2, None}"
    using release_fold [OF gen_rel_live [OF r2]] by blast
  have alt: "modifier_step m Type_Alt e = Inr e3" using assms(9,10) tap e3(1) by (simp add: ms)
  note r3 = gen_rel_trans [OF r2 e3(2)]
  note st3 = gen_rel_static [OF r3]
  have last3: "en_lastGeneratedKey e3 = None" using e3(4) e2(4) e1(3) by auto
  have "mods_ok (kb_of e3)" "mods_disjoint (kb_of e3)"
    using ok assms(3) by (simp_all add: mods_ok_def mods_disjoint_def st3)
  moreover have "\<forall>t\<in>set [Type_Control, Type_Windows]. quiet e3 t" by (simp add: quiet_def last3)
  ultimately obtain e' where e': "run_fold (modifier_step m) [Type_Control, Type_Windows] e3 = Inr e'"
    "gen_rel e3 e'"
    "\<forall>j. (\<forall>t\<in>set [Type_Control, Type_Windows]. j \<notin> set (m_mods (kb_of e3) t)) \<longrightarrow> key_on e' j = key_on e3 j"
    using modifiers_fold [OF gen_rel_live [OF r3], of "[Type_Control, Type_Windows]" m] assms(11)
    by auto
  have "generateModifierEvents m e = Inr e'"
    using shift alt e'(1) by (simp add: generateModifierEvents_def basic_types_def)
  moreover have "\<not> key_on e' k" if "k \<in> set (s # ss)" for k
  proof -
    have "\<forall>t\<in>set [Type_Control, Type_Windows]. k \<notin> set (m_mods (kb_of e3) t)"
      using that disj [of Type_Control] disj [of Type_Windows] by (auto simp: st3)
    then have "key_on e' k = key_on e3 k" using e'(3) by blast
    then show ?thesis using e3(3) e2(3) e1(3) assms(6) that by auto
  qed
  ultimately show ?thesis
    using assms(4,7,8) gen_rel_static [OF gen_rel_trans [OF r3 e'(2)]]
    by (auto simp: as_requested_def)
qed

section \<open>Releasing everything\<close>

lemma set_all_keys: "wf_Keyboard kb \<Longrightarrow> set (all_keys kb) = KeyAt ` {..<length (kb_store kb)}"
  by (simp add: all_keys_def keys_visited wf_Keyboard_def)

text \<open>\<open>keyboardResetOnWin32\<close> lets go of every key. From a state in which engine and system
  agree it succeeds, and afterwards no key of the keyboard is held: none is flagged as pressed, the
  system has none of their scan codes down, and, the sync key aside, the count of held keys is 0.\<close>

theorem keyboard_reset_releases_all:
  assumes "in_step e"
  shows "\<exists>e'. keyboardResetOnWin32 e = Inr e' \<and> in_step e' \<and>
     (\<forall>i<length (kb_store (kb_of e')). \<not> key_on e' (KeyAt i) \<and>
        (\<forall>sc\<in>set (m_scanCodes (get_key (kb_of e') (KeyAt i))). code_of sc \<notin> os_down (en_injected e'))) \<and>
     (\<not> key_on e SyncKey \<longrightarrow> en_currentKeyPressCountOnWin32 e' = 0)"
proof -
  have lv: "live e" and wf: "wf_Keyboard (kb_of e)" using assms by (simp_all add: in_step_def)
  let ?ks = "all_keys (kb_of e)"
  have "\<forall>k\<in>set ?ks. key_ok (kb_of e) k" by (auto simp: set_all_keys [OF wf] key_ok_def)
  from release_fold [OF lv this, of True] obtain e' where e':
    "run_fold (release_if_pressed True) ?ks e = Inr e'" "gen_rel e e'"
    "\<forall>j. key_on e' j \<longleftrightarrow> key_on e j \<and> j \<notin> set ?ks" by blast
  have st: "in_step e'" using e'(2) assms by (simp add: gen_rel_def)
  have len: "i < length (kb_store (kb_of e')) \<longleftrightarrow> i < length (kb_store (kb_of e))" for i
    using gen_rel_static(1) [OF e'(2), of "KeyAt i"] by (simp add: key_ok_def)
  have off: "\<not> key_on e' (KeyAt i)" if "i < length (kb_store (kb_of e'))" for i
    using e'(3) that by (simp add: set_all_keys [OF wf] len)
  have "keys_down e' \<subseteq> {k. k = SyncKey \<and> key_on e SyncKey}"
  proof
    fix k assume "k \<in> keys_down e'"
    then show "k \<in> {k. k = SyncKey \<and> key_on e SyncKey}"
      using off e'(3) by (cases k) (auto simp: keys_down_def key_ok_def)
  qed
  then have none: "\<not> key_on e SyncKey \<Longrightarrow> keys_down e' = {}" by auto
  have "code_of sc \<notin> os_down (en_injected e')"
    if "i < length (kb_store (kb_of e'))" "sc \<in> set (m_scanCodes (get_key (kb_of e') (KeyAt i)))" for i sc
  proof -
    have "key_ok (kb_of e') (KeyAt i)" using that(1) by (simp add: key_ok_def)
    then show ?thesis using st that(2) off [OF that(1)] unfolding in_step_def by blast
  qed
  moreover have "en_currentKeyPressCountOnWin32 e' = int (card (keys_down e'))"
    using st by (simp add: in_step_def)
  moreover have "keyboardResetOnWin32 e = Inr e'"
    using e'(1) by (simp add: keyboardResetOnWin32_def setting_of_live [OF lv] kb_of_def)
  ultimately show ?thesis using st off none by (intro exI [of _ e']) simp
qed

section \<open>Witnesses\<close>

text \<open>A keyboard with a Shift, an Alt and an A key, and an engine that uses it.\<close>

definition ex_key :: "u16 \<Rightarrow> bool \<Rightarrow> Key" where
  "ex_key c on = (addScanCode \<lparr>m_scan = c, m_flags = 0\<rparr> new_Key)\<lparr>m_isPressedOnWin32 := on\<rparr>"

definition ex_mod_kb :: "bool \<Rightarrow> Keyboard" where
  "ex_mod_kb on = addModifier Type_Alt (KeyAt 1) (addModifier Type_Shift (KeyAt 0)
     (the (addKey (ex_key 0x1E False) (the (addKey (ex_key 0x38 on) (the (addKey (ex_key 0x2A on) new_Keyboard)))))))"

definition ex_engine :: "bool \<Rightarrow> Engine" where
  "ex_engine on = (new_Engine False False)\<lparr>en_setting := Some (new_Setting\<lparr>st_keyboard := ex_mod_kb on,
       st_keymaps := [new_Keymap ''Global'' None None]\<rparr>), en_currentKeymap := Some 0,
     en_lastGeneratedKey := (if on then Some (KeyAt 1) else None)\<rparr>"

lemma ex_getKeys: "getKeys (ex_key c on) = Some (unat c mod 128)"
  by (simp add: ex_key_def getKeys_def addScanCode_def new_Key_def HASHED_KEYS_SIZE_def)

lemma ex_mod_kb_fields:
  "kb_store (ex_mod_kb on) = [ex_key 0x2A on, ex_key 0x38 on, ex_key 0x1E False]"
  "m_mods (ex_mod_kb on) = (\<lambda>_. [])(Type_Shift := [KeyAt 0], Type_Alt := [KeyAt 1])"
  "m_syncKey (ex_mod_kb on) = new_Key"
  by (simp_all add: ex_mod_kb_def addKey_def ex_getKeys addModifier_def new_Keyboard_def)

lemma ex_mod_kb_wf: "wf_Keyboard (ex_mod_kb on)"
proof -
  have add: "addKey (ex_key c b) kb \<noteq> None" for c b kb by (simp add: addKey_def ex_getKeys)
  have wf: "wf_Keyboard (the (addKey (ex_key c b) kb))" if "wf_Keyboard kb" for c b kb
    using addKey_wf [OF that] add [of c b kb] by auto
  have "wf_Keyboard (addModifier t k kb)" if "wf_Keyboard kb" for t k kb
    using that by (simp add: wf_Keyboard_def addModifier_def)
  then show ?thesis unfolding ex_mod_kb_def by (simp add: wf new_Keyboard_wf)
qed

lemma ex_key_ok: "key_ok (ex_mod_kb on) k \<longleftrightarrow> k = KeyAt 0 \<or> k = KeyAt 1 \<or> k = KeyAt 2 \<or> k = SyncKey"
  by (cases k) (auto simp: key_ok_def ex_mod_kb_fields)

lemma ex_engine_kb [simp]: "kb_of (ex_engine on) = ex_mod_kb on"
  by (simp add: kb_of_def ex_engine_def)

lemma ex_engine_live [simp]: "live (ex_engine on)"
  by (simp add: live_def ex_engine_def new_Engine_def)

lemma ex_engine_mods: "mods_ok (ex_mod_kb on)" "mods_disjoint (ex_mod_kb on)"
  by (auto simp: mods_ok_def mods_disjoint_def ex_mod_kb_fields ex_key_ok)

lemma ex_engine_on: "key_on (ex_engine on) k \<longleftrightarrow> on" if "k \<in> {KeyAt 0, KeyAt 1}"
  using that by (auto simp: key_on_def get_key_def ex_mod_kb_fields ex_key_def)

lemma ex_engine_in_step: "in_step (ex_engine False)"
proof -
  have off: "\<not> key_on (ex_engine False) k" if "key_ok (ex_mod_kb False) k" for k
    using that by (auto simp: ex_key_ok key_on_def get_key_def ex_mod_kb_fields ex_key_def
        new_Key_def addScanCode_def)
  have codes: "m_scanCodes (get_key (ex_mod_kb on) (KeyAt 0)) = [\<lparr>m_scan = 0x2A, m_flags = 0\<rparr>]"
    "m_scanCodes (get_key (ex_mod_kb on) (KeyAt 1)) = [\<lparr>m_scan = 0x38, m_flags = 0\<rparr>]"
    "m_scanCodes (get_key (ex_mod_kb on) (KeyAt 2)) = [\<lparr>m_scan = 0x1E, m_flags = 0\<rparr>]"
    "m_scanCodes (get_key (ex_mod_kb on) SyncKey) = []" for on
    by (simp_all add: get_key_def ex_mod_kb_fields ex_key_def addScanCode_def new_Key_def)
  have "codes_distinct (ex_mod_kb False)"
    by (auto simp: codes_distinct_def ex_key_ok codes codes(2) [unfolded One_nat_def] code_of_def)
  moreover have "keys_down (ex_engine False) = {}" using off by (simp add: keys_down_def)
  moreover have "en_injected (ex_engine False) = []" "en_currentKeyPressCountOnWin32 (ex_engine False) = 0"
    by (simp_all add: ex_engine_def new_Engine_def)
  ultimately show ?thesis
    using off ex_mod_kb_wf ex_engine_mods by (simp add: in_step_def os_down_def)
qed

theorem modifiers_as_requested_witness:
  "\<exists>e'. generateModifierEvents (press Type_Shift new_Modifier) (ex_engine False) = Inr e' \<and>
     key_on e' (KeyAt 0) \<and> \<not> key_on e' (KeyAt 1)"
proof -
  let ?m = "press Type_Shift new_Modifier"
  have q: "\<forall>t\<in>set basic_types. quiet (ex_engine False) t"
    by (simp add: quiet_def ex_engine_def)
  have ne: "\<forall>t\<in>set basic_types. isPressed ?m t \<and> \<not> isDontcare ?m t \<longrightarrow> m_mods (kb_of (ex_engine False)) t \<noteq> []"
    by (simp add: ex_mod_kb_fields)
  have dis: "mods_disjoint (kb_of (ex_engine False))" by (simp add: ex_engine_mods)
  obtain e' where e': "generateModifierEvents ?m (ex_engine False) = Inr e'"
    "\<forall>t\<in>set basic_types. as_requested ?m t e'"
    using modifiers_as_requested [OF ex_engine_in_step dis q ne] by blast
  have "gen_rel (ex_engine False) e'"
    using modifiers_fold [OF ex_engine_live _ dis _ q ne] e'(1)
    by (simp add: generateModifierEvents_def ex_engine_mods basic_types_def)
  then have "m_mods (kb_of e') = m_mods (ex_mod_kb False)" using gen_rel_static(2) by fastforce
  with e' show ?thesis
    by (intro exI [of _ e']) (simp add: basic_types_def as_requested_def ex_mod_kb_fields)
qed

theorem alt_release_drops_required_shift_witness:
  "\<exists>e'. generateModifierEvents (press Type_Shift new_Modifier) (ex_engine True) = Inr e' \<and>
     \<not> as_requested (press Type_Shift new_Modifier) Type_Shift e'"
  by (rule alt_release_drops_required_shift [of _ "KeyAt 0" "[]" _ "KeyAt 1"])
     (simp_all add: ex_engine_mods ex_mod_kb_fields ex_engine_on basic_types_def, simp add: ex_engine_def)

theorem keyboard_reset_releases_all_witness:
  "\<exists>e'. keyboardResetOnWin32 (ex_engine False) = Inr e' \<and> in_step e'"
  using keyboard_reset_releases_all [OF ex_engine_in_step] by blast

end
