(* ===== verification/Engine_Generator.thy ===== *)
theory Engine_Generator
  imports Key_Generation
begin

text \<open>
  Running key sequences (src/core/engine/engine_generator.cpp) and the commands they call
  (src/core/commands). Key sequences, keymaps and commands call each other without a bound, so
  the calls are a function of a fuel counter; every function below takes the function it calls
  back as its argument \<open>call\<close>. Every command of src/core/commands that changes the engine or
  injects input is here, on the Linux window system (src/platform/linux/window_system_linux.cpp);
  the others (windows, dialogs, the mouse pointer, the log, other programs) change nothing of the
  modelled state. A plug-in's own code runs in a library that does not see the engine.
\<close>

section \<open>Calls\<close>

datatype Part = Part_all | Part_up | Part_down

record Current =
  cu_keymap :: "kmref option"
  cu_mkey :: ModifiedKey
  cu_evdev :: u16

datatype call =
    KeySeqEvents Current ksref Part
  | KeyboardEvents Current

type_synonym caller = "call \<Rightarrow> Engine \<Rightarrow> Engine run"

definition cu_isPressed :: "Current \<Rightarrow> bool" where
  "cu_isPressed c = isPressed (mk_modifier (cu_mkey c)) Type_Down"

definition search_for :: "Current \<Rightarrow> Engine \<Rightarrow> KeyAssignment option run" where
  "search_for c e =
     run_bind (setting_of e) (\<lambda>st. run_bind (keymap_at st (cu_keymap c)) (\<lambda>km.
       deref (searchAssignment (st_keyboard st) km (cu_mkey c))))"

definition generateEvents :: "caller \<Rightarrow> Current \<Rightarrow> kmref option \<Rightarrow> event_key \<Rightarrow> Engine \<Rightarrow> Engine run" where
  "generateEvents call c km ev e =
     (let c' = c\<lparr>cu_keymap := km, cu_mkey := (cu_mkey c)\<lparr>mk_key := Some (EventKey ev)\<rparr>\<rparr>
      in run_bind (search_for c' e) (\<lambda>r. case r of
           None \<Rightarrow> Inr e
         | Some a \<Rightarrow> call (KeySeqEvents c' (ka_keySeq a) Part_all) e))"

section \<open>Commands\<close>

definition s32_ok :: "int \<Rightarrow> bool" where
  "s32_ok i \<longleftrightarrow> - (2 ^ 31) \<le> i \<and> i < 2 ^ 31"

definition cmd_default :: "Current \<Rightarrow> bool \<Rightarrow> Engine \<Rightarrow> Engine run" where
  "cmd_default c pressed e =
     run_bind (if pressed then generateModifierEvents (mk_modifier (cu_mkey c)) e else Inr e) (\<lambda>e1.
     run_bind (deref (mk_key (cu_mkey c))) (\<lambda>k. generateKeyEvent k pressed True e1))"

definition cmd_keymap_parent :: "caller \<Rightarrow> Current \<Rightarrow> bool \<Rightarrow> Engine \<Rightarrow> Engine run" where
  "cmd_keymap_parent call c pressed e =
     run_bind (setting_of e) (\<lambda>st. run_bind (keymap_at st (cu_keymap c)) (\<lambda>km.
       case km_parentKeymap km of
         None \<Rightarrow> cmd_default c pressed e
       | Some p \<Rightarrow> call (KeyboardEvents (c\<lparr>cu_keymap := Some p\<rparr>)) e))"

definition cmd_keymap :: "caller \<Rightarrow> kmref \<Rightarrow> Current \<Rightarrow> Engine \<Rightarrow> Engine run" where
  "cmd_keymap call km c e = call (KeyboardEvents (c\<lparr>cu_keymap := Some km\<rparr>)) e"

text \<open>The difference of an unsigned size and the argument is never negative, so the only guard
  is \<open>0 < previous\<close>; past the oldest entry the iterator is the end.\<close>

definition cmd_keymap_prev_prefix :: "caller \<Rightarrow> int \<Rightarrow> Current \<Rightarrow> Engine \<Rightarrow> Engine run" where
  "cmd_keymap_prev_prefix call previous c e =
     (if 0 < previous then
        (let n = nat (previous - 1); h = rev (en_keymapPrefixHistory e)
         in if n < length h then call (KeyboardEvents (c\<lparr>cu_keymap := h ! n\<rparr>)) e else Inl Undefined)
      else Inr e)"

definition cmd_prefix :: "caller \<Rightarrow> kmref \<Rightarrow> bool \<Rightarrow> Current \<Rightarrow> bool \<Rightarrow> Engine \<Rightarrow> Engine run" where
  "cmd_prefix call km ignoreModifiers c pressed e =
     (if \<not> pressed then Inr e
      else let e1 = setCurrentKeymap (Some km) True e
           in run_bind (generateEvents call c (en_currentKeymap e1) Ev_prefixed e1) (\<lambda>e2.
              Inr (e2\<lparr>en_isPrefix := True, en_doesEditNextModifier := False,
                      en_doesIgnoreModifierForPrefix := ignoreModifiers\<rparr>)))"

definition cmd_cancel_prefix :: "Engine \<Rightarrow> Engine" where
  "cmd_cancel_prefix e = e\<lparr>en_isPrefix := False\<rparr>"

definition cmd_edit_next_modifier :: "Modifier \<Rightarrow> bool \<Rightarrow> Engine \<Rightarrow> Engine" where
  "cmd_edit_next_modifier m pressed e =
     (if \<not> pressed then e
      else e\<lparr>en_isPrefix := True, en_doesEditNextModifier := True,
             en_modifierForNextKey := Modifier_add (en_modifierForNextKey e) m\<rparr>)"

definition cmd_variable :: "int \<Rightarrow> int \<Rightarrow> bool \<Rightarrow> Engine \<Rightarrow> Engine run" where
  "cmd_variable mag inc pressed e =
     (if \<not> pressed then Inr e
      else let p = en_variable e * mag; v = p + inc
           in if s32_ok p \<and> s32_ok v then Inr (e\<lparr>en_variable := v\<rparr>) else Inl Undefined)"

definition cmd_repeat :: "caller \<Rightarrow> ksref \<Rightarrow> int \<Rightarrow> Current \<Rightarrow> bool \<Rightarrow> Engine \<Rightarrow> Engine run" where
  "cmd_repeat call ks maxCount c pressed e =
     (if pressed then
        (let n = min (en_variable e) maxCount
         in run_bind (run_fold (\<lambda>_. call (KeySeqEvents c ks Part_all)) [0..<nat (n - 1)] e) (\<lambda>e1.
            if 0 < n then call (KeySeqEvents c ks Part_down) e1 else Inr e1))
      else call (KeySeqEvents c ks Part_up) e)"

definition cmd_toggle :: "modifier_type \<Rightarrow> ToggleType \<Rightarrow> bool \<Rightarrow> Engine \<Rightarrow> Engine" where
  "cmd_toggle mt ty pressed e =
     (if pressed then e
      else e\<lparr>en_currentLock := press_if mt
              (case ty of
                 ToggleType_toggle \<Rightarrow> \<not> isPressed (en_currentLock e) mt
               | ToggleType_off \<Rightarrow> False
               | ToggleType_on \<Rightarrow> True) (en_currentLock e)\<rparr>)"

text \<open>The Linux window system knows no console windows and no virtual keys.\<close>

definition isConsoleWindow :: bool where "isConsoleWindow = False"

definition mapVirtualKey :: "u8 \<Rightarrow> u16" where "mapVirtualKey vkey = 0"

text \<open>The wait for the other side, the mutex released, is between the two assignments.\<close>

definition cmd_sync :: "Modifier \<Rightarrow> bool \<Rightarrow> Engine \<Rightarrow> Engine run" where
  "cmd_sync m pressed e =
     run_bind (if pressed then generateModifierEvents m e else Inr e) (\<lambda>e1.
       if \<not> pressed \<or> isConsoleWindow then Inr e1
       else run_bind (setting_of e1) (\<lambda>st.
         if m_scanCodes (m_syncKey (st_keyboard st)) = [] then Inr e1
         else run_bind (generateKeyEvent SyncKey False False (e1\<lparr>en_isSynchronizing := True\<rparr>)) (\<lambda>e2.
              Inr (e2\<lparr>en_isSynchronizing := False\<rparr>))))"

definition cmd_wait :: "int \<Rightarrow> bool \<Rightarrow> Engine \<Rightarrow> Engine" where
  "cmd_wait milliSecond pressed e =
     (if \<not> pressed \<or> milliSecond < 0 \<or> 5000 < milliSecond then e
      else e\<lparr>en_isSynchronizing := False\<rparr>)"

definition VKey_extended :: u32 where "VKey_extended = 0x100"
definition VKey_released :: u32 where "VKey_released = 0x200"
definition VKey_pressed :: u32 where "VKey_pressed = 0x400"

definition vk_mouse_code :: "u8 \<Rightarrow> u16 option" where
  "vk_mouse_code vkey =
     (if vkey = 1 then Some 1 else if vkey = 2 then Some 2 else if vkey = 4 then Some 3
      else if vkey = 5 then Some 6 else if vkey = 6 then Some 7 else None)"

definition cmd_vk :: "u32 \<Rightarrow> bool \<Rightarrow> Engine \<Rightarrow> Engine" where
  "cmd_vk key pressed e =
     (let vkey = ucast key :: u8;
          isUp = (\<not> pressed \<and> key AND VKey_released \<noteq> 0);
          isDown = (pressed \<and> key AND VKey_pressed \<noteq> 0);
          brk = (if isUp then KID_BREAK else 0)
      in if \<not> isUp \<and> \<not> isDown then e
         else e\<lparr>en_injected := en_injected e @ [Inject (case vk_mouse_code vkey of
                Some c \<Rightarrow> \<lparr>UnitId = 0, MakeCode = c, Flags = KID_E1 OR brk, Reserved = 0,
                  ExtraInformation = 0\<rparr>
              | None \<Rightarrow> \<lparr>UnitId = 0, MakeCode = mapVirtualKey vkey,
                  Flags = (if key AND VKey_extended \<noteq> 0 then KID_E0 else 0) OR brk, Reserved = 0,
                  ExtraInformation = 0\<rparr>)]\<rparr>)"

definition cmd_mouse_wheel :: "int \<Rightarrow> bool \<Rightarrow> Engine \<Rightarrow> Engine" where
  "cmd_mouse_wheel delta pressed e =
     (if \<not> pressed then e
      else e\<lparr>en_injected := en_injected e @ [Inject
             \<lparr>UnitId = 0, MakeCode = 10, Flags = KID_E1, Reserved = 0,
              ExtraInformation = word_of_int delta\<rparr>]\<rparr>)"

text \<open>The modifier is that of the action the command stands in.\<close>

primrec exec ::
    "FunctionData \<Rightarrow> Modifier \<Rightarrow> caller \<Rightarrow> Current \<Rightarrow> bool \<Rightarrow> Engine \<Rightarrow> Engine run" where
  "exec FD_Default am call c pressed e = cmd_default c pressed e"
| "exec FD_KeymapParent am call c pressed e = cmd_keymap_parent call c pressed e"
| "exec (FD_Keymap km) am call c pressed e = cmd_keymap call km c e"
| "exec (FD_KeymapPrevPrefix i) am call c pressed e = cmd_keymap_prev_prefix call i c e"
| "exec (FD_Prefix km ign) am call c pressed e = cmd_prefix call km ign c pressed e"
| "exec FD_CancelPrefix am call c pressed e = Inr (cmd_cancel_prefix e)"
| "exec (FD_EditNextModifier m) am call c pressed e = Inr (cmd_edit_next_modifier m pressed e)"
| "exec (FD_Variable mag inc) am call c pressed e = cmd_variable mag inc pressed e"
| "exec (FD_Repeat ks n) am call c pressed e = cmd_repeat call ks n c pressed e"
| "exec (FD_Toggle mt ty) am call c pressed e = Inr (cmd_toggle mt ty pressed e)"
| "exec FD_Ignore am call c pressed e = Inr e"
| "exec FD_Sync am call c pressed e = cmd_sync am pressed e"
| "exec (FD_Wait ms) am call c pressed e = Inr (cmd_wait ms pressed e)"
| "exec (FD_VK k) am call c pressed e = Inr (cmd_vk k pressed e)"
| "exec (FD_MouseWheel d) am call c pressed e = Inr (cmd_mouse_wheel d pressed e)"
| "exec (FD_Other n) am call c pressed e = Inr e"

section \<open>Actions, sequences and keymaps\<close>

definition wants :: "Modifier \<Rightarrow> modifier_type \<Rightarrow> bool" where
  "wants m t \<longleftrightarrow> isPressed m t \<or> isDontcare m t"

definition up_down :: "bool \<Rightarrow> ModifiedKey \<Rightarrow> ModifiedKey" where
  "up_down doPress mk =
     mk\<lparr>mk_modifier := press_if Type_Down doPress (press_if Type_Up (\<not> doPress) (mk_modifier mk))\<rparr>"

definition generateActionEvents :: "caller \<Rightarrow> Current \<Rightarrow> Action \<Rightarrow> bool \<Rightarrow> Engine \<Rightarrow> Engine run" where
  "generateActionEvents call c a doPress e =
     (case a of
        ActionKey mk \<Rightarrow>
          (let m = mk_modifier mk in
           if \<not> doPress \<and> wants m Type_Up then
             run_bind (deref (mk_key mk)) (\<lambda>k. generateKeyEvent k False True e)
           else if doPress \<and> wants m Type_Down then
             run_bind (generateModifierEvents (Modifier_add m (mk_modifier (cu_mkey c))) e) (\<lambda>e1.
             run_bind (deref (mk_key mk)) (\<lambda>k. generateKeyEvent k True True e1))
           else Inr e)
      | ActionKeySeq r \<Rightarrow> call (KeySeqEvents c r (if doPress then Part_down else Part_up)) e
      | ActionFunction fd m \<Rightarrow>
          (let is_up = (\<not> doPress \<and> wants m Type_Up); is_down = (doPress \<and> wants m Type_Down)
           in if \<not> is_down \<and> \<not> is_up then Inr e
              else exec fd m call (c\<lparr>cu_mkey := up_down doPress (cu_mkey c)\<rparr>) doPress e))"

definition keyseq_at :: "Setting \<Rightarrow> ksref \<Rightarrow> KeySeq run" where
  "keyseq_at st r = (if r < length (st_keySeqs st) then Inr (st_keySeqs st ! r) else Inl Undefined)"

definition generateKeySeqEvents :: "caller \<Rightarrow> Current \<Rightarrow> ksref \<Rightarrow> Part \<Rightarrow> Engine \<Rightarrow> Engine run" where
  "generateKeySeqEvents call c r part e =
     run_bind (setting_of e) (\<lambda>st. run_bind (keyseq_at st r) (\<lambda>ks.
       let as = sq_actions ks; act = generateActionEvents call c in
       if as = [] then Inr e
       else if part = Part_up then act (last as) False e
       else run_bind (run_fold (\<lambda>a e. run_bind (act a True e) (act a False)) (butlast as) e) (\<lambda>e1.
            run_bind (act (last as) True e1) (\<lambda>e2.
            if part = Part_all then act (last as) False e2 else Inr e2))))"

definition generateKeyboardEvents :: "caller \<Rightarrow> Current \<Rightarrow> Engine \<Rightarrow> Engine run" where
  "generateKeyboardEvents call c e =
     (let e1 = e\<lparr>en_recursionGuard := en_recursionGuard e + 1\<rparr>;
          part = (if cu_isPressed c then Part_down else Part_up) in
      if en_recursionGuard e1 = MAX_GENERATE_KEYBOARD_EVENTS_RECURSION_COUNT then Inr e1
      else run_bind (search_for c e1) (\<lambda>r.
        run_bind (case r of
            None \<Rightarrow> run_bind (setting_of e1) (\<lambda>st. run_bind (keymap_at st (cu_keymap c)) (\<lambda>km.
                     run_bind (deref (km_defaultKeySeq km)) (\<lambda>ks. call (KeySeqEvents c ks part) e1)))
          | Some a \<Rightarrow>
              (let m = mk_modifier (ka_modifiedKey a) in
               call (KeySeqEvents c (ka_keySeq a)
                      (if isPressed m Type_Up \<or> isPressed m Type_Down then Part_all else part)) e1))
          (\<lambda>e2. Inr (e2\<lparr>en_recursionGuard := en_recursionGuard e2 - 1\<rparr>))))"

text \<open>The calls, cut off at depth \<open>fuel\<close>.\<close>

primrec gen :: "nat \<Rightarrow> caller" where
  "gen 0 cl e = Inl Out_of_fuel"
| "gen (Suc n) cl e =
     (case cl of
        KeySeqEvents c r part \<Rightarrow> generateKeySeqEvents (gen n) c r part e
      | KeyboardEvents c \<Rightarrow> generateKeyboardEvents (gen n) c e)"

end
