(* ===== verification/Engine_Handler.thy ===== *)
theory Engine_Handler
  imports Engine_Generator
begin

text \<open>
  \<^verbatim>\<open>beginGeneratingKeyboardEvents\<close> (src/core/engine/engine_generator.cpp) and the body of the
  keyboard handler thread on Linux (engine_keyboard_handler.cpp): what one input event does to
  the engine.
\<close>

unbundle bit_operations_syntax

section \<open>The environment of one event\<close>

text \<open>
  The header values and layout behind the key code tables, the two readings of the clock
  (\<^const>\<open>processEvent\<close>), and the function that runs sequences (\<^const>\<open>gen\<close>).
\<close>

record event_env =
  env_ev :: "evkey \<Rightarrow> u16"
  env_layout :: string
  env_clock_a :: "nat \<Rightarrow> int"
  env_clock_b :: "nat \<Rightarrow> int"
  env_call :: caller

section \<open>Physical keys and virtual modifiers\<close>

definition hasActiveVirtualModifiers :: "Engine \<Rightarrow> bool" where
  "hasActiveVirtualModifiers e =
     list_ex (\<lambda>i. bit (ms_state (en_modifierState e)) (VIRTUAL_OFFSET + i)) [0..<256]"

text \<open>\<^verbatim>\<open>m_virtualMods[i / 32] |= (1U << (i % 32))\<close> for every active modifier.\<close>

definition active_virtualMods :: "state_bits \<Rightarrow> u32 list" where
  "active_virtualMods st =
     fold (\<lambda>i ws. if bit st (VIRTUAL_OFFSET + i)
                  then ws[i div 32 := ws ! (i div 32) OR push_bit (i mod 32) 1] else ws)
       [0..<256] (replicate 8 0)"

definition buildPhysicalModifiedKey :: "Keyboard \<Rightarrow> Keymap \<Rightarrow> Current \<Rightarrow> Engine \<Rightarrow> ModifiedKey" where
  "buildPhysicalModifiedKey kb km c e =
     new_ModifiedKey\<lparr>mk_key := mk_key (cu_mkey c),
       mk_virtualMods := active_virtualMods (ms_state (en_modifierState e)),
       mk_modifier := getCurrentModifiers kb km (mk_key (cu_mkey c))
         (isPressed (mk_modifier (cu_mkey c)) Type_Down) e\<rparr>"

section \<open>Substituted keys\<close>

text \<open>The loop over the keyboard for the first key with a given first scan code.\<close>

definition key_with_code :: "Keyboard \<Rightarrow> u16 \<Rightarrow> keyref option" where
  "key_with_code kb code =
     find (\<lambda>k. case m_scanCodes (get_key kb k) of [] \<Rightarrow> False | sc # _ \<Rightarrow> m_scan sc = code) (all_keys kb)"

definition first_code :: "Keyboard \<Rightarrow> keyref option \<Rightarrow> u16" where
  "first_code kb k = (case input_code kb k of Some c \<Rightarrow> c | None \<Rightarrow> 0)"

text \<open>The modifiers of a substitute: up or down as the physical key, the rest filled in from it.\<close>

definition substitute_modifiers :: "bool \<Rightarrow> Modifier \<Rightarrow> ModifiedKey \<Rightarrow> ModifiedKey" where
  "substitute_modifiers pressed from mk =
     mk\<lparr>mk_modifier :=
       fold (\<lambda>t m. if isDontcare m t \<and> \<not> isDontcare from t then press_if t (isPressed from t) m else m)
         all_types
         (if pressed then press Type_Down (release Type_Up (mk_modifier mk))
          else release Type_Down (press Type_Up (mk_modifier mk)))\<rparr>"

section \<open>Through the event processor\<close>

definition tap_key :: "keyref \<Rightarrow> Engine \<Rightarrow> Engine run" where
  "tap_key k e = run_bind (generateKeyEvent k True False e) (generateKeyEvent k False False)"

text \<open>What follows \<^verbatim>\<open>processEvent\<close>; the result is the end of the handling.\<close>

definition after_processor :: "Setting \<Rightarrow> Current \<Rightarrow> bool \<Rightarrow> ProcessedEvent \<Rightarrow> Engine \<Rightarrow> Engine run" where
  "after_processor st c pressed result e =
     (let kb = st_keyboard st in
      if output_evdev result = 0 then Inr e
      else if is_tap result \<and> pe_valid result \<and> output_yamy result \<noteq> 0 then
        (case key_with_code kb (output_yamy result) of
           None \<Rightarrow> Inr e
         | Some k \<Rightarrow> tap_key k e)
      else
        let out = (if pe_valid result \<and> output_yamy result \<noteq> 0 \<and>
                      output_yamy result \<noteq> first_code kb (mk_key (cu_mkey c))
                   then (case key_with_code kb (output_yamy result) of
                           Some k \<Rightarrow> Some k
                         | None \<Rightarrow> mk_key (cu_mkey c))
                   else mk_key (cu_mkey c))
        in case out of None \<Rightarrow> Inr e | Some k \<Rightarrow> generateKeyEvent k pressed False e)"

definition run_processor :: "event_env \<Rightarrow> EventProcessor \<Rightarrow> Current \<Rightarrow> bool \<Rightarrow> Engine \<Rightarrow> Engine run" where
  "run_processor env ep c pressed e =
     run_bind (setting_of e) (\<lambda>st.
       case processEvent (env_ev env) (env_layout env) (env_clock_a env) (env_clock_b env)
              (cu_evdev c) (if pressed then PRESS else RELEASE) ep (Some (en_modifierState e)) of
         (result, ep', ms) \<Rightarrow>
           after_processor st c pressed result
             (e\<lparr>en_eventProcessor := Some ep',
                en_modifierState := (case ms of Some s \<Rightarrow> s | None \<Rightarrow> en_modifierState e)\<rparr>))"

section \<open>Without an event processor\<close>

definition legacy_substitute :: "Keyboard \<Rightarrow> Current \<Rightarrow> bool \<Rightarrow> Current" where
  "legacy_substitute kb c pressed =
     (let mk = searchSubstitute (cu_mkey c) kb in
      if mk_key mk = None then c
      else c\<lparr>cu_mkey := substitute_modifiers pressed (mk_modifier (cu_mkey c)) mk\<rparr>)"

definition legacy_generate :: "event_env \<Rightarrow> Current \<Rightarrow> bool \<Rightarrow> bool \<Rightarrow> Engine \<Rightarrow> Engine run" where
  "legacy_generate env c isMod pressed e =
     run_bind (setting_of e) (\<lambda>st.
       let c1 = legacy_substitute (st_keyboard st) c pressed;
           tmp = en_currentKeymap e;
           e1 = (if isMod \<or> \<not> en_isPrefix e then e
                 else if pressed then e\<lparr>en_isPrefix := False\<rparr>
                 else e\<lparr>en_currentKeymap := en_globalKeymap e\<rparr>);
           c2 = c1\<lparr>cu_mkey := (cu_mkey c1)
                  \<lparr>mk_modifier := Modifier_add (mk_modifier (cu_mkey c1)) (toModifier (en_modifierState e1)),
                   mk_virtualMods := active_virtualMods (ms_state (en_modifierState e1))\<rparr>\<rparr>;
           e2 = e1\<lparr>en_recursionGuard := 0\<rparr>
       in run_bind (if pressed then generateEvents (env_call env) c2 (cu_keymap c2) Ev_before_key_down e2
                    else Inr e2) (\<lambda>e3.
          run_bind (env_call env (KeyboardEvents c2) e3) (\<lambda>e4.
          run_bind (if \<not> pressed then generateEvents (env_call env) c2 (cu_keymap c2) Ev_after_key_up e4
                    else Inr e4) (\<lambda>e5.
          Inr (if isMod then e5
               else if \<not> en_isPrefix e5 then e5\<lparr>en_currentKeymap := en_globalKeymap e5\<rparr>
               else if \<not> pressed then e5\<lparr>en_currentKeymap := tmp\<rparr> else e5)))))"

section \<open>One key\<close>

definition beginGeneratingKeyboardEvents :: "event_env \<Rightarrow> Current \<Rightarrow> bool \<Rightarrow> Engine \<Rightarrow> Engine run" where
  "beginGeneratingKeyboardEvents env c isMod e =
     (let pressed = isPressed (mk_modifier (cu_mkey c)) Type_Down;
          rest = (case en_eventProcessor e of
                    Some ep \<Rightarrow> if cu_evdev c \<noteq> 0 then run_processor env ep c pressed e
                               else legacy_generate env c isMod pressed e
                  | None \<Rightarrow> legacy_generate env c isMod pressed e)
      in if hasActiveVirtualModifiers e \<and> \<not> isMod then
           run_bind (setting_of e) (\<lambda>st. run_bind (keymap_at st (en_currentKeymap e)) (\<lambda>km.
           run_bind (deref (searchAssignment (st_keyboard st) km
                       (buildPhysicalModifiedKey (st_keyboard st) km c e))) (\<lambda>r.
             case r of
               Some a \<Rightarrow> env_call env (KeySeqEvents c (ka_keySeq a)
                           (if pressed then Part_down else Part_up)) e
             | None \<Rightarrow> rest)))
         else rest)"

section \<open>The handler thread\<close>

text \<open>The key whose single scan code is that of the event.\<close>

definition event_key_of :: "KEYBOARD_INPUT_DATA \<Rightarrow> Key" where
  "event_key_of kid = addScanCode \<lparr>m_scan = MakeCode kid, m_flags = Flags kid\<rparr> new_Key"

text \<open>Finding the key: \<open>Inr (Inl ())\<close> is the \<^verbatim>\<open>continue\<close> after a prefix match.\<close>

definition lookup_key :: "Keyboard \<Rightarrow> KEYBOARD_INPUT_DATA \<Rightarrow> bool \<Rightarrow> (unit + keyref option) run" where
  "lookup_key kb kid isMouseEvent =
     run_bind (deref (searchKey (event_key_of kid) kb)) (\<lambda>found. case found of
         Some k \<Rightarrow> Inr (Inr (Some k))
       | None \<Rightarrow>
           if isMouseEvent then Inr (Inr None)
           else run_bind (deref (searchPrefixKey (event_key_of kid) kb)) (\<lambda>p. case p of
                  Some _ \<Rightarrow> Inr (Inl ())
                | None \<Rightarrow> Inr (Inr None)))"

definition count_press :: "keyref option \<Rightarrow> bool \<Rightarrow> Engine \<Rightarrow> Engine" where
  "count_press k pressed e =
     (case k of
        None \<Rightarrow> e
      | Some r \<Rightarrow>
          (let was = m_isPressed (get_key (kb_of e) r) in
           on_keyboard (update_key r (\<lambda>q. q\<lparr>m_isPressed := pressed\<rparr>))
             (e\<lparr>en_currentKeyPressCount := en_currentKeyPressCount e +
                 (if \<not> was \<and> pressed then 1 else if was \<and> \<not> pressed then -1 else 0)\<rparr>)))"

definition handle_oneShot :: "event_env \<Rightarrow> Current \<Rightarrow> AssignMode \<Rightarrow> bool \<Rightarrow> Setting \<Rightarrow> Engine \<Rightarrow> Engine run" where
  "handle_oneShot env c am pressed st e =
     (if pressed then
        (if am = AM_oneShotRepeatable \<and> mk_key (en_oneShotKey e) = mk_key (cu_mkey c) then
           run_bind (if en_oneShotRepeatableRepeatCount e < st_oneShotRepeatableDelay st then Inr e
                     else beginGeneratingKeyboardEvents env c False e) (\<lambda>e1.
             Inr (e1\<lparr>en_oneShotRepeatableRepeatCount := en_oneShotRepeatableRepeatCount e1 + 1\<rparr>))
         else Inr (e\<lparr>en_oneShotKey := cu_mkey c, en_oneShotRepeatableRepeatCount := 0\<rparr>))
      else
        run_bind (if mk_key (en_oneShotKey e) = None then Inr e
                  else
                    let down = (\<lambda>m. press Type_Down (release Type_Up m));
                        up = (\<lambda>m. release Type_Down (press Type_Up m));
                        with_mod = (\<lambda>m. c\<lparr>cu_mkey := (cu_mkey c)\<lparr>mk_modifier := m\<rparr>\<rparr>)
                    in run_bind (beginGeneratingKeyboardEvents env
                                   (with_mod (down (mk_modifier (en_oneShotKey e)))) False e) (\<lambda>e1.
                       beginGeneratingKeyboardEvents env
                         (with_mod (up (mk_modifier (en_oneShotKey e1)))) False e1))
          (\<lambda>e2. Inr (e2\<lparr>en_oneShotKey := (en_oneShotKey e2)\<lparr>mk_key := None\<rparr>,
                         en_oneShotRepeatableRepeatCount := 0\<rparr>)))"

text \<open>The chain of cases after the key and its modifiers are known. No event has the E1 flag
  here unless the caller says so.\<close>

definition dispatch_key ::
    "event_env \<Rightarrow> KEYBOARD_INPUT_DATA \<Rightarrow> Current \<Rightarrow> bool \<Rightarrow> AssignMode \<Rightarrow> bool \<Rightarrow> Setting \<Rightarrow> Engine \<Rightarrow> Engine run" where
  "dispatch_key env kid c isMod am pressed st e =
     (let pass_E1 = (if Flags kid AND KID_E1 \<noteq> 0 then injectInput kid e else e) in
      if en_isLogMode e then Inr pass_E1
      else if am = AM_true then Inr e
      else if am = AM_oneShot \<or> am = AM_oneShotRepeatable then handle_oneShot env c am pressed st e
      else if mk_key (cu_mkey c) \<noteq> None then
        beginGeneratingKeyboardEvents env c isMod
          (if pressed then e\<lparr>en_oneShotKey := (en_oneShotKey e)\<lparr>mk_key := None\<rparr>\<rparr> else e)
      else Inr pass_E1)"

definition release_unused_modifiers :: "Engine \<Rightarrow> Engine run" where
  "release_unused_modifiers e =
     (if en_currentKeyPressCount e \<le> 0 then generateModifierEvents new_Modifier e else Inr e)"

definition handle_key ::
    "event_env \<Rightarrow> KeyEvent \<Rightarrow> KEYBOARD_INPUT_DATA \<Rightarrow> keyref option \<Rightarrow> Engine \<Rightarrow> Engine run" where
  "handle_key env event kid k e =
     (let pressed = ke_isKeyDown event; e1 = count_press k pressed e in
      run_bind (setting_of e1) (\<lambda>st. run_bind (keymap_at st (en_currentKeymap e1)) (\<lambda>km.
      let m = getCurrentModifiers (st_keyboard st) km k pressed e1;
          mk0 = (case k of Some r \<Rightarrow> ModifiedKey_of r | None \<Rightarrow> new_ModifiedKey)\<lparr>mk_modifier := m\<rparr>
      in run_bind (fixModifierKey km mk0) (\<lambda>(mk1, am, isMod).
         let am' = (if en_isPrefix e1 \<and> isMod \<and> en_doesIgnoreModifierForPrefix e1 then AM_true else am);
             mk2 = (if en_isPrefix e1 \<and> en_doesEditNextModifier e1
                    then mk1\<lparr>mk_modifier := Modifier_add (en_modifierForNextKey e1) (mk_modifier mk1)\<rparr>
                    else mk1);
             c = \<lparr>cu_keymap = en_currentKeymap e, cu_mkey = mk2, cu_evdev = ucast (ke_scanCode event)\<rparr>
         in run_bind (dispatch_key env kid c isMod am' pressed st e1) release_unused_modifiers))))"

definition handle_event :: "event_env \<Rightarrow> KeyEvent \<Rightarrow> Engine \<Rightarrow> Engine run" where
  "handle_event env event e =
     (let kid = keyEventToKID event in
      if en_setting e = None \<or> \<not> en_isEnabled e then
        Inr (updateLastPressedKey None
              (if en_isLogMode e then (if Flags kid AND KID_E1 \<noteq> 0 then injectInput kid e else e)
               else injectInput kid e))
      else if en_currentKeymap e = None then
        Inr (updateLastPressedKey None (injectInput kid e))
      else run_bind (setting_of e) (\<lambda>st.
        run_bind (lookup_key (st_keyboard st) kid (ke_extraInfo event = MOUSE_EVENT_MARKER)) (\<lambda>found.
          case found of
            Inl _ \<Rightarrow> Inr e
          | Inr k \<Rightarrow> handle_key env event kid k e)))"

text \<open>The queue, front first; each event has its own clock readings.\<close>

definition handle_events :: "(event_env \<times> KeyEvent) list \<Rightarrow> Engine \<Rightarrow> Engine run" where
  "handle_events = run_fold (\<lambda>(env, event). handle_event env event)"

end
