(* ===== verification/Engine_Invariants.thy ===== *)
theory Engine_Invariants
  imports Engine_Handler
begin

text \<open>
  Invariants of the whole engine: whatever sequences, commands and events run, the engine's
  record of the keys it holds down, the counts of them and the key state of the system stay in
  step; with the behaviour of the recursion guard and of events the processor drops.
\<close>

unbundle bit_operations_syntax

section \<open>What every run keeps\<close>

definition run_rel :: "Engine \<Rightarrow> Engine \<Rightarrow> bool" where
  "run_rel e e' \<longleftrightarrow>
     live e' \<and> the (en_setting e') = (the (en_setting e))\<lparr>st_keyboard := kb_of e'\<rparr> \<and>
     m_mods (kb_of e') = m_mods (kb_of e) \<and> m_substitutes (kb_of e') = m_substitutes (kb_of e) \<and>
     (\<forall>k. key_ok (kb_of e') k = key_ok (kb_of e) k) \<and>
     (\<forall>k. key_ok (kb_of e) k \<longrightarrow> m_scanCodes (get_key (kb_of e') k) = m_scanCodes (get_key (kb_of e) k) \<and>
        m_isPressed (get_key (kb_of e') k) = m_isPressed (get_key (kb_of e) k)) \<and>
     en_currentKeyPressCount e' = en_currentKeyPressCount e \<and>
     std_flag (en_modifierState e') = std_flag (en_modifierState e) \<and>
     (en_eventProcessor e' = None \<longleftrightarrow> en_eventProcessor e = None) \<and>
     (wf_Keyboard (kb_of e) \<longrightarrow> wf_Keyboard (kb_of e')) \<and>
     (in_step e \<longrightarrow> in_step e')"

lemma run_rel_refl: "live e \<Longrightarrow> run_rel e e"
  by (simp add: run_rel_def kb_of_def)

lemma run_rel_trans: "run_rel a b \<Longrightarrow> run_rel b c \<Longrightarrow> run_rel a c"
  by (simp add: run_rel_def)

lemma gen_rel_run_rel: "gen_rel e e' \<Longrightarrow> run_rel e e'"
proof -
  assume g: "gen_rel e e'"
  then have "en_currentKeyPressCount (rest_of e') = en_currentKeyPressCount (rest_of e)"
    by (simp add: gen_rel_def gen_frame_def)
  then have "en_currentKeyPressCount e' = en_currentKeyPressCount e" by (simp add: rest_of_def)
  moreover have "en_modifierState (rest_of e') = en_modifierState (rest_of e)"
    using g by (simp add: gen_rel_def gen_frame_def)
  then have "en_modifierState e' = en_modifierState e" by (simp add: rest_of_def)
  moreover have "en_eventProcessor (rest_of e') = en_eventProcessor (rest_of e)"
    using g by (simp add: gen_rel_def gen_frame_def)
  then have "en_eventProcessor e' = en_eventProcessor e" by (simp add: rest_of_def)
  moreover have "wf_Keyboard (kb_of e) \<Longrightarrow> wf_Keyboard (kb_of e')"
    by (rule wf_Keyboard_static [of _ "kb_of e"]) (use g in \<open>simp_all add: gen_rel_def gen_frame_def\<close>)
  ultimately show ?thesis using g by (simp add: run_rel_def gen_rel_def gen_frame_def)
qed

text \<open>The fields the relation speaks of.\<close>

definition same_out :: "Engine \<Rightarrow> Engine \<Rightarrow> bool" where
  "same_out e e' \<longleftrightarrow> en_setting e' = en_setting e \<and> en_settingDeleted e' = en_settingDeleted e \<and>
     en_currentKeyPressCountOnWin32 e' = en_currentKeyPressCountOnWin32 e \<and>
     en_injected e' = en_injected e \<and> en_currentKeyPressCount e' = en_currentKeyPressCount e \<and>
     std_flag (en_modifierState e') = std_flag (en_modifierState e) \<and>
     (en_eventProcessor e' = None \<longleftrightarrow> en_eventProcessor e = None)"

lemma same_out_run_rel: "live e \<Longrightarrow> same_out e e' \<Longrightarrow> run_rel e e'"
proof -
  assume "live e" "same_out e e'"
  moreover from this(2) have "kb_of e' = kb_of e" "key_on e' = key_on e" "keys_down e' = keys_down e"
    by (auto simp: same_out_def kb_of_def key_on_def [abs_def] keys_down_def)
  ultimately show ?thesis
    by (auto simp: run_rel_def in_step_def live_def same_out_def kb_of_def)
qed

text \<open>Every key an action names is a key of the keyboard or an event key, and no action is one of
  the two commands that inject codes of no key, \<^verbatim>\<open>&VK\<close> and \<^verbatim>\<open>&MouseWheel\<close>.\<close>

definition key_ref_ok :: "Keyboard \<Rightarrow> keyref option \<Rightarrow> bool" where
  "key_ref_ok kb r \<longleftrightarrow> (\<forall>k. r = Some k \<longrightarrow> key_ok kb k \<or> k \<in> set Event_events)"

definition raw_command :: "FunctionData \<Rightarrow> bool" where
  "raw_command fd = (case fd of FD_VK _ \<Rightarrow> True | FD_MouseWheel _ \<Rightarrow> True | _ \<Rightarrow> False)"

definition action_ok :: "Keyboard \<Rightarrow> Action \<Rightarrow> bool" where
  "action_ok kb a = (case a of ActionKey mk \<Rightarrow> key_ref_ok kb (mk_key mk) | ActionKeySeq _ \<Rightarrow> True
     | ActionFunction fd _ \<Rightarrow> \<not> raw_command fd)"

definition refs_ok :: "Setting \<Rightarrow> bool" where
  "refs_ok st \<longleftrightarrow> (\<forall>ks\<in>set (st_keySeqs st). \<forall>a\<in>set (sq_actions ks). action_ok (st_keyboard st) a)"

text \<open>The keys that substitutes give are keys of the keyboard.\<close>

definition substitutes_ok :: "Keyboard \<Rightarrow> bool" where
  "substitutes_ok kb \<longleftrightarrow> (\<forall>s\<in>set (m_substitutes kb). key_ref_ok kb (mk_key (m_mkeyTo s)))"

definition good_engine :: "Engine \<Rightarrow> bool" where
  "good_engine e \<longleftrightarrow> live e \<and> wf_Keyboard (kb_of e) \<and> mods_ok (kb_of e) \<and>
     substitutes_ok (kb_of e) \<and> refs_ok (the (en_setting e))"

definition cur_ok :: "Engine \<Rightarrow> Current \<Rightarrow> bool" where
  "cur_ok e c \<longleftrightarrow> key_ref_ok (kb_of e) (mk_key (cu_mkey c))"

lemma run_rel_key_ref: "run_rel e e' \<Longrightarrow> key_ref_ok (kb_of e') r = key_ref_ok (kb_of e) r"
  by (simp add: run_rel_def key_ref_ok_def)

lemma run_rel_action: "run_rel e e' \<Longrightarrow> action_ok (kb_of e') a = action_ok (kb_of e) a"
  by (simp add: action_ok_def run_rel_key_ref split: Action.split)

lemma run_rel_cur: "run_rel e e' \<Longrightarrow> cur_ok e' c = cur_ok e c"
  by (simp add: cur_ok_def run_rel_key_ref)

lemma run_rel_good: "run_rel e e' \<Longrightarrow> good_engine e \<Longrightarrow> good_engine e'"
proof -
  assume r: "run_rel e e'" and g: "good_engine e"
  have "mods_ok (kb_of e')" "substitutes_ok (kb_of e')"
    using r g run_rel_key_ref [OF r] by (simp_all add: run_rel_def good_engine_def mods_ok_def substitutes_ok_def)
  moreover have "refs_ok (the (en_setting e'))"
  proof -
    have "st_keySeqs (the (en_setting e')) = st_keySeqs (the (en_setting e))"
      using r by (simp add: run_rel_def)
    then show ?thesis
      using g run_rel_action [OF r] by (simp add: refs_ok_def good_engine_def kb_of_def)
  qed
  ultimately show ?thesis using r g by (simp add: good_engine_def run_rel_def)
qed

lemma run_rel_fold:
  assumes "\<And>x s s'. x \<in> set xs \<Longrightarrow> good_engine s \<Longrightarrow> run_rel e s \<Longrightarrow> f x s = Inr s' \<Longrightarrow> run_rel s s'"
    and "good_engine e" "run_fold f xs e = Inr e'"
  shows "run_rel e e'"
proof -
  have "run_rel e e' \<and> good_engine e'"
  proof (rule run_fold_invariant [where P = "\<lambda>s. run_rel e s \<and> good_engine s", OF _ _ assms(3)])
    show "run_rel e e \<and> good_engine e" using assms(2) run_rel_refl by (simp add: good_engine_def)
  next
    fix x s s'
    assume "x \<in> set xs" "run_rel e s \<and> good_engine s" "f x s = Inr s'"
    then have "run_rel s s'" using assms(1) by blast
    then show "run_rel e s' \<and> good_engine s'"
      using \<open>run_rel e s \<and> good_engine s\<close> run_rel_trans run_rel_good by blast
  qed
  then show ?thesis ..
qed

section \<open>Generated events\<close>

lemma key_event_rel:
  assumes "good_engine e" "key_ok (kb_of e) k \<or> k \<in> set Event_events"
    and "generateKeyEvent k p a e = Inr e'"
  shows "run_rel e e'"
proof (cases "key_ok (kb_of e) k")
  case True
  with assms(1,3) generateKeyEvent_rel [of e k p a] gen_rel_run_rel show ?thesis
    by (auto simp: good_engine_def)
next
  case False
  with assms(2,3) have "e' = e" by (simp add: generateKeyEvent_def)
  with assms(1) show ?thesis by (simp add: good_engine_def run_rel_refl)
qed

lemma mods_key_ok: "good_engine e \<Longrightarrow> run_rel e s \<Longrightarrow> k \<in> set (m_mods (kb_of e) t) \<Longrightarrow> key_ok (kb_of s) k"
  by (simp add: good_engine_def mods_ok_def run_rel_def)

lemma press_modifier_cases:
  assumes "live e" "press_modifier ks e = Inr e'"
  shows "e' = e \<or> (\<exists>k rest. ks = k # rest \<and> generateKeyEvent k True False e = Inr e') \<or>
     run_fold press_if_assigned ks e = Inr e'"
proof -
  note pm = assms(2) [unfolded press_modifier_def setting_of_live [OF assms(1)] run_bind_simps Let_def]
  show ?thesis
  proof (cases ks)
    case Nil
    with pm show ?thesis by simp
  next
    case (Cons k rest)
    show ?thesis
      using pm unfolding Cons list.case by (simp only: split: if_splits) simp_all
  qed
qed

lemma tap_other_modifier_cases:
  assumes "live e" "tap_other_modifier ks e = Inr e'"
  shows "e' = e \<or> (\<exists>k t e1. k \<in> set (m_mods (kb_of e) t) \<and>
     generateKeyEvent k True False e = Inr e1 \<and> generateKeyEvent k False False e1 = Inr e')"
proof (cases "\<exists>k\<in>set ks. en_lastGeneratedKey e = Some k")
  case False
  with assms(2) show ?thesis by (simp add: tap_other_modifier_def)
next
  case True
  define t where "t = (if m_mods (kb_of e) Type_Shift = [] then Type_Control else Type_Shift)"
  have "(case m_mods (kb_of e) t of [] \<Rightarrow> Inr e
      | k # _ \<Rightarrow> run_bind (generateKeyEvent k True False e) (generateKeyEvent k False False)) = Inr e'"
    using assms(2) True
    by (simp add: tap_other_modifier_def setting_of_live [OF assms(1)] kb_of_def Let_def t_def
        split: if_splits)
  note ms = this
  show ?thesis
  proof (cases "m_mods (kb_of e) t")
    case Nil
    with ms show ?thesis by simp
  next
    case (Cons k rest)
    then have k: "k \<in> set (m_mods (kb_of e) t)" by simp
    have "run_bind (generateKeyEvent k True False e) (generateKeyEvent k False False) = Inr e'"
      using ms Cons by simp
    with k show ?thesis unfolding run_bind_Inr by blast
  qed
qed

lemma modifier_step_rel:
  assumes good: "good_engine e" and step: "modifier_step m t e = Inr e'"
  shows "run_rel e e'"
proof -
  have lv: "live e" using good by (simp add: good_engine_def)
  note refl = run_rel_refl [OF lv]
  let ?ks = "m_mods (kb_of e) t"
  have ev: "run_rel s s'" if "generateKeyEvent k p a s = Inr s'" "k \<in> set (m_mods (kb_of e) t')"
    "run_rel e s" for k p a s s' t'
    using key_event_rel [OF run_rel_good [OF that(3) good] _ that(1)] mods_key_ok [OF good that(3,2)] by blast
  have press: "run_rel e e'" if pm: "press_modifier ?ks e = Inr e'"
  proof -
    consider "e' = e" | k ks where "?ks = k # ks" "generateKeyEvent k True False e = Inr e'"
      | "run_fold press_if_assigned ?ks e = Inr e'"
      using press_modifier_cases [OF lv pm] by blast
    then show ?thesis
    proof cases
      case 3
      show ?thesis
      proof (rule run_rel_fold [OF _ good 3])
        fix k s s'
        assume a: "k \<in> set ?ks" "good_engine s" "run_rel e s" "press_if_assigned k s = Inr s'"
        then have "live s" by (simp add: good_engine_def)
        with a ev [OF _ a(1,3)] show "run_rel s s'"
          by (auto simp: press_if_assigned_def run_bind_Inr run_rel_refl split: if_splits)
      qed
    next
      case 2
      have "k \<in> set ?ks" by (simp add: 2(1))
      then show ?thesis using ev [OF 2(2) _ refl] by blast
    qed (simp add: refl)
  qed
  have tap: "run_rel e s" if to: "tap_other_modifier ?ks e = Inr s" for s
  proof -
    consider "s = e" | k t' s1 where "k \<in> set (m_mods (kb_of e) t')" "generateKeyEvent k True False e = Inr s1"
        "generateKeyEvent k False False s1 = Inr s"
      using tap_other_modifier_cases [OF lv to] by blast
    then show ?thesis
    proof cases
      case (2 k t' s1)
      have "run_rel e s1" using ev [OF 2(2,1) refl] .
      then show ?thesis using ev [OF 2(3,1)] run_rel_trans by blast
    qed (simp add: refl)
  qed
  have rel: "run_rel s s'" if "run_rel e s" "run_fold (release_if_pressed False) ?ks s = Inr s'" for s s'
  proof (rule run_rel_fold [OF _ run_rel_good [OF that(1) good] that(2)])
    fix k r r'
    assume a: "k \<in> set ?ks" "good_engine r" "run_rel s r" "release_if_pressed False k r = Inr r'"
    then have "live r" by (simp add: good_engine_def)
    with a ev [OF _ a(1) run_rel_trans [OF that(1) a(3)]] show "run_rel r r'"
      by (auto simp: release_if_pressed_def run_bind_Inr run_rel_refl split: if_splits)
  qed
  note st = step [unfolded modifier_step_def setting_of_live [OF lv] run_bind_simps Let_def, folded kb_of_def]
  consider (dc) "isDontcare m t" | (pr) "\<not> isDontcare m t" "isPressed m t"
    | (re) "\<not> isDontcare m t" "\<not> isPressed m t" by blast
  then show ?thesis
  proof cases
    case dc
    with st refl show ?thesis by simp
  next
    case pr
    with st press show ?thesis by simp
  next
    case re
    have tap': "run_rel e s"
      if "(if t = Type_Alt \<or> t = Type_Windows then tap_other_modifier ?ks e else Inr e) = Inr s" for s
      using that tap refl by (cases "t = Type_Alt \<or> t = Type_Windows") simp_all
    from re st obtain s where s: "(if t = Type_Alt \<or> t = Type_Windows then tap_other_modifier ?ks e else Inr e) = Inr s"
      "run_fold (release_if_pressed False) ?ks s = Inr e'"
      unfolding if_not_P [OF re(1)] if_not_P [OF re(2)] run_bind_Inr by blast
    show ?thesis using rel [OF tap' [OF s(1)] s(2)] tap' [OF s(1)] run_rel_trans by blast
  qed
qed

lemma modifiers_rel: "good_engine e \<Longrightarrow> generateModifierEvents m e = Inr e' \<Longrightarrow> run_rel e e'"
  unfolding generateModifierEvents_def by (rule run_rel_fold [of _ e]) (auto intro: modifier_step_rel)

section \<open>Sequences and commands\<close>

definition call_ok :: "Engine \<Rightarrow> call \<Rightarrow> bool" where
  "call_ok e cl = (case cl of KeySeqEvents c _ _ \<Rightarrow> cur_ok e c | KeyboardEvents c \<Rightarrow> cur_ok e c)"

definition good_call :: "caller \<Rightarrow> bool" where
  "good_call f \<longleftrightarrow> (\<forall>cl e e'. good_engine e \<longrightarrow> call_ok e cl \<longrightarrow> f cl e = Inr e' \<longrightarrow> run_rel e e')"

lemma good_callD: "good_call f \<Longrightarrow> good_engine e \<Longrightarrow> call_ok e cl \<Longrightarrow> f cl e = Inr e' \<Longrightarrow> run_rel e e'"
  by (simp add: good_call_def)

lemma good_engine_live: "good_engine e \<Longrightarrow> live e"
  by (simp add: good_engine_def)

lemma same_out_good: "good_engine e \<Longrightarrow> same_out e e' \<Longrightarrow> run_rel e e'"
  by (simp add: same_out_run_rel good_engine_live)

lemma call_ok_trans: "run_rel e e' \<Longrightarrow> call_ok e' cl = call_ok e cl"
  by (simp add: call_ok_def run_rel_cur split: call.split)

text \<open>A call after some steps.\<close>

lemma call_after:
  assumes "good_call f" "good_engine e" "run_rel e s" "call_ok e cl" "f cl s = Inr s'"
  shows "run_rel e s'"
  using good_callD [OF assms(1) run_rel_good [OF assms(3,2)] _ assms(5)] assms(3,4)
  by (auto simp: call_ok_trans intro: run_rel_trans)

lemma call_keyseq:
  "good_call f \<Longrightarrow> good_engine e \<Longrightarrow> run_rel e s \<Longrightarrow> cur_ok e c \<Longrightarrow>
   f (KeySeqEvents c ks p) s = Inr s' \<Longrightarrow> run_rel e s'"
  by (erule (2) call_after) (simp_all add: call_ok_def)

lemma call_keyboard:
  "good_call f \<Longrightarrow> good_engine e \<Longrightarrow> run_rel e s \<Longrightarrow> cur_ok e c \<Longrightarrow>
   f (KeyboardEvents c) s = Inr s' \<Longrightarrow> run_rel e s'"
  by (erule (2) call_after) (simp_all add: call_ok_def)

lemma cur_event: "cur_ok e (c\<lparr>cu_keymap := km, cu_mkey := (cu_mkey c)\<lparr>mk_key := Some (EventKey ev)\<rparr>\<rparr>)"
  by (cases ev) (simp_all add: cur_ok_def key_ref_ok_def Event_events_def)

lemma generateEvents_rel:
  assumes "good_call f" "good_engine e" "generateEvents f c km ev e = Inr e'"
  shows "run_rel e e'"
proof -
  have refl: "run_rel e e" using assms(2) by (simp add: run_rel_refl good_engine_live)
  let ?c = "c\<lparr>cu_keymap := km, cu_mkey := (cu_mkey c)\<lparr>mk_key := Some (EventKey ev)\<rparr>\<rparr>"
  from assms(3) obtain r :: "KeyAssignment option" where r: "(case r of None \<Rightarrow> Inr e
      | Some a \<Rightarrow> f (KeySeqEvents ?c (ka_keySeq a) Part_all) e) = Inr e'"
    unfolding generateEvents_def Let_def run_bind_Inr by (elim exE conjE) (rule that)
  show ?thesis
  proof (cases r)
    case None
    with r refl show ?thesis by simp
  next
    case (Some a)
    with r have "f (KeySeqEvents ?c (ka_keySeq a) Part_all) e = Inr e'" by simp
    then show ?thesis by (rule call_keyseq [OF assms(1,2) refl cur_event])
  qed
qed

lemma cmd_default_rel:
  assumes "good_engine e" "cur_ok e c" "cmd_default c p e = Inr e'"
  shows "run_rel e e'"
proof -
  from assms(3) obtain e1 k where e1: "(if p then generateModifierEvents (mk_modifier (cu_mkey c)) e else Inr e) = Inr e1"
    and k: "mk_key (cu_mkey c) = Some k" "generateKeyEvent k p True e1 = Inr e'"
    by (auto simp: cmd_default_def run_bind_Inr deref_Inr)
  have r: "run_rel e e1"
    using e1 modifiers_rel [OF assms(1)] run_rel_refl [OF good_engine_live [OF assms(1)]]
    by (cases p) auto
  have "key_ok (kb_of e1) k \<or> k \<in> set Event_events"
    using assms(2) k(1) r by (auto simp: cur_ok_def key_ref_ok_def run_rel_def)
  with key_event_rel [OF run_rel_good [OF r assms(1)] _ k(2)] r run_rel_trans show ?thesis by blast
qed

lemma cur_ok_keymap [simp]: "cur_ok e (c\<lparr>cu_keymap := km\<rparr>) = cur_ok e c"
  by (simp add: cur_ok_def)

lemma cmd_keymap_parent_rel:
  assumes "good_call f" "good_engine e" "cur_ok e c" "cmd_keymap_parent f c p e = Inr e'"
  shows "run_rel e e'"
proof -
  from assms(4) obtain km :: Keymap where km: "(case km_parentKeymap km of
         None \<Rightarrow> cmd_default c p e
       | Some p \<Rightarrow> f (KeyboardEvents (c\<lparr>cu_keymap := Some p\<rparr>)) e) = Inr e'"
    unfolding cmd_keymap_parent_def run_bind_Inr by (elim exE conjE) (rule that)
  show ?thesis
  proof (cases "km_parentKeymap km")
    case None
    with km cmd_default_rel [OF assms(2,3)] show ?thesis by simp
  next
    case (Some q)
    have "run_rel e e" using assms(2) by (simp add: run_rel_refl good_engine_live)
    from call_keyboard [OF assms(1,2) this, of "c\<lparr>cu_keymap := Some q\<rparr>"] km Some assms(3)
    show ?thesis by simp
  qed
qed

lemma cmd_prefix_rel:
  assumes "good_call f" "good_engine e" "cmd_prefix f km ign c p e = Inr e'"
  shows "run_rel e e'"
proof (cases p)
  case False
  with assms(2,3) show ?thesis by (simp add: cmd_prefix_def run_rel_refl good_engine_live)
next
  case True
  let ?e1 = "setCurrentKeymap (Some km) True e"
  from assms(3) True obtain e2 where e2: "generateEvents f c (en_currentKeymap ?e1) Ev_prefixed ?e1 = Inr e2"
    "e' = e2\<lparr>en_isPrefix := True, en_doesEditNextModifier := False,
             en_doesIgnoreModifierForPrefix := ign\<rparr>"
    by (auto simp: cmd_prefix_def Let_def run_bind_Inr)
  have r1: "run_rel e ?e1"
    by (rule same_out_good [OF assms(2)]) (simp add: same_out_def setCurrentKeymap_def Let_def)
  have r2: "run_rel e e2"
    using generateEvents_rel [OF assms(1) run_rel_good [OF r1 assms(2)] e2(1)] r1 run_rel_trans by blast
  have "run_rel e2 e'"
    by (rule same_out_good [OF run_rel_good [OF r2 assms(2)]]) (simp add: same_out_def e2(2))
  with r2 run_rel_trans show ?thesis by blast
qed

lemma cmd_repeat_rel:
  assumes "good_call f" "good_engine e" "cur_ok e c" "cmd_repeat f ks n c p e = Inr e'"
  shows "run_rel e e'"
proof (cases p)
  case False
  have "run_rel e e" using assms(2) by (simp add: run_rel_refl good_engine_live)
  from call_keyseq [OF assms(1,2) this assms(3)] False assms(4) show ?thesis
    by (simp add: cmd_repeat_def)
next
  case True
  let ?n = "min (en_variable e) n"
  from assms(4) True obtain e1 where
    e1: "run_fold (\<lambda>_. f (KeySeqEvents c ks Part_all)) [0..<nat (?n - 1)] e = Inr e1" and
    e': "(if 0 < ?n then f (KeySeqEvents c ks Part_down) e1 else Inr e1) = Inr e'"
    unfolding cmd_repeat_def Let_def if_P [OF True] run_bind_Inr by blast
  have r1: "run_rel e e1"
  proof (rule run_rel_fold [OF _ assms(2) e1])
    fix x s s'
    assume a: "good_engine s" "run_rel e s" "f (KeySeqEvents c ks Part_all) s = Inr s'"
    have "cur_ok s c" using assms(3) a(2) by (simp add: run_rel_cur)
    then show "run_rel s s'"
      by (rule call_keyseq [OF assms(1) a(1) run_rel_refl [OF good_engine_live [OF a(1)]] _ a(3)])
  qed
  show ?thesis
  proof (cases "0 < ?n")
    case True
    with e' have "f (KeySeqEvents c ks Part_down) e1 = Inr e'" by simp
    then show ?thesis by (rule call_keyseq [OF assms(1,2) r1 assms(3)])
  next
    case False
    with e' r1 show ?thesis by (simp only: if_False sum.inject)
  qed
qed

lemma cmd_sync_rel:
  assumes good: "good_engine e" and run: "cmd_sync m p e = Inr e'"
  shows "run_rel e e'"
proof -
  from run obtain e1 where e1: "(if p then generateModifierEvents m e else Inr e) = Inr e1"
    and r: "(if \<not> p \<or> isConsoleWindow then Inr e1
       else run_bind (setting_of e1) (\<lambda>st.
         if m_scanCodes (m_syncKey (st_keyboard st)) = [] then Inr e1
         else run_bind (generateKeyEvent SyncKey False False (e1\<lparr>en_isSynchronizing := True\<rparr>)) (\<lambda>e2.
              Inr (e2\<lparr>en_isSynchronizing := False\<rparr>)))) = Inr e'"
    unfolding cmd_sync_def run_bind_Inr by blast
  have r1: "run_rel e e1"
    using e1 modifiers_rel [OF good] run_rel_refl [OF good_engine_live [OF good]] by (cases p) auto
  have good1: "good_engine e1" by (rule run_rel_good [OF r1 good])
  let ?s = "e1\<lparr>en_isSynchronizing := True\<rparr>"
  have rs: "run_rel e1 ?s" by (rule same_out_good [OF good1]) (simp add: same_out_def)
  from r consider "e' = e1"
    | e2 where "generateKeyEvent SyncKey False False ?s = Inr e2" "e' = e2\<lparr>en_isSynchronizing := False\<rparr>"
    by (auto simp: setting_of_live [OF good_engine_live [OF good1]] run_bind_Inr split: if_splits)
  then show ?thesis
  proof cases
    case 1
    with r1 show ?thesis by simp
  next
    case (2 e2)
    have "run_rel ?s e2"
      by (rule key_event_rel [OF run_rel_good [OF rs good1] _ 2(1)]) (simp add: key_ok_def)
    then have r2: "run_rel e e2" using r1 rs run_rel_trans by blast
    have "run_rel e2 e'"
      by (rule same_out_good [OF run_rel_good [OF r2 good]]) (simp add: same_out_def 2(2))
    with r2 show ?thesis using run_rel_trans by blast
  qed
qed

lemma exec_rel:
  assumes "good_call f" "good_engine e" "cur_ok e c" "exec fd am f c p e = Inr e'" "\<not> raw_command fd"
  shows "run_rel e e'"
proof -
  have refl: "run_rel e e" using assms(2) by (simp add: run_rel_refl good_engine_live)
  have call: "f (KeyboardEvents (c\<lparr>cu_keymap := km\<rparr>)) e = Inr e' \<Longrightarrow> run_rel e e'" for km
    using call_keyboard [OF assms(1,2) refl, of "c\<lparr>cu_keymap := km\<rparr>"] assms(3) by simp
  show ?thesis
  proof (cases fd)
    case FD_Default
    with assms cmd_default_rel show ?thesis by simp
  next
    case FD_KeymapParent
    with assms(4) cmd_keymap_parent_rel [OF assms(1,2,3)] show ?thesis by simp
  next
    case (FD_Keymap km)
    with assms(4) call show ?thesis by (simp add: cmd_keymap_def)
  next
    case (FD_KeymapPrevPrefix i)
    with assms(4) call refl show ?thesis by (auto simp: cmd_keymap_prev_prefix_def Let_def split: if_splits)
  next
    case (FD_Prefix km ign)
    with assms(4) cmd_prefix_rel [OF assms(1,2)] show ?thesis by simp
  next
    case FD_CancelPrefix
    with assms(4) same_out_good [OF assms(2)] show ?thesis
      by (auto simp: cmd_cancel_prefix_def same_out_def)
  next
    case (FD_EditNextModifier m)
    with assms(4) same_out_good [OF assms(2)] refl show ?thesis
      by (auto simp: cmd_edit_next_modifier_def same_out_def split: if_splits)
  next
    case (FD_Variable mag inc)
    with assms(4) same_out_good [OF assms(2)] refl show ?thesis
      by (auto simp: cmd_variable_def same_out_def Let_def split: if_splits)
  next
    case (FD_Repeat ks n)
    with assms(4) cmd_repeat_rel [OF assms(1,2,3)] show ?thesis by simp
  next
    case (FD_Toggle mt ty)
    with assms(4) same_out_good [OF assms(2)] refl show ?thesis
      by (auto simp: cmd_toggle_def same_out_def split: if_splits)
  next
    case FD_Ignore
    with assms(4) refl show ?thesis by simp
  next
    case FD_Sync
    with assms(4) cmd_sync_rel [OF assms(2)] show ?thesis by simp
  next
    case (FD_Wait ms)
    with assms(4) same_out_good [OF assms(2)] refl show ?thesis
      by (auto simp: cmd_wait_def same_out_def split: if_splits)
  next
    case (FD_Other n)
    with assms(4) refl show ?thesis by simp
  qed (use assms(5) in \<open>simp_all add: raw_command_def\<close>)
qed

lemma cur_ok_mkey [simp]: "cur_ok e (c\<lparr>cu_mkey := up_down p (cu_mkey c)\<rparr>) = cur_ok e c"
  by (simp add: cur_ok_def up_down_def)

lemma action_rel:
  assumes f: "good_call f" and good: "good_engine e" and c: "cur_ok e c"
    and a: "action_ok (kb_of e) a"
    and run: "generateActionEvents f c a p e = Inr e'"
  shows "run_rel e e'"
proof -
  have refl: "run_rel e e" using good by (simp add: run_rel_refl good_engine_live)
  show ?thesis
  proof (cases a)
    case (ActionKey mk)
    have ref: "key_ref_ok (kb_of e) (mk_key mk)" using a by (simp add: ActionKey action_ok_def)
    have key: "run_rel e e'" if "run_rel e s" "mk_key mk = Some k" "generateKeyEvent k q True s = Inr e'" for s k q
    proof -
      have "key_ok (kb_of s) k \<or> k \<in> set Event_events"
        using ref that(1,2) by (auto simp: key_ref_ok_def run_rel_def)
      with key_event_rel [OF run_rel_good [OF that(1) good] _ that(3)] that(1) run_rel_trans
      show ?thesis by blast
    qed
    consider (up) k where "mk_key mk = Some k" "generateKeyEvent k False True e = Inr e'"
      | (down) k e1 m where "generateModifierEvents m e = Inr e1" "mk_key mk = Some k"
          "generateKeyEvent k True True e1 = Inr e'"
      | (none) "e' = e"
      using run by (auto simp: generateActionEvents_def ActionKey Let_def run_bind_Inr deref_Inr
          split: if_splits)
    then show ?thesis
    proof cases
      case up
      then show ?thesis using key [OF refl] by blast
    next
      case down
      then show ?thesis using key [OF modifiers_rel [OF good]] by blast
    qed (simp add: refl)
  next
    case (ActionKeySeq r)
    with run call_keyseq [OF f good refl c] show ?thesis by (simp add: generateActionEvents_def)
  next
    case (ActionFunction fd m)
    with run exec_rel [OF f good, of "c\<lparr>cu_mkey := up_down p (cu_mkey c)\<rparr>" fd m p e'] a c refl show ?thesis
      by (auto simp: generateActionEvents_def Let_def action_ok_def split: if_splits)
  qed
qed

lemma keyseq_rel:
  assumes f: "good_call f" and good: "good_engine e" and c: "cur_ok e c"
    and run: "generateKeySeqEvents f c r part e = Inr e'"
  shows "run_rel e e'"
proof -
  have refl: "run_rel e e" using good by (simp add: run_rel_refl good_engine_live)
  let ?st = "the (en_setting e)" and ?act = "generateActionEvents f c"
  define as where "as = sq_actions (st_keySeqs ?st ! r)"
  from run have r: "r < length (st_keySeqs ?st)"
    by (auto simp: generateKeySeqEvents_def setting_of_live [OF good_engine_live [OF good]] keyseq_at_def
        split: if_splits)
  have act: "run_rel e s'" if "run_rel e s" "a \<in> set as" "?act a p s = Inr s'" for a p s s'
  proof -
    have "action_ok (kb_of s) a"
      using good r \<open>a \<in> set as\<close> run_rel_action [OF \<open>run_rel e s\<close>]
      by (auto simp: good_engine_def refs_ok_def as_def kb_of_def)
    from action_rel [OF f run_rel_good [OF that(1) good] _ this that(3)] c that(1) show ?thesis
      by (auto simp: run_rel_cur intro: run_rel_trans)
  qed
  show ?thesis
  proof (cases "as = []")
    case True
    with run r refl show ?thesis
      by (simp add: generateKeySeqEvents_def setting_of_live [OF good_engine_live [OF good]] keyseq_at_def
          as_def)
  next
    case False
    note last = last_in_set [OF False]
    have body: "(if part = Part_up then ?act (last as) False e
       else run_bind (run_fold (\<lambda>a e. run_bind (?act a True e) (?act a False)) (butlast as) e) (\<lambda>e1.
            run_bind (?act (last as) True e1) (\<lambda>e2.
            if part = Part_all then ?act (last as) False e2 else Inr e2))) = Inr e'"
      using run [unfolded generateKeySeqEvents_def setting_of_live [OF good_engine_live [OF good]]
          run_bind_simps keyseq_at_def if_P [OF r] Let_def, folded as_def] False
      by (simp only: if_False)
    show ?thesis
    proof (cases "part = Part_up")
      case True
      with body act [OF refl last] show ?thesis by simp
    next
      case False
      with body obtain e1 e2 where
        e1: "run_fold (\<lambda>a e. run_bind (?act a True e) (?act a False)) (butlast as) e = Inr e1" and
        e2: "?act (last as) True e1 = Inr e2" and
        e': "(if part = Part_all then ?act (last as) False e2 else Inr e2) = Inr e'"
        by (auto simp: run_bind_Inr)
      have r1: "run_rel e e1"
      proof (rule run_fold_invariant [where P = "run_rel e", OF _ refl e1])
        fix a s s'
        assume "a \<in> set (butlast as)" "run_rel e s" "run_bind (?act a True s) (?act a False) = Inr s'"
        then show "run_rel e s'" by (meson act in_set_butlastD run_bind_Inr)
      qed
      have r2: "run_rel e e2" using act [OF r1 last e2] .
      show ?thesis
        using e' r2 act [OF r2 last] by (cases "part = Part_all") auto
    qed
  qed
qed

lemma keyboard_rel:
  assumes f: "good_call f" and good: "good_engine e" and c: "cur_ok e c"
    and run: "generateKeyboardEvents f c e = Inr e'"
  shows "run_rel e e'"
proof -
  define e1 where "e1 = e\<lparr>en_recursionGuard := en_recursionGuard e + 1\<rparr>"
  have r1: "run_rel e e1" by (rule same_out_good [OF good]) (simp add: same_out_def e1_def)
  show ?thesis
  proof (cases "en_recursionGuard e1 = MAX_GENERATE_KEYBOARD_EVENTS_RECURSION_COUNT")
    case True
    with run r1 show ?thesis by (simp add: generateKeyboardEvents_def Let_def e1_def)
  next
    case False
    with run obtain ks part e2 where e2: "f (KeySeqEvents c ks part) e1 = Inr e2"
      "e' = e2\<lparr>en_recursionGuard := en_recursionGuard e2 - 1\<rparr>"
      by (auto simp: generateKeyboardEvents_def Let_def e1_def [symmetric] run_bind_Inr deref_Inr
          split: option.splits)
    have r2: "run_rel e e2" by (rule call_keyseq [OF f good r1 c e2(1)])
    have "run_rel e2 e'"
      by (rule same_out_good [OF run_rel_good [OF r2 good]]) (simp add: same_out_def e2(2))
    with r2 run_rel_trans show ?thesis by blast
  qed
qed

lemma gen_good: "good_call (gen n)"
proof (induction n)
  case 0
  then show ?case by (simp add: good_call_def)
next
  case (Suc n)
  have "run_rel e e'" if "good_engine e" "call_ok e cl" "gen (Suc n) cl e = Inr e'" for cl e e'
    using that keyseq_rel [OF Suc.IH that(1)] keyboard_rel [OF Suc.IH that(1)]
    by (cases cl) (auto simp: call_ok_def)
  then show ?case by (simp add: good_call_def)
qed

section \<open>One event\<close>

lemma all_keys_ok: "good_engine e \<Longrightarrow> k \<in> set (all_keys (kb_of e)) \<Longrightarrow> key_ok (kb_of e) k"
  by (auto simp: good_engine_def set_all_keys key_ok_def)

lemma key_with_code_ok: "good_engine e \<Longrightarrow> key_with_code (kb_of e) code = Some k \<Longrightarrow> key_ok (kb_of e) k"
  unfolding key_with_code_def by (drule find_eq_Some_mem) (auto intro: all_keys_ok)

lemma key_event_ok:
  assumes "good_engine e" "run_rel e s" "key_ok (kb_of e) k \<or> k \<in> set Event_events"
    and "generateKeyEvent k p a s = Inr s'"
  shows "run_rel e s'"
proof -
  have "key_ok (kb_of s) k \<or> k \<in> set Event_events" using assms(2,3) by (simp add: run_rel_def)
  then show ?thesis
    using key_event_rel [OF run_rel_good [OF assms(2,1)] _ assms(4)] run_rel_trans [OF assms(2)] by blast
qed

lemma tap_key_rel:
  assumes "good_engine e" "key_ok (kb_of e) k" "tap_key k e = Inr e'"
  shows "run_rel e e'"
proof -
  from assms(3) obtain e1 where e1: "generateKeyEvent k True False e = Inr e1"
    "generateKeyEvent k False False e1 = Inr e'" by (auto simp: tap_key_def run_bind_Inr)
  have refl: "run_rel e e" using assms(1) by (simp add: run_rel_refl good_engine_live)
  have "run_rel e e1" using key_event_ok [OF assms(1) refl _ e1(1)] assms(2) by blast
  then show ?thesis using key_event_ok [OF assms(1) _ _ e1(2)] assms(2) by blast
qed

lemma after_processor_rel:
  assumes "good_engine e" "cur_ok e c" "after_processor (the (en_setting e)) c p r e = Inr e'"
  shows "run_rel e e'"
proof -
  have refl: "run_rel e e" using assms(1) by (simp add: run_rel_refl good_engine_live)
  note run = assms(3) [unfolded after_processor_def Let_def, folded kb_of_def]
  let ?subst = "pe_valid r \<and> output_yamy r \<noteq> 0 \<and> output_yamy r \<noteq> first_code (kb_of e) (mk_key (cu_mkey c))"
  let ?found = "key_with_code (kb_of e) (output_yamy r)"
  let ?out = "if ?subst then (case ?found of Some k \<Rightarrow> Some k | None \<Rightarrow> mk_key (cu_mkey c))
              else mk_key (cu_mkey c)"
  consider (none) "output_evdev r = 0"
    | (tap) "output_evdev r \<noteq> 0" "is_tap r \<and> pe_valid r \<and> output_yamy r \<noteq> 0"
    | (out) "output_evdev r \<noteq> 0" "\<not> (is_tap r \<and> pe_valid r \<and> output_yamy r \<noteq> 0)" by blast
  then show ?thesis
  proof cases
    case none
    with run refl show ?thesis by simp
  next
    case tap
    with run have "(case ?found of None \<Rightarrow> Inr e | Some k \<Rightarrow> tap_key k e) = Inr e'" by simp
    then show ?thesis
      using refl tap_key_rel [OF assms(1) key_with_code_ok [OF assms(1)]] by (cases ?found) auto
  next
    case out
    from run have "(case ?out of None \<Rightarrow> Inr e | Some k \<Rightarrow> generateKeyEvent k p False e) = Inr e'"
      by (simp only: out(1) if_False if_not_P [OF out(2)])
    moreover have "key_ok (kb_of e) k \<or> k \<in> set Event_events" if "?out = Some k" for k
      using that assms(2) key_with_code_ok [OF assms(1), of "output_yamy r"]
      by (auto simp: cur_ok_def key_ref_ok_def split: if_splits option.splits)
    ultimately show ?thesis
      using refl key_event_ok [OF assms(1) refl] by (cases ?out) auto
  qed
qed

text \<open>The event processor changes virtual modifiers only.\<close>

lemma apply_activations_std: "std_flag (apply_activations acts s) = std_flag s"
proof -
  have "std_flag (fold (\<lambda>(_, mod_num). activateModifier mod_num) acts s) g = std_flag s g" for g
    by (rule fold_set_frame) (auto simp: bits_simps)
  then show ?thesis by (auto simp: apply_activations_def)
qed

lemma apply_result_std: "std_flag (apply_result r s) = std_flag s"
  by (rule ext) (simp add: apply_result_def bits_simps split: ProcessingAction.split)

lemma check_waiting_std: "check_waiting clk ep io = (ep', io') \<Longrightarrow> map_option std_flag io' = map_option std_flag io"
  by (auto simp: check_waiting_def apply_activations_std split: option.splits prod.splits)

lemma layer2_std:
  "layer2_applySubstitution clk y ty ep io = (c, ep', io') \<Longrightarrow> map_option std_flag io' = map_option std_flag io"
  by (auto simp: layer2_applySubstitution_def apply_result_std Let_def split: option.splits prod.splits sum.splits)

lemma processEvent_std:
  assumes "processEvent ev layout ca cb e ty ep io = (r, ep', io')"
  shows "map_option std_flag io' = map_option std_flag io"
proof -
  obtain ep1 io1 where c: "check_waiting ca (ep\<lparr>m_currentEventIsTap := False\<rparr>) io = (ep1, io1)" by fastforce
  obtain y ep2 io2 where l: "layer2_applySubstitution cb (layer1_evdevToYamy ev e) ty ep1 io1 = (y, ep2, io2)"
    by (metis prod_cases3)
  have "io' = io1 \<or> io' = io2" using assms by (auto simp: processEvent_def Let_def c l split: if_splits)
  then show ?thesis using check_waiting_std [OF c] layer2_std [OF l] by auto
qed

lemma run_processor_rel:
  assumes "good_engine e" "cur_ok e c" "run_processor env ep c p e = Inr e'" "en_eventProcessor e = Some ep"
  shows "run_rel e e'"
proof -
  obtain r ep' ms where pr: "processEvent (env_ev env) (env_layout env) (env_clock_a env) (env_clock_b env)
      (cu_evdev c) (if p then PRESS else RELEASE) ep (Some (en_modifierState e)) = (r, ep', ms)"
    by (metis prod_cases3)
  define e1 where "e1 = e\<lparr>en_eventProcessor := Some ep',
      en_modifierState := (case ms of Some s \<Rightarrow> s | None \<Rightarrow> en_modifierState e)\<rparr>"
  have "map_option std_flag ms = Some (std_flag (en_modifierState e))" using processEvent_std [OF pr] by simp
  then have "std_flag (en_modifierState e1) = std_flag (en_modifierState e)"
    by (auto simp: e1_def split: option.splits)
  then have r1: "run_rel e e1" by (intro same_out_good [OF assms(1)]) (simp add: same_out_def e1_def assms(4))
  have "after_processor (the (en_setting e1)) c p r e1 = Inr e'"
    using assms(3) by (simp add: run_processor_def setting_of_live [OF good_engine_live [OF assms(1)]] pr e1_def)
  then have "run_rel e1 e'"
    by (rule after_processor_rel [OF run_rel_good [OF r1 assms(1)], rotated])
       (simp add: run_rel_cur [OF r1] assms(2))
  with r1 run_rel_trans show ?thesis by blast
qed

lemma key_ref_substitute: "key_ref_ok kb (mk_key (substitute_modifiers p m mk)) = key_ref_ok kb (mk_key mk)"
  by (simp add: substitute_modifiers_def)

lemma legacy_substitute_ok:
  assumes "good_engine e" "cur_ok e c"
  shows "cur_ok e (legacy_substitute (kb_of e) c p)"
proof -
  have "key_ref_ok (kb_of e) (mk_key (searchSubstitute mk (kb_of e)))" for mk
  proof (cases "find (\<lambda>s. mk_key (m_mkeyFrom s) = mk_key mk \<and>
      doesMatch (mk_modifier (m_mkeyFrom s)) (mk_modifier mk)) (m_substitutes (kb_of e))")
    case None
    then show ?thesis by (simp add: searchSubstitute_def key_ref_ok_def new_ModifiedKey_def)
  next
    case (Some s)
    with assms(1) find_eq_Some_mem [OF Some] show ?thesis
      by (simp add: searchSubstitute_def substitutes_ok_def good_engine_def)
  qed
  with assms(2) show ?thesis
    by (simp add: cur_ok_def legacy_substitute_def Let_def key_ref_substitute)
qed

lemma legacy_generate_rel:
  assumes f: "good_call (env_call env)" and good: "good_engine e"
    and c: "cur_ok e c" and run: "legacy_generate env c isMod p e = Inr e'"
  shows "run_rel e e'"
proof -
  define c1 where "c1 = legacy_substitute (kb_of e) c p"
  define e1 where "e1 = (if isMod \<or> \<not> en_isPrefix e then e
      else if p then e\<lparr>en_isPrefix := False\<rparr> else e\<lparr>en_currentKeymap := en_globalKeymap e\<rparr>)"
  define c2 where "c2 = c1\<lparr>cu_mkey := (cu_mkey c1)
      \<lparr>mk_modifier := Modifier_add (mk_modifier (cu_mkey c1)) (toModifier (en_modifierState e1)),
       mk_virtualMods := active_virtualMods (ms_state (en_modifierState e1))\<rparr>\<rparr>"
  define e2 where "e2 = e1\<lparr>en_recursionGuard := 0\<rparr>"
  note run' = run [unfolded legacy_generate_def setting_of_live [OF good_engine_live [OF good]]
      run_bind_simps Let_def, folded kb_of_def, folded c1_def e1_def, folded c2_def e2_def]
  have c2: "cur_ok e c2"
    using legacy_substitute_ok [OF good c, of p] by (simp add: cur_ok_def c2_def c1_def)
  have r2: "run_rel e e2"
    by (rule same_out_good [OF good]) (simp add: same_out_def e2_def e1_def)
  have events: "run_rel e s'" if "run_rel e s"
      "(if b then generateEvents (env_call env) c2 km ev s else Inr s) = Inr s'" for b km ev s s'
  proof (cases b)
    case True
    with that(2) have "generateEvents (env_call env) c2 km ev s = Inr s'" by simp
    from generateEvents_rel [OF f run_rel_good [OF that(1) good] this] that(1) run_rel_trans
    show ?thesis by blast
  qed (use that in simp)
  from run' obtain e3 e4 e5 where
    e3: "(if p then generateEvents (env_call env) c2 (cu_keymap c2) Ev_before_key_down e2 else Inr e2) = Inr e3"
    and e4: "env_call env (KeyboardEvents c2) e3 = Inr e4"
    and e5: "(if \<not> p then generateEvents (env_call env) c2 (cu_keymap c2) Ev_after_key_up e4 else Inr e4) = Inr e5"
    and e': "e' = (if isMod then e5
               else if \<not> en_isPrefix e5 then e5\<lparr>en_currentKeymap := en_globalKeymap e5\<rparr>
               else if \<not> p then e5\<lparr>en_currentKeymap := en_currentKeymap e\<rparr> else e5)"
    unfolding run_bind_Inr sum.inject by blast
  have r5: "run_rel e e5" using events [OF call_keyboard [OF f good events [OF r2 e3] c2 e4] e5] .
  have "run_rel e5 e'"
    by (rule same_out_good [OF run_rel_good [OF r5 good]]) (simp add: same_out_def e')
  with r5 run_rel_trans show ?thesis by blast
qed

lemma begin_rel:
  assumes f: "good_call (env_call env)" and good: "good_engine e"
    and c: "cur_ok e c" and run: "beginGeneratingKeyboardEvents env c isMod e = Inr e'"
  shows "run_rel e e'"
proof -
  let ?p = "isPressed (mk_modifier (cu_mkey c)) Type_Down"
  define rest where "rest = (case en_eventProcessor e of
      Some ep \<Rightarrow> if cu_evdev c \<noteq> 0 then run_processor env ep c ?p e else legacy_generate env c isMod ?p e
    | None \<Rightarrow> legacy_generate env c isMod ?p e)"
  have rest: "run_rel e e'" if "rest = Inr e'"
    using that run_processor_rel [OF good c] legacy_generate_rel [OF f good c]
    by (auto simp: rest_def split: option.splits if_splits)
  note run' = run [unfolded beginGeneratingKeyboardEvents_def Let_def, folded rest_def]
  show ?thesis
  proof (cases "hasActiveVirtualModifiers e \<and> \<not> isMod")
    case False
    with run' rest show ?thesis by (simp only: if_False)
  next
    case True
    from run' [unfolded if_P [OF True] run_bind_Inr] obtain r :: "KeyAssignment option" where
      r: "(case r of Some a \<Rightarrow> env_call env (KeySeqEvents c (ka_keySeq a) (if ?p then Part_down else Part_up)) e
         | None \<Rightarrow> rest) = Inr e'"
      by (elim exE conjE) (rule that)
    have refl: "run_rel e e" using good by (simp add: run_rel_refl good_engine_live)
    show ?thesis
    proof (cases r)
      case None
      with r rest show ?thesis by simp
    next
      case (Some a)
      with r have "env_call env (KeySeqEvents c (ka_keySeq a) (if ?p then Part_down else Part_up)) e = Inr e'"
        by simp
      then show ?thesis by (rule call_keyseq [OF f good refl c])
    qed
  qed
qed

lemma oneShot_rel:
  assumes f: "good_call (env_call env)" and good: "good_engine e" and c: "cur_ok e c"
    and run: "handle_oneShot env c am p st e = Inr e'"
  shows "run_rel e e'"
proof -
  have refl: "run_rel e e" using good by (simp add: run_rel_refl good_engine_live)
  have upd: "run_rel e s'" if "run_rel e s" "same_out s s'" for s s'
    using same_out_good [OF run_rel_good [OF that(1) good] that(2)] that(1) run_rel_trans by blast
  have beg: "run_rel e s'" if "run_rel e s" "beginGeneratingKeyboardEvents env d False s = Inr s'"
      "mk_key (cu_mkey d) = mk_key (cu_mkey c)" for d s s'
  proof -
    have "cur_ok s d" using c that(1,3) run_rel_cur [OF that(1)] by (simp add: cur_ok_def)
    from begin_rel [OF f run_rel_good [OF that(1) good] this that(2)] that(1) run_rel_trans
    show ?thesis by blast
  qed
  show ?thesis
  proof (cases p)
    case True
    show ?thesis
    proof (cases "am = AM_oneShotRepeatable \<and> mk_key (en_oneShotKey e) = mk_key (cu_mkey c)")
      case True': True
      from run [unfolded handle_oneShot_def if_P [OF True] if_P [OF True'] run_bind_Inr] obtain e1 where
        e1: "(if en_oneShotRepeatableRepeatCount e < st_oneShotRepeatableDelay st then Inr e
              else beginGeneratingKeyboardEvents env c False e) = Inr e1" and
        e': "e' = e1\<lparr>en_oneShotRepeatableRepeatCount := en_oneShotRepeatableRepeatCount e1 + 1\<rparr>"
        by auto
      have "run_rel e e1" using e1 refl beg [OF refl] by (auto split: if_splits)
      then show ?thesis by (rule upd) (simp add: same_out_def e')
    next
      case False
      with run True have "e' = e\<lparr>en_oneShotKey := cu_mkey c, en_oneShotRepeatableRepeatCount := 0\<rparr>"
        by (auto simp: handle_oneShot_def)
      then show ?thesis by (intro upd [OF refl]) (simp add: same_out_def)
    qed
  next
    case False
    define d where "d q = c\<lparr>cu_mkey := (cu_mkey c)\<lparr>mk_modifier := q\<rparr>\<rparr>" for q
    have dk: "mk_key (cu_mkey (d q)) = mk_key (cu_mkey c)" for q by (simp add: d_def)
    from run [unfolded handle_oneShot_def if_not_P [OF False] Let_def, folded d_def] obtain e2 where
      e2: "(if mk_key (en_oneShotKey e) = None then Inr e
            else run_bind (beginGeneratingKeyboardEvents env
                   (d (press Type_Down (release Type_Up (mk_modifier (en_oneShotKey e))))) False e) (\<lambda>e1.
                 beginGeneratingKeyboardEvents env
                   (d (release Type_Down (press Type_Up (mk_modifier (en_oneShotKey e1))))) False e1)) = Inr e2" and
      e': "e' = e2\<lparr>en_oneShotKey := (en_oneShotKey e2)\<lparr>mk_key := None\<rparr>,
             en_oneShotRepeatableRepeatCount := 0\<rparr>"
      unfolding run_bind_Inr sum.inject by blast
    have "run_rel e e2"
    proof (cases "mk_key (en_oneShotKey e) = None")
      case True
      with e2 refl show ?thesis by simp
    next
      case False': False
      from e2 [unfolded if_not_P [OF False'] run_bind_Inr] obtain e1 where
        "beginGeneratingKeyboardEvents env
           (d (press Type_Down (release Type_Up (mk_modifier (en_oneShotKey e))))) False e = Inr e1"
        "beginGeneratingKeyboardEvents env
           (d (release Type_Down (press Type_Up (mk_modifier (en_oneShotKey e1))))) False e1 = Inr e2"
        by blast
      then show ?thesis using beg [OF beg [OF refl _ dk] _ dk] by blast
    qed
    then show ?thesis by (rule upd) (simp add: same_out_def e')
  qed
qed

lemma no_E1: "Flags (keyEventToKID ev) AND KID_E1 = 0"
  by (simp add: keyEventToKID_def KID_E1_def KID_E0_def KID_BREAK_def)

lemma dispatch_rel:
  assumes f: "good_call (env_call env)" and good: "good_engine e" and c: "cur_ok e c"
    and kid: "Flags kid AND KID_E1 = 0" and run: "dispatch_key env kid c isMod am p st e = Inr e'"
  shows "run_rel e e'"
proof -
  have refl: "run_rel e e" using good by (simp add: run_rel_refl good_engine_live)
  define e1 where "e1 = (if p then e\<lparr>en_oneShotKey := (en_oneShotKey e)\<lparr>mk_key := None\<rparr>\<rparr> else e)"
  have r1: "run_rel e e1" by (rule same_out_good [OF good]) (simp add: same_out_def e1_def)
  have beg: "run_rel e e'" if "beginGeneratingKeyboardEvents env c isMod e1 = Inr e'"
    using begin_rel [OF f run_rel_good [OF r1 good] _ that] c run_rel_cur [OF r1] r1 run_rel_trans by blast
  note run' = run [unfolded dispatch_key_def Let_def, folded e1_def]
  have "e' = e \<or> handle_oneShot env c am p st e = Inr e' \<or> beginGeneratingKeyboardEvents env c isMod e1 = Inr e'"
    using run' kid by (simp only: split: if_splits) simp_all
  then show ?thesis using refl oneShot_rel [OF f good c] beg by blast
qed

section \<open>The physical keys\<close>

definition phys_down :: "Engine \<Rightarrow> keyref set" where
  "phys_down e = {k. key_ok (kb_of e) k \<and> m_isPressed (get_key (kb_of e) k)}"

definition eng_inv :: "Engine \<Rightarrow> bool" where
  "eng_inv e \<longleftrightarrow> good_engine e \<and> in_step e \<and> en_currentKeyPressCount e = int (card (phys_down e))"

lemma finite_phys [simp]: "finite (phys_down e)"
  unfolding phys_down_def by (rule finite_keys)

lemma run_rel_inv: "run_rel e e' \<Longrightarrow> eng_inv e \<Longrightarrow> eng_inv e'"
proof -
  assume r: "run_rel e e'" and inv: "eng_inv e"
  have "phys_down e' = phys_down e" using r by (auto simp: run_rel_def phys_down_def)
  with r inv run_rel_good [OF r] show ?thesis by (simp add: eng_inv_def run_rel_def)
qed

lemma count_press_inv:
  assumes inv: "eng_inv e" and k: "\<And>r. k = Some r \<Longrightarrow> key_ok (kb_of e) r"
  shows "eng_inv (count_press k p e)"
proof (cases k)
  case None
  with inv show ?thesis by (simp add: count_press_def)
next
  case (Some r)
  let ?f = "\<lambda>q :: Key. q\<lparr>m_isPressed := p\<rparr>"
  let ?e = "count_press k p e"
  let ?was = "m_isPressed (get_key (kb_of e) r)"
  have ok: "key_ok (kb_of e) r" using k Some by simp
  obtain st where st: "en_setting e = Some st" "\<not> en_settingDeleted e"
    using inv by (auto simp: eng_inv_def good_engine_def live_def)
  have e: "en_setting ?e = Some (st\<lparr>st_keyboard := update_key r ?f (st_keyboard st)\<rparr>)"
    "en_settingDeleted ?e = False" "en_injected ?e = en_injected e"
    "en_currentKeyPressCountOnWin32 ?e = en_currentKeyPressCountOnWin32 e"
    "en_currentKeyPressCount ?e = en_currentKeyPressCount e +
       (if \<not> ?was \<and> p then 1 else if ?was \<and> \<not> p then -1 else 0)"
    by (simp_all add: count_press_def Some on_keyboard_def st kb_of_def Let_def)
  have kb: "kb_of ?e = update_key r ?f (kb_of e)" by (simp add: kb_of_def e(1) st(1))
  note gk = get_key_update [OF ok, of ?f]
  have codes: "m_scanCodes (get_key (kb_of ?e) j) = m_scanCodes (get_key (kb_of e) j)" for j
    by (simp add: kb gk)
  have on: "key_on ?e = key_on e" by (rule ext) (simp add: key_on_def kb gk)
  have kok: "key_ok (kb_of ?e) = key_ok (kb_of e)" by (rule ext) (simp add: kb)
  have wf: "wf_Keyboard (kb_of ?e)"
    by (rule wf_Keyboard_static [of _ "kb_of e"]) (use inv in \<open>simp_all add: kb gk eng_inv_def good_engine_def\<close>)
  have kr: "key_ref_ok (kb_of ?e) q = key_ref_ok (kb_of e) q" for q by (simp add: key_ref_ok_def kok)
  have ka: "action_ok (kb_of ?e) = action_ok (kb_of e)" by (rule ext) (simp add: action_ok_def kr split: Action.split)
  have fk: "from_key (kb_of ?e) = from_key (kb_of e)" by (rule from_key_static) (simp_all add: kok codes)
  have live: "live ?e" by (simp add: live_def e)
  have good: "good_engine ?e"
    using inv wf live
    by (simp add: eng_inv_def good_engine_def mods_ok_def substitutes_ok_def refs_ok_def kb_of_def [symmetric]
        kr kok) (simp add: kb refs_ok_def e(1) st(1) kr [unfolded kb] ka [unfolded kb])
  have "in_step ?e"
    using inv wf live
    by (simp add: eng_inv_def in_step_def e codes on kok fk keys_down_def mods_ok_def codes_distinct_def)
       (simp add: kb)
  moreover have "phys_down ?e = (if p then insert r (phys_down e) else phys_down e - {r})"
    using ok by (auto simp: phys_down_def kb gk)
  then have "en_currentKeyPressCount ?e = int (card (phys_down ?e))"
    using inv ok card_gt_0_iff [of "phys_down e"]
    by (auto simp: eng_inv_def e(5) card_insert_if phys_down_def [of e])
       (auto simp: phys_down_def [symmetric] card_Diff_singleton_if)
  ultimately show ?thesis using good by (simp add: eng_inv_def)
qed

section \<open>Every event keeps the invariant\<close>

lemma searchKey_ok:
  assumes "wf_Keyboard kb" "searchKey q kb = Some (Some k)"
  shows "key_ok kb k"
proof -
  from assms(2) obtain b i where b: "getKeys q = Some b" and k: "k = KeyAt i"
    and f: "find (\<lambda>i. isSameScanCode (kb_store kb ! i) q = Some True) (m_hashedKeys kb ! b) = Some i"
    by (auto simp: searchKey_def split: option.splits)
  have "i \<in> set (m_hashedKeys kb ! b)" using find_eq_Some_mem [OF f] by simp
  moreover have "b < length (m_hashedKeys kb)" using getKeys_less [OF b] assms(1) by (simp add: wf_Keyboard_def)
  ultimately have "i \<in> {..<length (kb_store kb)}"
    using assms(1) unfolding wf_Keyboard_def by (metis UN_I nth_mem set_concat)
  then show ?thesis by (simp add: k key_ok_def)
qed

lemma lookup_key_ok:
  assumes "wf_Keyboard kb" "lookup_key kb kid m = Inr (Inr (Some k))"
  shows "key_ok kb k"
proof -
  have "searchKey (event_key_of kid) kb = Some (Some k)"
    using assms(2)
    by (auto simp: lookup_key_def run_bind_Inr deref_Inr split: option.splits if_splits)
  then show ?thesis by (rule searchKey_ok [OF assms(1)])
qed

lemma fixModifierKey_key: "fixModifierKey km mk = Inr (mk', am, b) \<Longrightarrow> mk_key mk' = mk_key mk"
  by (auto simp: fixModifierKey_def split: option.splits prod.splits if_splits)

lemma handle_key_end:
  assumes f: "good_call (env_call env)" and inv: "eng_inv e"
    and k: "\<And>r. k = Some r \<Longrightarrow> key_ok (kb_of e) r"
    and run: "handle_key env ev (keyEventToKID ev) k e = Inr e'"
  shows "\<exists>e2. run_rel (count_press k (ke_isKeyDown ev) e) e2 \<and> eng_inv e2 \<and> run_rel e2 e' \<and>
    release_unused_modifiers e2 = Inr e'"
proof -
  define e1 where "e1 = count_press k (ke_isKeyDown ev) e"
  have inv1: "eng_inv e1" unfolding e1_def by (rule count_press_inv [OF inv k])
  then have good1: "good_engine e1" by (simp add: eng_inv_def)
  have kok: "key_ok (kb_of e1) r = key_ok (kb_of e) r" for r
    using inv by (auto simp: e1_def count_press_def kb_of_def on_keyboard_def eng_inv_def good_engine_def live_def
        Let_def split: option.splits)
  from run [unfolded handle_key_def Let_def run_bind_Inr, folded e1_def] obtain st km x where
    fx: "fixModifierKey km ((case k of Some r \<Rightarrow> ModifiedKey_of r | None \<Rightarrow> new_ModifiedKey)
        \<lparr>mk_modifier := getCurrentModifiers (st_keyboard st) km k (ke_isKeyDown ev) e1\<rparr>) = Inr x" and
    rest: "(case x of (mk1, am, isMod) \<Rightarrow>
        run_bind (dispatch_key env (keyEventToKID ev)
          \<lparr>cu_keymap = en_currentKeymap e,
           cu_mkey = (if en_isPrefix e1 \<and> en_doesEditNextModifier e1
                      then mk1\<lparr>mk_modifier := Modifier_add (en_modifierForNextKey e1) (mk_modifier mk1)\<rparr>
                      else mk1), cu_evdev = ucast (ke_scanCode ev)\<rparr>
          isMod (if en_isPrefix e1 \<and> isMod \<and> en_doesIgnoreModifierForPrefix e1 then AM_true else am)
          (ke_isKeyDown ev) st e1) release_unused_modifiers) = Inr e'"
    by (elim exE conjE) (rule that)
  obtain mk1 am isMod where x: "x = (mk1, am, isMod)" by (cases x)
  define mk2 where "mk2 = (if en_isPrefix e1 \<and> en_doesEditNextModifier e1
      then mk1\<lparr>mk_modifier := Modifier_add (en_modifierForNextKey e1) (mk_modifier mk1)\<rparr> else mk1)"
  have mk2: "mk_key mk2 = mk_key mk1" by (simp add: mk2_def)
  from rest [unfolded x prod.case run_bind_Inr, folded mk2_def] obtain e2 where
    e2: "dispatch_key env (keyEventToKID ev)
        \<lparr>cu_keymap = en_currentKeymap e, cu_mkey = mk2, cu_evdev = ucast (ke_scanCode ev)\<rparr>
        isMod (if en_isPrefix e1 \<and> isMod \<and> en_doesIgnoreModifierForPrefix e1 then AM_true else am)
        (ke_isKeyDown ev) st e1 = Inr e2" and
    e': "release_unused_modifiers e2 = Inr e'" by blast
  have "mk_key mk2 = k"
    using fixModifierKey_key [OF fx [unfolded x]] mk2 by (simp add: new_ModifiedKey_def ModifiedKey_of_def split: option.splits)
  then have "cur_ok e1 \<lparr>cu_keymap = en_currentKeymap e, cu_mkey = mk2, cu_evdev = ucast (ke_scanCode ev)\<rparr>"
    using k by (simp add: cur_ok_def key_ref_ok_def kok)
  from dispatch_rel [OF f good1 this no_E1 e2] have r2: "run_rel e1 e2" .
  have "run_rel e2 e'"
    using e' modifiers_rel [OF run_rel_good [OF r2 good1]] r2
    by (auto simp: release_unused_modifiers_def run_rel_def kb_of_def intro: run_rel_refl split: if_splits)
  with e' r2 show ?thesis using run_rel_inv [OF r2 inv1] by (auto simp: e1_def)
qed

text \<open>What neither events nor resets change: the keymaps, the sequences, the lists of modifier
  keys and the flags of standard modifiers.\<close>

definition keeps_config :: "Engine \<Rightarrow> Engine \<Rightarrow> bool" where
  "keeps_config e e' \<longleftrightarrow>
     st_keymaps (the (en_setting e')) = st_keymaps (the (en_setting e)) \<and>
     st_keySeqs (the (en_setting e')) = st_keySeqs (the (en_setting e)) \<and>
     m_mods (kb_of e') = m_mods (kb_of e) \<and>
     (\<forall>k. key_ok (kb_of e') k = key_ok (kb_of e) k) \<and>
     (\<forall>k. key_ok (kb_of e) k \<longrightarrow> m_scanCodes (get_key (kb_of e') k) = m_scanCodes (get_key (kb_of e) k)) \<and>
     std_flag (en_modifierState e') = std_flag (en_modifierState e) \<and>
     (en_eventProcessor e' = None \<longleftrightarrow> en_eventProcessor e = None)"

lemma keeps_config_refl [simp]: "keeps_config e e"
  by (simp add: keeps_config_def)

lemma keeps_config_trans: "keeps_config a b \<Longrightarrow> keeps_config b c \<Longrightarrow> keeps_config a c"
  by (simp add: keeps_config_def)

lemma run_rel_keeps_config: "run_rel e e' \<Longrightarrow> keeps_config e e'"
  by (simp add: run_rel_def keeps_config_def)

lemma count_press_keeps_config:
  assumes "live e" "\<And>r. k = Some r \<Longrightarrow> key_ok (kb_of e) r"
  shows "keeps_config e (count_press k p e)"
proof (cases k)
  case None
  then show ?thesis by (simp add: count_press_def)
next
  case (Some r)
  obtain st where st: "en_setting e = Some st" using assms(1) by (auto simp: live_def)
  have kb: "kb_of (count_press k p e) = update_key r (\<lambda>q. q\<lparr>m_isPressed := p\<rparr>) (kb_of e)"
    by (simp add: count_press_def Some on_keyboard_def kb_of_def st Let_def)
  show ?thesis
    using get_key_update [OF assms(2) [OF Some]]
    by (simp add: keeps_config_def kb) (simp add: count_press_def Some on_keyboard_def st Let_def)
qed

lemma handle_event_inv:
  assumes f: "good_call (env_call env)" and inv: "eng_inv e"
    and on: "en_isEnabled e" "en_currentKeymap e \<noteq> None"
    and run: "handle_event env ev e = Inr e'"
  shows "eng_inv e' \<and> keeps_config e e'"
proof -
  have lv: "live e" and wf: "wf_Keyboard (kb_of e)" using inv by (simp_all add: eng_inv_def good_engine_def)
  then have "en_setting e \<noteq> None" by (simp add: live_def)
  with run on obtain found where
    l: "lookup_key (kb_of e) (keyEventToKID ev) (ke_extraInfo ev = MOUSE_EVENT_MARKER) = Inr found" and
    h: "(case found of Inl _ \<Rightarrow> Inr e | Inr k \<Rightarrow> handle_key env ev (keyEventToKID ev) k e) = Inr e'"
    by (auto simp: handle_event_def Let_def setting_of_live [OF lv] kb_of_def [symmetric] run_bind_Inr)
  show ?thesis
  proof (cases found)
    case (Inl u)
    with h inv show ?thesis by simp
  next
    case (Inr k)
    then have h': "handle_key env ev (keyEventToKID ev) k e = Inr e'" using h by simp
    have kok: "key_ok (kb_of e) r" if "k = Some r" for r
      using lookup_key_ok [OF wf, of _ _ r] l Inr that by simp
    from handle_key_end [OF f inv kok h'] obtain e2 where
      "run_rel (count_press k (ke_isKeyDown ev) e) e2" "eng_inv e2" "run_rel e2 e'" by blast
    then show ?thesis
      using count_press_keeps_config [OF lv kok] run_rel_keeps_config run_rel_inv keeps_config_trans by metis
  qed
qed

text \<open>The engine between two configurations: events while enabled and with a keymap, whatever the
  clock and layout, and the reset of the system's keys.\<close>

inductive engine_reach :: "Engine \<Rightarrow> Engine \<Rightarrow> bool" for e0 where
  start: "engine_reach e0 e0"
| event: "engine_reach e0 e \<Longrightarrow> en_isEnabled e \<Longrightarrow> en_currentKeymap e \<noteq> None \<Longrightarrow>
    env_call env = gen fuel \<Longrightarrow> handle_event env ev e = Inr e' \<Longrightarrow>
    engine_reach e0 e'"
| reset: "engine_reach e0 e \<Longrightarrow> keyboardResetOnWin32 e = Inr e' \<Longrightarrow> engine_reach e0 e'"

lemma reset_inv: "eng_inv e \<Longrightarrow> keyboardResetOnWin32 e = Inr e' \<Longrightarrow> eng_inv e' \<and> keeps_config e e'"
proof -
  assume inv: "eng_inv e" and run: "keyboardResetOnWin32 e = Inr e'"
  then have good: "good_engine e" by (simp add: eng_inv_def)
  note lv = good_engine_live [OF good]
  have "\<forall>k\<in>set (all_keys (kb_of e)). key_ok (kb_of e) k" using all_keys_ok [OF good] by simp
  from release_fold [OF lv this, of True] run have "gen_rel e e'"
    by (auto simp: keyboardResetOnWin32_def setting_of_live [OF lv] kb_of_def [symmetric])
  then show ?thesis using inv gen_rel_run_rel run_rel_inv run_rel_keeps_config by blast
qed

lemma engine_reach_inv:
  assumes "eng_inv e0" "engine_reach e0 e"
  shows "eng_inv e \<and> keeps_config e0 e"
  using assms(2,1)
proof induction
  case start
  then show ?case by simp
next
  case (event e env fuel ev e')
  have "good_call (env_call env)" using gen_good event by simp
  from handle_event_inv [OF this] event show ?case using keeps_config_trans by blast
next
  case (reset e e')
  then show ?case using reset_inv keeps_config_trans by blast
qed

text \<open>C3: Engine and system stay in step. Take an engine that is enabled and has a keymap whenever an
  event comes, and a setting whose scan codes are distinct and whose key sequences do not use the
  two commands that inject codes of no key, \<^verbatim>\<open>&VK\<close> and \<^verbatim>\<open>&MouseWheel\<close>. From a state in which engine
  and system agree, after any sequence of key events and resets of the system's keys, through any
  key sequences, prefix keymaps and other commands: the count of keys held down on the system is the
  number of keys flagged so, a scan code is down on the system exactly when its key is flagged, and
  the count of physically pressed keys is the number of keys flagged pressed.\<close>

theorem engine_and_system_in_step:
  assumes "eng_inv e0" "engine_reach e0 e"
  shows "en_currentKeyPressCountOnWin32 e = int (card (keys_down e)) \<and>
     en_currentKeyPressCount e = int (card (phys_down e)) \<and>
     (\<forall>k sc. key_ok (kb_of e) k \<and> sc \<in> set (m_scanCodes (get_key (kb_of e) k)) \<longrightarrow>
        (code_of sc \<in> os_down (en_injected e) \<longleftrightarrow> key_on e k))"
  using engine_reach_inv [OF assms] by (simp add: eng_inv_def in_step_def)

section \<open>Modifiers are not left behind\<close>

lemma new_Modifier_basic: "t \<in> set basic_types \<Longrightarrow> \<not> isDontcare new_Modifier t \<and> \<not> isPressed new_Modifier t"
  by simp




section \<open>Witnesses\<close>

lemma ex_engine_inv: "eng_inv (ex_engine False)"
proof -
  have "phys_down (ex_engine False) = {}"
    by (auto simp: phys_down_def ex_key_ok get_key_def ex_mod_kb_fields ex_key_def new_Key_def addScanCode_def)
  moreover have "substitutes_ok (ex_mod_kb False)"
    by (simp add: substitutes_ok_def ex_mod_kb_def addModifier_def addKey_def ex_getKeys new_Keyboard_def)
  ultimately show ?thesis
    using ex_engine_in_step ex_mod_kb_wf ex_engine_mods
    by (simp add: eng_inv_def good_engine_def refs_ok_def) (simp add: ex_engine_def new_Engine_def new_Setting_def)
qed

text \<open>In log mode, with Shift down on the system, releasing the A key: the modifiers are brought up.\<close>

definition ex_shift :: Engine where
  "ex_shift = (ex_engine False)\<lparr>en_setting := Some (new_Setting\<lparr>
       st_keyboard := update_key (KeyAt 0) (\<lambda>q. q\<lparr>m_isPressedOnWin32 := True\<rparr>) (ex_mod_kb False),
       st_keymaps := [new_Keymap ''Global'' None None]\<rparr>),
     en_currentKeyPressCountOnWin32 := 1, en_lastGeneratedKey := Some (KeyAt 0),
     en_injected := [Inject (kid_of \<lparr>m_scan = 0x2A, m_flags = 0\<rparr> True)]\<rparr>"

definition ex_log :: Engine where "ex_log = ex_shift\<lparr>en_isLogMode := True\<rparr>"

lemma ex_shift_run: "generateKeyEvent (KeyAt 0) True False (ex_engine False) = Inr ex_shift"
  by (simp add: ex_shift_def generateKeyEvent_def Event_events_def setting_of_def ex_engine_def new_Engine_def
      Let_def get_key_def ex_mod_kb_fields ex_key_def addScanCode_def new_Key_def on_keyboard_def
      injectInput_def injector_calls_def kid_of_def MOUSE_EVENT_MARKER_def)

lemma ex_shift_rel: "gen_rel (ex_engine False) ex_shift"
proof -
  have "key_ok (kb_of (ex_engine False)) (KeyAt 0)" by (simp add: ex_key_ok)
  from generateKeyEvent_rel [OF ex_engine_live this, of True False] show ?thesis
    by (simp add: ex_shift_run)
qed

lemma ex_log_fields:
  "en_isLogMode ex_log" "en_isEnabled ex_log" "\<not> en_isPrefix ex_log" "en_currentKeymap ex_log = Some 0"
  "en_lastGeneratedKey ex_log = Some (KeyAt 0)" "en_currentKeyPressCount ex_log = 0" "live ex_log"
  "st_keymaps (the (en_setting ex_log)) = [new_Keymap ''Global'' None None]"
  "kb_of ex_log = update_key (KeyAt 0) (\<lambda>q. q\<lparr>m_isPressedOnWin32 := True\<rparr>) (ex_mod_kb False)"
  "en_injected ex_log = [Inject (kid_of \<lparr>m_scan = 0x2A, m_flags = 0\<rparr> True)]"
  by (simp_all add: ex_log_def ex_shift_def ex_engine_def new_Engine_def live_def kb_of_def)

lemma ex_log_store:
  "kb_store (kb_of ex_log) = [(ex_key 0x2A False)\<lparr>m_isPressedOnWin32 := True\<rparr>, ex_key 0x38 False, ex_key 0x1E False]"
  by (simp add: ex_log_fields update_key_def ex_mod_kb_fields)

definition ex_release :: KeyEvent where
  "ex_release = \<lparr>ke_isKeyDown = False, ke_isExtended = False, ke_scanCode = 0x1E, ke_extraInfo = 0\<rparr>"

definition ex_env :: event_env where
  "ex_env = \<lparr>env_ev = linux_ev, env_layout = ''us'', env_clock_a = (\<lambda>_. 0), env_clock_b = (\<lambda>_. 0),
     env_call = gen 3\<rparr>"

lemma ex_log_inv: "eng_inv ex_log"
proof -
  have "eng_inv ex_shift" by (rule run_rel_inv [OF gen_rel_run_rel [OF ex_shift_rel] ex_engine_inv])
  moreover from this have "run_rel ex_shift ex_log"
    by (intro same_out_run_rel) (simp_all add: ex_log_def same_out_def eng_inv_def good_engine_def)
  ultimately show ?thesis using run_rel_inv by blast
qed

lemma ex_log_lookup:
  "lookup_key (kb_of ex_log) (keyEventToKID ex_release) (ke_extraInfo ex_release = MOUSE_EVENT_MARKER) =
     Inr (Inr (Some (KeyAt 2)))"
proof -
  have "m_hashedKeys (kb_of ex_log) ! 30 = [2]"
    by (simp add: ex_log_fields update_key_def ex_mod_kb_def addModifier_def addKey_def ex_getKeys new_Keyboard_def HASHED_KEYS_SIZE_def)
  then have "searchKey (event_key_of (keyEventToKID ex_release)) (kb_of ex_log) = Some (Some (KeyAt 2))"
    by (simp add: searchKey_def getKeys_def event_key_of_def keyEventToKID_def ex_release_def addScanCode_def
        new_Key_def HASHED_KEYS_SIZE_def ex_log_store ex_key_def isSameScanCode_total ScanCode_eq_def
        KID_BREAK_def KID_E0E1_def)
  then show ?thesis by (simp add: lookup_key_def)
qed

lemma ex_log_run:
  "\<exists>e'. handle_event ex_env ex_release ex_log = Inr e' \<and> phys_down e' = {} \<and>
     KeyAt 0 \<in> set (m_mods (kb_of e') Type_Shift) \<and> key_ok (kb_of e') (KeyAt 0) \<and>
     m_scanCodes (get_key (kb_of e') (KeyAt 0)) = [\<lparr>m_scan = 0x2A, m_flags = 0\<rparr>]"
proof -
  define e1 where "e1 = count_press (Some (KeyAt 2)) False ex_log"
  have inv1: "eng_inv e1"
    unfolding e1_def by (rule count_press_inv [OF ex_log_inv]) (simp add: key_ok_def ex_log_store)
  have e1: "en_isLogMode e1" "\<not> en_isPrefix e1" "en_currentKeyPressCount e1 = 0"
    "en_lastGeneratedKey e1 = Some (KeyAt 0)" "live e1"
    "st_keymaps (the (en_setting e1)) = [new_Keymap ''Global'' None None]" "en_currentKeymap e1 = Some 0"
    and kb1: "kb_of e1 = update_key (KeyAt 2) (\<lambda>q. q\<lparr>m_isPressed := False\<rparr>) (kb_of ex_log)"
    using ex_log_fields ex_log_store
    by (auto simp: e1_def count_press_def on_keyboard_def Let_def
        live_def kb_of_def get_key_def ex_key_def addScanCode_def new_Key_def)
  have mods1: "m_mods (kb_of e1) = (\<lambda>_. [])(Type_Shift := [KeyAt 0], Type_Alt := [KeyAt 1])"
    by (simp add: kb1 ex_log_fields ex_mod_kb_fields)
  have "mods_ok (kb_of e1)" "mods_disjoint (kb_of e1)"
    using ex_engine_mods by (simp_all add: mods_ok_def mods_disjoint_def kb1 ex_log_fields)
  moreover have "\<forall>t\<in>set basic_types. quiet e1 t" by (simp add: quiet_def e1(4) mods1)
  moreover have "\<forall>t\<in>set basic_types. isPressed new_Modifier t \<and> \<not> isDontcare new_Modifier t \<longrightarrow> m_mods (kb_of e1) t \<noteq> []"
    using new_Modifier_basic by blast
  ultimately obtain e' where e': "generateModifierEvents new_Modifier e1 = Inr e'" "gen_rel e1 e'"
    using modifiers_fold [OF e1(5), of basic_types new_Modifier]
    by (auto simp: generateModifierEvents_def basic_types_def)
  have km: "keymap_at (the (en_setting e1)) (Some 0) = Inr (new_Keymap ''Global'' None None)"
    by (simp add: keymap_at_def e1)
  have fx: "fixModifierKey (new_Keymap n d q) mk = Inr (mk, AM_notModifier, False)" for n d q mk
    by (simp add: fixModifierKey_def new_Keymap_def all_types_def)
  have dispatch: "dispatch_key env (keyEventToKID ev) c False am p st e1 = Inr e1" for env ev c am p st
    by (simp add: dispatch_key_def e1 no_E1)
  have rel: "\<not> ke_isKeyDown ex_release" by (simp add: ex_release_def)
  have "handle_key ex_env ex_release (keyEventToKID ex_release) (Some (KeyAt 2)) ex_log = Inr e'"
    using e'(1) e1(3)
    by (simp add: handle_key_def Let_def e1_def [symmetric] setting_of_live e1 km fx dispatch rel
        release_unused_modifiers_def)
  then have run: "handle_event ex_env ex_release ex_log = Inr e'"
    using ex_log_lookup ex_log_fields(2,4,7)
    by (auto simp: handle_event_def Let_def setting_of_live live_def kb_of_def)
  have "phys_down e1 = {}" using inv1 e1(3) by (simp add: eng_inv_def)
  then have "phys_down e' = {}"
    using gen_rel_run_rel [OF e'(2)] by (auto simp: run_rel_def phys_down_def)
  moreover have "KeyAt 0 \<in> set (m_mods (kb_of e') Type_Shift)"
    using gen_rel_static(2) [OF e'(2)] by (simp add: mods1)
  moreover have "key_ok (kb_of e1) (KeyAt 0)"
    "m_scanCodes (get_key (kb_of e1) (KeyAt 0)) = [\<lparr>m_scan = 0x2A, m_flags = 0\<rparr>]"
    by (simp_all add: kb1 key_ok_def get_key_def update_key_def ex_log_store ex_key_def addScanCode_def new_Key_def)
  then have "key_ok (kb_of e') (KeyAt 0)"
    "m_scanCodes (get_key (kb_of e') (KeyAt 0)) = [\<lparr>m_scan = 0x2A, m_flags = 0\<rparr>]"
    using gen_rel_run_rel [OF e'(2)] by (simp_all add: run_rel_def)
  ultimately show ?thesis using run by blast
qed


text \<open>The same event, from an engine that has pressed Shift: the counts are those of the flags again.\<close>

theorem engine_and_system_in_step_witness:
  "\<exists>e'. handle_event ex_env ex_release ex_log = Inr e' \<and> en_injected ex_log \<noteq> [] \<and>
     en_currentKeyPressCountOnWin32 e' = int (card (keys_down e')) \<and>
     ((0x2A, 0) \<in> os_down (en_injected e') \<longleftrightarrow> key_on e' (KeyAt 0))"
proof -
  obtain e' where e': "handle_event ex_env ex_release ex_log = Inr e'"
    "key_ok (kb_of e') (KeyAt 0)" "m_scanCodes (get_key (kb_of e') (KeyAt 0)) = [\<lparr>m_scan = 0x2A, m_flags = 0\<rparr>]"
    using ex_log_run by blast
  have "engine_reach ex_log e'"
    by (rule engine_reach.event [OF engine_reach.start ex_log_fields(2) _ _ e'(1), of 3])
       (simp_all add: ex_log_fields(4) ex_env_def)
  note st = engine_and_system_in_step [OF ex_log_inv this]
  with e'(2,3) have "(0x2A, 0) \<in> os_down (en_injected e') \<longleftrightarrow> key_on e' (KeyAt 0)" by (fastforce simp: code_of_def)
  with st e'(1) show ?thesis by (auto simp: ex_log_fields(10))
qed

end
