(* ===== verification/Cpp_Text.thy ===== *)
theory Cpp_Text
  imports Prelude
begin

text \<open>
  What the code uses of \<^verbatim>\<open>std::string\<close>: \<^verbatim>\<open>std::to_string\<close> of integers, \<^verbatim>\<open>std::stoll\<close> on the text
  of a number, and \<^verbatim>\<open>find\<close>. A position in a string that the code only moves forward is
  modelled by the text from that position on, so \<^verbatim>\<open>s.find(pat, pos)\<close> takes and gives suffixes.
\<close>

section \<open>Numbers as text\<close>

fun decimal :: "nat \<Rightarrow> string" where
  "decimal n = (if n < 10 then [char_of (48 + n)] else decimal (n div 10) @ [char_of (48 + n mod 10)])"

declare decimal.simps [simp del]

text \<open>\<^verbatim>\<open>std::to_string\<close> and the stream inserters for signed integers.\<close>

definition to_string :: "int \<Rightarrow> string" where
  "to_string i = (if i < 0 then CHR ''-'' # decimal (nat (- i)) else decimal (nat i))"

definition isdigit :: "char \<Rightarrow> bool" where
  "isdigit c = (48 \<le> (of_char c :: nat) \<and> (of_char c :: nat) \<le> 57)"

definition digit_value :: "char \<Rightarrow> int" where
  "digit_value c = int (of_char c) - 48"

definition decimal_value :: "string \<Rightarrow> int" where
  "decimal_value ds = foldl (\<lambda>v d. v * 10 + digit_value d) 0 ds"

text \<open>\<^verbatim>\<open>std::stoll\<close> on an optional minus sign and digits. It throws, here None, without a digit and
  for a number that does not fit 64 bits.\<close>

definition stoll :: "string \<Rightarrow> int option" where
  "stoll s =
     (let neg = s \<noteq> [] \<and> hd s = CHR ''-'';
          ds = (if neg then tl s else s);
          v = (if neg then - decimal_value ds else decimal_value ds)
      in if ds = [] \<or> \<not> list_all isdigit ds then None
         else if - (2 ^ 63) \<le> v \<and> v < 2 ^ 63 then Some v else None)"

lemma isdigit_digit: "(d :: nat) < 10 \<Longrightarrow> isdigit (char_of (48 + d))"
  by (simp add: isdigit_def)

lemma digit_value_digit: "(d :: nat) < 10 \<Longrightarrow> digit_value (char_of (48 + d)) = int d"
  by (simp add: digit_value_def)

lemma decimal_value_append: "decimal_value (ds @ [d]) = decimal_value ds * 10 + digit_value d"
  by (simp add: decimal_value_def)

lemma isdigit_decimal: "list_all isdigit (decimal n)"
proof (induction n rule: decimal.induct)
  case (1 n)
  then show ?case
    by (subst decimal.simps) (auto simp: isdigit_digit)
qed

lemma decimal_not_empty: "decimal n \<noteq> []"
  by (subst decimal.simps) auto

lemma decimal_value_decimal: "decimal_value (decimal n) = int n"
proof (induction n rule: decimal.induct)
  case (1 n)
  show ?case
  proof (cases "n < 10")
    case True
    then show ?thesis
      by (subst decimal.simps) (simp add: decimal_value_def digit_value_digit)
  next
    case False
    have "decimal_value (decimal n) = int (n div 10) * 10 + int (n mod 10)"
      by (subst decimal.simps)
        (simp only: False if_False decimal_value_append 1 [OF False] digit_value_digit
           mod_less_divisor zero_less_numeral)
    then show ?thesis by presburger
  qed
qed

lemma decimal_inj: "decimal m = decimal n \<longleftrightarrow> m = n"
  by (metis decimal_value_decimal of_nat_eq_iff)

lemma hd_decimal: "hd (decimal n) \<noteq> CHR ''-''"
  using isdigit_decimal [of n] decimal_not_empty [of n]
  by (cases "decimal n") (auto simp: isdigit_def)

lemma stoll_to_string:
  assumes "- (2 ^ 63) \<le> i" and "i < 2 ^ 63"
  shows "stoll (to_string i) = Some i"
proof (cases "i < 0")
  case True
  then show ?thesis
    using assms isdigit_decimal [of "nat (- i)"] decimal_not_empty [of "nat (- i)"]
    by (simp add: stoll_def to_string_def Let_def decimal_value_decimal)
next
  case False
  then show ?thesis
    using assms isdigit_decimal [of "nat i"] decimal_not_empty [of "nat i"] hd_decimal [of "nat i"]
    by (simp add: stoll_def to_string_def Let_def decimal_value_decimal)
qed

lemma to_string_not_empty: "to_string i \<noteq> []"
  by (simp add: to_string_def decimal_not_empty)

text \<open>A decimal number runs up to the first character that is no digit.\<close>

lemma takeWhile_isdigit_decimal:
  assumes "\<not> isdigit c"
  shows "takeWhile isdigit (decimal n @ c # rest) = decimal n"
    and "dropWhile isdigit (decimal n @ c # rest) = c # rest"
proof -
  have "\<forall>x\<in>set (decimal n). isdigit x"
    using isdigit_decimal [of n] by (simp add: list_all_iff)
  then show "takeWhile isdigit (decimal n @ c # rest) = decimal n"
    and "dropWhile isdigit (decimal n @ c # rest) = c # rest"
    using assms by (simp_all add: takeWhile_append2 dropWhile_append2)
qed

section \<open>Searching\<close>

text \<open>\<^verbatim>\<open>s.find(pat)\<close>: the text after the first occurrence of the pattern, if there is one.\<close>

fun find_after :: "string \<Rightarrow> string \<Rightarrow> string option" where
  "find_after pat [] = (if pat = [] then Some [] else None)"
| "find_after pat (c # s) =
     (if take (length pat) (c # s) = pat then Some (drop (length pat) (c # s)) else find_after pat s)"

lemma find_after_here: "find_after pat (pat @ s) = Some s"
  by (cases "pat @ s") (auto simp: append_eq_Cons_conv)

lemma find_after_sound: "find_after pat s = Some r \<Longrightarrow> \<exists>u. s = u @ pat @ r"
proof (induction s)
  case Nil
  then show ?case by (auto split: if_splits)
next
  case (Cons c s)
  show ?case
  proof (cases "take (length pat) (c # s) = pat")
    case True
    then have "c # s = [] @ pat @ r"
      using Cons.prems append_take_drop_id [of "length pat" "c # s"] by auto
    then show ?thesis by blast
  next
    case False
    then obtain u where "s = u @ pat @ r" using Cons by auto
    then show ?thesis by (metis append_Cons)
  qed
qed

lemma find_after_None: "find_after pat s = None \<longleftrightarrow> \<not> (\<exists>u r. s = u @ pat @ r)"
proof
  assume "find_after pat s = None"
  then show "\<not> (\<exists>u r. s = u @ pat @ r)"
  proof (induction s)
    case Nil
    then show ?case by (auto split: if_splits)
  next
    case (Cons c s)
    show ?case
    proof
      assume "\<exists>u r. c # s = u @ pat @ r"
      then obtain u r where e: "c # s = u @ pat @ r" by blast
      then show False
        using Cons find_after_here [of pat r] by (cases u) (auto split: if_splits)
    qed
  qed
next
  assume "\<not> (\<exists>u r. s = u @ pat @ r)"
  then show "find_after pat s = None"
    using find_after_sound [of pat s] by (cases "find_after pat s") auto
qed

text \<open>Text in front in which the pattern's first character does not occur is skipped.\<close>

lemma find_after_skip:
  "x \<notin> set u \<Longrightarrow> find_after (x # pat) (u @ s) = find_after (x # pat) s"
  by (induction u) auto

end
