(* ===== verification/Json_Config_Loader.thy ===== *)
theory Json_Config_Loader
  imports Rule_Compiler Cpp_Text
begin

text \<open>
  The configuration loader (src/core/settings/json_config_loader.cpp): a parsed JSON value becomes
  a setting. Parsing itself is the nlohmann library, so the JSON text is a parameter. On every
  error the code logs a message and returns false, and its caller deletes the setting; here that is
  the value None.
\<close>

section \<open>JSON values\<close>

text \<open>An object's members are sorted by name and have different names, as in \<^verbatim>\<open>std::map\<close>.\<close>

datatype json =
    JNull
  | JBool bool
  | JNumber string
  | JString string
  | JArray "json list"
  | JObject "(string \<times> json) list"

definition is_object :: "json \<Rightarrow> bool" where
  "is_object j = (case j of JObject _ \<Rightarrow> True | _ \<Rightarrow> False)"

text \<open>\<^verbatim>\<open>contains\<close> and \<^verbatim>\<open>operator[]\<close> in one: a value that is not an object contains nothing.\<close>

definition json_member :: "json \<Rightarrow> string \<Rightarrow> json option" where
  "json_member j k = (case j of JObject kvs \<Rightarrow> map_of kvs k | _ \<Rightarrow> None)"

definition json_string :: "json option \<Rightarrow> string option" where
  "json_string j = (case j of Some (JString s) \<Rightarrow> Some s | _ \<Rightarrow> None)"

section \<open>Numbers\<close>

text \<open>
  \<^verbatim>\<open>strtol\<close> and \<^verbatim>\<open>strtoul\<close> with base 16, as the standard fixes them: white space, a sign, an
  optional \<^verbatim>\<open>0x\<close> before a digit, digits. The result is the number and the count of characters
  read.
\<close>

definition is_space :: "char \<Rightarrow> bool" where
  "is_space c \<longleftrightarrow> (of_char c :: nat) \<in> {32} \<union> {9..13}"

definition hex_digit :: "char \<Rightarrow> nat option" where
  "hex_digit c = (let n = of_char c :: nat in
     if 48 \<le> n \<and> n \<le> 57 then Some (n - 48)
     else if 97 \<le> n \<and> n \<le> 102 then Some (n - 87)
     else if 65 \<le> n \<and> n \<le> 70 then Some (n - 55)
     else None)"

definition hex_value :: "string \<Rightarrow> nat" where
  "hex_value ds = foldl (\<lambda>v d. v * 16 + the (hex_digit d)) 0 ds"

definition skip_0x :: "string \<Rightarrow> string" where
  "skip_0x s =
     (case s of
        z # x # d # rest \<Rightarrow>
          if z = CHR ''0'' \<and> (x = CHR ''x'' \<or> x = CHR ''X'') \<and> hex_digit d \<noteq> None then d # rest else s
      | _ \<Rightarrow> s)"

definition strtol16 :: "string \<Rightarrow> (int \<times> nat) option" where
  "strtol16 s0 =
     (let s = c_str s0; t = dropWhile is_space s;
          neg = (case t of c # _ \<Rightarrow> c = CHR ''-'' | [] \<Rightarrow> False);
          u = (case t of c # r \<Rightarrow> if c = CHR ''-'' \<or> c = CHR ''+'' then r else t | [] \<Rightarrow> []);
          v = skip_0x u;
          ds = takeWhile (\<lambda>c. hex_digit c \<noteq> None) v
      in if ds = [] then None
         else Some ((if neg then - int (hex_value ds) else int (hex_value ds)),
                    length s - length v + length ds))"

text \<open>\<^verbatim>\<open>std::stoi(s, nullptr, 16)\<close>; None is one of its exceptions.\<close>

definition stoi16 :: "string \<Rightarrow> int option" where
  "stoi16 s =
     (case strtol16 s of
        None \<Rightarrow> None
      | Some (v, _) \<Rightarrow> if - (2 ^ 31) \<le> v \<and> v < 2 ^ 31 then Some v else None)"

text \<open>
  \<^verbatim>\<open>parseScanCode\<close>. After its check for \<^verbatim>\<open>0x\<close> no sign can follow, so a value out of the range of
  \<^verbatim>\<open>unsigned long\<close>, where \<^verbatim>\<open>stoul\<close> throws, is one above 0xFFFF.
\<close>

definition parseScanCode :: "string \<Rightarrow> u16 option" where
  "parseScanCode s =
     (if length s < 3 \<or> s ! 0 \<noteq> CHR ''0'' \<or> (s ! 1 \<noteq> CHR ''x'' \<and> s ! 1 \<noteq> CHR ''X'') then None
      else case strtol16 s of
          None \<Rightarrow> None
        | Some (v, pos) \<Rightarrow>
            if pos \<noteq> length s then None
            else if v > 0xFFFF then None
            else Some (word_of_int v))"

section \<open>Keys\<close>

type_synonym key_lookup = "(string \<times> keyref) list"

definition parseKeyDefinition ::
    "string \<times> json \<Rightarrow> Keyboard \<times> key_lookup \<Rightarrow> (Keyboard \<times> key_lookup) option" where
  "parseKeyDefinition = (\<lambda>(name, scanCodeValue) (kb, lookup).
     case scanCodeValue of
       JString scanCodeHex \<Rightarrow>
         (case parseScanCode scanCodeHex of
            None \<Rightarrow> None
          | Some scanCode \<Rightarrow>
              (case addKey (addScanCode \<lparr>m_scan = scanCode, m_flags = 0\<rparr> (addName name new_Key)) kb of
                 None \<Rightarrow> None
               | Some kb' \<Rightarrow>
                   (case searchKey_name name kb' of
                      None \<Rightarrow> None
                    | Some keyPtr \<Rightarrow> Some (kb', AList.update name keyPtr lookup))))
     | _ \<Rightarrow> None)"

definition parseKeyboard :: "json \<Rightarrow> Keyboard \<Rightarrow> (Keyboard \<times> key_lookup) option" where
  "parseKeyboard obj kb =
     (case json_member obj ''keyboard'' of
        None \<Rightarrow> None
      | Some keyboard \<Rightarrow>
          (case json_member keyboard ''keys'' of
             Some (JObject keys) \<Rightarrow> opt_fold parseKeyDefinition keys (kb, [])
           | _ \<Rightarrow> None))"

definition resolveKeyName :: "key_lookup \<Rightarrow> string \<Rightarrow> keyref option" where
  "resolveKeyName lookup name = map_of lookup name"

text \<open>The first scan code of a key.\<close>

definition scan_of :: "Keyboard \<Rightarrow> keyref \<Rightarrow> u16 option" where
  "scan_of kb k = (case m_scanCodes (get_key kb k) of [] \<Rightarrow> None | sc # _ \<Rightarrow> Some (m_scan sc))"

section \<open>Virtual modifiers\<close>

text \<open>\<^verbatim>\<open>static_cast<uint8_t>(std::stoi(name.substr(1), nullptr, 16))\<close> behind the test for an M and two
  more characters.\<close>

definition virtual_mod_number :: "string \<Rightarrow> u8 option" where
  "virtual_mod_number s =
     (if length s \<noteq> 3 \<or> s ! 0 \<noteq> CHR ''M'' then None
      else map_option word_of_int (stoi16 (tl s)))"

definition parseVirtualModifier ::
    "key_lookup \<Rightarrow> string \<times> json \<Rightarrow> Setting \<Rightarrow> Setting option" where
  "parseVirtualModifier lookup = (\<lambda>(modName, modDef) st.
     case virtual_mod_number modName of
       None \<Rightarrow> None
     | Some modNum \<Rightarrow>
         if \<not> is_object modDef then None
         else case json_string (json_member modDef ''trigger'') of
             None \<Rightarrow> None
           | Some triggerName \<Rightarrow>
               (case Option.bind (resolveKeyName lookup triggerName) (scan_of (st_keyboard st)) of
                  None \<Rightarrow> None
                | Some trigger \<Rightarrow>
                    (let st1 = st\<lparr>st_virtualModTriggers :=
                                 AList.update trigger modNum (st_virtualModTriggers st)\<rparr>
                     in case json_member modDef ''tap'' of
                         None \<Rightarrow> Some st1
                       | Some tap \<Rightarrow>
                           (case json_string (Some tap) of
                              None \<Rightarrow> None
                            | Some tapName \<Rightarrow>
                                (case Option.bind (resolveKeyName lookup tapName) (scan_of (st_keyboard st)) of
                                   None \<Rightarrow> None
                                 | Some code \<Rightarrow>
                                     Some (st1\<lparr>st_modTapActions :=
                                       AList.update modNum code (st_modTapActions st1)\<rparr>))))))"

definition parseVirtualModifiers :: "key_lookup \<Rightarrow> json \<Rightarrow> Setting \<Rightarrow> Setting option" where
  "parseVirtualModifiers lookup obj st =
     (case json_member obj ''virtualModifiers'' of
        None \<Rightarrow> Some st
      | Some (JObject vmods) \<Rightarrow> opt_fold (parseVirtualModifier lookup) vmods st
      | Some _ \<Rightarrow> None)"

section \<open>Key expressions\<close>

text \<open>The parts \<^verbatim>\<open>getline\<close> cuts a string into; the empty ones are dropped by the caller.\<close>

fun split_at :: "char \<Rightarrow> string \<Rightarrow> string list" where
  "split_at d [] = [[]]"
| "split_at d (c # cs) =
     (if c = d then [] # split_at d cs
      else (case split_at d cs of p # ps \<Rightarrow> (c # p) # ps | [] \<Rightarrow> [[c]]))"

definition spec_parts :: "string \<Rightarrow> string list" where
  "spec_parts s = filter (\<lambda>p. p \<noteq> []) (split_at (CHR ''-'') s)"

definition applySingleModifier :: "string \<Rightarrow> ModifiedKey \<Rightarrow> ModifiedKey option" where
  "applySingleModifier m mk =
     (let on = (\<lambda>t. Some (mk\<lparr>mk_modifier := press t (mk_modifier mk)\<rparr>)) in
      if m = ''Shift'' then on Type_Shift
      else if m = ''Ctrl'' \<or> m = ''Control'' then on Type_Control
      else if m = ''Alt'' then on Type_Alt
      else if m = ''Win'' \<or> m = ''Windows'' then on Type_Windows
      else map_option (\<lambda>n. setVirtualMod n True mk) (virtual_mod_number m))"

text \<open>A failure gives the modified key without a key.\<close>

definition parseModifiedKey :: "key_lookup \<Rightarrow> string \<Rightarrow> ModifiedKey" where
  "parseModifiedKey lookup spec =
     (let parts = spec_parts spec in
      if parts = [] then new_ModifiedKey
      else case resolveKeyName lookup (last parts) of
          None \<Rightarrow> new_ModifiedKey
        | Some key \<Rightarrow>
            (case opt_fold applySingleModifier (butlast parts) (ModifiedKey_of key) of
               None \<Rightarrow> new_ModifiedKey
             | Some mk \<Rightarrow> mk))"

section \<open>Mappings\<close>

definition add_action :: "key_lookup \<Rightarrow> json \<Rightarrow> KeySeq \<Rightarrow> KeySeq option" where
  "add_action lookup j ks =
     (case j of
        JString spec \<Rightarrow>
          (let mk = parseModifiedKey lookup spec in
           if mk_key mk = None then None else Some (KeySeq_add (ActionKey mk) ks))
      | _ \<Rightarrow> None)"

definition parseToField :: "key_lookup \<Rightarrow> json \<Rightarrow> KeySeq \<Rightarrow> KeySeq option" where
  "parseToField lookup j ks =
     (case j of
        JString _ \<Rightarrow> add_action lookup j ks
      | JArray xs \<Rightarrow>
          if xs = [] then None
          else map_option (setMode Type_KEYSEQ) (opt_fold (add_action lookup) xs ks)
      | _ \<Rightarrow> None)"

definition mapping_name :: "nat \<Rightarrow> string \<Rightarrow> string" where
  "mapping_name i spec = ''mapping_'' @ decimal i @ ''_'' @ spec"

text \<open>The global keymap is the one at position \<open>g\<close>; its assignments take keys of the keyboard,
  so \<^const>\<open>addAssignment\<close> does not fail.\<close>

definition parseSingleMapping :: "key_lookup \<Rightarrow> kmref \<Rightarrow> nat \<times> json \<Rightarrow> Setting \<Rightarrow> Setting option" where
  "parseSingleMapping lookup g = (\<lambda>(i, mapping) st.
     case json_string (json_member mapping ''from'') of
       None \<Rightarrow> None
     | Some fromSpec \<Rightarrow>
         (let fromKey = parseModifiedKey lookup fromSpec in
          if mk_key fromKey = None then None
          else case json_member mapping ''to'' of
              None \<Rightarrow> None
            | Some to \<Rightarrow>
                (case parseToField lookup to (setMode Type_ASSIGN (new_KeySeq (mapping_name i fromSpec))) of
                   None \<Rightarrow> None
                 | Some keySeq \<Rightarrow>
                     (case keyseq_add keySeq (st_keySeqs st) of
                        (seqs, r) \<Rightarrow>
                          (case addAssignment (st_keyboard st) fromKey r (st_keymaps st ! g) of
                             None \<Rightarrow> None
                           | Some km \<Rightarrow>
                               Some (st\<lparr>st_keySeqs := seqs,
                                        st_keymaps := (st_keymaps st)[g := km]\<rparr>))))))"

definition parseMappings :: "key_lookup \<Rightarrow> json \<Rightarrow> Setting \<Rightarrow> Setting option" where
  "parseMappings lookup obj st =
     (case json_member obj ''mappings'' of
        None \<Rightarrow> Some st
      | Some (JArray mappings) \<Rightarrow>
          (let (kms, g) = (case keymaps_searchByName ''Global'' (st_keymaps st) of
                             Some i \<Rightarrow> (st_keymaps st, i)
                           | None \<Rightarrow> keymaps_add (new_Keymap ''Global'' None None) (st_keymaps st))
           in opt_fold (parseSingleMapping lookup g) (zip [1..<Suc (length mappings)] mappings)
                (st\<lparr>st_keymaps := kms\<rparr>))
      | Some _ \<Rightarrow> None)"

section \<open>Loading\<close>

definition validateSchema :: "json \<Rightarrow> bool" where
  "validateSchema config \<longleftrightarrow>
     is_object config \<and> json_string (json_member config ''version'') = Some ''2.0'' \<and>
     json_member config ''keyboard'' \<noteq> None"

text \<open>The file's content is None when it cannot be opened; \<open>parse\<close> is the library, None its
  exceptions.\<close>

definition loadJsonFile :: "(string \<Rightarrow> json option) \<Rightarrow> string option \<Rightarrow> json option" where
  "loadJsonFile parse content =
     (case content of None \<Rightarrow> None | Some s \<Rightarrow> if s = [] then None else parse s)"

definition load_config :: "json \<Rightarrow> Setting \<Rightarrow> Setting option" where
  "load_config config st =
     (if \<not> validateSchema config then None
      else case parseKeyboard config (st_keyboard st) of
          None \<Rightarrow> None
        | Some (kb, lookup) \<Rightarrow>
            (case parseVirtualModifiers lookup config (st\<lparr>st_keyboard := kb\<rparr>) of
               None \<Rightarrow> None
             | Some st1 \<Rightarrow> parseMappings lookup config st1))"

definition load :: "(string \<Rightarrow> json option) \<Rightarrow> string option \<Rightarrow> Setting \<Rightarrow> Setting option" where
  "load parse content st =
     (case loadJsonFile parse content of None \<Rightarrow> None | Some config \<Rightarrow> load_config config st)"

end
