(* ===== verification/Loaded_Configuration.thy ===== *)
theory Loaded_Configuration
  imports Json_Config_Loader
begin

text \<open>
  What the configuration loader accepts and what the settings it makes are like: numbers and key
  expressions, and the shape of a loaded setting.
\<close>

unbundle bit_operations_syntax

section \<open>Hexadecimal numbers\<close>

definition hex_char :: "nat \<Rightarrow> char" where
  "hex_char n = char_of (if n < 10 then 48 + n else 55 + n)"

lemma hex_digit_hex_char: "n < 16 \<Longrightarrow> hex_digit (hex_char n) = Some n"
  by (simp add: hex_digit_def hex_char_def Let_def of_char_of)

lemma hex_digit_plain:
  assumes "hex_digit d \<noteq> None"
  shows "\<not> is_space d" "d \<noteq> CHR ''-''" "d \<noteq> CHR ''+''" "d \<noteq> CHR 0x00"
  using assms by (auto simp: hex_digit_def is_space_def Let_def split: if_splits)

lemma hex_char_plain:
  assumes "n < 16"
  shows "\<not> is_space (hex_char n)" "hex_char n \<noteq> CHR ''-''" "hex_char n \<noteq> CHR ''+''"
    "hex_char n \<noteq> CHR 0x00"
  using hex_digit_plain [of "hex_char n"] hex_digit_hex_char [OF assms] by simp_all

lemma c_str_id: "CHR 0x00 \<notin> set s \<Longrightarrow> c_str s = s"
  by (auto simp: c_str_def takeWhile_eq_all_conv)

lemma hex_value_append: "hex_value (ds @ [d]) = hex_value ds * 16 + the (hex_digit d)"
  by (simp add: hex_value_def)

lemma length_takeWhile_all: "length (takeWhile P xs) = length xs \<longleftrightarrow> (\<forall>x\<in>set xs. P x)"
  by (induction xs) auto

text \<open>The digits of a byte, as modifier names write them.\<close>

definition mod_name :: "u8 \<Rightarrow> string" where
  "mod_name m = [CHR ''M'', hex_char (unat m div 16), hex_char (unat m mod 16)]"

lemma virtual_mod_number_mod_name: "virtual_mod_number (mod_name m) = Some m"
proof -
  let ?h = "unat m div 16" and ?l = "unat m mod 16"
  have b: "?h < 16" "?l < 16" using unat_u8_less [of m] by linarith+
  note p = hex_char_plain [OF b(1)] hex_char_plain [OF b(2)]
  have "strtol16 [hex_char ?h, hex_char ?l] = Some (int (unat m), 2)"
    using p hex_digit_hex_char [OF b(1)] hex_digit_hex_char [OF b(2)]
    by (simp add: strtol16_def c_str_def skip_0x_def hex_value_def Let_def)
  moreover have "- (2 ^ 31) \<le> uint m" by (rule order_trans [OF _ uint_ge_0]) simp
  moreover have "uint m < 2 ^ 31" using uint_lt2p [of m] by simp
  ultimately show ?thesis by (simp add: virtual_mod_number_def mod_name_def stoi16_def)
qed

text \<open>The scan codes the loader accepts are exactly \<^verbatim>\<open>0x\<close> or \<^verbatim>\<open>0X\<close> followed by hexadecimal
  digits, at least one, whose value fits 16 bits; the result is that value.\<close>

theorem scan_code_syntax:
  "parseScanCode s = Some w \<longleftrightarrow>
     (\<exists>x ds. s = CHR ''0'' # x # ds \<and> (x = CHR ''x'' \<or> x = CHR ''X'') \<and> ds \<noteq> [] \<and>
        list_all (\<lambda>d. hex_digit d \<noteq> None) ds \<and> hex_value ds \<le> 0xFFFF \<and> w = of_nat (hex_value ds))"
proof (cases "\<exists>x ds. s = CHR ''0'' # x # ds \<and> (x = CHR ''x'' \<or> x = CHR ''X'') \<and> ds \<noteq> []")
  case False
  have "parseScanCode s = None"
  proof (rule ccontr)
    assume "parseScanCode s \<noteq> None"
    then have "3 \<le> length s" "s ! 0 = CHR ''0''" "s ! 1 = CHR ''x'' \<or> s ! 1 = CHR ''X''"
      by (auto simp: parseScanCode_def split: if_splits)
    with False show False by (cases s; cases "tl s"; cases "tl (tl s)") auto
  qed
  with False show ?thesis by auto
next
  case True
  then obtain x ds where s: "s = CHR ''0'' # x # ds" and x: "x = CHR ''x'' \<or> x = CHR ''X''"
    and ds: "ds \<noteq> []" by blast
  have zero: "hex_digit (CHR ''0'') = Some 0" "\<not> is_space (CHR ''0'')"
    by (simp_all add: hex_digit_def is_space_def)
  have xd: "hex_digit x = None" "x \<noteq> CHR 0x00" using x by (auto simp: hex_digit_def)
  let ?run = "takeWhile (\<lambda>c. hex_digit c \<noteq> None)"
  have cs: "c_str s = CHR ''0'' # x # c_str ds" using xd(2) s by (simp add: c_str_def)
  have run: "?run (c_str ds) = ?run ds"
    using hex_digit_plain(4) by (induction ds) (auto simp: c_str_def)
  obtain d r where d: "ds = d # r" using ds by (cases ds) auto
  show ?thesis
  proof (cases "hex_digit d = None")
    case True
    have "skip_0x (CHR ''0'' # x # c_str ds) = CHR ''0'' # x # c_str ds"
      using True d by (auto simp: skip_0x_def c_str_def)
    then have "strtol16 s = Some (0, 1)"
      using zero xd by (simp add: strtol16_def cs hex_value_def Let_def)
    then have "parseScanCode s = None" by (simp add: parseScanCode_def s d)
    with True show ?thesis by (auto simp: s d)
  next
    case False
    have d0: "c_str ds = d # c_str r" using hex_digit_plain(4) [OF False] d by (simp add: c_str_def)
    have "skip_0x (CHR ''0'' # x # c_str ds) = c_str ds"
      using False x by (simp add: skip_0x_def d0)
    moreover have "?run (c_str ds) \<noteq> []" using False by (simp add: d0)
    ultimately have "strtol16 s = Some (int (hex_value (?run ds)), 2 + length (?run ds))"
      using zero run by (simp add: strtol16_def cs Let_def)
    then have p: "parseScanCode s = (if length (?run ds) \<noteq> length ds then None
        else if hex_value (?run ds) > 0xFFFF then None else Some (of_nat (hex_value (?run ds))))"
      using x by (elim disjE) (simp_all add: parseScanCode_def s d del: takeWhile.simps)
    show ?thesis
    proof (cases "\<forall>e\<in>set ds. hex_digit e \<noteq> None")
      case True
      then have r: "?run ds = ds" by (simp add: takeWhile_eq_all_conv)
      have "parseScanCode s = (if hex_value ds > 0xFFFF then None else Some (of_nat (hex_value ds)))"
        using p unfolding r by simp
      with True x ds show ?thesis by (auto simp: s list_all_iff)
    next
      case False
      then have "parseScanCode s = None" using p length_takeWhile_all [of _ ds] by auto
      with False show ?thesis by (auto simp: s list_all_iff)
    qed
  qed
qed

section \<open>Key expressions\<close>

definition show_mod :: "modifier_type + u8 \<Rightarrow> string" where
  "show_mod m =
     (case m of
        Inl t \<Rightarrow> (if t = Type_Shift then ''Shift'' else if t = Type_Control then ''Ctrl''
                  else if t = Type_Alt then ''Alt'' else ''Win'')
      | Inr n \<Rightarrow> mod_name n)"

definition apply_mod :: "modifier_type + u8 \<Rightarrow> ModifiedKey \<Rightarrow> ModifiedKey" where
  "apply_mod m mk =
     (case m of
        Inl t \<Rightarrow> mk\<lparr>mk_modifier := press t (mk_modifier mk)\<rparr>
      | Inr n \<Rightarrow> setVirtualMod n True mk)"

definition show_spec :: "(modifier_type + u8) list \<Rightarrow> string \<Rightarrow> string" where
  "show_spec ms name = concat (map (\<lambda>m. show_mod m @ ''-'') ms) @ name"

lemma split_at_plain: "d \<notin> set p \<Longrightarrow> split_at d p = [p]"
  by (induction p) auto

lemma split_at_append: "d \<notin> set p \<Longrightarrow> split_at d (p @ d # q) = p # split_at d q"
  by (induction p) auto

lemma mod_name_plain: "CHR ''-'' \<notin> set (mod_name m)"
proof -
  have "unat m div 16 < 16" "unat m mod 16 < 16" using unat_u8_less [of m] by linarith+
  from this [THEN hex_char_plain(2)] show ?thesis by (auto simp: mod_name_def eq_commute)
qed

lemma show_mod_plain: "CHR ''-'' \<notin> set (show_mod m)" "show_mod m \<noteq> []"
  using mod_name_plain by (auto simp: show_mod_def mod_name_def split: sum.split)

lemma spec_parts_show:
  assumes "name \<noteq> []" "CHR ''-'' \<notin> set name"
  shows "spec_parts (show_spec ms name) = map show_mod ms @ [name]"
proof -
  have "split_at (CHR ''-'') (show_spec ms name) = map show_mod ms @ [name]"
  proof (induction ms)
    case Nil
    then show ?case by (simp add: show_spec_def split_at_plain assms(2))
  next
    case (Cons m ms)
    have "show_spec (m # ms) name = show_mod m @ CHR ''-'' # show_spec ms name" by (simp add: show_spec_def)
    then show ?case using Cons by (simp add: split_at_append show_mod_plain(1))
  qed
  then show ?thesis using assms(1) show_mod_plain(2) by (auto simp: spec_parts_def)
qed

lemma apply_show_mod:
  assumes "\<And>t. m = Inl t \<Longrightarrow> t \<in> set basic_types"
  shows "applySingleModifier (show_mod m) mk = Some (apply_mod m mk)"
proof (cases m)
  case (Inl t)
  with assms show ?thesis
    by (auto simp: applySingleModifier_def show_mod_def apply_mod_def basic_types_def Let_def)
next
  case (Inr n)
  then show ?thesis using virtual_mod_number_mod_name [of n]
    by (simp add: applySingleModifier_def show_mod_def apply_mod_def Let_def mod_name_def)
qed

lemma apply_mods_read:
  "wf_ModifiedKey mk \<Longrightarrow> \<forall>t. Inl t \<in> set ms \<longrightarrow> t \<in> set basic_types \<Longrightarrow>
     wf_ModifiedKey (fold apply_mod ms mk) \<and> mk_key (fold apply_mod ms mk) = mk_key mk \<and>
     (\<forall>t. isPressed (mk_modifier (fold apply_mod ms mk)) t \<longleftrightarrow> Inl t \<in> set ms \<or> isPressed (mk_modifier mk) t) \<and>
     (\<forall>t. isDontcare (mk_modifier (fold apply_mod ms mk)) t \<longleftrightarrow> Inl t \<notin> set ms \<and> isDontcare (mk_modifier mk) t) \<and>
     (\<forall>n. isVirtualModActive (fold apply_mod ms mk) n \<longleftrightarrow> Inr n \<in> set ms \<or> isVirtualModActive mk n)"
proof (induction ms arbitrary: mk)
  case Nil
  then show ?case by simp
next
  case (Cons m ms)
  have wf: "wf_ModifiedKey (apply_mod m mk)"
    using Cons.prems(1) by (cases m) (auto simp: apply_mod_def wf_ModifiedKey_def setVirtualMod_def Let_def)
  have rd: "mk_key (apply_mod m mk) = mk_key mk"
    "isPressed (mk_modifier (apply_mod m mk)) t \<longleftrightarrow> m = Inl t \<or> isPressed (mk_modifier mk) t"
    "isDontcare (mk_modifier (apply_mod m mk)) t \<longleftrightarrow> m \<noteq> Inl t \<and> isDontcare (mk_modifier mk) t"
    "isVirtualModActive (apply_mod m mk) n \<longleftrightarrow> m = Inr n \<or> isVirtualModActive mk n" for t n
    using isVirtualModActive_set [OF Cons.prems(1), of _ True n]
    by (cases m; auto simp: apply_mod_def setVirtualMod_def Let_def isVirtualModActive_def)+
  have "\<forall>t. Inl t \<in> set ms \<longrightarrow> t \<in> set basic_types" using Cons.prems(2) by simp
  from Cons.IH [OF wf this] rd show ?case by auto
qed

text \<open>Key expressions round-trip. An expression that names standard modifiers and virtual
  modifiers M00 to MFF in any order and number, each followed by a dash, and then a known key whose
  name has no dash, is parsed to that key with exactly those modifiers: the standard ones required,
  all others as in a key without modifiers, and exactly the named virtual ones active.\<close>

theorem key_expression_roundtrip:
  assumes "name \<noteq> []" "CHR ''-'' \<notin> set name" "map_of lookup name = Some k"
    and "\<forall>t. Inl t \<in> set ms \<longrightarrow> t \<in> set basic_types"
    and "mk = parseModifiedKey lookup (show_spec ms name)"
  shows "mk_key mk = Some k \<and>
    (\<forall>t. isPressed (mk_modifier mk) t \<longleftrightarrow> Inl t \<in> set ms) \<and>
    (\<forall>t. isDontcare (mk_modifier mk) t \<longleftrightarrow> Inl t \<notin> set ms \<and> isDontcare new_Modifier t) \<and>
    (\<forall>n. isVirtualModActive mk n \<longleftrightarrow> Inr n \<in> set ms)"
proof -
  have "opt_fold applySingleModifier (map show_mod ms) m = Some (fold apply_mod ms m)" for m
    using assms(4) by (induction ms arbitrary: m) (simp_all add: apply_show_mod)
  then have "mk = fold apply_mod ms (ModifiedKey_of k)"
    using assms(3,5) by (simp add: parseModifiedKey_def spec_parts_show [OF assms(1,2)] resolveKeyName_def)
  moreover have "mk_key (ModifiedKey_of k) = Some k" "mk_modifier (ModifiedKey_of k) = new_Modifier"
    by (simp_all add: ModifiedKey_of_def)
  ultimately show ?thesis using apply_mods_read [OF wf_new_ModifiedKey(2) assms(4), of k] by simp
qed

theorem key_expression_roundtrip_witness:
  "isVirtualModActive (parseModifiedKey [(''A'', KeyAt 0)] (show_spec [Inl Type_Shift, Inr 0x1F] ''A'')) 0x1F"
  using key_expression_roundtrip [of "''A''" "[(''A'', KeyAt 0)]" "KeyAt 0" "[Inl Type_Shift, Inr 0x1F]", OF _ _ _ _ refl]
  by (simp add: basic_types_def)

text \<open>Names the loader takes for a virtual modifier although they are not of the form M00 to MFF:
  a letter after the digit is dropped, so M0G is M00; a minus sign wraps around, so M-1 is MFF; and
  a blank or a plus sign is skipped.\<close>

theorem malformed_modifier_names:
  "virtual_mod_number ''M0G'' = Some 0 \<and> virtual_mod_number ''M-1'' = Some 0xFF \<and>
   virtual_mod_number ''M 7'' = Some 7 \<and> virtual_mod_number ''M+7'' = Some 7 \<and>
   virtual_mod_number ''M0x'' = Some 0 \<and> virtual_mod_number ''MG0'' = None"
  by code_simp

section \<open>The shape of a loaded setting\<close>

definition fresh_key :: "Key \<Rightarrow> bool" where
  "fresh_key k \<longleftrightarrow> \<not> m_isPressed k \<and> \<not> m_isPressedOnWin32 k \<and> \<not> m_isPressedByAssign k \<and>
     (\<exists>c. m_scanCodes k = [\<lparr>m_scan = c, m_flags = 0\<rparr>])"

definition loaded_kb :: "Keyboard \<Rightarrow> bool" where
  "loaded_kb kb \<longleftrightarrow> wf_Keyboard kb \<and> m_mods kb = (\<lambda>_. []) \<and> m_substitutes kb = [] \<and>
     m_numberModifiers kb = [] \<and> m_aliases kb = [] \<and> m_syncKey kb = new_Key \<and>
     (\<forall>k\<in>set (kb_store kb). fresh_key k)"

definition stored :: "Keyboard \<Rightarrow> keyref \<Rightarrow> bool" where
  "stored kb r \<longleftrightarrow> (\<exists>i<length (kb_store kb). r = KeyAt i)"

definition good_mkey :: "Keyboard \<Rightarrow> ModifiedKey \<Rightarrow> bool" where
  "good_mkey kb mk \<longleftrightarrow> (\<exists>k. mk_key mk = Some k \<and> stored kb k) \<and> isDontcare (mk_modifier mk) Type_Down \<and>
     (\<forall>t. isPressed (mk_modifier mk) t \<longrightarrow> \<not> isDontcare (mk_modifier mk) t)"

definition good_seq :: "Keyboard \<Rightarrow> KeySeq \<Rightarrow> bool" where
  "good_seq kb ks \<longleftrightarrow> sq_actions ks \<noteq> [] \<and>
     (\<forall>a\<in>set (sq_actions ks). \<exists>mk. a = ActionKey mk \<and> good_mkey kb mk)"

definition good_map :: "Keyboard \<Rightarrow> nat \<Rightarrow> Keymap \<Rightarrow> bool" where
  "good_map kb n km \<longleftrightarrow> km_modAssignments km = (\<lambda>_. []) \<and> km_parentKeymap km = None \<and>
     km_defaultKeySeq km = None \<and> wf_Keymap kb km \<and>
     (\<forall>a\<in>set (forEachAssignment km). ka_keySeq a < n \<and> good_mkey kb (ka_modifiedKey a))"

definition loaded_setting :: "Setting \<Rightarrow> bool" where
  "loaded_setting st \<longleftrightarrow> loaded_kb (st_keyboard st) \<and>
     (\<forall>ks\<in>set (st_keySeqs st). good_seq (st_keyboard st) ks) \<and>
     (\<forall>km\<in>set (st_keymaps st). good_map (st_keyboard st) (length (st_keySeqs st)) km)"

lemma set_update_subset: "set (AList.update k v xs) \<subseteq> insert (k, v) (set xs)"
  by (induction xs) auto

subsection \<open>Keys\<close>

lemma search_buckets_mem: "search_buckets store n bs = Some i \<Longrightarrow> i \<in> set (concat bs)"
  by (induction bs) (auto split: option.splits dest: find_eq_Some_mem)

lemma parseKeyDefinition_inv:
  assumes "parseKeyDefinition x (kb, lookup) = Some (kb', lookup')" "loaded_kb kb"
    and "\<forall>p\<in>set lookup. stored kb (snd p)"
  shows "loaded_kb kb' \<and> (\<forall>p\<in>set lookup'. stored kb' (snd p))"
proof -
  obtain name hex code where x: "x = (name, JString hex)"
    and add: "addKey (addScanCode \<lparr>m_scan = code, m_flags = 0\<rparr> (addName name new_Key)) kb = Some kb'"
    and rest: "\<exists>r. searchKey_name name kb' = Some r \<and> lookup' = AList.update name r lookup"
    using assms(1) by (cases x) (auto simp: parseKeyDefinition_def split: json.splits option.splits)
  let ?k = "addScanCode \<lparr>m_scan = code, m_flags = 0\<rparr> (addName name new_Key)"
  have wf: "wf_Keyboard kb'" using addKey_wf [OF _ add] assms(2) by (simp add: loaded_kb_def)
  have kb': "kb_store kb' = kb_store kb @ [?k]" "m_mods kb' = m_mods kb" "m_substitutes kb' = m_substitutes kb"
    "m_numberModifiers kb' = m_numberModifiers kb" "m_aliases kb' = m_aliases kb" "m_syncKey kb' = m_syncKey kb"
    using add by (auto simp: addKey_def split: option.splits)
  have "fresh_key ?k" by (simp add: fresh_key_def addScanCode_def addName_def new_Key_def)
  then have kb_ok: "loaded_kb kb'" using assms(2) wf by (simp add: loaded_kb_def kb')
  obtain r where r: "searchKey_name name kb' = Some r" "lookup' = AList.update name r lookup" using rest by blast
  have "stored kb' r"
    using r(1) wf kb_ok search_buckets_mem [of "kb_store kb'" name "m_hashedKeys kb'"]
    by (auto simp: searchKey_name_def find_alias_def loaded_kb_def searchKeyByNonAliasName_def stored_def
        wf_Keyboard_def)
  moreover have "stored kb' s" if "stored kb s" for s using that by (auto simp: stored_def kb')
  ultimately show ?thesis
    using kb_ok assms(3) set_update_subset [of name r lookup] unfolding r(2) by fastforce
qed

lemma parseKeyboard_inv:
  assumes "parseKeyboard obj kb = Some (kb', lookup)" "loaded_kb kb"
  shows "loaded_kb kb' \<and> (\<forall>p\<in>set lookup. stored kb' (snd p))"
proof -
  obtain keys where "opt_fold parseKeyDefinition keys (kb, []) = Some (kb', lookup)"
    using assms(1) by (auto simp: parseKeyboard_def split: option.splits json.splits)
  from opt_fold_invariant [where P = "\<lambda>(kb, lookup). loaded_kb kb \<and> (\<forall>p\<in>set lookup. stored kb (snd p))",
      OF _ _ this] assms(2) show ?thesis
    by (auto dest: parseKeyDefinition_inv)
qed

subsection \<open>Mappings\<close>

lemma applySingleModifier_good:
  assumes "applySingleModifier m mk = Some mk'" "good_mkey kb mk"
  shows "good_mkey kb mk'"
proof -
  have on: "good_mkey kb (mk\<lparr>mk_modifier := press t (mk_modifier mk)\<rparr>)" if "t \<noteq> Type_Down" for t
    using assms(2) that by (simp add: good_mkey_def)
  have vm: "good_mkey kb (setVirtualMod n b mk)" for n b
    using assms(2) by (simp add: good_mkey_def setVirtualMod_def Let_def)
  show ?thesis using assms(1) on vm
    by (simp add: applySingleModifier_def Let_def split: if_splits) blast+
qed

lemma parseModifiedKey_good:
  assumes "\<forall>p\<in>set lookup. stored kb (snd p)" "mk_key (parseModifiedKey lookup spec) \<noteq> None"
  shows "good_mkey kb (parseModifiedKey lookup spec)"
proof -
  let ?parts = "spec_parts spec"
  have none: "mk_key new_ModifiedKey = None" by (simp add: new_ModifiedKey_def)
  show ?thesis
  proof (cases "?parts = []")
    case True with assms(2) none show ?thesis by (simp add: parseModifiedKey_def)
  next
    case False
    show ?thesis
    proof (cases "map_of lookup (last ?parts)")
      case None
      with assms(2) none False show ?thesis by (simp add: parseModifiedKey_def resolveKeyName_def Let_def)
    next
      case (Some k)
      note k = this
      have "stored kb k" using assms(1) map_of_SomeD [OF k] by fastforce
      then have g: "good_mkey kb (ModifiedKey_of k)"
        by (simp add: good_mkey_def ModifiedKey_of_def basic_types_def)
      show ?thesis
      proof (cases "opt_fold applySingleModifier (butlast ?parts) (ModifiedKey_of k)")
        case None
        with assms(2) none False k show ?thesis by (simp add: parseModifiedKey_def resolveKeyName_def Let_def)
      next
        case (Some mk)
        with opt_fold_invariant [where P = "good_mkey kb", OF applySingleModifier_good g Some] False k
        show ?thesis by (simp add: parseModifiedKey_def resolveKeyName_def Let_def)
      qed
    qed
  qed
qed

lemma add_action_good:
  assumes lk: "\<forall>p\<in>set lookup. stored kb (snd p)" and run: "add_action lookup j ks = Some ks'"
    and ok: "\<forall>a\<in>set (sq_actions ks). \<exists>mk. a = ActionKey mk \<and> good_mkey kb mk"
  shows "good_seq kb ks'"
proof (cases j)
  case (JString spec)
  with run have mk: "mk_key (parseModifiedKey lookup spec) \<noteq> None"
    and ks': "ks' = KeySeq_add (ActionKey (parseModifiedKey lookup spec)) ks"
    by (simp_all add: add_action_def Let_def split: if_splits)
  from parseModifiedKey_good [OF lk mk] ok show ?thesis
    unfolding ks' by (auto simp: good_seq_def KeySeq_add_def)
qed (use run in \<open>simp_all add: add_action_def\<close>)

lemma parseToField_good:
  assumes lk: "\<forall>p\<in>set lookup. stored kb (snd p)" and run: "parseToField lookup j ks = Some ks'"
    and e: "sq_actions ks = []"
  shows "good_seq kb ks'"
proof (cases j)
  case (JString s)
  with run have "add_action lookup j ks = Some ks'" by (simp add: parseToField_def)
  from add_action_good [OF lk this] e show ?thesis by simp
next
  case (JArray xs)
  with run obtain x ys ks1 ks2 where x: "xs = x # ys" "add_action lookup x ks = Some ks1"
    and rest: "opt_fold (add_action lookup) ys ks1 = Some ks2" "ks' = setMode Type_KEYSEQ ks2"
    by (cases xs) (auto simp: parseToField_def split: option.splits)
  have g1: "good_seq kb ks1" using add_action_good [OF lk x(2)] e by simp
  have step: "good_seq kb s'" if "good_seq kb s" "add_action lookup y s = Some s'" for y s s'
    using that(1) by (intro add_action_good [OF lk that(2)]) (simp add: good_seq_def)
  have "good_seq kb ks2"
    by (rule opt_fold_invariant [where P = "good_seq kb", OF _ g1 rest(1)]) (rule step)
  then show ?thesis by (simp add: rest(2) good_seq_def setMode_def)
qed (use run in \<open>simp_all add: parseToField_def\<close>)

lemma keyseq_add_shape:
  "keyseq_add ks seqs = (seqs', r) \<Longrightarrow>
     r < length seqs' \<and> length seqs \<le> length seqs' \<and> set seqs' \<subseteq> insert ks (set seqs)"
proof -
  assume a: "keyseq_add ks seqs = (seqs', r)"
  have mem: "keyseq_searchByName n seqs = Some i \<Longrightarrow> i < length seqs" for n i
    unfolding keyseq_searchByName_def by (drule find_eq_Some_mem) auto
  show ?thesis
  proof (cases "if sq_name ks \<noteq> [] then keyseq_searchByName (sq_name ks) seqs else None")
    case None
    with a show ?thesis by (auto simp: keyseq_add_def)
  next
    case (Some i)
    with a mem have "seqs' = seqs[i := ks]" "r = i" "i < length seqs"
      by (auto simp: keyseq_add_def split: if_splits)
    then show ?thesis using set_update_subset_insert [of seqs i ks] by simp
  qed
qed

lemma addAssignment_mem:
  assumes "addAssignment kb mk r km = Some km'" "a \<in> set (forEachAssignment km')"
    and "length (km_hashedKeyAssignments km) = HASHED_KEY_ASSIGNMENT_SIZE"
  shows "a \<in> set (forEachAssignment km) \<or> a = \<lparr>ka_modifiedKey = mk, ka_keySeq = r\<rparr> \<or>
    (\<exists>b\<in>set (forEachAssignment km). a = b\<lparr>ka_keySeq := r\<rparr>)"
proof -
  obtain n where n: "getKeyAssignments kb mk = Some n" using assms(1)
    by (auto simp: addAssignment_def split: option.splits)
  let ?old = "km_hashedKeyAssignments km"
  define new where "new = (case assign_in mk r (?old ! n) of Some as \<Rightarrow> as
      | None \<Rightarrow> \<lparr>ka_modifiedKey = mk, ka_keySeq = r\<rparr> # ?old ! n)"
  have nl: "n < length ?old" using getKeyAssignments_less [OF n] assms(3) by simp
  have "km' = km\<lparr>km_hashedKeyAssignments := ?old[n := new]\<rparr>"
    using assms(1) n by (simp add: addAssignment_def new_def Let_def)
  then have "a \<in> set new \<or> a \<in> set (concat ?old)"
    using assms(2) set_update_subset_insert [of ?old n new] by (auto simp: forEachAssignment_def)
  moreover have "b \<in> set as \<or> (\<exists>c\<in>set as. b = c\<lparr>ka_keySeq := r\<rparr>)"
    if "assign_in mk r as = Some bs" "b \<in> set bs" for as bs b
    using that by (induction as arbitrary: bs) (auto split: if_splits)
  moreover have "set (?old ! n) \<subseteq> set (concat ?old)" using nth_mem [OF nl] by fastforce
  ultimately show ?thesis by (fastforce simp: new_def forEachAssignment_def split: option.splits)
qed

lemma parseSingleMapping_SomeE:
  assumes run: "parseSingleMapping lookup g (i, mapping) st = Some st'"
  obtains spec to ks seqs r km where "mk_key (parseModifiedKey lookup spec) \<noteq> None"
    "parseToField lookup to (setMode Type_ASSIGN (new_KeySeq (mapping_name i spec))) = Some ks"
    "keyseq_add ks (st_keySeqs st) = (seqs, r)"
    "addAssignment (st_keyboard st) (parseModifiedKey lookup spec) r (st_keymaps st ! g) = Some km"
    "st' = st\<lparr>st_keySeqs := seqs, st_keymaps := (st_keymaps st)[g := km]\<rparr>"
proof -
  note run' = run [unfolded parseSingleMapping_def Let_def prod.case]
  from run' obtain spec where spec: "json_string (json_member mapping ''from'') = Some spec"
    by (cases "json_string (json_member mapping ''from'')") simp_all
  note run' = run' [unfolded spec option.case]
  from run' have mk: "mk_key (parseModifiedKey lookup spec) \<noteq> None" by (rule contrapos_pn) simp
  note run' = run' [unfolded if_not_P [OF mk]]
  from run' obtain to where to: "json_member mapping ''to'' = Some to"
    by (cases "json_member mapping ''to''") simp_all
  note run' = run' [unfolded to option.case]
  from run' obtain ks where
    ks: "parseToField lookup to (setMode Type_ASSIGN (new_KeySeq (mapping_name i spec))) = Some ks"
    by (cases "parseToField lookup to (setMode Type_ASSIGN (new_KeySeq (mapping_name i spec)))") simp_all
  obtain seqs r where sr: "keyseq_add ks (st_keySeqs st) = (seqs, r)" by fastforce
  note run' = run' [unfolded ks option.case sr prod.case]
  from run' obtain km where
    km: "addAssignment (st_keyboard st) (parseModifiedKey lookup spec) r (st_keymaps st ! g) = Some km"
    by (cases "addAssignment (st_keyboard st) (parseModifiedKey lookup spec) r (st_keymaps st ! g)") simp_all
  from run' [unfolded km option.case] have "st' = st\<lparr>st_keySeqs := seqs, st_keymaps := (st_keymaps st)[g := km]\<rparr>"
    by simp
  from that [OF mk ks sr km this] show thesis .
qed

lemma parseSingleMapping_inv:
  assumes run: "parseSingleMapping lookup g (i, mapping) st = Some st'"
    and inv: "loaded_setting st" and g: "g < length (st_keymaps st)"
    and lk: "\<forall>p\<in>set lookup. stored (st_keyboard st) (snd p)"
  shows "loaded_setting st' \<and> length (st_keymaps st') = length (st_keymaps st) \<and>
    st_keyboard st' = st_keyboard st"
proof -
  let ?kb = "st_keyboard st"
  obtain spec to ks seqs r km where from_key: "mk_key (parseModifiedKey lookup spec) \<noteq> None"
    and to: "parseToField lookup to (setMode Type_ASSIGN (new_KeySeq (mapping_name i spec))) = Some ks"
    and add: "keyseq_add ks (st_keySeqs st) = (seqs, r)"
    and km: "addAssignment ?kb (parseModifiedKey lookup spec) r (st_keymaps st ! g) = Some km"
    and st': "st' = st\<lparr>st_keySeqs := seqs, st_keymaps := (st_keymaps st)[g := km]\<rparr>"
    by (rule parseSingleMapping_SomeE [OF run])
  have "good_seq ?kb ks"
    by (rule parseToField_good [OF lk to]) (simp add: setMode_def new_KeySeq_def)
  moreover note ka = keyseq_add_shape [OF add]
  ultimately have seqs: "\<forall>ks\<in>set seqs. good_seq ?kb ks" using inv by (auto simp: loaded_setting_def)
  have old: "good_map ?kb (length (st_keySeqs st)) (st_keymaps st ! g)" using inv g by (simp add: loaded_setting_def)
  have fk: "good_mkey ?kb (parseModifiedKey lookup spec)" by (rule parseModifiedKey_good [OF lk from_key])
  have hl: "length (km_hashedKeyAssignments (st_keymaps st ! g)) = HASHED_KEY_ASSIGNMENT_SIZE"
    using old by (simp add: good_map_def wf_Keymap_def)
  have "ka_keySeq a < length seqs \<and> good_mkey ?kb (ka_modifiedKey a)" if "a \<in> set (forEachAssignment km)" for a
    using addAssignment_mem [OF km that hl] old ka fk by (fastforce simp: good_map_def)
  moreover have "wf_Keymap ?kb km" using addAssignment_wf [OF _ km] old by (simp add: good_map_def)
  moreover have "km_modAssignments km = (\<lambda>_. [])" "km_parentKeymap km = None" "km_defaultKeySeq km = None"
    using km old by (auto simp: addAssignment_def good_map_def Let_def split: option.splits)
  ultimately have "good_map ?kb (length seqs) km" by (simp add: good_map_def)
  moreover have "good_map ?kb (length seqs) m" if "m \<in> set (st_keymaps st)" for m
    using that inv ka by (fastforce simp: loaded_setting_def good_map_def)
  ultimately have "\<forall>m\<in>set ((st_keymaps st)[g := km]). good_map ?kb (length seqs) m"
    using set_update_subset_insert [of "st_keymaps st" g km] by auto
  then show ?thesis using seqs inv by (simp add: st' loaded_setting_def)
qed

lemma parseVirtualModifier_frame:
  "parseVirtualModifier lookup x st = Some st' \<Longrightarrow>
     st_keyboard st' = st_keyboard st \<and> st_keymaps st' = st_keymaps st \<and> st_keySeqs st' = st_keySeqs st"
  by (cases x) (auto simp: parseVirtualModifier_def Let_def split: option.splits if_splits)

lemma parseVirtualModifiers_frame:
  assumes "parseVirtualModifiers lookup obj st = Some st'"
  shows "st_keyboard st' = st_keyboard st \<and> st_keymaps st' = st_keymaps st \<and> st_keySeqs st' = st_keySeqs st"
proof -
  consider (same) "st' = st" | (fold) vmods where "opt_fold (parseVirtualModifier lookup) vmods st = Some st'"
  proof (cases "json_member obj ''virtualModifiers''")
    case None
    with assms that(1) show ?thesis by (simp add: parseVirtualModifiers_def)
  next
    case (Some j)
    with assms that(2) show ?thesis by (cases j) (simp_all add: parseVirtualModifiers_def)
  qed
  then show ?thesis
  proof cases
    case fold
    let ?P = "\<lambda>s. st_keyboard s = st_keyboard st \<and> st_keymaps s = st_keymaps st \<and> st_keySeqs s = st_keySeqs st"
    have step: "?P s'" if "?P s" "parseVirtualModifier lookup x s = Some s'" for x s s'
      using parseVirtualModifier_frame [OF that(2)] that(1) by simp
    show ?thesis
      by (rule opt_fold_invariant [where P = ?P, OF step _ fold]) simp_all
  qed simp
qed

lemma good_map_new [simp]: "good_map kb n (new_Keymap name None None)"
  by (simp add: good_map_def) (auto simp: new_Keymap_def forEachAssignment_def)

lemma parseMappings_inv:
  assumes run: "parseMappings lookup obj st = Some st'" and inv: "loaded_setting st"
    and lk: "\<forall>p\<in>set lookup. stored (st_keyboard st) (snd p)"
  shows "loaded_setting st' \<and> st_keyboard st' = st_keyboard st"
proof (cases "json_member obj ''mappings''")
  case None
  with run inv show ?thesis by (simp add: parseMappings_def)
next
  case (Some j)
  define kg where "kg = (case keymaps_searchByName ''Global'' (st_keymaps st) of
      Some i \<Rightarrow> (st_keymaps st, i) | None \<Rightarrow> keymaps_add (new_Keymap ''Global'' None None) (st_keymaps st))"
  obtain kms g where kg': "kg = (kms, g)" by (cases kg)
  from run Some obtain ms where
    fold: "opt_fold (parseSingleMapping lookup g) (zip [1..<Suc (length ms)] ms) (st\<lparr>st_keymaps := kms\<rparr>) = Some st'"
    by (cases j) (simp_all add: parseMappings_def kg_def [symmetric] kg')
  have g: "g < length kms \<and> set kms \<subseteq> insert (new_Keymap ''Global'' None None) (set (st_keymaps st))"
  proof (cases "keymaps_searchByName ''Global'' (st_keymaps st)")
    case None
    with kg' show ?thesis by (auto simp: kg_def keymaps_add_def new_Keymap_def)
  next
    case (Some i)
    have "i < length (st_keymaps st)" using kms.search_Some Some by blast
    with kg' Some show ?thesis by (auto simp: kg_def)
  qed
  let ?P = "\<lambda>s. loaded_setting s \<and> length (st_keymaps s) = length kms \<and> st_keyboard s = st_keyboard st"
  have "?P (st\<lparr>st_keymaps := kms\<rparr>)" using inv g by (fastforce simp: loaded_setting_def)
  moreover have "?P s'" if "?P s" "parseSingleMapping lookup g x s = Some s'" for x s s'
    using parseSingleMapping_inv [of lookup g "fst x" "snd x" s s'] that g lk by (cases x) simp
  ultimately show ?thesis
    using opt_fold_invariant [where P = ?P, OF _ _ fold] by blast
qed

lemma load_config_inv:
  assumes run: "load_config config st = Some st'" and inv: "loaded_setting st"
    and e: "st_keymaps st = []" "st_keySeqs st = []"
  shows "loaded_setting st'"
proof -
  from run obtain kb lookup st1 where kb: "parseKeyboard config (st_keyboard st) = Some (kb, lookup)"
    and st1: "parseVirtualModifiers lookup config (st\<lparr>st_keyboard := kb\<rparr>) = Some st1"
    and st': "parseMappings lookup config st1 = Some st'"
    by (auto simp: load_config_def split: if_splits option.splits)
  have k: "loaded_kb kb" "\<forall>p\<in>set lookup. stored kb (snd p)"
    using parseKeyboard_inv [OF kb] inv by (simp_all add: loaded_setting_def)
  note fr = parseVirtualModifiers_frame [OF st1]
  have "loaded_setting st1" using k fr e by (simp add: loaded_setting_def)
  then show ?thesis using parseMappings_inv [OF st'] k fr by simp
qed

lemma new_Setting_loaded: "loaded_setting new_Setting"
  by (simp add: loaded_setting_def loaded_kb_def new_Setting_def new_Keyboard_wf)
     (simp add: new_Keyboard_def)

text \<open>C27: A loaded configuration is well formed. Whatever the JSON document, when the loader accepts
  it, every key of the keyboard sits in the bucket of its scan code and is up, every action of every
  sequence is a key of this keyboard, every assignment refers to an existing sequence and to a key of
  the keyboard, no modifier asks for being pressed and ignored at once, and there are no substitutes,
  keymap parents or default sequences.\<close>

theorem loaded_setting_well_formed:
  assumes "load_config config new_Setting = Some st"
  shows "loaded_setting st"
  by (rule load_config_inv [OF assms new_Setting_loaded]) (simp_all add: new_Setting_def)

section \<open>An example\<close>

text \<open>Two keys, and two mappings with Shift.\<close>

definition ex_config :: json where
  "ex_config = JObject [(''version'', JString ''2.0''),
     (''keyboard'', JObject [(''keys'', JObject [(''A'', JString ''0x1e''), (''B'', JString ''0x30'')])]),
     (''mappings'', JArray
       [JObject [(''from'', JString ''Shift-A''), (''to'', JString ''B'')],
        JObject [(''from'', JString ''A''), (''to'', JString ''Shift-B'')]])]"

definition ex_loaded :: Setting where
  "ex_loaded = the (load_config ex_config new_Setting)"

definition ex_shift_A :: ModifiedKey where
  "ex_shift_A = (ModifiedKey_of (KeyAt 0))\<lparr>mk_modifier := press Type_Shift new_Modifier\<rparr>"

definition ex_facts where
  "ex_facts st =
   (map m_scanCodes (kb_store (st_keyboard st)),
    map forEachAssignment (st_keymaps st),
    map (\<lambda>km. km_hashedKeyAssignments km ! 30) (st_keymaps st),
    map sq_actions (st_keySeqs st))"

lemma ex_loaded_eval:
  "map_option ex_facts (load_config ex_config new_Setting) = Some
   ([[\<lparr>m_scan = 0x1E, m_flags = 0\<rparr>], [\<lparr>m_scan = 0x30, m_flags = 0\<rparr>]],
    [[\<lparr>ka_modifiedKey = ModifiedKey_of (KeyAt 0), ka_keySeq = 1\<rparr>, \<lparr>ka_modifiedKey = ex_shift_A, ka_keySeq = 0\<rparr>]],
    [[\<lparr>ka_modifiedKey = ModifiedKey_of (KeyAt 0), ka_keySeq = 1\<rparr>, \<lparr>ka_modifiedKey = ex_shift_A, ka_keySeq = 0\<rparr>]],
    [[ActionKey (ModifiedKey_of (KeyAt 1))], [ActionKey ((ModifiedKey_of (KeyAt 1))\<lparr>mk_modifier := press Type_Shift new_Modifier\<rparr>)]])"
  by code_simp

lemma ex_loads: "load_config ex_config new_Setting = Some ex_loaded"
  using ex_loaded_eval by (auto simp: ex_loaded_def)

lemma ex_loaded_parts:
  "(map m_scanCodes (kb_store (st_keyboard ex_loaded)),
    map forEachAssignment (st_keymaps ex_loaded),
    map (\<lambda>km. km_hashedKeyAssignments km ! 30) (st_keymaps ex_loaded),
    map sq_actions (st_keySeqs ex_loaded)) =
   ([[\<lparr>m_scan = 0x1E, m_flags = 0\<rparr>], [\<lparr>m_scan = 0x30, m_flags = 0\<rparr>]],
    [[\<lparr>ka_modifiedKey = ModifiedKey_of (KeyAt 0), ka_keySeq = 1\<rparr>, \<lparr>ka_modifiedKey = ex_shift_A, ka_keySeq = 0\<rparr>]],
    [[\<lparr>ka_modifiedKey = ModifiedKey_of (KeyAt 0), ka_keySeq = 1\<rparr>, \<lparr>ka_modifiedKey = ex_shift_A, ka_keySeq = 0\<rparr>]],
    [[ActionKey (ModifiedKey_of (KeyAt 1))], [ActionKey ((ModifiedKey_of (KeyAt 1))\<lparr>mk_modifier := press Type_Shift new_Modifier\<rparr>)]])"
  using ex_loaded_eval unfolding ex_loads by (simp add: ex_facts_def)

lemmas ex_loaded_facts = ex_loaded_parts [unfolded prod.inject]

lemmas ex_loaded_store = ex_loaded_facts [THEN conjunct1]
lemmas ex_loaded_assignments = ex_loaded_facts [THEN conjunct2, THEN conjunct1]
lemmas ex_loaded_bucket = ex_loaded_facts [THEN conjunct2, THEN conjunct2, THEN conjunct1]
lemmas ex_loaded_seqs = ex_loaded_facts [THEN conjunct2, THEN conjunct2, THEN conjunct2]

theorem loaded_setting_well_formed_witness: "loaded_setting ex_loaded"
  by (rule loaded_setting_well_formed [OF ex_loads])

end
