(* ===== verification/Loaded_Engine.thy ===== *)
theory Loaded_Engine
  imports Engine_Invariants Loaded_Configuration
begin

text \<open>
  The engine with a configuration from the loader: it starts and keeps its invariant, and what
  becomes of mappings with standard modifiers.
\<close>

section \<open>The engine with a loaded configuration\<close>

lemma loaded_good:
  assumes "loaded_setting st"
  shows "wf_Keyboard (st_keyboard st)" "mods_ok (st_keyboard st)" "substitutes_ok (st_keyboard st)" "refs_ok st"
proof -
  have ref: "key_ref_ok kb (mk_key mk)" if "good_mkey kb mk" for kb mk
    using that by (auto simp: good_mkey_def stored_def key_ref_ok_def key_ok_def)
  show "refs_ok st" using assms ref by (fastforce simp: refs_ok_def loaded_setting_def good_seq_def action_ok_def)
  show "wf_Keyboard (st_keyboard st)" "mods_ok (st_keyboard st)" "substitutes_ok (st_keyboard st)"
    using assms by (simp_all add: loaded_setting_def loaded_kb_def mods_ok_def substitutes_ok_def)
qed

lemma loaded_key_up:
  "loaded_kb kb \<Longrightarrow> key_ok kb k \<Longrightarrow> \<not> m_isPressed (get_key kb k) \<and> \<not> m_isPressedOnWin32 (get_key kb k)"
  by (cases k) (auto simp: loaded_kb_def fresh_key_def key_ok_def get_key_def new_Key_def)

lemma loaded_engine_inv:
  assumes st: "loaded_setting st" and cd: "codes_distinct (st_keyboard st)"
    and e: "en_setting e = Some st" "\<not> en_settingDeleted e" "en_injected e = []"
      "en_currentKeyPressCount e = 0" "en_currentKeyPressCountOnWin32 e = 0"
  shows "eng_inv e"
proof -
  have kb: "kb_of e = st_keyboard st" and live: "live e" by (simp_all add: kb_of_def live_def e)
  have up: "\<not> m_isPressed (get_key (kb_of e) k) \<and> \<not> key_on e k" if "key_ok (kb_of e) k" for k
    using loaded_key_up [of "st_keyboard st" k] st that by (simp add: kb key_on_def loaded_setting_def)
  have "good_engine e" using loaded_good [OF st] live by (simp add: good_engine_def kb e)
  moreover have "keys_down e = {}" "phys_down e = {}" using up by (auto simp: keys_down_def phys_down_def)
  moreover have "in_step e"
    using loaded_good [OF st] live cd up \<open>keys_down e = {}\<close> by (simp add: in_step_def kb e os_down_def)
  ultimately show ?thesis by (simp add: eng_inv_def e)
qed

text \<open>The keymap the rules come from: the one called Global, else the newest.\<close>

definition global_keymap :: "Setting \<Rightarrow> Keymap option" where
  "global_keymap st = map_option ((!) (st_keymaps st)) (case keymaps_searchByName ''Global'' (st_keymaps st) of
     Some i \<Rightarrow> Some i | None \<Rightarrow> if st_keymaps st = [] then None else Some (length (st_keymaps st) - 1))"

lemma setSetting_loaded:
  assumes st: "loaded_setting st" and cd: "codes_distinct (st_keyboard st)"
  shows "\<exists>e. setSetting ev layout st (new_Engine a b) = Inr (True, e) \<and> eng_inv e \<and>
    en_setting e = Some st \<and> en_modifierState e = new_ModifierState \<and> en_eventProcessor e \<noteq> None \<and>
    en_injected e = [] \<and> en_isEnabled e \<and>
    (st_keymaps st \<noteq> [] \<longrightarrow> (\<exists>i<length (st_keymaps st). en_currentKeymap e = Some i)) \<and>
    \<not> en_isLogMode e \<and> \<not> en_isPrefix e \<and> en_eventProcessor e =
      Some (build_processor ev layout (st_keyboard st) (Some st) (st_keySeqs st) (global_keymap st))"
proof -
  define g where "g = (case keymaps_searchByName ''Global'' (st_keymaps st) of
      Some i \<Rightarrow> Some i | None \<Rightarrow> if st_keymaps st = [] then None else Some (length (st_keymaps st) - 1))"
  define e2 where "e2 = (new_Engine a b)\<lparr>en_setting := Some st, en_settingDeleted := False, en_globalKeymap := g\<rparr>"
  define e3 where "e3 = (case g of None \<Rightarrow> e2 | Some i \<Rightarrow> setCurrentKeymap (Some i) False e2)"
  have e3: "en_setting e3 = Some st" "\<not> en_settingDeleted e3" "en_globalKeymap e3 = g" "en_injected e3 = []"
    "en_recursionGuard e3 = 0" "en_currentKeyPressCount e3 = 0" "en_currentKeyPressCountOnWin32 e3 = 0"
    "en_modifierState e3 = new_ModifierState" "en_isEnabled e3"
    "\<not> en_isLogMode e3" "\<not> en_isPrefix e3"
    by (simp_all add: e3_def e2_def setCurrentKeymap_def new_Engine_def Let_def split: option.splits)
  have g: "i < length (st_keymaps st)" if "g = Some i" for i
    using that kms.search_Some [of "''Global''" "st_keymaps st"] by (fastforce simp: g_def split: option.splits if_splits)
  define p where "p = build_processor ev layout (st_keyboard st) (Some st) (st_keySeqs st) (map_option ((!) (st_keymaps st)) g)"
  have "(case g of None \<Rightarrow> Inr None
      | Some g \<Rightarrow> run_bind (setting_of e3) (\<lambda>st. run_bind (keymap_at st (Some g)) (\<lambda>km. Inr (Some km)))) =
      (Inr (map_option ((!) (st_keymaps st)) g) :: Keymap option run)"
    using g by (cases g) (simp_all add: e3 setting_of_def keymap_at_def)
  then have b: "buildSubstitutionTable ev layout (st_keyboard st) e3 = Inr (e3\<lparr>en_eventProcessor := Some p\<rparr>)"
    by (simp add: buildSubstitutionTable_def e3 p_def)
  let ?e = "e3\<lparr>en_eventProcessor := Some p\<rparr>"
  have run: "setSetting ev layout st (new_Engine a b) = Inr (True, ?e)"
  proof -
    have ns: "\<not> en_isSynchronizing (new_Engine a b)"
      and t: "take_over_keys st (new_Engine a b) = Inr (st, new_Engine a b)"
      by (simp_all add: new_Engine_def take_over_keys_def)
    show ?thesis
      unfolding setSetting_def t if_not_P [OF ns] run_bind_simps prod.case Let_def g_def [symmetric]
        e2_def [symmetric] e3_def [symmetric] b ..
  qed
  have "eng_inv ?e" by (rule loaded_engine_inv [OF st cd]) (simp_all add: e3)
  moreover have "\<exists>i<length (st_keymaps st). en_currentKeymap ?e = Some i" if "st_keymaps st \<noteq> []"
    using that g by (cases g) (auto simp: g_def e3_def setCurrentKeymap_def Let_def split: option.splits)
  moreover have "p = build_processor ev layout (st_keyboard st) (Some st) (st_keySeqs st) (global_keymap st)"
    by (simp add: p_def global_keymap_def g_def)
  ultimately show ?thesis using run e3 by auto
qed


subsection \<open>Mappings with standard modifiers\<close>

lemma doesMatch_pressed:
  assumes "doesMatch m q" "isPressed m t" "\<not> isDontcare m t"
  shows "isPressed q t"
proof -
  have "m_modifiers m OR m_dontcares m = m_modifiers q OR m_dontcares m" using assms(1) by (simp add: doesMatch_def)
  from arg_cong [OF this, of "\<lambda>w. bit w (type_index t)"] assms(2,3) show ?thesis
    by (auto simp: isPressed_bit isDontcare_bit bit_simps)
qed

lemma generic_never:
  assumes "isPressed (mk_modifier mk) t" "t \<in> set basic_types" "\<And>f. \<not> bit st (std_index f)"
  shows "\<not> from_holds mk st"
proof -
  note off = assms(3) [of LSHIFT] assms(3) [of RSHIFT] assms(3) [of LCTRL] assms(3) [of RCTRL]
    assms(3) [of LALT] assms(3) [of RALT] assms(3) [of LWIN] assms(3) [of RWIN]
  consider "t = Type_Shift" | "t = Type_Alt" | "t = Type_Control" | "t = Type_Windows"
    using assms(2) by (auto simp: basic_types_def)
  then have "\<not> list_all (generic_holds (mk_modifier mk) st) generic_table"
    by cases (use assms(1) off in \<open>simp_all add: generic_table_def generic_holds_def\<close>)
  then show ?thesis by (simp add: from_holds_def)
qed

lemma physical_key_no_modifier:
  assumes "km_modAssignments km = (\<lambda>_. [])" "t \<in> set basic_types"
  shows "\<not> isPressed (mk_modifier (buildPhysicalModifiedKey kb km c e)) t"
  using assms(2)
  by (auto simp: buildPhysicalModifiedKey_def getCurrentModifiers_def engine_isPressed_def assms(1) Let_def
      basic_types_def)

text \<open>C29: Mappings from standard modifiers never fire. After loading a configuration that maps, say,
  Shift-A, and whatever events arrive, no compiled rule of that mapping matches the modifier state,
  and the search for the physical key never gives it: the engine updates virtual modifiers only, and
  the loader registers no modifier keys.\<close>

theorem standard_modifier_mappings_never_fire:
  assumes "load_config config new_Setting = Some st" "codes_distinct (st_keyboard st)"
    and "setSetting ev layout st (new_Engine p q) = Inr (True, e0)" "engine_reach e0 e"
    and "km \<in> set (st_keymaps st)" "a \<in> set (forEachAssignment km)"
    and "t \<in> set basic_types" "isPressed (mk_modifier (ka_modifiedKey a)) t"
  shows "(\<forall>r\<in>set (compileKeyAssignment (kb_of e) seqs a). \<not> matches r (ms_state (en_modifierState e))) \<and>
    (\<forall>km'\<in>set (st_keymaps st).
       searchAssignment (kb_of e) km' (buildPhysicalModifiedKey (kb_of e) km' c e) \<noteq> Some (Some a))"
proof -
  have ld: "loaded_setting st"
    by (rule load_config_inv [OF assms(1) new_Setting_loaded]) (simp_all add: new_Setting_def)
  from setSetting_loaded [OF ld assms(2), of ev layout p q] assms(3) have
    e0: "eng_inv e0" "en_setting e0 = Some st" "en_modifierState e0 = new_ModifierState" by auto
  have "std_flag (en_modifierState e) = std_flag (en_modifierState e0)"
    using engine_reach_inv [OF e0(1) assms(4)] by (simp add: keeps_config_def)
  then have "\<not> bit (ms_state (en_modifierState e)) (std_index f)" for f
    by (auto simp: std_flag_def e0(3) new_ModifierState_def fun_eq_iff)
  then have never: "\<not> from_holds (ka_modifiedKey a) (ms_state (en_modifierState e))"
    by (rule generic_never [OF assms(8,7)])
  have rules: "\<not> matches r (ms_state (en_modifierState e))" if "r \<in> set (compileKeyAssignment (kb_of e) seqs a)" for r
    using that never compile_conditions_matches(1) [of "ka_modifiedKey a"]
    by (auto simp: compileKeyAssignment_def split: list.splits Action.splits)
  have dc: "\<not> isDontcare (mk_modifier (ka_modifiedKey a)) t"
    using ld assms(5,6,8) by (auto simp: loaded_setting_def good_map_def good_mkey_def)
  have "searchAssignment (kb_of e) km' (buildPhysicalModifiedKey (kb_of e) km' c e) \<noteq> Some (Some a)"
    if "km' \<in> set (st_keymaps st)" for km'
  proof
    let ?q = "buildPhysicalModifiedKey (kb_of e) km' c e"
    assume "searchAssignment (kb_of e) km' ?q = Some (Some a)"
    then have "exact_match ?q a \<or> base_match ?q a"
      by (auto simp: searchAssignment_def split: option.splits dest: search_bucket_sound)
    moreover have "\<not> doesMatch (mk_modifier (ka_modifiedKey a)) new_Modifier"
      using doesMatch_pressed [OF _ assms(8) dc] new_Modifier_basic [OF assms(7)] by blast
    ultimately have "isPressed (mk_modifier ?q) t"
      using doesMatch_pressed [OF _ assms(8) dc] by (auto simp: exact_match_def base_match_def)
    moreover have "km_modAssignments km' = (\<lambda>_. [])" using ld that by (simp add: loaded_setting_def good_map_def)
    ultimately show False using physical_key_no_modifier [OF _ assms(7)] by blast
  qed
  with rules show ?thesis by blast
qed

subsection \<open>Outputs with standard modifiers\<close>

text \<open>Without modifier keys, asking for a modifier fails and nothing else happens.\<close>

lemma modifier_step_no_keys:
  assumes "live e" "m_mods (kb_of e) = (\<lambda>_. [])"
  shows "modifier_step m t e = (if \<not> isDontcare m t \<and> isPressed m t then Inl Undefined else Inr e)"
proof -
  note st = setting_of_live [OF assms(1)]
  have "m_mods (st_keyboard (the (en_setting e))) = (\<lambda>_. [])" using assms(2) by (simp add: kb_of_def)
  then show ?thesis by (simp add: modifier_step_def press_modifier_def tap_other_modifier_def st Let_def)
qed

lemma generateModifierEvents_no_keys:
  assumes "live e" "m_mods (kb_of e) = (\<lambda>_. [])"
    and "t \<in> set basic_types" "isPressed m t" "\<not> isDontcare m t"
  shows "generateModifierEvents m e = Inl Undefined"
proof -
  have "run_fold (modifier_step m) ts e = Inl Undefined" if "t \<in> set ts" for ts
    using that assms(4,5) by (induction ts) (auto simp: modifier_step_no_keys [OF assms(1,2)])
  then show ?thesis using assms(3) by (simp add: generateModifierEvents_def)
qed

text \<open>C30: Outputs with standard modifiers are undefined behaviour. After loading a configuration, when
  a virtual modifier is held and the pressed key finds an assignment whose sequence starts with a key
  that asks for Shift, Control, Alt or Windows, handling the press takes the front of the empty list
  of modifier keys: the loader fills no such list.\<close>

theorem modified_output_is_undefined:
  assumes "load_config config new_Setting = Some st" "eng_inv e0"
    and "en_setting e0 = Some st" "engine_reach e0 e"
    and "hasActiveVirtualModifiers e" "en_currentKeymap e = Some i" "i < length (st_keymaps st)"
    and "searchAssignment (kb_of e) (st_keymaps st ! i)
           (buildPhysicalModifiedKey (kb_of e) (st_keymaps st ! i) c e) = Some (Some a)"
    and "ka_keySeq a < length (st_keySeqs st)" "sq_actions (st_keySeqs st ! ka_keySeq a) = ActionKey mk # as"
    and "t \<in> set basic_types" "isPressed (mk_modifier mk) t"
    and "isPressed (mk_modifier (cu_mkey c)) Type_Down" "env_call env = gen (Suc n)"
  shows "beginGeneratingKeyboardEvents env c False e = Inl Undefined"
proof -
  have ld: "loaded_setting st"
    by (rule load_config_inv [OF assms(1) new_Setting_loaded]) (simp_all add: new_Setting_def)
  have e: "eng_inv e" "keeps_config e0 e" using engine_reach_inv [OF assms(2,4)] by simp_all
  then have live: "live e" by (simp add: eng_inv_def good_engine_def)
  have cfg: "st_keymaps (the (en_setting e)) = st_keymaps st" "st_keySeqs (the (en_setting e)) = st_keySeqs st"
    "m_mods (kb_of e) = (\<lambda>_. [])"
    using e(2) ld assms(3) by (simp_all add: keeps_config_def kb_of_def loaded_setting_def loaded_kb_def)
  have "good_seq (st_keyboard st) (st_keySeqs st ! ka_keySeq a)"
    using ld nth_mem [OF assms(9)] by (simp add: loaded_setting_def)
  then have mk: "isDontcare (mk_modifier mk) Type_Down" "\<not> isDontcare (mk_modifier mk) t"
    using assms(10,12) by (auto simp: good_seq_def good_mkey_def)
  have act: "generateActionEvents f c (ActionKey mk) True e = Inl Undefined" for f
    using generateModifierEvents_no_keys [OF live cfg(3) assms(11)] assms(12) mk
    by (simp add: generateActionEvents_def wants_def isPressed_add isDontcare_add Let_def)
  have seq: "generateKeySeqEvents f c (ka_keySeq a) Part_down e = Inl Undefined" for f
    using assms(9,10) act
    by (cases as) (simp_all add: generateKeySeqEvents_def setting_of_live [OF live] keyseq_at_def cfg Let_def)
  show ?thesis
    using assms(5-8,13,14) seq
    by (simp add: beginGeneratingKeyboardEvents_def setting_of_live [OF live] keymap_at_def cfg Let_def
        kb_of_def [symmetric])
qed

section \<open>Witnesses\<close>

text \<open>Key A goes down.\<close>

definition ex_current :: Current where
  "ex_current = \<lparr>cu_keymap = Some 0,
     cu_mkey = (ModifiedKey_of (KeyAt 0))\<lparr>mk_modifier := press Type_Down new_Modifier\<rparr>, cu_evdev = 30\<rparr>"

lemma ex_loaded_setting: "loaded_setting ex_loaded"
  by (rule load_config_inv [OF ex_loads new_Setting_loaded]) (simp_all add: new_Setting_def)

lemma ex_loaded_keys:
  "key_ok (st_keyboard ex_loaded) k \<longleftrightarrow> k = KeyAt 0 \<or> k = KeyAt 1 \<or> k = SyncKey"
  "m_scanCodes (get_key (st_keyboard ex_loaded) (KeyAt 0)) = [\<lparr>m_scan = 0x1E, m_flags = 0\<rparr>]"
  "m_scanCodes (get_key (st_keyboard ex_loaded) (KeyAt 1)) = [\<lparr>m_scan = 0x30, m_flags = 0\<rparr>]"
  "m_scanCodes (get_key (st_keyboard ex_loaded) SyncKey) = []"
proof -
  let ?kb = "st_keyboard ex_loaded"
  have l: "length (kb_store ?kb) = 2" using arg_cong [OF ex_loaded_store, of length] by simp
  then show "key_ok ?kb k \<longleftrightarrow> k = KeyAt 0 \<or> k = KeyAt 1 \<or> k = SyncKey"
    by (cases k) (auto simp: key_ok_def less_Suc_eq numeral_2_eq_2)
  have "m_syncKey ?kb = new_Key" using ex_loaded_setting by (simp add: loaded_setting_def loaded_kb_def)
  then show "m_scanCodes (get_key ?kb SyncKey) = []" by (simp add: get_key_def new_Key_def)
  show "m_scanCodes (get_key ?kb (KeyAt 0)) = [\<lparr>m_scan = 0x1E, m_flags = 0\<rparr>]"
    "m_scanCodes (get_key ?kb (KeyAt 1)) = [\<lparr>m_scan = 0x30, m_flags = 0\<rparr>]"
    using arg_cong [OF ex_loaded_store, of "\<lambda>xs. xs ! 0"] arg_cong [OF ex_loaded_store, of "\<lambda>xs. xs ! 1"] l
    by (simp_all add: get_key_def)
qed

lemma ex_loaded_codes_cases:
  assumes "key_ok (st_keyboard ex_loaded) k" "sc \<in> set (m_scanCodes (get_key (st_keyboard ex_loaded) k))"
  shows "k = KeyAt 0 \<and> sc = \<lparr>m_scan = 0x1E, m_flags = 0\<rparr> \<or> k = KeyAt 1 \<and> sc = \<lparr>m_scan = 0x30, m_flags = 0\<rparr>"
  using assms ex_loaded_keys by fastforce

lemma ex_loaded_codes: "codes_distinct (st_keyboard ex_loaded)"
proof -
  let ?kb = "st_keyboard ex_loaded"
  have "k = j" if "key_ok ?kb k" "sc \<in> set (m_scanCodes (get_key ?kb k))"
    "key_ok ?kb j" "sc' \<in> set (m_scanCodes (get_key ?kb j))" "code_of sc = code_of sc'" for k j sc sc'
    using ex_loaded_codes_cases [OF that(1,2)] ex_loaded_codes_cases [OF that(3,4)] that(5) by (auto simp: code_of_def)
  moreover have "m_flags sc AND KID_BREAK = 0" if "key_ok ?kb k" "sc \<in> set (m_scanCodes (get_key ?kb k))" for k sc
    using ex_loaded_codes_cases [OF that] by auto
  ultimately show ?thesis unfolding codes_distinct_def by blast
qed


lemma ex_loaded_keymaps: "length (st_keymaps ex_loaded) = 1" "length (st_keySeqs ex_loaded) = 2"
  using arg_cong [OF ex_loaded_assignments, of length] arg_cong [OF ex_loaded_seqs, of length] by simp_all

lemma ex_loaded_km:
  "forEachAssignment (st_keymaps ex_loaded ! 0) =
     [\<lparr>ka_modifiedKey = ModifiedKey_of (KeyAt 0), ka_keySeq = 1\<rparr>, \<lparr>ka_modifiedKey = ex_shift_A, ka_keySeq = 0\<rparr>]"
  using arg_cong [OF ex_loaded_assignments, of hd] ex_loaded_keymaps
  by (cases "st_keymaps ex_loaded") simp_all

theorem standard_modifier_mappings_never_fire_witness:
  "\<exists>e0. setSetting linux_ev ''us'' ex_loaded (new_Engine False False) = Inr (True, e0) \<and>
     searchAssignment (kb_of e0) (st_keymaps ex_loaded ! 0)
       (buildPhysicalModifiedKey (kb_of e0) (st_keymaps ex_loaded ! 0) ex_current e0) \<noteq>
       Some (Some \<lparr>ka_modifiedKey = ex_shift_A, ka_keySeq = 0\<rparr>)"
proof -
  obtain e0 where e0: "setSetting linux_ev ''us'' ex_loaded (new_Engine False False) = Inr (True, e0)"
    using setSetting_loaded [OF ex_loaded_setting ex_loaded_codes] by blast
  have km: "st_keymaps ex_loaded ! 0 \<in> set (st_keymaps ex_loaded)" using ex_loaded_keymaps by simp
  have a: "\<lparr>ka_modifiedKey = ex_shift_A, ka_keySeq = 0\<rparr> \<in> set (forEachAssignment (st_keymaps ex_loaded ! 0))"
    by (simp add: ex_loaded_km)
  show ?thesis
    using standard_modifier_mappings_never_fire [OF ex_loads ex_loaded_codes e0 engine_reach.start km a,
        of Type_Shift] km e0
    by (auto simp: basic_types_def ex_shift_A_def)
qed

text \<open>M00 is held.\<close>

definition ex_loaded_engine :: Engine where
  "ex_loaded_engine = (new_Engine False False)\<lparr>en_setting := Some ex_loaded, en_currentKeymap := Some 0,
     en_modifierState := activateModifier 0 new_ModifierState\<rparr>"

lemma ex_active: "active_virtualMods (ms_state (activateModifier 0 new_ModifierState)) ! 0 = 1"
  by code_simp

lemma ex_loaded_search:
  "searchAssignment (kb_of ex_loaded_engine) (st_keymaps ex_loaded ! 0)
     (buildPhysicalModifiedKey (kb_of ex_loaded_engine) (st_keymaps ex_loaded ! 0) ex_current ex_loaded_engine) =
   Some (Some \<lparr>ka_modifiedKey = ModifiedKey_of (KeyAt 0), ka_keySeq = 1\<rparr>)"
  (is "searchAssignment ?kb ?km ?q = Some (Some ?a)")
proof -
  have "m_scanCodes (get_key ?kb (KeyAt 0)) = [\<lparr>m_scan = 0x1E, m_flags = 0\<rparr>]"
    using arg_cong [OF ex_loaded_store, of "\<lambda>xs. xs ! 0"] arg_cong [OF ex_loaded_store, of length]
    by (simp add: get_key_def ex_loaded_engine_def kb_of_def)
  then have b: "getKeyAssignments ?kb ?q = Some 30"
    by (simp add: getKeyAssignments_def buildPhysicalModifiedKey_def ex_current_def HASHED_KEY_ASSIGNMENT_SIZE_def)
  have bucket: "km_hashedKeyAssignments ?km ! 30 = [?a, \<lparr>ka_modifiedKey = ex_shift_A, ka_keySeq = 0\<rparr>]"
    using ex_loaded_bucket ex_loaded_keymaps by (cases "st_keymaps ex_loaded") simp_all
  have "mk_virtualMods ?q ! 0 = 1"
    by (simp add: buildPhysicalModifiedKey_def ex_loaded_engine_def ex_active)
  then have "\<not> exact_match ?q x" if "x \<in> set [?a, \<lparr>ka_modifiedKey = ex_shift_A, ka_keySeq = 0\<rparr>]" for x
    using that by (auto simp: exact_match_def virtualMods_match_def ModifiedKey_of_def ex_shift_A_def intro!: exI [of _ 0])
  moreover have "base_match ?q ?a"
    by (simp add: base_match_def ModifiedKey_of_def doesMatch_def buildPhysicalModifiedKey_def ex_current_def)
  ultimately show ?thesis by (simp add: searchAssignment_def b bucket search_bucket_def)
qed

theorem modified_output_is_undefined_witness:
  "beginGeneratingKeyboardEvents
     \<lparr>env_ev = linux_ev, env_layout = ''us'', env_clock_a = (\<lambda>_. 0), env_clock_b = (\<lambda>_. 0),
      env_call = gen (Suc 0)\<rparr> ex_current False ex_loaded_engine = Inl Undefined"
proof (rule modified_output_is_undefined [OF ex_loads _ _ engine_reach.start _ _ _ ex_loaded_search])
  show "eng_inv ex_loaded_engine"
    by (rule loaded_engine_inv [OF ex_loaded_setting ex_loaded_codes])
       (simp_all add: ex_loaded_engine_def new_Engine_def)
  show "hasActiveVirtualModifiers ex_loaded_engine"
    unfolding hasActiveVirtualModifiers_def list_ex_iff
    by (rule bexI [of _ 0]) (simp_all add: ex_loaded_engine_def activateModifier_def bits_simps)
  show "sq_actions (st_keySeqs ex_loaded ! ka_keySeq \<lparr>ka_modifiedKey = ModifiedKey_of (KeyAt 0), ka_keySeq = 1\<rparr>) =
      [ActionKey ((ModifiedKey_of (KeyAt 1))\<lparr>mk_modifier := press Type_Shift new_Modifier\<rparr>)]"
    using arg_cong [OF ex_loaded_seqs, of "\<lambda>xs. xs ! 1"] ex_loaded_keymaps by simp
qed (simp_all add: ex_loaded_engine_def ex_loaded_keymaps ex_current_def basic_types_def)

end
