(* ===== verification/Platform_Input.thy ===== *)
theory Platform_Input
  imports Event_Processor
begin

text \<open>
  Reading the keyboards on Linux: which devices count as keyboards and are opened
  (src/platform/linux/device_manager_linux.cpp, input_hook_linux.cpp) and what the reader thread
  makes of the events of one device (\<^verbatim>\<open>EventReaderThread::run\<close>). The directory listing, the
  answers of \<^verbatim>\<open>open\<close> and \<^verbatim>\<open>ioctl\<close> and the data that \<^verbatim>\<open>read\<close> delivers are arguments. Log lines and
  the timing of the callback are left out.
\<close>

unbundle bit_operations_syntax

section \<open>Constants of the kernel headers\<close>

text \<open>The macros of linux/input-event-codes.h beyond those of the key tables; the kernel's values
  are \<open>linux_abi\<close>.\<close>

record evdev_abi =
  abi_ev :: "evkey \<Rightarrow> u16"
  EV_SYN :: u16
  EV_KEY :: u16
  EV_REL :: u16
  REL_X :: u16
  REL_Y :: u16
  REL_WHEEL :: u16
  SYN_REPORT :: u16
  BTN_MISC :: u16
  KEY_OK :: u16
  BTN_LEFT :: u16
  BTN_RIGHT :: u16
  BTN_MIDDLE :: u16
  BTN_SIDE :: u16
  BTN_EXTRA :: u16

definition linux_abi :: evdev_abi where
  "linux_abi = \<lparr>abi_ev = linux_ev, EV_SYN = 0, EV_KEY = 1, EV_REL = 2, REL_X = 0, REL_Y = 1,
     REL_WHEEL = 8, SYN_REPORT = 0, BTN_MISC = 0x100, KEY_OK = 0x160, BTN_LEFT = 0x110,
     BTN_RIGHT = 0x111, BTN_MIDDLE = 0x112, BTN_SIDE = 0x113, BTN_EXTRA = 0x114\<rparr>"

text \<open>\<^verbatim>\<open>struct input_event\<close> without its time, which the engine does not use.\<close>

record input_event =
  ie_type :: u16
  ie_code :: u16
  ie_value :: int

section \<open>The reader thread\<close>

text \<open>What the thread makes of one complete event; None is one of the \<^verbatim>\<open>continue\<close>s.\<close>

definition reader_event :: "evdev_abi \<Rightarrow> input_event \<Rightarrow> KeyEvent option" where
  "reader_event abi iev =
     (if ie_type iev \<noteq> EV_KEY abi then None
      else if BTN_MISC abi \<le> ie_code iev \<and> ie_code iev < KEY_OK abi then None
      else let yamyCode = evdevToYamyKeyCode (abi_ev abi) (ie_code iev) in
        if yamyCode = 0 then None
        else Some \<lparr>ke_isKeyDown = (ie_value iev = 1 \<or> ie_value iev = 2), ke_isExtended = False,
                   ke_scanCode = ucast yamyCode, ke_extraInfo = 0\<rparr>)"

text \<open>The answers of \<^verbatim>\<open>read\<close>: an event, fewer bytes, EAGAIN, ENODEV, another error.\<close>

datatype read_result =
    Read_event input_event
  | Read_short
  | Read_again
  | Read_gone
  | Read_error

text \<open>The loop, with the answers to come; it ends with the list when a stop is requested then. The
  result is the sequence of calls of the callback.\<close>

fun reader_run :: "evdev_abi \<Rightarrow> read_result list \<Rightarrow> KeyEvent list" where
  "reader_run abi [] = []"
| "reader_run abi (Read_event iev # rs) =
     (case reader_event abi iev of None \<Rightarrow> reader_run abi rs | Some k \<Rightarrow> k # reader_run abi rs)"
| "reader_run abi (Read_short # rs) = reader_run abi rs"
| "reader_run abi (Read_again # rs) = reader_run abi rs"
| "reader_run abi (Read_gone # rs) = []"
| "reader_run abi (Read_error # rs) = []"

section \<open>Which devices are keyboards\<close>

text \<open>
  \<^verbatim>\<open>test_bit\<close> divides by 8 and indexes an array of \<^verbatim>\<open>unsigned long\<close>, 64 bits each here; no element
  beyond the end is asked for. \<open>bits\<close> is the array after the \<^verbatim>\<open>ioctl\<close>.
\<close>

definition test_bit :: "nat \<Rightarrow> u64 list \<Rightarrow> bool" where
  "test_bit b bits = bit (bits ! (b div 8)) (b mod 8)"

text \<open>The keys whose presence makes a keyboard: A, Z, Enter, Space, Esc, 1, 2, Tab.\<close>

definition typical_keys :: "(evkey \<Rightarrow> u16) \<Rightarrow> nat list" where
  "typical_keys ev = map (\<lambda>k. unat (ev k)) [KEY_A, KEY_Z, KEY_ENTER, KEY_SPACE, KEY_ESC, KEY_1, KEY_2, KEY_TAB]"

text \<open>The arguments: whether the device opens, and what the two \<^verbatim>\<open>ioctl\<close>s give.\<close>

definition isKeyboardDevice :: "evdev_abi \<Rightarrow> bool \<Rightarrow> u64 list option \<Rightarrow> u64 list option \<Rightarrow> bool" where
  "isKeyboardDevice abi opens evBits keyBits =
     (if \<not> opens then False
      else case evBits of
          None \<Rightarrow> False
        | Some eb \<Rightarrow>
            if test_bit (unat (EV_KEY abi)) eb then
              (case keyBits of
                 None \<Rightarrow> False
               | Some kb \<Rightarrow> list_ex (\<lambda>b. test_bit b kb) (typical_keys (abi_ev abi)))
            else False)"

record InputDeviceInfo =
  devNode :: string
  dev_name :: string
  dev_isKeyboard :: bool

definition enumerateKeyboards :: "InputDeviceInfo list \<Rightarrow> InputDeviceInfo list" where
  "enumerateKeyboards devices = filter dev_isKeyboard devices"

section \<open>Installing the hook\<close>

definition contains_str :: "string \<Rightarrow> string \<Rightarrow> bool" where
  "contains_str s p = sublist p s"

definition OUTPUT_DEVICE_NAME :: string where
  "OUTPUT_DEVICE_NAME = ''Yamy Remapped Output Device''"

text \<open>The devices the loop passes over.\<close>

definition skip_device :: "string \<Rightarrow> bool" where
  "skip_device name \<longleftrightarrow>
     contains_str name OUTPUT_DEVICE_NAME \<or> contains_str name ''mouse-button-passthrough'' \<or>
     contains_str name ''Mouse'' \<or> contains_str name ''TrackBall'' \<or> contains_str name ''Touchpad''"

record OpenDevice =
  od_fd :: int
  od_devNode :: string
  od_name :: string
  od_grabbed :: bool

datatype hook_error =
    EvdevUnavailable
  | DeviceAccess string

record InputHookLinux =
  m_isInstalled :: bool
  m_openDevices :: "OpenDevice list"

text \<open>One turn of the loop; starting a reader thread does not fail. The counter is
  \<^verbatim>\<open>openFailures\<close>.\<close>

definition open_keyboard ::
    "(string \<Rightarrow> int) \<Rightarrow> InputDeviceInfo \<Rightarrow> OpenDevice list \<times> nat \<Rightarrow> OpenDevice list \<times> nat" where
  "open_keyboard open_fd kbInfo = (\<lambda>(devs, openFailures).
     if skip_device (dev_name kbInfo) then (devs, openFailures)
     else let fd = open_fd (devNode kbInfo) in
       if fd < 0 then (devs, Suc openFailures)
       else (devs @ [\<lparr>od_fd = fd, od_devNode = devNode kbInfo, od_name = dev_name kbInfo,
                      od_grabbed = False\<rparr>], openFailures))"

text \<open>\<open>entries\<close> is None when /dev/input is missing or cannot be read. An exception leaves the hook
  as it was, except for the callbacks.\<close>

definition hook_install ::
    "string list option \<Rightarrow> InputDeviceInfo list \<Rightarrow> (string \<Rightarrow> int) \<Rightarrow> InputHookLinux \<Rightarrow>
       hook_error + InputHookLinux" where
  "hook_install entries devices open_fd h =
     (if m_isInstalled h then Inr h
      else case entries of
          None \<Rightarrow> Inl EvdevUnavailable
        | Some names \<Rightarrow>
            if \<not> list_ex (prefix ''event'') names then Inl EvdevUnavailable
            else let keyboards = enumerateKeyboards devices in
              if keyboards = [] then Inl EvdevUnavailable
              else (case fold (open_keyboard open_fd) keyboards (m_openDevices h, 0) of
                      (devs, openFailures) \<Rightarrow>
                        if devs = [] then
                          (if openFailures = length keyboards then Inl (DeviceAccess (devNode (keyboards ! 0)))
                           else Inl EvdevUnavailable)
                        else Inr \<lparr>m_isInstalled = True, m_openDevices = devs\<rparr>))"

definition hook_uninstall :: "InputHookLinux \<Rightarrow> InputHookLinux" where
  "hook_uninstall h = (if \<not> m_isInstalled h then h else \<lparr>m_isInstalled = False, m_openDevices = []\<rparr>)"

definition new_InputHookLinux :: InputHookLinux where
  "new_InputHookLinux = \<lparr>m_isInstalled = False, m_openDevices = []\<rparr>"

section \<open>What the device test looks at\<close>

text \<open>What the kernel's \<^verbatim>\<open>EVIOCGBIT\<close> leaves in an array of 64-bit words for a set of codes.\<close>

definition bitmap_of :: "nat set \<Rightarrow> u64 list \<Rightarrow> bool" where
  "bitmap_of K bits \<longleftrightarrow> (\<forall>w<length bits. \<forall>k<64. bit (bits ! w) k \<longleftrightarrow> 64 * w + k \<in> K)"

lemma test_bit_bitmap:
  "bitmap_of K bits \<Longrightarrow> b div 8 < length bits \<Longrightarrow> test_bit b bits \<longleftrightarrow> 64 * (b div 8) + b mod 8 \<in> K"
  by (simp add: bitmap_of_def test_bit_def)

text \<open>The keyboard test looks at other keys than it names. \<^verbatim>\<open>test_bit\<close> divides by 8 but indexes words
  of 64 bits, so what the kernel reports for A, Z, Enter, Space and Tab is never read: a device counts
  as a keyboard exactly when it has Esc, 1, 2, 7 of the keypad (71), or one of the codes 196, 198, 324
  and 449. A keyboard that has only letters, or only A, Enter and Space, is passed over.\<close>

theorem keyboard_test_reads_other_keys:
  assumes "bitmap_of E eb" "length eb = 4" "bitmap_of K kb" "length kb = 96"
  shows "isKeyboardDevice linux_abi True (Some eb) (Some kb) \<longleftrightarrow>
    1 \<in> E \<and> (1 \<in> K \<or> 2 \<in> K \<or> 3 \<in> K \<or> 71 \<in> K \<or> 196 \<in> K \<or> 198 \<in> K \<or> 324 \<in> K \<or> 449 \<in> K)"
proof -
  have keys: "typical_keys linux_ev = [30, 44, 28, 57, 1, 2, 3, 15]"
    by (simp add: typical_keys_def linux_ev_def linux_codes_def evkey_count_def KEY_defs)
  have ev: "unat (EV_KEY linux_abi) = 1" "abi_ev linux_abi = linux_ev" by (simp_all add: linux_abi_def)
  have t: "test_bit b kb \<longleftrightarrow> j \<in> K" if "b < 768" "64 * (b div 8) + b mod 8 = j" for b j
    using test_bit_bitmap [OF assms(3), of b] that by (simp add: assms(4))
  have "test_bit 30 kb \<longleftrightarrow> 198 \<in> K" "test_bit 44 kb \<longleftrightarrow> 324 \<in> K" "test_bit 28 kb \<longleftrightarrow> 196 \<in> K"
    "test_bit 57 kb \<longleftrightarrow> 449 \<in> K" "test_bit 1 kb \<longleftrightarrow> 1 \<in> K" "test_bit 2 kb \<longleftrightarrow> 2 \<in> K"
    "test_bit 3 kb \<longleftrightarrow> 3 \<in> K" "test_bit 15 kb \<longleftrightarrow> 71 \<in> K"
    by (rule t; simp)+
  moreover have "test_bit 1 eb \<longleftrightarrow> 1 \<in> E" using test_bit_bitmap [OF assms(1), of 1] assms(2) by simp
  ultimately show ?thesis
    unfolding isKeyboardDevice_def keys ev by (simp add: numeral_2_eq_2 [symmetric]) argo
qed

theorem keyboard_test_reads_other_keys_witness:
  "\<not> isKeyboardDevice linux_abi True (Some [2, 0, 0, 0]) (Some (0x40000000 # replicate 95 0))"
proof -
  have "bitmap_of {1} [2, 0, 0, 0]"
    by (auto simp: bitmap_of_def less_Suc_eq numeral_eq_Suc bit_simps nth_Cons split: nat.splits)
  moreover have "bit (0x40000000 :: u64) k \<longleftrightarrow> k = 30" for k
  proof -
    have "(0x40000000 :: u64) = push_bit 30 1" by simp
    then show ?thesis by (auto simp only: bit_push_bit_1) simp
  qed
  then have "bitmap_of {30} (0x40000000 # replicate 95 0)"
    by (auto simp: bitmap_of_def nth_Cons split: nat.splits)
  ultimately show ?thesis
    using keyboard_test_reads_other_keys [of "{1}" "[2, 0, 0, 0]" "{30}" "0x40000000 # replicate 95 0"] by simp
qed

section \<open>No feedback\<close>

lemma open_keyboards:
  assumes "fold (open_keyboard open_fd) ks (devs, n) = (devs', n')"
  shows "\<exists>new. devs' = devs @ new \<and> (\<forall>d\<in>set new. \<not> skip_device (od_name d) \<and> 0 \<le> od_fd d \<and>
    (\<exists>k\<in>set ks. dev_name k = od_name d \<and> devNode k = od_devNode d))"
  using assms
proof (induction ks arbitrary: devs n)
  case (Cons k ks)
  obtain d1 n1 where s: "open_keyboard open_fd k (devs, n) = (d1, n1)" by fastforce
  with Cons.prems obtain new where new: "devs' = d1 @ new" "\<forall>d\<in>set new. \<not> skip_device (od_name d) \<and> 0 \<le> od_fd d \<and>
      (\<exists>k\<in>set ks. dev_name k = od_name d \<and> devNode k = od_devNode d)"
    using Cons.IH by fastforce
  show ?case
  proof (cases "skip_device (dev_name k) \<or> open_fd (devNode k) < 0")
    case True
    then have "d1 = devs" using s by (auto simp: open_keyboard_def Let_def split: if_splits)
    with new show ?thesis by auto
  next
    case False
    then have "d1 = devs @ [\<lparr>od_fd = open_fd (devNode k), od_devNode = devNode k, od_name = dev_name k, od_grabbed = False\<rparr>]"
      using s by (auto simp: open_keyboard_def Let_def split: if_splits)
    with new False show ?thesis by auto
  qed
qed simp

text \<open>No feedback. When the hook installs, at least one device is open, each is a device of the
  list that counts as a keyboard, and none has the name of the virtual device the injector writes
  to, so no injected key is ever read again; nor is any device read that calls itself a mouse,
  a track ball or a touch pad. When it cannot install, nothing changes.\<close>

theorem hook_never_reads_own_output:
  assumes "hook_install entries devices open_fd new_InputHookLinux = Inr h"
  shows "m_isInstalled h \<and> m_openDevices h \<noteq> [] \<and>
    list_all (\<lambda>d. \<not> sublist OUTPUT_DEVICE_NAME (od_name d) \<and> \<not> sublist ''Mouse'' (od_name d) \<and> 0 \<le> od_fd d \<and>
      list_ex (\<lambda>k. dev_isKeyboard k \<and> devNode k = od_devNode d) devices) (m_openDevices h)"
proof -
  from assms obtain devs n where f: "fold (open_keyboard open_fd) (enumerateKeyboards devices) ([], 0) = (devs, n)"
    and h: "devs \<noteq> []" "h = \<lparr>m_isInstalled = True, m_openDevices = devs\<rparr>"
    by (auto simp: hook_install_def new_InputHookLinux_def Let_def split: option.splits if_splits prod.splits)
  from open_keyboards [OF f] have
    "\<forall>d\<in>set devs. \<not> skip_device (od_name d) \<and> 0 \<le> od_fd d \<and>
      (\<exists>k\<in>set (enumerateKeyboards devices). dev_name k = od_name d \<and> devNode k = od_devNode d)" by auto
  then show ?thesis
    using h by (auto simp: list_all_iff list_ex_iff skip_device_def contains_str_def enumerateKeyboards_def)
qed

theorem hook_never_reads_own_output_witness:
  "\<exists>h. hook_install (Some [''event0'']) [\<lparr>devNode = ''/dev/input/event0'', dev_name = ''AT'', dev_isKeyboard = True\<rparr>]
     (\<lambda>_. 3) new_InputHookLinux = Inr h \<and> m_openDevices h \<noteq> []"
proof -
  let ?run = "hook_install (Some [''event0'']) [\<lparr>devNode = ''/dev/input/event0'', dev_name = ''AT'', dev_isKeyboard = True\<rparr>]
     (\<lambda>_. 3) new_InputHookLinux"
  have "\<not> skip_device ''AT''" by code_simp
  then obtain h where h: "?run = Inr h"
    by (cases ?run) (auto simp: hook_install_def new_InputHookLinux_def enumerateKeyboards_def open_keyboard_def split: if_splits)
  with hook_never_reads_own_output [OF h] show ?thesis by blast
qed

end
