(* ===== verification/Platform_Output.thy ===== *)
theory Platform_Output
  imports Platform_Input Key_Generation "HOL-Library.Signed_Division"
begin

text \<open>
  The injector (src/platform/linux/input_injector_linux.cpp): what the engine's requests write to
  the virtual device. A failing \<^verbatim>\<open>write\<close> is only logged, so the state records what is written, in
  order. Creating the device and measuring latencies are left out.
\<close>

unbundle bit_operations_syntax

section \<open>State\<close>

text \<open>\<open>inj_written\<close> is the list of type, code and value. The accumulator is an \<^verbatim>\<open>int32_t\<close>; leaving
  its range is undefined.\<close>

record InputInjectorLinux =
  inj_open :: bool
  m_wheelAccumulator :: int
  inj_written :: "(u16 \<times> u16 \<times> int) list"

definition new_Injector :: InputInjectorLinux where
  "new_Injector = \<lparr>inj_open = True, m_wheelAccumulator = 0, inj_written = []\<rparr>"

definition writeEvent :: "u16 \<Rightarrow> u16 \<Rightarrow> int \<Rightarrow> InputInjectorLinux \<Rightarrow> InputInjectorLinux" where
  "writeEvent ty code v i = i\<lparr>inj_written := inj_written i @ [(ty, code, v)]\<rparr>"

definition sync_report :: "evdev_abi \<Rightarrow> InputInjectorLinux \<Rightarrow> InputInjectorLinux" where
  "sync_report abi = writeEvent (EV_SYN abi) (SYN_REPORT abi) 0"

section \<open>Mouse\<close>

definition mouseMove :: "evdev_abi \<Rightarrow> int \<Rightarrow> int \<Rightarrow> InputInjectorLinux \<Rightarrow> InputInjectorLinux" where
  "mouseMove abi dx dy i =
     (if \<not> inj_open i then i
      else let i1 = (if dx \<noteq> 0 then writeEvent (EV_REL abi) (REL_X abi) dx i else i);
               i2 = (if dy \<noteq> 0 then writeEvent (EV_REL abi) (REL_Y abi) dy i1 else i1)
           in if dx \<noteq> 0 \<or> dy \<noteq> 0 then sync_report abi i2 else i2)"

definition button_code :: "evdev_abi \<Rightarrow> MouseButton \<Rightarrow> u16" where
  "button_code abi b = (case b of MB_Left \<Rightarrow> BTN_LEFT abi | MB_Right \<Rightarrow> BTN_RIGHT abi
     | MB_Middle \<Rightarrow> BTN_MIDDLE abi | MB_X1 \<Rightarrow> BTN_SIDE abi | MB_X2 \<Rightarrow> BTN_EXTRA abi)"

definition mouseButton :: "evdev_abi \<Rightarrow> MouseButton \<Rightarrow> bool \<Rightarrow> InputInjectorLinux \<Rightarrow> InputInjectorLinux" where
  "mouseButton abi b down i =
     (if \<not> inj_open i then i
      else sync_report abi (writeEvent (EV_KEY abi) (button_code abi b) (if down then 1 else 0) i))"

text \<open>Division and remainder truncate towards zero, as in C.\<close>

definition mouseWheel :: "evdev_abi \<Rightarrow> int \<Rightarrow> InputInjectorLinux \<Rightarrow> InputInjectorLinux run" where
  "mouseWheel abi delta i =
     (if \<not> inj_open i then Inr i
      else let acc = m_wheelAccumulator i + delta; steps = acc sdiv 120 in
        if acc < - (2 ^ 31) \<or> 2 ^ 31 \<le> acc then Inl Undefined
        else if steps = 0 then Inr (i\<lparr>m_wheelAccumulator := acc\<rparr>)
        else Inr ((sync_report abi (writeEvent (EV_REL abi) (REL_WHEEL abi) steps i))
                    \<lparr>m_wheelAccumulator := acc smod 120\<rparr>))"

section \<open>Keys\<close>

definition write_key :: "evdev_abi \<Rightarrow> u16 \<Rightarrow> bool \<Rightarrow> InputInjectorLinux \<Rightarrow> InputInjectorLinux" where
  "write_key abi evdevCode down i =
     sync_report abi (writeEvent (EV_KEY abi) evdevCode (if down then 1 else 0) i)"

definition sendKeyEvent :: "evdev_abi \<Rightarrow> string \<Rightarrow> u32 \<Rightarrow> bool \<Rightarrow> InputInjectorLinux \<Rightarrow> InputInjectorLinux" where
  "sendKeyEvent abi layout key down i =
     (if \<not> inj_open i then i
      else let evdevCode = yamyToEvdevKeyCode (abi_ev abi) layout (ucast key) in
        if evdevCode = 0 \<and> key \<noteq> 0 then i else write_key abi evdevCode down i)"

text \<open>The switch over the codes of mouse events.\<close>

definition inject_mouse :: "evdev_abi \<Rightarrow> KEYBOARD_INPUT_DATA \<Rightarrow> InputInjectorLinux \<Rightarrow> InputInjectorLinux run" where
  "inject_mouse abi kid i =
     (let down = (Flags kid AND KID_BREAK = 0); c = MakeCode kid;
          wheel = (\<lambda>d. if down then mouseWheel abi d i else Inr i)
      in if c = 1 then Inr (mouseButton abi MB_Left down i)
         else if c = 2 then Inr (mouseButton abi MB_Right down i)
         else if c = 3 then Inr (mouseButton abi MB_Middle down i)
         else if c = 4 then wheel 120
         else if c = 5 then wheel (- 120)
         else if c = 6 then Inr (mouseButton abi MB_X1 down i)
         else if c = 7 then Inr (mouseButton abi MB_X2 down i)
         else if c = 8 then wheel 120
         else if c = 9 then wheel (- 120)
         else if c = 10 then wheel (sint (ucast (ExtraInformation kid) :: u32))
         else Inr i)"

definition inject :: "evdev_abi \<Rightarrow> string \<Rightarrow> KEYBOARD_INPUT_DATA \<Rightarrow> InputInjectorLinux \<Rightarrow> InputInjectorLinux run" where
  "inject abi layout kid i =
     (if \<not> inj_open i then Inr i
      else if Flags kid AND KID_E1 \<noteq> 0 then inject_mouse abi kid i
      else let evdevCode = yamyToEvdevKeyCode (abi_ev abi) layout (MakeCode kid) in
        if evdevCode = 0 \<and> MakeCode kid \<noteq> 0 then Inr i
        else Inr (write_key abi evdevCode (Flags kid AND KID_BREAK = 0) i))"

text \<open>One request of the engine.\<close>

definition do_call :: "evdev_abi \<Rightarrow> string \<Rightarrow> InjectorCall \<Rightarrow> InputInjectorLinux \<Rightarrow> InputInjectorLinux run" where
  "do_call abi layout c i =
     (case c of
        Inject kid \<Rightarrow> inject abi layout kid i
      | InjectMouseButton b down \<Rightarrow> Inr (mouseButton abi b down i)
      | InjectMouseWheel d \<Rightarrow> mouseWheel abi d i)"

definition do_calls :: "evdev_abi \<Rightarrow> string \<Rightarrow> InjectorCall list \<Rightarrow> InputInjectorLinux \<Rightarrow> InputInjectorLinux run" where
  "do_calls abi layout = run_fold (do_call abi layout)"

section \<open>The wheel\<close>

text \<open>The steps on the wheel among what was written.\<close>

definition wheel_steps :: "evdev_abi \<Rightarrow> (u16 \<times> u16 \<times> int) list \<Rightarrow> int" where
  "wheel_steps abi ws =
     sum_list (map (\<lambda>(ty, code, v). v) (filter (\<lambda>(ty, code, v). ty = EV_REL abi \<and> code = REL_WHEEL abi) ws))"

lemma wheel_steps_append [simp]: "wheel_steps abi (xs @ ys) = wheel_steps abi xs + wheel_steps abi ys"
  by (simp add: wheel_steps_def)

lemma sdiv_smod_120: "(a :: int) = 120 * (a sdiv 120) + a smod 120"
  by (rule mult_sdiv_smod_eq [symmetric])

lemma smod_120_bound: "\<bar>(a :: int) smod 120\<bar> < 120"
  using smod_int_range [of 120 a] by (simp add: abs_less_iff)

lemma mouseWheel_step:
  assumes "mouseWheel abi d i = Inr i'" "inj_open i" "EV_SYN abi \<noteq> EV_REL abi" "\<bar>m_wheelAccumulator i\<bar> < 120"
  shows "120 * wheel_steps abi (inj_written i') + m_wheelAccumulator i' =
      120 * wheel_steps abi (inj_written i) + m_wheelAccumulator i + d \<and>
    \<bar>m_wheelAccumulator i'\<bar> < 120 \<and> inj_open i'"
proof -
  let ?acc = "m_wheelAccumulator i + d"
  have eq: "?acc = 120 * (?acc sdiv 120) + ?acc smod 120" by (rule sdiv_smod_120)
  show ?thesis
  proof (cases "?acc sdiv 120 = 0")
    case True
    then have "?acc = ?acc smod 120" using eq by simp
    then have "\<bar>?acc\<bar> < 120" using smod_120_bound [of ?acc] by simp
    with True assms(1,2) show ?thesis by (auto simp: mouseWheel_def Let_def split: if_splits)
  next
    case False
    with assms(1-3) have "i' = (sync_report abi (writeEvent (EV_REL abi) (REL_WHEEL abi) (?acc sdiv 120) i))
        \<lparr>m_wheelAccumulator := ?acc smod 120\<rparr>"
      by (auto simp: mouseWheel_def Let_def split: if_splits)
    then show ?thesis
      using eq assms(2,3) smod_120_bound [of ?acc]
      by (simp add: sync_report_def writeEvent_def wheel_steps_def)
  qed
qed

text \<open>The wheel loses nothing. Whatever deltas the engine asks for, in any order and of either sign,
  120 times the steps written so far plus the kept remainder is their sum, and the remainder is less
  than one step; as long as nothing overflows the call returns.\<close>

theorem wheel_conserves_motion:
  assumes "EV_SYN abi \<noteq> EV_REL abi" "\<forall>d\<in>set ds. \<bar>d\<bar> < 2 ^ 30"
  shows "\<exists>i. run_fold (mouseWheel abi) ds new_Injector = Inr i \<and>
    120 * wheel_steps abi (inj_written i) + m_wheelAccumulator i = sum_list ds \<and> \<bar>m_wheelAccumulator i\<bar> < 120"
proof -
  have "\<exists>i'. run_fold (mouseWheel abi) ds i = Inr i' \<and>
      120 * wheel_steps abi (inj_written i') + m_wheelAccumulator i' =
      120 * wheel_steps abi (inj_written i) + m_wheelAccumulator i + sum_list ds \<and> \<bar>m_wheelAccumulator i'\<bar> < 120"
    if "inj_open i" "\<bar>m_wheelAccumulator i\<bar> < 120" for i
    using that assms(2)
  proof (induction ds arbitrary: i)
    case Nil
    then show ?case by simp
  next
    case (Cons d ds)
    have "\<not> (m_wheelAccumulator i + d < - (2 ^ 31) \<or> 2 ^ 31 \<le> m_wheelAccumulator i + d)"
      using Cons.prems(2,3) by (simp add: abs_less_iff)
    then obtain i1 where i1: "mouseWheel abi d i = Inr i1"
      by (cases "mouseWheel abi d i") (auto simp: mouseWheel_def Let_def split: if_splits)
    note st = mouseWheel_step [OF i1 Cons.prems(1) assms(1) Cons.prems(2)]
    from Cons.IH [of i1] st Cons.prems(3) show ?case by (auto simp: i1 add.assoc)
  qed
  from this [of new_Injector] show ?thesis by (simp add: new_Injector_def wheel_steps_def)
qed

theorem wheel_conserves_motion_witness:
  "\<exists>i. run_fold (mouseWheel linux_abi) [100, 50, - 200] new_Injector = Inr i \<and>
     120 * wheel_steps linux_abi (inj_written i) + m_wheelAccumulator i = - 50"
  using wheel_conserves_motion [of linux_abi "[100, 50, - 200]"] by (fastforce simp: linux_abi_def)

section \<open>The virtual device follows the requests\<close>

text \<open>The keys the kernel takes to be down after a list of writes.\<close>

definition kernel_step :: "evdev_abi \<Rightarrow> u16 \<times> u16 \<times> int \<Rightarrow> u16 set \<Rightarrow> u16 set" where
  "kernel_step abi = (\<lambda>(ty, code, v) S.
     if ty = EV_KEY abi then (if v = 0 then S - {code} else insert code S) else S)"

definition kernel_down :: "evdev_abi \<Rightarrow> (u16 \<times> u16 \<times> int) list \<Rightarrow> u16 set" where
  "kernel_down abi ws = fold (kernel_step abi) ws {}"

definition abi_ok :: "evdev_abi \<Rightarrow> bool" where
  "abi_ok abi \<longleftrightarrow> EV_SYN abi \<noteq> EV_KEY abi \<and> EV_REL abi \<noteq> EV_KEY abi \<and> EV_SYN abi \<noteq> EV_REL abi"

text \<open>Codes that the output tables keep apart, and apart from the mouse buttons.\<close>

definition codes_apart :: "evdev_abi \<Rightarrow> string \<Rightarrow> u16 set \<Rightarrow> bool" where
  "codes_apart abi layout C \<longleftrightarrow>
     inj_on (yamyToEvdevKeyCode (abi_ev abi) layout) C \<and>
     (\<forall>c\<in>C. yamyToEvdevKeyCode (abi_ev abi) layout c \<noteq> 0 \<and>
        (\<forall>b. yamyToEvdevKeyCode (abi_ev abi) layout c \<noteq> button_code abi b))"

lemma kernel_down_append: "kernel_down abi (xs @ ys) = fold (kernel_step abi) ys (kernel_down abi xs)"
  by (simp add: kernel_down_def)

lemma kernel_key_step:
  "abi_ok abi \<Longrightarrow> kernel_down abi (inj_written (write_key abi e p i)) =
     (if p then insert e (kernel_down abi (inj_written i)) else kernel_down abi (inj_written i) - {e})"
  by (auto simp: write_key_def sync_report_def writeEvent_def kernel_down_append kernel_step_def abi_ok_def)

lemma mouse_keeps:
  assumes "abi_ok abi" "inj_open i"
  shows "inj_open (mouseButton abi b p i)"
    and "(\<And>b'. e \<noteq> button_code abi b') \<Longrightarrow>
      e \<in> kernel_down abi (inj_written (mouseButton abi b p i)) \<longleftrightarrow> e \<in> kernel_down abi (inj_written i)"
    and "mouseWheel abi d i = Inr i' \<Longrightarrow>
      inj_open i' \<and> kernel_down abi (inj_written i') = kernel_down abi (inj_written i)"
proof -
  have "mouseButton abi b p i = write_key abi (button_code abi b) p i"
    using assms(2) by (simp add: mouseButton_def write_key_def)
  then show "inj_open (mouseButton abi b p i)"
    and "(\<And>b'. e \<noteq> button_code abi b') \<Longrightarrow>
      e \<in> kernel_down abi (inj_written (mouseButton abi b p i)) \<longleftrightarrow> e \<in> kernel_down abi (inj_written i)"
    using kernel_key_step [OF assms(1)] assms(2)
    by (auto simp: write_key_def sync_report_def writeEvent_def split: if_splits)
  show "mouseWheel abi d i = Inr i' \<Longrightarrow>
      inj_open i' \<and> kernel_down abi (inj_written i') = kernel_down abi (inj_written i)"
    using assms by (auto simp: mouseWheel_def Let_def sync_report_def writeEvent_def kernel_down_append
        kernel_step_def abi_ok_def split: if_splits)
qed

lemma plain_flags:
  assumes "Flags kid AND NOT KID_BREAK = 0"
  shows "Flags kid AND KID_E1 = 0" "kid_code kid = (MakeCode kid, 0)"
proof -
  have "NOT KID_BREAK AND KID_E1 = KID_E1" by (simp add: KID_BREAK_def KID_E1_def)
  then have "Flags kid AND KID_E1 = (Flags kid AND NOT KID_BREAK) AND KID_E1" by (simp only: and.assoc)
  then show "Flags kid AND KID_E1 = 0" using assms by simp
  show "kid_code kid = (MakeCode kid, 0)" using assms by (simp add: kid_code_def)
qed

lemma do_call_step:
  assumes "abi_ok abi" "codes_apart abi layout C" "do_call abi layout cl i = Inr i'" "inj_open i"
    and "\<And>kid. cl = Inject kid \<Longrightarrow> MakeCode kid \<in> C \<and> Flags kid AND NOT KID_BREAK = 0"
    and "c \<in> C"
    and "yamyToEvdevKeyCode (abi_ev abi) layout c \<in> kernel_down abi (inj_written i) \<longleftrightarrow> (c, 0) \<in> os_down cs"
  shows "inj_open i' \<and>
    (yamyToEvdevKeyCode (abi_ev abi) layout c \<in> kernel_down abi (inj_written i') \<longleftrightarrow> (c, 0) \<in> os_down (cs @ [cl]))"
proof (cases cl)
  case (Inject kid)
  let ?f = "yamyToEvdevKeyCode (abi_ev abi) layout"
  have k: "MakeCode kid \<in> C" "Flags kid AND NOT KID_BREAK = 0" using assms(5) [OF Inject] by simp_all
  note pf = plain_flags [OF k(2)]
  have "?f (MakeCode kid) \<noteq> 0" using assms(2) k(1) by (simp add: codes_apart_def)
  then have i': "i' = write_key abi (?f (MakeCode kid)) (Flags kid AND KID_BREAK = 0) i"
    using assms(3,4) pf(1) by (simp add: do_call_def inject_def Inject Let_def)
  have "?f c = ?f (MakeCode kid) \<longleftrightarrow> c = MakeCode kid"
    using assms(2,6) k(1) by (auto simp: codes_apart_def inj_on_def)
  then show ?thesis
    using assms(4,7) kernel_key_step [OF assms(1)] pf(2)
    by (auto simp: i' Inject os_down_def os_step_def write_key_def sync_report_def writeEvent_def)
next
  case (InjectMouseButton b p)
  then show ?thesis
    using assms mouse_keeps(1,2) [OF assms(1,4)]
    by (auto simp: do_call_def os_down_def os_step_def codes_apart_def)
next
  case (InjectMouseWheel d)
  then show ?thesis
    using assms mouse_keeps(3) [OF assms(1,4)] by (auto simp: do_call_def os_down_def os_step_def)
qed

lemma do_call_open: "do_call abi layout cl i = Inr i' \<Longrightarrow> inj_open i \<Longrightarrow> inj_open i'"
proof -
  have w: "mouseWheel abi d i = Inr i' \<Longrightarrow> inj_open i \<Longrightarrow> inj_open i'" for d
    by (auto simp: mouseWheel_def sync_report_def writeEvent_def Let_def split: if_splits)
  have b: "inj_open (mouseButton abi b p i) = inj_open i" for b p
    by (simp add: mouseButton_def sync_report_def writeEvent_def)
  have m: "inject_mouse abi kid i = Inr i' \<Longrightarrow> inj_open i \<Longrightarrow> inj_open i'" for kid
    using w b by (auto simp: inject_mouse_def Let_def split: if_splits)
  assume "do_call abi layout cl i = Inr i'" "inj_open i"
  then show ?thesis using w b m
    by (cases cl) (auto simp: do_call_def inject_def write_key_def sync_report_def writeEvent_def Let_def split: if_splits)
qed

lemma do_calls_follow:
  assumes "abi_ok abi" "codes_apart abi layout C"
    and "\<And>kid. Inject kid \<in> set cs \<Longrightarrow> MakeCode kid \<in> C \<and> Flags kid AND NOT KID_BREAK = 0"
    and "do_calls abi layout cs new_Injector = Inr i"
  shows "inj_open i \<and>
    (\<forall>c\<in>C. yamyToEvdevKeyCode (abi_ev abi) layout c \<in> kernel_down abi (inj_written i) \<longleftrightarrow> (c, 0) \<in> os_down cs)"
  using assms(3,4)
proof (induction cs arbitrary: i rule: rev_induct)
  case Nil
  then show ?case by (auto simp: do_calls_def new_Injector_def kernel_down_def os_down_def)
next
  case (snoc cl cs)
  from snoc.prems(2) obtain i0 where i0: "do_calls abi layout cs new_Injector = Inr i0"
    "do_call abi layout cl i0 = Inr i"
    by (auto simp: do_calls_def run_fold_append run_bind_Inr)
  have IH: "inj_open i0 \<and> (\<forall>c\<in>C. yamyToEvdevKeyCode (abi_ev abi) layout c \<in> kernel_down abi (inj_written i0)
      \<longleftrightarrow> (c, 0) \<in> os_down cs)"
    using snoc.IH [OF _ i0(1)] snoc.prems(1) by simp
  have k: "MakeCode kid \<in> C \<and> Flags kid AND NOT KID_BREAK = 0" if "cl = Inject kid" for kid
    using snoc.prems(1) that by simp
  have "inj_open i" using do_call_open [OF i0(2)] IH by simp
  then show ?case using do_call_step [OF assms(1,2) i0(2) _ k] IH by blast
qed

end
