(* ===== verification/Double_Conversion.thy ===== *)
theory Double_Conversion
  imports Keycode_Mapping
begin

text \<open>
  The codes an event goes through on its way to the rules: the reader thread translates the evdev
  code to a YAMY code, and the event processor translates what it is given as if it were an evdev
  code again. Here is what the second translation makes of the first one's results, for the
  kernel's values of the key macros.
\<close>

section \<open>The map with the kernel's codes as a search tree\<close>

definition linux_tree :: "(int \<times> u16) tree" where
  "linux_tree =
     \<langle>\<langle>\<langle>\<langle>\<langle>\<langle>\<langle>\<langle>\<rangle>, (1, 1),
     \<langle>\<rangle>\<rangle>, (2, 2),
     \<langle>\<langle>\<rangle>, (3, 3),
     \<langle>\<rangle>\<rangle>\<rangle>, (4, 4),
     \<langle>\<langle>\<langle>\<rangle>, (5, 5),
     \<langle>\<rangle>\<rangle>, (6, 6),
     \<langle>\<langle>\<rangle>, (7, 7),
     \<langle>\<rangle>\<rangle>\<rangle>\<rangle>, (8, 8),
     \<langle>\<langle>\<langle>\<langle>\<rangle>, (9, 9),
     \<langle>\<rangle>\<rangle>, (10, 10),
     \<langle>\<langle>\<rangle>, (11, 11),
     \<langle>\<rangle>\<rangle>\<rangle>, (12, 12),
     \<langle>\<langle>\<langle>\<rangle>, (13, 13),
     \<langle>\<rangle>\<rangle>, (14, 14),
     \<langle>\<rangle>\<rangle>\<rangle>\<rangle>, (15, 15),
     \<langle>\<langle>\<langle>\<langle>\<langle>\<rangle>, (16, 16),
     \<langle>\<rangle>\<rangle>, (17, 17),
     \<langle>\<langle>\<rangle>, (18, 18),
     \<langle>\<rangle>\<rangle>\<rangle>, (19, 19),
     \<langle>\<langle>\<langle>\<rangle>, (20, 20),
     \<langle>\<rangle>\<rangle>, (21, 21),
     \<langle>\<langle>\<rangle>, (22, 22),
     \<langle>\<rangle>\<rangle>\<rangle>\<rangle>, (23, 23),
     \<langle>\<langle>\<langle>\<langle>\<rangle>, (24, 24),
     \<langle>\<rangle>\<rangle>, (25, 25),
     \<langle>\<langle>\<rangle>, (26, 26),
     \<langle>\<rangle>\<rangle>\<rangle>, (27, 27),
     \<langle>\<langle>\<langle>\<rangle>, (28, 28),
     \<langle>\<rangle>\<rangle>, (29, 29),
     \<langle>\<rangle>\<rangle>\<rangle>\<rangle>\<rangle>, (30, 30),
     \<langle>\<langle>\<langle>\<langle>\<langle>\<langle>\<rangle>, (31, 31),
     \<langle>\<rangle>\<rangle>, (32, 32),
     \<langle>\<langle>\<rangle>, (33, 33),
     \<langle>\<rangle>\<rangle>\<rangle>, (34, 34),
     \<langle>\<langle>\<langle>\<rangle>, (35, 35),
     \<langle>\<rangle>\<rangle>, (36, 36),
     \<langle>\<langle>\<rangle>, (37, 37),
     \<langle>\<rangle>\<rangle>\<rangle>\<rangle>, (38, 38),
     \<langle>\<langle>\<langle>\<langle>\<rangle>, (39, 39),
     \<langle>\<rangle>\<rangle>, (40, 40),
     \<langle>\<langle>\<rangle>, (41, 41),
     \<langle>\<rangle>\<rangle>\<rangle>, (42, 42),
     \<langle>\<langle>\<langle>\<rangle>, (43, 43),
     \<langle>\<rangle>\<rangle>, (44, 44),
     \<langle>\<rangle>\<rangle>\<rangle>\<rangle>, (45, 45),
     \<langle>\<langle>\<langle>\<langle>\<langle>\<rangle>, (46, 46),
     \<langle>\<rangle>\<rangle>, (47, 47),
     \<langle>\<langle>\<rangle>, (48, 48),
     \<langle>\<rangle>\<rangle>\<rangle>, (49, 49),
     \<langle>\<langle>\<langle>\<rangle>, (50, 50),
     \<langle>\<rangle>\<rangle>, (51, 51),
     \<langle>\<rangle>\<rangle>\<rangle>, (52, 52),
     \<langle>\<langle>\<langle>\<langle>\<rangle>, (53, 53),
     \<langle>\<rangle>\<rangle>, (54, 54),
     \<langle>\<langle>\<rangle>, (55, 55),
     \<langle>\<rangle>\<rangle>\<rangle>, (56, 56),
     \<langle>\<langle>\<langle>\<rangle>, (57, 57),
     \<langle>\<rangle>\<rangle>, (58, 58),
     \<langle>\<rangle>\<rangle>\<rangle>\<rangle>\<rangle>\<rangle>, (59, 59),
     \<langle>\<langle>\<langle>\<langle>\<langle>\<langle>\<langle>\<rangle>, (60, 60),
     \<langle>\<rangle>\<rangle>, (61, 61),
     \<langle>\<langle>\<rangle>, (62, 62),
     \<langle>\<rangle>\<rangle>\<rangle>, (63, 63),
     \<langle>\<langle>\<langle>\<rangle>, (64, 64),
     \<langle>\<rangle>\<rangle>, (65, 65),
     \<langle>\<langle>\<rangle>, (66, 66),
     \<langle>\<rangle>\<rangle>\<rangle>\<rangle>, (67, 67),
     \<langle>\<langle>\<langle>\<langle>\<rangle>, (68, 68),
     \<langle>\<rangle>\<rangle>, (69, 69),
     \<langle>\<langle>\<rangle>, (70, 70),
     \<langle>\<rangle>\<rangle>\<rangle>, (71, 71),
     \<langle>\<langle>\<langle>\<rangle>, (72, 72),
     \<langle>\<rangle>\<rangle>, (73, 73),
     \<langle>\<rangle>\<rangle>\<rangle>\<rangle>, (74, 74),
     \<langle>\<langle>\<langle>\<langle>\<langle>\<rangle>, (75, 75),
     \<langle>\<rangle>\<rangle>, (76, 76),
     \<langle>\<langle>\<rangle>, (77, 77),
     \<langle>\<rangle>\<rangle>\<rangle>, (78, 78),
     \<langle>\<langle>\<langle>\<rangle>, (79, 79),
     \<langle>\<rangle>\<rangle>, (80, 80),
     \<langle>\<langle>\<rangle>, (81, 81),
     \<langle>\<rangle>\<rangle>\<rangle>\<rangle>, (82, 82),
     \<langle>\<langle>\<langle>\<langle>\<rangle>, (83, 83),
     \<langle>\<rangle>\<rangle>, (86, 86),
     \<langle>\<langle>\<rangle>, (87, 87),
     \<langle>\<rangle>\<rangle>\<rangle>, (88, 88),
     \<langle>\<langle>\<langle>\<rangle>, (96, 57372),
     \<langle>\<rangle>\<rangle>, (97, 57373),
     \<langle>\<rangle>\<rangle>\<rangle>\<rangle>\<rangle>, (98, 57397),
     \<langle>\<langle>\<langle>\<langle>\<langle>\<langle>\<rangle>, (99, 57399),
     \<langle>\<rangle>\<rangle>, (100, 57400),
     \<langle>\<langle>\<rangle>, (102, 57415),
     \<langle>\<rangle>\<rangle>\<rangle>, (103, 57416),
     \<langle>\<langle>\<langle>\<rangle>, (104, 57417),
     \<langle>\<rangle>\<rangle>, (105, 57419),
     \<langle>\<langle>\<rangle>, (106, 57421),
     \<langle>\<rangle>\<rangle>\<rangle>\<rangle>, (107, 57423),
     \<langle>\<langle>\<langle>\<langle>\<rangle>, (108, 57424),
     \<langle>\<rangle>\<rangle>, (109, 57425),
     \<langle>\<langle>\<rangle>, (110, 57426),
     \<langle>\<rangle>\<rangle>\<rangle>, (111, 57427),
     \<langle>\<langle>\<langle>\<rangle>, (119, 57629),
     \<langle>\<rangle>\<rangle>, (125, 57435),
     \<langle>\<rangle>\<rangle>\<rangle>\<rangle>, (126, 57436),
     \<langle>\<langle>\<langle>\<langle>\<langle>\<rangle>, (139, 57437),
     \<langle>\<rangle>\<rangle>, (183, 100),
     \<langle>\<langle>\<rangle>, (184, 101),
     \<langle>\<rangle>\<rangle>\<rangle>, (185, 102),
     \<langle>\<langle>\<langle>\<rangle>, (186, 103),
     \<langle>\<rangle>\<rangle>, (187, 104),
     \<langle>\<rangle>\<rangle>\<rangle>, (188, 105),
     \<langle>\<langle>\<langle>\<langle>\<rangle>, (189, 106),
     \<langle>\<rangle>\<rangle>, (190, 107),
     \<langle>\<langle>\<rangle>, (191, 108),
     \<langle>\<rangle>\<rangle>\<rangle>, (192, 109),
     \<langle>\<langle>\<langle>\<rangle>, (193, 110),
     \<langle>\<rangle>\<rangle>, (194, 118),
     \<langle>\<rangle>\<rangle>\<rangle>\<rangle>\<rangle>\<rangle>\<rangle>"

lemma linux_uint:
  "map (\<lambda>(n, c). (uint (linux_ev n), c)) g_evdevToYamyMap =
     [(30, 30), (48, 48), (46, 46), (32, 32), (18, 18), (33, 33), (34, 34), (35, 35), (23, 23),
      (36, 36), (37, 37), (38, 38), (50, 50), (49, 49), (24, 24), (25, 25), (16, 16), (19, 19),
      (31, 31), (20, 20), (22, 22), (47, 47), (17, 17), (45, 45), (21, 21), (44, 44), (11, 11), (2, 2),
      (3, 3), (4, 4), (5, 5), (6, 6), (7, 7), (8, 8), (9, 9), (10, 10), (59, 59), (60, 60), (61, 61),
      (62, 62), (63, 63), (64, 64), (65, 65), (66, 66), (67, 67), (68, 68), (87, 87), (88, 88),
      (183, 100), (184, 101), (185, 102), (186, 103), (187, 104), (188, 105), (189, 106), (190, 107),
      (191, 108), (192, 109), (193, 110), (194, 118), (42, 42), (54, 54), (29, 29), (97, 57373),
      (56, 56), (100, 57400), (125, 57435), (126, 57436), (1, 1), (15, 15), (58, 58), (28, 28),
      (14, 14), (57, 57), (110, 57426), (111, 57427), (102, 57415), (107, 57423), (104, 57417),
      (109, 57425), (105, 57419), (106, 57421), (103, 57416), (108, 57424), (69, 69), (70, 70),
      (82, 82), (79, 79), (80, 80), (81, 81), (75, 75), (76, 76), (77, 77), (71, 71), (72, 72),
      (73, 73), (55, 55), (78, 78), (74, 74), (83, 83), (98, 57397), (96, 57372), (12, 12), (13, 13),
      (26, 26), (27, 27), (39, 39), (40, 40), (41, 41), (43, 43), (51, 51), (52, 52), (53, 53),
      (86, 86), (99, 57399), (119, 57629), (139, 57437)]"
  by (simp add: g_evdevToYamyMap_def linux_ev_def linux_codes_def evkey_count_def KEY_defs)

lemma linux_tree_inorder:
  "inorder linux_tree = sort_key fst (map (\<lambda>(n, c). (uint (linux_ev n), c)) g_evdevToYamyMap)"
  unfolding linux_uint linux_tree_def by code_simp

lemma linux_lookup:
  "evdevToYamyKeyCode linux_ev c = (case tlookup linux_tree (uint c) of None \<Rightarrow> 0 | Some d \<Rightarrow> d)"
proof -
  have "successively (<) (map fst (inorder linux_tree))" by (simp add: linux_tree_def)
  then have "tlookup linux_tree (uint c) = map_of (map (\<lambda>(n, c). (uint (linux_ev n), c)) g_evdevToYamyMap) (uint c)"
    by (simp add: tlookup_successively linux_tree_inorder map_of_sort_key)
  also have "\<dots> = map_of (map (\<lambda>(a, b). (uint a, b)) (map (\<lambda>(n, c). (linux_ev n, c)) g_evdevToYamyMap)) (uint c)"
    by (simp add: case_prod_unfold comp_def)
  also have "\<dots> = map_of (map (\<lambda>(n, c). (linux_ev n, c)) g_evdevToYamyMap) c" by (rule map_of_uint)
  finally show ?thesis by (simp add: evdevToYamyKeyCode_def)
qed

text \<open>The keys whose YAMY code, read as an evdev code, is another key or none.\<close>

definition converted_twice :: "(evkey \<times> u16) list" where
  "converted_twice =
     [(KEY_F13, 0xE038), (KEY_F14, 0), (KEY_F15, 0xE047), (KEY_F16, 0xE048), (KEY_F17, 0xE049),
      (KEY_F18, 0xE04B), (KEY_F19, 0xE04D), (KEY_F20, 0xE04F), (KEY_F21, 0xE050), (KEY_F22, 0xE051),
      (KEY_F23, 0xE052), (KEY_F24, 0), (KEY_RIGHTCTRL, 0), (KEY_RIGHTALT, 0), (KEY_LEFTMETA, 0),
      (KEY_RIGHTMETA, 0), (KEY_INSERT, 0), (KEY_DELETE, 0), (KEY_HOME, 0), (KEY_END, 0),
      (KEY_PAGEUP, 0), (KEY_PAGEDOWN, 0), (KEY_LEFT, 0), (KEY_RIGHT, 0), (KEY_UP, 0), (KEY_DOWN, 0),
      (KEY_KPSLASH, 0), (KEY_KPENTER, 0), (KEY_SYSRQ, 0), (KEY_PAUSE, 0), (KEY_MENU, 0)]"

definition twice_check :: "evkey \<times> int \<Rightarrow> bool" where
  "twice_check = (\<lambda>(n, c).
     (case tlookup linux_tree c of None \<Rightarrow> 0 | Some d \<Rightarrow> uint d) =
     (case map_of converted_twice n of None \<Rightarrow> c | Some d \<Rightarrow> uint d))"

lemma twice_checked: "list_all twice_check (map (\<lambda>(n, c). (n, uint c)) g_evdevToYamyMap)"
  unfolding evdev_uint by (simp add: twice_check_def converted_twice_def linux_tree_def KEY_defs)

lemma second_conversion:
  assumes "(n, c) \<in> set g_evdevToYamyMap"
  shows "evdevToYamyKeyCode linux_ev c = (case map_of converted_twice n of None \<Rightarrow> c | Some d \<Rightarrow> d)"
proof -
  have "twice_check (n, uint c)" using twice_checked assms by (fastforce simp: list_all_iff)
  then have "uint (evdevToYamyKeyCode linux_ev c) = uint (case map_of converted_twice n of None \<Rightarrow> c | Some d \<Rightarrow> d)"
    by (simp add: twice_check_def linux_lookup split: option.splits)
  then show ?thesis by (simp add: word_uint_eq_iff)
qed

end
