(* ===== verification/End_To_End.thy ===== *)
theory End_To_End
  imports Loaded_Engine Platform_Output Double_Conversion
begin

text \<open>
  From the keyboard to the virtual device: the reader thread, the engine with a loaded
  configuration, and the injector together.
\<close>

section \<open>The codes of a keyboard\<close>

text \<open>The scan codes of a keyboard.\<close>

definition kb_codes :: "Keyboard \<Rightarrow> u16 set" where
  "kb_codes kb = {m_scan sc | k sc. key_ok kb k \<and> sc \<in> set (m_scanCodes (get_key kb k))}"

lemma loaded_flags:
  assumes "loaded_kb kb" "key_ok kb k" "sc \<in> set (m_scanCodes (get_key kb k))"
  shows "m_flags sc = 0"
  using assms by (cases k) (auto simp: loaded_kb_def fresh_key_def key_ok_def get_key_def new_Key_def dest!: bspec nth_mem)

section \<open>Keys that are lost on the way\<close>

lemma reader_scan:
  assumes "reader_event abi iev = Some kev" "abi_ev abi = ev" "ie_code iev = ev n" "ev_ok ev"
    "(n, c) \<in> set g_evdevToYamyMap"
  shows "ucast (ke_scanCode kev) = c" "c \<noteq> 0" "ke_extraInfo kev = 0" "\<not> ke_isExtended kev"
proof -
  have "evdevToYamyKeyCode ev (ev n) = c" by (rule evdevToYamy_entry [OF assms(4,5)])
  then show "ucast (ke_scanCode kev) = c" "c \<noteq> 0" "ke_extraInfo kev = 0" "\<not> ke_isExtended kev"
    using assms(1-3) by (auto simp: reader_event_def Let_def ucast_up_ucast_id is_up split: if_splits)
qed

lemma dropped_by_processor:
  assumes "live e" "en_eventProcessor e = Some ep" "cu_evdev c \<noteq> 0"
    and "evdevToYamyKeyCode (env_ev env) (cu_evdev c) = 0" "\<not> hasActiveVirtualModifiers e"
  shows "\<exists>e'. beginGeneratingKeyboardEvents env c isMod e = Inr e' \<and> en_injected e' = en_injected e \<and>
    en_setting e' = en_setting e \<and> en_settingDeleted e' = en_settingDeleted e"
proof -
  obtain ep1 io1 where ck: "check_waiting (env_clock_a env) (ep\<lparr>m_currentEventIsTap := False\<rparr>) (Some (en_modifierState e)) =
      (ep1, io1)" by fastforce
  show ?thesis using assms
    by (simp add: beginGeneratingKeyboardEvents_def run_processor_def setting_of_live processEvent_def
        layer1_evdevToYamy_def ck after_processor_def Let_def)
qed

lemma release_unused_no_keys:
  assumes "live e" "m_mods (kb_of e) = (\<lambda>_. [])"
  shows "release_unused_modifiers e = Inr e"
proof -
  have "run_fold (modifier_step new_Modifier) ts e = Inr e" for ts
    by (induction ts) (simp_all add: modifier_step_no_keys [OF assms])
  then show ?thesis by (simp add: release_unused_modifiers_def generateModifierEvents_def)
qed

lemma lookup_key_total:
  assumes "wf_Keyboard kb"
  shows "\<exists>found. lookup_key kb kid m = Inr found"
proof -
  let ?q = "event_key_of kid" and ?b = "unat (MakeCode kid) mod HASHED_KEYS_SIZE"
  have q: "m_scanCodes ?q = [\<lparr>m_scan = MakeCode kid, m_flags = Flags kid\<rparr>]"
    by (simp add: event_key_of_def addScanCode_def new_Key_def)
  then have b: "getKeys ?q = Some ?b" by (simp add: getKeys_def)
  have "\<exists>r. search_prefix (kb_store kb) ?q is = Some r"
    if "\<forall>i\<in>set is. m_scanCodes (kb_store kb ! i) \<noteq> []" for "is"
    using that
  proof (induction "is")
    case (Cons i "is")
    then have "isPrefixScanCode (kb_store kb ! i) ?q \<noteq> None"
      by (cases "m_scanCodes (kb_store kb ! i)") (auto simp: isPrefixScanCode_def q)
    with Cons show ?case by (auto split: option.splits bool.splits)
  qed simp
  moreover have "m_scanCodes (kb_store kb ! i) \<noteq> []" if "i \<in> set (m_hashedKeys kb ! ?b)" for i
  proof -
    have "getKeys (kb_store kb ! i) = Some ?b"
      using assms that unfolding wf_Keyboard_def by (simp add: HASHED_KEYS_SIZE_def)
    then show ?thesis by (auto simp: getKeys_def)
  qed
  ultimately obtain r where "search_prefix (kb_store kb) ?q (m_hashedKeys kb ! ?b) = Some r" by blast
  then show ?thesis by (auto simp: lookup_key_def searchKey_def searchPrefixKey_def b split: option.splits)
qed

lemma concat_map_Nil: "concat (map (\<lambda>t. []) ts) = []"
  by (induction ts) simp_all

lemma fix_no_assignments:
  "km_modAssignments km = (\<lambda>_. []) \<Longrightarrow> fixModifierKey km mk = Inr (mk, AM_notModifier, False)"
  by (simp add: fixModifierKey_def concat_map_Nil)

lemma dropped_by_handler:
  assumes lv: "live e" and no: "m_mods (kb_of e) = (\<lambda>_. [])" and ep: "en_eventProcessor e \<noteq> None"
    and vm: "\<not> hasActiveVirtualModifiers e"
    and km: "en_currentKeymap e = Some i" "i < length (st_keymaps (the (en_setting e)))"
      "km_modAssignments (st_keymaps (the (en_setting e)) ! i) = (\<lambda>_. [])"
    and c: "ucast (ke_scanCode kev) \<noteq> (0 :: u16)" "evdevToYamyKeyCode (env_ev env) (ucast (ke_scanCode kev)) = 0"
    and k: "\<And>r. k = Some r \<Longrightarrow> key_ok (kb_of e) r"
  shows "\<exists>e'. handle_key env kev (keyEventToKID kev) k e = Inr e' \<and> en_injected e' = en_injected e"
proof -
  let ?p = "ke_isKeyDown kev"
  define e1 where "e1 = count_press k ?p e"
  have cfg: "keeps_config e e1" unfolding e1_def by (rule count_press_keeps_config [OF lv k])
  have e1: "live e1" "en_injected e1 = en_injected e" "en_eventProcessor e1 = en_eventProcessor e"
    "en_modifierState e1 = en_modifierState e" "en_currentKeymap e1 = Some i"
    "st_keymaps (the (en_setting e1)) = st_keymaps (the (en_setting e))" "m_mods (kb_of e1) = (\<lambda>_. [])"
    using lv km(1) cfg no
    by (auto simp: e1_def count_press_def on_keyboard_def live_def keeps_config_def Let_def split: option.splits)
  obtain ep where ep1: "en_eventProcessor e1 = Some ep" using ep e1(3) by auto
  have vm1: "\<not> hasActiveVirtualModifiers e1" using vm e1(4) by (simp add: hasActiveVirtualModifiers_def)
  let ?km = "st_keymaps (the (en_setting e1)) ! i"
  let ?mk = "(case k of Some r \<Rightarrow> ModifiedKey_of r | None \<Rightarrow> new_ModifiedKey)
    \<lparr>mk_modifier := getCurrentModifiers (st_keyboard (the (en_setting e1))) ?km k ?p e1\<rparr>"
  define mk where "mk = (if en_isPrefix e1 \<and> en_doesEditNextModifier e1
    then ?mk\<lparr>mk_modifier := Modifier_add (en_modifierForNextKey e1) (mk_modifier ?mk)\<rparr> else ?mk)"
  let ?c = "\<lparr>cu_keymap = en_currentKeymap e, cu_mkey = mk, cu_evdev = ucast (ke_scanCode kev)\<rparr>"
  have drop1: "\<exists>e'. beginGeneratingKeyboardEvents env ?c m e1 = Inr e' \<and> en_injected e' = en_injected e1 \<and>
      en_setting e' = en_setting e1 \<and> en_settingDeleted e' = en_settingDeleted e1" for m
    using dropped_by_processor [of e1 ep ?c env m] e1(1) ep1 vm1 c by simp
  have drop2: "\<exists>e'. beginGeneratingKeyboardEvents env ?c m (e1\<lparr>en_oneShotKey := y\<rparr>) = Inr e' \<and>
      en_injected e' = en_injected e1 \<and> en_setting e' = en_setting e1 \<and> en_settingDeleted e' = en_settingDeleted e1" for m y
    using dropped_by_processor [of "e1\<lparr>en_oneShotKey := y\<rparr>" ep ?c env m] e1(1) ep1 vm1 c
    by (simp add: live_def hasActiveVirtualModifiers_def)
  have "\<exists>e2. dispatch_key env (keyEventToKID kev) ?c False AM_notModifier ?p (the (en_setting e1)) e1 = Inr e2 \<and>
      en_injected e2 = en_injected e1 \<and> en_setting e2 = en_setting e1 \<and> en_settingDeleted e2 = en_settingDeleted e1"
    using drop1 drop2 no_E1 [of kev] by (simp add: dispatch_key_def Let_def)
  then obtain e2 where e2: "dispatch_key env (keyEventToKID kev) ?c False AM_notModifier ?p (the (en_setting e1)) e1 = Inr e2"
    "en_injected e2 = en_injected e1" "en_setting e2 = en_setting e1" "en_settingDeleted e2 = en_settingDeleted e1" by blast
  have "release_unused_modifiers e2 = Inr e2"
    using release_unused_no_keys [of e2] e2(3,4) e1(1,7) by (simp add: live_def kb_of_def)
  moreover have fx: "fixModifierKey ?km ?mk = Inr (?mk, AM_notModifier, False)"
    by (rule fix_no_assignments) (simp add: e1(6) km(3))
  have ka: "keymap_at (the (en_setting e1)) (en_currentKeymap e1) = Inr ?km"
    using km(2) by (simp add: keymap_at_def e1(5,6))
  ultimately have "handle_key env kev (keyEventToKID kev) k e = Inr e2"
    by (simp only: handle_key_def Let_def e1_def [symmetric] setting_of_live [OF e1(1)] run_bind_simps ka fx
        prod.case mk_def [symmetric] simp_thms if_False e2(1))
  then show ?thesis using e2(2) e1(2) by simp
qed

text \<open>C28: Keys that never come out. The reader thread has translated the key's code already when the event
  processor translates it again. For the right Control and Alt keys, the Windows and Menu keys, the
  arrows, Insert, Delete, Home, End, Page Up and Down, Enter and slash of the keypad, Print Screen,
  Pause, F14 and F24 the second translation, with the key codes of the Linux header, gives nothing.
  While an engine with a loaded configuration whose scan codes are distinct is enabled and has a
  keymap, and no virtual modifier is active, handling their events, pressed or released, defined in
  the configuration or not, returns and injects nothing at all. (A disabled engine, or one without a
  keymap, injects the event as it came.)\<close>

theorem extended_keys_are_dropped:
  assumes "load_config config new_Setting = Some st" "codes_distinct (st_keyboard st)"
    and "setSetting linux_ev layout st (new_Engine p q) = Inr (True, e0)" "engine_reach e0 e"
    and "en_isEnabled e" "en_currentKeymap e = Some i" "i < length (st_keymaps st)"
    and "\<not> hasActiveVirtualModifiers e"
    and "(n, c) \<in> set g_evdevToYamyMap" "map_of converted_twice n = Some 0"
    and "abi_ev abi = linux_ev" "ie_code iev = linux_ev n" "reader_event abi iev = Some kev" "env_ev env = linux_ev"
  shows "\<exists>e'. handle_event env kev e = Inr e' \<and> en_injected e' = en_injected e"
proof -
  have ld: "loaded_setting st"
    by (rule load_config_inv [OF assms(1) new_Setting_loaded]) (simp_all add: new_Setting_def)
  from setSetting_loaded [OF ld assms(2), of linux_ev layout p q] assms(3) have
    e0: "eng_inv e0" "en_setting e0 = Some st" "en_eventProcessor e0 \<noteq> None" by auto
  have e: "eng_inv e" "keeps_config e0 e" using engine_reach_inv [OF e0(1) assms(4)] by simp_all
  then have live: "live e" and wf: "wf_Keyboard (kb_of e)" by (simp_all add: eng_inv_def good_engine_def)
  have cfg: "st_keymaps (the (en_setting e)) = st_keymaps st" "m_mods (kb_of e) = (\<lambda>_. [])" "en_eventProcessor e \<noteq> None"
    using e(2) ld e0 by (simp_all add: keeps_config_def kb_of_def loaded_setting_def loaded_kb_def)
  have "st_keymaps st ! i \<in> set (st_keymaps st)" using assms(7) by simp
  then have km: "km_modAssignments (st_keymaps st ! i) = (\<lambda>_. [])" using ld by (simp add: loaded_setting_def good_map_def)
  note sc = reader_scan [OF assms(13,11,12) linux_ev_ok assms(9)]
  have zero: "evdevToYamyKeyCode linux_ev c = 0" using second_conversion [OF assms(9)] assms(10) by simp
  have mouse: "ke_extraInfo kev \<noteq> MOUSE_EVENT_MARKER" by (simp add: sc(3) MOUSE_EVENT_MARKER_def)
  obtain found where found: "lookup_key (kb_of e) (keyEventToKID kev) False = Inr found"
    using lookup_key_total [OF wf] by blast
  have ev: "handle_event env kev e =
      (case found of Inl _ \<Rightarrow> Inr e | Inr k \<Rightarrow> handle_key env kev (keyEventToKID kev) k e)"
    using live assms(5,6) mouse found setting_of_live [OF live]
    by (auto simp: handle_event_def Let_def kb_of_def [symmetric] live_def)
  show ?thesis
  proof (cases found)
    case (Inl u)
    then show ?thesis by (simp add: ev)
  next
    case (Inr k)
    have ok: "key_ok (kb_of e) r" if "k = Some r" for r
      using lookup_key_ok [OF wf, of "keyEventToKID kev" False r] found Inr that by simp
    have "\<exists>e'. handle_key env kev (keyEventToKID kev) k e = Inr e' \<and> en_injected e' = en_injected e"
      by (rule dropped_by_handler [OF live cfg(2,3) assms(8,6) _ _ _ _ ok])
         (use assms(7,14) km sc(1,2) zero in \<open>simp_all add: cfg(1)\<close>)
    then show ?thesis by (simp add: ev Inr)
  qed
qed

section \<open>Witnesses\<close>

lemma linux_abi_ok: "abi_ok linux_abi"
  by (simp add: abi_ok_def linux_abi_def)

lemma ex_codes_apart: "codes_apart linux_abi ''us'' (kb_codes (st_keyboard ex_loaded))"
proof -
  have "kb_codes (st_keyboard ex_loaded) \<subseteq> {0x1E, 0x30}"
    using ex_loaded_codes_cases by (force simp: kb_codes_def)
  moreover have y: "yamyToEvdevKeyCode linux_ev ''us'' 0x1E = 30" "yamyToEvdevKeyCode linux_ev ''us'' 0x30 = 48"
    by (simp_all add: yamyToEvdev_out_key out_key_tree us_tree_def linux_ev_def evkey_count_def linux_codes_def KEY_defs)
  have "30 \<noteq> button_code linux_abi b \<and> 48 \<noteq> button_code linux_abi b" for b
    by (cases b) (simp_all add: button_code_def linux_abi_def)
  then have "codes_apart linux_abi ''us'' {0x1E, 0x30}"
    using y by (simp add: codes_apart_def linux_abi_def inj_on_def)
  ultimately show ?thesis by (meson codes_apart_def inj_on_subset subsetD)
qed

text \<open>The right arrow key, pressed.\<close>

definition ex_arrow :: input_event where
  "ex_arrow = \<lparr>ie_type = 1, ie_code = linux_ev KEY_RIGHT, ie_value = 1\<rparr>"

theorem extended_keys_are_dropped_witness:
  "\<exists>e0 kev e'. setSetting linux_ev ''us'' ex_loaded (new_Engine False False) = Inr (True, e0) \<and>
     reader_event linux_abi ex_arrow = Some kev \<and> handle_event (ex_env\<lparr>env_ev := linux_ev\<rparr>) kev e0 = Inr e' \<and>
     en_injected e' = []"
proof -
  obtain e0 i where e0: "setSetting linux_ev ''us'' ex_loaded (new_Engine False False) = Inr (True, e0)" "en_injected e0 = []"
    "en_isEnabled e0" "en_currentKeymap e0 = Some i" "i < length (st_keymaps ex_loaded)" "en_modifierState e0 = new_ModifierState"
    using setSetting_loaded [OF ex_loaded_setting ex_loaded_codes] ex_loaded_keymaps by fastforce
  have entry: "(KEY_RIGHT, 0xE04D) \<in> set g_evdevToYamyMap" by (simp add: g_evdevToYamyMap_def)
  have code: "evdevToYamyKeyCode linux_ev (linux_ev KEY_RIGHT) = 0xE04D"
    by (rule evdevToYamy_entry [OF linux_ev_ok entry])
  have "linux_ev KEY_RIGHT = 106" by (simp add: linux_ev_def linux_codes_def evkey_count_def KEY_RIGHT_def)
  then obtain kev where kev: "reader_event linux_abi ex_arrow = Some kev"
    using code by (simp add: reader_event_def linux_abi_def ex_arrow_def)
  have vm: "\<not> hasActiveVirtualModifiers e0"
    by (simp add: hasActiveVirtualModifiers_def e0(6) new_ModifierState_def list_ex_iff)
  have "map_of converted_twice KEY_RIGHT = Some 0" by (simp add: converted_twice_def KEY_defs)
  from extended_keys_are_dropped [OF ex_loads ex_loaded_codes e0(1) engine_reach.start e0(3-5) vm entry this _ _ kev,
      of "ex_env\<lparr>env_ev := linux_ev\<rparr>"] e0(1,2) kev
  show ?thesis by (fastforce simp: linux_abi_def ex_arrow_def)
qed

end
