(* ===== verification/Remapping.thy ===== *)
theory Remapping
  imports End_To_End
begin

text \<open>
  The remapper as its user sees it. For a loaded configuration, and as long as no key that triggers
  a virtual modifier is used, the reader thread, the engine's handler and the event processor
  together implement a machine that knows nothing of keys, keymaps and tables: a set of codes that
  are down and one function from codes to codes.
\<close>

section \<open>The specification\<close>

text \<open>What the mappings make of a code when no modifier is on.\<close>

definition mapped_code :: "Setting \<Rightarrow> u16 \<Rightarrow> u16" where
  "mapped_code st c =
     (case find (\<lambda>m. me_code m = c \<and> from_holds (me_from m) 0)
             (mappings_of (st_keyboard st) (st_keySeqs st) (global_keymap st)) of
        Some m \<Rightarrow> me_out m
      | None \<Rightarrow> c)"

text \<open>
  The code that comes out for code \<open>c\<close> of the reader thread, if any: the key must be defined, and
  so must the key of the output, or the key itself comes out.
\<close>

definition out_code :: "(evkey \<Rightarrow> u16) \<Rightarrow> string \<Rightarrow> Setting \<Rightarrow> u16 \<Rightarrow> u16 option" where
  "out_code ev layout st c =
     (let converted = evdevToYamyKeyCode ev c; out = mapped_code st converted; defined = kb_codes (st_keyboard st)
      in if c \<notin> defined \<or> converted = 0 \<or> layer3_yamyToEvdev ev layout out = 0 then None
         else if out \<in> defined then Some out
         else Some c)"

text \<open>The codes down, and what has been asked of the injector.\<close>

definition emit :: "bool \<Rightarrow> u16 option \<Rightarrow> u16 set \<times> InjectorCall list \<Rightarrow> u16 set \<times> InjectorCall list" where
  "emit pressed code = (\<lambda>(down, sent).
     case code of
       None \<Rightarrow> (down, sent)
     | Some out \<Rightarrow>
         (if pressed then insert out down else down - {out},
          if pressed \<or> out \<in> down then sent @ [Inject (kid_of \<lparr>m_scan = out, m_flags = 0\<rparr> pressed)] else sent))"

definition remap_step ::
    "(evkey \<Rightarrow> u16) \<Rightarrow> string \<Rightarrow> Setting \<Rightarrow> u16 \<times> bool \<Rightarrow> u16 set \<times> InjectorCall list \<Rightarrow> u16 set \<times> InjectorCall list" where
  "remap_step ev layout st = (\<lambda>(c, pressed). emit pressed (out_code ev layout st c))"

definition remap_spec ::
    "(evkey \<Rightarrow> u16) \<Rightarrow> string \<Rightarrow> Setting \<Rightarrow> (u16 \<times> bool) list \<Rightarrow> u16 set \<times> InjectorCall list" where
  "remap_spec ev layout st ins = fold (remap_step ev layout st) ins ({}, [])"

section \<open>What the reader thread queues\<close>

definition key_queue :: "evdev_abi \<Rightarrow> (event_env \<times> input_event) list \<Rightarrow> (event_env \<times> KeyEvent) list" where
  "key_queue abi evs = List.map_filter (\<lambda>(env, iev). map_option (Pair env) (reader_event abi iev)) evs"

definition key_moves :: "(event_env \<times> KeyEvent) list \<Rightarrow> (u16 \<times> bool) list" where
  "key_moves q = map (\<lambda>(env, kev). (ucast (ke_scanCode kev), ke_isKeyDown kev)) q"

section \<open>Keyboards with the same keys\<close>

definition same_keys :: "Keyboard \<Rightarrow> Keyboard \<Rightarrow> bool" where
  "same_keys kb kb' \<longleftrightarrow> m_hashedKeys kb' = m_hashedKeys kb \<and> length (kb_store kb') = length (kb_store kb) \<and>
     m_mods kb' = m_mods kb \<and>
     (\<forall>i<length (kb_store kb). m_scanCodes (kb_store kb' ! i) = m_scanCodes (kb_store kb ! i))"

lemma same_keys_refl [simp]: "same_keys kb kb"
  by (simp add: same_keys_def)

lemma same_keys_trans: "same_keys a b \<Longrightarrow> same_keys b c \<Longrightarrow> same_keys a c"
  by (simp add: same_keys_def)

lemma same_keys_update:
  assumes "\<And>q. m_scanCodes (f q) = m_scanCodes q"
  shows "same_keys kb (update_key k f kb)"
proof -
  have "m_scanCodes ((kb_store kb)[n := f (kb_store kb ! n)] ! i) = m_scanCodes (kb_store kb ! i)" for n i
    using assms by (cases "length (kb_store kb) \<le> n"; cases "i = n") (simp_all add: list_update_beyond)
  then show ?thesis by (cases k) (simp_all add: same_keys_def update_key_def)
qed

lemma key_ok_store: "key_ok kb (KeyAt i) \<longleftrightarrow> i < length (kb_store kb)"
  by (simp add: key_ok_def)

lemma loaded_key_code:
  assumes "loaded_kb kb" "i < length (kb_store kb)"
  shows "\<exists>c. m_scanCodes (kb_store kb ! i) = [\<lparr>m_scan = c, m_flags = 0\<rparr>]"
  using assms by (simp add: loaded_kb_def fresh_key_def)

definition code_at :: "Keyboard \<Rightarrow> nat \<Rightarrow> u16" where
  "code_at kb i = m_scan (hd (m_scanCodes (kb_store kb ! i)))"

lemma loaded_code_at:
  assumes "loaded_kb kb" "same_keys kb kb'" "i < length (kb_store kb)"
  shows "m_scanCodes (kb_store kb' ! i) = [\<lparr>m_scan = code_at kb i, m_flags = 0\<rparr>]"
  using loaded_key_code [OF assms(1,3)] assms(2,3) by (auto simp: same_keys_def code_at_def)

lemma loaded_codes:
  assumes "loaded_kb kb"
  shows "kb_codes kb = code_at kb ` {..<length (kb_store kb)}"
proof -
  have sync: "m_scanCodes (get_key kb SyncKey) = []"
    using assms by (simp add: loaded_kb_def get_key_def new_Key_def)
  have "c \<in> kb_codes kb \<longleftrightarrow> (\<exists>i<length (kb_store kb). c = code_at kb i)" for c
  proof
    assume "c \<in> kb_codes kb"
    then obtain k sc where k: "key_ok kb k" "sc \<in> set (m_scanCodes (get_key kb k))" "c = m_scan sc"
      by (auto simp: kb_codes_def)
    with sync obtain i where i: "k = KeyAt i" "i < length (kb_store kb)" by (cases k) (auto simp: key_ok_def)
    then show "\<exists>i<length (kb_store kb). c = code_at kb i"
      using k loaded_code_at [OF assms same_keys_refl i(2)] by (auto simp: get_key_def)
  next
    assume "\<exists>i<length (kb_store kb). c = code_at kb i"
    then obtain i where i: "i < length (kb_store kb)" "c = code_at kb i" by blast
    then show "c \<in> kb_codes kb"
      unfolding kb_codes_def mem_Collect_eq
      by (intro exI [of _ "\<lparr>m_scan = c, m_flags = 0\<rparr>"] exI [of _ "KeyAt i"])
         (simp add: get_key_def key_ok_def loaded_code_at [OF assms same_keys_refl])
  qed
  then show ?thesis by auto
qed

lemma code_at_inj:
  assumes "loaded_kb kb" "codes_distinct kb" "i < length (kb_store kb)" "j < length (kb_store kb)"
    and "code_at kb i = code_at kb j"
  shows "i = j"
proof -
  let ?sc = "\<lparr>m_scan = code_at kb i, m_flags = 0\<rparr>"
  have "?sc \<in> set (m_scanCodes (get_key kb (KeyAt i)))" "?sc \<in> set (m_scanCodes (get_key kb (KeyAt j)))"
    using loaded_code_at [OF assms(1) same_keys_refl assms(3)] loaded_code_at [OF assms(1) same_keys_refl assms(4)]
    by (simp_all add: get_key_def assms(5))
  then have "KeyAt i = KeyAt j" using assms(2-4) key_ok_store unfolding codes_distinct_def by blast
  then show ?thesis by simp
qed

lemma codes_distinct_loaded:
  assumes "loaded_kb kb"
    and "\<And>i j. i < length (kb_store kb) \<Longrightarrow> j < length (kb_store kb) \<Longrightarrow> code_at kb i = code_at kb j \<Longrightarrow> i = j"
  shows "codes_distinct kb"
proof -
  have key: "\<exists>i<length (kb_store kb). k = KeyAt i \<and> sc = \<lparr>m_scan = code_at kb i, m_flags = 0\<rparr>"
    if "key_ok kb k" "sc \<in> set (m_scanCodes (get_key kb k))" for k sc
  proof (cases k)
    case (KeyAt i)
    then show ?thesis using that loaded_code_at [OF assms(1) same_keys_refl, of i] by (simp add: key_ok_store get_key_def)
  qed (use that assms(1) in \<open>simp_all add: key_ok_def get_key_def loaded_kb_def new_Key_def\<close>)
  have "k = j" if c: "key_ok kb k" "key_ok kb j" "sc \<in> set (m_scanCodes (get_key kb k))"
    "sc' \<in> set (m_scanCodes (get_key kb j))" "code_of sc = code_of sc'" for k j sc sc'
  proof -
    obtain a b where ab: "a < length (kb_store kb)" "k = KeyAt a" "sc = \<lparr>m_scan = code_at kb a, m_flags = 0\<rparr>"
      "b < length (kb_store kb)" "j = KeyAt b" "sc' = \<lparr>m_scan = code_at kb b, m_flags = 0\<rparr>"
      using key [OF c(1,3)] key [OF c(2,4)] by blast
    then have "code_at kb a = code_at kb b" using c(5) by (simp add: code_of_def)
    with ab assms(2) show ?thesis by blast
  qed
  moreover have "m_flags sc AND KID_BREAK = 0" if "key_ok kb k" "sc \<in> set (m_scanCodes (get_key kb k))" for k sc
    using key [OF that] by auto
  ultimately show ?thesis unfolding codes_distinct_def by blast
qed

lemma find_unique:
  assumes "x \<in> set xs" "P x" "\<And>y. y \<in> set xs \<Longrightarrow> P y \<Longrightarrow> y = x"
  shows "find P xs = Some x"
proof (cases "find P xs")
  case None
  with assms(1,2) show ?thesis by (simp add: find_None_iff)
next
  case (Some y)
  with assms(3) show ?thesis using find_eq_Some_mem by metis
qed

text \<open>Both searches for a code give the one key that has it.\<close>

lemma same_keys_wf: "same_keys kb kb' \<Longrightarrow> wf_Keyboard kb \<Longrightarrow> wf_Keyboard kb'"
proof -
  assume s: "same_keys kb kb'" and wf: "wf_Keyboard kb"
  have "getKeys (kb_store kb' ! i) = getKeys (kb_store kb ! i)" if "b < HASHED_KEYS_SIZE" "i \<in> set (m_hashedKeys kb ! b)" for b i
  proof -
    have "i < length (kb_store kb)"
      using that wf unfolding wf_Keyboard_def by (metis UN_I lessThan_iff nth_mem set_concat)
    then show ?thesis using s by (simp add: same_keys_def getKeys_def)
  qed
  with s wf show ?thesis by (simp add: same_keys_def wf_Keyboard_def)
qed

lemma key_with_code_of:
  assumes "loaded_kb kb" "codes_distinct kb" "same_keys kb kb'"
  shows "i < length (kb_store kb) \<Longrightarrow> key_with_code kb' (code_at kb i) = Some (KeyAt i)"
    and "c \<notin> kb_codes kb \<Longrightarrow> key_with_code kb' c = None"
proof -
  have wf: "wf_Keyboard kb'" using assms(1,3) same_keys_wf by (auto simp: loaded_kb_def)
  have keys: "set (all_keys kb') = KeyAt ` {..<length (kb_store kb)}"
    using set_all_keys [OF wf] assms(3) by (simp add: same_keys_def)
  have code: "(case m_scanCodes (get_key kb' (KeyAt j)) of [] \<Rightarrow> False | sc # _ \<Rightarrow> m_scan sc = c) \<longleftrightarrow> code_at kb j = c"
    if "j < length (kb_store kb)" for j c
    using loaded_code_at [OF assms(1,3) that] by (simp add: get_key_def)
  show "key_with_code kb' (code_at kb i) = Some (KeyAt i)" if "i < length (kb_store kb)"
    unfolding key_with_code_def
    by (rule find_unique) (use that code keys code_at_inj [OF assms(1,2)] in auto)
  show "key_with_code kb' c = None" if "c \<notin> kb_codes kb"
    using that code keys by (auto simp: key_with_code_def find_None_iff loaded_codes [OF assms(1)])
qed

lemma plain_ScanCode_eq:
  "ScanCode_eq \<lparr>m_scan = a, m_flags = 0\<rparr> \<lparr>m_scan = b, m_flags = f\<rparr> \<longleftrightarrow> a = b \<and> KID_E0E1 AND f = 0"
  by (auto simp: ScanCode_eq_def)

lemma lookup_key_of:
  assumes "loaded_kb kb" "codes_distinct kb" "same_keys kb kb'" "KID_E0E1 AND Flags kid = 0"
  shows "lookup_key kb' kid m = Inr (Inr (key_with_code kb' (MakeCode kid)))"
proof -
  let ?q = "event_key_of kid" and ?b = "unat (MakeCode kid) mod HASHED_KEYS_SIZE"
  have wf: "wf_Keyboard kb'" using assms(1,3) same_keys_wf by (auto simp: loaded_kb_def)
  have q: "m_scanCodes ?q = [\<lparr>m_scan = MakeCode kid, m_flags = Flags kid\<rparr>]"
    by (simp add: event_key_of_def addScanCode_def new_Key_def)
  then have b: "getKeys ?q = Some ?b" by (simp add: getKeys_def)
  have small: "i < length (kb_store kb)" if "i \<in> set (m_hashedKeys kb' ! ?b)" for i
    using that wf assms(3) unfolding wf_Keyboard_def same_keys_def
    by (metis HASHED_KEYS_SIZE_def UN_I lessThan_iff mod_less_divisor nth_mem set_concat zero_less_numeral)
  have same: "isSameScanCode (kb_store kb' ! i) ?q = Some (code_at kb i = MakeCode kid)"
    "isPrefixScanCode (kb_store kb' ! i) ?q = Some (code_at kb i = MakeCode kid)"
    if "i < length (kb_store kb)" for i
    using loaded_code_at [OF assms(1,3) that]
    by (simp_all add: isSameScanCode_def isPrefixScanCode_def q plain_ScanCode_eq assms(4))
  show ?thesis
  proof (cases "MakeCode kid \<in> kb_codes kb")
    case True
    then obtain i where i: "i < length (kb_store kb)" "MakeCode kid = code_at kb i"
      by (auto simp: loaded_codes [OF assms(1)])
    have "getKeys (kb_store kb' ! i) = Some ?b"
      using loaded_code_at [OF assms(1,3) i(1)] i(2) by (simp add: getKeys_def)
    moreover have "i \<in> set (concat (m_hashedKeys kb'))" using wf i(1) assms(3) by (simp add: wf_Keyboard_def same_keys_def)
    then obtain ks where "ks \<in> set (m_hashedKeys kb')" "i \<in> set ks" by auto
    then obtain d where d: "d < HASHED_KEYS_SIZE" "i \<in> set (m_hashedKeys kb' ! d)"
      using wf unfolding wf_Keyboard_def by (metis in_set_conv_nth)
    ultimately have "i \<in> set (m_hashedKeys kb' ! ?b)" using wf d by (metis option.inject wf_Keyboard_def)
    then have "find (\<lambda>i. isSameScanCode (kb_store kb' ! i) ?q = Some True) (m_hashedKeys kb' ! ?b) = Some i"
      by (rule find_unique) (use small same i code_at_inj [OF assms(1,2)] in auto)
    then show ?thesis
      using key_with_code_of(1) [OF assms(1-3) i(1)] i(2) by (simp add: lookup_key_def searchKey_def b)
  next
    case False
    then have none: "code_at kb i \<noteq> MakeCode kid" if "i < length (kb_store kb)" for i
      using that False by (force simp: loaded_codes [OF assms(1)])
    have "search_prefix (kb_store kb') ?q is = Some None" if "set is \<subseteq> {..<length (kb_store kb)}" for "is"
      using that by (induction "is") (simp_all add: same none)
    then have "searchPrefixKey ?q kb' = Some None" using small by (auto simp: searchPrefixKey_def b)
    moreover have "find (\<lambda>i. isSameScanCode (kb_store kb' ! i) ?q = Some True) (m_hashedKeys kb' ! ?b) = None"
      using small same none by (auto simp: find_None_iff)
    ultimately show ?thesis
      using key_with_code_of(2) [OF assms(1-3) False] by (simp add: lookup_key_def searchKey_def b)
  qed
qed

section \<open>The engine while it remaps\<close>

definition trigger_codes :: "Setting \<Rightarrow> u16 set" where
  "trigger_codes st = fst ` set (st_virtualModTriggers st)"

text \<open>No trigger key is down or waited for.\<close>

definition idle_handler :: "u16 set \<Rightarrow> ModifierKeyHandler \<Rightarrow> bool" where
  "idle_handler ts h \<longleftrightarrow> list_all (\<lambda>(k, ks). k \<in> ts \<and> ks_state ks = IDLE) (mh_key_states h)"

definition remap_processor :: "Setting \<Rightarrow> EventProcessor \<Rightarrow> bool" where
  "remap_processor st ep \<longleftrightarrow> (\<exists>h. m_modifierHandler ep = Some h \<and> idle_handler (trigger_codes st) h) \<and>
     m_lookupTable ep = build_table (st_keyboard st) (st_keySeqs st) (global_keymap st) new_RuleLookupTable"

text \<open>What stays the same while events come in, and the state between remapped events.\<close>

definition steady :: "Setting \<Rightarrow> Engine \<Rightarrow> bool" where
  "steady st e \<longleftrightarrow> live e \<and> en_isEnabled e \<and> \<not> en_isLogMode e \<and> \<not> en_isPrefix e \<and>
     (\<exists>i<length (st_keymaps st). en_currentKeymap e = Some i) \<and>
     st_keymaps (the (en_setting e)) = st_keymaps st \<and> same_keys (st_keyboard st) (kb_of e)"

definition remapping :: "Setting \<Rightarrow> Engine \<Rightarrow> bool" where
  "remapping st e \<longleftrightarrow> steady st e \<and> ms_state (en_modifierState e) = 0 \<and>
     (\<exists>ep. en_eventProcessor e = Some ep \<and> remap_processor st ep)"

lemma idle_check:
  assumes "idle_handler ts h"
  shows "checkAndActivateWaitingModifiers clk h = (h, [])"
proof -
  have "check_states clk thr n ks = (ks, [])" if "list_all (\<lambda>(k, s). k \<in> ts \<and> ks_state s = IDLE) ks" for thr n ks
    using that by (induction ks arbitrary: n) auto
  then show ?thesis
    using assms by (cases h) (simp add: checkAndActivateWaitingModifiers_def idle_handler_def)
qed

lemma idle_other:
  assumes "idle_handler ts h" "k \<notin> ts"
  shows "processNumberKey clk k ty h = (h, NumberKeyResult3 NOT_A_NUMBER_MODIFIER 0 False)"
proof -
  have "map_of (mh_key_states h) k = None"
    using assms by (auto simp: idle_handler_def list_all_iff map_of_eq_None_iff)
  then show ?thesis by (simp add: processNumberKey_def)
qed

lemma build_processor_remap:
  assumes "loaded_setting st"
  shows "remap_processor st (build_processor ev layout (st_keyboard st) (Some st) (st_keySeqs st) (global_keymap st))"
proof -
  have "\<exists>h'. fold (\<lambda>(trigger, m). registerVirtualModifierTrigger trigger m (tap_output_of st m)) xs ep =
      ep\<lparr>m_modifierHandler := Some h'\<rparr> \<and> idle_handler ts h'"
    if "m_modifierHandler ep = Some h" "idle_handler ts h" "fst ` set xs \<subseteq> ts" for xs ep h ts
    using that
  proof (induction xs arbitrary: ep h)
    case Nil
    then show ?case by (intro exI [of _ h]) simp
  next
    case (Cons x xs)
    obtain t m where x: "x = (t, m)" by (cases x)
    define h1 where "h1 = mh_registerVirtualModifierTrigger t m (tap_output_of st m) h"
    define ep1 where "ep1 = ep\<lparr>m_modifierHandler := Some h1\<rparr>"
    have reg: "registerVirtualModifierTrigger t m (tap_output_of st m) ep = ep1"
      using Cons.prems(1) by (simp add: registerVirtualModifierTrigger_def on_handler_def h1_def ep1_def)
    have "idle_handler ts h1"
      using Cons.prems(2,3) set_update_subset [of t _ "mh_key_states h"]
      by (fastforce simp: idle_handler_def h1_def mh_registerVirtualModifierTrigger_def put_key_state_def list_all_iff x)
    from Cons.IH [OF _ this, of ep1] Cons.prems(3) obtain h' where
      "fold (\<lambda>(trigger, m). registerVirtualModifierTrigger trigger m (tap_output_of st m)) xs ep1 =
        ep1\<lparr>m_modifierHandler := Some h'\<rparr>" "idle_handler ts h'" by (auto simp: ep1_def)
    then show ?case by (intro exI [of _ h']) (simp add: x reg, simp add: ep1_def)
  qed
  note reg = this
  define t where "t = build_table (st_keyboard st) (st_keySeqs st) (global_keymap st) new_RuleLookupTable"
  define ep where "ep = new_EventProcessor\<lparr>m_lookupTable := t\<rparr>"
  have "m_modifierHandler ep = Some (new_ModifierKeyHandler default_hold_threshold_ms)"
    "idle_handler (trigger_codes st) (new_ModifierKeyHandler default_hold_threshold_ms)"
    "fst ` set (st_virtualModTriggers st) \<subseteq> trigger_codes st"
    by (simp_all add: ep_def new_EventProcessor_def idle_handler_def new_ModifierKeyHandler_def trigger_codes_def)
  from reg [OF this] obtain h where h: "fold (\<lambda>(trigger, m). registerVirtualModifierTrigger trigger m (tap_output_of st m))
      (st_virtualModTriggers st) ep = ep\<lparr>m_modifierHandler := Some h\<rparr>" "idle_handler (trigger_codes st) h" by blast
  have "m_numberModifiers (st_keyboard st) = []" using assms by (simp add: loaded_setting_def loaded_kb_def)
  moreover have "m_lookupTable new_EventProcessor = new_RuleLookupTable" by (simp add: new_EventProcessor_def)
  ultimately have "build_processor ev layout (st_keyboard st) (Some st) (st_keySeqs st) (global_keymap st) =
      ep\<lparr>m_modifierHandler := Some h\<rparr>"
    using h(1) by (simp add: build_processor_def ep_def t_def Let_def)
  then show ?thesis using h(2) by (simp add: remap_processor_def ep_def t_def)
qed

lemma steady_count_press:
  assumes "steady st e"
  shows "steady st (count_press k p e)" "en_injected (count_press k p e) = en_injected e"
    and "en_modifierState (count_press k p e) = en_modifierState e"
    "en_eventProcessor (count_press k p e) = en_eventProcessor e"
    and "\<And>r j. k = Some r \<Longrightarrow> key_ok (kb_of e) r \<Longrightarrow> key_on (count_press k p e) j = key_on e j"
proof -
  obtain stc where stc: "en_setting e = Some stc" using assms by (auto simp: steady_def live_def)
  have kb: "kb_of (count_press k p e) = (case k of None \<Rightarrow> kb_of e
      | Some r \<Rightarrow> update_key r (\<lambda>q. q\<lparr>m_isPressed := p\<rparr>) (kb_of e))"
    by (simp add: count_press_def on_keyboard_def kb_of_def stc Let_def split: option.split)
  have "same_keys (kb_of e) (kb_of (count_press k p e))"
    unfolding kb by (cases k) (simp_all add: same_keys_update)
  then have sk: "same_keys (st_keyboard st) (kb_of (count_press k p e))"
    using assms same_keys_trans by (auto simp: steady_def)
  show "steady st (count_press k p e)"
    using assms sk
    by (simp add: steady_def count_press_def on_keyboard_def live_def stc Let_def split: option.splits)
  show "en_injected (count_press k p e) = en_injected e" "en_modifierState (count_press k p e) = en_modifierState e"
    "en_eventProcessor (count_press k p e) = en_eventProcessor e"
    by (simp_all add: count_press_def on_keyboard_def Let_def split: option.split)
  show "key_on (count_press k p e) j = key_on e j" if "k = Some r" "key_ok (kb_of e) r" for r j
    using that kb by (simp add: key_on_def get_key_update)
qed

lemma steady_generate:
  assumes "steady st e" "key_ok (kb_of e) k" "generateKeyEvent k p a e = Inr e'"
  shows "steady st e'" "en_modifierState e' = en_modifierState e" "en_eventProcessor e' = en_eventProcessor e"
proof -
  have lv: "live e" using assms(1) by (simp add: steady_def)
  note fr = generateKeyEvent_effect(1) [OF lv assms(2,3)]
  from fr have r: "rest_of e' = rest_of e" by (simp add: gen_frame_def)
  have ok: "key_ok (kb_of e') (KeyAt i) = key_ok (kb_of e) (KeyAt i)" for i using fr by (simp add: gen_frame_def)
  have len: "length (kb_store (kb_of e')) = length (kb_store (kb_of e))"
    using ok [of "length (kb_store (kb_of e))"] ok [of "length (kb_store (kb_of e'))"] by (simp add: key_ok_store)
  have "m_scanCodes (kb_store (kb_of e') ! i) = m_scanCodes (kb_store (kb_of e) ! i)" if "i < length (kb_store (kb_of e))" for i
    using fr key_ok_store [of "kb_of e" i] that unfolding gen_frame_def by (auto simp: get_key_def dest: spec [of _ "KeyAt i"])
  then have "same_keys (kb_of e) (kb_of e')" using fr len by (simp add: same_keys_def gen_frame_def)
  then have sk: "same_keys (st_keyboard st) (kb_of e')" using assms(1) same_keys_trans by (auto simp: steady_def)
  have rest: "en_isEnabled e' = en_isEnabled e" "en_isLogMode e' = en_isLogMode e" "en_isPrefix e' = en_isPrefix e"
    "en_currentKeymap e' = en_currentKeymap e" "en_modifierState e' = en_modifierState e"
    "en_eventProcessor e' = en_eventProcessor e"
    using arg_cong [OF r, of en_isEnabled] arg_cong [OF r, of en_isLogMode] arg_cong [OF r, of en_isPrefix]
      arg_cong [OF r, of en_currentKeymap] arg_cong [OF r, of en_modifierState] arg_cong [OF r, of en_eventProcessor]
    by (simp_all add: rest_of_def)
  show "steady st e'" using assms(1) sk fr rest by (simp add: steady_def gen_frame_def)
  show "en_modifierState e' = en_modifierState e" "en_eventProcessor e' = en_eventProcessor e" using rest by simp_all
qed

section \<open>One event\<close>

lemma remap_rules:
  assumes "remap_processor st ep" "ms_state s = 0"
  shows "apply_rules ep k (Some s) = mapped_code st k"
proof -
  let ?t = "build_table (st_keyboard st) (st_keySeqs st) (global_keymap st) new_RuleLookupTable"
  have "map_option outputScanCode (findMatch ?t k 0) = map_option me_out
      (find (\<lambda>m. me_code m = k \<and> from_holds (me_from m) 0) (mappings_of (st_keyboard st) (st_keySeqs st) (global_keymap st)))"
    by (rule build_table_find)
  with assms show ?thesis
    by (auto simp: apply_rules_def mapped_code_def remap_processor_def split: option.splits)
qed

lemma remap_processEvent:
  assumes "remap_processor st ep" "ms_state s = 0" "evdevToYamyKeyCode ev c \<notin> trigger_codes st"
  shows "\<exists>ep' r. processEvent ev layout ca cb c ty ep (Some s) = (r, ep', Some s) \<and> remap_processor st ep' \<and>
    (let k = evdevToYamyKeyCode ev c; out = mapped_code st k in
     if k = 0 \<or> layer3_yamyToEvdev ev layout out = 0 then output_evdev r = 0
     else output_evdev r \<noteq> 0 \<and> output_yamy r = out \<and> pe_valid r \<and> \<not> is_tap r)"
proof -
  obtain h where h: "m_modifierHandler ep = Some h" "idle_handler (trigger_codes st) h"
    using assms(1) by (auto simp: remap_processor_def)
  from idle_check [OF h(2)] have h1: "h = event_check ca ep" and s1: "s = event_state ca ep s"
    by (simp_all add: event_check_def event_state_def handler_of_def h(1) apply_activations_def)
  let ?k = "layer1_evdevToYamy ev c" and ?r = "NumberKeyResult3 NOT_A_NUMBER_MODIFIER 0 False"
  have st: "(h, ?r) = processNumberKey cb ?k ty h" 
    using idle_other [OF h(2)] assms(3) by (simp add: layer1_evdevToYamy_def)
  have ar: "apply_result ?r s = s" by (simp add: apply_result_def NumberKeyResult3_def)
  have "(mapped_code st ?k, False) = layer2_code ep ?k ?r (apply_result ?r s)"
    using remap_rules [OF assms(1,2)] ar
    by (simp add: layer2_code_def result_output_def NumberKeyResult3_def)
  note pe = processEvent_handler [OF h(1) h1 s1 refl st this, of layout, unfolded ar]
  have "remap_processor st (ep\<lparr>m_modifierHandler := Some h, m_currentEventIsTap := t\<rparr>)" for t
    using assms(1) h by (simp add: remap_processor_def)
  then show ?thesis by (simp add: pe layer1_evdevToYamy_def Let_def)
qed

lemma current_modifiers_down: "isPressed (getCurrentModifiers kb km k p e) Type_Down = p"
  by (simp add: getCurrentModifiers_def Let_def)

lemma no_active_mods: "ms_state (en_modifierState e) = 0 \<Longrightarrow> \<not> hasActiveVirtualModifiers e"
  by (simp add: hasActiveVirtualModifiers_def list_ex_iff)

lemma layer3_zero: "layer3_yamyToEvdev ev layout 0 = 0"
  by (simp add: layer3_yamyToEvdev_def yamyToEvdev_out_key out_key_tree us_tree_def jp_tree_def vk_tree_def)

text \<open>The code that comes out for a result of the processor; no mapping is filed under the code.\<close>

definition outcome :: "Setting \<Rightarrow> u16 \<Rightarrow> ProcessedEvent \<Rightarrow> u16 option" where
  "outcome st c r =
     (if output_evdev r = 0 then None
      else if output_yamy r \<in> kb_codes (st_keyboard st) then Some (output_yamy r) else Some c)"

definition plain_result :: "ProcessedEvent \<Rightarrow> bool" where
  "plain_result r \<longleftrightarrow> (output_evdev r \<noteq> 0 \<longrightarrow> pe_valid r \<and> \<not> is_tap r \<and> output_yamy r \<noteq> 0)"

definition unassigned :: "Setting \<Rightarrow> u16 \<Rightarrow> bool" where
  "unassigned st c \<longleftrightarrow>
     (\<forall>km\<in>set (st_keymaps st). km_hashedKeyAssignments km ! (unat c mod HASHED_KEY_ASSIGNMENT_SIZE) = [])"

text \<open>What the engine makes of the press or release of key \<open>i\<close>.\<close>

lemma steady_begin:
  assumes sd: "steady st e" and ld: "loaded_kb (st_keyboard st)" "codes_distinct (st_keyboard st)"
    and i: "i < length (kb_store (st_keyboard st))" "cu_evdev c = code_at (st_keyboard st) i" "cu_evdev c \<noteq> 0"
    and c: "mk_key (cu_mkey c) = Some (KeyAt i)" "isPressed (mk_modifier (cu_mkey c)) Type_Down = p"
    and ep: "en_eventProcessor e = Some ep"
    and pe: "processEvent (env_ev env) (env_layout env) (env_clock_a env) (env_clock_b env) (cu_evdev c)
      (if p then PRESS else RELEASE) ep (Some (en_modifierState e)) = (r, ep', Some s')"
    and r: "plain_result r" and quiet: "hasActiveVirtualModifiers e \<Longrightarrow> unassigned st (cu_evdev c)"
    and e1: "e1 = e\<lparr>en_eventProcessor := Some ep', en_modifierState := s'\<rparr>"
  shows "\<exists>k. outcome st (cu_evdev c) r = map_option (code_at (st_keyboard st)) k \<and>
    (\<forall>j. k = Some j \<longrightarrow> j < length (kb_store (st_keyboard st))) \<and>
    beginGeneratingKeyboardEvents env c m e =
      (case k of None \<Rightarrow> Inr e1 | Some j \<Rightarrow> generateKeyEvent (KeyAt j) p False e1)"
proof -
  let ?kb = "st_keyboard st"
  have lv: "live e" and sk: "same_keys ?kb (kb_of e)" using sd by (simp_all add: steady_def)
  have own: "m_scanCodes (get_key (kb_of e) (KeyAt i)) = [\<lparr>m_scan = cu_evdev c, m_flags = 0\<rparr>]"
    using loaded_code_at [OF ld(1) sk i(1)] i(2) by (simp add: get_key_def)
  obtain n where n: "n < length (st_keymaps st)" "en_currentKeymap e = Some n" using sd by (auto simp: steady_def)
  have km: "keymap_at (the (en_setting e)) (en_currentKeymap e) = Inr (st_keymaps st ! n)"
    using sd n by (simp add: keymap_at_def steady_def)
  have none: "searchAssignment (kb_of e) (st_keymaps st ! n) (buildPhysicalModifiedKey (kb_of e) (st_keymaps st ! n) c e) =
      Some None" if "unassigned st (cu_evdev c)"
  proof -
    have "km_hashedKeyAssignments (st_keymaps st ! n) ! (unat (cu_evdev c) mod HASHED_KEY_ASSIGNMENT_SIZE) = []"
      using that n(1) by (simp add: unassigned_def)
    then show ?thesis
      by (simp add: searchAssignment_def getKeyAssignments_def buildPhysicalModifiedKey_def c(1) own search_bucket_def)
  qed
  have rest: "run_processor env ep c p e = after_processor (the (en_setting e)) c p r e1"
    by (simp add: run_processor_def setting_of_live [OF lv] pe e1)
  have run: "beginGeneratingKeyboardEvents env c m e = after_processor (the (en_setting e)) c p r e1"
  proof (cases "hasActiveVirtualModifiers e \<and> \<not> m")
    case True
    then show ?thesis
      using none [OF quiet] i(3) c(2) ep rest km
      by (simp add: beginGeneratingKeyboardEvents_def setting_of_live [OF lv] kb_of_def [symmetric])
  next
    case False
    then show ?thesis using i(3) c(2) ep rest by (auto simp: beginGeneratingKeyboardEvents_def Let_def)
  qed
  have first: "first_code (kb_of e) (Some (KeyAt i)) = cu_evdev c" using own by (simp add: first_code_def input_code_def)
  show ?thesis
  proof (cases "output_evdev r = 0")
    case True
    with run show ?thesis by (intro exI [of _ None]) (simp add: after_processor_def outcome_def)
  next
    case False
    with r have r': "pe_valid r" "\<not> is_tap r" "output_yamy r \<noteq> 0" by (simp_all add: plain_result_def)
    show ?thesis
    proof (cases "output_yamy r \<in> kb_codes ?kb")
      case True
      then obtain j where j: "j < length (kb_store ?kb)" "output_yamy r = code_at ?kb j"
        by (auto simp: loaded_codes [OF ld(1)])
      have "j = i" if "output_yamy r = cu_evdev c" using code_at_inj [OF ld j(1) i(1)] j(2) i(2) that by simp
      moreover have "key_with_code (kb_of e) (output_yamy r) = Some (KeyAt j)"
        using key_with_code_of(1) [OF ld sk j(1)] j(2) by simp
      ultimately have "after_processor (the (en_setting e)) c p r e1 = generateKeyEvent (KeyAt j) p False e1"
        using False r' first c(1) by (auto simp: after_processor_def kb_of_def Let_def)
      with True False j run show ?thesis by (intro exI [of _ "Some j"]) (simp add: outcome_def)
    next
      case out: False
      then have "key_with_code (kb_of e) (output_yamy r) = None" by (rule key_with_code_of(2) [OF ld sk])
      then have "after_processor (the (en_setting e)) c p r e1 = generateKeyEvent (KeyAt i) p False e1"
        using False r' c(1) by (simp add: after_processor_def kb_of_def Let_def)
      with out False i run show ?thesis by (intro exI [of _ "Some i"]) (simp add: outcome_def)
    qed
  qed
qed

definition from_reader :: "KeyEvent \<Rightarrow> bool" where
  "from_reader kev \<longleftrightarrow> ucast (ke_scanCode kev) \<noteq> (0 :: u16) \<and> ke_extraInfo kev = 0 \<and> \<not> ke_isExtended kev"

lemma reader_event_from: "reader_event abi iev = Some kev \<Longrightarrow> from_reader kev"
  by (auto simp: reader_event_def from_reader_def Let_def ucast_up_ucast_id is_up split: if_splits)

text \<open>The keys of the configuration that are down on the system, by code.\<close>

definition codes_down :: "Setting \<Rightarrow> Engine \<Rightarrow> u16 set" where
  "codes_down st e = {code_at (st_keyboard st) i | i. i < length (kb_store (st_keyboard st)) \<and> key_on e (KeyAt i)}"

lemma codes_down_iff:
  assumes "loaded_kb (st_keyboard st)" "codes_distinct (st_keyboard st)" "i < length (kb_store (st_keyboard st))"
  shows "code_at (st_keyboard st) i \<in> codes_down st e \<longleftrightarrow> key_on e (KeyAt i)"
  using code_at_inj [OF assms(1,2)] assms(3) by (auto simp: codes_down_def)

lemma codes_down_generate:
  assumes "loaded_kb (st_keyboard st)" "codes_distinct (st_keyboard st)" "j < length (kb_store (st_keyboard st))"
    and "\<And>k. key_on e' k = (if k = KeyAt j then p else key_on e k)"
  shows "codes_down st e' = (if p then insert (code_at (st_keyboard st) j) (codes_down st e)
    else codes_down st e - {code_at (st_keyboard st) j})"
proof (rule set_eqI)
  fix c
  show "c \<in> codes_down st e' \<longleftrightarrow> c \<in> (if p then insert (code_at (st_keyboard st) j) (codes_down st e)
    else codes_down st e - {code_at (st_keyboard st) j})"
  proof (cases "\<exists>i<length (kb_store (st_keyboard st)). c = code_at (st_keyboard st) i")
    case True
    then obtain i where i: "i < length (kb_store (st_keyboard st))" "c = code_at (st_keyboard st) i" by blast
    have "code_at (st_keyboard st) i = code_at (st_keyboard st) j \<longleftrightarrow> i = j"
      using code_at_inj [OF assms(1,2) i(1) assms(3)] by blast
    then show ?thesis using codes_down_iff [OF assms(1,2) i(1)] by (simp add: i(2) assms(4))
  next
    case False
    then show ?thesis using assms(3) by (auto simp: codes_down_def)
  qed
qed

text \<open>Facts of steady engines that every event uses.\<close>

lemma steady_key_ok: "steady st e \<Longrightarrow> key_ok (kb_of e) (KeyAt i) \<longleftrightarrow> i < length (kb_store (st_keyboard st))"
  by (simp add: steady_def same_keys_def key_ok_store)

lemma steady_unused:
  assumes "steady st e" "loaded_kb (st_keyboard st)"
  shows "release_unused_modifiers e = Inr e"
  by (rule release_unused_no_keys) (use assms in \<open>simp_all add: steady_def same_keys_def loaded_kb_def\<close>)

lemma steady_keymap:
  assumes "steady st e" "loaded_setting st"
  obtains km where "keymap_at (the (en_setting e)) (en_currentKeymap e) = Inr km" "km_modAssignments km = (\<lambda>_. [])"
proof -
  obtain n where n: "n < length (st_keymaps st)" "en_currentKeymap e = Some n" using assms(1) by (auto simp: steady_def)
  then have "km_modAssignments (st_keymaps st ! n) = (\<lambda>_. [])" using assms(2) by (simp add: loaded_setting_def good_map_def)
  moreover have "keymap_at (the (en_setting e)) (en_currentKeymap e) = Inr (st_keymaps st ! n)"
    using assms(1) n by (simp add: keymap_at_def steady_def)
  ultimately show thesis using that by blast
qed

lemma steady_lookup:
  assumes "steady st e" "loaded_kb (st_keyboard st)" "codes_distinct (st_keyboard st)" "from_reader kev"
  shows "handle_event env kev e =
    handle_key env kev (keyEventToKID kev) (key_with_code (kb_of e) (ucast (ke_scanCode kev))) e"
proof -
  let ?kid = "keyEventToKID kev"
  have lv: "live e" and sk: "same_keys (st_keyboard st) (kb_of e)" and km: "en_currentKeymap e \<noteq> None" "en_isEnabled e"
    using assms(1) by (auto simp: steady_def)
  have mouse: "ke_extraInfo kev \<noteq> MOUSE_EVENT_MARKER"
    using assms(4) by (simp add: from_reader_def MOUSE_EVENT_MARKER_def)
  have "KID_E0E1 AND Flags ?kid = 0"
    using assms(4) by (simp add: keyEventToKID_def from_reader_def KID_E0E1_def KID_BREAK_def)
  moreover have "MakeCode ?kid = ucast (ke_scanCode kev)" by (simp add: keyEventToKID_def)
  ultimately have "lookup_key (kb_of e) ?kid False = Inr (Inr (key_with_code (kb_of e) (ucast (ke_scanCode kev))))"
    using lookup_key_of [OF assms(2,3) sk] by simp
  then show ?thesis
    using lv km mouse setting_of_live [OF lv] by (auto simp: handle_event_def Let_def kb_of_def [symmetric] live_def)
qed

lemma undefined_key_event:
  assumes sd: "steady st e" and ls: "loaded_setting st" and cd: "codes_distinct (st_keyboard st)"
    and kev: "from_reader kev" and c: "ucast (ke_scanCode kev) \<notin> kb_codes (st_keyboard st)"
  shows "handle_event env kev e = Inr e"
proof -
  have ld: "loaded_kb (st_keyboard st)" using ls by (simp add: loaded_setting_def)
  have lv: "live e" and sk: "same_keys (st_keyboard st) (kb_of e)" using sd by (simp_all add: steady_def)
  have none: "key_with_code (kb_of e) (ucast (ke_scanCode kev)) = None" by (rule key_with_code_of(2) [OF ld cd sk c])
  obtain km where km: "keymap_at (the (en_setting e)) (en_currentKeymap e) = Inr km" "km_modAssignments km = (\<lambda>_. [])"
    by (rule steady_keymap [OF sd ls])
  show ?thesis
    using km(1) fix_no_assignments [OF km(2)] steady_unused [OF sd ld] no_E1 [of kev] sd
    by (simp add: steady_lookup [OF sd ld cd kev] none handle_key_def count_press_def setting_of_live [OF lv]
        dispatch_key_def new_ModifiedKey_def steady_def Let_def)
qed

lemma steady_event:
  assumes sd: "steady st e" and ls: "loaded_setting st" and cd: "codes_distinct (st_keyboard st)"
    and kev: "from_reader kev" and p: "p = ke_isKeyDown kev" and code: "c = ucast (ke_scanCode kev)"
    and mine: "c \<in> kb_codes (st_keyboard st)"
    and ep: "en_eventProcessor e = Some ep"
    and pe: "processEvent (env_ev env) (env_layout env) (env_clock_a env) (env_clock_b env) c
      (if p then PRESS else RELEASE) ep (Some (en_modifierState e)) = (r, ep', Some s')"
    and r: "plain_result r" and quiet: "hasActiveVirtualModifiers e \<Longrightarrow> unassigned st c"
  shows "\<exists>e'. handle_event env kev e = Inr e' \<and> steady st e' \<and> en_eventProcessor e' = Some ep' \<and>
    en_modifierState e' = s' \<and>
    (codes_down st e', en_injected e') = emit p (outcome st c r) (codes_down st e, en_injected e)"
proof -
  let ?kb = "st_keyboard st" and ?kid = "keyEventToKID kev"
  have ld: "loaded_kb ?kb" using ls by (simp add: loaded_setting_def)
  have lv: "live e" and sk: "same_keys ?kb (kb_of e)" using sd by (simp_all add: steady_def)
  obtain i where i: "i < length (kb_store ?kb)" "c = code_at ?kb i" using mine by (auto simp: loaded_codes [OF ld])
  have k: "key_with_code (kb_of e) c = Some (KeyAt i)" using key_with_code_of(1) [OF ld cd sk i(1)] i(2) by simp
  let ?r = "Some (KeyAt i)"
  define e1 where "e1 = count_press ?r p e"
  note cp = steady_count_press [OF sd, where k = ?r and p = p, folded e1_def]
  have e1: "steady st e1" "live e1" using cp(1) by (simp_all add: steady_def)
  obtain km where kmp: "keymap_at (the (en_setting e1)) (en_currentKeymap e1) = Inr km" "km_modAssignments km = (\<lambda>_. [])"
    by (rule steady_keymap [OF e1(1) ls])
  define cu where "cu = \<lparr>cu_keymap = en_currentKeymap e,
    cu_mkey = (ModifiedKey_of (KeyAt i))\<lparr>mk_modifier := getCurrentModifiers (st_keyboard (the (en_setting e1))) km ?r p e1\<rparr>,
    cu_evdev = c\<rparr>"
  define e2 where "e2 = (if p then e1\<lparr>en_oneShotKey := (en_oneShotKey e1)\<lparr>mk_key := None\<rparr>\<rparr> else e1)"
  have e2: "steady st e2" "en_injected e2 = en_injected e" "kb_of e2 = kb_of e1" "en_modifierState e2 = en_modifierState e"
    "en_eventProcessor e2 = Some ep"
    using e1(1) cp(2-4) ep by (simp_all add: e2_def steady_def live_def kb_of_def)
  have cu: "mk_key (cu_mkey cu) = ?r" "isPressed (mk_modifier (cu_mkey cu)) Type_Down = p" "cu_evdev cu = c"
    by (simp_all add: cu_def ModifiedKey_of_def current_modifiers_down)
  have pre: "\<not> en_isPrefix e1" "\<not> en_isLogMode e1" using e1(1) by (simp_all add: steady_def)
  have "handle_key env kev ?kid ?r e =
      run_bind (dispatch_key env ?kid cu False AM_notModifier p (the (en_setting e1)) e1) release_unused_modifiers"
    by (simp only: handle_key_def Let_def p [symmetric] e1_def [symmetric] setting_of_live [OF e1(2)] run_bind_simps
        kmp(1) fix_no_assignments [OF kmp(2)] prod.case option.case pre simp_thms if_False code [symmetric] cu_def [symmetric])
  moreover have "dispatch_key env ?kid cu False AM_notModifier p (the (en_setting e1)) e1 =
      beginGeneratingKeyboardEvents env cu False e2"
    using pre cu(1) by (simp add: dispatch_key_def e2_def Let_def)
  ultimately have run: "handle_event env kev e =
      run_bind (beginGeneratingKeyboardEvents env cu False e2) release_unused_modifiers"
    by (simp add: steady_lookup [OF sd ld cd kev] code [symmetric] k)
  have down: "codes_down st e2 = codes_down st e"
    using cp(5) [OF refl] steady_key_ok [OF sd, of i] i(1) by (simp add: codes_down_def key_on_def e2(3))
  have nz: "cu_evdev cu \<noteq> 0" using kev by (simp add: cu(3) from_reader_def code)
  have own: "cu_evdev cu = code_at ?kb i" using i(2) cu(3) by simp
  define e3 where "e3 = e2\<lparr>en_eventProcessor := Some ep', en_modifierState := s'\<rparr>"
  have e3: "steady st e3" "en_injected e3 = en_injected e" "codes_down st e3 = codes_down st e"
    "en_eventProcessor e3 = Some ep'" "en_modifierState e3 = s'"
    using e2 down by (simp_all add: e3_def steady_def live_def kb_of_def codes_down_def key_on_def)
  have quiet2: "hasActiveVirtualModifiers e2 \<Longrightarrow> unassigned st (cu_evdev cu)"
    using quiet cu(3) by (simp add: hasActiveVirtualModifiers_def e2(4))
  have pe2: "processEvent (env_ev env) (env_layout env) (env_clock_a env) (env_clock_b env) (cu_evdev cu)
      (if p then PRESS else RELEASE) ep (Some (en_modifierState e2)) = (r, ep', Some s')"
    using pe by (simp only: cu(3) e2(4))
  obtain k where k: "outcome st c r = map_option (code_at ?kb) k" "\<And>j. k = Some j \<Longrightarrow> j < length (kb_store ?kb)"
    and run3: "beginGeneratingKeyboardEvents env cu False e2 =
      (case k of None \<Rightarrow> Inr e3 | Some j \<Rightarrow> generateKeyEvent (KeyAt j) p False e3)"
    using steady_begin [OF e2(1) ld cd i(1) own nz cu(1,2) e2(5) pe2 assms(10) quiet2 e3_def, of False]
    unfolding cu(3) by blast
  show ?thesis
  proof (cases k)
    case None
    then show ?thesis using e3 k(1) steady_unused [OF e3(1) ld] by (simp add: run run3 emit_def)
  next
    case (Some j)
    have lv3: "live e3" using e3(1) by (simp add: steady_def)
    have j: "j < length (kb_store ?kb)" using k(2) Some by simp
    then have jok: "key_ok (kb_of e3) (KeyAt j)" using steady_key_ok [OF e3(1)] by simp
    obtain e4 where e4: "generateKeyEvent (KeyAt j) p False e3 = Inr e4" using generateKeyEvent_ok [OF lv3] by blast
    note eff = generateKeyEvent_effect [OF lv3 jok e4]
    note st4 = steady_generate [OF e3(1) jok e4]
    have sc: "m_scanCodes (get_key (kb_of e3) (KeyAt j)) = [\<lparr>m_scan = code_at ?kb j, m_flags = 0\<rparr>]"
      using loaded_code_at [OF ld _ j] e3(1) by (simp add: get_key_def steady_def)
    have "codes_down st e4 = (if p then insert (code_at ?kb j) (codes_down st e) else codes_down st e - {code_at ?kb j})"
      using codes_down_generate [OF ld cd j eff(2)] e3(3) by simp
    moreover have "key_on e3 (KeyAt j) \<longleftrightarrow> code_at ?kb j \<in> codes_down st e"
      using codes_down_iff [OF ld cd j, of e3] e3(3) by simp
    ultimately show ?thesis
      using eff(5) sc e3 k(1) st4 steady_unused [OF st4(1) ld] by (simp add: run run3 Some e4 emit_def)
  qed
qed

text \<open>An event of a key that is not a trigger, while no virtual modifier is on.\<close>

lemma remap_event:
  assumes rm: "remapping st e" and ls: "loaded_setting st" and cd: "codes_distinct (st_keyboard st)"
    and kev: "from_reader kev" and p: "p = ke_isKeyDown kev" and code: "c = ucast (ke_scanCode kev)"
    and t: "evdevToYamyKeyCode (env_ev env) c \<notin> trigger_codes st"
  shows "\<exists>e'. handle_event env kev e = Inr e' \<and> remapping st e' \<and>
    (codes_down st e', en_injected e') =
      remap_step (env_ev env) (env_layout env) st (c, p) (codes_down st e, en_injected e)"
proof (cases "c \<in> kb_codes (st_keyboard st)")
  case False
  then have "handle_event env kev e = Inr e" "out_code (env_ev env) (env_layout env) st c = None"
    using undefined_key_event [OF _ ls cd kev] rm by (simp_all add: remapping_def code out_code_def Let_def)
  with rm show ?thesis by (simp add: remap_step_def emit_def)
next
  case True
  let ?k = "evdevToYamyKeyCode (env_ev env) c" and ?s = "en_modifierState e"
  obtain ep where ep: "en_eventProcessor e = Some ep" "remap_processor st ep" and s0: "ms_state ?s = 0"
    and sd: "steady st e" using rm by (auto simp: remapping_def)
  obtain ep' r where pe: "processEvent (env_ev env) (env_layout env) (env_clock_a env) (env_clock_b env)
      c (if p then PRESS else RELEASE) ep (Some ?s) = (r, ep', Some ?s)" and rp: "remap_processor st ep'"
    and r: "if ?k = 0 \<or> layer3_yamyToEvdev (env_ev env) (env_layout env) (mapped_code st ?k) = 0 then output_evdev r = 0
     else output_evdev r \<noteq> 0 \<and> output_yamy r = mapped_code st ?k \<and> pe_valid r \<and> \<not> is_tap r"
    using remap_processEvent [OF ep(2) s0 t] unfolding Let_def by blast
  have "mapped_code st ?k \<noteq> 0" if "layer3_yamyToEvdev (env_ev env) (env_layout env) (mapped_code st ?k) \<noteq> 0"
    using that by (auto simp: layer3_zero)
  then have "plain_result r" "outcome st c r = out_code (env_ev env) (env_layout env) st c"
    using r True by (auto simp: plain_result_def outcome_def out_code_def Let_def split: if_splits)
  with steady_event [OF sd ls cd kev p code True ep(1) pe] no_active_mods [OF s0] s0 rp
  show ?thesis by (auto simp: remapping_def remap_step_def)
qed

section \<open>Runs\<close>

lemma remap_events:
  assumes "loaded_setting st" "codes_distinct (st_keyboard st)"
    and "list_all (\<lambda>(env, kev). env_ev env = ev \<and> env_layout env = layout \<and> from_reader kev) q"
    and "list_all (\<lambda>(c, p). evdevToYamyKeyCode ev c \<notin> trigger_codes st) (key_moves q)"
    and "remapping st e"
  shows "\<exists>e'. handle_events q e = Inr e' \<and> remapping st e' \<and>
    (codes_down st e', en_injected e') = fold (remap_step ev layout st) (key_moves q) (codes_down st e, en_injected e)"
  using assms(3-5)
proof (induction q arbitrary: e)
  case Nil
  then show ?case by (simp add: handle_events_def key_moves_def)
next
  case (Cons x q)
  obtain env kev where x: "x = (env, kev)" by (cases x)
  have t: "evdevToYamyKeyCode ev (ucast (ke_scanCode kev)) \<notin> trigger_codes st"
    using Cons.prems(2) by (simp add: key_moves_def x)
  from Cons.prems(1) have kev: "from_reader kev" and env: "env_ev env = ev" "env_layout env = layout" by (simp_all add: x)
  obtain e1 where e1: "handle_event env kev e = Inr e1" "remapping st e1"
    "(codes_down st e1, en_injected e1) =
       remap_step ev layout st (ucast (ke_scanCode kev), ke_isKeyDown kev) (codes_down st e, en_injected e)"
    using remap_event [OF Cons.prems(3) assms(1,2) kev refl refl, of env] env t by auto
  obtain e2 where "handle_events q e1 = Inr e2" "remapping st e2"
    "(codes_down st e2, en_injected e2) = fold (remap_step ev layout st) (key_moves q) (codes_down st e1, en_injected e1)"
    using Cons.IH [OF _ _ e1(2)] Cons.prems(1,2) by (auto simp: key_moves_def)
  with e1 show ?case
    by (intro exI [of _ e2]) (simp add: handle_events_def key_moves_def x)
qed

lemma key_queue_ok:
  assumes "list_all (\<lambda>(env, iev). env_ev env = ev \<and> env_layout env = layout) evs"
  shows "list_all (\<lambda>(env, kev). env_ev env = ev \<and> env_layout env = layout \<and> from_reader kev) (key_queue abi evs)"
  using assms reader_event_from
  by (induction evs) (auto simp: key_queue_def List.map_filter_simps split: option.split)

lemma remapping_start:
  assumes "loaded_setting st" "codes_distinct (st_keyboard st)" "st_keymaps st \<noteq> []"
  shows "\<exists>e0. setSetting ev layout st (new_Engine a b) = Inr (True, e0) \<and> remapping st e0 \<and>
    codes_down st e0 = {} \<and> en_injected e0 = []"
proof -
  obtain e0 where e0: "setSetting ev layout st (new_Engine a b) = Inr (True, e0)" "eng_inv e0" "en_setting e0 = Some st"
      "en_modifierState e0 = new_ModifierState" "en_injected e0 = []" "en_isEnabled e0" "\<not> en_isLogMode e0"
      "\<not> en_isPrefix e0" "\<exists>i<length (st_keymaps st). en_currentKeymap e0 = Some i"
      "en_eventProcessor e0 = Some (build_processor ev layout (st_keyboard st) (Some st) (st_keySeqs st) (global_keymap st))"
    using setSetting_loaded [OF assms(1,2), of ev layout a b] assms(3) by blast
  have "live e0" using e0(2) by (simp add: eng_inv_def good_engine_def)
  then have "remapping st e0"
    using e0 build_processor_remap [OF assms(1)] by (simp add: remapping_def steady_def kb_of_def new_ModifierState_def)
  moreover have "\<not> key_on e0 (KeyAt i)" if "i < length (kb_store (st_keyboard st))" for i
    using loaded_key_up [of "st_keyboard st" "KeyAt i"] assms(1) that e0(3)
    by (simp add: loaded_setting_def key_on_def kb_of_def key_ok_store)
  then have "codes_down st e0 = {}" by (auto simp: codes_down_def)
  ultimately show ?thesis using e0(1,5) by blast
qed

lemma refines:
  assumes "load_config config new_Setting = Some st" "codes_distinct (st_keyboard st)"
    and "st_keymaps st \<noteq> []" "list_all (\<lambda>(env, iev). env_ev env = ev \<and> env_layout env = layout) evs"
    and "list_all (\<lambda>(c, p). evdevToYamyKeyCode ev c \<notin> trigger_codes st) (key_moves (key_queue abi evs))"
  shows "\<exists>e0 e. setSetting ev layout st (new_Engine a b) = Inr (True, e0) \<and>
    handle_events (key_queue abi evs) e0 = Inr e \<and>
    (codes_down st e, en_injected e) = remap_spec ev layout st (key_moves (key_queue abi evs))"
proof -
  have ld: "loaded_setting st"
    by (rule load_config_inv [OF assms(1) new_Setting_loaded]) (simp_all add: new_Setting_def)
  obtain e0 where e0: "setSetting ev layout st (new_Engine a b) = Inr (True, e0)" "remapping st e0"
    "codes_down st e0 = {}" "en_injected e0 = []"
    using remapping_start [OF ld assms(2,3)] by blast
  show ?thesis
    using remap_events [OF ld assms(2) key_queue_ok [OF assms(4)] assms(5) e0(2)] e0 by (simp add: remap_spec_def) blast
qed

text \<open>C1: The program remaps keys. For a loaded configuration with at least one keymap (a mappings
  section) and distinct scan codes, whatever the keyboard sends other than keys that trigger a virtual
  modifier, the reader thread and the engine handle every event without failing, and what comes out is
  what the small remapping machine says: the code is converted once more, mapped by the first mapping
  that needs no modifier, and the press or release of the resulting key, or of the key itself when the
  result is not defined, is injected; the keys the engine believes to be down are those of the
  machine.\<close>

theorem engine_refines_remapper:
  assumes "load_config config new_Setting = Some st" "codes_distinct (st_keyboard st)"
    and "st_keymaps st \<noteq> []" "list_all (\<lambda>(env, iev). env_ev env = ev \<and> env_layout env = layout) evs"
    and "list_all (\<lambda>(c, p). evdevToYamyKeyCode ev c \<notin> trigger_codes st) (key_moves (key_queue abi evs))"
  shows "\<exists>e0 e. setSetting ev layout st (new_Engine a b) = Inr (True, e0) \<and>
    handle_events (key_queue abi evs) e0 = Inr e \<and>
    (codes_down st e, en_injected e) = remap_spec ev layout st (key_moves (key_queue abi evs))"
  by (rule refines [OF assms])

subsection \<open>Nothing sticks\<close>

text \<open>The codes whose last event is a press.\<close>

definition held_step :: "u16 \<times> bool \<Rightarrow> u16 set \<Rightarrow> u16 set" where
  "held_step = (\<lambda>(c, pressed) S. if pressed then insert c S else S - {c})"

definition codes_held :: "(u16 \<times> bool) list \<Rightarrow> u16 set" where
  "codes_held ins = fold held_step ins {}"

definition caused :: "(evkey \<Rightarrow> u16) \<Rightarrow> string \<Rightarrow> Setting \<Rightarrow> u16 set \<Rightarrow> u16 set" where
  "caused ev layout st S = {out. \<exists>c\<in>S. out_code ev layout st c = Some out}"

lemma remap_step_caused:
  assumes "fst s \<subseteq> caused ev layout st S"
  shows "fst (remap_step ev layout st x s) \<subseteq> caused ev layout st (held_step x S)"
proof
  fix out assume out: "out \<in> fst (remap_step ev layout st x s)"
  obtain c p down sent where x: "x = (c, p)" "s = (down, sent)" by (cases x; cases s) blast
  show "out \<in> caused ev layout st (held_step x S)"
  proof (cases "p \<and> out_code ev layout st c = Some out")
    case True
    then show ?thesis by (auto simp: x held_step_def caused_def)
  next
    case False
    with out have "out \<in> down" and other: "out_code ev layout st c \<noteq> Some out \<or> p"
      by (auto simp: x remap_step_def emit_def split: option.splits if_splits)
    then obtain d where "d \<in> S" "out_code ev layout st d = Some out" using assms by (auto simp: x caused_def)
    with other show ?thesis by (auto simp: x held_step_def caused_def)
  qed
qed

lemma remap_step_os_down:
  assumes "os_down (snd s) = (\<lambda>c. (c, 0)) ` fst s"
  shows "os_down (snd (remap_step ev layout st x s)) = (\<lambda>c. (c, 0)) ` fst (remap_step ev layout st x s)"
proof -
  obtain c p down sent where x: "x = (c, p)" "s = (down, sent)" by (cases x; cases s) blast
  have d: "os_down sent = (\<lambda>c. (c, 0)) ` down" using assms by (simp add: x)
  have "os_down (sent @ [Inject (kid_of \<lparr>m_scan = out, m_flags = 0\<rparr> q)]) =
      (if q then insert (out, 0) (os_down sent) else os_down sent - {(out, 0)})" for out q
    using os_sent [of "[\<lparr>m_scan = out, m_flags = 0\<rparr>]" sent q] by (simp add: code_of_def)
  then show ?thesis
    by (cases p) (auto simp: x d remap_step_def emit_def split: option.splits)
qed

lemma remap_fold_os_down:
  "os_down (snd s) = (\<lambda>c. (c, 0)) ` fst s \<Longrightarrow>
     os_down (snd (fold (remap_step ev layout st) ins s)) = (\<lambda>c. (c, 0)) ` fst (fold (remap_step ev layout st) ins s)"
  by (induction ins arbitrary: s) (simp_all add: remap_step_os_down)

text \<open>A code that is down stays down while no event comes out as it.\<close>

lemma remap_fold_stays:
  "list_all (\<lambda>(c, p). out_code ev layout st c \<noteq> Some d) ins \<Longrightarrow> d \<in> fst s \<Longrightarrow>
     d \<in> fst (fold (remap_step ev layout st) ins s)"
proof (induction ins arbitrary: s)
  case (Cons x ins)
  obtain c p where x: "x = (c, p)" by (cases x)
  have "d \<in> fst (remap_step ev layout st x s)"
    using Cons.prems by (cases s) (auto simp: x remap_step_def emit_def split: option.splits)
  with Cons show ?case by simp
qed simp

lemma remap_spec_held: "fst (remap_spec ev layout st ins) \<subseteq> caused ev layout st (codes_held ins)"
  unfolding remap_spec_def codes_held_def
  by (induction ins rule: rev_induct) (simp_all add: caused_def [of _ _ _ "{}"] remap_step_caused)

lemma remap_spec_os_down: "os_down (snd (remap_spec ev layout st ins)) = (\<lambda>c. (c, 0)) ` fst (remap_spec ev layout st ins)"
  unfolding remap_spec_def by (rule remap_fold_os_down) (simp add: os_down_def)

text \<open>C2: No key sticks. For a loaded configuration with at least one keymap (a mappings section) and
  distinct scan codes, and without keys that trigger virtual modifiers, a code is down on the system
  only if some code that maps to it is held down on the keyboard; so once every key of the keyboard is
  up, whatever was pressed, in whatever order, and however the keys are mapped, nothing is down on the
  system, and the engine believes so too.\<close>

theorem no_key_sticks:
  assumes "load_config config new_Setting = Some st" "codes_distinct (st_keyboard st)"
    and "st_keymaps st \<noteq> []" "list_all (\<lambda>(env, iev). env_ev env = ev \<and> env_layout env = layout) evs"
    and "list_all (\<lambda>(c, p). evdevToYamyKeyCode ev c \<notin> trigger_codes st) (key_moves (key_queue abi evs))"
  shows "\<exists>e0 e. setSetting ev layout st (new_Engine a b) = Inr (True, e0) \<and>
    handle_events (key_queue abi evs) e0 = Inr e \<and>
    codes_down st e \<subseteq> caused ev layout st (codes_held (key_moves (key_queue abi evs))) \<and>
    os_down (en_injected e) = (\<lambda>c. (c, 0)) ` codes_down st e \<and>
    (codes_held (key_moves (key_queue abi evs)) = {} \<longrightarrow> os_down (en_injected e) = {})"
proof -
  obtain e0 e where e: "setSetting ev layout st (new_Engine a b) = Inr (True, e0)"
    "handle_events (key_queue abi evs) e0 = Inr e"
    "(codes_down st e, en_injected e) = remap_spec ev layout st (key_moves (key_queue abi evs))"
    using refines [OF assms] by blast
  note spec = remap_spec_held [of ev layout st "key_moves (key_queue abi evs)"]
    remap_spec_os_down [of ev layout st "key_moves (key_queue abi evs)"]
  from spec have "codes_down st e \<subseteq> caused ev layout st (codes_held (key_moves (key_queue abi evs)))"
    "os_down (en_injected e) = (\<lambda>c. (c, 0)) ` codes_down st e"
    by (simp_all add: e(3) [symmetric])
  with e(1,2) show ?thesis by (intro exI conjI) (auto simp: caused_def)
qed

section \<open>The virtual device follows the engine\<close>

text \<open>C4: The virtual device holds down what the engine believes. Take a loaded configuration whose scan
  codes are distinct, output tables that give every configured code an evdev code of its own that is
  no mouse button, and an engine that is enabled and has a keymap whenever an event comes. After any
  sequence of key events and resets, carrying out everything the engine asked of the injector, which
  did not fail, leaves the evdev code of a scan code down in the kernel exactly when the engine has
  its key flagged as pressed on the system.\<close>

theorem virtual_device_follows_engine:
  assumes "load_config config new_Setting = Some st" "codes_distinct (st_keyboard st)"
    and "setSetting ev layout st (new_Engine p q) = Inr (True, e0)" "engine_reach e0 e"
    and "abi_ok abi" "codes_apart abi layout (kb_codes (st_keyboard st))"
    and "do_calls abi layout (en_injected e) new_Injector = Inr i"
    and "key_ok (st_keyboard st) k" "sc \<in> set (m_scanCodes (get_key (st_keyboard st) k))"
  shows "yamyToEvdevKeyCode (abi_ev abi) layout (m_scan sc) \<in> kernel_down abi (inj_written i) \<longleftrightarrow> key_on e k"
proof -
  let ?kb = "st_keyboard st"
  have ld: "loaded_setting st"
    by (rule load_config_inv [OF assms(1) new_Setting_loaded]) (simp_all add: new_Setting_def)
  from setSetting_loaded [OF ld assms(2), of ev layout p q] assms(3) have
    e0: "eng_inv e0" "en_setting e0 = Some st" by auto
  then have kb0: "kb_of e0 = ?kb" by (simp add: kb_of_def)
  have e: "eng_inv e" "keeps_config e0 e" using engine_reach_inv [OF e0(1) assms(4)] by simp_all
  have ok: "key_ok (kb_of e) j = key_ok ?kb j" for j using e(2) by (simp add: keeps_config_def kb0)
  have codes: "m_scanCodes (get_key (kb_of e) j) = m_scanCodes (get_key ?kb j)" if "key_ok ?kb j" for j
    using e(2) that by (simp add: keeps_config_def kb0)
  have "MakeCode kid \<in> kb_codes ?kb \<and> Flags kid AND NOT KID_BREAK = 0"
    if "Inject kid \<in> set (en_injected e)" for kid
  proof -
    have "from_key (kb_of e) kid" using e(1) that by (simp add: eng_inv_def in_step_def)
    then obtain j sc' p' where j: "key_ok ?kb j" "sc' \<in> set (m_scanCodes (get_key ?kb j))" "kid = kid_of sc' p'"
      using ok codes by (auto simp: from_key_def)
    have "m_flags sc' = 0" using loaded_flags j(1,2) ld by (auto simp: loaded_setting_def)
    then show ?thesis using j by (auto simp: kb_codes_def kid_of_def)
  qed
  from do_calls_follow [OF assms(5,6) this assms(7)]
  have "yamyToEvdevKeyCode (abi_ev abi) layout (m_scan sc) \<in> kernel_down abi (inj_written i) \<longleftrightarrow>
      (m_scan sc, 0) \<in> os_down (en_injected e)"
    using assms(8,9) by (auto simp: kb_codes_def)
  also have "(m_scan sc, 0) = code_of sc"
    using loaded_flags [OF _ assms(8,9)] ld by (simp add: loaded_setting_def code_of_def)
  also have "code_of sc \<in> os_down (en_injected e) \<longleftrightarrow> key_on e k"
    using e(1) assms(8,9) ok codes by (simp add: eng_inv_def in_step_def)
  finally show ?thesis .
qed

section \<open>Witnesses\<close>

lemma ex_loaded_remap:
  "map_option (\<lambda>st. (st_virtualModTriggers st, map_option forEachAssignment (global_keymap st)))
     (load_config ex_config new_Setting) = Some ([], Some
       [\<lparr>ka_modifiedKey = ModifiedKey_of (KeyAt 0), ka_keySeq = 1\<rparr>, \<lparr>ka_modifiedKey = ex_shift_A, ka_keySeq = 0\<rparr>])"
  by code_simp

lemma ex_loaded_plain: "st_virtualModTriggers ex_loaded = []" "st_keymaps ex_loaded \<noteq> []"
  using ex_loaded_remap ex_loaded_keymaps unfolding ex_loads by auto

lemma ex_from_holds: "from_holds (ModifiedKey_of k) 0"
proof -
  have "list_all (generic_holds new_Modifier 0) generic_table" "list_all (specific_holds new_Modifier 0) (specific_table @ lock_table)"
    by code_simp+
  then show ?thesis by (simp add: from_holds_def ModifiedKey_of_def isVirtualModActive_def)
qed

lemma ex_mapped: "mapped_code ex_loaded 0x1E = 0x30"
proof -
  let ?kb = "st_keyboard ex_loaded"
  have codes: "input_code ?kb (Some (KeyAt 0)) = Some 0x1E" "m_scanCodes (get_key ?kb (KeyAt 1)) = [\<lparr>m_scan = 0x30, m_flags = 0\<rparr>]"
    using ex_loaded_keys by (simp_all add: input_code_def)
  have seqs: "sq_actions (st_keySeqs ex_loaded ! 1) =
      [ActionKey ((ModifiedKey_of (KeyAt 1))\<lparr>mk_modifier := press Type_Shift new_Modifier\<rparr>)]"
    using arg_cong [OF ex_loaded_seqs, of "\<lambda>xs. xs ! 1"] ex_loaded_keymaps by simp
  obtain g where g: "global_keymap ex_loaded = Some g" "forEachAssignment g =
      [\<lparr>ka_modifiedKey = ModifiedKey_of (KeyAt 0), ka_keySeq = 1\<rparr>, \<lparr>ka_modifiedKey = ex_shift_A, ka_keySeq = 0\<rparr>]"
    using ex_loaded_remap unfolding ex_loads by auto
  have "m_substitutes ?kb = []" using ex_loaded_setting by (simp add: loaded_setting_def loaded_kb_def)
  then have "\<exists>rest. mappings_of ?kb (st_keySeqs ex_loaded) (global_keymap ex_loaded) =
      \<lparr>me_code = 0x1E, me_from = ModifiedKey_of (KeyAt 0), me_out = 0x30\<rparr> # rest"
    using codes seqs by (simp add: mappings_of_def g assignment_mapping_def ModifiedKey_of_def output_code_def)
  then show ?thesis using ex_from_holds by (auto simp: mapped_code_def)
qed

text \<open>Key A, pressed and released.\<close>

definition ex_press_A :: "bool \<Rightarrow> input_event" where
  "ex_press_A p = \<lparr>ie_type = 1, ie_code = linux_ev KEY_A, ie_value = (if p then 1 else 0)\<rparr>"

definition ex_events :: "(event_env \<times> input_event) list" where
  "ex_events = [(ex_env, ex_press_A True), (ex_env, ex_press_A False)]"

definition ex_kev :: "bool \<Rightarrow> KeyEvent" where
  "ex_kev p = \<lparr>ke_isKeyDown = p, ke_isExtended = False, ke_scanCode = 0x1E, ke_extraInfo = 0\<rparr>"

lemma ex_env_ok: "list_all (\<lambda>(env, iev). env_ev env = linux_ev \<and> env_layout env = ''us'') ex_events"
  by (simp add: ex_events_def ex_env_def)

lemma ex_code: "evdevToYamyKeyCode linux_ev 0x1E = 0x1E"
  by (simp add: linux_lookup linux_tree_def)

lemma ex_reads: "reader_event linux_abi (ex_press_A p) = Some (ex_kev p)"
proof -
  have "linux_ev KEY_A = 0x1E" by (simp add: linux_ev_def linux_codes_def evkey_count_def KEY_A_def)
  then show ?thesis using ex_code by (simp add: reader_event_def ex_press_A_def linux_abi_def ex_kev_def)
qed

lemma ex_moves: "key_moves (key_queue linux_abi ex_events) = [(0x1E, True), (0x1E, False)]"
  by (simp add: ex_events_def key_queue_def key_moves_def List.map_filter_simps ex_reads ex_kev_def)

lemma ex_out: "out_code linux_ev ''us'' ex_loaded 0x1E = Some 0x30"
proof -
  have "0x1E \<in> kb_codes (st_keyboard ex_loaded)" "0x30 \<in> kb_codes (st_keyboard ex_loaded)"
    using ex_loaded_keys by (force simp: kb_codes_def)+
  moreover have "yamyToEvdevKeyCode linux_ev ''us'' 0x30 = 48"
    by (simp add: yamyToEvdev_out_key out_key_tree us_tree_def linux_ev_def evkey_count_def linux_codes_def KEY_defs)
  then have "layer3_yamyToEvdev linux_ev ''us'' 0x30 \<noteq> 0"
    by (simp add: layer3_yamyToEvdev_def isVirtualKey_def isModifier_def isLock_def
        YAMY_VIRTUAL_KEY_BASE_def YAMY_MOD_00_def YAMY_LOCK_00_def)
  ultimately show ?thesis by (simp add: out_code_def ex_code ex_mapped)
qed

lemma ex_no_triggers:
  "list_all (\<lambda>(c, p). evdevToYamyKeyCode linux_ev c \<notin> trigger_codes ex_loaded) (key_moves (key_queue linux_abi ex_events))"
  by (simp add: ex_moves trigger_codes_def ex_loaded_plain(1))

theorem engine_refines_remapper_witness:
  "\<exists>e0 e. setSetting linux_ev ''us'' ex_loaded (new_Engine False False) = Inr (True, e0) \<and>
     handle_events (key_queue linux_abi ex_events) e0 = Inr e \<and>
     en_injected e = [Inject (kid_of \<lparr>m_scan = 0x30, m_flags = 0\<rparr> True), Inject (kid_of \<lparr>m_scan = 0x30, m_flags = 0\<rparr> False)]"
  using engine_refines_remapper [OF ex_loads ex_loaded_codes ex_loaded_plain(2) ex_env_ok ex_no_triggers, of False False]
  by (simp add: ex_moves remap_spec_def remap_step_def emit_def ex_out) blast

theorem no_key_sticks_witness:
  "\<exists>e0 e. setSetting linux_ev ''us'' ex_loaded (new_Engine False False) = Inr (True, e0) \<and>
     handle_events (key_queue linux_abi ex_events) e0 = Inr e \<and> os_down (en_injected e) = {}"
  using no_key_sticks [OF ex_loads ex_loaded_codes ex_loaded_plain(2) ex_env_ok ex_no_triggers, of False False]
  by (simp add: ex_moves codes_held_def held_step_def) blast

text \<open>After the press of A, which the configuration maps to B, the virtual device holds B's code.\<close>

theorem virtual_device_follows_engine_witness:
  "\<exists>e0 e i. setSetting linux_ev ''us'' ex_loaded (new_Engine False False) = Inr (True, e0) \<and>
     handle_events (key_queue linux_abi [(ex_env, ex_press_A True)]) e0 = Inr e \<and>
     do_calls linux_abi ''us'' (en_injected e) new_Injector = Inr i \<and>
     48 \<in> kernel_down linux_abi (inj_written i) \<and> key_on e (KeyAt 1)"
proof -
  have kev: "key_queue linux_abi [(ex_env, ex_press_A True)] = [(ex_env, ex_kev True)]"
    using ex_reads [of True] by (simp add: key_queue_def List.map_filter_simps)
  have mv: "key_moves [(ex_env, ex_kev True)] = [(0x1E, True)]"
    by (simp add: key_moves_def ex_kev_def)
  have envs: "list_all (\<lambda>(env, iev). env_ev env = linux_ev \<and> env_layout env = ''us'') [(ex_env, ex_press_A True)]"
    by (simp add: ex_env_def)
  have quiet: "list_all (\<lambda>(c, p). evdevToYamyKeyCode linux_ev c \<notin> trigger_codes ex_loaded)
      (key_moves (key_queue linux_abi [(ex_env, ex_press_A True)]))"
    by (simp add: kev mv trigger_codes_def ex_loaded_plain(1))
  obtain e0 e where e: "setSetting linux_ev ''us'' ex_loaded (new_Engine False False) = Inr (True, e0)"
    "handle_event ex_env (ex_kev True) e0 = Inr e" "en_injected e = [Inject (kid_of \<lparr>m_scan = 0x30, m_flags = 0\<rparr> True)]"
    using refines [OF ex_loads ex_loaded_codes ex_loaded_plain(2) envs quiet, of False False]
    by (auto simp: kev mv handle_events_def run_bind_Inr remap_spec_def remap_step_def emit_def ex_out)
  have e0: "en_isEnabled e0" "en_currentKeymap e0 \<noteq> None"
    using e(1) setSetting_loaded [OF ex_loaded_setting ex_loaded_codes, of linux_ev "''us''" False False]
      ex_loaded_keymaps by (fastforce)+
  have reach: "engine_reach e0 e"
    by (rule engine_reach.event [OF engine_reach.start e0 _ e(2), of 3]) (simp add: ex_env_def)
  have out: "yamyToEvdevKeyCode linux_ev ''us'' 0x30 = 48"
    by (simp add: yamyToEvdev_out_key out_key_tree us_tree_def linux_ev_def evkey_count_def linux_codes_def KEY_defs)
  let ?i = "write_key linux_abi 48 True new_Injector"
  have calls: "do_calls linux_abi ''us'' (en_injected e) new_Injector = Inr ?i"
    by (simp add: e(3) do_calls_def do_call_def inject_def new_Injector_def kid_of_def linux_abi_def out KID_E1_def
        KID_BREAK_def)
  have key: "key_ok (st_keyboard ex_loaded) (KeyAt 1)"
    "\<lparr>m_scan = 0x30, m_flags = 0\<rparr> \<in> set (m_scanCodes (get_key (st_keyboard ex_loaded) (KeyAt 1)))"
    using ex_loaded_keys by simp_all
  have down: "48 \<in> kernel_down linux_abi (inj_written ?i)"
    by (simp add: kernel_key_step [OF linux_abi_ok])
  have "48 \<in> kernel_down linux_abi (inj_written ?i) \<longleftrightarrow> key_on e (KeyAt 1)"
    using virtual_device_follows_engine [OF ex_loads ex_loaded_codes e(1) reach linux_abi_ok ex_codes_apart calls key] out
    by (simp add: linux_abi_def)
  with down e(1,2) calls show ?thesis
    by (intro exI conjI) (simp_all add: kev handle_events_def run_bind_Inr)
qed

end
