(* ===== verification/Stuck_Key.thy ===== *)
theory Stuck_Key
  imports Remapping
begin

text \<open>
  Letting go of a virtual modifier before the key it changed: the mapped key stays down.
\<close>

unbundle bit_operations_syntax

section \<open>A configuration\<close>

text \<open>Caps Lock is M00, and H gives L while it is held.\<close>

definition vm_config :: json where
  "vm_config = JObject [(''version'', JString ''2.0''),
     (''keyboard'', JObject [(''keys'', JObject [(''Caps'', JString ''0x3a''), (''H'', JString ''0x23''), (''L'', JString ''0x26'')])]),
     (''virtualModifiers'', JObject [(''M00'', JObject [(''trigger'', JString ''Caps'')])]),
     (''mappings'', JArray [JObject [(''from'', JString ''M00-H''), (''to'', JString ''L'')]])]"

definition vm_loaded :: Setting where
  "vm_loaded = the (load_config vm_config new_Setting)"

definition vm_from :: ModifiedKey where
  "vm_from = setVirtualMod 0 True (ModifiedKey_of (KeyAt 1))"

lemma vm_eval:
  "map_option (\<lambda>st. (map m_scanCodes (kb_store (st_keyboard st)),
      map_option forEachAssignment (global_keymap st),
      map (\<lambda>km. km_hashedKeyAssignments km ! (0x3A mod HASHED_KEY_ASSIGNMENT_SIZE)) (st_keymaps st),
      map sq_actions (st_keySeqs st), st_virtualModTriggers st, st_modTapActions st)) (load_config vm_config new_Setting) =
   Some ([[\<lparr>m_scan = 0x3A, m_flags = 0\<rparr>], [\<lparr>m_scan = 0x23, m_flags = 0\<rparr>], [\<lparr>m_scan = 0x26, m_flags = 0\<rparr>]],
     Some [\<lparr>ka_modifiedKey = vm_from, ka_keySeq = 0\<rparr>], [[]], [[ActionKey (ModifiedKey_of (KeyAt 2))]], [(0x3A, 0)], [])"
  by code_simp

lemma vm_loads: "load_config vm_config new_Setting = Some vm_loaded"
  using vm_eval by (auto simp: vm_loaded_def)

lemmas vm_facts = vm_eval [unfolded vm_loads option.map option.inject prod.inject]

lemma vm_setting: "loaded_setting vm_loaded"
  by (rule load_config_inv [OF vm_loads new_Setting_loaded]) (simp_all add: new_Setting_def)

lemma vm_keymaps: "st_keymaps vm_loaded \<noteq> []" "unassigned vm_loaded 0x3A"
proof -
  show "st_keymaps vm_loaded \<noteq> []" using vm_facts by auto
  have "km_hashedKeyAssignments km ! (0x3A mod HASHED_KEY_ASSIGNMENT_SIZE) = []" if "km \<in> set (st_keymaps vm_loaded)" for km
    using that vm_facts by (cases "st_keymaps vm_loaded") auto
  then show "unassigned vm_loaded 0x3A" by (simp add: unassigned_def)
qed

lemma vm_store: "length (kb_store (st_keyboard vm_loaded)) = 3"
  using vm_facts arg_cong [of _ _ length] by fastforce

lemma vm_code: "code_at (st_keyboard vm_loaded) 0 = 0x3A" "code_at (st_keyboard vm_loaded) (Suc 0) = 0x23"
    "code_at (st_keyboard vm_loaded) 2 = 0x26"
proof -
  have "map m_scanCodes (kb_store (st_keyboard vm_loaded)) =
      [[\<lparr>m_scan = 0x3A, m_flags = 0\<rparr>], [\<lparr>m_scan = 0x23, m_flags = 0\<rparr>], [\<lparr>m_scan = 0x26, m_flags = 0\<rparr>]]"
    using vm_facts by simp
  from arg_cong [OF this, of "\<lambda>xs. xs ! 0"] arg_cong [OF this, of "\<lambda>xs. xs ! 1"] arg_cong [OF this, of "\<lambda>xs. xs ! 2"]
  show "code_at (st_keyboard vm_loaded) 0 = 0x3A" "code_at (st_keyboard vm_loaded) (Suc 0) = 0x23"
    "code_at (st_keyboard vm_loaded) 2 = 0x26"
    by (simp_all add: vm_store code_at_def)
qed

lemma vm_codes: "kb_codes (st_keyboard vm_loaded) = {0x3A, 0x23, 0x26}"
proof -
  have "{..<3 :: nat} = {0, Suc 0, 2}" by auto
  then show ?thesis
    using vm_setting by (simp add: loaded_setting_def loaded_codes vm_store vm_code)
qed

lemma vm_distinct: "codes_distinct (st_keyboard vm_loaded)"
proof -
  have ld: "loaded_kb (st_keyboard vm_loaded)" using vm_setting by (simp add: loaded_setting_def)
  have "i = j" if "i < 3" "j < 3" "code_at (st_keyboard vm_loaded) i = code_at (st_keyboard vm_loaded) j" for i j
  proof -
    have "i = 0 \<or> i = Suc 0 \<or> i = 2" "j = 0 \<or> j = Suc 0 \<or> j = 2" using that(1,2) by auto
    then show ?thesis using that(3) by (elim disjE) (simp_all add: vm_code)
  qed
  then show ?thesis by (intro codes_distinct_loaded [OF ld]) (simp add: vm_store)
qed

section \<open>The mapping\<close>

lemma vm_mappings:
  "mappings_of (st_keyboard vm_loaded) (st_keySeqs vm_loaded) (global_keymap vm_loaded) =
     [\<lparr>me_code = 0x23, me_from = vm_from, me_out = 0x26\<rparr>]"
proof -
  let ?kb = "st_keyboard vm_loaded"
  have ld: "loaded_kb ?kb" using vm_setting by (simp add: loaded_setting_def)
  have codes: "m_scanCodes (get_key ?kb (KeyAt 1)) = [\<lparr>m_scan = 0x23, m_flags = 0\<rparr>]"
    "m_scanCodes (get_key ?kb (KeyAt 2)) = [\<lparr>m_scan = 0x26, m_flags = 0\<rparr>]"
    using loaded_code_at [OF ld same_keys_refl, of 1] loaded_code_at [OF ld same_keys_refl, of 2]
    by (simp_all add: get_key_def vm_store vm_code)
  obtain g where g: "global_keymap vm_loaded = Some g" "forEachAssignment g = [\<lparr>ka_modifiedKey = vm_from, ka_keySeq = 0\<rparr>]"
    using vm_facts by auto
  have seqs: "sq_actions (st_keySeqs vm_loaded ! 0) = [ActionKey (ModifiedKey_of (KeyAt 2))]"
    using vm_facts by (cases "st_keySeqs vm_loaded") auto
  have key: "mk_key vm_from = Some (KeyAt 1)" by (simp add: vm_from_def setVirtualMod_def ModifiedKey_of_def Let_def)
  have "input_code ?kb (mk_key vm_from) = Some 0x23" "output_code ?kb (ModifiedKey_of (KeyAt 2)) = 0x26"
    using codes key by (simp_all add: input_code_def output_code_def ModifiedKey_of_def)
  moreover have "m_substitutes ?kb = []" using ld by (simp add: loaded_kb_def)
  ultimately show ?thesis using seqs by (simp add: mappings_of_def g assignment_mapping_def)
qed

lemma vm_from_active: "isVirtualModActive vm_from m \<longleftrightarrow> m = 0"
  using isVirtualModActive_set [OF wf_new_ModifiedKey(2), where m = 0 and b = True] by (simp add: vm_from_def)

lemma vm_from_holds:
  assumes "\<And>i. i \<noteq> VIRTUAL_OFFSET \<Longrightarrow> \<not> bit st i"
  shows "from_holds vm_from st \<longleftrightarrow> bit st VIRTUAL_OFFSET"
proof -
  have m: "mk_modifier vm_from = new_Modifier" by (simp add: vm_from_def setVirtualMod_def ModifiedKey_of_def Let_def)
  have np: "\<not> isPressed new_Modifier t" for t by simp
  have "list_all (generic_holds new_Modifier st) generic_table"
    using assms by (simp add: generic_table_def generic_holds_def np VIRTUAL_OFFSET_def std_index_def)
  moreover have "list_all (specific_holds new_Modifier st) (specific_table @ lock_table)"
    using assms by (auto simp: specific_table_def lock_table_def specific_holds_def np VIRTUAL_OFFSET_def LOCK_OFFSET_def
        std_index_def list_all_iff)
  moreover have "(of_nat i :: u8) = 0 \<longleftrightarrow> i = 0" if "i < 256" for i
    using that by (simp add: word_of_nat_eq_0_iff dvd_eq_mod_eq_0)
  ultimately show ?thesis by (auto simp: from_holds_def m vm_from_active)
qed

lemma vm_bits: "bit (set_state_bit VIRTUAL_OFFSET True (0 :: state_bits)) i \<longleftrightarrow> i = VIRTUAL_OFFSET"
  by (auto simp: bit_set_state_bit VIRTUAL_OFFSET_def)

lemma vm_find:
  "find (\<lambda>m. me_code m = c \<and> from_holds (me_from m) st) (mappings_of (st_keyboard vm_loaded) (st_keySeqs vm_loaded)
     (global_keymap vm_loaded)) =
   (if c = 0x23 \<and> from_holds vm_from st then Some \<lparr>me_code = 0x23, me_from = vm_from, me_out = 0x26\<rparr> else None)"
  by (simp add: vm_mappings)

lemma vm_mapped: "mapped_code vm_loaded c = c"
proof -
  have "\<not> from_holds vm_from 0" using vm_from_holds [of 0] by simp
  then show ?thesis by (simp add: mapped_code_def vm_find)
qed

section \<open>The four events\<close>

text \<open>The event processor after the setting is taken, and with Caps Lock in another state.\<close>

definition caps_state :: "NumberKeyState \<Rightarrow> int \<Rightarrow> KeyState" where
  "caps_state ns t = \<lparr>ks_state = ns, ks_press_time = t, ks_target_modifier = HW_NONE, ks_is_virtual = True,
     ks_virtual_mod_num = 0, ks_tap_output = 0\<rparr>"

definition vm_processor :: "NumberKeyState \<Rightarrow> int \<Rightarrow> EventProcessor" where
  "vm_processor ns t = \<lparr>m_modifierHandler = Some ((new_ModifierKeyHandler 200)\<lparr>mh_key_states := [(0x3A, caps_state ns t)]\<rparr>),
     m_currentEventIsTap = False,
     m_lookupTable = build_table (st_keyboard vm_loaded) (st_keySeqs vm_loaded) (global_keymap vm_loaded) new_RuleLookupTable\<rparr>"

lemma vm_start:
  "build_processor ev layout (st_keyboard vm_loaded) (Some vm_loaded) (st_keySeqs vm_loaded) (global_keymap vm_loaded) =
     vm_processor IDLE 0"
proof -
  have "st_virtualModTriggers vm_loaded = [(0x3A, 0)]" "st_modTapActions vm_loaded = []"
    using vm_facts by auto
  moreover have "m_numberModifiers (st_keyboard vm_loaded) = []" using vm_setting by (simp add: loaded_setting_def loaded_kb_def)
  ultimately show ?thesis
    by (simp add: build_processor_def new_EventProcessor_def registerVirtualModifierTrigger_def on_handler_def
        mh_registerVirtualModifierTrigger_def put_key_state_def key_state_at_def new_ModifierKeyHandler_def
        new_KeyState_def vm_processor_def caps_state_def tap_output_of_def default_hold_threshold_ms_def Let_def)
qed

lemma vm_convert: "evdevToYamyKeyCode linux_ev 0x3A = 0x3A" "evdevToYamyKeyCode linux_ev 0x23 = 0x23"
    "layer3_yamyToEvdev linux_ev ''us'' 0x26 \<noteq> 0" "layer3_yamyToEvdev linux_ev ''us'' 0x23 \<noteq> 0"
proof -
  show "evdevToYamyKeyCode linux_ev 0x3A = 0x3A" "evdevToYamyKeyCode linux_ev 0x23 = 0x23"
    by (simp_all add: linux_lookup linux_tree_def)
  have "yamyToEvdevKeyCode linux_ev ''us'' 0x26 \<noteq> 0" "yamyToEvdevKeyCode linux_ev ''us'' 0x23 \<noteq> 0"
    by (simp_all add: yamyToEvdev_out_key out_key_tree us_tree_def linux_ev_def evkey_count_def linux_codes_def KEY_defs)
  then show "layer3_yamyToEvdev linux_ev ''us'' 0x26 \<noteq> 0" "layer3_yamyToEvdev linux_ev ''us'' 0x23 \<noteq> 0"
    by (simp_all add: layer3_yamyToEvdev_def isVirtualKey_def isModifier_def isLock_def YAMY_VIRTUAL_KEY_BASE_def
        YAMY_MOD_00_def YAMY_LOCK_00_def)
qed

text \<open>M00 on and off.\<close>

definition m00 :: ModifierState where
  "m00 = activateModifier 0 new_ModifierState"

lemma vm_event1:
  "processEvent linux_ev ''us'' ca (\<lambda>_. t) 0x3A PRESS (vm_processor IDLE 0) (Some new_ModifierState) =
     (\<lparr>output_evdev = 0, output_yamy = 0, pe_type = PRESS, pe_valid = False, is_tap = False\<rparr>, vm_processor WAITING t,
      Some new_ModifierState)"
  by (simp add: processEvent_def check_waiting_def checkAndActivateWaitingModifiers_def vm_processor_def caps_state_def
      apply_activations_def layer1_evdevToYamy_def vm_convert layer2_applySubstitution_def processNumberKey_def
      process_press_def put_key_state_def NumberKeyResult3_def result_output_def apply_result_def layer3_zero Let_def)

lemma vm_event2:
  assumes "t + 200000000 \<le> now"
  shows "\<exists>r. processEvent linux_ev ''us'' (\<lambda>_. now) cb 0x23 PRESS (vm_processor WAITING t) (Some new_ModifierState) =
     (r, vm_processor MODIFIER_ACTIVE t, Some m00) \<and> plain_result r \<and> outcome vm_loaded 0x23 r = Some 0x26"
proof -
  have old: "hasExceededThreshold 200 t now" using assms by (simp add: exceeded_iff)
  have chk: "check_waiting (\<lambda>_. now) (vm_processor WAITING t) (Some new_ModifierState) =
      (vm_processor MODIFIER_ACTIVE t, Some m00)"
    using old by (simp add: check_waiting_def checkAndActivateWaitingModifiers_def vm_processor_def caps_state_def
        new_ModifierKeyHandler_def apply_activations_def m00_def Let_def)
  have "ms_state m00 = set_state_bit VIRTUAL_OFFSET True 0" by (simp add: m00_def activateModifier_def new_ModifierState_def)
  then have "from_holds vm_from (ms_state m00)" using vm_from_holds [of "ms_state m00"] vm_bits by simp
  then have "map_option outputScanCode (findMatch (m_lookupTable (vm_processor MODIFIER_ACTIVE t)) 0x23 (ms_state m00)) =
      Some 0x26"
    by (simp add: vm_processor_def build_table_find vm_find)
  then have rules: "apply_rules (vm_processor MODIFIER_ACTIVE t) 0x23 (Some m00) = 0x26"
    by (auto simp: apply_rules_def split: option.splits)
  have num: "processNumberKey cb 0x23 PRESS (the (m_modifierHandler (vm_processor MODIFIER_ACTIVE t))) =
      (the (m_modifierHandler (vm_processor MODIFIER_ACTIVE t)), NumberKeyResult3 NOT_A_NUMBER_MODIFIER 0 False)"
    by (simp add: processNumberKey_def vm_processor_def)
  have h: "m_modifierHandler (vm_processor MODIFIER_ACTIVE t) = Some (the (m_modifierHandler (vm_processor MODIFIER_ACTIVE t)))"
    by (simp add: vm_processor_def)
  have l2: "layer2_applySubstitution cb 0x23 PRESS (vm_processor MODIFIER_ACTIVE t) (Some m00) =
      (0x26, vm_processor MODIFIER_ACTIVE t, Some m00)"
    using num rules
    by (simp add: layer2_applySubstitution_def h [symmetric] result_output_def apply_result_def NumberKeyResult3_def
        Let_def split: option.split) (simp add: vm_processor_def)
  have tap: "(vm_processor ns u)\<lparr>m_currentEventIsTap := False\<rparr> = vm_processor ns u" "\<not> m_currentEventIsTap (vm_processor ns u)"
    for ns u by (simp_all add: vm_processor_def)
  show ?thesis using vm_convert
    by (simp add: processEvent_def tap chk layer1_evdevToYamy_def l2 Let_def plain_result_def outcome_def vm_codes)
qed

lemma m00_off: "deactivateModifier 0 m00 = new_ModifierState"
proof -
  have "set_state_bit VIRTUAL_OFFSET False (set_state_bit VIRTUAL_OFFSET True (0 :: state_bits)) = 0"
    by (rule bit_word_eqI) (auto simp: bit_set_state_bit VIRTUAL_OFFSET_def)
  then show ?thesis by (simp add: m00_def activateModifier_def deactivateModifier_def new_ModifierState_def)
qed

lemma vm_event3:
  "processEvent linux_ev ''us'' ca cb 0x3A RELEASE (vm_processor MODIFIER_ACTIVE t) (Some m00) =
     (\<lparr>output_evdev = 0, output_yamy = 0, pe_type = RELEASE, pe_valid = False, is_tap = False\<rparr>, vm_processor IDLE t,
      Some new_ModifierState)"
  by (simp add: processEvent_def check_waiting_def checkAndActivateWaitingModifiers_def vm_processor_def caps_state_def
      apply_activations_def layer1_evdevToYamy_def vm_convert layer2_applySubstitution_def processNumberKey_def
      process_release_def put_key_state_def NumberKeyResult4_def result_output_def apply_result_def layer3_zero m00_off Let_def)

definition vm_env :: "int \<Rightarrow> event_env" where
  "vm_env t = ex_env\<lparr>env_clock_a := \<lambda>_. t, env_clock_b := \<lambda>_. t\<rparr>"

definition vm_input :: "evkey \<Rightarrow> bool \<Rightarrow> input_event" where
  "vm_input k p = \<lparr>ie_type = 1, ie_code = linux_ev k, ie_value = (if p then 1 else 0)\<rparr>"

text \<open>Caps Lock down, H down, Caps Lock up, H up, in nanoseconds.\<close>

definition vm_events :: "(event_env \<times> input_event) list" where
  "vm_events = [(vm_env 0, vm_input KEY_CAPSLOCK True), (vm_env 300000000, vm_input KEY_H True),
     (vm_env 400000000, vm_input KEY_CAPSLOCK False), (vm_env 500000000, vm_input KEY_H False)]"

definition vm_kev :: "u32 \<Rightarrow> bool \<Rightarrow> KeyEvent" where
  "vm_kev c p = \<lparr>ke_isKeyDown = p, ke_isExtended = False, ke_scanCode = c, ke_extraInfo = 0\<rparr>"

lemma vm_queue:
  "key_queue linux_abi vm_events = [(vm_env 0, vm_kev 0x3A True), (vm_env 300000000, vm_kev 0x23 True),
     (vm_env 400000000, vm_kev 0x3A False), (vm_env 500000000, vm_kev 0x23 False)]"
proof -
  have "linux_ev KEY_CAPSLOCK = 0x3A" "linux_ev KEY_H = 0x23"
    by (simp_all add: linux_ev_def linux_codes_def evkey_count_def KEY_CAPSLOCK_def KEY_H_def)
  then have "reader_event linux_abi (vm_input KEY_CAPSLOCK p) = Some (vm_kev 0x3A p)"
    "reader_event linux_abi (vm_input KEY_H p) = Some (vm_kev 0x23 p)" for p
    using vm_convert by (simp_all add: reader_event_def vm_input_def linux_abi_def vm_kev_def)
  then show ?thesis by (simp add: vm_events_def key_queue_def List.map_filter_simps)
qed

lemma vm_kev_facts: "from_reader (vm_kev 0x3A p)" "from_reader (vm_kev 0x23 p)" "ke_isKeyDown (vm_kev c p) = p"
    "ke_scanCode (vm_kev c p) = c"
  by (simp_all add: from_reader_def vm_kev_def)

lemma vm_env_facts: "env_ev (vm_env t) = linux_ev" "env_layout (vm_env t) = ''us''" "env_clock_a (vm_env t) = (\<lambda>_. t)"
    "env_clock_b (vm_env t) = (\<lambda>_. t)"
  by (simp_all add: vm_env_def ex_env_def)

lemma vm_out_code: "out_code linux_ev ''us'' vm_loaded 0x23 = Some 0x23"
  using vm_convert by (simp add: out_code_def vm_mapped vm_codes Let_def)

lemma vm_step:
  assumes "steady vm_loaded e" "en_eventProcessor e = Some ep" "en_modifierState e = ms" "from_reader (vm_kev c p)"
    and "ucast c = d" "d \<in> {0x3A, 0x23}" "hasActiveVirtualModifiers e \<Longrightarrow> d = 0x3A"
    and "processEvent linux_ev ''us'' (\<lambda>_. t) (\<lambda>_. t) d (if p then PRESS else RELEASE) ep (Some ms) = (r, ep', Some s')"
    and "plain_result r"
  shows "\<exists>e'. handle_event (vm_env t) (vm_kev c p) e = Inr e' \<and> steady vm_loaded e' \<and> en_eventProcessor e' = Some ep' \<and>
    en_modifierState e' = s' \<and>
    (codes_down vm_loaded e', en_injected e') = emit p (outcome vm_loaded d r) (codes_down vm_loaded e, en_injected e)"
proof (rule steady_event [OF assms(1) vm_setting vm_distinct assms(4) _ _ _ assms(2) _ assms(9)])
  show "p = ke_isKeyDown (vm_kev c p)" "d = ucast (ke_scanCode (vm_kev c p))" using assms(5) by (simp_all add: vm_kev_facts)
  show "d \<in> kb_codes (st_keyboard vm_loaded)" using assms(6) by (auto simp: vm_codes)
  show "unassigned vm_loaded d" if "hasActiveVirtualModifiers e" using assms(7) that vm_keymaps(2) by simp
  show "processEvent (env_ev (vm_env t)) (env_layout (vm_env t)) (env_clock_a (vm_env t)) (env_clock_b (vm_env t)) d
      (if p then PRESS else RELEASE) ep (Some (en_modifierState e)) = (r, ep', Some s')"
    using assms(3,8) by (simp add: vm_env_facts)
qed

lemma vm_run:
  "\<exists>e0 e. setSetting linux_ev ''us'' vm_loaded (new_Engine a b) = Inr (True, e0) \<and>
     handle_events (key_queue linux_abi vm_events) e0 = Inr e \<and> remapping vm_loaded e \<and>
     codes_down vm_loaded e = {0x26} \<and> en_injected e = [Inject (kid_of \<lparr>m_scan = 0x26, m_flags = 0\<rparr> True)]"
proof -
  have new: "ms_state new_ModifierState = 0" by (simp add: new_ModifierState_def)
  obtain e0 where e0: "setSetting linux_ev ''us'' vm_loaded (new_Engine a b) = Inr (True, e0)" "remapping vm_loaded e0"
    "codes_down vm_loaded e0 = {}" "en_injected e0 = []"
    using remapping_start [OF vm_setting vm_distinct vm_keymaps(1)] by blast
  have start: "en_eventProcessor e0 = Some (vm_processor IDLE 0)" "en_modifierState e0 = new_ModifierState"
    using setSetting_loaded [OF vm_setting vm_distinct, of linux_ev "''us''" a b] e0(1) by (auto simp: vm_start)
  have sd0: "steady vm_loaded e0" using e0(2) by (simp add: remapping_def)
  have pr1: "processEvent linux_ev ''us'' (\<lambda>_. 0) (\<lambda>_. 0) 0x3A (if True then PRESS else RELEASE) (vm_processor IDLE 0)
      (Some new_ModifierState) = (\<lparr>output_evdev = 0, output_yamy = 0, pe_type = PRESS, pe_valid = False, is_tap = False\<rparr>,
      vm_processor WAITING 0, Some new_ModifierState)" by (simp add: vm_event1)
  obtain e1 where e1: "handle_event (vm_env 0) (vm_kev 0x3A True) e0 = Inr e1" "steady vm_loaded e1"
    "en_eventProcessor e1 = Some (vm_processor WAITING 0)" "en_modifierState e1 = new_ModifierState"
    "codes_down vm_loaded e1 = {}" "en_injected e1 = []"
    using vm_step [OF sd0 start vm_kev_facts(1) _ _ _ pr1] e0(3,4)
    by (auto simp: plain_result_def outcome_def emit_def)
  obtain r where pr2: "processEvent linux_ev ''us'' (\<lambda>_. 300000000) (\<lambda>_. 300000000) 0x23 (if True then PRESS else RELEASE)
      (vm_processor WAITING 0) (Some new_ModifierState) = (r, vm_processor MODIFIER_ACTIVE 0, Some m00)"
    and r: "plain_result r" "outcome vm_loaded 0x23 r = Some 0x26"
    using vm_event2 [of 0 300000000 "\<lambda>_. 300000000"] by auto
  have quiet: "\<not> hasActiveVirtualModifiers e1" using no_active_mods [of e1] e1(4) new by simp
  obtain e2 where e2: "handle_event (vm_env 300000000) (vm_kev 0x23 True) e1 = Inr e2" "steady vm_loaded e2"
    "en_eventProcessor e2 = Some (vm_processor MODIFIER_ACTIVE 0)" "en_modifierState e2 = m00"
    "codes_down vm_loaded e2 = {0x26}" "en_injected e2 = [Inject (kid_of \<lparr>m_scan = 0x26, m_flags = 0\<rparr> True)]"
    using vm_step [OF e1(2-4) vm_kev_facts(2) _ _ _ pr2 r(1)] quiet e1(5,6)
    by (auto simp: r(2) emit_def)
  have pr3: "processEvent linux_ev ''us'' (\<lambda>_. 400000000) (\<lambda>_. 400000000) 0x3A (if False then PRESS else RELEASE)
      (vm_processor MODIFIER_ACTIVE 0) (Some m00) =
      (\<lparr>output_evdev = 0, output_yamy = 0, pe_type = RELEASE, pe_valid = False, is_tap = False\<rparr>,
      vm_processor IDLE 0, Some new_ModifierState)" by (simp add: vm_event3)
  obtain e3 where e3: "handle_event (vm_env 400000000) (vm_kev 0x3A False) e2 = Inr e3" "steady vm_loaded e3"
    "en_eventProcessor e3 = Some (vm_processor IDLE 0)" "en_modifierState e3 = new_ModifierState"
    "codes_down vm_loaded e3 = {0x26}" "en_injected e3 = [Inject (kid_of \<lparr>m_scan = 0x26, m_flags = 0\<rparr> True)]"
    using vm_step [OF e2(2-4) vm_kev_facts(1) _ _ _ pr3] e2(5,6)
    by (auto simp: plain_result_def outcome_def emit_def)
  have trig: "trigger_codes vm_loaded = {0x3A}" using vm_facts by (auto simp: trigger_codes_def)
  have "remap_processor vm_loaded (vm_processor IDLE 0)"
    by (simp add: remap_processor_def vm_processor_def idle_handler_def trig caps_state_def new_ModifierKeyHandler_def)
  then have rm3: "remapping vm_loaded e3" using e3(2-4) new by (simp add: remapping_def)
  have t4: "evdevToYamyKeyCode (env_ev (vm_env 500000000)) 0x23 \<notin> trigger_codes vm_loaded"
    by (simp add: vm_env_facts vm_convert trig)
  obtain e4 where e4: "handle_event (vm_env 500000000) (vm_kev 0x23 False) e3 = Inr e4" "remapping vm_loaded e4"
    "codes_down vm_loaded e4 = {0x26}" "en_injected e4 = [Inject (kid_of \<lparr>m_scan = 0x26, m_flags = 0\<rparr> True)]"
    using remap_event [OF rm3 vm_setting vm_distinct vm_kev_facts(2) _ _ t4, of False False] e3(5,6)
    by (auto simp: vm_kev_facts vm_env_facts remap_step_def emit_def vm_out_code)
  show ?thesis
    using e0(1) e1(1) e2(1) e3(1) e4 by (intro exI [of _ e0] exI [of _ e4]) (simp add: vm_queue handle_events_def)
qed

text \<open>C8: A mapped key can stay down for ever. In a configuration with Caps Lock as M00 and M00-H mapped
  to L, hold Caps Lock longer than the threshold, press H, release Caps Lock, release H: no key of
  the keyboard is down any more, but L is down on the system; and as long as the keys used
  afterwards neither trigger a modifier nor come out as L, it stays down.\<close>

theorem substituted_key_sticks:
  "\<exists>e0 e. setSetting linux_ev ''us'' vm_loaded (new_Engine a b) = Inr (True, e0) \<and>
     handle_events (key_queue linux_abi vm_events) e0 = Inr e \<and>
     codes_held (key_moves (key_queue linux_abi vm_events)) = {} \<and> os_down (en_injected e) = {(0x26, 0)} \<and>
     (\<forall>evs. list_all (\<lambda>(env, iev). env_ev env = linux_ev \<and> env_layout env = ''us'') evs \<longrightarrow>
        list_all (\<lambda>(c, p). evdevToYamyKeyCode linux_ev c \<notin> trigger_codes vm_loaded \<and>
          out_code linux_ev ''us'' vm_loaded c \<noteq> Some 0x26) (key_moves (key_queue linux_abi evs)) \<longrightarrow>
        (\<exists>e'. handle_events (key_queue linux_abi evs) e = Inr e' \<and> (0x26, 0) \<in> os_down (en_injected e')))"
proof -
  obtain e0 e where e: "setSetting linux_ev ''us'' vm_loaded (new_Engine a b) = Inr (True, e0)"
    "handle_events (key_queue linux_abi vm_events) e0 = Inr e" "remapping vm_loaded e" "codes_down vm_loaded e = {0x26}"
    "en_injected e = [Inject (kid_of \<lparr>m_scan = 0x26, m_flags = 0\<rparr> True)]"
    using vm_run by blast
  have held: "codes_held (key_moves (key_queue linux_abi vm_events)) = {}"
    by (auto simp: vm_queue key_moves_def vm_kev_facts codes_held_def held_step_def)
  have down: "os_down (en_injected e) = {(0x26, 0)}"
    using os_sent [of "[\<lparr>m_scan = 0x26, m_flags = 0\<rparr>]" "[]" True] by (simp add: e(5) code_of_def os_down_def)
  have "\<exists>e'. handle_events (key_queue linux_abi evs) e = Inr e' \<and> (0x26, 0) \<in> os_down (en_injected e')"
    if q: "list_all (\<lambda>(env, iev). env_ev env = linux_ev \<and> env_layout env = ''us'') evs"
      "list_all (\<lambda>(c, p). evdevToYamyKeyCode linux_ev c \<notin> trigger_codes vm_loaded \<and>
        out_code linux_ev ''us'' vm_loaded c \<noteq> Some 0x26) (key_moves (key_queue linux_abi evs))" for evs
  proof -
    let ?ins = "key_moves (key_queue linux_abi evs)" and ?s = "(codes_down vm_loaded e, en_injected e)"
    have t: "list_all (\<lambda>(c, p). evdevToYamyKeyCode linux_ev c \<notin> trigger_codes vm_loaded) ?ins"
      and o: "list_all (\<lambda>(c, p). out_code linux_ev ''us'' vm_loaded c \<noteq> Some 0x26) ?ins"
      using q(2) by (auto simp: list_all_iff)
    obtain e' where e': "handle_events (key_queue linux_abi evs) e = Inr e'"
      "(codes_down vm_loaded e', en_injected e') = fold (remap_step linux_ev ''us'' vm_loaded) ?ins ?s"
      using remap_events [OF vm_setting vm_distinct key_queue_ok [OF q(1)] t e(3)] by blast
    have "0x26 \<in> fst (fold (remap_step linux_ev ''us'' vm_loaded) ?ins ?s)"
      by (rule remap_fold_stays [OF o]) (simp add: e(4))
    moreover have "os_down (snd (fold (remap_step linux_ev ''us'' vm_loaded) ?ins ?s)) =
        (\<lambda>c. (c, 0)) ` fst (fold (remap_step linux_ev ''us'' vm_loaded) ?ins ?s)"
      by (rule remap_fold_os_down) (simp add: e(4) down)
    ultimately show ?thesis using e'(1) by (intro exI [of _ e']) (simp add: e'(2) [symmetric])
  qed
  with e(1,2) held down show ?thesis by blast
qed

text \<open>H pressed and released again: L is still down.\<close>

theorem substituted_key_sticks_witness:
  "\<exists>e0 e e'. setSetting linux_ev ''us'' vm_loaded (new_Engine False False) = Inr (True, e0) \<and>
     handle_events (key_queue linux_abi vm_events) e0 = Inr e \<and>
     handle_events (key_queue linux_abi [(vm_env 0, vm_input KEY_H True), (vm_env 0, vm_input KEY_H False)]) e = Inr e' \<and>
     (0x26, 0) \<in> os_down (en_injected e')"
proof -
  let ?evs = "[(vm_env 0, vm_input KEY_H True), (vm_env 0, vm_input KEY_H False)]"
  have "linux_ev KEY_H = 0x23" by (simp add: linux_ev_def linux_codes_def evkey_count_def KEY_H_def)
  then have "reader_event linux_abi (vm_input KEY_H p) = Some (vm_kev 0x23 p)" for p
    using vm_convert by (simp add: reader_event_def vm_input_def linux_abi_def vm_kev_def)
  then have q: "key_moves (key_queue linux_abi ?evs) = [(0x23, True), (0x23, False)]"
    by (simp add: key_queue_def key_moves_def List.map_filter_simps vm_kev_facts)
  have "trigger_codes vm_loaded = {0x3A}" using vm_facts by (auto simp: trigger_codes_def)
  then have "list_all (\<lambda>(c, p). evdevToYamyKeyCode linux_ev c \<notin> trigger_codes vm_loaded \<and>
      out_code linux_ev ''us'' vm_loaded c \<noteq> Some 0x26) (key_moves (key_queue linux_abi ?evs))"
    by (simp add: q vm_convert vm_out_code)
  moreover have "list_all (\<lambda>(env, iev). env_ev env = linux_ev \<and> env_layout env = ''us'') ?evs" by (simp add: vm_env_facts)
  ultimately show ?thesis using substituted_key_sticks [of False False] by blast
qed

end
