(* ===== verification/Config_Store.thy ===== *)
theory Config_Store
  imports Cpp_Text
begin

text \<open>
  The persistent store behind the configuration manager: the operations it calls of the abstract
  class \<^verbatim>\<open>ConfigStore\<close> (src/utils/config_store.h) as a record of functions on the store's state,
  the contract it relies on as the locale \<^verbatim>\<open>config_store\<close>, and the class the daemon uses,
  \<^verbatim>\<open>QSettingsConfigStore\<close> (src/utils/qsettings_config_store.h), as the locale's interpretation.
  \<^verbatim>\<open>QSettings\<close> is Qt's: a map from names to values. Strings are valid UTF-8, so passing through
  \<^verbatim>\<open>QString\<close> keeps them.
\<close>

section \<open>The interface\<close>

record 's ConfigStore =
  read_int :: "'s \<Rightarrow> string \<Rightarrow> int \<Rightarrow> bool \<times> int"
  write_int :: "'s \<Rightarrow> string \<Rightarrow> int \<Rightarrow> 's"
  read_string :: "'s \<Rightarrow> string \<Rightarrow> string \<Rightarrow> bool \<times> string"
  write_string :: "'s \<Rightarrow> string \<Rightarrow> string \<Rightarrow> 's"

locale config_store =
  fixes cs :: "'s ConfigStore" and fresh :: 's
  assumes read_int_same: "read_int cs (write_int cs s k i) k d = (True, i)"
    and read_int_other: "k \<noteq> l \<Longrightarrow> read_int cs (write_int cs s k i) l d = read_int cs s l d"
    and read_int_string: "k \<noteq> l \<Longrightarrow> read_int cs (write_string cs s k v) l d = read_int cs s l d"
    and read_string_same: "read_string cs (write_string cs s k v) k e = (True, v)"
    and read_string_other: "k \<noteq> l \<Longrightarrow> read_string cs (write_string cs s k v) l e = read_string cs s l e"
    and read_string_int: "k \<noteq> l \<Longrightarrow> read_string cs (write_int cs s k i) l e = read_string cs s l e"
    and read_int_fresh: "snd (read_int cs fresh k d) = d"
begin

text \<open>Writing a list of named strings: reads at other names are unchanged.\<close>

definition write_all :: "(string \<times> string) list \<Rightarrow> 's \<Rightarrow> 's" where
  "write_all kvs s = fold (\<lambda>(k, v) s. write_string cs s k v) kvs s"

lemma read_int_write_all: "l \<notin> fst ` set kvs \<Longrightarrow> read_int cs (write_all kvs s) l d = read_int cs s l d"
  unfolding write_all_def
  by (induction kvs arbitrary: s) (auto simp: read_int_string)

lemma read_string_write_all_other:
  "l \<notin> fst ` set kvs \<Longrightarrow> read_string cs (write_all kvs s) l e = read_string cs s l e"
  unfolding write_all_def
  by (induction kvs arbitrary: s) (auto simp: read_string_other)

lemma read_string_write_all:
  "(k, v) \<in> set kvs \<Longrightarrow> distinct (map fst kvs) \<Longrightarrow> read_string cs (write_all kvs s) k e = (True, v)"
proof (induction kvs arbitrary: s)
  case Nil
  then show ?case by simp
next
  case (Cons kv kvs)
  have step: "write_all (kv # kvs) s = write_all kvs (write_string cs s (fst kv) (snd kv))"
    by (simp add: write_all_def case_prod_unfold)
  show ?case
  proof (cases "kv = (k, v)")
    case True
    then have "k \<notin> fst ` set kvs" using Cons.prems(2) by simp
    then show ?thesis
      using True step by (simp add: read_string_write_all_other read_string_same)
  next
    case False
    then show ?thesis using Cons by (simp add: step)
  qed
qed

end

section \<open>QSettings\<close>

text \<open>
  A \<^verbatim>\<open>QVariant\<close> as the class stores it. A number converts to itself and a text to itself; what Qt
  makes of the other kinds is the parameters \<^verbatim>\<open>to_i\<close> and \<^verbatim>\<open>to_s\<close>.
\<close>

datatype QVariant =
    QInt int
  | QText string
  | QTextList "string list"
  | QBytes string

type_synonym QSettings = "string \<Rightarrow> QVariant option"

definition toInt :: "(QVariant \<Rightarrow> int option) \<Rightarrow> QVariant \<Rightarrow> int option" where
  "toInt to_i v = (case v of QInt i \<Rightarrow> Some i | _ \<Rightarrow> to_i v)"

definition toText :: "(QVariant \<Rightarrow> string) \<Rightarrow> QVariant \<Rightarrow> string" where
  "toText to_s v = (case v of QText s \<Rightarrow> s | _ \<Rightarrow> to_s v)"

definition q_value :: "QSettings \<Rightarrow> string \<Rightarrow> QVariant \<Rightarrow> QVariant" where
  "q_value q k d = (case q k of Some v \<Rightarrow> v | None \<Rightarrow> d)"

definition qsettings_read_int ::
  "(QVariant \<Rightarrow> int option) \<Rightarrow> QSettings \<Rightarrow> string \<Rightarrow> int \<Rightarrow> bool \<times> int" where
  "qsettings_read_int to_i q name def =
     (case toInt to_i (q_value q name (QInt def)) of Some r \<Rightarrow> (True, r) | None \<Rightarrow> (False, def))"

definition qsettings_write_int :: "QSettings \<Rightarrow> string \<Rightarrow> int \<Rightarrow> QSettings" where
  "qsettings_write_int q name v = q(name \<mapsto> QInt v)"

definition qsettings_read_string ::
  "(QVariant \<Rightarrow> string) \<Rightarrow> QSettings \<Rightarrow> string \<Rightarrow> string \<Rightarrow> bool \<times> string" where
  "qsettings_read_string to_s q name def = (True, toText to_s (q_value q name (QText def)))"

definition qsettings_write_string :: "QSettings \<Rightarrow> string \<Rightarrow> string \<Rightarrow> QSettings" where
  "qsettings_write_string q name v = q(name \<mapsto> QText v)"

definition QSettingsConfigStore ::
  "(QVariant \<Rightarrow> int option) \<Rightarrow> (QVariant \<Rightarrow> string) \<Rightarrow> QSettings ConfigStore" where
  "QSettingsConfigStore to_i to_s =
     \<lparr>read_int = qsettings_read_int to_i, write_int = qsettings_write_int,
      read_string = qsettings_read_string to_s, write_string = qsettings_write_string\<rparr>"

interpretation qs: config_store "QSettingsConfigStore to_i to_s" "\<lambda>_. None"
  by unfold_locales
    (simp_all add: QSettingsConfigStore_def qsettings_read_int_def qsettings_write_int_def
       qsettings_read_string_def qsettings_write_string_def q_value_def toInt_def toText_def)

end
