(* ===== verification/File_System.thy ===== *)
theory File_System
  imports Prelude
begin

text \<open>
  What the code uses of \<^verbatim>\<open>std::filesystem\<close> on POSIX: the decomposition of paths and the files
  behind them. Which file a path names is the operating system's business (working directory,
  symbolic links, \<^verbatim>\<open>.\<close> and \<^verbatim>\<open>..\<close>): the function \<^verbatim>\<open>resolve\<close> of a file system gives the canonical path
  of a path and is arbitrary, and so is \<^verbatim>\<open>absolute_dir\<close>, which stands for \<^verbatim>\<open>QFileInfo::absolutePath\<close>. A file's content is the list of its bytes, and a directory has its
  entries in the order \<^verbatim>\<open>directory_iterator\<close> reports them. Permissions and a full disk are not
  modelled, so the calls throw only for the reasons written out below.
\<close>

section \<open>Paths\<close>

definition filename :: "string \<Rightarrow> string" where
  "filename p = rev (takeWhile (\<lambda>c. c \<noteq> CHR ''/'') (rev p))"

text \<open>The part up to the last slash, and \<^verbatim>\<open>parent_path\<close>, which drops the slashes at its end but
  not the root.\<close>

definition up_to_slash :: "string \<Rightarrow> string" where
  "up_to_slash p = rev (dropWhile (\<lambda>c. c \<noteq> CHR ''/'') (rev p))"

definition parent_path :: "string \<Rightarrow> string" where
  "parent_path p =
     (let d = up_to_slash p in
      if list_all (\<lambda>c. c = CHR ''/'') p then p
      else if list_all (\<lambda>c. c = CHR ''/'') d then take 1 d
      else rev (dropWhile (\<lambda>c. c = CHR ''/'') (rev d)))"

text \<open>The text before the last dot of a file name. A name that starts with its only dot has no
  extension, nor have \<^verbatim>\<open>.\<close> and \<^verbatim>\<open>..\<close>.\<close>

definition before_last_dot :: "string \<Rightarrow> string option" where
  "before_last_dot f =
     (case dropWhile (\<lambda>c. c \<noteq> CHR ''.'') (rev f) of [] \<Rightarrow> None | _ # r \<Rightarrow> Some (rev r))"

definition stem :: "string \<Rightarrow> string" where
  "stem p = (let f = filename p in
     if f = ''.'' \<or> f = ''..'' then f
     else case before_last_dot f of None \<Rightarrow> f | Some [] \<Rightarrow> f | Some s \<Rightarrow> s)"

definition extension :: "string \<Rightarrow> string" where
  "extension p = drop (length (stem p)) (filename p)"

definition is_absolute :: "string \<Rightarrow> bool" where
  "is_absolute p = (case p of [] \<Rightarrow> False | c # _ \<Rightarrow> c = CHR ''/'')"

text \<open>\<^verbatim>\<open>operator/\<close>\<close>

definition path_append :: "string \<Rightarrow> string \<Rightarrow> string" where
  "path_append a b =
     (if is_absolute b then b else if filename a \<noteq> [] then a @ ''/'' @ b else a @ b)"

lemma takeWhile_until:
  "c \<notin> set xs \<Longrightarrow> takeWhile (\<lambda>x. x \<noteq> c) (xs @ c # ys) = xs"
  "c \<notin> set xs \<Longrightarrow> takeWhile (\<lambda>x. x \<noteq> c) xs = xs"
  "c \<notin> set xs \<Longrightarrow> dropWhile (\<lambda>x. x \<noteq> c) (xs @ c # ys) = c # ys"
  "c \<notin> set xs \<Longrightarrow> dropWhile (\<lambda>x. x \<noteq> c) xs = []"
  by (induction xs) auto

lemma filename_no_slash: "CHR ''/'' \<notin> set (filename p)"
  unfolding filename_def by (metis set_rev set_takeWhileD)

lemma up_to_slash_filename: "up_to_slash p @ filename p = p"
  unfolding up_to_slash_def filename_def by (metis rev_append rev_rev_ident takeWhile_dropWhile_id)

lemma stem_extension: "stem p @ extension p = filename p"
proof -
  have prefix: "\<exists>r. filename p = s @ r" if some: "before_last_dot (filename p) = Some s" for s
  proof (cases "dropWhile (\<lambda>c. c \<noteq> CHR ''.'') (rev (filename p))")
    case Nil
    then show ?thesis using some unfolding before_last_dot_def Nil by simp
  next
    case (Cons a r)
    have "filename p = rev (takeWhile (\<lambda>c. c \<noteq> CHR ''.'') (rev (filename p)) @ a # r)"
      unfolding Cons [symmetric] by (simp only: takeWhile_dropWhile_id rev_rev_ident)
    moreover have "s = rev r" using some unfolding before_last_dot_def Cons by simp
    ultimately show ?thesis by (metis append.assoc rev.simps(2) rev_append)
  qed
  then show ?thesis
    by (cases "before_last_dot (filename p)")
      (force simp: stem_def extension_def Let_def split: list.splits)+
qed

text \<open>A file put into a directory: what the path operations give back.\<close>

lemma filename_append: "CHR ''/'' \<notin> set n \<Longrightarrow> filename (d @ CHR ''/'' # n) = n"
  by (simp add: filename_def takeWhile_until)

lemma filename_plain: "CHR ''/'' \<notin> set n \<Longrightarrow> filename n = n"
  by (simp add: filename_def takeWhile_until)

lemma filename_path_append:
  assumes "CHR ''/'' \<notin> set n"
  shows "filename (path_append d n) = n"
proof -
  have abs: "\<not> is_absolute n" using assms by (cases n) (auto simp: is_absolute_def)
  show ?thesis
  proof (cases "filename d = []")
    case True
    have "takeWhile (\<lambda>c. c \<noteq> CHR ''/'') (rev d) = []"
      using True by (simp add: filename_def)
    then consider "d = []" | e where "d = e @ ''/''"
      by (cases "rev d") (auto split: if_splits)
    then show ?thesis
      using abs True assms filename_append filename_plain
      by cases (auto simp: path_append_def)
  next
    case False
    then show ?thesis using abs assms by (simp add: path_append_def filename_append)
  qed
qed

section \<open>Files\<close>

datatype file_node =
    Regular_File (content: string) (last_write_time: nat)
  | Directory (entries: "string list")
  | Other_File

record File_System =
  resolve :: "string \<Rightarrow> string"
  nodes :: "string \<Rightarrow> file_node option"
  current_path :: string
  absolute_dir :: "string \<Rightarrow> string"
  environment :: "string \<Rightarrow> string option"
  clock :: nat

definition file_at :: "File_System \<Rightarrow> string \<Rightarrow> file_node option" where
  "file_at F p = nodes F (resolve F p)"

definition fs_exists :: "File_System \<Rightarrow> string \<Rightarrow> bool" where
  "fs_exists F p = (file_at F p \<noteq> None)"

definition is_regular_file :: "File_System \<Rightarrow> string \<Rightarrow> bool" where
  "is_regular_file F p = (case file_at F p of Some (Regular_File _ _) \<Rightarrow> True | _ \<Rightarrow> False)"

definition is_directory :: "File_System \<Rightarrow> string \<Rightarrow> bool" where
  "is_directory F p = (case file_at F p of Some (Directory _) \<Rightarrow> True | _ \<Rightarrow> False)"

text \<open>\<^verbatim>\<open>canonical\<close> throws, here None, when there is no such file.\<close>

definition fs_canonical :: "File_System \<Rightarrow> string \<Rightarrow> string option" where
  "fs_canonical F p = (if fs_exists F p then Some (resolve F p) else None)"

text \<open>The paths \<^verbatim>\<open>directory_iterator\<close> gives for a directory.\<close>

definition directory_entries :: "File_System \<Rightarrow> string \<Rightarrow> string list" where
  "directory_entries F d =
     (case file_at F d of Some (Directory ns) \<Rightarrow> map (path_append d) ns | _ \<Rightarrow> [])"

definition read_file :: "File_System \<Rightarrow> string \<Rightarrow> string option" where
  "read_file F p = (case file_at F p of Some (Regular_File c _) \<Rightarrow> Some c | _ \<Rightarrow> None)"

text \<open>Writing a whole file through a truncating \<^verbatim>\<open>ofstream\<close>: it opens if the path is a regular file
  or names a new one in an existing directory, which gets the name as an entry.\<close>

definition add_entry :: "string \<Rightarrow> file_node option \<Rightarrow> file_node option" where
  "add_entry n d = (case d of
     Some (Directory ns) \<Rightarrow> Some (Directory (if n \<in> set ns then ns else ns @ [n]))
   | _ \<Rightarrow> d)"

definition del_entry :: "string \<Rightarrow> file_node option \<Rightarrow> file_node option" where
  "del_entry n d = (case d of
     Some (Directory ns) \<Rightarrow> Some (Directory (filter (\<lambda>m. m \<noteq> n) ns)) | _ \<Rightarrow> d)"

definition set_node :: "string \<Rightarrow> file_node \<Rightarrow> File_System \<Rightarrow> File_System" where
  "set_node p nd F =
     (let k = resolve F p in
      if nodes F k \<noteq> None then F\<lparr>nodes := (nodes F)(k \<mapsto> nd)\<rparr>
      else let d = parent_path k in
        F\<lparr>nodes := (nodes F)(d := add_entry (filename k) (nodes F d), k \<mapsto> nd)\<rparr>)"

definition can_open_out :: "File_System \<Rightarrow> string \<Rightarrow> bool" where
  "can_open_out F p =
     (case file_at F p of
        Some (Regular_File _ _) \<Rightarrow> True
      | Some _ \<Rightarrow> False
      | None \<Rightarrow> p \<noteq> [] \<and> (case nodes F (parent_path (resolve F p)) of
                   Some (Directory _) \<Rightarrow> True | _ \<Rightarrow> False))"

definition write_file :: "string \<Rightarrow> string \<Rightarrow> File_System \<Rightarrow> File_System option" where
  "write_file p c F =
     (if can_open_out F p then Some (set_node p (Regular_File c (clock F)) F) else None)"

definition remove_file :: "string \<Rightarrow> File_System \<Rightarrow> File_System" where
  "remove_file p F =
     (let k = resolve F p; d = parent_path k in
      if nodes F k = None then F
      else F\<lparr>nodes := (nodes F)(d := del_entry (filename k) (nodes F d), k := None)\<rparr>)"

text \<open>\<^verbatim>\<open>create_directories\<close> makes every missing directory on the way; it throws, here None, where a
  component is not a directory. The recursion goes up the path, and a path has no more ancestors
  than characters.\<close>

fun create_dirs :: "nat \<Rightarrow> string \<Rightarrow> File_System \<Rightarrow> File_System option" where
  "create_dirs 0 p F = None"
| "create_dirs (Suc n) p F =
     (if is_directory F p then Some F
      else if fs_exists F p then None
      else if parent_path p = p then None
      else case (if parent_path p = [] then Some F else create_dirs n (parent_path p) F) of
             None \<Rightarrow> None
           | Some F' \<Rightarrow> Some (set_node p (Directory []) F'))"

definition create_directories :: "string \<Rightarrow> File_System \<Rightarrow> File_System option" where
  "create_directories p F = create_dirs (Suc (length p)) p F"

text \<open>\<^verbatim>\<open>copy_file\<close> with \<^verbatim>\<open>overwrite_existing\<close>; it throws unless the source is a regular file and the
  target can be written.\<close>

definition copy_file :: "string \<Rightarrow> string \<Rightarrow> File_System \<Rightarrow> File_System option" where
  "copy_file a b F = (case read_file F a of None \<Rightarrow> None | Some c \<Rightarrow> write_file b c F)"

section \<open>Facts about files\<close>

lemma set_node_frame [simp]:
  "resolve (set_node p nd F) = resolve F"
  "environment (set_node p nd F) = environment F"
  "current_path (set_node p nd F) = current_path F"
  "absolute_dir (set_node p nd F) = absolute_dir F"
  "clock (set_node p nd F) = clock F"
  by (simp_all add: set_node_def Let_def)

lemma file_at_set_node: "file_at (set_node p nd F) p = Some nd"
  by (simp add: file_at_def set_node_def Let_def)

lemma read_write_file: "write_file p c F = Some F' \<Longrightarrow> read_file F' p = Some c"
  by (auto simp: write_file_def read_file_def file_at_set_node split: if_splits)

lemma is_regular_file_iff: "is_regular_file F p \<longleftrightarrow> (\<exists>c. read_file F p = Some c)"
  by (auto simp: is_regular_file_def read_file_def split: option.splits file_node.splits)

lemma is_regular_file_exists: "is_regular_file F p \<Longrightarrow> fs_exists F p"
  by (auto simp: is_regular_file_def fs_exists_def split: option.splits)

lemma read_file_set_other:
  assumes "resolve F q \<noteq> resolve F p"
  shows "read_file (set_node p nd F) q = read_file F q"
  using assms
  by (auto simp: read_file_def file_at_def set_node_def Let_def add_entry_def
           split: option.splits file_node.splits)

end
