(* ===== verification/Config_Watcher.thy ===== *)
theory Config_Watcher
  imports File_System
begin

text \<open>
  The watcher of the active configuration file (src/core/settings/config_watcher.cpp). The paths
  given to \<^verbatim>\<open>QFileSystemWatcher\<close> and the state of the single-shot debounce timer are fields of the
  state; Qt's signals are the events it is driven with, in any order, each with the file system of
  its moment. A handler gives the signals it emits and its calls of the change callback.
\<close>

section \<open>State and operations\<close>

record ConfigWatcher =
  m_configPath :: string
  m_watching :: bool
  m_autoReloadEnabled :: bool
  m_fileExisted :: bool
  m_debounceTimer :: bool
  watched_files :: "string list"
  watched_dirs :: "string list"

datatype watcher_output =
    ConfigFileChanged string
  | ConfigFileDeleted string
  | ConfigFileRestored string
  | Change_Callback string

definition ConfigWatcher_init :: ConfigWatcher where
  "ConfigWatcher_init =
     \<lparr>m_configPath = [], m_watching = False, m_autoReloadEnabled = True, m_fileExisted = False,
      m_debounceTimer = False, watched_files = [], watched_dirs = []\<rparr>"

definition add_path :: "string \<Rightarrow> string list \<Rightarrow> string list" where
  "add_path p ps = (if p \<in> set ps then ps else ps @ [p])"

definition watcher_stop :: "ConfigWatcher \<Rightarrow> ConfigWatcher" where
  "watcher_stop w =
     (if \<not> m_watching w then w
      else w\<lparr>m_debounceTimer := False, watched_files := [], watched_dirs := [], m_watching := False\<rparr>)"

definition watcher_start :: "File_System \<Rightarrow> ConfigWatcher \<Rightarrow> ConfigWatcher" where
  "watcher_start F w =
     (if m_watching w \<or> m_configPath w = [] then w
      else
        let p = m_configPath w;
            ex = fs_exists F p;
            w = w\<lparr>m_fileExisted := ex\<rparr>;
            w = (if ex then w\<lparr>watched_files := add_path p (watched_files w)\<rparr> else w);
            d = absolute_dir F p;
            w = (if d \<noteq> [] \<and> is_directory F d
                 then w\<lparr>watched_dirs := add_path d (watched_dirs w)\<rparr> else w)
        in w\<lparr>m_watching := True\<rparr>)"

definition setConfigPath :: "File_System \<Rightarrow> string \<Rightarrow> ConfigWatcher \<Rightarrow> ConfigWatcher" where
  "setConfigPath F p w =
     (let was = m_watching w;
          w = (if was then watcher_stop w else w);
          w = w\<lparr>m_configPath := p\<rparr>
      in if was \<and> p \<noteq> [] then watcher_start F w else w)"

definition watcher_fileExists :: "File_System \<Rightarrow> ConfigWatcher \<Rightarrow> bool" where
  "watcher_fileExists F w = fs_exists F (m_configPath w)"

definition readdWatch :: "File_System \<Rightarrow> ConfigWatcher \<Rightarrow> ConfigWatcher" where
  "readdWatch F w =
     (if m_configPath w \<notin> set (watched_files w) \<and> fs_exists F (m_configPath w)
      then w\<lparr>watched_files := add_path (m_configPath w) (watched_files w), m_fileExisted := True\<rparr>
      else w)"

definition onFileChanged ::
  "File_System \<Rightarrow> string \<Rightarrow> ConfigWatcher \<Rightarrow> ConfigWatcher \<times> watcher_output list" where
  "onFileChanged F p w =
     (if \<not> m_watching w \<or> \<not> m_autoReloadEnabled w then (w, [])
      else if p \<noteq> m_configPath w then (w, [])
      else if \<not> watcher_fileExists F w then (w\<lparr>m_fileExisted := False\<rparr>, [ConfigFileDeleted p])
      else ((readdWatch F w)\<lparr>m_debounceTimer := True\<rparr>, []))"

definition onDirectoryChanged ::
  "File_System \<Rightarrow> string \<Rightarrow> ConfigWatcher \<Rightarrow> ConfigWatcher \<times> watcher_output list" where
  "onDirectoryChanged F d w =
     (if \<not> m_watching w then (w, [])
      else if \<not> m_fileExisted w \<and> fs_exists F (m_configPath w) then
        let w = w\<lparr>m_fileExisted := True, watched_files := add_path (m_configPath w) (watched_files w)\<rparr>;
            w = (if m_autoReloadEnabled w then w\<lparr>m_debounceTimer := True\<rparr> else w)
        in (w, [ConfigFileRestored (m_configPath w)])
      else (w, []))"

definition onDebounceTimeout ::
  "File_System \<Rightarrow> ConfigWatcher \<Rightarrow> ConfigWatcher \<times> watcher_output list" where
  "onDebounceTimeout F w =
     (if \<not> m_watching w \<or> \<not> m_autoReloadEnabled w then (w, [])
      else if \<not> watcher_fileExists F w then (w, [])
      else (w, [ConfigFileChanged (m_configPath w), Change_Callback (m_configPath w)]))"

text \<open>
  What Qt does to a watcher: a signal of a path, the end of the timer's interval, after which a
  single-shot timer is inactive, and dropping a file from the watched ones when it is renamed or
  removed. The timer fires only while it is active.
\<close>

datatype watcher_event =
    File_Signal string
  | Directory_Signal string
  | Timer_Fires
  | File_Dropped string

definition watcher_event ::
  "File_System \<times> watcher_event \<Rightarrow> ConfigWatcher \<Rightarrow> ConfigWatcher \<times> watcher_output list" where
  "watcher_event Fe w =
     (case Fe of (F, e) \<Rightarrow> (case e of
        File_Signal p \<Rightarrow> onFileChanged F p w
      | Directory_Signal d \<Rightarrow> onDirectoryChanged F d w
      | Timer_Fires \<Rightarrow>
          if m_debounceTimer w then onDebounceTimeout F (w\<lparr>m_debounceTimer := False\<rparr>) else (w, [])
      | File_Dropped p \<Rightarrow> (w\<lparr>watched_files := filter (\<lambda>q. q \<noteq> p) (watched_files w)\<rparr>, [])))"

fun watcher_events ::
  "(File_System \<times> watcher_event) list \<Rightarrow> ConfigWatcher \<Rightarrow> ConfigWatcher \<times> watcher_output list" where
  "watcher_events [] w = (w, [])"
| "watcher_events (e # es) w =
     (let (w, out) = watcher_event e w; (w, out') = watcher_events es w in (w, out @ out'))"

section \<open>Facts\<close>

text \<open>No event changes the path, the switch for reloading or whether the watcher watches.\<close>

lemma watcher_event_frame:
  assumes "watcher_event Fe w = (w', out)"
  shows "m_configPath w' = m_configPath w" "m_watching w' = m_watching w"
    "m_autoReloadEnabled w' = m_autoReloadEnabled w"
    "Change_Callback q \<in> set out \<Longrightarrow> q = m_configPath w"
  using assms
  by (auto simp: watcher_event_def onFileChanged_def onDirectoryChanged_def onDebounceTimeout_def
        readdWatch_def Let_def split: prod.splits watcher_event.splits if_splits)

lemma watcher_events_frame:
  "watcher_events es w = (w', out) \<Longrightarrow>
     m_configPath w' = m_configPath w \<and> m_watching w' = m_watching w \<and>
     m_autoReloadEnabled w' = m_autoReloadEnabled w \<and>
     (\<forall>q. Change_Callback q \<in> set out \<longrightarrow> q = m_configPath w)"
proof (induction es arbitrary: w w' out)
  case Nil
  then show ?case by simp
next
  case (Cons e es)
  obtain w1 o1 where 1: "watcher_event e w = (w1, o1)" by fastforce
  obtain w2 o2 where 2: "watcher_events es w1 = (w2, o2)" by fastforce
  have "w' = w2" "out = o1 @ o2" using Cons.prems 1 2 by simp_all
  then show ?case
    using watcher_event_frame [OF 1] Cons.IH [OF 2] by auto
qed

text \<open>A running timer keeps running until it fires.\<close>

lemma timer_keeps_running:
  assumes "watcher_event (F, e) w = (w', out)" and "m_debounceTimer w" and "e \<noteq> Timer_Fires"
  shows "m_debounceTimer w'"
  using assms
  by (auto simp: watcher_event_def onFileChanged_def onDirectoryChanged_def readdWatch_def Let_def
        split: watcher_event.splits if_splits)

lemma timer_keeps_running_events:
  "watcher_events es w = (w', out) \<Longrightarrow> m_debounceTimer w \<Longrightarrow>
     list_all (\<lambda>(F, e). e \<noteq> Timer_Fires) es \<Longrightarrow> m_debounceTimer w'"
proof (induction es arbitrary: w w' out)
  case Nil
  then show ?case by simp
next
  case (Cons Fe es)
  obtain F e where Fe: "Fe = (F, e)" by fastforce
  obtain w1 o1 where 1: "watcher_event (F, e) w = (w1, o1)" by fastforce
  obtain w2 o2 where 2: "watcher_events es w1 = (w2, o2)" by fastforce
  have "w' = w2" using Cons.prems(1) 1 2 Fe by simp
  then show ?case
    using Cons.IH [OF 2] timer_keeps_running [OF 1] Cons.prems(2,3) Fe by simp
qed

text \<open>
  A change of the watched file leads to a reload: whatever signals follow until the timer fires,
  if the file is there when it does, the callback gets its path.
\<close>

lemma change_reaches_callback:
  assumes w: "m_watching w" "m_autoReloadEnabled w"
    and change: "fs_exists F (m_configPath w)"
    and other: "list_all (\<lambda>(F, e). e \<noteq> Timer_Fires) es"
    and there: "fs_exists F' (m_configPath w)"
    and run: "watcher_events ((F, File_Signal (m_configPath w)) # es @ [(F', Timer_Fires)]) w = (w', out)"
  shows "Change_Callback (m_configPath w) \<in> set out"
proof -
  obtain w1 o1 where 1: "watcher_event (F, File_Signal (m_configPath w)) w = (w1, o1)" by fastforce
  obtain w2 o2 where 2: "watcher_events es w1 = (w2, o2)" by fastforce
  obtain w3 o3 where 3: "watcher_event (F', Timer_Fires) w2 = (w3, o3)" by fastforce
  have app: "watcher_events (es @ [e]) v =
      (let (v1, u1) = watcher_events es v; (v2, u2) = watcher_event e v1 in (v2, u1 @ u2))" for e v
    by (induction es arbitrary: v) (simp_all add: case_prod_unfold Let_def)
  have "out = o1 @ o2 @ o3"
    using run 1 2 3 app by simp
  moreover have "m_debounceTimer w1"
    using 1 w change by (auto simp: watcher_event_def onFileChanged_def watcher_fileExists_def)
  then have "m_debounceTimer w2" using timer_keeps_running_events [OF 2] other by blast
  then have "Change_Callback (m_configPath w) \<in> set o3"
    using 3 w there watcher_event_frame [OF 1] watcher_events_frame [OF 2]
    by (auto simp: watcher_event_def onDebounceTimeout_def watcher_fileExists_def)
  ultimately show ?thesis by simp
qed

text \<open>A stopped or empty watcher never calls back, and starting watches exactly the path.\<close>

lemma setConfigPath_path:
  "m_configPath (setConfigPath F p w) = p"
  "m_autoReloadEnabled (setConfigPath F p w) = m_autoReloadEnabled w"
  "p \<noteq> [] \<Longrightarrow> m_watching (setConfigPath F p w) = m_watching w"
  by (simp_all add: setConfigPath_def watcher_start_def watcher_stop_def Let_def)

end
