(* ===== verification/Config_Manager.thy ===== *)
theory Config_Manager
  imports Config_Store Config_Watcher "HOL-Library.Monad_Syntax"
begin

text \<open>
  The list of configuration files (src/core/settings/config_manager.cpp): which files are known,
  which one is active, and how both survive a restart in the store. An operation takes the store's
  operations \<^verbatim>\<open>cs\<close> and the file system of its moment, and gives the manager after it with the paths
  the change callback was called with. What the callback does (the engine loads the file) is not
  part of the manager. Indices are integers, and a list never reaches 2^31 entries.
\<close>

section \<open>State\<close>

record ConfigEntry =
  path :: string
  display_name :: string
  exists :: bool

record 's ConfigManager =
  m_configStore :: "'s option"
  m_configs :: "ConfigEntry list"
  m_activeIndex :: int
  m_changeCallback :: bool
  m_configWatcher :: ConfigWatcher

definition ConfigManager_init :: "'s ConfigManager" where
  "ConfigManager_init =
     \<lparr>m_configStore = None, m_configs = [], m_activeIndex = -1, m_changeCallback = False,
      m_configWatcher = ConfigWatcher_init\<rparr>"

definition KEY_CONFIG_COUNT :: string where "KEY_CONFIG_COUNT = ''configManager.count''"
definition KEY_CONFIG_PREFIX :: string where "KEY_CONFIG_PREFIX = ''configManager.config.''"
definition KEY_ACTIVE_INDEX :: string where "KEY_ACTIVE_INDEX = ''configManager.activeIndex''"

definition config_key :: "nat \<Rightarrow> string" where
  "config_key i = KEY_CONFIG_PREFIX @ to_string (int i)"

section \<open>Operations\<close>

text \<open>\<^verbatim>\<open>extractName\<close> and \<^verbatim>\<open>fileExists\<close>; \<^verbatim>\<open>stem\<close> does not throw.\<close>

definition extractName :: "string \<Rightarrow> string" where
  "extractName p = stem p"

definition fileExists :: "File_System \<Rightarrow> string \<Rightarrow> bool" where
  "fileExists F p = (fs_exists F p \<and> is_regular_file F p)"

fun find_index :: "nat \<Rightarrow> ConfigEntry list \<Rightarrow> string \<Rightarrow> int" where
  "find_index i [] p = -1"
| "find_index i (e # es) p = (if path e = p then int i else find_index (Suc i) es p)"

definition findConfig :: "'s ConfigManager \<Rightarrow> string \<Rightarrow> int" where
  "findConfig m p = find_index 0 (m_configs m) p"

definition getActiveConfig :: "'s ConfigManager \<Rightarrow> string" where
  "getActiveConfig m =
     (if 0 \<le> m_activeIndex m \<and> m_activeIndex m < int (length (m_configs m))
      then path (m_configs m ! nat (m_activeIndex m)) else [])"

definition setAutoReloadEnabled :: "bool \<Rightarrow> 's ConfigManager \<Rightarrow> 's ConfigManager" where
  "setAutoReloadEnabled b m =
     m\<lparr>m_configWatcher := (m_configWatcher m)\<lparr>m_autoReloadEnabled := b\<rparr>\<rparr>"

definition setChangeCallback :: "bool \<Rightarrow> 's ConfigManager \<Rightarrow> 's ConfigManager" where
  "setChangeCallback b m = m\<lparr>m_changeCallback := b\<rparr>"

definition save_store :: "'s ConfigStore \<Rightarrow> 's ConfigManager \<Rightarrow> 's \<Rightarrow> 's" where
  "save_store cs m s =
     (let count = length (m_configs m);
          s = write_int cs s KEY_CONFIG_COUNT (int count);
          s = fold (\<lambda>i s. write_string cs s (config_key i) (path (m_configs m ! i))) [0..<count] s
      in write_int cs s KEY_ACTIVE_INDEX (m_activeIndex m))"

definition save :: "'s ConfigStore \<Rightarrow> 's ConfigManager \<Rightarrow> 's ConfigManager" where
  "save cs m =
     (case m_configStore m of None \<Rightarrow> m | Some s \<Rightarrow> m\<lparr>m_configStore := Some (save_store cs m s)\<rparr>)"

definition new_entry :: "File_System \<Rightarrow> string \<Rightarrow> ConfigEntry" where
  "new_entry F p = \<lparr>path = p, display_name = extractName p, exists = fileExists F p\<rparr>"

definition load_entry :: "'s ConfigStore \<Rightarrow> File_System \<Rightarrow> 's \<Rightarrow> nat \<Rightarrow> ConfigEntry list" where
  "load_entry cs F s i =
     (let (ok, p) = read_string cs s (config_key i) [] in
      if ok \<and> p \<noteq> [] then [new_entry F p] else [])"

definition load :: "'s ConfigStore \<Rightarrow> File_System \<Rightarrow> 's ConfigManager \<Rightarrow> 's ConfigManager" where
  "load cs F m =
     (case m_configStore m of
        None \<Rightarrow> m
      | Some s \<Rightarrow>
          let count = snd (read_int cs s KEY_CONFIG_COUNT 0);
              cfgs = concat (map (load_entry cs F s) [0..<nat count]);
              a = snd (read_int cs s KEY_ACTIVE_INDEX (-1));
              a = (if int (length cfgs) \<le> a then -1 else a)
          in m\<lparr>m_configs := cfgs, m_activeIndex := a\<rparr>)"

text \<open>The callback's calls: one with the path, if a callback is set.\<close>

definition notify :: "'s ConfigManager \<Rightarrow> string \<Rightarrow> string list" where
  "notify m p = (if m_changeCallback m then [p] else [])"

definition setActiveConfig ::
  "'s ConfigStore \<Rightarrow> File_System \<Rightarrow> string \<Rightarrow> 's ConfigManager \<Rightarrow> bool \<times> 's ConfigManager \<times> string list" where
  "setActiveConfig cs F configPath m =
     (let index = findConfig m configPath in
      if index < 0 then (False, m, [])
      else if m_activeIndex m \<noteq> index then
        let m = save cs (m\<lparr>m_activeIndex := index\<rparr>);
            m = m\<lparr>m_configWatcher := setConfigPath F configPath (m_configWatcher m)\<rparr>
        in (True, m, notify m configPath)
      else (True, m, []))"

definition setActiveConfig_index ::
  "'s ConfigStore \<Rightarrow> File_System \<Rightarrow> int \<Rightarrow> 's ConfigManager \<Rightarrow> bool \<times> 's ConfigManager \<times> string list" where
  "setActiveConfig_index cs F index m =
     (if index < 0 \<or> int (length (m_configs m)) \<le> index then (False, m, [])
      else if m_activeIndex m \<noteq> index then
        let m = save cs (m\<lparr>m_activeIndex := index\<rparr>);
            newPath = path (m_configs m ! nat index);
            m = m\<lparr>m_configWatcher := setConfigPath F newPath (m_configWatcher m)\<rparr>
        in (True, m, notify m newPath)
      else (True, m, []))"

text \<open>
  The loop that skips missing files. It might run forever, so its result is an option: None when it
  does not return, \<^verbatim>\<open>Some None\<close> when it gives up because every file is missing.
\<close>

partial_function (option) skip_missing ::
  "ConfigEntry list \<Rightarrow> nat \<Rightarrow> nat \<Rightarrow> nat option option" where
  "skip_missing cfgs startIndex nextIndex =
     (if exists (cfgs ! nextIndex) then Some (Some nextIndex)
      else
        let nextIndex = (nextIndex + 1) mod length cfgs in
        if nextIndex = startIndex then Some None else skip_missing cfgs startIndex nextIndex)"

definition next_index :: "'s ConfigManager \<Rightarrow> nat" where
  "next_index m =
     (if m_activeIndex m < 0 then 0 else nat ((m_activeIndex m + 1) mod int (length (m_configs m))))"

definition setNextConfig ::
  "'s ConfigStore \<Rightarrow> 's ConfigManager \<Rightarrow> (bool \<times> 's ConfigManager \<times> string list) option" where
  "setNextConfig cs m =
     (if m_configs m = [] then Some (False, m, [])
      else if length (m_configs m) = 1 then
        Some (if m_activeIndex m \<noteq> 0 then
                let m = save cs (m\<lparr>m_activeIndex := 0\<rparr>) in (True, m, notify m (path (m_configs m ! 0)))
              else (True, m, []))
      else do {
        r \<leftarrow> skip_missing (m_configs m) (next_index m) (next_index m);
        Some (case r of
                None \<Rightarrow> (False, m, [])
              | Some nextIndex \<Rightarrow>
                  if m_activeIndex m \<noteq> int nextIndex then
                    let m = save cs (m\<lparr>m_activeIndex := int nextIndex\<rparr>)
                    in (True, m, notify m (path (m_configs m ! nextIndex)))
                  else (True, m, []))
      })"

definition addConfig ::
  "'s ConfigStore \<Rightarrow> File_System \<Rightarrow> string \<Rightarrow> 's ConfigManager \<Rightarrow> bool \<times> 's ConfigManager" where
  "addConfig cs F configPath m =
     (if 0 \<le> findConfig m configPath then (False, m)
      else (True, save cs (m\<lparr>m_configs := m_configs m @ [new_entry F configPath]\<rparr>)))"

definition erase :: "nat \<Rightarrow> 'a list \<Rightarrow> 'a list" where
  "erase i xs = take i xs @ drop (Suc i) xs"

definition removeConfig ::
  "'s ConfigStore \<Rightarrow> string \<Rightarrow> 's ConfigManager \<Rightarrow> bool \<times> 's ConfigManager" where
  "removeConfig cs configPath m =
     (let index = findConfig m configPath in
      if index < 0 then (False, m)
      else
        let m = m\<lparr>m_configs := erase (nat index) (m_configs m)\<rparr>;
            m = (if m_activeIndex m = index then m\<lparr>m_activeIndex := -1\<rparr>
                 else if m_activeIndex m > index then m\<lparr>m_activeIndex := m_activeIndex m - 1\<rparr>
                 else m)
        in (True, save cs m))"

definition scan_entry :: "File_System \<Rightarrow> string \<Rightarrow> 's ConfigManager \<times> nat \<Rightarrow> 's ConfigManager \<times> nat" where
  "scan_entry F p = (\<lambda>(m, added).
     if \<not> is_regular_file F p then (m, added)
     else if extension p \<noteq> ''.mayu'' then (m, added)
     else if findConfig m p < 0 then
       (m\<lparr>m_configs := m_configs m @ [\<lparr>path = p, display_name = extractName p, exists = True\<rparr>]\<rparr>,
        added + 1)
     else (m, added))"

definition scanDirectory ::
  "'s ConfigStore \<Rightarrow> File_System \<Rightarrow> string \<Rightarrow> 's ConfigManager \<Rightarrow> nat \<times> 's ConfigManager" where
  "scanDirectory cs F directory m =
     (if \<not> fs_exists F directory \<or> \<not> is_directory F directory then (0, m)
      else
        let (m, added) = fold (scan_entry F) (directory_entries F directory) (m, 0)
        in (added, if added > 0 then save cs m else m))"

definition getDefaultConfigDir :: "File_System \<Rightarrow> string" where
  "getDefaultConfigDir F =
     (case environment F ''HOME'' of
        Some home \<Rightarrow> home @ ''/.yamy''
      | None \<Rightarrow> (case environment F ''USERPROFILE'' of
                   Some userprofile \<Rightarrow> userprofile @ ''/.yamy'' | None \<Rightarrow> []))"

definition refreshList ::
  "'s ConfigStore \<Rightarrow> File_System \<Rightarrow> 's ConfigManager \<Rightarrow> 's ConfigManager" where
  "refreshList cs F m =
     (let m = m\<lparr>m_configs := map (\<lambda>e. e\<lparr>exists := fileExists F (path e)\<rparr>) (m_configs m)\<rparr>;
          defaultDir = getDefaultConfigDir F;
          m = (if defaultDir \<noteq> [] then snd (scanDirectory cs F defaultDir m) else m)
      in snd (scanDirectory cs F (current_path F) m))"

definition initialize_manager ::
  "'s ConfigStore \<Rightarrow> File_System \<Rightarrow> 's \<Rightarrow> 's ConfigManager \<Rightarrow> 's ConfigManager" where
  "initialize_manager cs F s m =
     (let m = refreshList cs F (load cs F (m\<lparr>m_configStore := Some s\<rparr>));
          activeConfig = getActiveConfig m
      in if activeConfig \<noteq> []
         then m\<lparr>m_configWatcher := watcher_start F (setConfigPath F activeConfig (m_configWatcher m))\<rparr>
         else m)"

definition onActiveConfigChanged :: "string \<Rightarrow> 's ConfigManager \<Rightarrow> string list" where
  "onActiveConfigChanged p m = (if p \<noteq> getActiveConfig m then [] else notify m p)"

text \<open>The watcher runs with the manager: its callback is \<^verbatim>\<open>onActiveConfigChanged\<close>.\<close>

definition watcher_callbacks :: "'s ConfigManager \<Rightarrow> watcher_output list \<Rightarrow> string list" where
  "watcher_callbacks m out =
     concat (map (\<lambda>x. case x of Change_Callback p \<Rightarrow> onActiveConfigChanged p m | _ \<Rightarrow> []) out)"

definition manager_watches ::
  "(File_System \<times> watcher_event) list \<Rightarrow> 's ConfigManager \<Rightarrow> 's ConfigManager \<times> string list" where
  "manager_watches es m =
     (let (w, out) = watcher_events es (m_configWatcher m);
          m = m\<lparr>m_configWatcher := w\<rparr>
      in (m, watcher_callbacks m out))"

end
