(* ===== verification/Config_List.thy ===== *)
theory Config_List
  imports Config_Manager
begin

text \<open>
  What the configuration manager keeps: the active index and the list stay consistent, the store
  always describes them, a restart finds them again, and switching to the next configuration gives
  every existing one its turn.
\<close>

section \<open>The list\<close>

definition paths :: "'s ConfigManager \<Rightarrow> string list" where
  "paths m = map path (m_configs m)"

lemma paths_simps [simp]:
  "paths (m\<lparr>m_activeIndex := a\<rparr>) = paths m"
  "paths (m\<lparr>m_configWatcher := w\<rparr>) = paths m"
  "paths (m\<lparr>m_configStore := s\<rparr>) = paths m"
  "paths (m\<lparr>m_changeCallback := c\<rparr>) = paths m"
  "paths (m\<lparr>m_configs := es\<rparr>) = map path es"
  "length (paths m) = length (m_configs m)"
  by (simp_all add: paths_def)

lemma find_index_cases:
  "(find_index k es p = -1 \<and> p \<notin> set (map path es)) \<or>
   (\<exists>i<length es. find_index k es p = int (k + i) \<and> path (es ! i) = p)"
proof (induction es arbitrary: k)
  case Nil
  then show ?case by simp
next
  case (Cons e es)
  show ?case
  proof (cases "path e = p")
    case True
    then show ?thesis by (intro disjI2 exI [of _ 0]) simp
  next
    case False
    from Cons.IH [of "Suc k"] show ?thesis
    proof
      assume "find_index (Suc k) es p = -1 \<and> p \<notin> set (map path es)"
      then show ?thesis using False by simp
    next
      assume "\<exists>i<length es. find_index (Suc k) es p = int (Suc k + i) \<and> path (es ! i) = p"
      then obtain i where "i < length es" "find_index (Suc k) es p = int (Suc k + i)" "path (es ! i) = p"
        by blast
      then show ?thesis using False by (intro disjI2 exI [of _ "Suc i"]) simp
    qed
  qed
qed

lemma findConfig_cases:
  obtains (absent) "findConfig m p = -1" "p \<notin> set (paths m)"
  | (present) i where "i < length (m_configs m)" "findConfig m p = int i" "path (m_configs m ! i) = p"
  using find_index_cases [of 0 "m_configs m" p] by (auto simp: findConfig_def paths_def)

text \<open>The manager's invariant: the active index is an entry or none, and no path occurs twice or is
  empty.\<close>

definition wf_manager :: "'s ConfigManager \<Rightarrow> bool" where
  "wf_manager m =
     (-1 \<le> m_activeIndex m \<and> m_activeIndex m < int (length (m_configs m)) \<and>
      distinct (paths m) \<and> [] \<notin> set (paths m))"

text \<open>The store holds the list and the active index.\<close>

definition synced :: "'s ConfigStore \<Rightarrow> 's ConfigManager \<Rightarrow> bool" where
  "synced cs m =
     (case m_configStore m of
        None \<Rightarrow> False
      | Some s \<Rightarrow>
          snd (read_int cs s KEY_CONFIG_COUNT 0) = int (length (m_configs m)) \<and>
          list_all (\<lambda>i. read_string cs s (config_key i) [] = (True, paths m ! i)) [0..<length (m_configs m)] \<and>
          snd (read_int cs s KEY_ACTIVE_INDEX (-1)) = m_activeIndex m)"

lemma paths_length: "paths m = paths m' \<Longrightarrow> length (m_configs m) = length (m_configs m')"
  by (metis paths_simps(6))

lemma synced_cong:
  "m_configStore m = m_configStore m' \<Longrightarrow> paths m = paths m' \<Longrightarrow> m_activeIndex m = m_activeIndex m' \<Longrightarrow>
     synced cs m = synced cs m'"
  by (frule paths_length) (simp add: synced_def split: option.split)

lemma synced_store: "synced cs m \<Longrightarrow> m_configStore m \<noteq> None"
  by (auto simp: synced_def split: option.splits)

lemma wf_manager_cong:
  "paths m = paths m' \<Longrightarrow> m_activeIndex m = m_activeIndex m' \<Longrightarrow> wf_manager m = wf_manager m'"
  by (simp add: wf_manager_def flip: paths_simps(6))

lemma save_frame [simp]:
  "m_configs (save cs m) = m_configs m" "m_activeIndex (save cs m) = m_activeIndex m"
  "m_changeCallback (save cs m) = m_changeCallback m" "m_configWatcher (save cs m) = m_configWatcher m"
  "paths (save cs m) = paths m"
  "m_configStore (save cs m) = None \<longleftrightarrow> m_configStore m = None"
  by (simp_all add: save_def paths_def split: option.split)

lemma wf_save [simp]: "wf_manager (save cs m) = wf_manager m"
  by (rule wf_manager_cong) simp_all

lemma config_key_inj: "config_key i = config_key j \<longleftrightarrow> i = j"
  by (simp add: config_key_def to_string_def decimal_inj)

lemma config_key_other: "config_key i \<noteq> KEY_CONFIG_COUNT" "config_key i \<noteq> KEY_ACTIVE_INDEX"
  "KEY_CONFIG_COUNT \<noteq> KEY_ACTIVE_INDEX"
  by (simp_all add: config_key_def KEY_CONFIG_PREFIX_def KEY_CONFIG_COUNT_def KEY_ACTIVE_INDEX_def)

section \<open>What the store holds\<close>

context config_store
begin

lemma save_store_writes:
  "save_store cs m s =
     write_int cs
       (write_all (map (\<lambda>i. (config_key i, paths m ! i)) [0..<length (m_configs m)])
          (write_int cs s KEY_CONFIG_COUNT (int (length (m_configs m)))))
       KEY_ACTIVE_INDEX (m_activeIndex m)"
proof -
  have writes: "fold (\<lambda>i. (\<lambda>s. write_string cs s (config_key i) (path (m_configs m ! i)))) is s =
      write_all (map (\<lambda>i. (config_key i, paths m ! i)) is) s"
    if "set is \<subseteq> {..<length (m_configs m)}" for "is" and s
    using that unfolding write_all_def
    by (induction "is" arbitrary: s) (auto simp: paths_def)
  have "set [0..<length (m_configs m)] \<subseteq> {..<length (m_configs m)}" by auto
  from writes [OF this] show ?thesis
    by (simp add: save_store_def Let_def)
qed

lemma save_synced:
  assumes "m_configStore m \<noteq> None"
  shows "synced cs (save cs m)"
proof -
  obtain s where s: "m_configStore m = Some s" using assms by blast
  let ?kvs = "map (\<lambda>i. (config_key i, paths m ! i)) [0..<length (m_configs m)]"
  have keys: "fst ` set ?kvs = config_key ` {..<length (m_configs m)}" by force
  have "distinct (map fst ?kvs)"
    by (simp add: distinct_map inj_on_def config_key_inj)
  then have strings: "read_string cs (write_all ?kvs s') (config_key i) [] = (True, paths m ! i)"
    if "i < length (m_configs m)" for i s'
    using that by (intro read_string_write_all) auto
  have other: "KEY_CONFIG_COUNT \<notin> fst ` set ?kvs" "KEY_ACTIVE_INDEX \<notin> fst ` set ?kvs"
    unfolding keys using config_key_other(1,2) by (metis imageE)+
  let ?s = "save_store cs m s"
  have "snd (read_int cs ?s KEY_CONFIG_COUNT 0) = int (length (m_configs m))"
    unfolding save_store_writes
    by (simp only: read_int_other [OF config_key_other(3) [symmetric]] read_int_write_all [OF other(1)]
        read_int_same snd_conv)
  moreover have "snd (read_int cs ?s KEY_ACTIVE_INDEX (-1)) = m_activeIndex m"
    unfolding save_store_writes by (simp only: read_int_same snd_conv)
  moreover have "read_string cs ?s (config_key i) [] = (True, paths m ! i)"
    if "i < length (m_configs m)" for i
    unfolding save_store_writes
    by (simp only: read_string_int [OF config_key_other(2) [symmetric]] strings [OF that])
  ultimately show ?thesis
    using s by (simp add: synced_def save_def list_all_iff paths_def)
qed

text \<open>Reading back what the store holds.\<close>

lemma load_synced:
  assumes "synced cs m" and "wf_manager m" and "m_configStore m = Some s" "m_configStore m' = Some s"
  shows "m_configs (load cs F m') = map (new_entry F) (paths m)"
    and "m_activeIndex (load cs F m') = m_activeIndex m"
    and "m_configStore (load cs F m') = Some s"
    and "m_changeCallback (load cs F m') = m_changeCallback m'"
    and "m_configWatcher (load cs F m') = m_configWatcher m'"
proof -
  let ?n = "length (m_configs m)"
  have count: "snd (read_int cs s KEY_CONFIG_COUNT 0) = int ?n"
    and active: "snd (read_int cs s KEY_ACTIVE_INDEX (-1)) = m_activeIndex m"
    and str: "\<And>i. i < ?n \<Longrightarrow> read_string cs s (config_key i) [] = (True, paths m ! i)"
    using assms(1,3) by (simp_all add: synced_def list_all_iff)
  have "load_entry cs F s i = [new_entry F (paths m ! i)]" if "i < ?n" for i
  proof -
    have "paths m ! i \<in> set (paths m)" using that by simp
    then have "paths m ! i \<noteq> []" using assms(2) by (auto simp: wf_manager_def)
    then show ?thesis using str [OF that] by (simp add: load_entry_def)
  qed
  then have "concat (map (load_entry cs F s) [0..<?n]) = concat (map (\<lambda>i. [new_entry F (paths m ! i)]) [0..<?n])"
    by (intro arg_cong [where f = concat] map_cong) auto
  then have "concat (map (load_entry cs F s) [0..<?n]) = map (\<lambda>i. new_entry F (paths m ! i)) [0..<?n]"
    by (simp add: concat_map_singleton)
  also have "\<dots> = map (new_entry F) (paths m)"
    using map_nth [of "paths m"] by (metis (no_types) comp_apply list.map_comp map_eq_conv paths_simps(6))
  finally have es: "concat (map (load_entry cs F s) [0..<?n]) = map (new_entry F) (paths m)" .
  have "m_activeIndex m < int ?n" using assms(2) by (simp add: wf_manager_def)
  then show "m_configs (load cs F m') = map (new_entry F) (paths m)"
    and "m_activeIndex (load cs F m') = m_activeIndex m"
    and "m_configStore (load cs F m') = Some s"
    and "m_changeCallback (load cs F m') = m_changeCallback m'"
    and "m_configWatcher (load cs F m') = m_configWatcher m'"
    using assms(4) count active es by (simp_all add: load_def Let_def)
qed

end


section \<open>Steps\<close>

text \<open>What an operation does to the list: it appends entries for files, in particular for the ones of
  a directory.\<close>

lemma scan_fold:
  assumes "fold (scan_entry F) ps (m, k) = (m', k')" and "wf_manager m"
    and "list_all (\<lambda>p. p \<noteq> []) ps"
  shows "wf_manager m' \<and> (\<exists>more. paths m' = paths m @ more \<and> k' = k + length more) \<and>
    m_activeIndex m' = m_activeIndex m \<and> m_configStore m' = m_configStore m \<and>
    m_changeCallback m' = m_changeCallback m \<and> m_configWatcher m' = m_configWatcher m"
  using assms
proof (induction ps arbitrary: m k)
  case Nil
  then show ?case by auto
next
  case (Cons p ps)
  obtain m1 k1 where 1: "scan_entry F p (m, k) = (m1, k1)" by fastforce
  have step: "wf_manager m1 \<and> (\<exists>more. paths m1 = paths m @ more \<and> k1 = k + length more) \<and>
    m_activeIndex m1 = m_activeIndex m \<and> m_configStore m1 = m_configStore m \<and>
    m_changeCallback m1 = m_changeCallback m \<and> m_configWatcher m1 = m_configWatcher m"
  proof (cases rule: findConfig_cases [of m p])
    case absent
    then show ?thesis
      using 1 Cons.prems(2,3)
      by (auto simp: scan_entry_def wf_manager_def paths_def split: if_splits)
  next
    case (present i)
    then show ?thesis
      using 1 Cons.prems(2) by (auto simp: scan_entry_def split: if_splits)
  qed
  have rest: "fold (scan_entry F) ps (m1, k1) = (m', k')" using Cons.prems(1) 1 by simp
  have "list_all (\<lambda>p. p \<noteq> []) ps" using Cons.prems(3) by simp
  from Cons.IH [OF rest conjunct1 [OF step] this] step show ?case
    by (elim conjE exE) simp
qed

text \<open>The names of directory entries are not empty.\<close>

definition proper_directories :: "File_System \<Rightarrow> bool" where
  "proper_directories F =
     (\<forall>k. case nodes F k of Some (Directory ns) \<Rightarrow> [] \<notin> set ns | _ \<Rightarrow> True)"

lemma directory_entries_not_empty:
  "proper_directories F \<Longrightarrow> list_all (\<lambda>p. p \<noteq> []) (directory_entries F d)"
  unfolding proper_directories_def directory_entries_def file_at_def
  by (drule spec [of _ "resolve F d"])
    (auto simp: list_all_iff path_append_def split: option.splits file_node.splits)

context config_store
begin

lemma scanDirectory_keeps:
  assumes "wf_manager m" and "synced cs m" and "proper_directories F"
    and "scanDirectory cs F d m = (n, m')"
  shows "wf_manager m'" "synced cs m'" "\<exists>more. paths m' = paths m @ more"
    "m_activeIndex m' = m_activeIndex m" "m_changeCallback m' = m_changeCallback m"
    "m_configWatcher m' = m_configWatcher m"
proof -
  have store: "m_configStore m \<noteq> None" using assms(2) by (rule synced_store)
  have "wf_manager m' \<and> synced cs m' \<and> (\<exists>more. paths m' = paths m @ more) \<and>
    m_activeIndex m' = m_activeIndex m \<and> m_changeCallback m' = m_changeCallback m \<and>
    m_configWatcher m' = m_configWatcher m"
  proof (cases "\<not> fs_exists F d \<or> \<not> is_directory F d")
    case True
    then show ?thesis using assms by (auto simp: scanDirectory_def)
  next
    case False
    obtain m1 k where fold: "fold (scan_entry F) (directory_entries F d) (m, 0) = (m1, k)" by fastforce
    note facts = scan_fold [OF fold assms(1) directory_entries_not_empty [OF assms(3)]]
    have m': "m' = (if k > 0 then save cs m1 else m1)"
      using assms(4) False fold by (auto simp: scanDirectory_def)
    have "synced cs m'"
    proof (cases "k > 0")
      case True
      then show ?thesis using m' facts store by (simp add: save_synced)
    next
      case False
      then have "synced cs m1 = synced cs m" using facts by (intro synced_cong) auto
      then show ?thesis using False m' assms(2) by simp
    qed
    then show ?thesis using facts m' by auto
  qed
  then show "wf_manager m'" "synced cs m'" "\<exists>more. paths m' = paths m @ more"
    "m_activeIndex m' = m_activeIndex m" "m_changeCallback m' = m_changeCallback m"
    "m_configWatcher m' = m_configWatcher m" by blast+
qed

lemma refreshList_keeps:
  assumes "wf_manager m" and "synced cs m" and "proper_directories F"
  shows "wf_manager (refreshList cs F m)" "synced cs (refreshList cs F m)"
    "\<exists>more. paths (refreshList cs F m) = paths m @ more"
    "m_activeIndex (refreshList cs F m) = m_activeIndex m"
    "m_configWatcher (refreshList cs F m) = m_configWatcher m"
proof -
  let ?m0 = "m\<lparr>m_configs := map (\<lambda>e. e\<lparr>exists := fileExists F (path e)\<rparr>) (m_configs m)\<rparr>"
  let ?m1 = "if getDefaultConfigDir F \<noteq> [] then snd (scanDirectory cs F (getDefaultConfigDir F) ?m0) else ?m0"
  have p0: "paths ?m0 = paths m" by (simp add: paths_def)
  have 0: "wf_manager ?m0" "synced cs ?m0"
    using assms wf_manager_cong [OF p0] synced_cong [OF _ p0] by simp_all
  have 1: "wf_manager ?m1 \<and> synced cs ?m1 \<and> (\<exists>more. paths ?m1 = paths m @ more) \<and>
      m_activeIndex ?m1 = m_activeIndex m \<and> m_configWatcher ?m1 = m_configWatcher m"
    using scanDirectory_keeps [OF 0 assms(3) surjective_pairing] 0 p0 by auto
  then have "wf_manager ?m1" "synced cs ?m1" by blast+
  note 2 = scanDirectory_keeps [OF this assms(3) surjective_pairing, of "current_path F"]
  have "refreshList cs F m = snd (scanDirectory cs F (current_path F) ?m1)"
    by (simp add: refreshList_def Let_def)
  then show "wf_manager (refreshList cs F m)" "synced cs (refreshList cs F m)"
    "\<exists>more. paths (refreshList cs F m) = paths m @ more"
    "m_activeIndex (refreshList cs F m) = m_activeIndex m"
    "m_configWatcher (refreshList cs F m) = m_configWatcher m"
    using 1 2 by auto
qed

end

end
