(* ===== verification/Config_Includes.thy ===== *)
theory Config_Includes
  imports Config_Manager
begin

text \<open>
  The files a configuration includes (\<^verbatim>\<open>parseIncludes\<close>, \<^verbatim>\<open>resolveIncludePath\<close> and
  \<^verbatim>\<open>findDependencies\<close> of src/core/settings/config_manager.cpp). The regular expressions are matched
  the way ECMAScript does, by backtracking with the longest choice first. The recursion over the
  included files is given fuel; a file system with finitely many files needs no more of it than it
  has files, because a file is entered once.
\<close>

section \<open>Lines\<close>

definition isspace :: "char \<Rightarrow> bool" where
  "isspace c = (c = CHR '' '' \<or> (9 \<le> (of_char c :: nat) \<and> (of_char c :: nat) \<le> 13))"

text \<open>\<^verbatim>\<open>std::getline\<close> until the end of the file: a last line without a newline counts if it is not
  empty.\<close>

fun lines :: "string \<Rightarrow> string \<Rightarrow> string list" where
  "lines acc [] = (if acc = [] then [] else [rev acc])"
| "lines acc (c # s) = (if c = CHR 0x0A then rev acc # lines [] s else lines (c # acc) s)"

definition strip_comment :: "string \<Rightarrow> string" where
  "strip_comment line = takeWhile (\<lambda>c. c \<noteq> CHR ''#'') (takeWhile (\<lambda>c. c \<noteq> CHR '';'') line)"

text \<open>What may follow when the pattern has an optional quote, and the non-empty runs of characters
  other than quotes, longest first.\<close>

definition optional_quote :: "string \<Rightarrow> string list" where
  "optional_quote s = (case s of c # r \<Rightarrow> if c = CHR 0x22 then [r, s] else [s] | [] \<Rightarrow> [s])"

definition runs :: "(char \<Rightarrow> bool) \<Rightarrow> string \<Rightarrow> (string \<times> string) list" where
  "runs P s = map (\<lambda>k. (take k s, drop k s)) (rev [1..<Suc (length (takeWhile P s))])"

text \<open>The text after \<^verbatim>\<open>^\s*include\<close>.\<close>

definition after_include :: "string \<Rightarrow> string option" where
  "after_include line =
     (let s = dropWhile isspace line in
      if take 7 s = ''include'' then Some (drop 7 s) else None)"

text \<open>\<^verbatim>\<open>^\s*include\s+\"?([^\"]+)\"?\s*$\<close> and \<^verbatim>\<open>^\s*include\s+(\S+)\s*$\<close>: the first group of a match.\<close>

definition includeRegex :: "string \<Rightarrow> string option" where
  "includeRegex line =
     (case after_include line of None \<Rightarrow> None
      | Some s \<Rightarrow>
          (case concat (map (\<lambda>(ws, s1).
                   concat (map (\<lambda>s2.
                     concat (map (\<lambda>(g, s3).
                       concat (map (\<lambda>s4. if list_all isspace s4 then [g] else []) (optional_quote s3)))
                       (runs (\<lambda>c. c \<noteq> CHR 0x22) s2)))
                     (optional_quote s1)))
                   (runs isspace s)) of
             [] \<Rightarrow> None | g # _ \<Rightarrow> Some g))"

definition includeRegex2 :: "string \<Rightarrow> string option" where
  "includeRegex2 line =
     (case after_include line of None \<Rightarrow> None
      | Some s \<Rightarrow>
          (case concat (map (\<lambda>(ws, s1).
                   concat (map (\<lambda>(g, s2). if list_all isspace s2 then [g] else [])
                     (runs (\<lambda>c. \<not> isspace c) s1)))
                   (runs isspace s)) of
             [] \<Rightarrow> None | g # _ \<Rightarrow> Some g))"

definition parse_line :: "string \<Rightarrow> string list" where
  "parse_line line =
     (let line = strip_comment line in
      case includeRegex line of
        Some g \<Rightarrow> [g]
      | None \<Rightarrow> (case includeRegex2 line of Some g \<Rightarrow> [g] | None \<Rightarrow> []))"

definition parseIncludes :: "File_System \<Rightarrow> string \<Rightarrow> string list" where
  "parseIncludes F configPath =
     (case read_file F configPath of
        None \<Rightarrow> []
      | Some text \<Rightarrow> concat (map parse_line (lines [] text)))"

section \<open>Files\<close>

definition resolveIncludePath :: "File_System \<Rightarrow> string \<Rightarrow> string \<Rightarrow> string" where
  "resolveIncludePath F includePath basePath =
     (if is_absolute includePath then (if fs_exists F includePath then includePath else [])
      else
        let resolved = path_append basePath includePath in
        if fs_exists F resolved then resolve F resolved
        else
          let defaultDir = getDefaultConfigDir F;
              resolved = path_append defaultDir includePath
          in if defaultDir \<noteq> [] \<and> fs_exists F resolved then resolve F resolved else [])"

primrec findDependencies ::
  "nat \<Rightarrow> File_System \<Rightarrow> string \<Rightarrow> string set \<times> string set \<Rightarrow> (string set \<times> string set) option" where
  "findDependencies 0 F configPath = (\<lambda>_. None)"
| "findDependencies (Suc n) F configPath = (\<lambda>(dependencies, visited).
     case fs_canonical F configPath of
       None \<Rightarrow> Some (dependencies, visited)
     | Some canonical \<Rightarrow>
         if canonical \<in> visited then Some (dependencies, visited)
         else
           opt_fold
             (\<lambda>inc (dependencies, visited).
                let resolved = resolveIncludePath F inc (parent_path configPath) in
                if resolved \<noteq> []
                then findDependencies n F resolved (insert resolved dependencies, visited)
                else Some (dependencies, visited))
             (parseIncludes F configPath)
             (dependencies, insert canonical visited))"

section \<open>What it finds\<close>

text \<open>A file includes another.\<close>

definition included :: "File_System \<Rightarrow> string \<Rightarrow> string set" where
  "included F p =
     {q. q \<noteq> [] \<and> (\<exists>inc\<in>set (parseIncludes F p). q = resolveIncludePath F inc (parent_path p))}"

definition includes_rel :: "File_System \<Rightarrow> (string \<times> string) set" where
  "includes_rel F = {(p, q). q \<in> included F p}"

text \<open>Files are named by their canonical paths.\<close>

definition canonical_includes :: "File_System \<Rightarrow> bool" where
  "canonical_includes F = (\<forall>p q. q \<in> included F p \<longrightarrow> resolve F q = q)"

lemma included_exists:
  assumes "canonical_includes F" and "q \<in> included F p"
  shows "fs_exists F q" and "resolve F q = q"
proof -
  show q: "resolve F q = q" using assms by (auto simp: canonical_includes_def)
  obtain inc base where e: "q = resolveIncludePath F inc base" "q \<noteq> []"
    using assms(2) by (auto simp: included_def)
  then have "fs_exists F q \<or> (\<exists>r. fs_exists F r \<and> q = resolve F r)"
    by (auto simp: resolveIncludePath_def Let_def split: if_splits)
  then show "fs_exists F q" using q by (auto simp: fs_exists_def file_at_def)
qed

text \<open>
  What a part of the search did: from the sets \<^verbatim>\<open>D\<close> of dependencies and \<^verbatim>\<open>V\<close> of visited files to
  larger ones, such that a newly visited file has all it includes in both, and what was added to
  the dependencies is among \<^verbatim>\<open>T\<close> or included by a newly visited file reachable from \<^verbatim>\<open>p\<close>.
\<close>

definition searched ::
  "File_System \<Rightarrow> string \<Rightarrow> string set \<Rightarrow> string set \<times> string set \<Rightarrow> string set \<times> string set \<Rightarrow> bool" where
  "searched F p T st st' =
     (fst st \<subseteq> fst st' \<and> snd st \<subseteq> snd st' \<and>
      (\<forall>v\<in>snd st' - snd st. included F v \<subseteq> fst st' \<inter> snd st' \<and> (p, v) \<in> (includes_rel F)\<^sup>*) \<and>
      fst st' \<subseteq> fst st \<union> T \<union> (\<Union>v\<in>snd st' - snd st. included F v))"

lemma searched_refl: "searched F p T st st"
  by (auto simp: searched_def)

lemma searched_mono: "searched F p T st st' \<Longrightarrow> T \<subseteq> T' \<Longrightarrow> searched F p T' st st'"
  by (auto simp: searched_def)

lemma searched_trans:
  assumes "searched F p T st st1" and "searched F p T st1 st2"
  shows "searched F p T st st2"
proof -
  have 1: "fst st \<subseteq> fst st1" "snd st \<subseteq> snd st1"
    "\<And>v. v \<in> snd st1 - snd st \<Longrightarrow> included F v \<subseteq> fst st1 \<inter> snd st1 \<and> (p, v) \<in> (includes_rel F)\<^sup>*"
    "fst st1 \<subseteq> fst st \<union> T \<union> (\<Union>v\<in>snd st1 - snd st. included F v)"
    using assms(1) by (simp_all add: searched_def)
  have 2: "fst st1 \<subseteq> fst st2" "snd st1 \<subseteq> snd st2"
    "\<And>v. v \<in> snd st2 - snd st1 \<Longrightarrow> included F v \<subseteq> fst st2 \<inter> snd st2 \<and> (p, v) \<in> (includes_rel F)\<^sup>*"
    "fst st2 \<subseteq> fst st1 \<union> T \<union> (\<Union>v\<in>snd st2 - snd st1. included F v)"
    using assms(2) by (simp_all add: searched_def)
  have new: "snd st2 - snd st = (snd st1 - snd st) \<union> (snd st2 - snd st1)" using 1(2) 2(2) by blast
  have "included F v \<subseteq> fst st2 \<inter> snd st2 \<and> (p, v) \<in> (includes_rel F)\<^sup>*" if "v \<in> snd st2 - snd st" for v
  proof (cases "v \<in> snd st1")
    case True
    then show ?thesis using 1(3) [of v] 2(1,2) that by blast
  next
    case False
    then show ?thesis using 2(3) [of v] that by blast
  qed
  moreover have "fst st2 \<subseteq> fst st \<union> T \<union> (\<Union>v\<in>snd st2 - snd st. included F v)"
    unfolding new UN_Un using 1(4) 2(4) by blast
  ultimately show ?thesis using 1(1,2) 2(1,2) by (auto simp: searched_def)
qed

lemma searched_whole:
  assumes "searched F p (included F p) (D, insert p V) st'" and "included F p \<subseteq> fst st' \<inter> snd st'"
    and "p \<notin> V"
  shows "searched F p {} (D, V) st'"
proof -
  have p: "p \<in> snd st'" using assms(1) by (auto simp: searched_def)
  then have new: "snd st' - V = insert p (snd st' - insert p V)" using assms(3) by blast
  have a: "D \<subseteq> fst st'" "V \<subseteq> snd st'"
    "\<And>v. v \<in> snd st' - insert p V \<Longrightarrow> included F v \<subseteq> fst st' \<inter> snd st' \<and> (p, v) \<in> (includes_rel F)\<^sup>*"
    "fst st' \<subseteq> D \<union> included F p \<union> (\<Union>v\<in>snd st' - insert p V. included F v)"
    using assms(1) by (simp_all add: searched_def)
  have "fst st' \<subseteq> D \<union> {} \<union> (\<Union>v\<in>snd st' - V. included F v)"
    unfolding new UN_insert using a(4) by blast
  moreover have "included F v \<subseteq> fst st' \<inter> snd st' \<and> (p, v) \<in> (includes_rel F)\<^sup>*" if "v \<in> snd st' - V" for v
    using that a(3) [of v] assms(2) new by auto
  ultimately show ?thesis using a(1,2) by (simp add: searched_def)
qed

lemma searched_from:
  assumes "searched F q {} st st'" and "(p, q) \<in> includes_rel F"
  shows "searched F p {} st st'"
  using assms unfolding searched_def by (auto intro: converse_rtrancl_into_rtrancl)

lemma searched_insert: "q \<in> T \<Longrightarrow> searched F p T (D, V) (insert q D, V)"
  by (auto simp: searched_def)

lemma fuel_decreases:
  assumes "finite (dom (nodes F))" and "snd st \<subseteq> snd st'" and "card (dom (nodes F) - snd st) < n"
  shows "card (dom (nodes F) - snd st') < n"
proof -
  have "card (dom (nodes F) - snd st') \<le> card (dom (nodes F) - snd st)"
    using assms by (intro card_mono) auto
  then show ?thesis using assms(3) by simp
qed

lemma findDependencies_search:
  assumes fin: "finite (dom (nodes F))" and canon: "canonical_includes F"
  shows "resolve F p = p \<Longrightarrow> card (dom (nodes F) - snd st) < n \<Longrightarrow>
    \<exists>st'. findDependencies n F p st = Some st' \<and> searched F p {} st st' \<and>
      (fs_exists F p \<longrightarrow> p \<in> snd st')"
proof (induction n arbitrary: p st)
  case 0
  then show ?case by simp
next
  case (Suc n)
  obtain D V where st: "st = (D, V)" by fastforce
  show ?case
  proof (cases "\<not> fs_exists F p \<or> p \<in> V")
    case True
    then show ?thesis
      using Suc.prems(1) st by (auto simp: fs_canonical_def intro!: searched_refl)
  next
    case False
    then have p: "fs_canonical F p = Some p" "p \<notin> V" "p \<in> dom (nodes F)"
      using Suc.prems(1) by (auto simp: fs_canonical_def fs_exists_def file_at_def)
    have less: "card (dom (nodes F) - insert p V) < n"
    proof -
      have "dom (nodes F) - insert p V \<subset> dom (nodes F) - V" using p by blast
      then have "card (dom (nodes F) - insert p V) < card (dom (nodes F) - V)"
        using fin by (intro psubset_card_mono) auto
      then show ?thesis using Suc.prems(2) st by simp
    qed
    let ?body = "\<lambda>inc (dependencies, visited).
        let resolved = resolveIncludePath F inc (parent_path p) in
        if resolved \<noteq> []
        then findDependencies n F resolved (insert resolved dependencies, visited)
        else Some (dependencies, visited)"
    have loop: "\<exists>st'. opt_fold ?body incs st1 = Some st' \<and> searched F p (included F p) st1 st' \<and>
        (\<forall>inc\<in>set incs. resolveIncludePath F inc (parent_path p) \<noteq> [] \<longrightarrow>
           resolveIncludePath F inc (parent_path p) \<in> fst st' \<inter> snd st')"
      if "set incs \<subseteq> set (parseIncludes F p)" "card (dom (nodes F) - snd st1) < n" for incs st1
      using that
    proof (induction incs arbitrary: st1)
      case Nil
      then show ?case by (auto intro: searched_refl)
    next
      case (Cons inc incs)
      obtain D1 V1 where st1: "st1 = (D1, V1)" by fastforce
      let ?q = "resolveIncludePath F inc (parent_path p)"
      have "\<exists>st2. ?body inc st1 = Some st2 \<and> searched F p (included F p) st1 st2 \<and>
          (?q \<noteq> [] \<longrightarrow> ?q \<in> fst st2 \<inter> snd st2)"
      proof (cases "?q = []")
        case True
        then show ?thesis using st1 by (auto intro: searched_refl)
      next
        case False
        have inc: "?q \<in> included F p" using False Cons.prems(1) by (auto simp: included_def)
        have q: "resolve F ?q = ?q" "fs_exists F ?q" using included_exists [OF canon inc] by simp_all
        have "card (dom (nodes F) - snd (insert ?q D1, V1)) < n" using Cons.prems(2) st1 by simp
        from Suc.IH [OF q(1) this] obtain st2 where
          2: "findDependencies n F ?q (insert ?q D1, V1) = Some st2"
            "searched F ?q {} (insert ?q D1, V1) st2" "?q \<in> snd st2" using q(2) by blast
        have "searched F p (included F p) (insert ?q D1, V1) st2"
          using searched_mono [OF searched_from [OF 2(2)]] inc by (simp add: includes_rel_def)
        then have "searched F p (included F p) st1 st2"
          using searched_trans [OF searched_insert [OF inc]] st1 by simp
        moreover have "?q \<in> fst st2" using 2(2) by (auto simp: searched_def)
        ultimately show ?thesis using 2 False st1 by auto
      qed
      then obtain st2 where 2: "?body inc st1 = Some st2" "searched F p (included F p) st1 st2"
        "?q \<noteq> [] \<longrightarrow> ?q \<in> fst st2 \<inter> snd st2" by blast
      have "card (dom (nodes F) - snd st2) < n"
        using fuel_decreases [OF fin _ Cons.prems(2)] 2(2) by (auto simp: searched_def)
      then obtain st' where 3: "opt_fold ?body incs st2 = Some st'" "searched F p (included F p) st2 st'"
        "\<forall>inc\<in>set incs. resolveIncludePath F inc (parent_path p) \<noteq> [] \<longrightarrow>
           resolveIncludePath F inc (parent_path p) \<in> fst st' \<inter> snd st'"
        using Cons.IH [of st2] Cons.prems(1) by auto
      have "fst st2 \<subseteq> fst st'" "snd st2 \<subseteq> snd st'" using 3(2) by (auto simp: searched_def)
      then show ?case
        using 2 3 searched_trans [OF 2(2) 3(2)] by auto
    qed
    obtain st' where l: "opt_fold ?body (parseIncludes F p) (D, insert p V) = Some st'"
      "searched F p (included F p) (D, insert p V) st'"
      "\<forall>inc\<in>set (parseIncludes F p). resolveIncludePath F inc (parent_path p) \<noteq> [] \<longrightarrow>
           resolveIncludePath F inc (parent_path p) \<in> fst st' \<inter> snd st'"
      using loop [of "parseIncludes F p" "(D, insert p V)"] less by auto
    have all: "included F p \<subseteq> fst st' \<inter> snd st'" using l(3) by (auto simp: included_def)
    have "searched F p {} (D, V) st'"
      by (rule searched_whole [OF l(2) all p(2)])
    moreover have "findDependencies (Suc n) F p st = Some st'"
      using p l(1) st by (simp add: case_prod_unfold)
    moreover have "p \<in> snd st'" using l(2) by (auto simp: searched_def)
    ultimately show ?thesis using st by blast
  qed
qed

text \<open>C17: The search for the files a configuration includes ends for every finite file system, also
  when files include each other, with fuel one above the number of files; it finds exactly the
  files that can be reached through include lines, and visits besides them only the configuration
  itself. Files are named by canonical paths.\<close>

theorem dependencies_are_reachable_files:
  assumes "finite (dom (nodes F))" and "canonical_includes F"
    and "resolve F p = p" and "fs_exists F p" and "card (dom (nodes F)) < n"
  shows "findDependencies n F p ({}, {}) =
    Some ({q. (p, q) \<in> (includes_rel F)\<^sup>+}, {q. (p, q) \<in> (includes_rel F)\<^sup>*})"
proof -
  obtain D V where r: "findDependencies n F p ({}, {}) = Some (D, V)"
    and s: "searched F p {} ({}, {}) (D, V)" and p: "p \<in> V"
    using findDependencies_search [OF assms(1,2,3), of "({}, {})" n] assms(4,5) by auto
  have closed: "included F v \<subseteq> D \<inter> V" if "v \<in> V" for v using s that by (auto simp: searched_def)
  have visited: "V = {q. (p, q) \<in> (includes_rel F)\<^sup>*}"
  proof
    show "V \<subseteq> {q. (p, q) \<in> (includes_rel F)\<^sup>*}" using s by (auto simp: searched_def)
    have "q \<in> V" if "(p, q) \<in> (includes_rel F)\<^sup>*" for q
      using that
    proof induction
      case base
      show ?case by (rule p)
    next
      case (step y z)
      then show ?case using closed [of y] by (auto simp: includes_rel_def)
    qed
    then show "{q. (p, q) \<in> (includes_rel F)\<^sup>*} \<subseteq> V" by blast
  qed
  have "D = (\<Union>v\<in>V. included F v)" using s closed by (auto simp: searched_def)
  also have "\<dots> = {q. (p, q) \<in> (includes_rel F)\<^sup>+}"
    unfolding visited by (auto simp: includes_rel_def trancl_unfold_right relcomp_unfold)
  finally show ?thesis using r visited by simp
qed

text \<open>Two files that include each other, the second by a path in quotes and a comment behind it.\<close>

definition example_includes :: File_System where
  "example_includes =
     \<lparr>resolve = (\<lambda>p. p),
      nodes = [''/c'' \<mapsto> Directory [''m.mayu'', ''s.mayu''],
               ''/c/m.mayu'' \<mapsto> Regular_File (''include s.mayu'') 0,
               ''/c/s.mayu'' \<mapsto> Regular_File (''include '' @ [CHR 0x22] @ ''m.mayu'' @ [CHR 0x22] @ '' # x'') 0],
      current_path = ''/'', absolute_dir = parent_path, environment = Map.empty, clock = 0\<rparr>"

lemma example_parsed:
  "parseIncludes example_includes ''/c/m.mayu'' = [''s.mayu'']"
  "parseIncludes example_includes ''/c/s.mayu'' = [''m.mayu'']"
  by code_simp+

theorem dependencies_are_reachable_files_witness:
  "\<exists>D V. findDependencies 4 example_includes ''/c/m.mayu'' ({}, {}) = Some (D, V) \<and>
     ''/c/s.mayu'' \<in> D \<and> ''/c/m.mayu'' \<in> D"
proof -
  let ?F = "example_includes"
  have dom: "dom (nodes ?F) = {''/c'', ''/c/m.mayu'', ''/c/s.mayu''}"
    by (auto simp: example_includes_def)
  have "finite (dom (nodes ?F))" "card (dom (nodes ?F)) < 4" unfolding dom by simp_all
  moreover have "canonical_includes ?F" by (simp add: canonical_includes_def example_includes_def)
  moreover have "resolve ?F ''/c/m.mayu'' = ''/c/m.mayu''" "fs_exists ?F ''/c/m.mayu''" by code_simp+
  ultimately have r: "findDependencies 4 ?F ''/c/m.mayu'' ({}, {}) =
    Some ({q. (''/c/m.mayu'', q) \<in> (includes_rel ?F)\<^sup>+}, {q. (''/c/m.mayu'', q) \<in> (includes_rel ?F)\<^sup>*})"
    using dependencies_are_reachable_files [of ?F "''/c/m.mayu''" 4] by blast
  have resolved: "resolveIncludePath ?F ''s.mayu'' (parent_path ''/c/m.mayu'') = ''/c/s.mayu''"
    "resolveIncludePath ?F ''m.mayu'' (parent_path ''/c/s.mayu'') = ''/c/m.mayu''" by code_simp+
  have "(''/c/m.mayu'', ''/c/s.mayu'') \<in> includes_rel ?F" "(''/c/s.mayu'', ''/c/m.mayu'') \<in> includes_rel ?F"
    by (simp_all add: includes_rel_def included_def example_parsed resolved)
  then show ?thesis using r by (auto intro: trancl_into_trancl)
qed

text \<open>A blank behind a path without quotes becomes part of it, since the first pattern takes it before
  the one meant for such paths is tried; so does the carriage return of a file with CRLF lines.\<close>

lemma trailing_blank_in_include:
  "parse_line ''include s.mayu '' = [''s.mayu '']"
  "parse_line (''include s.mayu'' @ [CHR 0x0D]) = [''s.mayu'' @ [CHR 0x0D]]"
  by code_simp+

end
