(* ===== verification/Archive_Format.thy ===== *)
theory Archive_Format
  imports File_System "HOL-Library.Sublist"
begin

text \<open>
  The package format of exported configurations (the archive functions of
  src/core/settings/config_manager.cpp): little-endian lengths in front of paths and contents. A
  stream being read is the bytes left and whether it is still good; a read past the end takes what
  there is and makes the stream bad, and a bad stream gives nothing, as \<^verbatim>\<open>std::ifstream\<close> does. The
  machine is little-endian.
\<close>

section \<open>Numbers\<close>

definition le_bytes :: "nat \<Rightarrow> nat \<Rightarrow> string" where
  "le_bytes k n = map (\<lambda>i. char_of (n div 256 ^ i)) [0..<k]"

primrec le_value :: "string \<Rightarrow> nat" where
  "le_value [] = 0"
| "le_value (c # cs) = of_char c + 256 * le_value cs"

lemma length_le_bytes [simp]: "length (le_bytes k n) = k"
  by (simp add: le_bytes_def)

lemma le_bytes_Suc: "le_bytes (Suc k) n = char_of n # le_bytes k (n div 256)"
proof -
  have "[0..<Suc k] = 0 # map Suc [0..<k]" by (simp add: upt_conv_Cons map_Suc_upt del: upt_Suc)
  then show ?thesis by (simp add: le_bytes_def div_mult2_eq comp_def del: upt_Suc)
qed

lemma le_value_bytes: "le_value (le_bytes k n) = n mod 256 ^ k"
proof (induction k arbitrary: n)
  case 0
  then show ?case by (simp add: le_bytes_def)
next
  case (Suc k)
  have "le_value (le_bytes (Suc k) n) = n mod 256 + 256 * (n div 256 mod 256 ^ k)"
    by (simp add: le_bytes_Suc Suc)
  also have "\<dots> = n mod 256 ^ Suc k" by (simp add: mod_mult2_eq)
  finally show ?case .
qed

section \<open>Streams\<close>

record istream =
  rest :: string
  good :: bool

definition open_stream :: "string \<Rightarrow> istream" where
  "open_stream bs = \<lparr>rest = bs, good = True\<rparr>"

text \<open>\<^verbatim>\<open>in.read(buf, n)\<close>: the bytes put at the start of the buffer.\<close>

definition stream_read :: "nat \<Rightarrow> istream \<Rightarrow> string \<times> istream" where
  "stream_read n s =
     (if \<not> good s then ([], s)
      else if n \<le> length (rest s) then (take n (rest s), s\<lparr>rest := drop n (rest s)\<rparr>)
      else (rest s, \<lparr>rest = [], good = False\<rparr>))"

text \<open>Reading into a variable that holds zero: the bytes not read stay zero, which does not change
  the value.\<close>

definition read_u32 :: "istream \<Rightarrow> nat \<times> istream" where
  "read_u32 s = (let (bs, s) = stream_read 4 s in (le_value bs, s))"

definition read_u64 :: "istream \<Rightarrow> nat \<times> istream" where
  "read_u64 s = (let (bs, s) = stream_read 8 s in (le_value bs, s))"

text \<open>Reading into a buffer resized to \<^verbatim>\<open>n\<close> zero bytes.\<close>

definition read_buffer :: "nat \<Rightarrow> istream \<Rightarrow> string \<times> istream" where
  "read_buffer n s =
     (let (bs, s) = stream_read n s in (bs @ replicate (n - length bs) (CHR 0x00), s))"

lemma stream_read_here:
  "stream_read (length bs) \<lparr>rest = bs @ ys, good = True\<rparr> = (bs, \<lparr>rest = ys, good = True\<rparr>)"
  by (simp add: stream_read_def)

lemma read_u32_here:
  "n < 2 ^ 32 \<Longrightarrow> read_u32 \<lparr>rest = le_bytes 4 n @ ys, good = True\<rparr> = (n, \<lparr>rest = ys, good = True\<rparr>)"
  using stream_read_here [of "le_bytes 4 n" ys] by (simp add: read_u32_def le_value_bytes)

lemma read_u64_here:
  "n < 2 ^ 64 \<Longrightarrow> read_u64 \<lparr>rest = le_bytes 8 n @ ys, good = True\<rparr> = (n, \<lparr>rest = ys, good = True\<rparr>)"
  using stream_read_here [of "le_bytes 8 n" ys] by (simp add: read_u64_def le_value_bytes)

lemma read_buffer_here:
  "read_buffer (length bs) \<lparr>rest = bs @ ys, good = True\<rparr> = (bs, \<lparr>rest = ys, good = True\<rparr>)"
  using stream_read_here [of bs ys] by (simp add: read_buffer_def)

section \<open>Archives\<close>

definition ARCHIVE_MAGIC :: nat where "ARCHIVE_MAGIC = 0x59414D59"
definition ARCHIVE_VERSION :: nat where "ARCHIVE_VERSION = 1"

text \<open>The writers append to the bytes written so far. Lengths are cast to 32 and 64 bits, and the
  path is written up to its cast length.\<close>

definition writeArchiveHeader :: "string \<Rightarrow> nat \<Rightarrow> string" where
  "writeArchiveHeader out fileCount =
     out @ le_bytes 4 ARCHIVE_MAGIC @ le_bytes 4 ARCHIVE_VERSION @ le_bytes 4 fileCount"

definition writeArchiveEntry ::
  "File_System \<Rightarrow> string \<Rightarrow> string \<Rightarrow> string \<Rightarrow> string option" where
  "writeArchiveEntry F out relativePath absolutePath =
     (case read_file F absolutePath of
        None \<Rightarrow> None
      | Some body \<Rightarrow>
          let pathLen = length relativePath mod 2 ^ 32 in
          Some (out @ le_bytes 4 pathLen @ take pathLen relativePath @
                le_bytes 8 (length body) @ body))"

definition readArchiveHeader :: "istream \<Rightarrow> (nat \<times> istream) option" where
  "readArchiveHeader s =
     (let (magic, s) = read_u32 s in
      if magic \<noteq> ARCHIVE_MAGIC then None
      else
        let (version, s) = read_u32 s in
        if version \<noteq> ARCHIVE_VERSION then None
        else let (fileCount, s) = read_u32 s in if good s then Some (fileCount, s) else None)"

definition readArchiveEntry :: "istream \<Rightarrow> ((string \<times> string) \<times> istream) option" where
  "readArchiveEntry s =
     (let (pathLen, s) = read_u32 s in
      if \<not> good s \<or> pathLen > 4096 then None
      else
        let (relativePath, s) = read_buffer pathLen s;
            (contentLen, s) = read_u64 s in
        if \<not> good s \<or> contentLen > 100 * 1024 * 1024 then None
        else
          let (body, s) = (if contentLen > 0 then read_buffer contentLen s else ([], s)) in
          if good s then Some ((relativePath, body), s) else None)"

text \<open>No path out of the target directory; the first character of an empty string is NUL.\<close>

definition traversal :: "string \<Rightarrow> bool" where
  "traversal p = (sublist ''..'' p \<or> (p \<noteq> [] \<and> (hd p = CHR ''/'' \<or> hd p = CHR 0x5C)))"

fun entries_valid :: "nat \<Rightarrow> istream \<Rightarrow> bool" where
  "entries_valid 0 s = True"
| "entries_valid (Suc n) s =
     (case readArchiveEntry s of
        None \<Rightarrow> False
      | Some ((p, c), s') \<Rightarrow> if traversal p then False else entries_valid n s')"

fun entries_listed :: "nat \<Rightarrow> istream \<Rightarrow> string list" where
  "entries_listed 0 s = []"
| "entries_listed (Suc n) s =
     (case readArchiveEntry s of None \<Rightarrow> [] | Some ((p, c), s') \<Rightarrow> p # entries_listed n s')"

definition validateArchive :: "File_System \<Rightarrow> string \<Rightarrow> bool" where
  "validateArchive F archivePath =
     (case read_file F archivePath of
        None \<Rightarrow> False
      | Some bs \<Rightarrow>
          (case readArchiveHeader (open_stream bs) of
             None \<Rightarrow> False
           | Some (fileCount, s) \<Rightarrow> entries_valid fileCount s))"

definition listArchiveContents :: "File_System \<Rightarrow> string \<Rightarrow> string list" where
  "listArchiveContents F archivePath =
     (case read_file F archivePath of
        None \<Rightarrow> []
      | Some bs \<Rightarrow>
          (case readArchiveHeader (open_stream bs) of
             None \<Rightarrow> []
           | Some (fileCount, s) \<Rightarrow> entries_listed fileCount s))"

section \<open>Reading what was written\<close>

definition entry_bytes :: "string \<times> string \<Rightarrow> string" where
  "entry_bytes e = le_bytes 4 (length (fst e)) @ fst e @ le_bytes 8 (length (snd e)) @ snd e"

definition header_bytes :: "nat \<Rightarrow> string" where
  "header_bytes n = le_bytes 4 ARCHIVE_MAGIC @ le_bytes 4 ARCHIVE_VERSION @ le_bytes 4 n"

text \<open>What the reader accepts.\<close>

definition within_limits :: "string \<times> string \<Rightarrow> bool" where
  "within_limits e = (length (fst e) \<le> 4096 \<and> length (snd e) \<le> 100 * 1024 * 1024)"

definition representable :: "string \<times> string \<Rightarrow> bool" where
  "representable e = (length (fst e) < 2 ^ 32 \<and> length (snd e) < 2 ^ 64)"

lemma readArchiveHeader_here:
  "n < 2 ^ 32 \<Longrightarrow> readArchiveHeader (open_stream (header_bytes n @ ys)) =
     Some (n, \<lparr>rest = ys, good = True\<rparr>)"
  by (simp add: readArchiveHeader_def open_stream_def header_bytes_def ARCHIVE_MAGIC_def
      ARCHIVE_VERSION_def read_u32_here)

lemma readArchiveEntry_here:
  assumes "representable e"
  shows "readArchiveEntry \<lparr>rest = entry_bytes e @ ys, good = True\<rparr> =
    (if within_limits e then Some (e, \<lparr>rest = ys, good = True\<rparr>) else None)"
proof -
  obtain p c where e: "e = (p, c)" by fastforce
  have 1: "read_u32 \<lparr>rest = le_bytes 4 (length p) @ p @ le_bytes 8 (length c) @ c @ ys, good = True\<rparr> =
      (length p, \<lparr>rest = p @ le_bytes 8 (length c) @ c @ ys, good = True\<rparr>)"
    using assms e by (intro read_u32_here) (simp add: representable_def)
  have 2: "read_buffer (length p) \<lparr>rest = p @ le_bytes 8 (length c) @ c @ ys, good = True\<rparr> =
      (p, \<lparr>rest = le_bytes 8 (length c) @ c @ ys, good = True\<rparr>)"
    by (rule read_buffer_here)
  have 3: "read_u64 \<lparr>rest = le_bytes 8 (length c) @ c @ ys, good = True\<rparr> =
      (length c, \<lparr>rest = c @ ys, good = True\<rparr>)"
    using assms e by (intro read_u64_here) (simp add: representable_def)
  have 4: "read_buffer (length c) \<lparr>rest = c @ ys, good = True\<rparr> = (c, \<lparr>rest = ys, good = True\<rparr>)"
    by (rule read_buffer_here)
  show ?thesis
    by (auto simp: e readArchiveEntry_def entry_bytes_def within_limits_def 1 2 3 4 Let_def)
qed

lemma entries_valid_here:
  "list_all representable es \<Longrightarrow>
   entries_valid (length es) \<lparr>rest = concat (map entry_bytes es), good = True\<rparr> =
     list_all (\<lambda>e. within_limits e \<and> \<not> traversal (fst e)) es"
proof (induction es)
  case Nil
  then show ?case by simp
next
  case (Cons e es)
  then show ?case
    using readArchiveEntry_here [of e "concat (map entry_bytes es)"]
    by (simp add: case_prod_unfold)
qed

lemma entries_listed_here:
  "list_all representable es \<Longrightarrow> list_all within_limits es \<Longrightarrow>
   entries_listed (length es) \<lparr>rest = concat (map entry_bytes es), good = True\<rparr> = map fst es"
proof (induction es)
  case Nil
  then show ?case by simp
next
  case (Cons e es)
  then show ?case
    using readArchiveEntry_here [of e "concat (map entry_bytes es)"]
    by (simp add: case_prod_unfold)
qed

end
