(* ===== verification/Config_Archive.thy ===== *)
theory Config_Archive
  imports Config_Includes Archive_Format "HOL-Library.List_Lexorder" "HOL-Library.Char_ord"
begin

text \<open>
  Exporting a configuration with the files it includes into one package, and importing a package
  (\<^verbatim>\<open>exportConfig\<close> and \<^verbatim>\<open>importConfig\<close> of src/core/settings/config_manager.cpp). The text that an
  exception of the standard library adds to an error message is left out.
\<close>

section \<open>Results\<close>

record ImportExportResult =
  success :: bool
  errorMessage :: string
  filesProcessed :: "string list"

definition failed :: "string \<Rightarrow> string list \<Rightarrow> ImportExportResult" where
  "failed msg processed = \<lparr>success = False, errorMessage = msg, filesProcessed = processed\<rparr>"

section \<open>Export\<close>

text \<open>\<^verbatim>\<open>fs::relative\<close> of two existing paths: their canonical paths are split into components, the
  common ones dropped, and one \<^verbatim>\<open>..\<close> put for each that is left of the base.\<close>

fun components :: "string \<Rightarrow> string \<Rightarrow> string list" where
  "components acc [] = (if acc = [] then [] else [rev acc])"
| "components acc (c # s) =
     (if c = CHR ''/'' then (if acc = [] then components [] s else rev acc # components [] s)
      else components (c # acc) s)"

fun drop_common :: "string list \<Rightarrow> string list \<Rightarrow> string list \<times> string list" where
  "drop_common (a # as) (b # bs) = (if a = b then drop_common as bs else (a # as, b # bs))"
| "drop_common as bs = (as, bs)"

fun join_path :: "string list \<Rightarrow> string" where
  "join_path [] = []"
| "join_path [c] = c"
| "join_path (c # cs) = c @ ''/'' @ join_path cs"

definition fs_relative :: "File_System \<Rightarrow> string \<Rightarrow> string \<Rightarrow> string" where
  "fs_relative F p base =
     (let (as, bs) = drop_common (components [] (resolve F base)) (components [] (resolve F p)) in
      if as = [] \<and> bs = [] then ''.'' else join_path (map (\<lambda>_. ''..'') as @ bs))"

definition archive_name :: "File_System \<Rightarrow> string \<Rightarrow> string \<Rightarrow> string" where
  "archive_name F mainDir dep =
     (let relStr = fs_relative F dep mainDir in
      if sublist ''..'' relStr then filename dep else relStr)"

fun write_entries ::
  "File_System \<Rightarrow> (string \<times> string) list \<Rightarrow> string \<Rightarrow> string list \<Rightarrow> string \<times> ImportExportResult" where
  "write_entries F [] out processed =
     (out, \<lparr>success = True, errorMessage = [], filesProcessed = processed\<rparr>)"
| "write_entries F ((relativePath, absolutePath) # files) out processed =
     (case writeArchiveEntry F out relativePath absolutePath of
        None \<Rightarrow> (out, failed (''Failed to write file to archive: '' @ relativePath) processed)
      | Some out' \<Rightarrow> write_entries F files out' (processed @ [relativePath]))"

text \<open>Making the directory of a path, if it has one and it is missing; None when that throws.\<close>

definition ensure_parent :: "string \<Rightarrow> File_System \<Rightarrow> File_System option" where
  "ensure_parent p F =
     (let d = parent_path p in if d \<noteq> [] \<and> \<not> fs_exists F d then create_directories d F else Some F)"

text \<open>The files of a package: the configuration and its dependencies in the order of \<^verbatim>\<open>std::set\<close>, with
  their paths in the package.\<close>

definition exported_files :: "nat \<Rightarrow> File_System \<Rightarrow> string \<Rightarrow> (string \<times> string) list option" where
  "exported_files n F configPath =
     (let mainConfig = resolve F configPath;
          mainDir = parent_path mainConfig
      in case findDependencies n F configPath ({}, {}) of
           None \<Rightarrow> None
         | Some (dependencies, visited) \<Rightarrow>
             Some (map (\<lambda>dep. (archive_name F mainDir dep, dep))
                     (sorted_list_of_set (insert mainConfig dependencies))))"

definition exportConfig ::
  "nat \<Rightarrow> File_System \<Rightarrow> string \<Rightarrow> string \<Rightarrow> (ImportExportResult \<times> File_System) option" where
  "exportConfig n F configPath archivePath =
     (if \<not> fileExists F configPath
      then Some (failed (''Configuration file does not exist: '' @ configPath) [], F)
      else case exported_files n F configPath of
        None \<Rightarrow> None
      | Some files \<Rightarrow> Some (
          case ensure_parent archivePath F of
            None \<Rightarrow> (failed ''Filesystem error: '' [], F)
          | Some F1 \<Rightarrow>
              (case write_file archivePath [] F1 of
                 None \<Rightarrow> (failed (''Cannot create archive file: '' @ archivePath) [], F1)
               | Some F2 \<Rightarrow>
                   let (out, r) = write_entries F2 files
                                    (writeArchiveHeader [] (length files mod 2 ^ 32)) []
                   in (r, set_node archivePath (Regular_File out (clock F2)) F2))))"

section \<open>Import\<close>

text \<open>The first pass looks for files that would be overwritten.\<close>

fun check_existing :: "nat \<Rightarrow> File_System \<Rightarrow> string \<Rightarrow> istream \<Rightarrow> string option" where
  "check_existing 0 F target s = None"
| "check_existing (Suc n) F target s =
     (case readArchiveEntry s of
        None \<Rightarrow> Some ''Failed to read archive entry''
      | Some ((relativePath, body), s') \<Rightarrow>
          let destPath = path_append target relativePath in
          if fs_exists F destPath
          then Some (''File already exists (use overwrite): '' @ destPath)
          else check_existing n F target s')"

fun extract_files ::
  "nat \<Rightarrow> nat \<Rightarrow> File_System \<Rightarrow> string \<Rightarrow> istream \<Rightarrow> string list \<Rightarrow> ImportExportResult \<times> File_System" where
  "extract_files 0 i F target s processed =
     (\<lparr>success = True, errorMessage = [], filesProcessed = processed\<rparr>, F)"
| "extract_files (Suc n) i F target s processed =
     (case readArchiveEntry s of
        None \<Rightarrow> (failed (''Failed to read archive entry '' @ to_string (int i)) processed, F)
      | Some ((relativePath, body), s') \<Rightarrow>
          if traversal relativePath
          then (failed (''Invalid path in archive: '' @ relativePath) processed, F)
          else
            let destPath = path_append target relativePath in
            case ensure_parent destPath F of
              None \<Rightarrow> (failed ''Filesystem error: '' processed, F)
            | Some F1 \<Rightarrow>
                (case write_file destPath body F1 of
                   None \<Rightarrow> (failed (''Cannot create file: '' @ destPath) processed, F1)
                 | Some F2 \<Rightarrow> extract_files n (Suc i) F2 target s' (processed @ [destPath])))"

definition register_imported :: "string \<Rightarrow> 's ConfigManager \<Rightarrow> 's ConfigManager" where
  "register_imported file m =
     (if 5 < length file \<and> drop (length file - 5) file = ''.mayu'' \<and> findConfig m file < 0
      then m\<lparr>m_configs := m_configs m @ [\<lparr>path = file, display_name = extractName file, exists = True\<rparr>]\<rparr>
      else m)"

definition importConfig ::
  "'s ConfigStore \<Rightarrow> File_System \<Rightarrow> string \<Rightarrow> string \<Rightarrow> bool \<Rightarrow> 's ConfigManager \<Rightarrow>
     ImportExportResult \<times> File_System \<times> 's ConfigManager" where
  "importConfig cs F archivePath targetDir overwrite m =
     (case read_file F archivePath of
        None \<Rightarrow> (failed (''Archive file does not exist: '' @ archivePath) [], F, m)
      | Some bs \<Rightarrow>
          (case readArchiveHeader (open_stream bs) of
             None \<Rightarrow> (failed ''Invalid archive format or version'' [], F, m)
           | Some (fileCount, s) \<Rightarrow>
               if fileCount > 1000 then (failed ''Archive contains too many files'' [], F, m)
               else
                 case (if fs_exists F targetDir then Some F else create_directories targetDir F) of
                   None \<Rightarrow> (failed ''Filesystem error: '' [], F, m)
                 | Some F1 \<Rightarrow>
                     (case (if overwrite then None else check_existing fileCount F1 targetDir s) of
                        Some msg \<Rightarrow> (failed msg [], F1, m)
                      | None \<Rightarrow>
                          let (r, F2) = extract_files fileCount 0 F1 targetDir s [] in
                          if \<not> success r then (r, F2, m)
                          else
                            let m = fold register_imported (filesProcessed r) m
                            in (r, F2, if filesProcessed r \<noteq> [] then save cs m else m))))"

end
