(* ===== verification/Flat_Json.thy ===== *)
theory Flat_Json
  imports Cpp_Text
begin

text \<open>
  The hand-written JSON of the session file and the configuration metadata
  (src/core/settings/session_manager.cpp; config_metadata.cpp has copies of the same functions).
  It is no parser: a member is found by searching the text for its quoted name, then for the next
  colon. A position that only moves forward is the text from there on; every function that may fail
  leaves its output alone, here None.
\<close>

section \<open>Functions\<close>

definition QUOTE :: char where "QUOTE = CHR 0x22"
definition BACKSLASH :: char where "BACKSLASH = CHR 0x5C"

fun escape_char :: "char \<Rightarrow> string" where
  "escape_char c =
     (if c = QUOTE then [BACKSLASH, QUOTE]
      else if c = BACKSLASH then [BACKSLASH, BACKSLASH]
      else if c = CHR 0x0A then [BACKSLASH, CHR ''n'']
      else if c = CHR 0x0D then [BACKSLASH, CHR ''r'']
      else if c = CHR 0x09 then [BACKSLASH, CHR ''t'']
      else [c])"

definition escapeJson :: "string \<Rightarrow> string" where
  "escapeJson s = concat (map escape_char s)"

definition unescape_char :: "char \<Rightarrow> char option" where
  "unescape_char d =
     (if d = QUOTE then Some QUOTE else if d = BACKSLASH then Some BACKSLASH
      else if d = CHR ''n'' then Some (CHR 0x0A) else if d = CHR ''r'' then Some (CHR 0x0D)
      else if d = CHR ''t'' then Some (CHR 0x09) else None)"

fun unescapeJson :: "string \<Rightarrow> string" where
  "unescapeJson [] = []"
| "unescapeJson [c] = [c]"
| "unescapeJson (c # d # s) =
     (if c = BACKSLASH then
        (case unescape_char d of Some e \<Rightarrow> e # unescapeJson s | None \<Rightarrow> c # unescapeJson (d # s))
      else c # unescapeJson (d # s))"

text \<open>The text after the quoted key and the next colon.\<close>

definition member_value :: "string \<Rightarrow> string \<Rightarrow> string option" where
  "member_value json key =
     (case find_after (QUOTE # key @ [QUOTE]) json of None \<Rightarrow> None | Some s \<Rightarrow> find_after '':'' s)"

text \<open>Up to the first quote that no backslash precedes; \<^verbatim>\<open>prev\<close> is the character before the text.\<close>

fun scan_string :: "char \<Rightarrow> string \<Rightarrow> (string \<times> string) option" where
  "scan_string prev [] = None"
| "scan_string prev (c # s) =
     (if c = QUOTE \<and> prev \<noteq> BACKSLASH then Some ([], s)
      else map_option (\<lambda>(v, r). (c # v, r)) (scan_string c s))"

definition extractString :: "string \<Rightarrow> string \<Rightarrow> string option" where
  "extractString json key =
     (case member_value json key of None \<Rightarrow> None
      | Some s \<Rightarrow> (case find_after [QUOTE] s of None \<Rightarrow> None
        | Some s \<Rightarrow> map_option (\<lambda>(v, r). unescapeJson v) (scan_string QUOTE s)))"

definition skip_blanks :: "string \<Rightarrow> string" where
  "skip_blanks s = dropWhile (\<lambda>c. c = CHR '' '' \<or> c = CHR 0x09) s"

definition extractInt :: "string \<Rightarrow> string \<Rightarrow> int option" where
  "extractInt json key =
     (case member_value json key of None \<Rightarrow> None
      | Some s \<Rightarrow>
          let s = skip_blanks s in
          if s = [] then None
          else
            let sign = (if hd s = CHR ''-'' then ''-'' else []);
                text = sign @ takeWhile isdigit (drop (length sign) s)
            in if text = [] then None else stoll text)"

definition extractBool :: "string \<Rightarrow> string \<Rightarrow> bool option" where
  "extractBool json key =
     (case member_value json key of None \<Rightarrow> None
      | Some s \<Rightarrow>
          let s = skip_blanks s in
          if take 4 s = ''true'' then Some True
          else if take 5 s = ''false'' then Some False else None)"

fun scan_object :: "nat \<Rightarrow> string \<Rightarrow> string option" where
  "scan_object 0 s = Some []"
| "scan_object (Suc d) [] = None"
| "scan_object (Suc d) (c # s) =
     map_option ((#) c)
       (scan_object (if c = CHR ''{'' then Suc (Suc d) else if c = CHR ''}'' then d else Suc d) s)"

text \<open>Nothing is the empty text.\<close>

definition extractObject :: "string \<Rightarrow> string \<Rightarrow> string" where
  "extractObject json key =
     (case member_value json key of None \<Rightarrow> []
      | Some s \<Rightarrow> (case find_after ''{'' s of None \<Rightarrow> []
        | Some s \<Rightarrow> (case scan_object 1 s of None \<Rightarrow> [] | Some v \<Rightarrow> CHR ''{'' # v)))"

section \<open>Escaping\<close>

lemma escapeJson_simps [simp]:
  "escapeJson [] = []" "escapeJson (c # s) = escape_char c @ escapeJson s"
  by (simp_all add: escapeJson_def)

lemma unescape_escape_char: "unescapeJson (escape_char c @ s) = c # unescapeJson s"
  by (cases s) (simp_all add: unescape_char_def QUOTE_def BACKSLASH_def)

lemma unescape_escape: "unescapeJson (escapeJson s) = s"
  by (induction s) (simp_all only: escapeJson_simps unescape_escape_char unescapeJson.simps)

lemma escape_no_quote: "QUOTE \<notin> set s \<Longrightarrow> QUOTE \<notin> set (escapeJson s)"
  by (induction s) (auto simp: QUOTE_def BACKSLASH_def split: if_splits)

lemma escape_empty: "escapeJson s = [] \<longleftrightarrow> s = []"
  by (cases s) auto

lemma last_escape: "s \<noteq> [] \<Longrightarrow> last (escapeJson s) = BACKSLASH \<longleftrightarrow> last s = BACKSLASH"
  by (induction s) (auto simp: escape_empty QUOTE_def BACKSLASH_def split: if_splits)

lemma escape_plain:
  "list_all (\<lambda>c. c \<notin> {QUOTE, BACKSLASH, CHR 0x0A, CHR 0x0D, CHR 0x09}) s \<Longrightarrow> escapeJson s = s"
  by (induction s) auto

section \<open>Finding\<close>

text \<open>No quote in the text is followed by the character \<^verbatim>\<open>k\<close>.\<close>

fun no_start :: "char \<Rightarrow> string \<Rightarrow> bool" where
  "no_start k (a # b # s) = ((a = QUOTE \<longrightarrow> b \<noteq> k) \<and> no_start k (b # s))"
| "no_start k s = True"

lemma no_start_append: "no_start k (u @ c # v) = (no_start k (u @ [c]) \<and> no_start k (c # v))"
proof (induction u)
  case Nil
  then show ?case by simp
next
  case (Cons a u)
  then show ?case by (cases u) auto
qed

lemma no_start_plain: "QUOTE \<notin> set u \<Longrightarrow> no_start k (u @ [c])"
proof (induction u)
  case Nil
  then show ?case by simp
next
  case (Cons a u)
  then show ?case by (cases u) auto
qed

lemma find_key_skip:
  "no_start k (u @ [c]) \<Longrightarrow> find_after (QUOTE # k # ks) (u @ c # s) = find_after (QUOTE # k # ks) (c # s)"
proof (induction u)
  case Nil
  then show ?case by simp
next
  case (Cons a u)
  have "take (length (QUOTE # k # ks)) (a # u @ c # s) \<noteq> QUOTE # k # ks"
    using Cons.prems by (cases u) auto
  moreover have "no_start k (u @ [c])" using Cons.prems by (cases u) auto
  ultimately show ?case using Cons.IH by (simp only: append_Cons find_after.simps if_False)
qed

text \<open>A member whose key is not found earlier in the text.\<close>

lemma member_value_at:
  assumes "no_start k (u @ [QUOTE])"
  shows "member_value (u @ QUOTE # k # ks @ QUOTE # CHR '':'' # s) (k # ks) = Some s"
proof -
  have "find_after (QUOTE # k # ks @ [QUOTE]) (u @ QUOTE # k # ks @ QUOTE # CHR '':'' # s) =
      find_after (QUOTE # k # ks @ [QUOTE]) ((QUOTE # k # ks @ [QUOTE]) @ CHR '':'' # s)"
    using find_key_skip [OF assms, of "ks @ [QUOTE]" "k # ks @ QUOTE # CHR '':'' # s"] by simp
  also have "\<dots> = Some (CHR '':'' # s)" by (rule find_after_here)
  finally show ?thesis
    using find_after_here [of "'':''" s] by (simp add: member_value_def)
qed

lemma scan_string_to_quote:
  "QUOTE \<notin> set v \<Longrightarrow> (if v = [] then prev else last v) \<noteq> BACKSLASH \<Longrightarrow>
     scan_string prev (v @ QUOTE # s) = Some (v, s)"
  by (induction v arbitrary: prev) (auto split: if_splits)

lemma extractString_at:
  assumes "no_start k (u @ [QUOTE])" and "QUOTE \<notin> set p" and "p = [] \<or> last p \<noteq> BACKSLASH"
  shows "extractString (u @ QUOTE # k # ks @ QUOTE # CHR '':'' # CHR '' '' # QUOTE # escapeJson p @ QUOTE # s) (k # ks)
    = Some p"
proof -
  have "find_after [QUOTE] (CHR '' '' # QUOTE # escapeJson p @ QUOTE # s) = Some (escapeJson p @ QUOTE # s)"
    using find_after_skip [of QUOTE "'' ''" "[]"] find_after_here [of "[QUOTE]"] by (simp add: QUOTE_def)
  moreover have "scan_string QUOTE (escapeJson p @ QUOTE # s) = Some (escapeJson p, s)"
  proof (rule scan_string_to_quote [OF escape_no_quote [OF assms(2)]])
    show "(if escapeJson p = [] then QUOTE else last (escapeJson p)) \<noteq> BACKSLASH"
      using assms(3) last_escape [of p] by (auto simp: escape_empty QUOTE_def BACKSLASH_def)
  qed
  ultimately show ?thesis
    by (simp add: extractString_def member_value_at [OF assms(1)] unescape_escape)
qed

lemma extractInt_at:
  assumes "no_start k (u @ [QUOTE])" and "- (2 ^ 63) \<le> i" "i < 2 ^ 63" and "\<not> isdigit c"
  shows "extractInt (u @ QUOTE # k # ks @ QUOTE # CHR '':'' # CHR '' '' # to_string i @ c # s) (k # ks) = Some i"
proof -
  define t where "t = to_string i @ c # s"
  have t: "skip_blanks (CHR '' '' # t) = t" "t \<noteq> []"
    using isdigit_decimal [of "nat i"] decimal_not_empty [of "nat i"]
    by (cases "decimal (nat i)"; auto simp: t_def skip_blanks_def to_string_def isdigit_def)+
  define sign where "sign = (if hd t = CHR ''-'' then ''-'' else [])"
  have number: "sign @ takeWhile isdigit (drop (length sign) t) = to_string i"
    using takeWhile_isdigit_decimal(1) [OF assms(4)] hd_decimal decimal_not_empty
    by (auto simp: sign_def t_def to_string_def)
  then show ?thesis
    by (simp only: extractInt_def member_value_at [OF assms(1)] option.case Let_def t_def [symmetric] t
        sign_def [symmetric] number to_string_not_empty if_False stoll_to_string [OF assms(2,3)])
qed

lemma extractBool_at:
  assumes "no_start k (u @ [QUOTE])"
  shows "extractBool (u @ QUOTE # k # ks @ QUOTE # CHR '':'' # CHR '' '' # (if b then ''true'' else ''false'') @ s) (k # ks)
    = Some b"
  using member_value_at [OF assms] by (simp add: extractBool_def skip_blanks_def)

end
