(* ===== verification/Session_Manager.thy ===== *)
theory Session_Manager
  imports Flat_Json File_System "HOL-Library.List_Lexorder" "HOL-Library.Char_ord"
begin

text \<open>
  The session file (src/core/settings/session_manager.cpp): which configuration was active, whether
  the engine ran and where the windows were, written as JSON when the program ends and read when it
  starts. The time is an argument, and so is the home directory of the password database. The map
  of window positions is a list in the order of its keys.
\<close>

section \<open>Data\<close>

record WindowPosition =
  wp_x :: int
  wp_y :: int
  wp_width :: int
  wp_height :: int
  wp_valid :: bool

definition WindowPosition_init :: WindowPosition where
  "WindowPosition_init = \<lparr>wp_x = 0, wp_y = 0, wp_width = 0, wp_height = 0, wp_valid = False\<rparr>"

record SessionData =
  activeConfigPath :: string
  engineWasRunning :: bool
  windowPositions :: "(string \<times> WindowPosition) list"
  savedTimestamp :: int

definition SessionData_init :: SessionData where
  "SessionData_init =
     \<lparr>activeConfigPath = [], engineWasRunning = False, windowPositions = [], savedTimestamp = 0\<rparr>"

fun map_put :: "'k::linorder \<Rightarrow> 'v \<Rightarrow> ('k \<times> 'v) list \<Rightarrow> ('k \<times> 'v) list" where
  "map_put k v [] = [(k, v)]"
| "map_put k v ((l, w) # m) =
     (if k < l then (k, v) # (l, w) # m else if k = l then (k, v) # m else (l, w) # map_put k v m)"

definition session_setActiveConfig :: "string \<Rightarrow> SessionData \<Rightarrow> SessionData" where
  "session_setActiveConfig p d = d\<lparr>activeConfigPath := p\<rparr>"

definition setEngineRunning :: "bool \<Rightarrow> SessionData \<Rightarrow> SessionData" where
  "setEngineRunning b d = d\<lparr>engineWasRunning := b\<rparr>"

definition saveWindowPosition ::
  "string \<Rightarrow> int \<Rightarrow> int \<Rightarrow> int \<Rightarrow> int \<Rightarrow> SessionData \<Rightarrow> SessionData" where
  "saveWindowPosition windowName x y w h d =
     d\<lparr>windowPositions := map_put windowName
        \<lparr>wp_x = x, wp_y = y, wp_width = w, wp_height = h, wp_valid = True\<rparr> (windowPositions d)\<rparr>"

definition getWindowPosition :: "string \<Rightarrow> SessionData \<Rightarrow> WindowPosition" where
  "getWindowPosition windowName d =
     (case map_of (windowPositions d) windowName of Some wp \<Rightarrow> wp | None \<Rightarrow> WindowPosition_init)"

section \<open>Writing\<close>

definition NL :: string where "NL = [CHR 0x0A]"

text \<open>A member: indentation, the quoted name, colon and blank.\<close>

definition member_text :: "string \<Rightarrow> string \<Rightarrow> string" where
  "member_text indent key = indent @ QUOTE # key @ QUOTE # '': ''"

fun bool_text :: "bool \<Rightarrow> string" where
  "bool_text True = ''true''"
| "bool_text False = ''false''"

definition window_text :: "string \<times> WindowPosition \<Rightarrow> string" where
  "window_text e =
     NL @ member_text ''    '' (escapeJson (fst e)) @ ''{'' @
     NL @ member_text ''      '' ''x'' @ to_string (wp_x (snd e)) @ '','' @
     NL @ member_text ''      '' ''y'' @ to_string (wp_y (snd e)) @ '','' @
     NL @ member_text ''      '' ''width'' @ to_string (wp_width (snd e)) @ '','' @
     NL @ member_text ''      '' ''height'' @ to_string (wp_height (snd e)) @
     NL @ ''    }''"

fun windows_text :: "bool \<Rightarrow> (string \<times> WindowPosition) list \<Rightarrow> string" where
  "windows_text first [] = []"
| "windows_text first (e # es) =
     (if \<not> wp_valid (snd e) then windows_text first es
      else (if first then [] else '','') @ window_text e @ windows_text False es)"

definition toJson :: "SessionData \<Rightarrow> string" where
  "toJson d =
     ''{'' @ NL @
     member_text ''  '' ''activeConfigPath'' @ [QUOTE] @ escapeJson (activeConfigPath d) @ [QUOTE] @ '','' @ NL @
     member_text ''  '' ''engineWasRunning'' @ bool_text (engineWasRunning d) @ '','' @ NL @
     member_text ''  '' ''savedTimestamp'' @ to_string (savedTimestamp d) @ '','' @ NL @
     member_text ''  '' ''windowPositions'' @ ''{'' @
     windows_text True (windowPositions d) @
     (if windowPositions d \<noteq> [] then NL @ ''  '' else []) @ ''}'' @ NL @
     ''}'' @ NL"

section \<open>Reading\<close>

text \<open>The text in front of and behind the first occurrence of a character.\<close>

fun split_char :: "char \<Rightarrow> string \<Rightarrow> (string \<times> string) option" where
  "split_char c [] = None"
| "split_char c (d # s) =
     (if d = c then Some ([], s) else map_option (\<lambda>(u, v). (d # u, v)) (split_char c s))"

lemma split_char_length: "split_char c s = Some (u, v) \<Longrightarrow> length v < length s"
  by (induction s arbitrary: u v) (auto split: if_splits intro: less_SucI)

definition int_cast :: "int \<Rightarrow> int" where
  "int_cast i = (i + 2 ^ 31) mod 2 ^ 32 - 2 ^ 31"

definition window_of :: "string \<Rightarrow> WindowPosition option" where
  "window_of windowObj =
     (case extractInt windowObj ''x'' of None \<Rightarrow> None | Some x \<Rightarrow>
      (case extractInt windowObj ''y'' of None \<Rightarrow> None | Some y \<Rightarrow>
      (case extractInt windowObj ''width'' of None \<Rightarrow> None | Some w \<Rightarrow>
      (case extractInt windowObj ''height'' of None \<Rightarrow> None | Some h \<Rightarrow>
         Some \<lparr>wp_x = int_cast x, wp_y = int_cast y, wp_width = int_cast w, wp_height = int_cast h,
               wp_valid = True\<rparr>))))"

function parse_windows ::
  "string \<Rightarrow> (string \<times> WindowPosition) list \<Rightarrow> (string \<times> WindowPosition) list" where
  "parse_windows s positions =
     (case split_char QUOTE s of None \<Rightarrow> positions | Some (_, s1) \<Rightarrow>
      (case split_char QUOTE s1 of None \<Rightarrow> positions | Some (windowName, s2) \<Rightarrow>
      (case split_char (CHR ''{'') s2 of None \<Rightarrow> positions | Some (_, s3) \<Rightarrow>
      (case split_char (CHR ''}'') s3 of None \<Rightarrow> positions | Some (body, s4) \<Rightarrow>
         parse_windows s4
           (case window_of (''{'' @ body @ ''}'') of
              Some wp \<Rightarrow> map_put windowName wp positions | None \<Rightarrow> positions)))))"
  by pat_completeness auto

termination
  by (relation "measure (length \<circ> fst)") (auto dest!: split_char_length)

declare parse_windows.simps [simp del]

definition parseWindowPositions :: "string \<Rightarrow> (string \<times> WindowPosition) list" where
  "parseWindowPositions json =
     (let objStr = extractObject json ''windowPositions'' in
      if objStr = [] then [] else parse_windows objStr [])"

definition parseJson :: "string \<Rightarrow> SessionData" where
  "parseJson json =
     \<lparr>activeConfigPath = (case extractString json ''activeConfigPath'' of Some p \<Rightarrow> p | None \<Rightarrow> []),
      engineWasRunning = (case extractBool json ''engineWasRunning'' of Some b \<Rightarrow> b | None \<Rightarrow> False),
      windowPositions = parseWindowPositions json,
      savedTimestamp = (case extractInt json ''savedTimestamp'' of Some t \<Rightarrow> t | None \<Rightarrow> 0)\<rparr>"

definition window_reasonable :: "WindowPosition \<Rightarrow> bool" where
  "window_reasonable wp =
     (\<not> wp_valid wp \<or>
      \<not> (wp_width wp < 0 \<or> wp_height wp < 0 \<or> wp_width wp > 10000 \<or> wp_height wp > 10000 \<or>
         wp_x wp < -10000 \<or> wp_x wp > 10000 \<or> wp_y wp < -10000 \<or> wp_y wp > 10000))"

definition validateSession :: "int \<Rightarrow> SessionData \<Rightarrow> bool" where
  "validateSession now d =
     (\<not> savedTimestamp d > now \<and>
      \<not> now - savedTimestamp d > 365 * 24 * 60 * 60 \<and>
      list_all (\<lambda>e. window_reasonable (snd e)) (windowPositions d) \<and>
      (activeConfigPath d = [] \<or> hd (activeConfigPath d) = CHR ''/'' \<or> hd (activeConfigPath d) = CHR ''~''))"

section \<open>Files\<close>

definition nonempty_env :: "File_System \<Rightarrow> string \<Rightarrow> string option" where
  "nonempty_env F name = (case environment F name of Some v \<Rightarrow> if v \<noteq> [] then Some v else None | None \<Rightarrow> None)"

definition getHomeDir :: "string option \<Rightarrow> File_System \<Rightarrow> string" where
  "getHomeDir pw_dir F =
     (case nonempty_env F ''HOME'' of Some home \<Rightarrow> home
      | None \<Rightarrow> (case pw_dir of Some d \<Rightarrow> d | None \<Rightarrow> ''/tmp''))"

definition getConfigDir :: "string option \<Rightarrow> File_System \<Rightarrow> string" where
  "getConfigDir pw_dir F =
     (case nonempty_env F ''XDG_CONFIG_HOME'' of Some xdg \<Rightarrow> xdg @ ''/yamy''
      | None \<Rightarrow> getHomeDir pw_dir F @ ''/.config/yamy'')"

definition getSessionPath :: "string option \<Rightarrow> File_System \<Rightarrow> string" where
  "getSessionPath pw_dir F = getConfigDir pw_dir F @ ''/session.json''"

text \<open>\<^verbatim>\<open>mkdir\<close>, where an existing file of any kind counts as success; it needs the parent directory.\<close>

definition createDirectory :: "string \<Rightarrow> File_System \<Rightarrow> bool \<times> File_System" where
  "createDirectory p F =
     (if fs_exists F p then (True, F)
      else case nodes F (parent_path (resolve F p)) of
             Some (Directory _) \<Rightarrow> (True, set_node p (Directory []) F) | _ \<Rightarrow> (False, F))"

definition ensureDir :: "string \<Rightarrow> File_System \<Rightarrow> bool \<times> File_System" where
  "ensureDir p F = (if is_directory F p then (True, F) else createDirectory p F)"

text \<open>Everything in front of the last slash; \<^verbatim>\<open>substr(0, npos)\<close> is the whole text.\<close>

definition before_last_slash :: "string \<Rightarrow> string" where
  "before_last_slash p = (if CHR ''/'' \<in> set p then butlast (up_to_slash p) else p)"

definition ensureConfigDirExists :: "string option \<Rightarrow> File_System \<Rightarrow> bool \<times> File_System" where
  "ensureConfigDirExists pw_dir F =
     (let (ok, F1) = ensureDir (before_last_slash (getConfigDir pw_dir F)) F in
      if ok then ensureDir (getConfigDir pw_dir F) F1 else (False, F1))"

definition saveSession ::
  "int \<Rightarrow> string option \<Rightarrow> File_System \<Rightarrow> SessionData \<Rightarrow> bool \<times> File_System \<times> SessionData" where
  "saveSession now pw_dir F d =
     (let (ok, F1) = ensureConfigDirExists pw_dir F in
      if \<not> ok then (False, F1, d)
      else
        let d = d\<lparr>savedTimestamp := now\<rparr> in
        case write_file (getSessionPath pw_dir F) (toJson d) F1 of
          None \<Rightarrow> (False, F1, d) | Some F2 \<Rightarrow> (True, F2, d))"

definition restoreSession ::
  "int \<Rightarrow> string option \<Rightarrow> File_System \<Rightarrow> SessionData \<Rightarrow> bool \<times> SessionData" where
  "restoreSession now pw_dir F d =
     (case read_file F (getSessionPath pw_dir F) of
        None \<Rightarrow> (False, d)
      | Some text \<Rightarrow> let d = parseJson text in (validateSession now d, d))"

definition hasSession :: "string option \<Rightarrow> File_System \<Rightarrow> bool" where
  "hasSession pw_dir F = is_regular_file F (getSessionPath pw_dir F)"

definition clearSession :: "string option \<Rightarrow> File_System \<Rightarrow> SessionData \<Rightarrow> bool \<times> File_System \<times> SessionData" where
  "clearSession pw_dir F d =
     (let p = getSessionPath pw_dir F in
      if \<not> is_regular_file F p then (True, F, d) else (True, remove_file p F, SessionData_init))"

section \<open>Paths depend on the environment alone\<close>

lemma ensureDir_environment: "ensureDir p F = (ok, F') \<Longrightarrow> environment F' = environment F"
  by (auto simp: ensureDir_def createDirectory_def split: if_splits option.splits file_node.splits)

lemma same_environment:
  assumes "environment F' = environment F"
  shows "nonempty_env F' n = nonempty_env F n" and "getConfigDir pw_dir F' = getConfigDir pw_dir F"
    and "getHomeDir pw_dir F' = getHomeDir pw_dir F"
  using assms by (simp_all add: nonempty_env_def getHomeDir_def getConfigDir_def cong: option.case_cong)

end
