(* ===== verification/Config_Metadata.thy ===== *)
theory Config_Metadata
  imports Session_Manager
begin

text \<open>
  The metadata of a configuration (src/core/settings/config_metadata.cpp): name, description, author,
  dates and tags in a JSON file of their own in the directory for metadata. The helpers the file has
  in common with the session manager are those of Flat_Json and Session_Manager. The time is an
  argument, and so is the home directory of the password database.
\<close>

section \<open>Data\<close>

record ConfigMetadataInfo =
  md_name :: string
  md_description :: string
  md_author :: string
  md_createdDate :: int
  md_modifiedDate :: int
  md_tags :: "string list"

definition new_ConfigMetadataInfo :: ConfigMetadataInfo where
  "new_ConfigMetadataInfo = \<lparr>md_name = [], md_description = [], md_author = [], md_createdDate = 0,
     md_modifiedDate = 0, md_tags = []\<rparr>"

definition setName :: "int \<Rightarrow> string \<Rightarrow> ConfigMetadataInfo \<Rightarrow> ConfigMetadataInfo" where
  "setName now s m = m\<lparr>md_name := s, md_modifiedDate := now\<rparr>"

definition setDescription :: "int \<Rightarrow> string \<Rightarrow> ConfigMetadataInfo \<Rightarrow> ConfigMetadataInfo" where
  "setDescription now s m = m\<lparr>md_description := s, md_modifiedDate := now\<rparr>"

definition setAuthor :: "int \<Rightarrow> string \<Rightarrow> ConfigMetadataInfo \<Rightarrow> ConfigMetadataInfo" where
  "setAuthor now s m = m\<lparr>md_author := s, md_modifiedDate := now\<rparr>"

definition addTag :: "int \<Rightarrow> string \<Rightarrow> ConfigMetadataInfo \<Rightarrow> ConfigMetadataInfo" where
  "addTag now tag m =
     (if tag \<in> set (md_tags m) then m else m\<lparr>md_tags := md_tags m @ [tag], md_modifiedDate := now\<rparr>)"

definition removeTag :: "int \<Rightarrow> string \<Rightarrow> ConfigMetadataInfo \<Rightarrow> ConfigMetadataInfo" where
  "removeTag now tag m =
     (if tag \<in> set (md_tags m) then m\<lparr>md_tags := remove1 tag (md_tags m), md_modifiedDate := now\<rparr> else m)"

definition clearTags :: "int \<Rightarrow> ConfigMetadataInfo \<Rightarrow> ConfigMetadataInfo" where
  "clearTags now m = (if md_tags m \<noteq> [] then m\<lparr>md_tags := [], md_modifiedDate := now\<rparr> else m)"

section \<open>Writing and reading\<close>

fun tags_text :: "bool \<Rightarrow> string list \<Rightarrow> string" where
  "tags_text first [] = []"
| "tags_text first (t # ts) =
     (if first then [] else '', '') @ [QUOTE] @ escapeJson t @ [QUOTE] @ tags_text False ts"

definition md_toJson :: "ConfigMetadataInfo \<Rightarrow> string" where
  "md_toJson m =
     ''{'' @ NL @
     member_text ''  '' ''name'' @ [QUOTE] @ escapeJson (md_name m) @ [QUOTE] @ '','' @ NL @
     member_text ''  '' ''description'' @ [QUOTE] @ escapeJson (md_description m) @ [QUOTE] @ '','' @ NL @
     member_text ''  '' ''author'' @ [QUOTE] @ escapeJson (md_author m) @ [QUOTE] @ '','' @ NL @
     member_text ''  '' ''createdDate'' @ to_string (md_createdDate m) @ '','' @ NL @
     member_text ''  '' ''modifiedDate'' @ to_string (md_modifiedDate m) @ '','' @ NL @
     member_text ''  '' ''tags'' @ ''['' @ tags_text True (md_tags m) @ '']'' @ NL @
     ''}'' @ NL"

lemma find_after_length: "find_after pat s = Some r \<Longrightarrow> length r \<le> length s - length pat"
  using find_after_sound [of pat s r] by auto

lemma scan_string_length: "scan_string prev s = Some (v, r) \<Longrightarrow> length r < length s"
  by (induction s arbitrary: prev v) (auto split: if_splits intro: less_SucI)

text \<open>The texts in the content of an array.\<close>

function array_strings :: "string \<Rightarrow> string list" where
  "array_strings s =
     (case find_after [QUOTE] s of None \<Rightarrow> []
      | Some s1 \<Rightarrow> (case scan_string QUOTE s1 of None \<Rightarrow> []
        | Some (v, r) \<Rightarrow> unescapeJson v # array_strings r))"
  by pat_completeness auto

termination
  by (relation "measure length") (auto dest!: find_after_length scan_string_length)

declare array_strings.simps [simp del]

text \<open>The array ends at the first closing bracket.\<close>

definition extractStringArray :: "string \<Rightarrow> string \<Rightarrow> string list option" where
  "extractStringArray json key =
     (case member_value json key of None \<Rightarrow> None
      | Some s \<Rightarrow> (case find_after ''['' s of None \<Rightarrow> None
        | Some s \<Rightarrow> (case split_char (CHR '']'') s of None \<Rightarrow> None
          | Some (arrayContent, _) \<Rightarrow> Some (array_strings arrayContent))))"

definition md_parseJson :: "string \<Rightarrow> ConfigMetadataInfo" where
  "md_parseJson json =
     \<lparr>md_name = (case extractString json ''name'' of Some s \<Rightarrow> s | None \<Rightarrow> []),
      md_description = (case extractString json ''description'' of Some s \<Rightarrow> s | None \<Rightarrow> []),
      md_author = (case extractString json ''author'' of Some s \<Rightarrow> s | None \<Rightarrow> []),
      md_createdDate = (case extractInt json ''createdDate'' of Some t \<Rightarrow> t | None \<Rightarrow> 0),
      md_modifiedDate = (case extractInt json ''modifiedDate'' of Some t \<Rightarrow> t | None \<Rightarrow> 0),
      md_tags = (case extractStringArray json ''tags'' of Some ts \<Rightarrow> ts | None \<Rightarrow> [])\<rparr>"

section \<open>Files\<close>

definition getBasename :: "string \<Rightarrow> string" where
  "getBasename p =
     (case before_last_dot (filename p) of Some s \<Rightarrow> s | None \<Rightarrow> filename p)"

definition isalnum :: "char \<Rightarrow> bool" where
  "isalnum c \<longleftrightarrow> isdigit c \<or> (65 \<le> (of_char c :: int) \<and> (of_char c :: int) \<le> 90) \<or>
     (97 \<le> (of_char c :: int) \<and> (of_char c :: int) \<le> 122)"

definition safe_char :: "char \<Rightarrow> string" where
  "safe_char c =
     (if c = CHR ''/'' then ''_''
      else if c = CHR '' '' then ''-''
      else if isalnum c \<or> c = CHR ''.'' \<or> c = CHR ''-'' \<or> c = CHR ''_'' then [c] else [])"

definition pathToMetadataFilename :: "string \<Rightarrow> string" where
  "pathToMetadataFilename configPath = concat (map safe_char configPath) @ ''.json''"

definition getMetadataDir :: "string option \<Rightarrow> File_System \<Rightarrow> string" where
  "getMetadataDir pw_dir F = getHomeDir pw_dir F @ ''/.yamy/.metadata''"

definition getMetadataPath :: "string option \<Rightarrow> File_System \<Rightarrow> string \<Rightarrow> string" where
  "getMetadataPath pw_dir F configPath = getMetadataDir pw_dir F @ ''/'' @ pathToMetadataFilename configPath"

definition ensureMetadataDirExists :: "string option \<Rightarrow> File_System \<Rightarrow> bool \<times> File_System" where
  "ensureMetadataDirExists pw_dir F =
     (let (ok, F1) = ensureDir (getHomeDir pw_dir F @ ''/.yamy'') F in
      if ok then ensureDir (getMetadataDir pw_dir F) F1 else (False, F1))"

definition md_load ::
    "int \<Rightarrow> string option \<Rightarrow> File_System \<Rightarrow> string \<Rightarrow> bool \<times> ConfigMetadataInfo" where
  "md_load now pw_dir F configPath =
     (case read_file F (getMetadataPath pw_dir F configPath) of
        None \<Rightarrow> (False, new_ConfigMetadataInfo
          \<lparr>md_name := getBasename configPath, md_createdDate := now, md_modifiedDate := now\<rparr>)
      | Some json \<Rightarrow> (True, md_parseJson json))"

definition dated :: "int \<Rightarrow> ConfigMetadataInfo \<Rightarrow> ConfigMetadataInfo" where
  "dated now m =
     (let m = (if md_createdDate m = 0 then m\<lparr>md_createdDate := now\<rparr> else m)
      in if md_modifiedDate m = 0 then m\<lparr>md_modifiedDate := md_createdDate m\<rparr> else m)"

definition md_save ::
    "int \<Rightarrow> string option \<Rightarrow> File_System \<Rightarrow> string \<Rightarrow> ConfigMetadataInfo \<Rightarrow> bool \<times> File_System \<times> ConfigMetadataInfo" where
  "md_save now pw_dir F configPath m =
     (let (ok, F1) = ensureMetadataDirExists pw_dir F in
      if \<not> ok then (False, F1, m)
      else
        let m = dated now m in
        case write_file (getMetadataPath pw_dir F configPath) (md_toJson m) F1 of
          None \<Rightarrow> (False, F1, m) | Some F2 \<Rightarrow> (True, F2, m))"

definition md_touch ::
    "int \<Rightarrow> string option \<Rightarrow> File_System \<Rightarrow> string \<Rightarrow> ConfigMetadataInfo \<Rightarrow> bool \<times> File_System \<times> ConfigMetadataInfo" where
  "md_touch now pw_dir F configPath m = md_save now pw_dir F configPath (m\<lparr>md_modifiedDate := now\<rparr>)"

definition md_remove :: "string option \<Rightarrow> string \<Rightarrow> File_System \<Rightarrow> bool \<times> File_System" where
  "md_remove pw_dir configPath F =
     (let metaPath = getMetadataPath pw_dir F configPath in
      if \<not> is_regular_file F metaPath then (True, F) else (True, remove_file metaPath F))"

definition md_exists :: "string option \<Rightarrow> File_System \<Rightarrow> string \<Rightarrow> bool" where
  "md_exists pw_dir F configPath = is_regular_file F (getMetadataPath pw_dir F configPath)"

end
