(* ===== verification/Config_Templates.thy ===== *)
theory Config_Templates
  imports Config_Archive Config_Metadata Template_Texts
begin

text \<open>
  New configurations from templates (\<^verbatim>\<open>createFromTemplate\<close> of
  src/core/settings/config_manager.cpp): the file, its entry in the manager's list and its metadata.
  The time and the home directory of the password database are arguments.
\<close>

section \<open>Operations\<close>

datatype TemplateName = Template_Default | Template_Emacs | Template_Vim

record TemplateResult =
  tr_success :: bool
  tr_errorMessage :: string
  tr_createdPath :: string

definition template_failed :: "string \<Rightarrow> TemplateResult" where
  "template_failed msg = \<lparr>tr_success = False, tr_errorMessage = msg, tr_createdPath = []\<rparr>"

fun templateDisplayName :: "TemplateName \<Rightarrow> string" where
  "templateDisplayName Template_Default = ''Default''"
| "templateDisplayName Template_Emacs = ''Emacs''"
| "templateDisplayName Template_Vim = ''Vim''"

fun templateContent :: "TemplateName \<Rightarrow> string" where
  "templateContent Template_Default = TEMPLATE_DEFAULT"
| "templateContent Template_Emacs = TEMPLATE_EMACS"
| "templateContent Template_Vim = TEMPLATE_VIM"

definition listTemplates :: "string list" where
  "listTemplates = [''default'', ''emacs'', ''vim'']"

definition getTemplatesDir :: "File_System \<Rightarrow> string" where
  "getTemplatesDir F =
     (let configDir = getDefaultConfigDir F; templatesDir = configDir @ ''/templates'';
          templatesPath = path_append (path_append (path_append (current_path F) ''src'') ''resources'') ''templates''
      in if configDir \<noteq> [] \<and> fs_exists F templatesDir then templatesDir
         else if fs_exists F templatesPath then templatesPath else [])"

definition template_metadata :: "int \<Rightarrow> TemplateName \<Rightarrow> string \<Rightarrow> ConfigMetadataInfo" where
  "template_metadata now t targetPath =
     setDescription now (''Created from '' @ templateDisplayName t @ '' template'')
       (setName now (extractName targetPath) new_ConfigMetadataInfo)"

definition add_created :: "'s ConfigStore \<Rightarrow> string \<Rightarrow> 's ConfigManager \<Rightarrow> 's ConfigManager" where
  "add_created cs targetPath m =
     (if findConfig m targetPath < 0
      then save cs (m\<lparr>m_configs := m_configs m @
             [\<lparr>path = targetPath, display_name = extractName targetPath, exists = True\<rparr>]\<rparr>)
      else m)"

definition createFromTemplate ::
    "int \<Rightarrow> string option \<Rightarrow> 's ConfigStore \<Rightarrow> TemplateName \<Rightarrow> string \<Rightarrow>
     File_System \<Rightarrow> 's ConfigManager \<Rightarrow> TemplateResult \<times> File_System \<times> 's ConfigManager" where
  "createFromTemplate now pw_dir cs t targetPath F m =
     (if fileExists F targetPath
      then (template_failed (''Target file already exists: '' @ targetPath), F, m)
      else case ensure_parent targetPath F of
        None \<Rightarrow> (template_failed ''Filesystem error: '', F, m)
      | Some F1 \<Rightarrow>
          (case write_file targetPath (templateContent t) F1 of
             None \<Rightarrow> (template_failed (''Cannot create file: '' @ targetPath), F1, m)
           | Some F2 \<Rightarrow>
               let m = add_created cs targetPath m;
                   (saved, F3, info) = md_save now pw_dir F2 targetPath (template_metadata now t targetPath)
               in (\<lparr>tr_success = True, tr_errorMessage = [], tr_createdPath = targetPath\<rparr>, F3, m)))"

definition tolower :: "char \<Rightarrow> char" where
  "tolower c = char_of (tolower_byte c)"

definition createFromTemplate_name ::
    "int \<Rightarrow> string option \<Rightarrow> 's ConfigStore \<Rightarrow> string \<Rightarrow> string \<Rightarrow>
     File_System \<Rightarrow> 's ConfigManager \<Rightarrow> TemplateResult \<times> File_System \<times> 's ConfigManager" where
  "createFromTemplate_name now pw_dir cs templateNameStr targetPath F m =
     (let lowerName = map tolower templateNameStr;
          create = (\<lambda>t. createFromTemplate now pw_dir cs t targetPath F m)
      in if lowerName = ''default'' then create Template_Default
         else if lowerName = ''emacs'' then create Template_Emacs
         else if lowerName = ''vim'' then create Template_Vim
         else (template_failed (''Unknown template: '' @ templateNameStr @
                 ''. Available: default, emacs, vim''), F, m))"

end
