(* ===== verification/Config_Lifecycle.thy ===== *)
theory Config_Lifecycle
  imports Config_List Config_Templates
begin

text \<open>
  The life of a configuration manager: from its creation through its operations, its watcher's events
  and restarts of the program, with the file system changing in any way in between. Directory entries
  have names; which paths callers add is the argument \<open>ok\<close>.
\<close>

section \<open>Steps\<close>

inductive manager_step :: "'s ConfigStore \<Rightarrow> (string \<Rightarrow> bool) \<Rightarrow> 's ConfigManager \<Rightarrow> 's ConfigManager \<Rightarrow> bool"
  for cs :: "'s ConfigStore" and ok :: "string \<Rightarrow> bool" and m :: "'s ConfigManager" where
  step_active: "setActiveConfig cs F p m = (b, m', out) \<Longrightarrow> manager_step cs ok m m'"
| step_index: "setActiveConfig_index cs F i m = (b, m', out) \<Longrightarrow> manager_step cs ok m m'"
| step_next: "setNextConfig cs m = Some (b, m', out) \<Longrightarrow> manager_step cs ok m m'"
| step_add: "ok p \<Longrightarrow> addConfig cs F p m = (b, m') \<Longrightarrow> manager_step cs ok m m'"
| step_remove: "removeConfig cs p m = (b, m') \<Longrightarrow> manager_step cs ok m m'"
| step_scan: "proper_directories F \<Longrightarrow> scanDirectory cs F d m = (n, m') \<Longrightarrow> manager_step cs ok m m'"
| step_refresh: "proper_directories F \<Longrightarrow> manager_step cs ok m (refreshList cs F m)"
| step_save: "manager_step cs ok m (save cs m)"
| step_load: "manager_step cs ok m (load cs F m)"
| step_auto: "manager_step cs ok m (setAutoReloadEnabled b m)"
| step_callback: "manager_step cs ok m (setChangeCallback b m)"
| step_import: "importConfig cs F archive target overwrite m = (r, F', m') \<Longrightarrow> manager_step cs ok m m'"
| step_template: "ok p \<Longrightarrow> createFromTemplate now pw_dir cs t p F m = (r, F', m') \<Longrightarrow> manager_step cs ok m m'"
| step_watch: "manager_watches es m = (m', out) \<Longrightarrow> manager_step cs ok m m'"
| step_initialize: "m_configStore m = Some s \<Longrightarrow> proper_directories F \<Longrightarrow>
    manager_step cs ok m (initialize_manager cs F s m)"
| step_restart: "m_configStore m = Some s \<Longrightarrow> proper_directories F \<Longrightarrow>
    manager_step cs ok m (initialize_manager cs F s ConfigManager_init)"

text \<open>A manager starts without a store, as in the daemon, and may get a fresh one at any time.\<close>

inductive reachable_manager :: "'s ConfigStore \<Rightarrow> 's \<Rightarrow> (string \<Rightarrow> bool) \<Rightarrow> 's ConfigManager \<Rightarrow> bool"
  for cs :: "'s ConfigStore" and fresh :: 's and ok :: "string \<Rightarrow> bool" where
  reach_new: "reachable_manager cs fresh ok ConfigManager_init"
| reach_store: "reachable_manager cs fresh ok m \<Longrightarrow> m_configStore m = None \<Longrightarrow> proper_directories F \<Longrightarrow>
    reachable_manager cs fresh ok (initialize_manager cs F fresh m)"
| reach_step: "reachable_manager cs fresh ok m \<Longrightarrow> manager_step cs ok m m' \<Longrightarrow> reachable_manager cs fresh ok m'"

lemma paths_erase: "map path (erase i es) = erase i (map path es)"
  by (simp add: erase_def take_map drop_map)

lemma distinct_erase: "distinct xs \<Longrightarrow> distinct (erase i xs)"
  using set_take_disj_set_drop_if_distinct [of xs i "Suc i"] by (simp add: erase_def)

lemma set_erase: "set (erase i xs) \<subseteq> set xs"
  by (auto simp: erase_def dest: in_set_takeD in_set_dropD)

lemma length_erase: "i < length xs \<Longrightarrow> length (erase i xs) = length xs - 1"
  by (simp add: erase_def)

text \<open>The active index is an entry or none, and no path occurs twice.\<close>

definition wf_list :: "'s ConfigManager \<Rightarrow> bool" where
  "wf_list m = (-1 \<le> m_activeIndex m \<and> m_activeIndex m < int (length (m_configs m)) \<and> distinct (paths m))"

lemma wf_list_cong:
  "paths m = paths m' \<Longrightarrow> m_activeIndex m = m_activeIndex m' \<Longrightarrow> wf_list m = wf_list m'"
  by (simp add: wf_list_def flip: paths_simps(6))

lemma wf_list_save [simp]: "wf_list (save cs m) = wf_list m"
  by (rule wf_list_cong) simp_all

lemma wf_list_active: "wf_list m \<Longrightarrow> -1 \<le> a \<Longrightarrow> a < int (length (m_configs m)) \<Longrightarrow>
    wf_list (m\<lparr>m_activeIndex := a\<rparr>)"
  by (simp add: wf_list_def)

lemma wf_list_append:
  assumes "wf_list m" and "path e \<notin> set (paths m)"
  shows "wf_list (m\<lparr>m_configs := m_configs m @ [e]\<rparr>)"
  using assms by (auto simp: wf_list_def paths_def)

lemma wf_list_remove:
  assumes wf: "wf_list m" and i: "i < length (m_configs m)" and a: "m_activeIndex m = a"
  shows "wf_list (m\<lparr>m_configs := erase i (m_configs m),
     m_activeIndex := (if a = int i then -1 else if a > int i then a - 1 else a)\<rparr>)"
proof -
  have "distinct (paths m)" "-1 \<le> a" "a < int (length (m_configs m))"
    using wf a by (auto simp: wf_list_def)
  then show ?thesis
    using i by (auto simp: wf_list_def paths_erase distinct_erase length_erase paths_def [symmetric])
qed

text \<open>An import registers the configuration files it extracted, which have names.\<close>

lemma register_imported_list:
  assumes "wf_list m"
  shows "wf_list (register_imported f m)" "[] \<in> set (paths (register_imported f m)) \<longleftrightarrow> [] \<in> set (paths m)"
proof -
  show "wf_list (register_imported f m)"
  proof (cases rule: findConfig_cases [of m f])
    case absent
    then show ?thesis using assms unfolding register_imported_def by (auto intro!: wf_list_append)
  next
    case (present i)
    then show ?thesis using assms by (simp add: register_imported_def)
  qed
  show "[] \<in> set (paths (register_imported f m)) \<longleftrightarrow> [] \<in> set (paths m)"
    by (auto simp: register_imported_def paths_def)
qed

lemma register_imported_store: "m_configStore (register_imported f m) = m_configStore m"
  by (simp add: register_imported_def)

lemma importConfig_manager:
  assumes "importConfig cs F archive target overwrite m = (r, F', m')"
  shows "m' = m \<or> (\<exists>files. m' = save cs (fold register_imported files m))"
proof -
  have "(if fs = [] then m else save cs (fold register_imported fs m)) = m \<or>
      (\<exists>files. (if fs = [] then m else save cs (fold register_imported fs m)) = save cs (fold register_imported files m))"
    for fs by auto
  then show ?thesis
    using assms
    by (auto simp: importConfig_def Let_def split: option.splits if_splits prod.splits)
qed

section \<open>The next existing configuration\<close>

text \<open>The indices in the order the loop looks at them, from \<^verbatim>\<open>k\<close> around the list.\<close>

definition cyclic_order :: "nat \<Rightarrow> nat \<Rightarrow> nat list" where
  "cyclic_order k n = map (\<lambda>j. (k + j) mod n) [0..<n]"

lemma skip_missing_from:
  assumes "k < length cfgs" and "j < length cfgs"
  shows "skip_missing cfgs k ((k + j) mod length cfgs) =
    Some (find (\<lambda>i. exists (cfgs ! i)) (map (\<lambda>j. (k + j) mod length cfgs) [j..<length cfgs]))"
  using assms(2)
proof (induction "length cfgs - j" arbitrary: j)
  case 0
  then show ?case by simp
next
  case (Suc d)
  let ?n = "length cfgs"
  have list: "[j..<?n] = j # [Suc j..<?n]" using Suc.prems by (simp add: upt_conv_Cons)
  have next_mod: "((k + j) mod ?n + 1) mod ?n = (k + Suc j) mod ?n" by (simp add: mod_Suc_eq)
  show ?case
  proof (cases "exists (cfgs ! ((k + j) mod ?n))")
    case True
    then show ?thesis by (subst skip_missing.simps) (simp add: list)
  next
    case False
    show ?thesis
    proof (cases "Suc j = ?n")
      case True
      then have "(k + Suc j) mod ?n = k" using assms(1) by simp
      then show ?thesis
        using False True next_mod by (subst skip_missing.simps) (simp add: list)
    next
      case more: False
      have "(k + Suc j) mod ?n \<noteq> k"
      proof (cases "k + Suc j < ?n")
        case True
        then show ?thesis by simp
      next
        case False
        then have "(k + Suc j) mod ?n = k + Suc j - ?n"
          using assms(1) more Suc.prems by (simp add: le_mod_geq)
        then show ?thesis using False more Suc.prems by linarith
      qed
      moreover have "skip_missing cfgs k ((k + Suc j) mod ?n) =
          Some (find (\<lambda>i. exists (cfgs ! i)) (map (\<lambda>j. (k + j) mod ?n) [Suc j..<?n]))"
        using Suc.hyps(1) [of "Suc j"] Suc.hyps(2) more Suc.prems by simp
      ultimately show ?thesis
        using False next_mod by (subst skip_missing.simps) (simp add: list Let_def)
    qed
  qed
qed

lemma skip_missing_find:
  assumes "k < length cfgs"
  shows "skip_missing cfgs k k = Some (find (\<lambda>i. exists (cfgs ! i)) (cyclic_order k (length cfgs)))"
proof -
  have "0 < length cfgs" by (rule le_less_trans [OF le0 assms])
  from skip_missing_from [OF assms this] assms show ?thesis by (simp add: cyclic_order_def)
qed

lemma next_index_bound:
  "m_configs m \<noteq> [] \<Longrightarrow> next_index m < length (m_configs m)"
  by (auto simp: next_index_def nat_less_iff)

text \<open>\<^verbatim>\<open>setNextConfig\<close> always returns, and this is what it does.\<close>

lemma setNextConfig_eq:
  assumes "2 \<le> length (m_configs m)"
  shows "setNextConfig cs m = Some
    (case find (\<lambda>i. exists (m_configs m ! i)) (cyclic_order (next_index m) (length (m_configs m))) of
       None \<Rightarrow> (False, m, [])
     | Some i \<Rightarrow>
         if m_activeIndex m \<noteq> int i then
           let m = save cs (m\<lparr>m_activeIndex := int i\<rparr>) in (True, m, notify m (path (m_configs m ! i)))
         else (True, m, []))"
proof -
  have "next_index m < length (m_configs m)" using assms by (intro next_index_bound) auto
  moreover have "m_configs m \<noteq> []" "length (m_configs m) \<noteq> 1" using assms by auto
  ultimately show ?thesis
    by (simp only: setNextConfig_def skip_missing_find if_False Option.bind.simps)
qed

lemma setNextConfig_active:
  assumes "setNextConfig cs m = Some (b, m', out)" and "m_activeIndex m < int (length (m_configs m))"
    and "-1 \<le> m_activeIndex m"
  shows "(m' = m \<or> (\<exists>i<length (m_configs m). m' = save cs (m\<lparr>m_activeIndex := int i\<rparr>)))"
proof (cases "2 \<le> length (m_configs m)")
  case True
  have "set (cyclic_order (next_index m) (length (m_configs m))) \<subseteq> {..<length (m_configs m)}"
    using True by (auto simp: cyclic_order_def intro: mod_less_divisor)
  then show ?thesis
    using assms(1) unfolding setNextConfig_eq [OF True]
    by (auto simp: Let_def dest: find_eq_Some_mem split: option.splits if_splits)
next
  case False
  then consider "length (m_configs m) = 0" | "length (m_configs m) = 1" by linarith
  then show ?thesis
    using assms(1) by cases (auto simp: setNextConfig_def Let_def split: if_splits)
qed

section \<open>The invariant\<close>

text \<open>What a store holds: the paths, in order, and the active index.\<close>

definition store_holds :: "'s ConfigStore \<Rightarrow> 's \<Rightarrow> string list \<Rightarrow> int \<Rightarrow> bool" where
  "store_holds cs s ps a \<longleftrightarrow>
     snd (read_int cs s KEY_CONFIG_COUNT 0) = int (length ps) \<and>
     list_all (\<lambda>i. read_string cs s (config_key i) [] = (True, ps ! i)) [0..<length ps] \<and>
     snd (read_int cs s KEY_ACTIVE_INDEX (-1)) = a"

lemma synced_holds:
  "synced cs m \<longleftrightarrow> (\<exists>s. m_configStore m = Some s \<and> store_holds cs s (paths m) (m_activeIndex m))"
  by (auto simp: synced_def store_holds_def split: option.splits)

lemma concat_filter_upt: "concat (map (\<lambda>i. if P (f i) then [f i] else []) is) = filter P (map f is)"
  by (induction "is") auto

lemma load_holds:
  assumes "m_configStore m = Some s" "store_holds cs s ps a"
  shows "paths (load cs F m) = filter (\<lambda>p. p \<noteq> []) ps"
    and "m_activeIndex (load cs F m) = (if int (length (filter (\<lambda>p. p \<noteq> []) ps)) \<le> a then -1 else a)"
    and "m_configStore (load cs F m) = Some s"
proof -
  let ?n = "length ps"
  have count: "snd (read_int cs s KEY_CONFIG_COUNT 0) = int ?n"
    and active: "snd (read_int cs s KEY_ACTIVE_INDEX (-1)) = a"
    and str: "\<And>i. i < ?n \<Longrightarrow> read_string cs s (config_key i) [] = (True, ps ! i)"
    using assms(2) by (simp_all add: store_holds_def list_all_iff)
  have "map path (concat (map (load_entry cs F s) [0..<?n])) =
      concat (map (\<lambda>i. if ps ! i \<noteq> [] then [ps ! i] else []) [0..<?n])"
    unfolding map_concat map_map by (rule arg_cong [where f = concat], rule map_cong)
      (simp_all add: load_entry_def str new_entry_def)
  also have "\<dots> = filter (\<lambda>p. p \<noteq> []) ps"
    by (simp only: concat_filter_upt [of "\<lambda>p. p \<noteq> []"] map_nth)
  finally have ps: "map path (concat (map (load_entry cs F s) [0..<?n])) = filter (\<lambda>p. p \<noteq> []) ps" .
  show "paths (load cs F m) = filter (\<lambda>p. p \<noteq> []) ps" "m_configStore (load cs F m) = Some s"
    using assms(1) count ps by (simp_all add: load_def Let_def paths_def)
  show "m_activeIndex (load cs F m) = (if int (length (filter (\<lambda>p. p \<noteq> []) ps)) \<le> a then -1 else a)"
    using assms(1) count active arg_cong [OF ps, of length] by (simp add: load_def Let_def)
qed

text \<open>
  The invariant: the list is well formed; what a store holds could be loaded as such a list; and
  where callers never add the empty path it holds the list.
\<close>

definition manager_inv :: "'s ConfigStore \<Rightarrow> (string \<Rightarrow> bool) \<Rightarrow> 's ConfigManager \<Rightarrow> bool" where
  "manager_inv cs ok m \<longleftrightarrow> wf_list m \<and> (\<not> ok [] \<longrightarrow> [] \<notin> set (paths m)) \<and>
     (\<forall>s. m_configStore m = Some s \<longrightarrow>
        (\<exists>ps a. store_holds cs s ps a \<and> distinct ps \<and> -1 \<le> a \<and>
           (\<not> ok [] \<longrightarrow> ps = paths m \<and> a = m_activeIndex m)))"

lemma manager_inv_cong:
  "paths m = paths m' \<Longrightarrow> m_activeIndex m = m_activeIndex m' \<Longrightarrow> m_configStore m = m_configStore m' \<Longrightarrow>
     manager_inv cs ok m = manager_inv cs ok m'"
  using wf_list_cong [of m m'] by (simp add: manager_inv_def)

lemma manager_inv_watcher [simp]: "manager_inv cs ok (m\<lparr>m_configWatcher := w\<rparr>) = manager_inv cs ok m"
  by (rule manager_inv_cong) simp_all

context config_store
begin

text \<open>What a start of the program finds in the store.\<close>

lemma initialize_keeps:
  assumes m: "wf_manager m" "synced cs m" "m_configStore m = Some s" and F: "proper_directories F"
  shows "wf_manager (initialize_manager cs F s ConfigManager_init)"
    "synced cs (initialize_manager cs F s ConfigManager_init)"
    "\<exists>more. paths (initialize_manager cs F s ConfigManager_init) = paths m @ more"
    "m_activeIndex (initialize_manager cs F s ConfigManager_init) = m_activeIndex m"
proof -
  let ?m0 = "ConfigManager_init\<lparr>m_configStore := Some s\<rparr>"
  let ?m1 = "load cs F ?m0"
  note load = load_synced [OF m(2,1,3), of ?m0 F]
  have p1: "paths ?m1 = paths m"
    using load(1) by (simp add: paths_def [of ?m1] new_entry_def comp_def)
  have "wf_manager ?m1" "synced cs ?m1"
    using m load wf_manager_cong [OF p1] synced_cong [OF _ p1] by simp_all
  note refresh = refreshList_keeps [OF this F]
  let ?m2 = "refreshList cs F ?m1"
  have init: "paths (initialize_manager cs F s ConfigManager_init) = paths ?m2"
    "m_activeIndex (initialize_manager cs F s ConfigManager_init) = m_activeIndex ?m2"
    "m_configStore (initialize_manager cs F s ConfigManager_init) = m_configStore ?m2"
    by (simp_all add: initialize_manager_def Let_def)
  show "wf_manager (initialize_manager cs F s ConfigManager_init)"
    using refresh(1) wf_manager_cong [OF init(1,2)] by simp
  show "synced cs (initialize_manager cs F s ConfigManager_init)"
    using refresh(2) synced_cong [OF init(3,1,2)] by simp
  show "\<exists>more. paths (initialize_manager cs F s ConfigManager_init) = paths m @ more"
    using refresh(3) init(1) p1 by simp
  show "m_activeIndex (initialize_manager cs F s ConfigManager_init) = m_activeIndex m"
    using refresh(4) init(2) load(2) by simp
qed

lemma save_inv:
  assumes "wf_list m" "\<not> ok [] \<Longrightarrow> [] \<notin> set (paths m)"
  shows "manager_inv cs ok (save cs m)"
proof (cases "m_configStore m")
  case None
  then have same: "save cs m = m" by (simp add: save_def)
  show ?thesis unfolding same using assms None by (simp add: manager_inv_def)
next
  case (Some s)
  then have "synced cs (save cs m)" by (intro save_synced) simp
  then obtain s' where "m_configStore (save cs m) = Some s'"
    "store_holds cs s' (paths m) (m_activeIndex m)" by (auto simp: synced_holds)
  with assms show ?thesis by (auto simp: manager_inv_def wf_list_def)
qed

lemma add_entry_inv:
  assumes "manager_inv cs ok m" "path e \<notin> set (paths m)" "ok (path e) \<or> path e \<noteq> []"
  shows "manager_inv cs ok (save cs (m\<lparr>m_configs := m_configs m @ [e]\<rparr>))"
  using assms wf_list_append [of m e] by (intro save_inv) (auto simp: manager_inv_def paths_def)

lemma scan_entries_inv:
  assumes "fold (scan_entry F) ps (m, k) = (m', k')" and "wf_list m" and "list_all (\<lambda>p. p \<noteq> []) ps"
  shows "wf_list m' \<and> ([] \<in> set (paths m') \<longleftrightarrow> [] \<in> set (paths m)) \<and> k \<le> k' \<and> (k' = k \<longrightarrow> m' = m) \<and>
    m_configStore m' = m_configStore m"
  using assms
proof (induction ps arbitrary: m k)
  case Nil
  then show ?case by auto
next
  case (Cons p ps)
  obtain m1 k1 where 1: "scan_entry F p (m, k) = (m1, k1)" by fastforce
  have step: "wf_list m1 \<and> ([] \<in> set (paths m1) \<longleftrightarrow> [] \<in> set (paths m)) \<and> k \<le> k1 \<and> (k1 = k \<longrightarrow> m1 = m) \<and>
    m_configStore m1 = m_configStore m"
  proof (cases rule: findConfig_cases [of m p])
    case absent
    then show ?thesis
      using 1 Cons.prems(2,3) by (auto simp: scan_entry_def wf_list_def paths_def split: if_splits)
  next
    case (present i)
    then show ?thesis using 1 Cons.prems(2) by (auto simp: scan_entry_def split: if_splits)
  qed
  have run: "fold (scan_entry F) ps (m1, k1) = (m', k')" using Cons.prems(1) 1 by simp
  have "list_all (\<lambda>p. p \<noteq> []) ps" using Cons.prems(3) by simp
  from Cons.IH [OF run conjunct1 [OF step] this] step show ?case by auto
qed

lemma scan_inv:
  assumes inv: "manager_inv cs ok m" and F: "proper_directories F" and run: "scanDirectory cs F d m = (n, m')"
  shows "manager_inv cs ok m'"
proof (cases "\<not> fs_exists F d \<or> \<not> is_directory F d")
  case True
  then show ?thesis using inv run by (auto simp: scanDirectory_def)
next
  case False
  obtain m1 k where f: "fold (scan_entry F) (directory_entries F d) (m, 0) = (m1, k)" by fastforce
  have wf: "wf_list m" using inv by (simp add: manager_inv_def)
  note facts = scan_entries_inv [OF f wf directory_entries_not_empty [OF F]]
  have m': "m' = (if k > 0 then save cs m1 else m1)" using run False f by (auto simp: scanDirectory_def)
  show ?thesis
  proof (cases "k > 0")
    case True
    then show ?thesis using m' facts inv save_inv [of m1 ok] by (simp add: manager_inv_def)
  next
    case False
    then show ?thesis using m' facts inv by simp
  qed
qed

lemma refresh_inv:
  assumes "manager_inv cs ok m" "proper_directories F"
  shows "manager_inv cs ok (refreshList cs F m)"
proof -
  let ?m0 = "m\<lparr>m_configs := map (\<lambda>e. e\<lparr>exists := fileExists F (path e)\<rparr>) (m_configs m)\<rparr>"
  have "paths ?m0 = paths m" by (simp add: paths_def)
  then have 0: "manager_inv cs ok ?m0" using assms(1) manager_inv_cong [of ?m0 m cs ok] by simp
  have scan: "manager_inv cs ok m1 \<Longrightarrow> manager_inv cs ok (snd (scanDirectory cs F d m1))" for m1 d
    using scan_inv [OF _ assms(2) surjective_pairing] by blast
  show ?thesis using scan [OF 0] scan 0 by (simp add: refreshList_def Let_def)
qed

lemma load_inv:
  assumes "manager_inv cs ok m0" "m_configStore m0 = Some s" "m_configStore m = Some s"
  shows "manager_inv cs ok (load cs F m)"
proof -
  obtain ps a where ps: "store_holds cs s ps a" "distinct ps" "-1 \<le> a"
    "\<not> ok [] \<longrightarrow> ps = paths m0 \<and> a = m_activeIndex m0"
    using assms(1,2) unfolding manager_inv_def by blast
  note load = load_holds [OF assms(3) ps(1), of F]
  have len: "length (m_configs (load cs F m)) = length (filter (\<lambda>p. p \<noteq> []) ps)"
    using arg_cong [OF load(1), of length] by simp
  have wf: "wf_list (load cs F m)"
    using ps(2,3) by (simp add: wf_list_def load(1,2) len)
  have same: "paths (load cs F m) = ps \<and> m_activeIndex (load cs F m) = a" if "\<not> ok []"
  proof -
    have "[] \<notin> set ps" "a < int (length ps)" using that ps(4) assms(1) by (auto simp: manager_inv_def wf_list_def)
    then have "filter (\<lambda>p. p \<noteq> []) ps = ps" by (auto intro: filter_True)
    with \<open>a < int (length ps)\<close> load show ?thesis by simp
  qed
  have "\<exists>ps' a'. store_holds cs s ps' a' \<and> distinct ps' \<and> -1 \<le> a' \<and>
      (\<not> ok [] \<longrightarrow> ps' = paths (load cs F m) \<and> a' = m_activeIndex (load cs F m))"
    using ps(1-3) same by (intro exI [of _ ps] exI [of _ a]) auto
  then show ?thesis using wf by (simp add: manager_inv_def load(1,3))
qed

lemma initialize_inv:
  assumes "manager_inv cs ok m0" "m_configStore m0 = Some s" "proper_directories F"
  shows "manager_inv cs ok (initialize_manager cs F s m)"
proof -
  have "manager_inv cs ok (refreshList cs F (load cs F (m\<lparr>m_configStore := Some s\<rparr>)))"
    by (rule refresh_inv [OF load_inv [OF assms(1,2)] assms(3)]) simp
  then show ?thesis by (simp add: initialize_manager_def Let_def)
qed

lemma setActive_inv:
  "manager_inv cs ok m \<Longrightarrow> i < length (m_configs m) \<Longrightarrow> manager_inv cs ok (save cs (m\<lparr>m_activeIndex := int i\<rparr>))"
  by (intro save_inv) (auto simp: manager_inv_def intro: wf_list_active)

lemma register_all_inv:
  assumes "manager_inv cs ok m"
  shows "manager_inv cs ok (save cs (fold register_imported files m))"
proof -
  have "wf_list (fold register_imported fs m') \<and> ([] \<in> set (paths (fold register_imported fs m')) \<longleftrightarrow> [] \<in> set (paths m'))"
    if "wf_list m'" for fs m'
    using that by (induction fs arbitrary: m') (simp_all add: register_imported_list)
  then show ?thesis using assms by (intro save_inv) (auto simp: manager_inv_def)
qed

lemma template_inv:
  assumes "manager_inv cs ok m" "ok p" "createFromTemplate now pw_dir cs t p F m = (r, F', m')"
  shows "manager_inv cs ok m'"
proof -
  have "m' = m \<or> m' = add_created cs p m"
    using assms(3) by (auto simp: createFromTemplate_def Let_def split: if_splits option.splits prod.splits)
  moreover have "manager_inv cs ok (add_created cs p m)"
  proof (cases rule: findConfig_cases [of m p])
    case absent
    then show ?thesis using assms(1,2) by (simp add: add_created_def add_entry_inv)
  next
    case (present i)
    then show ?thesis using assms(1) by (simp add: add_created_def)
  qed
  ultimately show ?thesis using assms(1) by blast
qed

lemma step_inv:
  assumes step: "manager_step cs ok m m'" and inv: "manager_inv cs ok m"
  shows "manager_inv cs ok m'"
  using step
proof cases
  case (step_active F p b out)
  then show ?thesis
    using inv setActive_inv [OF inv]
    by (cases rule: findConfig_cases [of m p]) (auto simp: setActiveConfig_def Let_def split: if_splits)
next
  case (step_index F i b out)
  then show ?thesis
    using inv setActive_inv [OF inv, of "nat i"]
    by (auto simp: setActiveConfig_index_def Let_def split: if_splits)
next
  case (step_next b out)
  then show ?thesis
    using setNextConfig_active [OF step_next] inv setActive_inv [OF inv]
    by (auto simp: manager_inv_def wf_list_def)
next
  case (step_add p F b)
  show ?thesis
  proof (cases rule: findConfig_cases [of m p])
    case absent
    then have "m' = save cs (m\<lparr>m_configs := m_configs m @ [new_entry F p]\<rparr>)"
      using step_add(2) by (simp add: addConfig_def)
    then show ?thesis
      using add_entry_inv [OF inv, of "new_entry F p"] absent step_add(1) by (simp add: new_entry_def)
  next
    case (present i)
    then show ?thesis using step_add(2) inv by (simp add: addConfig_def)
  qed
next
  case (step_remove p b)
  show ?thesis
  proof (cases rule: findConfig_cases [of m p])
    case absent
    then show ?thesis using step_remove inv by (simp add: removeConfig_def)
  next
    case (present i)
    let ?m = "m\<lparr>m_configs := erase i (m_configs m), m_activeIndex :=
      (if m_activeIndex m = int i then -1 else if m_activeIndex m > int i then m_activeIndex m - 1
       else m_activeIndex m)\<rparr>"
    have "wf_list m" using inv by (simp add: manager_inv_def)
    then have "wf_list ?m" by (rule wf_list_remove [OF _ present(1) refl])
    moreover have "\<not> ok [] \<Longrightarrow> [] \<notin> set (paths ?m)"
      using inv set_erase [of i "paths m"] by (auto simp: manager_inv_def paths_erase paths_def [symmetric])
    moreover have "m' = save cs ?m"
      using step_remove present by (auto simp: removeConfig_def Let_def)
    ultimately show ?thesis by (simp add: save_inv)
  qed
next
  case (step_scan F d n)
  then show ?thesis using scan_inv [OF inv] by blast
next
  case (step_refresh F)
  then show ?thesis using refresh_inv [OF inv] by simp
next
  case step_save
  have "manager_inv cs ok (save cs m)" by (rule save_inv) (use inv in \<open>simp_all add: manager_inv_def\<close>)
  then show ?thesis using step_save by simp
next
  case (step_load F)
  show ?thesis
  proof (cases "m_configStore m")
    case None
    then show ?thesis using step_load inv by (simp add: load_def)
  next
    case (Some s)
    then show ?thesis using step_load load_inv [OF inv Some Some] by simp
  qed
next
  case (step_auto b)
  then show ?thesis using inv by (simp add: setAutoReloadEnabled_def)
next
  case (step_callback b)
  have "manager_inv cs ok m' = manager_inv cs ok m"
    by (rule manager_inv_cong; simp add: step_callback setChangeCallback_def)
  then show ?thesis using inv by simp
next
  case (step_import F archive target overwrite r F')
  then show ?thesis using importConfig_manager [OF step_import] inv register_all_inv [OF inv] by blast
next
  case (step_template p now pw_dir t F r F')
  then show ?thesis using template_inv [OF inv] by blast
next
  case (step_watch es out)
  then show ?thesis using inv by (auto simp: manager_watches_def Let_def split: prod.splits)
next
  case (step_initialize s F)
  then show ?thesis using initialize_inv [OF inv] by simp
next
  case (step_restart s F)
  then show ?thesis using initialize_inv [OF inv] by simp
qed

lemma reachable_inv: "reachable_manager cs fresh ok m \<Longrightarrow> manager_inv cs ok m"
proof (induction rule: reachable_manager.induct)
  case reach_new
  show ?case by (simp add: manager_inv_def wf_list_def paths_def ConfigManager_init_def)
next
  case (reach_store m F)
  let ?m = "ConfigManager_init\<lparr>m_configStore := Some fresh\<rparr>"
  have "manager_inv cs ok ?m"
    unfolding manager_inv_def
    by (auto simp: wf_list_def paths_def ConfigManager_init_def store_holds_def read_int_fresh
        intro!: exI [of _ "[]"])
  then show ?case using initialize_inv [of ok ?m fresh F m] reach_store by simp
next
  case (reach_step m m')
  then show ?case using step_inv by blast
qed

lemma reachable_keeps:
  assumes "reachable_manager cs fresh ok m" "\<not> ok []" "m_configStore m \<noteq> None"
  shows "wf_manager m \<and> synced cs m"
  using reachable_inv [OF assms(1)] assms(2,3)
  by (auto simp: manager_inv_def wf_list_def wf_manager_def synced_holds)

end

end
