(* ===== verification/Config_Switching.thy ===== *)
theory Config_Switching
  imports Config_Lifecycle
begin

text \<open>
  The properties of the configuration manager: its invariant, restarts, switching through the list,
  and which configuration is reloaded when its file changes.
\<close>

section \<open>An example\<close>

text \<open>A home directory with two configuration files.\<close>

definition example_files :: File_System where
  "example_files =
     \<lparr>resolve = (\<lambda>p. p),
      nodes = [''/h/.yamy'' \<mapsto> Directory [''a.mayu'', ''b.mayu'', ''c.txt''],
               ''/h/.yamy/a.mayu'' \<mapsto> Regular_File [] 0, ''/h/.yamy/b.mayu'' \<mapsto> Regular_File [] 0,
               ''/h/.yamy/c.txt'' \<mapsto> Regular_File [] 0],
      current_path = ''/'', absolute_dir = parent_path,
      environment = [''HOME'' \<mapsto> ''/h''], clock = 0\<rparr>"

definition plain_store :: "QSettings ConfigStore" where
  "plain_store = QSettingsConfigStore (\<lambda>_. None) (\<lambda>_. [])"

definition example_manager :: "QSettings ConfigManager" where
  "example_manager = initialize_manager plain_store example_files (\<lambda>_. None) ConfigManager_init"

lemma example_proper: "proper_directories example_files"
  by (simp add: proper_directories_def example_files_def)

lemma example_reachable: "reachable_manager plain_store (\<lambda>_. None) ok example_manager"
  unfolding example_manager_def
  by (rule reach_store [OF reach_new _ example_proper]) (simp add: ConfigManager_init_def)

lemma example_list: "map path (m_configs example_manager) = [''/h/.yamy/a.mayu'', ''/h/.yamy/b.mayu'']"
  by code_simp

lemma example_exists: "map exists (m_configs example_manager) = [True, True]"
  by code_simp

lemma example_active: "m_activeIndex example_manager = -1"
  by code_simp

section \<open>Invariant and restart\<close>

text \<open>C15: However the manager is used: with or without a store, through initialising, loading, saving,
  scanning directories, refreshing, adding, removing, importing, creating from templates, activating
  and switching, through the watcher's events and restarts, with the files changing in any way. The
  active index is an entry of the list or none, and no path stands twice in the list. If the manager
  has a store and no caller adds the empty path (the argument \<open>ok\<close> says which paths callers add), the
  store holds the list and the active index.\<close>

theorem manager_invariant:
  assumes "reachable_manager (QSettingsConfigStore to_i to_s) (\<lambda>_. None) ok m"
  shows "-1 \<le> m_activeIndex m \<and> m_activeIndex m < int (length (m_configs m)) \<and>
    distinct (map path (m_configs m)) \<and>
    (m_configStore m \<noteq> None \<and> \<not> ok [] \<longrightarrow> synced (QSettingsConfigStore to_i to_s) m)"
  using qs.reachable_inv [OF assms] qs.reachable_keeps [OF assms]
  by (auto simp: manager_inv_def wf_list_def paths_def)

text \<open>A configuration is added, the one in front of it removed, and one created from a template.\<close>

definition example_life :: "QSettings ConfigManager" where
  "example_life =
     (let m = snd (addConfig plain_store example_files ''/h/.yamy/c.txt'' example_manager);
          m = snd (removeConfig plain_store ''/h/.yamy/a.mayu'' m)
      in snd (snd (createFromTemplate 7 None plain_store Template_Vim ''/h/.yamy/n'' example_files m)))"

lemma example_life_reachable: "reachable_manager plain_store (\<lambda>_. None) (\<lambda>p. p \<noteq> []) example_life"
proof -
  let ?ok = "\<lambda>p :: string. p \<noteq> []"
  have add: "manager_step plain_store ?ok m (snd (addConfig plain_store F p m))" if "p \<noteq> []" for F p m
    by (rule step_add [where p = p and ok = ?ok, OF that surjective_pairing])
  have remove: "manager_step plain_store ?ok m (snd (removeConfig plain_store p m))" for p m
    by (rule step_remove [OF surjective_pairing])
  have create: "manager_step plain_store ?ok m (snd (snd (createFromTemplate now pw_dir plain_store t p F m)))"
    if "p \<noteq> []" for now pw_dir t p F m
  proof -
    obtain r F' m' where eq: "createFromTemplate now pw_dir plain_store t p F m = (r, F', m')" by (metis prod_cases3)
    show ?thesis using step_template [where p = p and ok = ?ok, OF that eq] by (simp add: eq)
  qed
  show ?thesis
    unfolding example_life_def Let_def
    by (rule reach_step [OF reach_step [OF reach_step [OF example_reachable add] remove] create]) simp_all
qed

theorem manager_invariant_witness:
  "synced plain_store example_manager \<and> distinct (map path (m_configs example_life))"
proof -
  have "m_configStore example_manager \<noteq> None" by code_simp
  then show ?thesis
    using manager_invariant [OF example_reachable [unfolded plain_store_def, of "\<lambda>p. p \<noteq> []"]]
      manager_invariant [OF example_life_reachable [unfolded plain_store_def]]
    by (simp add: plain_store_def)
qed

text \<open>C19: A manager that is initialised with a store and whose callers never add the empty path finds,
  after a restart with the same store, the configurations it had, in their order and in front of any
  new ones, and the same one is active. (The daemon itself never gives its manager a store.)\<close>

theorem restart_keeps_configurations:
  assumes "reachable_manager (QSettingsConfigStore to_i to_s) (\<lambda>_. None) ok m" and "\<not> ok []"
    and "m_configStore m = Some s" and "proper_directories F"
    and "m' = initialize_manager (QSettingsConfigStore to_i to_s) F s ConfigManager_init"
  shows "take (length (m_configs m)) (map path (m_configs m')) = map path (m_configs m) \<and>
    m_activeIndex m' = m_activeIndex m \<and> getActiveConfig m' = getActiveConfig m"
proof -
  have wf: "wf_manager m" and sync: "synced (QSettingsConfigStore to_i to_s) m"
    using qs.reachable_keeps [OF assms(1,2)] assms(3) by blast+
  note keeps = qs.initialize_keeps [OF wf sync assms(3,4)]
  obtain more where more: "paths m' = paths m @ more" using keeps(3) assms(5) by blast
  have active: "m_activeIndex m' = m_activeIndex m" using keeps(4) assms(5) by simp
  have nth: "path (m_configs m' ! i) = path (m_configs m ! i)" if "i < length (m_configs m)" for i
  proof -
    have "length (m_configs m') \<ge> length (m_configs m)"
      using arg_cong [OF more, of length] by simp
    then have "path (m_configs m' ! i) = paths m' ! i" using that by (simp add: paths_def)
    also have "\<dots> = path (m_configs m ! i)" using that more by (simp add: paths_def nth_append)
    finally show ?thesis .
  qed
  have "length (m_configs m) \<le> length (m_configs m')" using arg_cong [OF more, of length] by simp
  moreover have "m_activeIndex m < int (length (m_configs m))" using wf by (simp add: wf_manager_def)
  ultimately have "getActiveConfig m' = getActiveConfig m"
    using active nth [of "nat (m_activeIndex m)"] by (auto simp: getActiveConfig_def)
  then show ?thesis using more active by (simp add: paths_def)
qed

theorem restart_keeps_configurations_witness:
  "\<exists>s. m_configStore example_manager = Some s \<and>
     take 2 (map path (m_configs (initialize_manager plain_store example_files s ConfigManager_init))) =
       [''/h/.yamy/a.mayu'', ''/h/.yamy/b.mayu'']"
proof -
  have "m_configStore example_manager \<noteq> None" by code_simp
  then obtain s where s: "m_configStore example_manager = Some s" by blast
  have "length (m_configs example_manager) = 2"
    using arg_cong [OF example_list, of length] by simp
  then show ?thesis
    using s restart_keeps_configurations
      [OF example_reachable [unfolded plain_store_def, of "\<lambda>p. p \<noteq> []"] _ s example_proper refl]
    by (simp add: example_list plain_store_def)
qed

section \<open>Switching\<close>

fun cycle :: "'s ConfigStore \<Rightarrow> nat \<Rightarrow> 's ConfigManager \<Rightarrow> 's ConfigManager option" where
  "cycle cs 0 m = Some m"
| "cycle cs (Suc k) m =
     (case setNextConfig cs m of None \<Rightarrow> None | Some (b, m', out) \<Rightarrow> cycle cs k m')"

lemma find_first_upt:
  assumes "P (f d)" and "d < n"
  obtains r where "r \<le> d" "P (f r)" "find P (map f [0..<n]) = Some (f r)"
proof -
  let ?r = "LEAST r. P (f r)"
  have r: "?r \<le> d" "P (f ?r)" using assms(1) by (auto intro: Least_le LeastI)
  have "find P (map f [0..<n]) = Some (f ?r)"
    unfolding find_eq_Some_first
  proof (intro exI conjI)
    have "[0..<n] = [0..<?r] @ ?r # [Suc ?r..<n]"
      using r(1) assms(2) by (metis le_trans less_imp_le_nat order_le_less_trans upt_add_eq_append upt_conv_Cons zero_le le_iff_add)
    then show "map f [0..<n] = map f [0..<?r] @ f ?r # map f [Suc ?r..<n]" by simp
    show "P (f ?r)" by (rule r(2))
    show "\<forall>u\<in>set (map f [0..<?r]). \<not> P u" using not_less_Least by fastforce
  qed
  then show ?thesis using that r by blast
qed

lemma setNextConfig_found:
  assumes "2 \<le> length (m_configs m)"
    and "find (\<lambda>i. exists (m_configs m ! i)) (cyclic_order (next_index m) (length (m_configs m))) = Some i"
  shows "\<exists>m' out. setNextConfig cs m = Some (True, m', out) \<and> m_configs m' = m_configs m \<and>
    m_activeIndex m' = int i"
  using setNextConfig_eq [OF assms(1), of cs] assms(2)
  by (cases "m_activeIndex m = int i") (simp_all add: Let_def)

lemma next_index_after:
  assumes "m_activeIndex m = int i"
  shows "next_index m = Suc i mod length (m_configs m)"
proof -
  have "(int i + 1) mod int (length (m_configs m)) = int (Suc i mod length (m_configs m))"
    by (simp add: zmod_int add.commute)
  then show ?thesis using assms by (simp add: next_index_def)
qed

lemma cycle_reaches:
  assumes "2 \<le> length (m_configs m)" and "m_activeIndex m < int (length (m_configs m))"
    and "d < length (m_configs m)"
    and "exists (m_configs m ! ((next_index m + d) mod length (m_configs m)))"
  shows "\<exists>k m'. k \<le> Suc d \<and> cycle cs k m = Some m' \<and> m_configs m' = m_configs m \<and>
    m_activeIndex m' = int ((next_index m + d) mod length (m_configs m))"
  using assms
proof (induction d arbitrary: m rule: less_induct)
  case (less d)
  let ?n = "length (m_configs m)"
  let ?f = "\<lambda>j. (next_index m + j) mod ?n"
  obtain r where r: "r \<le> d" "exists (m_configs m ! ?f r)"
    "find (\<lambda>i. exists (m_configs m ! i)) (cyclic_order (next_index m) ?n) = Some (?f r)"
    using find_first_upt [of "\<lambda>i. exists (m_configs m ! i)" ?f d ?n] less.prems(3,4)
    unfolding cyclic_order_def by blast
  obtain m1 out where nxt: "setNextConfig cs m = Some (True, m1, out)"
    and m1: "m_configs m1 = m_configs m" "m_activeIndex m1 = int (?f r)"
    using setNextConfig_found [OF less.prems(1) r(3), of cs] by blast
  show ?case
  proof (cases "r = d")
    case True
    then show ?thesis using nxt m1 by (intro exI [of _ 1] exI [of _ m1]) simp
  next
    case False
    have next1: "next_index m1 = (next_index m + r + 1) mod ?n"
      using next_index_after [OF m1(2)] m1(1) by (simp add: mod_Suc_eq)
    have target: "(next_index m1 + (d - Suc r)) mod ?n = ?f d"
    proof -
      have "(next_index m1 + (d - Suc r)) mod ?n = (next_index m + r + 1 + (d - Suc r)) mod ?n"
        unfolding next1 by (rule mod_add_left_eq)
      also have "next_index m + r + 1 + (d - Suc r) = next_index m + d" using r(1) False by simp
      finally show ?thesis .
    qed
    have "\<exists>k m'. k \<le> Suc (d - Suc r) \<and> cycle cs k m1 = Some m' \<and> m_configs m' = m_configs m1 \<and>
      m_activeIndex m' = int ((next_index m1 + (d - Suc r)) mod length (m_configs m1))"
    proof (rule less.IH)
      show "d - Suc r < d" using r(1) False by simp
      show "2 \<le> length (m_configs m1)" using less.prems(1) m1 by simp
      have "?f r < ?n" using less.prems(1) by (intro mod_less_divisor) linarith
      then show "m_activeIndex m1 < int (length (m_configs m1))" using m1 by simp
      show "d - Suc r < length (m_configs m1)" using less.prems(3) m1 by simp
      show "exists (m_configs m1 ! ((next_index m1 + (d - Suc r)) mod length (m_configs m1)))"
        using less.prems(4) target m1 by simp
    qed
    then obtain k m' where k: "k \<le> Suc (d - Suc r)" "cycle cs k m1 = Some m'"
      "m_configs m' = m_configs m" "m_activeIndex m' = int (?f d)"
      using m1 target by auto
    then show ?thesis
      using nxt r(1) False by (intro exI [of _ "Suc k"] exI [of _ m']) auto
  qed
qed

lemma reaches_chosen:
  assumes "2 \<le> length (m_configs m)" and "m_activeIndex m < int (length (m_configs m))"
    and "j < length (m_configs m)" and "exists (m_configs m ! j)"
  shows "\<exists>k\<le>length (m_configs m). \<exists>m'. cycle cs k m = Some m' \<and> m_configs m' = m_configs m \<and>
    m_activeIndex m' = int j \<and> getActiveConfig m' = path (m_configs m ! j)"
proof -
  let ?n = "length (m_configs m)"
  let ?k0 = "next_index m"
  let ?d = "(j + (?n - ?k0)) mod ?n"
  have k0: "?k0 < ?n" using assms(1) by (intro next_index_bound) auto
  have "(?k0 + ?d) mod ?n = (?k0 + (j + (?n - ?k0))) mod ?n" by (simp add: mod_add_right_eq)
  also have "?k0 + (j + (?n - ?k0)) = j + ?n" using k0 by simp
  also have "(j + ?n) mod ?n = j" using assms(3) by simp
  finally have d: "(?k0 + ?d) mod ?n = j" .
  have "?d < ?n" using assms(3) by (intro mod_less_divisor) linarith
  from cycle_reaches [OF assms(1,2) this, of cs] d assms(4)
  obtain k m' where "k \<le> Suc ?d" "cycle cs k m = Some m'" "m_configs m' = m_configs m"
    "m_activeIndex m' = int j" by auto
  then show ?thesis
    using \<open>?d < ?n\<close> assms(3) by (intro exI [of _ k] conjI exI [of _ m']) (auto simp: getActiveConfig_def)
qed

lemma setNextConfig_single:
  assumes "length (m_configs m) = 1"
  shows "\<exists>m' out. setNextConfig cs m = Some (True, m', out) \<and> m_configs m' = m_configs m \<and> m_activeIndex m' = 0"
  using assms by (cases "m_activeIndex m = 0") (auto simp: setNextConfig_def Let_def)

text \<open>C18: Switching to the next configuration always returns: with no configuration, or with two or
  more whose files are all missing, it gives up and changes nothing. Otherwise, while the active index
  is an entry of the list or none (C15), switched at most as often as there are configurations, it
  makes any chosen existing one active, whichever was active before.\<close>

theorem next_config_reaches_all:
  "setNextConfig cs m \<noteq> None \<and>
   (length (m_configs m) \<noteq> 1 \<and> (\<forall>e\<in>set (m_configs m). \<not> exists e) \<longrightarrow> setNextConfig cs m = Some (False, m, [])) \<and>
   (m_activeIndex m < int (length (m_configs m)) \<and> j < length (m_configs m) \<and> exists (m_configs m ! j) \<longrightarrow>
      (\<exists>k\<le>length (m_configs m). \<exists>m'. cycle cs k m = Some m' \<and> m_configs m' = m_configs m \<and>
         m_activeIndex m' = int j \<and> getActiveConfig m' = path (m_configs m ! j)))"
proof -
  consider (none) "m_configs m = []" | (one) "length (m_configs m) = 1" | (more) "2 \<le> length (m_configs m)"
    by (cases "m_configs m") (auto simp: Suc_le_eq)
  then show ?thesis
  proof cases
    case none
    then show ?thesis by (simp add: setNextConfig_def)
  next
    case one
    obtain m' out where m': "setNextConfig cs m = Some (True, m', out)" "m_configs m' = m_configs m"
      "m_activeIndex m' = 0" using setNextConfig_single [OF one] by blast
    have "getActiveConfig m' = path (m_configs m ! 0)" using m' one by (simp add: getActiveConfig_def)
    then have "\<exists>k\<le>length (m_configs m). \<exists>m'. cycle cs k m = Some m' \<and> m_configs m' = m_configs m \<and>
        m_activeIndex m' = int 0 \<and> getActiveConfig m' = path (m_configs m ! 0)"
      using m' one by (intro exI [of _ 1] exI [of _ m']) simp
    then show ?thesis using m'(1) one by simp
  next
    case more
    have "find (\<lambda>i. exists (m_configs m ! i)) (cyclic_order (next_index m) (length (m_configs m))) = None"
      if "\<forall>e\<in>set (m_configs m). \<not> exists e"
    proof -
      have "m_configs m \<noteq> []" using more by auto
      then show ?thesis using that by (auto simp: find_None_iff cyclic_order_def)
    qed
    then show ?thesis
      using setNextConfig_eq [OF more, of cs] reaches_chosen [OF more, of j cs] by simp
  qed
qed

theorem next_config_reaches_all_witness:
  "\<exists>k\<le>2. \<exists>m'. cycle plain_store k example_manager = Some m' \<and>
     getActiveConfig m' = ''/h/.yamy/b.mayu''"
proof -
  let ?m = example_manager
  have n: "length (m_configs ?m) = 2" using arg_cong [OF example_list, of length] by simp
  have p: "path (m_configs ?m ! 1) = ''/h/.yamy/b.mayu''"
    using arg_cong [OF example_list, of "\<lambda>xs. xs ! 1"] n by simp
  have e: "exists (m_configs ?m ! 1)" using arg_cong [OF example_exists, of "\<lambda>xs. xs ! 1"] n by simp
  have "\<exists>k\<le>length (m_configs ?m). \<exists>m'. cycle plain_store k ?m = Some m' \<and> m_configs m' = m_configs ?m \<and>
    m_activeIndex m' = int 1 \<and> getActiveConfig m' = path (m_configs ?m ! 1)"
    using next_config_reaches_all [of plain_store ?m 1] n e example_active by simp
  then show ?thesis using n p by auto
qed

section \<open>Reloading\<close>

lemma findConfig_found:
  assumes "findConfig m p = int i"
  shows "i < length (m_configs m) \<and> path (m_configs m ! i) = p"
  using assms by (cases rule: findConfig_cases [of m p]) simp_all

lemma watcher_callbacks_mem:
  "Change_Callback p \<in> set out \<Longrightarrow> p = getActiveConfig m \<Longrightarrow> m_changeCallback m \<Longrightarrow>
     p \<in> set (watcher_callbacks m out)"
  by (force simp: watcher_callbacks_def onActiveConfigChanged_def notify_def)

lemma watcher_callbacks_none:
  assumes "\<And>p. Change_Callback p \<in> set out \<Longrightarrow> p \<noteq> getActiveConfig m"
  shows "watcher_callbacks m out = []"
  using assms
  by (auto simp: watcher_callbacks_def onActiveConfigChanged_def split: watcher_output.splits)

text \<open>C20: A configuration made active by its path is reloaded when its file changes. With the watcher
  started, automatic reloading on and a change callback set, once a switch to another configuration by
  its path has succeeded, and its file is reported changed: whatever further signals the watcher gets
  before the debounce timer fires, the change callback gets its path, if the file is there at the
  change and when the timer fires. (Another switch, a removal or turning reloading off in between are
  not among these events; they suppress the reload.)\<close>

theorem chosen_config_is_reloaded:
  assumes watching: "m_watching (m_configWatcher m)" "m_autoReloadEnabled (m_configWatcher m)"
    and callback: "m_changeCallback m"
    and chosen: "setActiveConfig cs F p m = (True, m', [p])"
    and there: "p \<noteq> []" "fs_exists F1 p" "fs_exists F2 p"
    and before: "list_all (\<lambda>(F, e). e \<noteq> Timer_Fires) es"
    and run: "manager_watches ((F1, File_Signal p) # es @ [(F2, Timer_Fires)]) m' = (m'', calls)"
  shows "p \<in> set calls"
proof -
  obtain i where i: "findConfig m p = int i"
    using chosen by (cases rule: findConfig_cases [of m p]) (auto simp: setActiveConfig_def)
  then have switch: "m_activeIndex m \<noteq> int i"
    using chosen by (auto simp: setActiveConfig_def)
  have m': "m_configs m' = m_configs m" "m_activeIndex m' = int i" "m_changeCallback m'"
    "m_configWatcher m' = setConfigPath F p (m_configWatcher m)"
    using chosen i switch callback by (auto simp: setActiveConfig_def Let_def)
  have active: "getActiveConfig m' = p"
    using findConfig_found [OF i] m' by (simp add: getActiveConfig_def)
  obtain w out where w: "watcher_events ((F1, File_Signal p) # es @ [(F2, Timer_Fires)]) (m_configWatcher m')
      = (w, out)" by fastforce
  have "Change_Callback p \<in> set out"
    using change_reaches_callback [of "m_configWatcher m'" F1 es F2 w out] w watching there before
    by (simp add: m' setConfigPath_path)
  then show ?thesis
    using run w active m' watcher_callbacks_mem [of p out "m'\<lparr>m_configWatcher := w\<rparr>"]
    by (auto simp: manager_watches_def Let_def getActiveConfig_def simp del: watcher_events.simps)
qed

theorem chosen_config_is_reloaded_witness:
  "let m = example_manager\<lparr>m_activeIndex := 0, m_changeCallback := True,
             m_configWatcher := watcher_start example_files
               (setConfigPath example_files ''/h/.yamy/a.mayu'' ConfigWatcher_init)\<rparr>;
       p = ''/h/.yamy/b.mayu'';
       m' = fst (snd (setActiveConfig plain_store example_files p m))
   in p \<in> set (snd (manager_watches [(example_files, File_Signal p), (example_files, Directory_Signal ''/h/.yamy''),
        (example_files, Timer_Fires)] m'))"
proof -
  let ?m = "example_manager\<lparr>m_activeIndex := 0, m_changeCallback := True,
             m_configWatcher := watcher_start example_files
               (setConfigPath example_files ''/h/.yamy/a.mayu'' ConfigWatcher_init)\<rparr>"
  let ?p = "''/h/.yamy/b.mayu''"
  let ?es = "[(example_files, File_Signal ?p), (example_files, Directory_Signal ''/h/.yamy''),
        (example_files, Timer_Fires)]"
  let ?r = "setActiveConfig plain_store example_files ?p ?m"
  have "?p \<in> set (snd (manager_watches ?es (fst (snd ?r))))"
  proof (rule chosen_config_is_reloaded
      [where es = "[(example_files, Directory_Signal ''/h/.yamy'')]" and F = example_files
        and m'' = "fst (manager_watches ?es (fst (snd ?r)))"])
    show "m_watching (m_configWatcher ?m)" "m_autoReloadEnabled (m_configWatcher ?m)"
      "m_changeCallback ?m" by code_simp+
    show "?r = (True, fst (snd ?r), [?p])"
    proof -
      have "findConfig ?m ?p = 1" by code_simp
      then show ?thesis by (simp add: setActiveConfig_def Let_def notify_def)
    qed
    show "fs_exists example_files ?p" by code_simp
    show "fs_exists example_files ?p" by code_simp
  qed simp_all
  then show ?thesis by (simp only: Let_def)
qed

text \<open>A configuration reached by switching to the next one is not reloaded when its file changes:
  the watcher stays with the file it watched before, and no sequence of file changes, directory
  changes and timer events leads to a call of the change callback.\<close>

theorem next_config_is_not_reloaded:
  assumes watched: "m_configPath (m_configWatcher m) = getActiveConfig m"
    and switched: "setNextConfig cs m = Some (b, m', out)"
    and other: "getActiveConfig m' \<noteq> getActiveConfig m"
  shows "snd (manager_watches es m') = []"
proof -
  have w: "m_configWatcher m' = m_configWatcher m"
    using switched
    by (auto simp: setNextConfig_def Let_def Option.bind_eq_Some_conv split: if_splits option.splits)
  obtain v calls where run: "watcher_events es (m_configWatcher m') = (v, calls)" by fastforce
  have none: "p \<noteq> getActiveConfig (m'\<lparr>m_configWatcher := v\<rparr>)" if "Change_Callback p \<in> set calls" for p
    using that watcher_events_frame [OF run] w watched other by (auto simp: getActiveConfig_def)
  then show ?thesis
    using run watcher_callbacks_none [OF none] by (simp add: manager_watches_def Let_def)
qed

theorem next_config_is_not_reloaded_witness:
  "let m = example_manager\<lparr>m_activeIndex := 0, m_changeCallback := True,
             m_configWatcher := watcher_start example_files
               (setConfigPath example_files ''/h/.yamy/a.mayu'' ConfigWatcher_init)\<rparr>;
       m' = fst (snd (the (setNextConfig plain_store m)))
   in getActiveConfig m' = ''/h/.yamy/b.mayu'' \<and>
      snd (manager_watches [(example_files, File_Signal ''/h/.yamy/b.mayu''), (example_files, Timer_Fires)] m') = []"
proof -
  let ?m = "example_manager\<lparr>m_activeIndex := 0, m_changeCallback := True,
             m_configWatcher := watcher_start example_files
               (setConfigPath example_files ''/h/.yamy/a.mayu'' ConfigWatcher_init)\<rparr>"
  obtain b m' out where r: "setNextConfig plain_store ?m = Some (b, m', out)"
    and m': "m_activeIndex m' = 1" "m_configs m' = m_configs ?m"
  proof -
    have n: "length (m_configs ?m) = 2" using arg_cong [OF example_list, of length] by simp
    have "cyclic_order (next_index ?m) (length (m_configs ?m)) = [1, 0]"
      using n by (simp add: cyclic_order_def next_index_def upt_conv_Cons)
    moreover have "exists (m_configs ?m ! 1)"
      using arg_cong [OF example_exists, of "\<lambda>xs. xs ! 1"] n by simp
    ultimately show ?thesis
      using setNextConfig_found [of ?m 1 plain_store] n that by auto
  qed
  have p: "path (m_configs ?m ! 0) = ''/h/.yamy/a.mayu''" "path (m_configs ?m ! 1) = ''/h/.yamy/b.mayu''"
    "length (m_configs ?m) = 2"
    by code_simp+
  then have active: "getActiveConfig m' = ''/h/.yamy/b.mayu''" "getActiveConfig ?m = ''/h/.yamy/a.mayu''"
    using m' by (simp_all add: getActiveConfig_def)
  have "m_configPath (m_configWatcher ?m) = ''/h/.yamy/a.mayu''" by code_simp
  with active have "snd (manager_watches es m') = []" for es
    using next_config_is_not_reloaded [OF _ r] by simp
  then show ?thesis using r active by (simp add: Let_def)
qed

end
