(* ===== verification/Archive_Roundtrip.thy ===== *)
theory Archive_Roundtrip
  imports Config_Archive
begin

text \<open>
  Exported packages read back: what the reader makes of the bytes the writer produced, and the
  files on disk after an import.
\<close>

section \<open>Files that stay\<close>

text \<open>A change of the file system that keeps what paths mean and the content of every file.\<close>

definition keeps_files :: "File_System \<Rightarrow> File_System \<Rightarrow> bool" where
  "keeps_files F F' =
     (resolve F' = resolve F \<and> (\<forall>q. read_file F' q = read_file F q))"

lemma keeps_files_refl [simp]: "keeps_files F F"
  by (simp add: keeps_files_def)

lemma keeps_files_trans: "keeps_files F F1 \<Longrightarrow> keeps_files F1 F2 \<Longrightarrow> keeps_files F F2"
  by (auto simp: keeps_files_def)

lemma keeps_files_new: "\<not> fs_exists F p \<Longrightarrow> keeps_files F F1 \<Longrightarrow> keeps_files F (set_node p (Directory []) F1)"
  unfolding keeps_files_def
proof (intro conjI allI)
  assume new: "\<not> fs_exists F p" and keep: "resolve F1 = resolve F \<and> (\<forall>q. read_file F1 q = read_file F q)"
  show "resolve (set_node p (Directory []) F1) = resolve F" using keep by simp
  fix q
  show "read_file (set_node p (Directory []) F1) q = read_file F q"
  proof (cases "resolve F q = resolve F p")
    case True
    then have "read_file F q = None" using new by (auto simp: read_file_def fs_exists_def file_at_def)
    moreover have "file_at (set_node p (Directory []) F1) q = Some (Directory [])"
      using file_at_set_node [of p "Directory []" F1] True keep by (simp add: file_at_def)
    ultimately show ?thesis by (simp add: read_file_def)
  next
    case False
    then show ?thesis using read_file_set_other [of F1 q p] keep by simp
  qed
qed

lemma success_failed [simp]: "\<not> success (failed msg processed)"
  by (simp add: failed_def)

lemma create_dirs_keeps: "create_dirs n p F = Some F' \<Longrightarrow> keeps_files F F'"
proof (induction n arbitrary: p F')
  case 0
  then show ?case by simp
next
  case (Suc n)
  then show ?case
    by (auto split: if_splits option.splits intro!: keeps_files_new)
qed

lemma ensure_parent_keeps: "ensure_parent p F = Some F' \<Longrightarrow> keeps_files F F'"
  by (auto simp: ensure_parent_def Let_def create_directories_def split: if_splits
      simp del: create_dirs.simps intro: create_dirs_keeps)

lemma write_file_result:
  assumes "write_file p c F = Some F'"
  shows "resolve F' = resolve F" and "read_file F' p = Some c"
    and "resolve F q \<noteq> resolve F p \<Longrightarrow> read_file F' q = read_file F q"
  using assms read_file_set_other [of F q p]
  by (auto simp: write_file_def file_at_set_node read_file_def [of _ p] split: if_splits)

section \<open>Writing\<close>

definition archived :: "File_System \<Rightarrow> (string \<times> string) list \<Rightarrow> (string \<times> string) list" where
  "archived F files = map (\<lambda>(relative, absolute). (relative, the (read_file F absolute))) files"

lemma writeArchiveEntry_bytes:
  assumes "writeArchiveEntry F out re ab = Some out'" and "representable (re, the (read_file F ab))"
  shows "out' = out @ entry_bytes (re, the (read_file F ab)) \<and> read_file F ab \<noteq> None"
  using assms by (auto simp: writeArchiveEntry_def entry_bytes_def representable_def Let_def split: option.splits)

lemma write_entries_bytes:
  assumes "write_entries F files out processed = (out', r)" and "success r"
    and "list_all representable (archived F files)"
  shows "out' = out @ concat (map entry_bytes (archived F files)) \<and>
    filesProcessed r = processed @ map fst files \<and> list_all (\<lambda>f. read_file F (snd f) \<noteq> None) files"
  using assms
proof (induction files arbitrary: out processed)
  case Nil
  then show ?case by (auto simp: archived_def)
next
  case (Cons f files)
  obtain re ab where f: "f = (re, ab)" by fastforce
  show ?case
  proof (cases "writeArchiveEntry F out re ab")
    case None
    then show ?thesis using Cons.prems f by auto
  next
    case (Some out1)
    have rep: "representable (re, the (read_file F ab))" "list_all representable (archived F files)"
      using Cons.prems(3) f by (simp_all add: archived_def)
    have "write_entries F files out1 (processed @ [re]) = (out', r)"
      using Cons.prems(1) f Some by simp
    from Cons.IH [OF this Cons.prems(2) rep(2)] writeArchiveEntry_bytes [OF Some rep(1)] f
    show ?thesis by (simp add: archived_def)
  qed
qed

section \<open>Extracting\<close>

lemma extract_files_result:
  assumes "extract_files (length es) i F target \<lparr>rest = concat (map entry_bytes es), good = True\<rparr> processed
      = (r, F')"
    and "success r" and "list_all representable es"
    and "distinct (map (\<lambda>e. resolve F (path_append target (fst e))) es)"
  shows "filesProcessed r = processed @ map (\<lambda>e. path_append target (fst e)) es \<and>
    resolve F' = resolve F \<and>
    (\<forall>q. resolve F q \<notin> set (map (\<lambda>e. resolve F (path_append target (fst e))) es) \<longrightarrow>
         read_file F' q = read_file F q) \<and>
    list_all (\<lambda>e. read_file F' (path_append target (fst e)) = Some (snd e)) es"
  using assms
proof (induction es arbitrary: i F processed)
  case Nil
  then show ?case by auto
next
  case (Cons e es)
  obtain p c where e: "e = (p, c)" by fastforce
  let ?d = "path_append target p"
  have rep: "representable e" "list_all representable es" using Cons.prems(3) by simp_all
  have lim: "within_limits e"
    using Cons.prems(1,2) readArchiveEntry_here [OF rep(1), of "concat (map entry_bytes es)"]
    by (auto split: if_splits)
  have entry: "readArchiveEntry \<lparr>rest = concat (map entry_bytes (e # es)), good = True\<rparr> =
      Some ((p, c), \<lparr>rest = concat (map entry_bytes es), good = True\<rparr>)"
    using readArchiveEntry_here [OF rep(1), of "concat (map entry_bytes es)"] lim e by simp
  have "\<not> traversal p" using Cons.prems(1,2) entry by auto
  then obtain F1 where F1: "ensure_parent ?d F = Some F1"
    using Cons.prems(1,2) entry by (cases "ensure_parent ?d F") (auto simp: Let_def)
  then obtain F2 where F2: "write_file ?d c F1 = Some F2"
    using Cons.prems(1,2) entry \<open>\<not> traversal p\<close>
    by (cases "write_file ?d c F1") (auto simp: Let_def)
  have tail: "extract_files (length es) (Suc i) F2 target \<lparr>rest = concat (map entry_bytes es), good = True\<rparr>
      (processed @ [?d]) = (r, F')"
    using Cons.prems(1) entry F1 F2 \<open>\<not> traversal p\<close> by (simp add: Let_def)
  have keep: "keeps_files F F1" by (rule ensure_parent_keeps [OF F1])
  have res: "resolve F1 = resolve F" "resolve F2 = resolve F"
    using keep write_file_result(1) [OF F2] by (simp_all add: keeps_files_def)
  have dist: "distinct (map (\<lambda>e. resolve F2 (path_append target (fst e))) es)"
    using Cons.prems(4) res by simp
  note IH = Cons.IH [OF tail Cons.prems(2) rep(2) dist]
  have "read_file F2 q = read_file F q"
    if "resolve F q \<noteq> resolve F ?d" for q
  proof -
    have "read_file F1 q = read_file F q" using keep by (simp add: keeps_files_def)
    then show ?thesis using write_file_result(3) [OF F2, of q] that res by simp
  qed
  moreover have "read_file F' ?d = Some c"
  proof -
    have "resolve F ?d \<notin> set (map (\<lambda>e. resolve F (path_append target (fst e))) es)"
      using Cons.prems(4) e by simp
    then show ?thesis using IH res write_file_result(2) [OF F2] by simp
  qed
  ultimately show ?case using IH res e by simp
qed

section \<open>Export and import\<close>

lemma exportConfig_bytes:
  assumes files: "exported_files n F configPath = Some files"
    and export: "exportConfig n F configPath archivePath = Some (r, F')" "success r"
    and rep: "list_all representable (archived F files)" "length files < 2 ^ 32"
    and new: "resolve F archivePath \<notin> resolve F ` snd ` set files"
  shows "read_file F' archivePath = Some (header_bytes (length files) @ concat (map entry_bytes (archived F files))) \<and>
    filesProcessed r = map fst files \<and> list_all (\<lambda>f. read_file F (snd f) \<noteq> None) files"
proof -
  have "fileExists F configPath" using export by (auto simp: exportConfig_def split: if_splits)
  then obtain F1 where F1: "ensure_parent archivePath F = Some F1"
    using export files by (cases "ensure_parent archivePath F") (auto simp: exportConfig_def)
  then obtain F2 where F2: "write_file archivePath [] F1 = Some F2"
    using export files \<open>fileExists F configPath\<close>
    by (cases "write_file archivePath [] F1") (auto simp: exportConfig_def)
  obtain out r' where w: "write_entries F2 files (writeArchiveHeader [] (length files mod 2 ^ 32)) [] = (out, r')"
    by fastforce
  have r: "r' = r" "F' = set_node archivePath (Regular_File out (clock F2)) F2"
    using export files \<open>fileExists F configPath\<close> F1 F2 w by (auto simp: exportConfig_def)
  have keep: "keeps_files F F1" by (rule ensure_parent_keeps [OF F1])
  have same: "read_file F2 d = read_file F d" if "d \<in> snd ` set files" for d
  proof -
    have "resolve F d \<in> resolve F ` snd ` set files" using that by (rule imageI)
    then have "resolve F1 d \<noteq> resolve F1 archivePath" using new keep by (metis keeps_files_def)
    then show ?thesis using write_file_result(3) [OF F2] keep by (simp add: keeps_files_def)
  qed
  then have arch: "archived F2 files = archived F files"
    unfolding archived_def by (intro map_cong) (auto simp: rev_image_eqI)
  have "out = header_bytes (length files) @ concat (map entry_bytes (archived F files)) \<and>
    filesProcessed r = map fst files \<and> list_all (\<lambda>f. read_file F2 (snd f) \<noteq> None) files"
    using write_entries_bytes [OF w] export(2) r(1) rep arch
    by (simp add: writeArchiveHeader_def header_bytes_def)
  then show ?thesis
    using r(2) same by (auto simp: list_all_iff read_file_def [of _ archivePath] file_at_set_node rev_image_eqI)
qed

text \<open>The reader accepts an exported package exactly if no path in it is longer than 4096 bytes,
  no file is larger than 100 MB, and no path contains two dots in a row or starts with a slash or
  backslash. The export checks none of this and reports success also for a package that cannot be
  imported.\<close>

theorem exported_package_accepted_iff:
  assumes "exported_files n F configPath = Some files"
    and "exportConfig n F configPath archivePath = Some (r, F')" and "success r"
    and "list_all representable (archived F files)" and "length files < 2 ^ 32"
    and "resolve F archivePath \<notin> resolve F ` snd ` set files"
  shows "validateArchive F' archivePath =
    list_all (\<lambda>(path, body). length path \<le> 4096 \<and> length body \<le> 100 * 1024 * 1024 \<and> \<not> traversal path)
      (archived F files)"
proof -
  have bytes: "read_file F' archivePath = Some (header_bytes (length files) @ concat (map entry_bytes (archived F files)))"
    using exportConfig_bytes [OF assms] by simp
  have "length (archived F files) = length files" by (simp add: archived_def)
  then have "validateArchive F' archivePath =
      list_all (\<lambda>e. within_limits e \<and> \<not> traversal (fst e)) (archived F files)"
    using entries_valid_here [OF assms(4)]
    by (simp add: validateArchive_def bytes readArchiveHeader_here [OF assms(5)])
  then show ?thesis by (simp add: within_limits_def case_prod_unfold)
qed

text \<open>C16: A configuration exported and then imported, on the same or another machine, arrives with every
  file it includes: each archived file's content is at its path below the target directory. The
  archive must not be one of the exported files, what it holds must fit its format's limits, and the
  paths must name different files below the target.\<close>

theorem export_import_roundtrip:
  assumes "exported_files n F configPath = Some files"
    and "exportConfig n F configPath archivePath = Some (r, F')" and "success r"
    and "list_all representable (archived F files)" and "length files < 2 ^ 32"
    and "resolve F archivePath \<notin> resolve F ` snd ` set files"
    and carried: "read_file G packagePath = read_file F' archivePath"
    and import_: "importConfig cs G packagePath target overwrite m = (r2, G', m')" "success r2"
    and apart: "distinct (map (\<lambda>f. resolve G (path_append target (fst f))) files)"
  shows "list_all (\<lambda>(name, dep). read_file G' (path_append target name) = read_file F dep) files \<and>
    filesProcessed r2 = map (path_append target) (filesProcessed r)"
proof -
  let ?es = "archived F files"
  have bytes: "read_file G packagePath = Some (header_bytes (length files) @ concat (map entry_bytes ?es))"
    and names: "filesProcessed r = map fst files" and regular: "list_all (\<lambda>f. read_file F (snd f) \<noteq> None) files"
    using exportConfig_bytes [OF assms(1-6)] carried by simp_all
  have n: "length files = length ?es" by (simp add: archived_def)
  note header = readArchiveHeader_here [OF assms(5), of "concat (map entry_bytes ?es)"]
  obtain G1 where G1: "(if fs_exists G target then Some G else create_directories target G) = Some G1"
    using import_ bytes header by (auto simp: importConfig_def split: if_splits option.splits)
  obtain r' G2 where x: "extract_files (length ?es) 0 G1 target \<lparr>rest = concat (map entry_bytes ?es), good = True\<rparr> []
      = (r', G2)" by fastforce
  have r2: "r' = r2" "G2 = G'" using import_ bytes header G1 x n
    by (auto simp: importConfig_def Let_def split: if_splits option.splits)
  have keep: "keeps_files G G1"
    using G1 by (auto simp: create_directories_def split: if_splits intro: create_dirs_keeps simp del: create_dirs.simps)
  have "distinct (map (\<lambda>e. resolve G1 (path_append target (fst e))) ?es)"
    using apart keep by (simp add: archived_def keeps_files_def comp_def case_prod_unfold)
  from extract_files_result [OF x _ assms(4) this] import_(2) r2
  have "filesProcessed r2 = map (\<lambda>e. path_append target (fst e)) ?es"
    and "list_all (\<lambda>e. read_file G' (path_append target (fst e)) = Some (snd e)) ?es" by simp_all
  then show ?thesis
    using names regular by (auto simp: archived_def list_all_iff case_prod_unfold)
qed

section \<open>Example\<close>

lemma write_entries_success:
  "list_all (\<lambda>f. read_file F (snd f) \<noteq> None) files \<Longrightarrow> success (snd (write_entries F files out processed))"
  by (induction files arbitrary: out processed) (auto simp: writeArchiveEntry_def Let_def)

abbreviation example_package :: "(string \<times> string) list" where
  "example_package \<equiv> [(''m.mayu'', ''/c/m.mayu''), (''s.mayu'', ''/c/s.mayu'')]"

lemma example_exported: "exported_files 4 example_includes ''/c/m.mayu'' = Some example_package"
  by code_simp

lemma example_export:
  "\<exists>r F'. exportConfig 4 example_includes ''/c/m.mayu'' ''/c/x'' = Some (r, F') \<and> success r"
proof -
  let ?F = "example_includes"
  have 1: "fileExists ?F ''/c/m.mayu''" "fs_exists ?F ''/c''" "parent_path ''/c/x'' = ''/c''"
    "can_open_out ?F ''/c/x''" by code_simp+
  then have 2: "ensure_parent ''/c/x'' ?F = Some ?F"
    "write_file ''/c/x'' [] ?F = Some (set_node ''/c/x'' (Regular_File [] (clock ?F)) ?F)"
    by (simp_all add: ensure_parent_def write_file_def Let_def)
  let ?F2 = "set_node ''/c/x'' (Regular_File [] (clock ?F)) ?F"
  have "read_file ?F2 d = read_file ?F d" if "d \<in> {''/c/m.mayu'', ''/c/s.mayu''}" for d
    using that by (intro read_file_set_other) (auto simp: example_includes_def)
  moreover have "read_file ?F ''/c/m.mayu'' \<noteq> None" "read_file ?F ''/c/s.mayu'' \<noteq> None" by code_simp+
  ultimately have "list_all (\<lambda>f. read_file ?F2 (snd f) \<noteq> None) example_package" by simp
  from write_entries_success [OF this] show ?thesis
    using 1 2 by (simp add: exportConfig_def example_exported case_prod_unfold Let_def)
qed

lemma example_archived:
  "archived example_includes example_package =
     [(''m.mayu'', ''include s.mayu''), (''s.mayu'', ''include '' @ [CHR 0x22] @ ''m.mayu'' @ [CHR 0x22] @ '' # x'')]"
  by code_simp

lemma example_representable:
  "list_all representable (archived example_includes example_package)"
  "list_all within_limits (archived example_includes example_package)"
  unfolding example_archived by (simp_all add: representable_def within_limits_def)

theorem exported_package_accepted_iff_witness:
  "\<exists>r F'. exportConfig 4 example_includes ''/c/m.mayu'' ''/c/x'' = Some (r, F') \<and> validateArchive F' ''/c/x''"
proof -
  obtain r F' where r: "exportConfig 4 example_includes ''/c/m.mayu'' ''/c/x'' = Some (r, F')" "success r"
    using example_export by blast
  have "validateArchive F' ''/c/x'' =
    list_all (\<lambda>(path, body). length path \<le> 4096 \<and> length body \<le> 100 * 1024 * 1024 \<and> \<not> traversal path)
      (archived example_includes example_package)"
    by (rule exported_package_accepted_iff [OF example_exported r example_representable(1)])
      (simp_all add: example_includes_def)
  moreover have "list_all (\<lambda>(path, body). length path \<le> 4096 \<and> length body \<le> 100 * 1024 * 1024 \<and> \<not> traversal path)
      (archived example_includes example_package)"
  proof -
    have "\<not> traversal ''m.mayu''" "\<not> traversal ''s.mayu''" by code_simp+
    then show ?thesis unfolding example_archived by simp
  qed
  ultimately show ?thesis using r by blast
qed

text \<open>Another machine with the package and an empty directory.\<close>

definition other_machine :: "string \<Rightarrow> File_System" where
  "other_machine bytes =
     \<lparr>resolve = (\<lambda>p. p), nodes = [''/t'' \<mapsto> Directory [], ''/p'' \<mapsto> Regular_File bytes 0],
      current_path = ''/'', absolute_dir = parent_path, environment = Map.empty, clock = 1\<rparr>"

lemma example_extract:
  assumes "representable (''m.mayu'', b1)" "representable (''s.mayu'', b2)"
    and "within_limits (''m.mayu'', b1)" "within_limits (''s.mayu'', b2)"
  shows "success (fst (extract_files 2 0 (other_machine bytes) ''/t''
    \<lparr>rest = entry_bytes (''m.mayu'', b1) @ entry_bytes (''s.mayu'', b2), good = True\<rparr> []))"
proof -
  let ?G = "other_machine bytes"
  have p: "path_append ''/t'' ''m.mayu'' = ''/t/m.mayu''" "path_append ''/t'' ''s.mayu'' = ''/t/s.mayu''"
    "parent_path ''/t/m.mayu'' = ''/t''" "parent_path ''/t/s.mayu'' = ''/t''"
    "\<not> traversal ''m.mayu''" "\<not> traversal ''s.mayu''" by code_simp+
  let ?G2 = "set_node ''/t/m.mayu'' (Regular_File b1 1) ?G"
  let ?G3 = "set_node ''/t/s.mayu'' (Regular_File b2 1) ?G2"
  have w: "ensure_parent ''/t/m.mayu'' ?G = Some ?G" "write_file ''/t/m.mayu'' b1 ?G = Some ?G2"
    by (simp_all add: ensure_parent_def p fs_exists_def file_at_def other_machine_def write_file_def
        can_open_out_def)
  have "nodes ?G2 ''/t'' = Some (Directory [''m.mayu''])" "nodes ?G2 ''/t/s.mayu'' = None"
    "resolve ?G2 = (\<lambda>p. p)" "clock ?G2 = 1"
    by (simp_all add: set_node_def other_machine_def p add_entry_def filename_def Let_def)
  then have w2: "ensure_parent ''/t/s.mayu'' ?G2 = Some ?G2" "write_file ''/t/s.mayu'' b2 ?G2 = Some ?G3"
    by (simp_all add: ensure_parent_def p fs_exists_def file_at_def write_file_def can_open_out_def
        del: set_node_frame)
  show ?thesis
    using readArchiveEntry_here [OF assms(1), of "entry_bytes (''s.mayu'', b2)"]
      readArchiveEntry_here [OF assms(2), of "[]"] assms(3,4) w w2
    by (simp add: numeral_2_eq_2 p Let_def)
qed

theorem export_import_roundtrip_witness:
  "\<exists>r F' r2 G' m'. exportConfig 4 example_includes ''/c/m.mayu'' ''/c/x'' = Some (r, F') \<and>
     importConfig (QSettingsConfigStore (\<lambda>_. None) (\<lambda>_. [])) (other_machine (the (read_file F' ''/c/x'')))
       ''/p'' ''/t'' True ConfigManager_init = (r2, G', m') \<and>
     success r2 \<and> read_file G' ''/t/m.mayu'' = Some ''include s.mayu''"
proof -
  obtain r F' where r: "exportConfig 4 example_includes ''/c/m.mayu'' ''/c/x'' = Some (r, F')" "success r"
    using example_export by blast
  have new: "resolve example_includes ''/c/x'' \<notin> resolve example_includes ` snd ` set example_package"
    by (simp add: example_includes_def)
  have len: "length example_package < 2 ^ 32" by simp
  let ?es = "archived example_includes example_package"
  let ?bytes = "the (read_file F' ''/c/x'')"
  let ?G = "other_machine ?bytes"
  let ?cs = "QSettingsConfigStore (\<lambda>_. None) (\<lambda>_. [])"
  have bytes: "read_file F' ''/c/x'' = Some (header_bytes 2 @ concat (map entry_bytes ?es))"
    using exportConfig_bytes [OF example_exported r example_representable(1) len new]
    by (simp add: numeral_2_eq_2)
  have carried: "read_file ?G ''/p'' = read_file F' ''/c/x''"
    unfolding bytes by (simp add: other_machine_def read_file_def file_at_def)
  have dir: "fs_exists ?G ''/t''" by (simp add: other_machine_def fs_exists_def file_at_def)
  let ?x = "extract_files 2 0 ?G ''/t'' \<lparr>rest = concat (map entry_bytes ?es), good = True\<rparr> []"
  have "success (fst ?x)"
    using example_representable example_extract [where bytes = ?bytes] unfolding example_archived
    by simp
  obtain r2 G' where x: "?x = (r2, G')" by fastforce
  then have r2: "success r2" using \<open>success (fst ?x)\<close> by simp
  have "readArchiveHeader (open_stream (header_bytes 2 @ concat (map entry_bytes ?es))) =
      Some (2, \<lparr>rest = concat (map entry_bytes ?es), good = True\<rparr>)"
    by (rule readArchiveHeader_here) simp
  then obtain m' where import_: "importConfig ?cs ?G ''/p'' ''/t'' True ConfigManager_init = (r2, G', m')"
    using carried bytes dir x r2 by (simp add: importConfig_def Let_def)
  have apart: "distinct (map (\<lambda>f. resolve ?G (path_append ''/t'' (fst f))) example_package)"
    by (simp add: other_machine_def path_append_def filename_def is_absolute_def)
  have "list_all (\<lambda>(name, dep). read_file G' (path_append ''/t'' name) = read_file example_includes dep) example_package"
    using export_import_roundtrip
      [OF example_exported r example_representable(1) len new carried import_ r2 apart] by blast
  moreover have "path_append ''/t'' ''m.mayu'' = ''/t/m.mayu''"
    "read_file example_includes ''/c/m.mayu'' = Some ''include s.mayu''" by code_simp+
  ultimately show ?thesis using r import_ r2 by auto
qed

end
