(* ===== verification/Session_Roundtrip.thy ===== *)
theory Session_Roundtrip
  imports Session_Manager
begin

text \<open>
  What comes back of a saved session: the search for members finds the right ones although the
  text is not parsed, if the texts in it are plain enough.
\<close>

section \<open>Plain texts\<close>

text \<open>A window's name survives if it needs no escaping, since reading does not undo it, and has no
  braces, since they are counted.\<close>

definition plain_name :: "string \<Rightarrow> bool" where
  "plain_name s =
     list_all (\<lambda>c. c \<notin> {QUOTE, BACKSLASH, CHR 0x0A, CHR 0x0D, CHR 0x09, CHR ''{'', CHR ''}''}) s"

text \<open>A path survives if it has no quote, does not end in a backslash, and starts like a path or is
  empty.\<close>

definition plain_path :: "string \<Rightarrow> bool" where
  "plain_path p = (QUOTE \<notin> set p \<and> (p = [] \<or> last p \<noteq> BACKSLASH) \<and>
     (p = [] \<or> hd p = CHR ''/'' \<or> hd p = CHR ''~''))"

definition int32 :: "int \<Rightarrow> bool" where
  "int32 i = (- (2 ^ 31) \<le> i \<and> i < 2 ^ 31)"

definition plain_window :: "string \<times> WindowPosition \<Rightarrow> bool" where
  "plain_window e = (plain_name (fst e) \<and> wp_valid (snd e) \<and> int32 (wp_x (snd e)) \<and> int32 (wp_y (snd e)) \<and>
     int32 (wp_width (snd e)) \<and> int32 (wp_height (snd e)))"

lemma int_cast_id: "int32 i \<Longrightarrow> int_cast i = i"
  by (simp add: int32_def int_cast_def)

lemma plain_name_facts:
  assumes "plain_name s"
  shows "escapeJson s = s" "QUOTE \<notin> set s" "CHR ''{'' \<notin> set s" "CHR ''}'' \<notin> set s"
proof -
  have all: "\<forall>c\<in>set s. c \<noteq> QUOTE \<and> c \<noteq> BACKSLASH \<and> c \<noteq> CHR 0x0A \<and> c \<noteq> CHR 0x0D \<and> c \<noteq> CHR 0x09 \<and>
      c \<noteq> CHR ''{'' \<and> c \<noteq> CHR ''}''"
    using assms by (simp add: plain_name_def list_all_iff)
  then show "QUOTE \<notin> set s" "CHR ''{'' \<notin> set s" "CHR ''}'' \<notin> set s" by blast+
  show "escapeJson s = s" using all by (intro escape_plain) (simp add: list_all_iff)
qed

text \<open>The characters of a number.\<close>

lemma number_chars: "c \<in> set (to_string i) \<Longrightarrow> isdigit c \<or> c = CHR ''-''"
  using isdigit_decimal [of "nat i"] isdigit_decimal [of "nat (- i)"]
  by (auto simp: to_string_def list_all_iff split: if_splits)

lemma not_digits: "\<not> isdigit QUOTE" "\<not> isdigit (CHR ''{'')" "\<not> isdigit (CHR ''}'')" "\<not> isdigit (CHR '','')"
  "\<not> isdigit (CHR 0x0A)"
  by (simp_all add: isdigit_def QUOTE_def)

lemma number_plain:
  "QUOTE \<notin> set (to_string i)" "CHR ''{'' \<notin> set (to_string i)" "CHR ''}'' \<notin> set (to_string i)"
proof -
  have "c \<notin> set (to_string i)" if "\<not> isdigit c" "c \<noteq> CHR ''-''" for c
    using number_chars [of c i] that by blast
  then show "QUOTE \<notin> set (to_string i)" "CHR ''{'' \<notin> set (to_string i)" "CHR ''}'' \<notin> set (to_string i)"
    using not_digits by (simp_all add: QUOTE_def)
qed

lemma split_char_here: "c \<notin> set u \<Longrightarrow> split_char c (u @ c # v) = Some (u, v)"
  by (induction u) auto

section \<open>One window\<close>

text \<open>The members of a window's object, and its text in front of the name and behind it.\<close>

definition window_body :: "WindowPosition \<Rightarrow> string" where
  "window_body wp =
     NL @ member_text ''      '' ''x'' @ to_string (wp_x wp) @ '','' @
     NL @ member_text ''      '' ''y'' @ to_string (wp_y wp) @ '','' @
     NL @ member_text ''      '' ''width'' @ to_string (wp_width wp) @ '','' @
     NL @ member_text ''      '' ''height'' @ to_string (wp_height wp) @
     NL @ ''    ''"

lemma window_text_body:
  "plain_name (fst e) \<Longrightarrow>
   window_text e = NL @ ''    '' @ QUOTE # fst e @ QUOTE # '': '' @ ''{'' @ window_body (snd e) @ ''}''"
  by (simp add: window_text_def window_body_def member_text_def plain_name_facts)

lemma no_start_number:
  "no_start k (to_string i @ c # s) = no_start k (c # s)"
  using no_start_append [of k "to_string i" c s] no_start_plain [OF number_plain(1)] by simp

lemma no_start_Cons: "a \<noteq> QUOTE \<Longrightarrow> no_start k (a # s) = no_start k s"
  by (cases s) simp_all

lemma window_of_body:
  assumes "int32 (wp_x wp)" "int32 (wp_y wp)" "int32 (wp_width wp)" "int32 (wp_height wp)" "wp_valid wp"
  shows "window_of (''{'' @ window_body wp @ ''}'') = Some wp"
proof -
  have bound: "- (2 ^ 63) \<le> i \<and> i < 2 ^ 63" if "int32 i" for i :: int using that by (simp add: int32_def)
  note no = not_digits(4,5)
  let ?t = "''{'' @ window_body wp @ ''}''"
  let ?p1 = "CHR ''{'' # CHR 0x0A # ''      ''"
  let ?p2 = "?p1 @ QUOTE # ''x'' @ QUOTE # '': '' @ to_string (wp_x wp) @ '','' @ CHR 0x0A # ''      ''"
  let ?p3 = "?p2 @ QUOTE # ''y'' @ QUOTE # '': '' @ to_string (wp_y wp) @ '','' @ CHR 0x0A # ''      ''"
  let ?p4 = "?p3 @ QUOTE # ''width'' @ QUOTE # '': '' @ to_string (wp_width wp) @ '','' @ CHR 0x0A # ''      ''"
  have s: "no_start (CHR ''x'') (?p1 @ [QUOTE])" "no_start (CHR ''y'') (?p2 @ [QUOTE])"
    "no_start (CHR ''w'') (?p3 @ [QUOTE])" "no_start (CHR ''h'') (?p4 @ [QUOTE])"
    by (simp_all add: no_start_Cons no_start_number QUOTE_def)
  have "extractInt ?t ''x'' = Some (wp_x wp)"
    using extractInt_at [OF s(1) _ _ no(1), of "wp_x wp" "[]"] bound [OF assms(1)]
    by (simp add: window_body_def member_text_def NL_def)
  moreover have "extractInt ?t ''y'' = Some (wp_y wp)"
    using extractInt_at [OF s(2) _ _ no(1), of "wp_y wp" "[]"] bound [OF assms(2)]
    by (simp add: window_body_def member_text_def NL_def)
  moreover have "extractInt ?t ''width'' = Some (wp_width wp)"
    using extractInt_at [OF s(3) _ _ no(1), of "wp_width wp" "''idth''"] bound [OF assms(3)]
    by (simp add: window_body_def member_text_def NL_def)
  moreover have "extractInt ?t ''height'' = Some (wp_height wp)"
    using extractInt_at [OF s(4) _ _ no(2), of "wp_height wp" "''eight''"] bound [OF assms(4)]
    by (simp add: window_body_def member_text_def NL_def)
  ultimately show ?thesis
    using assms by (simp add: window_of_def int_cast_id)
qed


section \<open>All windows\<close>

lemma window_body_plain: "QUOTE \<notin> set [] \<and> CHR ''}'' \<notin> set (window_body wp) \<and> CHR ''{'' \<notin> set (window_body wp)"
  by (simp add: window_body_def member_text_def NL_def QUOTE_def number_plain)

lemma parse_windows_entry:
  assumes "plain_window e" and "QUOTE \<notin> set u"
  shows "parse_windows (u @ window_text e @ s) m = parse_windows s (map_put (fst e) (snd e) m)"
proof -
  let ?n = "fst e"
  let ?b = "window_body (snd e)"
  have name: "plain_name ?n" and w: "window_of (''{'' @ ?b @ ''}'') = Some (snd e)"
    using assms(1) window_of_body [of "snd e"] by (simp_all add: plain_window_def)
  have whole: "u @ window_text e @ s =
      (u @ NL @ ''    '') @ QUOTE # ?n @ QUOTE # '': '' @ CHR ''{'' # ?b @ CHR ''}'' # s"
    using window_text_body [OF name] by simp
  have 1: "split_char QUOTE (u @ window_text e @ s) =
      Some (u @ NL @ ''    '', ?n @ QUOTE # '': '' @ CHR ''{'' # ?b @ CHR ''}'' # s)"
    unfolding whole using assms(2) by (intro split_char_here) (simp add: NL_def QUOTE_def)
  have 2: "split_char QUOTE (?n @ QUOTE # '': '' @ CHR ''{'' # ?b @ CHR ''}'' # s) =
      Some (?n, '': '' @ CHR ''{'' # ?b @ CHR ''}'' # s)"
    using plain_name_facts [OF name] by (intro split_char_here)
  have 3: "split_char (CHR ''{'') ('': '' @ CHR ''{'' # ?b @ CHR ''}'' # s) = Some ('': '', ?b @ CHR ''}'' # s)"
    by (intro split_char_here) simp
  have 4: "split_char (CHR ''}'') (?b @ CHR ''}'' # s) = Some (?b, s)"
    using window_body_plain by (intro split_char_here) blast
  show ?thesis
    by (subst parse_windows.simps) (simp only: 1 2 3 4 option.case prod.case w)
qed

text \<open>The map is rebuilt in the order it is written in.\<close>

lemma map_put_last:
  "list_all (\<lambda>e. fst e < k) m \<Longrightarrow> map_put k v m = m @ [(k, v)]"
  by (induction m) (auto simp: not_less_iff_gr_or_eq)

lemma parse_windows_rest: "QUOTE \<notin> set u \<Longrightarrow> parse_windows u m = m"
proof -
  assume "QUOTE \<notin> set u"
  then have "split_char QUOTE u = None" by (induction u) auto
  then show ?thesis by (subst parse_windows.simps) simp
qed

lemma parse_windows_all:
  "list_all plain_window es \<Longrightarrow> QUOTE \<notin> set u \<Longrightarrow> QUOTE \<notin> set v \<Longrightarrow>
     sorted_wrt (\<lambda>d e. fst d < fst e) (m @ es) \<Longrightarrow>
     parse_windows (u @ windows_text first es @ v) m = m @ es"
proof (induction es arbitrary: u m first)
  case Nil
  then show ?case by (simp add: parse_windows_rest)
next
  case (Cons e es)
  let ?u = "u @ (if first then [] else '','')"
  have valid: "wp_valid (snd e)" using Cons.prems(1) by (simp add: plain_window_def)
  have "list_all (\<lambda>d. fst d < fst e) m"
    using Cons.prems(4) by (auto simp: sorted_wrt_append list_all_iff)
  then have put: "map_put (fst e) (snd e) m = m @ [e]" by (simp add: map_put_last)
  have "QUOTE \<notin> set ?u" using Cons.prems(2) by (simp add: QUOTE_def)
  then have "parse_windows (?u @ window_text e @ (windows_text False es @ v)) m =
      parse_windows (windows_text False es @ v) (m @ [e])"
    using parse_windows_entry [of e ?u] Cons.prems(1) put by simp
  also have "\<dots> = (m @ [e]) @ es"
    using Cons.IH [of "[]" "m @ [e]" False] Cons.prems by simp
  finally show ?case using valid by simp
qed

text \<open>Braces: an object without braces is passed over, and so are the windows.\<close>

lemma scan_object_plain:
  "CHR ''{'' \<notin> set u \<Longrightarrow> CHR ''}'' \<notin> set u \<Longrightarrow> scan_object (Suc d) (u @ s) = map_option ((@) u) (scan_object (Suc d) s)"
proof (induction u)
  case Nil
  then show ?case by (simp add: option.map_ident)
next
  case (Cons a u)
  then show ?case by (cases "scan_object (Suc d) s") auto
qed

lemma scan_object_window:
  assumes "plain_window e"
  shows "scan_object (Suc d) (window_text e @ s) = map_option ((@) (window_text e)) (scan_object (Suc d) s)"
proof -
  let ?u = "NL @ ''    '' @ QUOTE # fst e @ QUOTE # '': ''"
  let ?b = "window_body (snd e)"
  have name: "plain_name (fst e)" using assms by (simp add: plain_window_def)
  have u: "CHR ''{'' \<notin> set ?u" "CHR ''}'' \<notin> set ?u"
    using plain_name_facts [OF name] by (simp_all add: NL_def QUOTE_def)
  have b: "CHR ''{'' \<notin> set ?b" "CHR ''}'' \<notin> set ?b" using window_body_plain by blast+
  have whole: "window_text e @ s = ?u @ CHR ''{'' # ?b @ CHR ''}'' # s"
    using window_text_body [OF name] by simp
  have "scan_object (Suc d) (?u @ CHR ''{'' # ?b @ CHR ''}'' # s) =
      map_option ((@) ?u) (map_option ((#) (CHR ''{'')) (map_option ((@) ?b)
        (map_option ((#) (CHR ''}'')) (scan_object (Suc d) s))))"
    by (simp only: scan_object_plain [OF u] scan_object.simps if_True if_False char.inject refl
        scan_object_plain [OF b] simp_thms)
  then show ?thesis
    using window_text_body [OF name] by (cases "scan_object (Suc d) s") simp_all
qed

lemma scan_object_windows:
  "list_all plain_window es \<Longrightarrow>
     scan_object (Suc d) (windows_text first es @ s) = map_option ((@) (windows_text first es)) (scan_object (Suc d) s)"
proof (induction es arbitrary: first)
  case Nil
  then show ?case by (simp add: option.map_ident)
next
  case (Cons e es)
  have valid: "wp_valid (snd e)" "plain_window e" using Cons.prems by (simp_all add: plain_window_def)
  have "scan_object (Suc d) ((if first then [] else '','') @ window_text e @ (windows_text False es @ s)) =
      map_option ((@) (if first then [] else '','')) (scan_object (Suc d) (window_text e @ (windows_text False es @ s)))"
    by (intro scan_object_plain) auto
  also have "scan_object (Suc d) (window_text e @ (windows_text False es @ s)) =
      map_option ((@) (window_text e)) (map_option ((@) (windows_text False es)) (scan_object (Suc d) s))"
    using scan_object_window [OF valid(2)] Cons by simp
  finally show ?case using valid(1) by (cases "scan_object (Suc d) s") simp_all
qed

section \<open>The whole file\<close>

lemma no_start_value:
  assumes "plain_path p" and "k \<notin> {CHR ''/'', CHR ''~'', QUOTE}"
  shows "no_start k (QUOTE # escapeJson p @ QUOTE # t) = no_start k (QUOTE # t)"
proof (cases p)
  case Nil
  then show ?thesis using assms(2) by auto
next
  case (Cons c q)
  then have c: "c = CHR ''/'' \<or> c = CHR ''~''" and q: "QUOTE \<notin> set q"
    using assms(1) by (auto simp: plain_path_def)
  have "escapeJson p = c # escapeJson q" using c Cons by (auto simp: QUOTE_def BACKSLASH_def)
  moreover have "no_start k (escapeJson q @ QUOTE # t) = no_start k (QUOTE # t)"
    using no_start_append [of k "escapeJson q" QUOTE t] no_start_plain [OF escape_no_quote [OF q]] by simp
  moreover have "c \<noteq> QUOTE" "c \<noteq> k" using c assms(2) by (auto simp: QUOTE_def)
  ultimately show ?thesis by (simp add: no_start_Cons)
qed

lemma parse_toJson:
  assumes path: "plain_path (activeConfigPath d)"
    and windows: "list_all plain_window (windowPositions d)"
    and order: "sorted_wrt (\<lambda>d e. fst d < fst e) (windowPositions d)"
    and time: "- (2 ^ 63) \<le> savedTimestamp d" "savedTimestamp d < 2 ^ 63"
  shows "parseJson (toJson d) = d"
proof -
  let ?p = "escapeJson (activeConfigPath d)"
  let ?b = "if engineWasRunning d then ''true'' else ''false''"
  let ?t = "to_string (savedTimestamp d)"
  let ?w = "windows_text True (windowPositions d) @ (if windowPositions d \<noteq> [] then NL @ ''  '' else [])"
  let ?u1 = "''{'' @ CHR 0x0A # ''  ''"
  let ?u2 = "?u1 @ QUOTE # ''activeConfigPath'' @ QUOTE # '': '' @ QUOTE # ?p @ QUOTE # '','' @ CHR 0x0A # ''  ''"
  let ?u3 = "?u2 @ QUOTE # ''engineWasRunning'' @ QUOTE # '': '' @ ?b @ '','' @ CHR 0x0A # ''  ''"
  let ?u4 = "?u3 @ QUOTE # ''savedTimestamp'' @ QUOTE # '': '' @ ?t @ '','' @ CHR 0x0A # ''  ''"
  have bool: "bool_text (engineWasRunning d) = ?b" by (cases "engineWasRunning d") simp_all
  have s: "no_start (CHR ''a'') (?u1 @ [QUOTE])" "no_start (CHR ''e'') (?u2 @ [QUOTE])"
    "no_start (CHR ''s'') (?u3 @ [QUOTE])" "no_start (CHR ''w'') (?u4 @ [QUOTE])"
    by (simp_all add: no_start_Cons no_start_number no_start_value [OF path, unfolded QUOTE_def] QUOTE_def)
  have p: "QUOTE \<notin> set (activeConfigPath d)" "activeConfigPath d = [] \<or> last (activeConfigPath d) \<noteq> BACKSLASH"
    using path by (simp_all add: plain_path_def)
  note defs = toJson_def member_text_def NL_def bool
  have "extractString (toJson d) ''activeConfigPath'' = Some (activeConfigPath d)"
    using extractString_at [OF s(1) p, of "''ctiveConfigPath''"] by (simp add: defs)
  moreover have "extractBool (toJson d) ''engineWasRunning'' = Some (engineWasRunning d)"
    using extractBool_at [OF s(2), of "''ngineWasRunning''" "engineWasRunning d"] by (simp add: defs)
  moreover have "extractInt (toJson d) ''savedTimestamp'' = Some (savedTimestamp d)"
    using extractInt_at [OF s(3) time not_digits(4), of "''avedTimestamp''"] by (simp add: defs)
  moreover have "extractObject (toJson d) ''windowPositions'' = ''{'' @ ?w @ ''}''"
  proof -
    let ?rest = "CHR ''}'' # NL @ ''}'' @ NL"
    have "member_value (toJson d) ''windowPositions'' = Some (CHR '' '' # CHR ''{'' # ?w @ ?rest)"
      using member_value_at [OF s(4), of "''indowPositions''"] by (simp add: defs)
    moreover have "find_after ''{'' (CHR '' '' # CHR ''{'' # ?w @ ?rest) = Some (?w @ ?rest)"
      using find_after_here [of "''{''"] by simp
    moreover have "scan_object (Suc 0) (?w @ ?rest) = Some (?w @ ''}'')"
    proof -
      have "scan_object (Suc 0) ((if windowPositions d \<noteq> [] then NL @ ''  '' else []) @ ?rest) =
          Some ((if windowPositions d \<noteq> [] then NL @ ''  '' else []) @ ''}'')"
        by (simp add: NL_def)
      then show ?thesis using scan_object_windows [OF windows] by simp
    qed
    ultimately show ?thesis by (simp add: extractObject_def)
  qed
  then have "parseWindowPositions (toJson d) = windowPositions d"
    using parse_windows_all [OF windows, of "''{''" "(if windowPositions d \<noteq> [] then NL @ ''  '' else []) @ ''}''" "[]" True]
      order by (simp add: parseWindowPositions_def QUOTE_def NL_def)
  ultimately show ?thesis by (simp add: parseJson_def)
qed

text \<open>Saving leaves the environment alone, so both find the same file.\<close>

lemma saveSession_file:
  assumes "saveSession now pw_dir F d = (True, F', d')"
  shows "d' = d\<lparr>savedTimestamp := now\<rparr> \<and> read_file F' (getSessionPath pw_dir F') = Some (toJson d')"
proof -
  obtain F1 where F1: "ensureConfigDirExists pw_dir F = (True, F1)"
    "write_file (getSessionPath pw_dir F) (toJson (d\<lparr>savedTimestamp := now\<rparr>)) F1 = Some F'"
    "d' = d\<lparr>savedTimestamp := now\<rparr>"
    using assms by (auto simp: saveSession_def Let_def split: prod.splits if_splits option.splits)
  have "environment F1 = environment F"
    using F1(1) by (auto simp: ensureConfigDirExists_def split: prod.splits if_splits dest!: ensureDir_environment)
  moreover have "environment F' = environment F1"
    using F1(2) by (auto simp: write_file_def split: if_splits)
  ultimately have "getSessionPath pw_dir F' = getSessionPath pw_dir F"
    using same_environment(2) [of F' F pw_dir] by (simp add: getSessionPath_def)
  then show ?thesis using F1 read_write_file by simp
qed

text \<open>C22: A session that was saved is restored as it was, within a year: the active configuration, the
  state of the engine and the window positions. The text is searched, not parsed, so this needs a
  path without quotes that does not end in a backslash and starts with a slash or a tilde, and
  window names without quotes, backslashes, control characters and braces. It also needs the windows
  to pass the check the restore makes of them (and the save does not): each valid, with width and
  height from 0 to 10000 and coordinates from -10000 to 10000. One window outside and the restore
  fails.\<close>

theorem session_roundtrip:
  assumes path: "plain_path (activeConfigPath d)"
    and windows: "list_all (\<lambda>(name, wp). plain_name name \<and> wp_valid wp \<and> window_reasonable wp) (windowPositions d)"
    and order: "sorted_wrt (\<lambda>d e. fst d < fst e) (windowPositions d)"
    and saved: "saveSession now pw_dir F d = (True, F', d')"
    and times: "0 \<le> now" "now < 2 ^ 63" "now \<le> later" "later \<le> now + 365 * 24 * 60 * 60"
  shows "restoreSession later pw_dir F' d0 = (True, d\<lparr>savedTimestamp := now\<rparr>)"
proof -
  have stored: "d' = d\<lparr>savedTimestamp := now\<rparr>" "read_file F' (getSessionPath pw_dir F') = Some (toJson d')"
    using saveSession_file [OF saved] by simp_all
  have "list_all plain_window (windowPositions d')"
    using windows stored(1) by (auto simp: list_all_iff plain_window_def window_reasonable_def int32_def)
  then have "parseJson (toJson d') = d'"
    using path order times stored(1) by (intro parse_toJson) simp_all
  moreover have "validateSession later d'"
    using path windows times stored(1) by (auto simp: validateSession_def plain_path_def list_all_iff)
  ultimately show ?thesis using stored by (simp add: restoreSession_def)
qed

text \<open>A path that ends in a backslash is not restored: the quote behind it looks escaped.\<close>

lemma trailing_backslash_lost:
  "activeConfigPath (parseJson (toJson (session_setActiveConfig (''/a'' @ [BACKSLASH]) SessionData_init)))
     \<noteq> ''/a'' @ [BACKSLASH]"
  by code_simp

definition example_home :: File_System where
  "example_home =
     \<lparr>resolve = (\<lambda>p. p), nodes = [''/h'' \<mapsto> Directory [''.config''], ''/h/.config'' \<mapsto> Directory []],
      current_path = ''/'', absolute_dir = parent_path, environment = [''HOME'' \<mapsto> ''/h''], clock = 0\<rparr>"

definition example_session :: SessionData where
  "example_session = saveWindowPosition ''log'' (-5) 7 300 200 (session_setActiveConfig ''/h/a.mayu'' SessionData_init)"

theorem session_roundtrip_witness:
  "\<exists>F' d'. saveSession 1000 None example_home example_session = (True, F', d') \<and>
     restoreSession 2000 None F' SessionData_init = (True, example_session\<lparr>savedTimestamp := 1000\<rparr>)"
proof -
  let ?d = "example_session"
  have "fst (saveSession 1000 None example_home ?d)" by code_simp
  then obtain F' d' where saved: "saveSession 1000 None example_home ?d = (True, F', d')"
    by (metis (full_types) prod.collapse)
  have "plain_path (activeConfigPath ?d)"
    "list_all (\<lambda>(name, wp). plain_name name \<and> wp_valid wp \<and> window_reasonable wp) (windowPositions ?d)"
    "sorted_wrt (\<lambda>d e. fst d < fst e) (windowPositions ?d)"
    by code_simp+
  from session_roundtrip [OF this saved, of 2000 SessionData_init] saved show ?thesis by simp
qed

end
