(* ===== verification/Auto_Start.thy ===== *)
theory Auto_Start
  imports Session_Manager "HOL-Library.Sublist"
begin

text \<open>
  Starting with the desktop session (src/core/settings/session_manager.cpp): the desktop entry in
  the autostart directory. What \<^verbatim>\<open>readlink\<close> answers for the program's own file is an argument.
\<close>

section \<open>The code\<close>

definition getAutoStartPath :: "string option \<Rightarrow> File_System \<Rightarrow> string" where
  "getAutoStartPath pw_dir F =
     (case nonempty_env F ''XDG_CONFIG_HOME'' of Some xdg \<Rightarrow> xdg @ ''/autostart''
      | None \<Rightarrow> getHomeDir pw_dir F @ ''/.config/autostart'')"

definition getAutoStartFilePath :: "string option \<Rightarrow> File_System \<Rightarrow> string" where
  "getAutoStartFilePath pw_dir F = getAutoStartPath pw_dir F @ ''/yamy.desktop''"

definition getExecutablePath :: "string option \<Rightarrow> string" where
  "getExecutablePath link = (case link of Some p \<Rightarrow> take 4095 p | None \<Rightarrow> ''yamy'')"

definition isValidDesktopEntry :: "string \<Rightarrow> bool" where
  "isValidDesktopEntry s =
     (sublist ''[Desktop Entry]'' s \<and> sublist ''Type=Application'' s \<and> sublist ''Name=YAMY'' s \<and>
      sublist ''Exec='' s)"

definition desktop_lines :: "string \<Rightarrow> string list" where
  "desktop_lines execPath =
     [''[Desktop Entry]'', ''Type=Application'', ''Name=YAMY'', ''GenericName=Keyboard Remapper'',
      ''Comment=Keyboard remapping utility'', ''Exec='' @ execPath, ''Icon=yamy'', ''Terminal=false'',
      ''Categories=Utility;System;'', ''X-GNOME-Autostart-enabled=true'']"

definition desktop_entry :: "string \<Rightarrow> string" where
  "desktop_entry execPath = concat (map (\<lambda>l. l @ NL) (desktop_lines execPath))"

definition enableAutoStart :: "string option \<Rightarrow> string option \<Rightarrow> File_System \<Rightarrow> bool \<times> File_System" where
  "enableAutoStart link pw_dir F =
     (let autostartDir = getAutoStartPath pw_dir F;
          (ok, F1) = ensureDir (before_last_slash autostartDir) F in
      if \<not> ok then (False, F1)
      else
        let (ok, F2) = ensureDir autostartDir F1 in
        if \<not> ok then (False, F2)
        else
          case write_file (getAutoStartFilePath pw_dir F) (desktop_entry (getExecutablePath link)) F2 of
            None \<Rightarrow> (False, F2) | Some F3 \<Rightarrow> (True, F3))"

definition disableAutoStart :: "string option \<Rightarrow> File_System \<Rightarrow> bool \<times> File_System" where
  "disableAutoStart pw_dir F =
     (let p = getAutoStartFilePath pw_dir F in
      if \<not> is_regular_file F p then (True, F) else (True, remove_file p F))"

definition isAutoStartEnabled :: "string option \<Rightarrow> File_System \<Rightarrow> bool" where
  "isAutoStartEnabled pw_dir F =
     (case read_file F (getAutoStartFilePath pw_dir F) of
        None \<Rightarrow> False
      | Some s \<Rightarrow> isValidDesktopEntry s \<and> \<not> sublist ''X-GNOME-Autostart-enabled=false'' s)"

section \<open>Finding a text in lines\<close>

lemma sublist_line:
  assumes "c \<notin> set p" and "p \<noteq> []"
  shows "sublist p (u @ c # v) \<longleftrightarrow> sublist p u \<or> sublist p v"
proof
  assume "sublist p (u @ c # v)"
  then consider "sublist p u" | "sublist p (c # v)"
    | xs1 xs2 where "p = xs1 @ xs2" "suffix xs1 u" "prefix xs2 (c # v)"
    unfolding sublist_append by blast
  then show "sublist p u \<or> sublist p v"
  proof cases
    case 2
    then have "prefix p (c # v) \<or> sublist p v" by (simp add: sublist_Cons_right)
    then show ?thesis using assms by (auto simp: prefix_Cons)
  next
    case 3
    then have "xs2 = []" using assms(1) by (cases xs2) auto
    then show ?thesis using 3 suffix_imp_sublist by simp
  qed simp
next
  assume "sublist p u \<or> sublist p v"
  then show "sublist p (u @ c # v)" by (auto simp: sublist_append sublist_Cons_right)
qed

lemma sublist_behind:
  assumes "hd p \<notin> set u" and "p \<noteq> []"
  shows "sublist p (u @ v) \<longleftrightarrow> sublist p v"
  using assms by (induction u) (auto simp: sublist_Cons_right prefix_Cons)

lemma sublist_lines:
  "CHR 0x0A \<notin> set p \<Longrightarrow> p \<noteq> [] \<Longrightarrow>
     sublist p (concat (map (\<lambda>l. l @ NL) ls)) \<longleftrightarrow> list_ex (sublist p) ls"
  by (induction ls) (auto simp: NL_def sublist_line)

lemma desktop_entry_lines:
  "CHR 0x0A \<notin> set p \<Longrightarrow> p \<noteq> [] \<Longrightarrow>
     sublist p (desktop_entry execPath) \<longleftrightarrow> list_ex (sublist p) (desktop_lines execPath)"
  unfolding desktop_entry_def by (rule sublist_lines)

lemma desktop_entry_valid: "isValidDesktopEntry (desktop_entry p)"
proof -
  have "sublist ''Exec='' (''Exec='' @ p)" by (rule sublist_append_rightI)
  then show ?thesis
    unfolding isValidDesktopEntry_def
    by (subst (1 2 3 4) desktop_entry_lines) (simp_all add: desktop_lines_def)
qed

lemma desktop_entry_flag:
  "sublist ''X-GNOME-Autostart-enabled=false'' (desktop_entry p) \<longleftrightarrow>
     sublist ''X-GNOME-Autostart-enabled=false'' p"
proof -
  let ?flag = "''X-GNOME-Autostart-enabled=false''"
  have "sublist ?flag (''Exec='' @ p) \<longleftrightarrow> sublist ?flag p"
    by (rule sublist_behind) simp_all
  then show ?thesis
    by (subst desktop_entry_lines) (simp_all add: desktop_lines_def sublist_Cons_right)
qed

text \<open>A written entry is read again.\<close>

lemma same_autostart:
  assumes "environment F' = environment F"
  shows "getAutoStartFilePath pw_dir F' = getAutoStartFilePath pw_dir F"
  using same_environment [OF assms]
  by (simp add: getAutoStartFilePath_def getAutoStartPath_def cong: option.case_cong)

lemma enableAutoStart_file:
  assumes "enableAutoStart link pw_dir F = (True, F')"
  shows "read_file F' (getAutoStartFilePath pw_dir F') = Some (desktop_entry (getExecutablePath link))"
proof -
  obtain F1 F2 where dirs: "ensureDir (before_last_slash (getAutoStartPath pw_dir F)) F = (True, F1)"
      "ensureDir (getAutoStartPath pw_dir F) F1 = (True, F2)"
    and wr: "write_file (getAutoStartFilePath pw_dir F) (desktop_entry (getExecutablePath link)) F2 = Some F'"
    using assms by (auto simp: enableAutoStart_def Let_def split: prod.splits if_splits option.splits)
  have "environment F' = environment F"
    using dirs wr by (auto simp: write_file_def split: if_splits dest!: ensureDir_environment)
  from same_autostart [OF this] have "getAutoStartFilePath pw_dir F' = getAutoStartFilePath pw_dir F" .
  then show ?thesis using read_write_file [OF wr] by simp
qed

section \<open>Reading back\<close>

text \<open>
  When enabling the start with the desktop session reports success, it is enabled afterwards,
  whatever the directories, unless the path of the program contains the line that disables an
  entry; and when disabling it reports success, it is not.
\<close>
lemma autostart_reads_what_it_wrote:
  "(enableAutoStart link pw_dir F = (True, F') \<longrightarrow>
      (isAutoStartEnabled pw_dir F' \<longleftrightarrow>
        \<not> sublist ''X-GNOME-Autostart-enabled=false'' (getExecutablePath link))) \<and>
   (disableAutoStart pw_dir F = (True, F') \<longrightarrow> \<not> isAutoStartEnabled pw_dir F')"
proof (intro conjI impI)
  assume "enableAutoStart link pw_dir F = (True, F')"
  from enableAutoStart_file [OF this] desktop_entry_valid desktop_entry_flag
  show "isAutoStartEnabled pw_dir F' \<longleftrightarrow>
      \<not> sublist ''X-GNOME-Autostart-enabled=false'' (getExecutablePath link)"
    by (simp add: isAutoStartEnabled_def)
next
  assume dis: "disableAutoStart pw_dir F = (True, F')"
  let ?p = "getAutoStartFilePath pw_dir F"
  have "environment F' = environment F \<and> read_file F' ?p = None"
  proof (cases "is_regular_file F ?p")
    case True
    then have "F' = remove_file ?p F" using dis by (simp add: disableAutoStart_def)
    then show ?thesis by (simp add: remove_file_def read_file_def file_at_def Let_def)
  next
    case False
    then have "F' = F" using dis by (simp add: disableAutoStart_def)
    then show ?thesis using False
      by (auto simp: is_regular_file_def read_file_def split: option.splits file_node.splits)
  qed
  then show "\<not> isAutoStartEnabled pw_dir F'"
    using same_autostart [of F' F pw_dir] by (simp add: isAutoStartEnabled_def)
qed

end
