(* ===== verification/Key_Queue.thy ===== *)
theory Key_Queue
  imports Prelude
begin

text \<open>
  The queue of keyboard input between the Windows driver's filter and its readers
  (src/driver/keyque.c): a ring buffer, filled and emptied in blocks. The insertion and removal
  pointers are offsets into the array; they run from the start to one past its end. Allocating the
  array may fail. Numbers are natural numbers: the invariant keeps the number of keys below the
  length of the array, so the unsigned difference of the two does not wrap.
\<close>

section \<open>The code\<close>

record 'a KeyQue =
  kq_count :: nat
  lengthof_que :: nat
  kq_insert :: nat
  kq_remove :: nat
  kq_que :: "'a list"

definition KeyQueSize :: nat where "KeyQueSize = 100"

text \<open>\<^verbatim>\<open>RtlMoveMemory\<close> into an array, at an offset.\<close>

definition move_to :: "nat \<Rightarrow> 'a list \<Rightarrow> 'a list \<Rightarrow> 'a list" where
  "move_to i xs a = take i a @ xs @ drop (i + length xs) a"

text \<open>The allocated array has some content; None when there is no memory.\<close>

definition KqInitialize :: "'a list option \<Rightarrow> 'a KeyQue option" where
  "KqInitialize pool =
     map_option (\<lambda>a. \<lparr>kq_count = 0, lengthof_que = KeyQueSize, kq_insert = 0, kq_remove = 0, kq_que = a\<rparr>) pool"

definition KqClear :: "'a KeyQue \<Rightarrow> 'a KeyQue" where
  "KqClear kq = kq\<lparr>kq_count := 0, kq_insert := 0, kq_remove := 0\<rparr>"

definition KqIsEmpty :: "'a KeyQue \<Rightarrow> bool" where
  "KqIsEmpty kq = (0 = kq_count kq)"

definition KqEnque :: "'a list \<Rightarrow> 'a KeyQue \<Rightarrow> nat \<times> 'a KeyQue" where
  "KqEnque buf kq =
     (let n = length buf;
          n = (if lengthof_que kq - kq_count kq < n then lengthof_que kq - kq_count kq else n)
      in if n \<le> 0 then (0, kq)
         else
           let r = lengthof_que kq - kq_insert kq;
               kq = (if r < n then
                       let kq = (if 0 < r then kq\<lparr>kq_que := move_to (kq_insert kq) (take r buf) (kq_que kq)\<rparr> else kq);
                           copy = n - r;
                           kq = (if 0 < copy then kq\<lparr>kq_que := move_to 0 (take copy (drop r buf)) (kq_que kq)\<rparr> else kq)
                       in kq\<lparr>kq_insert := copy\<rparr>
                     else kq\<lparr>kq_que := move_to (kq_insert kq) (take n buf) (kq_que kq),
                             kq_insert := kq_insert kq + n\<rparr>)
           in (n, kq\<lparr>kq_count := kq_count kq + n\<rparr>))"

definition KqDeque :: "nat \<Rightarrow> 'a KeyQue \<Rightarrow> 'a list \<times> 'a KeyQue" where
  "KqDeque lengthof_buf kq =
     (let n = (if kq_count kq < lengthof_buf then kq_count kq else lengthof_buf)
      in if n \<le> 0 then ([], kq)
         else
           let r = lengthof_que kq - kq_remove kq;
               (out, kq) =
                 (if r < n then
                    let copy = n - r
                    in (take r (drop (kq_remove kq) (kq_que kq)) @ take copy (kq_que kq), kq\<lparr>kq_remove := copy\<rparr>)
                  else (take n (drop (kq_remove kq) (kq_que kq)), kq\<lparr>kq_remove := kq_remove kq + n\<rparr>))
           in (out, kq\<lparr>kq_count := kq_count kq - n\<rparr>))"

section \<open>The queue it implements\<close>

definition wf_KeyQue :: "'a KeyQue \<Rightarrow> bool" where
  "wf_KeyQue kq =
     (0 < lengthof_que kq \<and> length (kq_que kq) = lengthof_que kq \<and> kq_count kq \<le> lengthof_que kq \<and>
      kq_insert kq \<le> lengthof_que kq \<and> kq_remove kq \<le> lengthof_que kq \<and>
      kq_insert kq mod lengthof_que kq = (kq_remove kq + kq_count kq) mod lengthof_que kq)"

definition contents :: "'a KeyQue \<Rightarrow> 'a list" where
  "contents kq = map (\<lambda>i. kq_que kq ! ((kq_remove kq + i) mod lengthof_que kq)) [0..<kq_count kq]"

lemma nth_move_to:
  assumes "i + length xs \<le> length a" and "j < length a"
  shows "move_to i xs a ! j = (if i \<le> j \<and> j < i + length xs then xs ! (j - i) else a ! j)"
  using assms by (auto simp: move_to_def nth_append)

lemma length_move_to: "i + length xs \<le> length a \<Longrightarrow> length (move_to i xs a) = length a"
  by (simp add: move_to_def)

lemma move_to_Nil [simp]: "move_to i [] a = a"
  by (simp add: move_to_def)

text \<open>Indices around the ring.\<close>

lemma ring_index:
  "i \<le> n \<Longrightarrow> k < n \<Longrightarrow> (i + k) mod n = (if i + k < n then i + k else i + k - n)"
  for n :: nat
  by (simp add: le_mod_geq)

lemma ring_apart:
  fixes r c k j n :: nat
  assumes same: "(r + c + k) mod n = (r + j) mod n" and j: "j < c" and room: "c + k < n"
  shows False
proof -
  have "r + j + (c - j + k) = r + c + k" using j by simp
  then have "(r + j + (c - j + k)) mod n = (r + j + 0) mod n" using same by (simp only: add.right_neutral)
  then have "n dvd (r + j + (c - j + k)) - (r + j + 0)" by (metis mod_eq_dvd_iff_nat add_le_cancel_left zero_le)
  then have "n dvd c - j + k" by simp
  then show False using j room by (auto dest: dvd_imp_le)
qed

lemma KqEnque_count:
  assumes "KqEnque buf kq = (n, kq')"
  shows "n = min (lengthof_que kq - kq_count kq) (length buf)" and "kq_count kq' = kq_count kq + n"
    and "lengthof_que kq' = lengthof_que kq" and "kq_remove kq' = kq_remove kq"
  using assms by (auto simp: KqEnque_def Let_def min_def split: if_splits)

lemma KqEnque_array:
  assumes wf: "wf_KeyQue kq" and enq: "KqEnque buf kq = (n, kq')"
  defines "L \<equiv> lengthof_que kq" and "i \<equiv> kq_insert kq"
  shows "kq_insert kq' = (if n \<le> L - i then i + n else n - (L - i))"
    and "kq_que kq' = (if n \<le> L - i then move_to i (take n buf) (kq_que kq)
           else move_to 0 (drop (L - i) (take n buf)) (move_to i (take (L - i) buf) (kq_que kq)))"
proof -
  have n: "n = min (L - kq_count kq) (length buf)" using KqEnque_count(1)[OF enq] by (simp add: L_def)
  have a: "i \<le> length (kq_que kq)" "L = length (kq_que kq)" using wf by (simp_all add: wf_KeyQue_def L_def i_def)
  have chop: "(if lengthof_que kq - kq_count kq < length buf then lengthof_que kq - kq_count kq else length buf) = n"
    using n by (simp add: L_def)
  note enq' = enq [unfolded KqEnque_def Let_def chop, folded L_def i_def]
  show "kq_insert kq' = (if n \<le> L - i then i + n else n - (L - i))"
    using enq' a(1) by (cases "n = 0"; cases "L - i < n"; cases "0 < L - i"; cases "0 < n - (L - i)"; auto simp: i_def)
  have none: "kq' = kq" if "n = 0" using enq' that by simp
  show "kq_que kq' = (if n \<le> L - i then move_to i (take n buf) (kq_que kq)
           else move_to 0 (drop (L - i) (take n buf)) (move_to i (take (L - i) buf) (kq_que kq)))"
  proof (cases "n = 0")
    case True
    then show ?thesis using none a by (simp add: move_to_def)
  next
    case False
    show ?thesis
    proof (cases "L - i < n")
      case True
      then have "0 < n - (L - i)" by simp
      with True False enq' show ?thesis by (cases "0 < L - i") (auto simp: drop_take)
    next
      case fits: False
      with False enq' show ?thesis by auto
    qed
  qed
qed

lemma KqEnque_slots:
  assumes wf: "wf_KeyQue kq" and enq: "KqEnque buf kq = (n, kq')"
  defines "L \<equiv> lengthof_que kq" and "i \<equiv> kq_insert kq"
  shows "length (kq_que kq') = L"
    and "kq_insert kq' \<le> L" and "kq_insert kq' mod L = (i + n) mod L"
    and "k < n \<Longrightarrow> kq_que kq' ! ((i + k) mod L) = buf ! k"
    and "j < L \<Longrightarrow> (\<And>k. k < n \<Longrightarrow> j \<noteq> (i + k) mod L) \<Longrightarrow> kq_que kq' ! j = kq_que kq ! j"
proof -
  have L: "0 < L" "length (kq_que kq) = L" "i \<le> L" using wf by (simp_all add: wf_KeyQue_def L_def i_def)
  have n: "n \<le> L" "n \<le> length buf" using KqEnque_count(1)[OF enq] by (simp_all add: L_def)
  note ins = KqEnque_array(1)[OF wf enq, folded L_def i_def]
  note arr = KqEnque_array(2)[OF wf enq, folded L_def i_def]
  show "length (kq_que kq') = L" using arr L n by (simp add: length_move_to)
  show "kq_insert kq' \<le> L" using ins L n by (simp split: if_splits)
  show "kq_insert kq' mod L = (i + n) mod L" using ins L n by (simp add: le_mod_geq add.commute)
  show "kq_que kq' ! ((i + k) mod L) = buf ! k" if k: "k < n"
    using arr L n k ring_index[of i L k] by (auto simp: nth_move_to length_move_to split: if_splits)
  show "kq_que kq' ! j = kq_que kq ! j" if j: "j < L" and free: "\<And>k. k < n \<Longrightarrow> j \<noteq> (i + k) mod L"
  proof -
    have "\<not> (i \<le> j \<and> j < i + n)"
    proof
      assume at: "i \<le> j \<and> j < i + n"
      then have "j - i < n" by linarith
      then show False using free[of "j - i"] at j by simp
    qed
    moreover have "\<not> j + L < i + n"
    proof
      assume at: "j + L < i + n"
      then have "j + L - i < n" using L by linarith
      then show False using free[of "j + L - i"] at j L by simp
    qed
    ultimately show ?thesis using arr L n j by (auto simp: nth_move_to length_move_to split: if_splits)
  qed
qed

lemma wf_KqEnque:
  assumes wf: "wf_KeyQue kq" and enq: "KqEnque buf kq = (n, kq')"
  shows "wf_KeyQue kq'"
proof -
  let ?L = "lengthof_que kq"
  have "kq_insert kq' mod ?L = (kq_insert kq mod ?L + n) mod ?L"
    using KqEnque_slots(3)[OF wf enq] by (simp add: mod_add_left_eq)
  also have "\<dots> = ((kq_remove kq + kq_count kq) mod ?L + n) mod ?L"
    using wf by (simp add: wf_KeyQue_def)
  finally have "kq_insert kq' mod ?L = (kq_remove kq + (kq_count kq + n)) mod ?L"
    by (simp add: mod_add_left_eq add.assoc)
  then show ?thesis
    using wf KqEnque_count[OF enq] KqEnque_slots(1,2)[OF wf enq] by (auto simp: wf_KeyQue_def)
qed

lemma contents_KqEnque:
  assumes wf: "wf_KeyQue kq" and enq: "KqEnque buf kq = (n, kq')"
  shows "contents kq' = contents kq @ take n buf"
proof (rule nth_equalityI)
  let ?L = "lengthof_que kq" let ?c = "kq_count kq" let ?r = "kq_remove kq"
  note count = KqEnque_count[OF enq]
  show "length (contents kq') = length (contents kq @ take n buf)"
    using count by (simp add: contents_def)
  fix j
  assume "j < length (contents kq')"
  then have j: "j < ?c + n" using count by (simp add: contents_def)
  have room: "?c + n \<le> ?L" "n \<le> length buf" using wf count by (auto simp: wf_KeyQue_def)
  show "contents kq' ! j = (contents kq @ take n buf) ! j"
  proof (cases "j < ?c")
    case True
    have "kq_que kq' ! ((?r + j) mod ?L) = kq_que kq ! ((?r + j) mod ?L)"
    proof (rule KqEnque_slots(5)[OF wf enq])
      show "(?r + j) mod ?L < ?L" using wf by (simp add: wf_KeyQue_def)
      fix k
      assume k: "k < n"
      show "(?r + j) mod ?L \<noteq> (kq_insert kq + k) mod ?L"
      proof
        assume "(?r + j) mod ?L = (kq_insert kq + k) mod ?L"
        also have "\<dots> = (kq_insert kq mod ?L + k) mod ?L" by (simp add: mod_add_left_eq)
        also have "\<dots> = (?r + ?c + k) mod ?L" using wf by (simp add: wf_KeyQue_def mod_add_left_eq)
        finally show False using ring_apart[of ?r ?c k ?L j] True k room by simp
      qed
    qed
    then show ?thesis using True j count by (simp add: contents_def nth_append)
  next
    case False
    have "(?r + j) mod ?L = ((?r + ?c) mod ?L + (j - ?c)) mod ?L"
      using False by (simp only: mod_add_left_eq) simp
    also have "\<dots> = (kq_insert kq mod ?L + (j - ?c)) mod ?L" using wf by (simp add: wf_KeyQue_def)
    also have "\<dots> = (kq_insert kq + (j - ?c)) mod ?L" by (simp add: mod_add_left_eq)
    finally have at: "(?r + j) mod ?L = (kq_insert kq + (j - ?c)) mod ?L" .
    have "contents kq' ! j = kq_que kq' ! ((?r + j) mod ?L)" using j count by (simp add: contents_def)
    also have "\<dots> = buf ! (j - ?c)" unfolding at using False j by (intro KqEnque_slots(4)[OF wf enq]) simp
    finally show ?thesis using False j room by (simp add: contents_def nth_append)
  qed
qed

lemma KqDeque_result:
  assumes wf: "wf_KeyQue kq" and deq: "KqDeque m kq = (out, kq')"
  defines "L \<equiv> lengthof_que kq" and "n \<equiv> min m (kq_count kq)"
  shows "out = map (\<lambda>i. kq_que kq ! ((kq_remove kq + i) mod L)) [0..<n]"
    and "kq_count kq' = kq_count kq - n" and "lengthof_que kq' = L" and "kq_insert kq' = kq_insert kq"
    and "kq_que kq' = kq_que kq" and "kq_remove kq' \<le> L" and "kq_remove kq' mod L = (kq_remove kq + n) mod L"
proof -
  let ?r = "kq_remove kq"
  have L: "0 < L" "length (kq_que kq) = L" "?r \<le> L" "kq_count kq \<le> L"
    using wf by (simp_all add: wf_KeyQue_def L_def)
  have n: "n \<le> L" using L by (simp add: n_def)
  have part: "take k (drop i (kq_que kq)) = map (\<lambda>j. kq_que kq ! (i + j)) [0..<k]" if "i + k \<le> L" for i k
    using that L by (intro nth_equalityI) auto
  have out: "out = (if n \<le> L - ?r then take n (drop ?r (kq_que kq))
                    else take (L - ?r) (drop ?r (kq_que kq)) @ take (n - (L - ?r)) (kq_que kq))"
    using deq by (auto simp: KqDeque_def Let_def L_def n_def min_def split: if_splits)
  show "out = map (\<lambda>i. kq_que kq ! ((?r + i) mod L)) [0..<n]"
  proof (rule nth_equalityI)
    show "length out = length (map (\<lambda>i. kq_que kq ! ((?r + i) mod L)) [0..<n])" using out L n by simp
    fix i
    assume "i < length out"
    then have i: "i < n" using out L n by (simp split: if_splits)
    show "out ! i = map (\<lambda>i. kq_que kq ! ((?r + i) mod L)) [0..<n] ! i"
    proof (cases "?r + i < L")
      case True
      then show ?thesis using i out L n by (auto simp: nth_append)
    next
      case False
      have "(?r + i) mod L = i - (L - ?r)" using ring_index[of ?r L i] False L n i by simp
      then show ?thesis using i out L n False by (auto simp: nth_append)
    qed
  qed
  show "kq_count kq' = kq_count kq - n" "lengthof_que kq' = L" "kq_insert kq' = kq_insert kq"
    "kq_que kq' = kq_que kq"
    using deq by (auto simp: KqDeque_def Let_def L_def n_def min_def split: if_splits)
  have rem: "kq_remove kq' = (if n \<le> L - ?r then ?r + n else n - (L - ?r))"
    using deq L by (auto simp: KqDeque_def Let_def L_def n_def min_def split: if_splits)
  show "kq_remove kq' \<le> L" using rem L n by (simp split: if_splits)
  show "kq_remove kq' mod L = (?r + n) mod L" using rem L n by (simp add: le_mod_geq add.commute)
qed

lemma wf_KqDeque:
  assumes wf: "wf_KeyQue kq" and deq: "KqDeque m kq = (out, kq')"
  shows "wf_KeyQue kq'"
proof -
  let ?L = "lengthof_que kq" let ?n = "min m (kq_count kq)"
  note res = KqDeque_result[OF wf deq]
  have "(kq_remove kq' + (kq_count kq - ?n)) mod ?L = ((kq_remove kq + ?n) mod ?L + (kq_count kq - ?n)) mod ?L"
    using res(7) by (metis mod_add_left_eq)
  also have "\<dots> = (kq_remove kq + kq_count kq) mod ?L" by (simp only: mod_add_left_eq) simp
  also have "\<dots> = kq_insert kq mod ?L" using wf by (simp add: wf_KeyQue_def)
  finally have "kq_insert kq mod ?L = (kq_remove kq' + kq_count kq') mod ?L" using res(2) by simp
  moreover have "kq_count kq' \<le> ?L" using wf res(2) unfolding wf_KeyQue_def by linarith
  ultimately show ?thesis using wf res(3-6) by (simp add: wf_KeyQue_def)
qed

lemma contents_KqDeque:
  assumes wf: "wf_KeyQue kq" and deq: "KqDeque m kq = (out, kq')"
  shows "out = take m (contents kq)" and "contents kq' = drop m (contents kq)"
proof -
  note res = KqDeque_result[OF wf deq]
  show "out = take m (contents kq)" using res(1) by (auto simp: contents_def take_map min_def)
  show "contents kq' = drop m (contents kq)"
  proof (rule nth_equalityI)
    show "length (contents kq') = length (drop m (contents kq))" using res by (simp add: contents_def)
    fix i
    assume "i < length (contents kq')"
    then have i: "m + i < kq_count kq" "min m (kq_count kq) = m" using res by (auto simp: contents_def)
    have "(kq_remove kq' + i) mod lengthof_que kq = (kq_remove kq + (m + i)) mod lengthof_que kq"
      using res(7) i by (metis add.assoc mod_add_left_eq)
    then show "contents kq' ! i = drop m (contents kq) ! i" using i res by (simp add: contents_def add.commute)
  qed
qed

section \<open>The contract\<close>

text \<open>
  What the driver relies on: a first-in first-out queue of bounded size that takes what fits of a
  block and gives at most what is asked for.
\<close>

datatype 'a queue_op = Put "'a list" | Get nat | Clear

locale bounded_queue =
  fixes good :: "'q \<Rightarrow> bool"
    and stored :: "'q \<Rightarrow> 'a list"
    and size_of :: "'q \<Rightarrow> nat"
    and put :: "'a list \<Rightarrow> 'q \<Rightarrow> nat \<times> 'q"
    and get :: "nat \<Rightarrow> 'q \<Rightarrow> 'a list \<times> 'q"
    and clear :: "'q \<Rightarrow> 'q"
  assumes put_stored: "good q \<Longrightarrow> put xs q = (n, q') \<Longrightarrow>
      good q' \<and> size_of q' = size_of q \<and> n = min (size_of q - length (stored q)) (length xs) \<and>
      stored q' = stored q @ take n xs"
    and get_stored: "good q \<Longrightarrow> get m q = (ys, q') \<Longrightarrow>
      good q' \<and> size_of q' = size_of q \<and> ys = take m (stored q) \<and> stored q' = drop m (stored q)"
    and clear_stored: "good q \<Longrightarrow> good (clear q) \<and> size_of (clear q) = size_of q \<and> stored (clear q) = []"
begin

text \<open>One operation: what it returns to the reader, and how many keys it took from the writer.\<close>

fun step :: "'a queue_op \<Rightarrow> 'q \<Rightarrow> ('a list \<times> nat) \<times> 'q" where
  "step (Put xs) q = (let (n, q') = put xs q in (([], n), q'))"
| "step (Get m) q = (let (ys, q') = get m q in ((ys, 0), q'))"
| "step Clear q = (([], 0), clear q)"

fun run :: "'a queue_op list \<Rightarrow> 'q \<Rightarrow> ('a list \<times> nat) list \<times> 'q" where
  "run [] q = ([], q)"
| "run (a # as) q = (let (out, q') = step a q; (outs, q'') = run as q' in (out # outs, q''))"

end

text \<open>The same on a list of bounded length.\<close>

fun list_step :: "nat \<Rightarrow> 'a queue_op \<Rightarrow> 'a list \<Rightarrow> ('a list \<times> nat) \<times> 'a list" where
  "list_step cap (Put xs) q = (let n = min (cap - length q) (length xs) in (([], n), q @ take n xs))"
| "list_step cap (Get m) q = ((take m q, 0), drop m q)"
| "list_step cap Clear q = (([], 0), [])"

fun list_run :: "nat \<Rightarrow> 'a queue_op list \<Rightarrow> 'a list \<Rightarrow> ('a list \<times> nat) list \<times> 'a list" where
  "list_run cap [] q = ([], q)"
| "list_run cap (a # as) q =
     (let (out, q') = list_step cap a q; (outs, q'') = list_run cap as q' in (out # outs, q''))"

context bounded_queue
begin

lemma step_refines:
  assumes "good q"
  shows "good (snd (step a q)) \<and> size_of (snd (step a q)) = size_of q \<and>
         (fst (step a q), stored (snd (step a q))) = list_step (size_of q) a (stored q)"
proof (cases a)
  case (Put xs)
  obtain n q' where "put xs q = (n, q')" by (cases "put xs q")
  with put_stored[OF assms this] show ?thesis by (simp add: Put Let_def)
next
  case (Get m)
  obtain ys q' where "get m q = (ys, q')" by (cases "get m q")
  with get_stored[OF assms this] show ?thesis by (simp add: Get)
next
  case Clear
  then show ?thesis using clear_stored[OF assms] by simp
qed

lemma run_refines:
  "good q \<Longrightarrow> good (snd (run as q)) \<and> size_of (snd (run as q)) = size_of q \<and>
     (fst (run as q), stored (snd (run as q))) = list_run (size_of q) as (stored q)"
proof (induction as arbitrary: q)
  case (Cons a as)
  obtain out q' where st: "step a q = (out, q')" by (cases "step a q")
  have q': "good q'" "size_of q' = size_of q" "list_step (size_of q) a (stored q) = (out, stored q')"
    using step_refines[OF Cons.prems, of a] st by auto
  show ?case
    using Cons.IH[OF q'(1)] st q' by (auto simp: Let_def split: prod.splits)
qed simp

end

lemma contents_KqClear: "wf_KeyQue kq \<Longrightarrow> wf_KeyQue (KqClear kq) \<and> contents (KqClear kq) = []"
  by (simp add: wf_KeyQue_def KqClear_def contents_def)

lemma length_contents: "length (contents kq) = kq_count kq"
  by (simp add: contents_def)

interpretation ring: bounded_queue wf_KeyQue contents lengthof_que KqEnque KqDeque KqClear
proof
  show "wf_KeyQue q' \<and> lengthof_que q' = lengthof_que q \<and>
      n = min (lengthof_que q - length (contents q)) (length xs) \<and> contents q' = contents q @ take n xs"
    if "wf_KeyQue q" "KqEnque xs q = (n, q')" for q xs n q'
    using wf_KqEnque[OF that] contents_KqEnque[OF that] KqEnque_count[OF that(2)]
    by (simp add: length_contents)
  show "wf_KeyQue q' \<and> lengthof_que q' = lengthof_que q \<and> ys = take m (contents q) \<and>
      contents q' = drop m (contents q)"
    if "wf_KeyQue q" "KqDeque m q = (ys, q')" for q m ys q'
    using wf_KqDeque[OF that] contents_KqDeque[OF that] KqDeque_result(3)[OF that] by simp
  show "wf_KeyQue (KqClear q) \<and> lengthof_que (KqClear q) = lengthof_que q \<and> contents (KqClear q) = []"
    if "wf_KeyQue q" for q
    using contents_KqClear[OF that] by (simp add: KqClear_def)
qed

text \<open>The driver's use of the queue: writers and the reader in any order.\<close>

fun kq_run :: "'a queue_op list \<Rightarrow> 'a KeyQue \<Rightarrow> ('a list \<times> nat) list \<times> 'a KeyQue" where
  "kq_run [] kq = ([], kq)"
| "kq_run (Put xs # as) kq = (let (n, kq) = KqEnque xs kq; (outs, kq) = kq_run as kq in (([], n) # outs, kq))"
| "kq_run (Get m # as) kq = (let (ys, kq) = KqDeque m kq; (outs, kq) = kq_run as kq in ((ys, 0) # outs, kq))"
| "kq_run (Clear # as) kq = (let (outs, kq) = kq_run as (KqClear kq) in (([], 0) # outs, kq))"

lemma kq_run: "kq_run as kq = ring.run as kq"
  by (induction as kq rule: kq_run.induct) (auto simp: Let_def split: prod.splits)

lemma new_queue:
  assumes "KqInitialize pool = Some kq" and "\<And>a. pool = Some a \<Longrightarrow> length a = KeyQueSize"
  shows "wf_KeyQue kq \<and> contents kq = [] \<and> lengthof_que kq = KeyQueSize"
  using assms by (auto simp: KqInitialize_def wf_KeyQue_def contents_def KeyQueSize_def)

section \<open>Property\<close>

text \<open>C21: The ring buffer of keyboard input is a first-in first-out queue of at most 100 keys. Whatever
  blocks are put in, asked for and cleared, in any order, from the queue the driver initialises,
  every read returns exactly what the list returns to which each block is appended as far as there
  is room and from whose front each read takes; every write reports how much of the block was
  taken; and what is left in the buffer, from its removal pointer around its end, is that list.\<close>

theorem key_queue_is_a_bounded_list:
  assumes "KqInitialize (Some pool) = Some kq" and "length pool = KeyQueSize"
  shows "(fst (kq_run as kq), contents (snd (kq_run as kq))) = list_run KeyQueSize as [] \<and>
         kq_count (snd (kq_run as kq)) \<le> KeyQueSize"
  using new_queue[OF assms(1)] assms(2) ring.run_refines[of kq as]
  by (auto simp: kq_run wf_KeyQue_def)

theorem key_queue_is_a_bounded_list_witness:
  defines "kq \<equiv> the (KqInitialize (Some (replicate 100 (0 :: nat))))"
  shows "(fst (kq_run [Put [1, 2, 3], Get 2, Put [4], Get 5] kq),
          contents (snd (kq_run [Put [1, 2, 3], Get 2, Put [4], Get 5] kq)))
       = ([([], 3), ([1, 2], 0), ([], 1), ([3, 4], 0)], [])"
proof -
  have "KqInitialize (Some (replicate 100 (0 :: nat))) = Some kq" by (simp add: kq_def KqInitialize_def)
  then have "(fst (kq_run [Put [1, 2, 3], Get 2, Put [4], Get 5] kq),
        contents (snd (kq_run [Put [1, 2, 3], Get 2, Put [4], Get 5] kq)))
      = list_run KeyQueSize [Put [1, 2, 3], Get 2, Put [4], Get 5] []"
    by (rule conjunct1 [OF key_queue_is_a_bounded_list]) (simp add: KeyQueSize_def)
  then show ?thesis by (simp add: KeyQueSize_def Let_def)
qed

end
