(* ===== verification/Config_Backup.thy ===== *)
theory Config_Backup
  imports Config_Manager "HOL-Library.Sublist" "HOL-Library.Multiset"
begin

text \<open>
  Backups of configurations (src/core/settings/config_manager.cpp): copies in the directory
  \<^verbatim>\<open>.backups\<close> beside the configuration, of which the newest are kept. The local time is an
  argument, and so is \<^verbatim>\<open>std::sort\<close>, which may leave files of the same time in any order, and what
  \<^verbatim>\<open>std::regex\<close> makes of a name with special characters, which the code puts into a pattern as it
  is; None stands for a pattern that throws.
\<close>

section \<open>Names of backups\<close>

record local_time =
  tm_year :: nat
  tm_mon :: nat
  tm_mday :: nat
  tm_hour :: nat
  tm_min :: nat
  tm_sec :: nat
  tm_ms :: nat

definition padded :: "nat \<Rightarrow> nat \<Rightarrow> string" where
  "padded w n = replicate (w - length (decimal n)) (CHR ''0'') @ decimal n"

definition generateTimestamp :: "local_time \<Rightarrow> string" where
  "generateTimestamp t =
     decimal (tm_year t) @ padded 2 (tm_mon t) @ padded 2 (tm_mday t) @ ''_'' @
     padded 2 (tm_hour t) @ padded 2 (tm_min t) @ padded 2 (tm_sec t) @ ''_'' @ padded 3 (tm_ms t)"

definition BACKUP_EXTENSION :: string where "BACKUP_EXTENSION = ''.mayu.bak''"

definition backup_name :: "string \<Rightarrow> local_time \<Rightarrow> string" where
  "backup_name s t = s @ ''_'' @ generateTimestamp t @ BACKUP_EXTENSION"

text \<open>The end of the patterns: \<^verbatim>\<open>_\d{8}_\d{6}_\d{3}\.mayu\.bak$\<close>, which has 29 characters.\<close>

definition backup_tail :: "string \<Rightarrow> bool" where
  "backup_tail s =
     (length s = 29 \<and> s ! 0 = CHR ''_'' \<and> list_all isdigit (take 8 (drop 1 s)) \<and>
      s ! 9 = CHR ''_'' \<and> list_all isdigit (take 6 (drop 10 s)) \<and>
      s ! 16 = CHR ''_'' \<and> list_all isdigit (take 3 (drop 17 s)) \<and> drop 20 s = BACKUP_EXTENSION)"

text \<open>A name that is a pattern for itself.\<close>

definition plain_stem :: "string \<Rightarrow> bool" where
  "plain_stem s = list_all (\<lambda>c. c \<notin> set ''^$.*+?()[]{}|'' \<and> c \<noteq> CHR 0x5C) s"

text \<open>The pattern is searched, not matched: any text may stand in front of the stem.\<close>

definition backup_pattern ::
  "(string \<Rightarrow> (string \<Rightarrow> bool) option) \<Rightarrow> string \<Rightarrow> (string \<Rightarrow> bool) option" where
  "backup_pattern special s =
     (if plain_stem s then
        Some (\<lambda>name. let n = length name - 29 in
          29 \<le> length name \<and> backup_tail (drop n name) \<and> suffix s (take n name))
      else special s)"

definition getBackupDir :: "string \<Rightarrow> string" where
  "getBackupDir configPath = path_append (parent_path configPath) ''.backups''"

definition extractOriginalPath :: "string \<Rightarrow> string" where
  "extractOriginalPath backupPath =
     (let backupDir = parent_path backupPath in
      if filename backupDir \<noteq> ''.backups'' then []
      else
        let configDir = parent_path backupDir;
            backupName = filename backupPath;
            n = length backupName - 29
        in if 29 < length backupName \<and> backup_tail (drop n backupName) \<and>
              list_all (\<lambda>c. c \<noteq> CHR 0x0A \<and> c \<noteq> CHR 0x0D) (take n backupName)
           then path_append configDir (take n backupName @ ''.mayu'')
           else [])"

section \<open>Files\<close>

definition MAX_BACKUPS_PER_CONFIG :: nat where "MAX_BACKUPS_PER_CONFIG = 10"

type_synonym std_sort = "(string \<Rightarrow> int) \<Rightarrow> string list \<Rightarrow> string list"

definition modified :: "File_System \<Rightarrow> string \<Rightarrow> int" where
  "modified F p = (case file_at F p of Some (Regular_File _ t) \<Rightarrow> int t | _ \<Rightarrow> 0)"

text \<open>The files both \<open>listBackups\<close> and \<open>enforceBackupLimit\<close> collect.\<close>

definition backup_files ::
  "(string \<Rightarrow> (string \<Rightarrow> bool) option) \<Rightarrow> string \<Rightarrow> File_System \<Rightarrow> string list" where
  "backup_files special configPath F =
     (let backupDir = getBackupDir configPath in
      if backupDir = [] \<or> \<not> fs_exists F backupDir \<or> \<not> is_directory F backupDir then []
      else case backup_pattern special (stem configPath) of
             None \<Rightarrow> []
           | Some search \<Rightarrow>
               filter (\<lambda>e. is_regular_file F e \<and> search (filename e)) (directory_entries F backupDir))"

definition listBackups ::
  "std_sort \<Rightarrow> (string \<Rightarrow> (string \<Rightarrow> bool) option) \<Rightarrow> string \<Rightarrow> File_System \<Rightarrow> string list" where
  "listBackups srt special configPath F =
     srt (\<lambda>e. - modified F e) (backup_files special configPath F)"

fun remove_oldest :: "string list \<Rightarrow> File_System \<Rightarrow> File_System" where
  "remove_oldest [] F = F"
| "remove_oldest (b # bs) F =
     (if length (b # bs) > MAX_BACKUPS_PER_CONFIG then remove_oldest bs (remove_file b F) else F)"

definition enforceBackupLimit ::
  "std_sort \<Rightarrow> (string \<Rightarrow> (string \<Rightarrow> bool) option) \<Rightarrow> string \<Rightarrow> File_System \<Rightarrow> File_System" where
  "enforceBackupLimit srt special configPath F =
     remove_oldest (srt (modified F) (backup_files special configPath F)) F"

text \<open>Copies a configuration into its backup directory, which is made if there is none.\<close>

definition copy_to_backups :: "local_time \<Rightarrow> string \<Rightarrow> File_System \<Rightarrow> string option \<times> File_System" where
  "copy_to_backups now configPath F =
     (let backupDir = getBackupDir configPath;
          backupPath = path_append backupDir (backup_name (stem configPath) now) in
      case (if \<not> fs_exists F backupDir then create_directories backupDir F else Some F) of
        None \<Rightarrow> (None, F)
      | Some F1 \<Rightarrow> (case copy_file configPath backupPath F1 of
                      None \<Rightarrow> (None, F1) | Some F2 \<Rightarrow> (Some backupPath, F2)))"

definition createBackup ::
  "local_time \<Rightarrow> std_sort \<Rightarrow> (string \<Rightarrow> (string \<Rightarrow> bool) option) \<Rightarrow> string \<Rightarrow> File_System \<Rightarrow>
     string \<times> File_System" where
  "createBackup now srt special configPath F =
     (if \<not> fileExists F configPath then ([], F)
      else if getBackupDir configPath = [] then ([], F)
      else case copy_to_backups now configPath F of
             (None, F1) \<Rightarrow> ([], F1)
           | (Some b, F1) \<Rightarrow> (b, enforceBackupLimit srt special configPath F1))"

definition restoreBackup ::
  "local_time \<Rightarrow> std_sort \<Rightarrow> (string \<Rightarrow> (string \<Rightarrow> bool) option) \<Rightarrow> string \<Rightarrow> File_System \<Rightarrow>
     bool \<times> File_System" where
  "restoreBackup now srt special backupPath F =
     (let originalPath = extractOriginalPath backupPath in
      if \<not> fileExists F backupPath then (False, F)
      else if originalPath = [] then (False, F)
      else
        let (ok, F1) =
          (if fileExists F originalPath \<and> getBackupDir originalPath \<noteq> [] then
             (let (b, F1) = copy_to_backups now originalPath F in (b \<noteq> None, F1))
           else (True, F))
        in if \<not> ok then (False, F1)
           else case copy_file backupPath originalPath F1 of
                  None \<Rightarrow> (False, F1)
                | Some F2 \<Rightarrow> (True, enforceBackupLimit srt special originalPath F2))"

text \<open>\<^verbatim>\<open>remove\<close> throws for a directory that is not empty.\<close>

definition deleteBackup :: "string \<Rightarrow> File_System \<Rightarrow> bool \<times> File_System" where
  "deleteBackup backupPath F =
     (if \<not> sublist BACKUP_EXTENSION (filename backupPath) then (False, F)
      else case file_at F backupPath of
             None \<Rightarrow> (False, F)
           | Some (Directory (_ # _)) \<Rightarrow> (False, F)
           | _ \<Rightarrow> (True, remove_file backupPath F))"

section \<open>The shape of a backup's name\<close>

text \<open>A time whose parts have their usual numbers of digits.\<close>

definition usual_time :: "local_time \<Rightarrow> bool" where
  "usual_time t = (1000 \<le> tm_year t \<and> tm_year t < 10000 \<and> tm_mon t < 100 \<and> tm_mday t < 100 \<and>
     tm_hour t < 100 \<and> tm_min t < 100 \<and> tm_sec t < 100 \<and> tm_ms t < 1000)"

lemma length_decimal_le: "n < 10 ^ Suc k \<Longrightarrow> length (decimal n) \<le> Suc k"
proof (induction k arbitrary: n)
  case 0
  then show ?case by (subst decimal.simps) simp
next
  case (Suc k)
  show ?case
  proof (cases "n < 10")
    case True
    then show ?thesis by (subst decimal.simps) simp
  next
    case False
    have "n div 10 < 10 ^ Suc k" using Suc.prems by (simp add: less_mult_imp_div_less)
    then have "length (decimal (n div 10)) \<le> Suc k" by (rule Suc.IH)
    then show ?thesis using False by (subst decimal.simps) simp
  qed
qed

lemma padded_digits:
  assumes "n < 10 ^ Suc k"
  shows "length (padded (Suc k) n) = Suc k" and "list_all isdigit (padded (Suc k) n)"
  using length_decimal_le [OF assms] isdigit_decimal [of n]
  by (auto simp: padded_def list_all_iff isdigit_def)

lemma decimal_4: "1000 \<le> n \<Longrightarrow> n < 10000 \<Longrightarrow> length (decimal n) = 4"
  by (subst decimal.simps, subst decimal.simps, subst decimal.simps, subst decimal.simps) auto

lemma backup_tail_parts:
  assumes "length d = 8" "length h = 6" "length m = 3" "list_all isdigit d" "list_all isdigit h" "list_all isdigit m"
  shows "backup_tail (''_'' @ d @ ''_'' @ h @ ''_'' @ m @ BACKUP_EXTENSION)"
  using assms by (simp add: backup_tail_def BACKUP_EXTENSION_def nth_append nth_Cons')

lemma timestamp_tail:
  assumes "usual_time t"
  shows "backup_tail (''_'' @ generateTimestamp t @ BACKUP_EXTENSION)"
proof -
  have two: "length (padded 2 n) = 2 \<and> list_all isdigit (padded 2 n)" if "n < 100" for n
    using padded_digits [of n 1] that by (simp add: numeral_2_eq_2)
  have three: "length (padded 3 n) = 3 \<and> list_all isdigit (padded 3 n)" if "n < 1000" for n
    using padded_digits [of n 2] that by (simp add: numeral_3_eq_3)
  let ?d = "decimal (tm_year t) @ padded 2 (tm_mon t) @ padded 2 (tm_mday t)"
  let ?h = "padded 2 (tm_hour t) @ padded 2 (tm_min t) @ padded 2 (tm_sec t)"
  have "backup_tail (''_'' @ ?d @ ''_'' @ ?h @ ''_'' @ padded 3 (tm_ms t) @ BACKUP_EXTENSION)"
    using assms two three decimal_4 [of "tm_year t"] isdigit_decimal [of "tm_year t"]
    by (intro backup_tail_parts) (simp_all add: usual_time_def)
  then show ?thesis by (simp add: generateTimestamp_def)
qed

lemma backup_tail_length: "backup_tail s \<Longrightarrow> length s = 29"
  by (simp add: backup_tail_def)

lemma backup_tail_name:
  fixes s :: string
  assumes "usual_time t"
  defines "n \<equiv> length (backup_name s t) - 29"
  shows "take n (backup_name s t) = s" and "backup_tail (drop n (backup_name s t))"
    and "length (backup_name s t) = length s + 29"
proof -
  have tail: "backup_tail (''_'' @ generateTimestamp t @ BACKUP_EXTENSION)" by (rule timestamp_tail [OF assms(1)])
  show len: "length (backup_name s t) = length s + 29"
    using backup_tail_length [OF tail] by (simp add: backup_name_def)
  then have "n = length s" by (simp add: n_def)
  then show "take n (backup_name s t) = s" "backup_tail (drop n (backup_name s t))"
    using tail by (simp_all add: backup_name_def)
qed


lemma digits_no_slash: "list_all isdigit s \<Longrightarrow> CHR ''/'' \<notin> set s"
  by (auto simp: list_all_iff isdigit_def)

lemma timestamp_no_slash: "CHR ''/'' \<notin> set (generateTimestamp t)"
proof -
  have "CHR ''/'' \<notin> set (padded w n)" for w n
    using digits_no_slash [OF isdigit_decimal] by (auto simp: padded_def)
  then show ?thesis
    using digits_no_slash [OF isdigit_decimal] by (simp add: generateTimestamp_def)
qed

lemma stem_no_slash: "CHR ''/'' \<notin> set (stem p)"
proof -
  have "set (stem p) \<subseteq> set (filename p)" unfolding stem_extension [symmetric] by simp
  then show ?thesis using filename_no_slash [of p] by blast
qed

lemma backup_name_no_slash: "CHR ''/'' \<notin> set (backup_name (stem p) t)"
  using timestamp_no_slash [of t] stem_no_slash [of p] by (simp add: backup_name_def BACKUP_EXTENSION_def)

section \<open>Which file a backup is restored to\<close>

text \<open>A directory's path as \<^verbatim>\<open>parent_path\<close> gives it: empty, the root, or without a slash at its end.\<close>

definition dir_path :: "string \<Rightarrow> bool" where
  "dir_path d = (d = [] \<or> d = ''/'' \<or> last d \<noteq> CHR ''/'')"

lemma strip_slashes:
  fixes e :: string
  defines "d \<equiv> rev (dropWhile (\<lambda>c. c = CHR ''/'') (rev e))"
  shows "d = [] \<or> last d \<noteq> CHR ''/''"
proof (cases "dropWhile (\<lambda>c. c = CHR ''/'') (rev e)")
  case (Cons c r)
  then have "c \<noteq> CHR ''/''"
    using hd_dropWhile [of "\<lambda>c. c = CHR ''/''" "rev e"] by simp
  then show ?thesis unfolding d_def Cons by simp
next
  case Nil
  then show ?thesis unfolding d_def by simp
qed

lemma dir_path_parent:
  assumes "filename p \<noteq> []"
  shows "dir_path (parent_path p)"
proof -
  have "\<not> list_all (\<lambda>c. c = CHR ''/'') p"
  proof
    assume "list_all (\<lambda>c. c = CHR ''/'') p"
    then have "takeWhile (\<lambda>c. c \<noteq> CHR ''/'') (rev p) = []" by (cases p rule: rev_cases) auto
    then show False using assms by (simp add: filename_def)
  qed
  then consider "list_all (\<lambda>c. c = CHR ''/'') (up_to_slash p)" "parent_path p = take 1 (up_to_slash p)"
    | "parent_path p = rev (dropWhile (\<lambda>c. c = CHR ''/'') (rev (up_to_slash p)))"
    unfolding parent_path_def Let_def by (cases "list_all (\<lambda>c. c = CHR ''/'') (up_to_slash p)") simp_all
  then show ?thesis
  proof cases
    case 1
    then show ?thesis by (cases "up_to_slash p") (simp_all add: dir_path_def)
  next
    case 2
    then show ?thesis unfolding dir_path_def using strip_slashes [of "up_to_slash p"] by metis
  qed
qed

lemma filename_Nil_iff: "filename d = [] \<longleftrightarrow> d = [] \<or> last d = CHR ''/''"
  by (cases d rule: rev_cases) (auto simp: filename_def)

lemma parent_path_append:
  assumes "dir_path d" and n: "n \<noteq> []" "CHR ''/'' \<notin> set n"
  shows "parent_path (path_append d n) = d"
proof -
  have abs: "\<not> is_absolute n" using n by (cases n) (auto simp: is_absolute_def)
  have up: "up_to_slash (e @ CHR ''/'' # n) = e @ ''/''" for e
    using n by (simp add: up_to_slash_def takeWhile_until)
  have not_all: "\<not> list_all (\<lambda>c. c = CHR ''/'') (e @ n)" for e
    using n by (cases n) auto
  consider "d = []" | "d = ''/''" | "d \<noteq> []" "last d \<noteq> CHR ''/''"
    using assms(1) by (auto simp: dir_path_def)
  then show ?thesis
  proof cases
    case 1
    have "up_to_slash n = []" using n by (simp add: up_to_slash_def takeWhile_until)
    then show ?thesis using 1 abs not_all [of "[]"]
      by (simp add: path_append_def parent_path_def filename_def Let_def)
  next
    case 2
    then show ?thesis using abs not_all [of "''/''"] up [of "[]"]
      by (simp add: path_append_def parent_path_def filename_def Let_def)
  next
    case 3
    have "last d \<in> set d" using 3 by simp
    then have "\<not> list_all (\<lambda>c. c = CHR ''/'') (d @ ''/'')"
      unfolding list_all_iff using 3(2) by (metis UnCI set_append)
    moreover have "dropWhile (\<lambda>c. c = CHR ''/'') (rev d) = rev d"
      using 3 by (cases d rule: rev_cases) auto
    moreover have "path_append d n = d @ CHR ''/'' # n" using 3 abs filename_Nil_iff [of d] by (simp add: path_append_def)
    moreover have "\<not> list_all (\<lambda>c. c = CHR ''/'') (d @ CHR ''/'' # n)" using not_all [of "d @ ''/''"] by simp
    ultimately show ?thesis using up [of d] unfolding parent_path_def Let_def by simp
  qed
qed

lemma dir_path_append: "n \<noteq> [] \<Longrightarrow> CHR ''/'' \<notin> set n \<Longrightarrow> dir_path (path_append d n)"
proof -
  assume n: "n \<noteq> []" "CHR ''/'' \<notin> set n"
  then have "last n \<noteq> CHR ''/''" by (metis last_in_set)
  moreover have "\<not> is_absolute n" using n by (cases n) (auto simp: is_absolute_def)
  ultimately show ?thesis using n by (simp add: dir_path_def path_append_def)
qed

lemma path_append_inj:
  assumes "\<not> is_absolute a" "\<not> is_absolute b"
  shows "path_append d a = path_append d b \<longleftrightarrow> a = b"
  using assms by (simp add: path_append_def)

lemma original_of_backup:
  assumes p: "filename p \<noteq> []" and s: "list_all (\<lambda>c. c \<noteq> CHR 0x0A \<and> c \<noteq> CHR 0x0D) (stem p)" "stem p \<noteq> []"
    and t: "usual_time t"
  shows "extractOriginalPath (path_append (getBackupDir p) (backup_name (stem p) t)) =
         path_append (parent_path p) (stem p @ ''.mayu'')"
proof -
  let ?n = "backup_name (stem p) t"
  note shape = backup_tail_name [OF t, of "stem p"]
  have n: "?n \<noteq> []" "CHR ''/'' \<notin> set ?n" using shape(3) backup_name_no_slash by auto
  have dir: "dir_path (getBackupDir p)" unfolding getBackupDir_def by (intro dir_path_append) simp_all
  have "parent_path (path_append (getBackupDir p) ?n) = getBackupDir p" by (rule parent_path_append [OF dir n])
  moreover have "filename (path_append (getBackupDir p) ?n) = ?n" by (rule filename_path_append [OF n(2)])
  moreover have "filename (getBackupDir p) = ''.backups''"
    unfolding getBackupDir_def by (rule filename_path_append) simp
  moreover have "parent_path (getBackupDir p) = parent_path p"
    unfolding getBackupDir_def by (intro parent_path_append dir_path_parent [OF p]) simp_all
  ultimately show ?thesis using shape s by (simp add: extractOriginalPath_def Let_def)
qed

end
