(* ===== verification/Backup_Limit.thy ===== *)
theory Backup_Limit
  imports Config_Backup
begin

text \<open>
  What the backups of a configuration promise: which file they are restored to, how many are kept
  and which. The directory of the backups has no symbolic links, and no two of its entries have
  the same name.
\<close>

section \<open>Removing files from a directory\<close>

definition flat_dir :: "string \<Rightarrow> string list \<Rightarrow> File_System \<Rightarrow> bool" where
  "flat_dir d ns F =
     (file_at F d = Some (Directory ns) \<and> distinct ns \<and> resolve F d \<noteq> [] \<and> last (resolve F d) \<noteq> CHR ''/'' \<and>
      list_all (\<lambda>n. n \<noteq> [] \<and> CHR ''/'' \<notin> set n \<and> resolve F (path_append d n) = path_append (resolve F d) n) ns)"

lemma not_absolute: "n \<noteq> [] \<Longrightarrow> CHR ''/'' \<notin> set n \<Longrightarrow> \<not> is_absolute n"
  by (cases n) (auto simp: is_absolute_def)

text \<open>Where the entries of such a directory are.\<close>

lemma flat_dir_entry:
  assumes "flat_dir d ns F" and "n \<in> set ns"
  defines "k \<equiv> resolve F (path_append d n)"
  shows "k = path_append (resolve F d) n" and "filename k = n" and "parent_path k = resolve F d"
    and "k \<noteq> resolve F d" and "\<not> is_absolute n"
proof -
  have n: "n \<noteq> []" "CHR ''/'' \<notin> set n" using assms(1,2) by (auto simp: flat_dir_def list_all_iff)
  show k: "k = path_append (resolve F d) n" using assms by (auto simp: flat_dir_def list_all_iff)
  show "filename k = n" unfolding k by (rule filename_path_append [OF n(2)])
  show "parent_path k = resolve F d"
    unfolding k using assms(1) n by (intro parent_path_append) (auto simp: flat_dir_def dir_path_def)
  show "\<not> is_absolute n" by (rule not_absolute [OF n])
  then show "k \<noteq> resolve F d" unfolding k using n by (auto simp: path_append_def)
qed

lemma flat_dir_remove:
  assumes flat: "flat_dir d ns F" and n: "n \<in> set ns" and there: "fs_exists F (path_append d n)"
  defines "G \<equiv> remove_file (path_append d n) F"
  shows "flat_dir d (filter (\<lambda>m. m \<noteq> n) ns) G"
    and "m \<in> set ns \<Longrightarrow> m \<noteq> n \<Longrightarrow> file_at G (path_append d m) = file_at F (path_append d m)"
    and "resolve G = resolve F"
proof -
  note at = flat_dir_entry [OF flat n]
  have G: "resolve G = resolve F" "nodes G = (nodes F)(resolve F d := del_entry n (nodes F (resolve F d)),
      resolve F (path_append d n) := None)"
    using there at by (auto simp: G_def remove_file_def fs_exists_def file_at_def Let_def)
  show "resolve G = resolve F" by (rule G(1))
  have "file_at G d = Some (Directory (filter (\<lambda>m. m \<noteq> n) ns))"
    using G at(4) flat by (auto simp: file_at_def flat_dir_def del_entry_def)
  then show "flat_dir d (filter (\<lambda>m. m \<noteq> n) ns) G"
    using flat G(1) by (auto simp: flat_dir_def list_all_iff)
  show "file_at G (path_append d m) = file_at F (path_append d m)" if m: "m \<in> set ns" "m \<noteq> n"
  proof -
    note am = flat_dir_entry [OF flat m(1)]
    have "resolve F (path_append d m) \<noteq> resolve F (path_append d n)"
      unfolding am(1) at(1) using path_append_inj [OF am(5) at(5)] m(2) by simp
    then show ?thesis using G am(4) by (simp add: file_at_def)
  qed
qed

lemma flat_dir_entries: "flat_dir d ns F \<Longrightarrow> directory_entries F d = map (path_append d) ns"
  by (simp add: flat_dir_def directory_entries_def)

lemma is_regular_file_cong: "file_at G p = file_at F p \<Longrightarrow> is_regular_file G p = is_regular_file F p"
  by (simp add: is_regular_file_def)

text \<open>Removing one backup removes it from the list and nothing else.\<close>

lemma backup_files_flat:
  assumes "flat_dir (getBackupDir p) ns F"
  shows "backup_files special p F =
     (case backup_pattern special (stem p) of None \<Rightarrow> []
      | Some search \<Rightarrow> map (path_append (getBackupDir p))
          (filter (\<lambda>n. is_regular_file F (path_append (getBackupDir p) n) \<and> search n) ns))"
proof -
  let ?d = "getBackupDir p"
  have d: "?d \<noteq> []" "fs_exists F ?d" "is_directory F ?d"
    using assms by (auto simp: flat_dir_def fs_exists_def is_directory_def getBackupDir_def path_append_def is_absolute_def)
  have "filename (path_append ?d n) = n" if "n \<in> set ns" for n
    using assms that by (intro filename_path_append) (auto simp: flat_dir_def list_all_iff)
  then have "filter (\<lambda>n. is_regular_file F (path_append ?d n) \<and> search (filename (path_append ?d n))) ns =
      filter (\<lambda>n. is_regular_file F (path_append ?d n) \<and> search n) ns" for search
    by (intro filter_cong) simp_all
  then show ?thesis
    using d flat_dir_entries [OF assms]
    by (simp add: backup_files_def Let_def filter_map comp_def split: option.split)
qed

lemma backup_files_remove:
  assumes flat: "flat_dir (getBackupDir p) ns F" and b: "b \<in> set (backup_files special p F)"
  shows "backup_files special p (remove_file b F) = filter (\<lambda>e. e \<noteq> b) (backup_files special p F)"
    and "\<exists>ms. flat_dir (getBackupDir p) ms (remove_file b F)"
    and "e \<in> set (backup_files special p F) \<Longrightarrow> e \<noteq> b \<Longrightarrow> file_at (remove_file b F) e = file_at F e"
proof -
  let ?d = "getBackupDir p"
  obtain search where search: "backup_pattern special (stem p) = Some search"
    using b backup_files_flat [OF flat, of special] by (cases "backup_pattern special (stem p)") auto
  note files = backup_files_flat [OF flat, of special, unfolded search option.case]
  obtain n where n: "n \<in> set ns" "b = path_append ?d n" "is_regular_file F b"
    using b files by auto
  have there: "fs_exists F (path_append ?d n)" using n is_regular_file_exists by simp
  note rem = flat_dir_remove [OF flat n(1) there, folded n(2)]
  have inj: "path_append ?d m = b \<longleftrightarrow> m = n" if "m \<in> set ns" for m
    unfolding n(2) using path_append_inj flat_dir_entry(5) [OF flat] that n(1) by blast
  show "\<exists>ms. flat_dir ?d ms (remove_file b F)" using rem(1) by blast
  have same: "is_regular_file (remove_file b F) (path_append ?d m) = is_regular_file F (path_append ?d m)"
    if "m \<in> set ns" "m \<noteq> n" for m
    by (rule is_regular_file_cong [OF rem(2) [OF that]])
  show "backup_files special p (remove_file b F) = filter (\<lambda>e. e \<noteq> b) (backup_files special p F)"
    unfolding files backup_files_flat [OF rem(1), of special, unfolded search option.case] filter_map filter_filter comp_def
    using inj same by (intro arg_cong [where f = "map (path_append ?d)"] filter_cong) auto
  show "file_at (remove_file b F) e = file_at F e" if e: "e \<in> set (backup_files special p F)" "e \<noteq> b"
  proof -
    obtain m where "m \<in> set ns" "e = path_append ?d m" using e files by auto
    then show ?thesis using rem(2) [of m] inj [of m] e(2) by auto
  qed
qed

lemma distinct_backup_files:
  assumes flat: "flat_dir (getBackupDir p) ns F"
  shows "distinct (backup_files special p F)"
proof (cases "backup_pattern special (stem p)")
  case None
  then show ?thesis unfolding backup_files_flat [OF flat] by simp
next
  case (Some search)
  have "inj_on (path_append (getBackupDir p)) (set ns)"
    using path_append_inj flat_dir_entry(5) [OF flat] by (blast intro: inj_onI)
  moreover have "distinct ns" using flat by (simp add: flat_dir_def)
  ultimately show ?thesis
    unfolding backup_files_flat [OF flat] by (auto simp: Some distinct_map inj_on_def)
qed

section \<open>The limit\<close>

text \<open>\<^verbatim>\<open>std::sort\<close> by a key: a permutation in ascending order.\<close>

definition sort_ok :: "std_sort \<Rightarrow> bool" where
  "sort_ok srt = (\<forall>f xs. mset (srt f xs) = mset xs \<and> sorted (map f (srt f xs)))"

lemma sort_key_ok: "sort_ok sort_key"
  by (simp add: sort_ok_def)

lemma remove_oldest_files:
  assumes "flat_dir (getBackupDir p) ns F" and "mset bs = mset (backup_files special p F)"
  shows "mset (backup_files special p (remove_oldest bs F)) = mset (drop (length bs - MAX_BACKUPS_PER_CONFIG) bs) \<and>
         (\<forall>e\<in>set (backup_files special p (remove_oldest bs F)). file_at (remove_oldest bs F) e = file_at F e)"
  using assms
proof (induction bs arbitrary: F ns)
  case Nil
  then show ?case by simp
next
  case (Cons b bs)
  show ?case
  proof (cases "length (b # bs) > MAX_BACKUPS_PER_CONFIG")
    case False
    then show ?thesis using Cons.prems(2) by simp
  next
    case True
    have b: "b \<in> set (backup_files special p F)" by (metis Cons.prems(2) list.set_intros(1) set_mset_mset)
    note rem = backup_files_remove [OF Cons.prems(1) b]
    obtain ms where ms: "flat_dir (getBackupDir p) ms (remove_file b F)" using rem(2) by blast
    have "distinct (b # bs)"
      using distinct_backup_files [OF Cons.prems(1), of special] Cons.prems(2) by (metis mset_eq_imp_distinct_iff)
    then have "filter (\<lambda>e. e \<noteq> b) (b # bs) = bs" by (auto simp: filter_id_conv)
    then have "mset bs = filter_mset (\<lambda>e. e \<noteq> b) (mset (b # bs))" by (metis mset_filter)
    also have "\<dots> = mset (backup_files special p (remove_file b F))"
      unfolding rem(1) Cons.prems(2) by simp
    finally have left: "mset bs = mset (backup_files special p (remove_file b F))" .
    note ih = Cons.IH [OF ms left]
    have "file_at (remove_file b F) e = file_at F e"
      if "e \<in> set (backup_files special p (remove_oldest bs (remove_file b F)))" for e
    proof (rule rem(3))
      have "e \<in> set bs" using that ih by (metis in_set_dropD set_mset_mset)
      then show "e \<noteq> b" "e \<in> set (backup_files special p F)"
        using \<open>distinct (b # bs)\<close> mset_eq_setD [OF Cons.prems(2)] by auto
    qed
    then show ?thesis using ih True by (simp add: Suc_diff_le)
  qed
qed

lemma limit_keeps_newest:
  fixes special
  assumes srt: "sort_ok srt" and flat: "flat_dir (getBackupDir p) ns F"
  defines "bs \<equiv> srt (modified F) (backup_files special p F)"
  shows "mset (backup_files special p (enforceBackupLimit srt special p F)) =
         mset (drop (length bs - MAX_BACKUPS_PER_CONFIG) bs)"
    and "mset bs = mset (backup_files special p F)" and "sorted (map (modified F) bs)"
    and "e \<in> set (backup_files special p (enforceBackupLimit srt special p F)) \<Longrightarrow>
         file_at (enforceBackupLimit srt special p F) e = file_at F e"
proof -
  show all: "mset bs = mset (backup_files special p F)" "sorted (map (modified F) bs)"
    using srt by (simp_all add: sort_ok_def bs_def)
  note rem = remove_oldest_files [OF flat all(1), unfolded bs_def, folded enforceBackupLimit_def]
  show "mset (backup_files special p (enforceBackupLimit srt special p F)) =
      mset (drop (length bs - MAX_BACKUPS_PER_CONFIG) bs)"
    using rem unfolding bs_def by blast
  show "file_at (enforceBackupLimit srt special p F) e = file_at F e"
    if "e \<in> set (backup_files special p (enforceBackupLimit srt special p F))"
    using rem that by blast
qed

text \<open>A new file in such a directory.\<close>

lemma flat_dir_write:
  fixes nd
  assumes flat: "flat_dir d ns F" and n: "n \<notin> set ns" "n \<noteq> []" "CHR ''/'' \<notin> set n"
    and fresh: "\<not> fs_exists F (path_append d n)"
    and res: "resolve F (path_append d n) = path_append (resolve F d) n"
  defines "G \<equiv> set_node (path_append d n) nd F"
  shows "flat_dir d (ns @ [n]) G" and "m \<in> set ns \<Longrightarrow> file_at G (path_append d m) = file_at F (path_append d m)"
    and "file_at G (path_append d n) = Some nd"
proof -
  have dir: "resolve F d \<noteq> []" "last (resolve F d) \<noteq> CHR ''/''" using flat by (simp_all add: flat_dir_def)
  have k: "filename (resolve F (path_append d n)) = n" "parent_path (resolve F (path_append d n)) = resolve F d"
    unfolding res using filename_path_append [OF n(3)] parent_path_append [OF _ n(2,3), of "resolve F d"] dir
    by (simp_all add: dir_path_def)
  have not_dir: "resolve F (path_append d n) \<noteq> resolve F d"
    unfolding res using not_absolute [OF n(2,3)] n(2) by (auto simp: path_append_def)
  have G: "resolve G = resolve F" "nodes G = (nodes F)(resolve F d := add_entry n (nodes F (resolve F d)),
      resolve F (path_append d n) \<mapsto> nd)"
    using fresh k by (simp_all add: G_def set_node_def Let_def fs_exists_def file_at_def)
  have "file_at G d = Some (Directory (ns @ [n]))"
    using G flat not_dir n(1) by (auto simp: file_at_def flat_dir_def add_entry_def)
  then show "flat_dir d (ns @ [n]) G" using flat G(1) n res by (auto simp: flat_dir_def)
  show "file_at G (path_append d n) = Some nd" unfolding G_def by (rule file_at_set_node)
  show "file_at G (path_append d m) = file_at F (path_append d m)" if m: "m \<in> set ns"
  proof -
    note am = flat_dir_entry [OF flat m]
    have "resolve F (path_append d m) \<noteq> resolve F (path_append d n)"
      unfolding am(1) res using path_append_inj [OF am(5) not_absolute [OF n(2,3)]] m n(1) by auto
    then show ?thesis using G am(4) by (simp add: file_at_def)
  qed
qed

text \<open>The old and the new: which are kept.\<close>

lemma limit_bounds:
  fixes special
  assumes srt: "sort_ok srt" and flat: "flat_dir (getBackupDir p) ns F"
  defines "old \<equiv> backup_files special p F"
    and "kept \<equiv> backup_files special p (enforceBackupLimit srt special p F)"
  shows "length kept = min MAX_BACKUPS_PER_CONFIG (length old)" and "set kept \<subseteq> set old"
    and "e \<in> set old \<Longrightarrow> e \<notin> set kept \<Longrightarrow> k \<in> set kept \<Longrightarrow> modified F e \<le> modified F k"
    and "e \<in> set old \<Longrightarrow> (\<And>k. k \<in> set old \<Longrightarrow> k \<noteq> e \<Longrightarrow> modified F k < modified F e) \<Longrightarrow> e \<in> set kept"
proof -
  let ?bs = "srt (modified F) old"
  let ?n = "length ?bs - MAX_BACKUPS_PER_CONFIG"
  note lim = limit_keeps_newest [OF srt flat, where special = special, folded old_def kept_def]
  have sets: "set ?bs = set old" "set kept = set (drop ?n ?bs)" "length ?bs = length old"
    using lim(1,2) by (metis set_mset_mset size_mset)+
  show "length kept = min MAX_BACKUPS_PER_CONFIG (length old)"
    using arg_cong [where f = size, OF lim(1)] sets(3) by simp
  show "set kept \<subseteq> set old" using sets by (metis set_drop_subset)
  have order: "modified F a \<le> modified F c" if "a \<in> set (take ?n ?bs)" "c \<in> set (drop ?n ?bs)" for a c
    using lim(3) that by (metis append_take_drop_id image_eqI list.set_map map_append sorted_append)
  have split: "a \<in> set (take ?n ?bs) \<or> a \<in> set kept" if "a \<in> set old" for a
    using that sets by (metis Un_iff append_take_drop_id set_append)
  show "modified F e \<le> modified F k" if "e \<in> set old" "e \<notin> set kept" "k \<in> set kept"
    using split [OF that(1)] order that sets(2) by blast
  show "e \<in> set kept" if e: "e \<in> set old" and top: "\<And>k. k \<in> set old \<Longrightarrow> k \<noteq> e \<Longrightarrow> modified F k < modified F e"
  proof (rule ccontr)
    assume out: "e \<notin> set kept"
    then have early: "e \<in> set (take ?n ?bs)" using split [OF e] by blast
    then have "MAX_BACKUPS_PER_CONFIG < length ?bs" by (cases "?n = 0") auto
    then have "drop ?n ?bs \<noteq> []" by (simp add: MAX_BACKUPS_PER_CONFIG_def)
    then obtain k where k: "k \<in> set kept" using sets(2) by (metis last_in_set)
    then have "modified F e \<le> modified F k" "k \<in> set old" "k \<noteq> e"
      using order early sets out by (blast, metis in_set_dropD, blast)
    then show False using top [of k] by simp
  qed
qed

section \<open>The directory of the backups\<close>

text \<open>It is there, with the entries given, or it is not there yet, and the configuration's own directory is.
  Then \<^verbatim>\<open>create_directories\<close> makes it, empty.\<close>

definition backup_dir :: "string \<Rightarrow> string list \<Rightarrow> File_System \<Rightarrow> bool" where
  "backup_dir p ns F \<longleftrightarrow> flat_dir (getBackupDir p) ns F \<or>
     (ns = [] \<and> \<not> fs_exists F (getBackupDir p) \<and> filename p \<noteq> [] \<and>
      (parent_path p = [] \<or> is_directory F (parent_path p)) \<and>
      resolve F (getBackupDir p) \<noteq> [] \<and> last (resolve F (getBackupDir p)) \<noteq> CHR ''/'')"

definition with_backup_dir :: "string \<Rightarrow> File_System \<Rightarrow> File_System option" where
  "with_backup_dir p F = (if \<not> fs_exists F (getBackupDir p) then create_directories (getBackupDir p) F else Some F)"

lemma with_backup_dir_result:
  fixes special
  assumes dir: "backup_dir p ns F" and made: "with_backup_dir p F = Some F0"
  shows "flat_dir (getBackupDir p) ns F0" and "resolve F0 = resolve F" and "clock F0 = clock F"
    and "resolve F q \<noteq> resolve F (getBackupDir p) \<Longrightarrow> read_file F0 q = read_file F q"
    and "resolve F q \<noteq> resolve F (getBackupDir p) \<Longrightarrow> fs_exists F0 q = fs_exists F q"
    and "backup_files special p F0 = backup_files special p F"
    and "e \<in> set (backup_files special p F) \<Longrightarrow> modified F0 e = modified F e"
proof -
  let ?d = "getBackupDir p"
  have "flat_dir ?d ns F0 \<and> resolve F0 = resolve F \<and> clock F0 = clock F \<and>
      (resolve F q \<noteq> resolve F ?d \<longrightarrow> read_file F0 q = read_file F q) \<and>
      (resolve F q \<noteq> resolve F ?d \<longrightarrow> fs_exists F0 q = fs_exists F q) \<and>
      backup_files special p F0 = backup_files special p F \<and>
      (e \<in> set (backup_files special p F) \<longrightarrow> modified F0 e = modified F e)"
  proof (cases "flat_dir ?d ns F")
    case True
    then have "F0 = F" using made by (auto simp: with_backup_dir_def flat_dir_def fs_exists_def)
    then show ?thesis using True by simp
  next
    case False
    then have new: "ns = []" "\<not> fs_exists F ?d" "filename p \<noteq> []" "parent_path p = [] \<or> is_directory F (parent_path p)"
      and res: "resolve F ?d \<noteq> []" "last (resolve F ?d) \<noteq> CHR ''/''"
      using dir by (simp_all add: backup_dir_def)
    have up: "parent_path ?d = parent_path p"
      unfolding getBackupDir_def by (intro parent_path_append dir_path_parent [OF new(3)]) simp_all
    have d: "?d \<noteq> []" by (simp add: getBackupDir_def path_append_def is_absolute_def)
    then obtain k where k: "length ?d = Suc k" by (cases "?d") auto
    have above: "(if parent_path ?d = [] then Some F else create_dirs (Suc k) (parent_path ?d) F) = Some F"
      using new(4) unfolding up by auto
    have "\<not> is_directory F ?d" using new(2) by (auto simp: is_directory_def fs_exists_def)
    moreover have "parent_path ?d \<noteq> ?d" using new(2,4) d unfolding up by (auto simp: is_directory_def fs_exists_def)
    ultimately have F0: "F0 = set_node ?d (Directory []) F"
      using made new(2) above by (simp add: with_backup_dir_def create_directories_def k del: create_dirs.simps(1))
    have flat: "flat_dir ?d ns F0"
      using res new(1) by (simp add: flat_dir_def F0 file_at_set_node)
    have other: "read_file F0 q = read_file F q" "fs_exists F0 q = fs_exists F q"
      if "resolve F q \<noteq> resolve F ?d"
      using that new(2) read_file_set_other [OF that]
      by (auto simp: F0 set_node_def Let_def file_at_def fs_exists_def add_entry_def
          split: option.splits file_node.splits)
    have "backup_files special p F0 = []" using flat unfolding backup_files_flat [OF flat] new(1) by (simp split: option.split)
    moreover have "backup_files special p F = []" using new(2) by (simp add: backup_files_def Let_def)
    ultimately show ?thesis using flat other by (auto simp: F0)
  qed
  then show "flat_dir ?d ns F0" "resolve F0 = resolve F" "clock F0 = clock F"
    "resolve F q \<noteq> resolve F ?d \<Longrightarrow> read_file F0 q = read_file F q"
    "resolve F q \<noteq> resolve F ?d \<Longrightarrow> fs_exists F0 q = fs_exists F q"
    "backup_files special p F0 = backup_files special p F"
    "e \<in> set (backup_files special p F) \<Longrightarrow> modified F0 e = modified F e"
    by blast+
qed

section \<open>Properties\<close>

text \<open>Copying into the directory and removing the oldest.\<close>

lemma new_backup_is_kept:
  fixes special
  assumes srt: "sort_ok srt" and flat: "flat_dir (getBackupDir p) ns F"
    and plain: "plain_stem (stem p)" and time: "usual_time now"
    and fresh: "backup_name (stem p) now \<notin> set ns"
      "\<not> fs_exists F (path_append (getBackupDir p) (backup_name (stem p) now))"
    and res: "resolve F (path_append (getBackupDir p) (backup_name (stem p) now)) =
        path_append (resolve F (getBackupDir p)) (backup_name (stem p) now)"
    and newest: "\<And>e. e \<in> set (backup_files special p F) \<Longrightarrow> modified F e < int (clock F)"
    and copy: "copy_file p b F = Some F1" and b: "b = path_append (getBackupDir p) (backup_name (stem p) now)"
  defines "F' \<equiv> enforceBackupLimit srt special p F1"
  defines "old \<equiv> backup_files special p F" and "kept \<equiv> backup_files special p F'"
  shows "b \<in> set kept \<and> read_file F' b = read_file F p \<and>
         length kept = min MAX_BACKUPS_PER_CONFIG (Suc (length old)) \<and> set kept \<subseteq> insert b (set old) \<and>
         (\<forall>e\<in>set old - set kept. \<forall>k\<in>set kept \<inter> set old. modified F e \<le> modified F k)"
proof -
  let ?d = "getBackupDir p" let ?n = "backup_name (stem p) now" let ?b = "path_append ?d ?n"
  obtain c where c: "read_file F p = Some c" and F1: "F1 = set_node ?b (Regular_File c (clock F)) F"
    using copy unfolding b by (auto simp: copy_file_def write_file_def split: option.splits if_splits)
  have n: "?n \<noteq> []" "CHR ''/'' \<notin> set ?n"
    using backup_tail_name(3) [OF time, of "stem p"] backup_name_no_slash by auto
  note wr = flat_dir_write [OF flat fresh(1) n fresh(2) res, where nd = "Regular_File c (clock F)", folded F1]
  obtain search where search: "backup_pattern special (stem p) = Some search" "search ?n"
    using plain backup_tail_name [OF time, of "stem p"] by (simp add: backup_pattern_def)
  have "filter (\<lambda>n. is_regular_file F1 (path_append ?d n) \<and> search n) ns =
      filter (\<lambda>n. is_regular_file F (path_append ?d n) \<and> search n) ns"
    using is_regular_file_cong [OF wr(2)] by (intro filter_cong) simp_all
  moreover have "is_regular_file F1 ?b" using wr(3) by (simp add: is_regular_file_def)
  ultimately have files: "backup_files special p F1 = old @ [?b]"
    unfolding old_def backup_files_flat [OF flat] backup_files_flat [OF wr(1)] search(1)
    using search(2) by simp
  have "?b \<notin> set old"
    using distinct_backup_files [OF wr(1), where special = special] unfolding files by simp
  moreover have "\<exists>m\<in>set ns. e = path_append ?d m" if "e \<in> set old" for e
    using that by (auto simp: old_def backup_files_flat [OF flat] search(1))
  ultimately have old: "file_at F1 e = file_at F e \<and> e \<noteq> ?b" if "e \<in> set old" for e
    using wr(2) that by metis
  note lim = limit_bounds [OF srt wr(1), where special = special, folded F'_def, folded kept_def, unfolded files]
  have same: "modified F1 e = modified F e" if "e \<in> set old" for e
    using old [OF that] by (simp add: modified_def)
  have now: "modified F1 ?b = int (clock F)" using wr(3) by (simp add: modified_def)
  have kept: "?b \<in> set kept"
  proof (rule lim(4))
    show "modified F1 k < modified F1 ?b" if "k \<in> set (old @ [?b])" "k \<noteq> ?b" for k
      using that same newest [of k] now by (auto simp: old_def)
  qed simp
  then have "file_at F' ?b = file_at F1 ?b"
    unfolding F'_def kept_def by (rule limit_keeps_newest(4) [OF srt wr(1)])
  then have "read_file F' b = read_file F p" using wr(3) c b by (simp add: read_file_def)
  moreover have "modified F e \<le> modified F k" if "e \<in> set old - set kept" "k \<in> set kept \<inter> set old" for e k
    using lim(3) [of e k] same [of e] same [of k] that by simp
  ultimately show ?thesis using kept lim(1,2) b by auto
qed

lemma createBackup_made:
  fixes special
  assumes made: "createBackup now srt special p F = (b, F')" "b \<noteq> []"
  obtains F0 F1 where "with_backup_dir p F = Some F0" and "copy_file p b F0 = Some F1"
    and "b = path_append (getBackupDir p) (backup_name (stem p) now)"
    and "F' = enforceBackupLimit srt special p F1" and "is_regular_file F p"
proof -
  obtain r F1 where copies: "copy_to_backups now p F = (r, F1)" by fastforce
  have reg: "is_regular_file F p" and "r = Some b" and F': "F' = enforceBackupLimit srt special p F1"
    using made copies by (auto simp: createBackup_def fileExists_def split: if_splits option.splits)
  then have copied: "copy_to_backups now p F = (Some b, F1)" using copies by simp
  then obtain F0 where F0: "with_backup_dir p F = Some F0"
    by (cases "with_backup_dir p F") (simp_all add: copy_to_backups_def with_backup_dir_def Let_def)
  have "copy_file p b F0 = Some F1 \<and> b = path_append (getBackupDir p) (backup_name (stem p) now)"
    using copied unfolding copy_to_backups_def Let_def F0 [unfolded with_backup_dir_def] option.case
    by (auto split: option.splits)
  then show thesis using that F0 F' reg by blast
qed

section \<open>Properties\<close>

text \<open>C23: A successful backup of a configuration is there when the call returns, as a copy of the
  configuration: the first, for which the backup directory is made, as well as any later one. Ten
  are kept, or all when there are fewer; no other file becomes a backup, and no old one that is kept is
  older than one that is gone. The name of the configuration has no characters special in a pattern,
  the name of the backup, which is the time, is new in the directory, the time has four digits for
  the year and as usual for the rest, and the clock is ahead of the old backups. The backup
  directory has no links and no name twice in it, or it is not there and the configuration's directory is.\<close>

theorem newest_backups_are_kept:
  fixes special
  assumes srt: "sort_ok srt" and dir: "backup_dir p ns F"
    and plain: "plain_stem (stem p)" and time: "usual_time now"
    and fresh: "backup_name (stem p) now \<notin> set ns"
      "\<not> fs_exists F (path_append (getBackupDir p) (backup_name (stem p) now))"
    and res: "resolve F (path_append (getBackupDir p) (backup_name (stem p) now)) =
        path_append (resolve F (getBackupDir p)) (backup_name (stem p) now)"
    and newest: "\<And>e. e \<in> set (backup_files special p F) \<Longrightarrow> modified F e < int (clock F)"
    and made: "createBackup now srt special p F = (b, F')" "b \<noteq> []"
  defines "old \<equiv> backup_files special p F" and "kept \<equiv> backup_files special p F'"
  shows "b \<in> set kept \<and> read_file F' b = read_file F p \<and>
         length kept = min MAX_BACKUPS_PER_CONFIG (Suc (length old)) \<and> set kept \<subseteq> insert b (set old) \<and>
         (\<forall>e\<in>set old - set kept. \<forall>k\<in>set kept \<inter> set old. modified F e \<le> modified F k)"
proof -
  let ?d = "getBackupDir p" let ?n = "backup_name (stem p) now" let ?b = "path_append ?d ?n"
  obtain F0 F1 where F0: "with_backup_dir p F = Some F0" and copy: "copy_file p b F0 = Some F1" and b: "b = ?b"
    and F': "F' = enforceBackupLimit srt special p F1" and reg: "is_regular_file F p"
    using made by (rule createBackup_made)
  note dir0 = with_backup_dir_result [OF dir F0]
  have "?n \<noteq> []" "CHR ''/'' \<notin> set ?n"
    using backup_tail_name(3) [OF time, of "stem p"] backup_name_no_slash by auto
  then have "resolve F ?b \<noteq> resolve F ?d"
    unfolding res using not_absolute [of ?n] by (auto simp: path_append_def)
  from dir0(5) [OF this] have fresh0: "\<not> fs_exists F0 ?b" using fresh(2) by simp
  have "resolve F p \<noteq> resolve F ?d"
  proof
    assume same: "resolve F p = resolve F ?d"
    then have "is_regular_file F ?d" using reg by (simp add: is_regular_file_def file_at_def)
    moreover from this have "fs_exists F ?d" by (rule is_regular_file_exists)
    ultimately show False using dir by (auto simp: backup_dir_def flat_dir_def is_regular_file_def)
  qed
  from dir0(4) [OF this] have read: "read_file F0 p = read_file F p" .
  have older: "modified F0 e < int (clock F0)" if "e \<in> set (backup_files special p F0)" for e
    using that newest [of e] dir0(7) [of e special] unfolding dir0(3,6) by simp
  note result = new_backup_is_kept [OF srt dir0(1) plain time fresh(1) fresh0 res [folded dir0(2)] _ copy b, where special = special,
      folded F', unfolded dir0(6) [of special] read]
  have "modified F e \<le> modified F k" if "e \<in> set old - set kept" "k \<in> set kept \<inter> set old" for e k
  proof -
    have "modified F0 e \<le> modified F0 k"
      using result [OF older [unfolded dir0(6)]] that unfolding old_def kept_def by blast
    then show ?thesis using dir0(7) [of e special] dir0(7) [of k special] that by (simp add: old_def)
  qed
  then show ?thesis using result [OF older [unfolded dir0(6)]] unfolding old_def kept_def by blast
qed

text \<open>A backup is restored to the file with the configuration's name and the extension
  \<^verbatim>\<open>.mayu\<close>, so to the configuration it was made of exactly if that is its extension: what was
  copied from keys.json is written to keys.mayu.\<close>

theorem backup_is_restored_to_mayu:
  assumes made: "createBackup now srt special p F = (b, F')" "b \<noteq> []"
    and p: "filename p \<noteq> []" "p = path_append (parent_path p) (filename p)" "\<not> is_absolute (filename p)"
    and s: "list_all (\<lambda>c. c \<noteq> CHR 0x0A \<and> c \<noteq> CHR 0x0D) (stem p)" and time: "usual_time now"
  shows "extractOriginalPath b = path_append (parent_path p) (stem p @ ''.mayu'') \<and>
         (extractOriginalPath b = p \<longleftrightarrow> extension p = ''.mayu'')"
proof -
  have stem: "stem p \<noteq> []" using p(1) by (auto simp: stem_def Let_def split: option.splits list.splits)
  have "b = path_append (getBackupDir p) (backup_name (stem p) now)"
    using made by (auto simp: createBackup_def copy_to_backups_def Let_def split: if_splits option.splits)
  then have orig: "extractOriginalPath b = path_append (parent_path p) (stem p @ ''.mayu'')"
    using original_of_backup [OF p(1) s stem time] by simp
  have "\<not> is_absolute (stem p @ ''.mayu'')"
    using not_absolute [of "stem p @ ''.mayu''"] stem_no_slash [of p] by simp
  then have "path_append (parent_path p) (stem p @ ''.mayu'') = path_append (parent_path p) (filename p) \<longleftrightarrow>
      stem p @ ''.mayu'' = stem p @ extension p"
    using path_append_inj p(3) stem_extension [of p] by simp
  then show ?thesis using orig p(2) by auto
qed

text \<open>The name of a configuration is searched for in the names of the backups, so a configuration
  whose name ends in that of another in the same directory has its backups counted, listed and
  removed as the other's too.\<close>

lemma backups_are_shared:
  assumes "parent_path q = parent_path p" and "plain_stem (stem p)" "plain_stem (stem q)"
    and "suffix (stem p) (stem q)"
  shows "set (backup_files special q F) \<subseteq> set (backup_files special p F)"
proof -
  have "getBackupDir q = getBackupDir p" using assms(1) by (simp add: getBackupDir_def)
  then show ?thesis
    using assms(2-4) by (auto simp: backup_files_def Let_def backup_pattern_def dest: suffix_order.trans)
qed

section \<open>A directory with ten backups, and one with none\<close>

definition example_time :: local_time where
  "example_time =
     \<lparr>tm_year = 2024, tm_mon = 5, tm_mday = 17, tm_hour = 8, tm_min = 30, tm_sec = 0, tm_ms = 42\<rparr>"

text \<open>The backup of hour h, of the year before.\<close>

definition example_backup :: "char \<Rightarrow> string" where
  "example_backup h = ''keys_20230517_0'' @ [h] @ ''3000_042.mayu.bak''"

definition example_backups :: "string \<Rightarrow> File_System" where
  "example_backups hs =
     \<lparr>resolve = (\<lambda>p. p),
      nodes = [''/c'' \<mapsto> Directory [''keys.mayu'', ''.backups''], ''/c/keys.mayu'' \<mapsto> Regular_File ''new'' 99,
        ''/c/.backups'' \<mapsto> Directory (map example_backup hs)] ++
        map_of (map (\<lambda>h. (''/c/.backups/'' @ example_backup h, Regular_File [h] (of_char h))) hs),
      current_path = ''/'', absolute_dir = parent_path, environment = Map.empty, clock = 100\<rparr>"

definition example_first :: File_System where
  "example_first =
     \<lparr>resolve = (\<lambda>p. p), nodes = [''/c'' \<mapsto> Directory [''keys.mayu''], ''/c/keys.mayu'' \<mapsto> Regular_File ''new'' 9],
      current_path = ''/'', absolute_dir = parent_path, environment = Map.empty, clock = 10\<rparr>"

text \<open>An eleventh backup, for which one goes, and a first backup.\<close>

theorem newest_backups_are_kept_witness:
  "(\<exists>b F'. createBackup example_time sort_key (\<lambda>_. None) ''/c/keys.mayu'' (example_backups ''0123456789'') = (b, F') \<and>
     b \<in> set (backup_files (\<lambda>_. None) ''/c/keys.mayu'' F') \<and> read_file F' b = Some ''new'' \<and>
     length (backup_files (\<lambda>_. None) ''/c/keys.mayu'' (example_backups ''0123456789'')) = 10 \<and>
     length (backup_files (\<lambda>_. None) ''/c/keys.mayu'' F') = 10) \<and>
   (\<exists>b F'. createBackup example_time sort_key (\<lambda>_. None) ''/c/keys.mayu'' example_first = (b, F') \<and>
     b \<in> set (backup_files (\<lambda>_. None) ''/c/keys.mayu'' F') \<and> read_file F' b = Some ''new'' \<and>
     length (backup_files (\<lambda>_. None) ''/c/keys.mayu'' F') = 1)"
proof (intro conjI)
  let ?p = "''/c/keys.mayu''" let ?n = "backup_name (stem ?p) example_time"
  have name: "plain_stem (stem ?p)" "usual_time example_time" by code_simp+
  let ?F = "example_backups ''0123456789''"
  have "fst (createBackup example_time sort_key (\<lambda>_. None) ?p ?F) \<noteq> []" by code_simp
  then obtain b F' where made: "createBackup example_time sort_key (\<lambda>_. None) ?p ?F = (b, F')" "b \<noteq> []"
    by (metis fst_conv surj_pair)
  have dir: "backup_dir ?p (map example_backup ''0123456789'') ?F"
    and side: "?n \<notin> set (map example_backup ''0123456789'')" "\<not> fs_exists ?F (path_append (getBackupDir ?p) ?n)"
      "resolve ?F (path_append (getBackupDir ?p) ?n) = path_append (resolve ?F (getBackupDir ?p)) ?n"
    by code_simp+
  have older: "list_all (\<lambda>e. modified ?F e < int (clock ?F)) (backup_files (\<lambda>_. None) ?p ?F)"
    and ten: "length (backup_files (\<lambda>_. None) ?p ?F) = MAX_BACKUPS_PER_CONFIG" by code_simp+
  have "read_file ?F ?p = Some ''new''" by code_simp
  with newest_backups_are_kept [OF sort_key_ok dir name side _ made] older made(1) ten
  show "\<exists>b F'. createBackup example_time sort_key (\<lambda>_. None) ?p ?F = (b, F') \<and>
     b \<in> set (backup_files (\<lambda>_. None) ?p F') \<and> read_file F' b = Some ''new'' \<and>
     length (backup_files (\<lambda>_. None) ?p ?F) = 10 \<and> length (backup_files (\<lambda>_. None) ?p F') = 10"
    by (simp add: list_all_iff MAX_BACKUPS_PER_CONFIG_def)
next
  let ?p = "''/c/keys.mayu''" let ?n = "backup_name (stem ?p) example_time" let ?F = example_first
  have name: "plain_stem (stem ?p)" "usual_time example_time" by code_simp+
  have "fst (createBackup example_time sort_key (\<lambda>_. None) ?p ?F) \<noteq> []" by code_simp
  then obtain b F' where made: "createBackup example_time sort_key (\<lambda>_. None) ?p ?F = (b, F')" "b \<noteq> []"
    by (metis fst_conv surj_pair)
  have dir: "backup_dir ?p [] ?F"
    and side: "?n \<notin> set []" "\<not> fs_exists ?F (path_append (getBackupDir ?p) ?n)"
      "resolve ?F (path_append (getBackupDir ?p) ?n) = path_append (resolve ?F (getBackupDir ?p)) ?n"
      "backup_files (\<lambda>_. None) ?p ?F = []" "read_file ?F ?p = Some ''new''"
    by code_simp+
  from newest_backups_are_kept [OF sort_key_ok dir name side(1-3) _ made] made(1) side(4,5)
  show "\<exists>b F'. createBackup example_time sort_key (\<lambda>_. None) ?p ?F = (b, F') \<and>
     b \<in> set (backup_files (\<lambda>_. None) ?p F') \<and> read_file F' b = Some ''new'' \<and>
     length (backup_files (\<lambda>_. None) ?p F') = 1"
    by (simp add: MAX_BACKUPS_PER_CONFIG_def)
qed

theorem backup_is_restored_to_mayu_witness:
  "extractOriginalPath (fst (createBackup example_time sort_key (\<lambda>_. None) ''/c/keys.mayu'' example_first)) =
     ''/c/keys.mayu''"
proof -
  let ?p = "''/c/keys.mayu''"
  have "fst (createBackup example_time sort_key (\<lambda>_. None) ?p example_first) \<noteq> []" by code_simp
  moreover obtain b F' where made: "createBackup example_time sort_key (\<lambda>_. None) ?p example_first = (b, F')"
    by (metis surj_pair)
  ultimately have "b \<noteq> []" by simp
  have side: "filename ?p \<noteq> []" "?p = path_append (parent_path ?p) (filename ?p)" "\<not> is_absolute (filename ?p)"
    "list_all (\<lambda>c. c \<noteq> CHR 0x0A \<and> c \<noteq> CHR 0x0D) (stem ?p)" "usual_time example_time" "extension ?p = ''.mayu''"
    by code_simp+
  have "extractOriginalPath b = ?p"
    using backup_is_restored_to_mayu [OF made \<open>b \<noteq> []\<close> side(1-5)] side(6) by (elim conjE) (rule iffD2)
  then show ?thesis using made by simp
qed

end
