(* ===== verification/Named_Backups.thy ===== *)
theory Named_Backups
  imports Backup_Limit "HOL-Library.List_Lexorder" "HOL-Library.Char_ord"
begin

text \<open>
  The second implementation of backups (src/core/settings/config_backup.cpp): copies named after
  the whole file name, pruned by name. A failure of the file system is False.
\<close>

section \<open>The code\<close>

definition cb_timestamp :: "local_time \<Rightarrow> string" where
  "cb_timestamp t = decimal (tm_year t) @ padded 2 (tm_mon t) @ padded 2 (tm_mday t) @
     padded 2 (tm_hour t) @ padded 2 (tm_min t) @ padded 2 (tm_sec t)"

definition BAK :: string where "BAK = ''.bak.''"

definition cb_createBackup :: "local_time \<Rightarrow> string \<Rightarrow> File_System \<Rightarrow> bool \<times> File_System" where
  "cb_createBackup now p F =
     (if \<not> fs_exists F p then (False, F)
      else case create_directories (getBackupDir p) F of
             None \<Rightarrow> (False, F)
           | Some F1 \<Rightarrow>
               (case copy_file p (path_append (getBackupDir p) (filename p @ BAK @ cb_timestamp now)) F1 of
                  None \<Rightarrow> (False, F1) | Some F2 \<Rightarrow> (True, F2)))"

definition cb_listBackups :: "string \<Rightarrow> File_System \<Rightarrow> string list" where
  "cb_listBackups p F =
     (let backupDir = getBackupDir p in
      if \<not> fs_exists F backupDir \<or> \<not> is_directory F backupDir then []
      else filter (\<lambda>e. is_regular_file F e \<and> prefix (filename p @ BAK) (filename e))
             (directory_entries F backupDir))"

text \<open>\<^verbatim>\<open>substr(0, find(pat))\<close>: all of it when there is no occurrence.\<close>

fun before_first :: "string \<Rightarrow> string \<Rightarrow> string" where
  "before_first pat [] = []"
| "before_first pat (c # s) = (if prefix pat (c # s) then [] else c # before_first pat s)"

definition cb_originalPath :: "string \<Rightarrow> string" where
  "cb_originalPath b = path_append (parent_path (parent_path b)) (before_first BAK (filename b))"

definition cb_restoreBackup :: "string \<Rightarrow> File_System \<Rightarrow> bool \<times> File_System" where
  "cb_restoreBackup b F =
     (if \<not> fs_exists F b then (False, F)
      else case copy_file b (cb_originalPath b) F of None \<Rightarrow> (False, F) | Some F1 \<Rightarrow> (True, F1))"

definition cb_pruneBackups :: "string \<Rightarrow> nat \<Rightarrow> File_System \<Rightarrow> File_System" where
  "cb_pruneBackups p maxCount F =
     (let backups = cb_listBackups p F in
      if length backups \<le> maxCount then F
      else fold remove_file (drop maxCount (rev (sort backups))) F)"

section \<open>Which file is restored\<close>

lemma prefix_append_short:
  "length p \<le> length u \<Longrightarrow> prefix p (u @ v) \<longleftrightarrow> prefix p u"
  by (metis prefix_length_prefix prefix_order.trans prefixI)

lemma before_first_append:
  assumes "pat \<noteq> []"
  shows "before_first pat (s @ pat @ r) = s \<longleftrightarrow> \<not> sublist pat (s @ butlast pat)"
proof (induction s)
  case Nil
  have "\<not> sublist pat (butlast pat)"
    using assms sublist_length_le [of pat "butlast pat"] by (cases pat) auto
  moreover have "prefix pat (pat @ r)" by simp
  then have "before_first pat (pat @ r) = []" by (cases "pat @ r") (simp_all add: assms)
  ultimately show ?case by simp
next
  case (Cons c s)
  have "(c # s @ butlast pat) @ [last pat] @ r = c # s @ pat @ r" using assms by simp
  moreover have "length pat \<le> length (c # s @ butlast pat)" by simp
  ultimately have "prefix pat (c # s @ pat @ r) \<longleftrightarrow> prefix pat (c # s @ butlast pat)"
    by (metis prefix_append_short)
  then show ?case using Cons.IH by (auto simp: sublist_Cons_right)
qed

text \<open>The copy is restored to its original exactly if \<^verbatim>\<open>.bak.\<close> does not occur in the name, also
  with the first four of these characters behind it.\<close>

lemma cb_timestamp_no_slash: "CHR ''/'' \<notin> set (cb_timestamp t)"
  using digits_no_slash [OF isdigit_decimal] by (auto simp: cb_timestamp_def padded_def)

lemma named_backup_restored:
  fixes now
  assumes "filename p \<noteq> []" "p = path_append (parent_path p) (filename p)"
  defines "b \<equiv> path_append (getBackupDir p) (filename p @ BAK @ cb_timestamp now)"
  shows "cb_originalPath b = p \<longleftrightarrow> \<not> sublist BAK (filename p @ butlast BAK)"
proof -
  let ?n = "filename p @ BAK @ cb_timestamp now"
  have n: "?n \<noteq> []" "CHR ''/'' \<notin> set ?n"
    using assms(1) filename_no_slash [of p] cb_timestamp_no_slash [of now] by (simp_all add: BAK_def)
  have "parent_path b = getBackupDir p"
    unfolding b_def by (intro parent_path_append n) (simp add: getBackupDir_def dir_path_append)
  moreover have "parent_path (getBackupDir p) = parent_path p"
    unfolding getBackupDir_def by (intro parent_path_append dir_path_parent [OF assms(1)]) simp_all
  moreover have "filename b = ?n" unfolding b_def by (rule filename_path_append [OF n(2)])
  ultimately have orig: "cb_originalPath b = path_append (parent_path p) (before_first BAK ?n)"
    by (simp add: cb_originalPath_def)
  have sub: "set (before_first BAK s) \<subseteq> set s" for s by (induction s) auto
  have "before_first BAK ?n \<noteq> [] \<Longrightarrow> \<not> is_absolute (before_first BAK ?n)"
    using not_absolute sub [of ?n] n(2) by blast
  then have "\<not> is_absolute (before_first BAK ?n)"
    by (cases "before_first BAK ?n = []") (auto simp: is_absolute_def)
  moreover have "\<not> is_absolute (filename p)"
    using not_absolute [OF assms(1) filename_no_slash] .
  ultimately have "cb_originalPath b = path_append (parent_path p) (filename p) \<longleftrightarrow> before_first BAK ?n = filename p"
    unfolding orig by (rule path_append_inj)
  also have "\<dots> \<longleftrightarrow> \<not> sublist BAK (filename p @ butlast BAK)"
    by (rule before_first_append) (simp add: BAK_def)
  finally show ?thesis using assms(2) by simp
qed

end
