(* ===== verification/Input_Queue.thy ===== *)
theory Input_Queue
  imports Prelude "HOL-Library.Sublist"
begin

text \<open>
  The queue between the threads that read the keyboards and the engine's handler thread
  (src/core/engine/engine_lifecycle.cpp, engine_keyboard_handler.cpp), with the starting and
  stopping of the engine. Each call of the platform's mutex and event (src/platform/linux/
  sync_linux.cpp) and each access to the queue is one step of a thread, and the threads' steps
  interleave in any order. The event resets by hand. The C library is a parameter: what its thread
  calls answer to the wait, which makes them with the address of an event.
\<close>

section \<open>State\<close>

text \<open>A mutex that is not created yet is a null handle: acquiring and releasing it fails, and the
  callers do not look at the result.\<close>

datatype thread = Main | Handler | Reader nat

datatype lock = No_Mutex | Free | Held thread

datatype 'e handler_pc =
    H_Off | H_Lock | H_Test | H_Quit | H_Reset | H_Unlock | H_Wait | H_Relock
  | H_Drained 'e | H_Taken 'e | H_Process 'e | H_Done

datatype 'e reader_pc = R_Idle | R_Lock 'e | R_Push 'e | R_Set | R_Unlock

datatype main_pc =
    M_Off | M_Start_Queue | M_Start_Mutex | M_Start_Event | M_Start_Thread | M_On
  | M_Uninstall | M_Stop_Lock | M_Stop_Delete | M_Stop_Set | M_Stop_Unlock | M_Stop_Wait
  | M_Stop_Event | M_Stop_Mutex

record 'e Input_Queue =
  iq_mutex :: lock
  iq_queue :: "'e list option"
  iq_event :: "bool option"
  iq_hooked :: bool
  iq_readers :: nat
  iq_main :: main_pc
  iq_handler :: "'e handler_pc"
  iq_reader :: "nat \<Rightarrow> 'e reader_pc"
  iq_pushed :: "'e list"
  iq_handled :: "'e list"
  iq_fault :: bool

text \<open>With a number of reader threads, one for each device.\<close>

definition Input_Queue_init :: "nat \<Rightarrow> 'e Input_Queue" where
  "Input_Queue_init n =
     \<lparr>iq_mutex = No_Mutex, iq_queue = None, iq_event = None, iq_hooked = False, iq_readers = n, iq_main = M_Off,
      iq_handler = H_Off, iq_reader = (\<lambda>_. R_Idle), iq_pushed = [], iq_handled = [], iq_fault = False\<rparr>"

section \<open>The platform's calls\<close>

text \<open>\<^verbatim>\<open>acquireMutex\<close> without a time limit: None while another thread holds it.\<close>

definition acquireMutex :: "thread \<Rightarrow> 'e Input_Queue \<Rightarrow> 'e Input_Queue option" where
  "acquireMutex t s =
     (case iq_mutex s of No_Mutex \<Rightarrow> Some s | Free \<Rightarrow> Some (s\<lparr>iq_mutex := Held t\<rparr>) | Held _ \<Rightarrow> None)"

text \<open>\<^verbatim>\<open>releaseMutex\<close>: releasing a mutex another thread holds, or no thread, is undefined.\<close>

definition releaseMutex :: "thread \<Rightarrow> 'e Input_Queue \<Rightarrow> 'e Input_Queue" where
  "releaseMutex t s =
     (case iq_mutex s of
        No_Mutex \<Rightarrow> s
      | Free \<Rightarrow> s\<lparr>iq_fault := True\<rparr>
      | Held u \<Rightarrow> if u = t then s\<lparr>iq_mutex := Free\<rparr> else s\<lparr>iq_fault := True\<rparr>)"

definition setEvent :: "'e Input_Queue \<Rightarrow> 'e Input_Queue" where
  "setEvent s = (if iq_event s = None then s else s\<lparr>iq_event := Some True\<rparr>)"

definition resetEvent :: "'e Input_Queue \<Rightarrow> 'e Input_Queue" where
  "resetEvent s = (if iq_event s = None then s else s\<lparr>iq_event := Some False\<rparr>)"

text \<open>\<^verbatim>\<open>waitForObject\<close> without a time limit: None while it waits. A handle may be a thread or an event; to
  tell, it is given to \<^verbatim>\<open>pthread_tryjoin_np\<close>, and if that says that the thread has not ended, to
  \<^verbatim>\<open>pthread_join\<close>. What these answer for the address of an event POSIX leaves undefined; here it is
  an argument: the number the first returns, and the one the second does, None if it does not
  return. Waiting on the event's condition does not fail.\<close>

datatype WaitResult = Wait_Success | Wait_Failed

type_synonym thread_answer = "int \<times> int option"

definition EBUSY :: int where "EBUSY = 16"

definition waitForObject :: "thread_answer \<Rightarrow> bool option \<Rightarrow> WaitResult option" where
  "waitForObject answer event =
     (case event of
        None \<Rightarrow> Some Wait_Failed
      | Some signaled \<Rightarrow>
          if fst answer = 0 then Some Wait_Success
          else if fst answer = EBUSY
          then map_option (\<lambda>r. if r = 0 then Wait_Success else Wait_Failed) (snd answer)
          else if signaled then Some Wait_Success else None)"

text \<open>The library returns from the join, if it gets there.\<close>

definition join_returns :: "thread_answer \<Rightarrow> bool" where
  "join_returns answer = (fst answer = EBUSY \<longrightarrow> snd answer \<noteq> None)"

section \<open>The threads\<close>

text \<open>The handler: from the top of the loop to the event it takes, which it then processes. None
  where it waits, and when its thread has ended or not started. Whatever the wait returns, it
  takes the mutex and looks at the queue again.\<close>

definition handler_step :: "thread_answer \<Rightarrow> 'e Input_Queue \<Rightarrow> 'e Input_Queue option" where
  "handler_step a s =
     (case iq_handler s of
        H_Off \<Rightarrow> None
      | H_Lock \<Rightarrow> map_option (\<lambda>s. s\<lparr>iq_handler := H_Test\<rparr>) (acquireMutex Handler s)
      | H_Test \<Rightarrow>
          Some (case iq_queue s of
                  None \<Rightarrow> s\<lparr>iq_handler := H_Quit\<rparr>
                | Some [] \<Rightarrow> s\<lparr>iq_handler := H_Reset\<rparr>
                | Some (e # q) \<Rightarrow>
                    s\<lparr>iq_queue := Some q, iq_handler := (if q = [] then H_Drained e else H_Taken e)\<rparr>)
      | H_Quit \<Rightarrow> Some ((releaseMutex Handler s)\<lparr>iq_handler := H_Done\<rparr>)
      | H_Reset \<Rightarrow> Some ((resetEvent s)\<lparr>iq_handler := H_Unlock\<rparr>)
      | H_Unlock \<Rightarrow> Some ((releaseMutex Handler s)\<lparr>iq_handler := H_Wait\<rparr>)
      | H_Wait \<Rightarrow> map_option (\<lambda>_. s\<lparr>iq_handler := H_Relock\<rparr>) (waitForObject a (iq_event s))
      | H_Relock \<Rightarrow> map_option (\<lambda>s. s\<lparr>iq_handler := H_Test\<rparr>) (acquireMutex Handler s)
      | H_Drained e \<Rightarrow> Some ((resetEvent s)\<lparr>iq_handler := H_Taken e\<rparr>)
      | H_Taken e \<Rightarrow> Some ((releaseMutex Handler s)\<lparr>iq_handler := H_Process e\<rparr>)
      | H_Process e \<Rightarrow> Some (s\<lparr>iq_handled := iq_handled s @ [e], iq_handler := H_Lock\<rparr>)
      | H_Done \<Rightarrow> None)"

text \<open>\<^verbatim>\<open>pushInputEvent\<close> in one of the reader threads.\<close>

definition set_reader :: "nat \<Rightarrow> 'e reader_pc \<Rightarrow> 'e Input_Queue \<Rightarrow> 'e Input_Queue" where
  "set_reader i pc s = s\<lparr>iq_reader := (iq_reader s)(i := pc)\<rparr>"

definition reader_step :: "nat \<Rightarrow> 'e Input_Queue \<Rightarrow> 'e Input_Queue option" where
  "reader_step i s =
     (case iq_reader s i of
        R_Idle \<Rightarrow> None
      | R_Lock e \<Rightarrow> map_option (set_reader i (R_Push e)) (acquireMutex (Reader i) s)
      | R_Push e \<Rightarrow>
          Some (case iq_queue s of
                  None \<Rightarrow> set_reader i R_Unlock s
                | Some q \<Rightarrow> set_reader i R_Set (s\<lparr>iq_queue := Some (q @ [e]), iq_pushed := iq_pushed s @ [e]\<rparr>))
      | R_Set \<Rightarrow> Some (set_reader i R_Unlock (setEvent s))
      | R_Unlock \<Rightarrow> Some (set_reader i R_Idle (releaseMutex (Reader i) s)))"

text \<open>The thread that starts and stops the engine. Uninstalling the hook joins the reader threads;
  stopping joins the handler. Destroying the objects under a thread that still runs is undefined.\<close>

definition readers_joined :: "'e Input_Queue \<Rightarrow> bool" where
  "readers_joined s = list_all (\<lambda>i. iq_reader s i = R_Idle) [0..<iq_readers s]"

definition start_step :: "'e Input_Queue \<Rightarrow> 'e Input_Queue option" where
  "start_step s =
     (case iq_main s of
        M_Off \<Rightarrow> Some (s\<lparr>iq_hooked := True, iq_pushed := [], iq_handled := [], iq_main := M_Start_Queue\<rparr>)
      | M_Start_Queue \<Rightarrow> Some (s\<lparr>iq_queue := Some [], iq_main := M_Start_Mutex\<rparr>)
      | M_Start_Mutex \<Rightarrow> Some (s\<lparr>iq_mutex := Free, iq_main := M_Start_Event\<rparr>)
      | M_Start_Event \<Rightarrow> Some (s\<lparr>iq_event := Some False, iq_main := M_Start_Thread\<rparr>)
      | M_Start_Thread \<Rightarrow> Some (s\<lparr>iq_handler := H_Lock, iq_main := M_On\<rparr>)
      | _ \<Rightarrow> None)"

definition stop_step :: "'e Input_Queue \<Rightarrow> 'e Input_Queue option" where
  "stop_step s =
     (case iq_main s of
        M_On \<Rightarrow> Some (s\<lparr>iq_main := M_Uninstall\<rparr>)
      | M_Uninstall \<Rightarrow> if readers_joined s then Some (s\<lparr>iq_hooked := False, iq_main := M_Stop_Lock\<rparr>) else None
      | M_Stop_Lock \<Rightarrow> map_option (\<lambda>s. s\<lparr>iq_main := M_Stop_Delete\<rparr>) (acquireMutex Main s)
      | M_Stop_Delete \<Rightarrow> Some (s\<lparr>iq_queue := None, iq_main := M_Stop_Set\<rparr>)
      | M_Stop_Set \<Rightarrow> Some ((setEvent s)\<lparr>iq_main := M_Stop_Unlock\<rparr>)
      | M_Stop_Unlock \<Rightarrow> Some ((releaseMutex Main s)\<lparr>iq_main := M_Stop_Wait\<rparr>)
      | M_Stop_Wait \<Rightarrow> if iq_handler s = H_Done then Some (s\<lparr>iq_main := M_Stop_Event\<rparr>) else None
      | M_Stop_Event \<Rightarrow> Some (s\<lparr>iq_event := None, iq_fault := (iq_fault s \<or> iq_handler s \<noteq> H_Done),
                                 iq_main := M_Stop_Mutex\<rparr>)
      | M_Stop_Mutex \<Rightarrow> Some (s\<lparr>iq_mutex := No_Mutex, iq_fault := (iq_fault s \<or> iq_handler s \<noteq> H_Done),
                                 iq_handler := (if iq_handler s = H_Done then H_Off else iq_handler s),
                                 iq_main := M_Off\<rparr>)
      | _ \<Rightarrow> None)"

definition main_step :: "'e Input_Queue \<Rightarrow> 'e Input_Queue option" where
  "main_step s =
     (if iq_main s \<in> {M_Off, M_Start_Queue, M_Start_Mutex, M_Start_Event, M_Start_Thread}
      then start_step s else stop_step s)"

lemmas main_step_defs = main_step_def start_step_def stop_step_def

text \<open>Steps of all threads, for a library that may give the answers in \<open>libc\<close>. A run is calm if no key
  arrives between the installation of the hook and the creation of the objects, and the wait of two
  seconds for the handler does not run out.\<close>

inductive queue_step :: "(thread_answer \<Rightarrow> bool) \<Rightarrow> bool \<Rightarrow> 'e Input_Queue \<Rightarrow> 'e Input_Queue \<Rightarrow> bool"
  for libc :: "thread_answer \<Rightarrow> bool" and calm :: bool and s :: "'e Input_Queue" where
  step_handler: "libc a \<Longrightarrow> handler_step a s = Some s' \<Longrightarrow> queue_step libc calm s s'"
| step_reader: "reader_step i s = Some s' \<Longrightarrow> queue_step libc calm s s'"
| step_main: "main_step s = Some s' \<Longrightarrow> queue_step libc calm s s'"
| step_key: "iq_hooked s \<Longrightarrow> i < iq_readers s \<Longrightarrow> iq_reader s i = R_Idle \<Longrightarrow> (calm \<Longrightarrow> iq_event s \<noteq> None) \<Longrightarrow>
    queue_step libc calm s (set_reader i (R_Lock e) s)"
| step_timeout: "\<not> calm \<Longrightarrow> iq_main s = M_Stop_Wait \<Longrightarrow> queue_step libc calm s (s\<lparr>iq_main := M_Stop_Event\<rparr>)"

inductive queue_reach :: "(thread_answer \<Rightarrow> bool) \<Rightarrow> bool \<Rightarrow> 'e Input_Queue \<Rightarrow> bool"
  for libc :: "thread_answer \<Rightarrow> bool" and calm :: bool where
  queue_start: "queue_reach libc calm (Input_Queue_init n)"
| queue_next: "queue_reach libc calm s \<Longrightarrow> queue_step libc calm s s' \<Longrightarrow> queue_reach libc calm s'"

section \<open>The invariant\<close>

text \<open>A thread is between acquiring and releasing the mutex.\<close>

fun handler_in :: "'e handler_pc \<Rightarrow> bool" where
  "handler_in H_Test = True"
| "handler_in H_Quit = True"
| "handler_in H_Reset = True"
| "handler_in H_Unlock = True"
| "handler_in (H_Drained e) = True"
| "handler_in (H_Taken e) = True"
| "handler_in _ = False"

fun reader_in :: "'e reader_pc \<Rightarrow> bool" where
  "reader_in (R_Push e) = True"
| "reader_in R_Set = True"
| "reader_in R_Unlock = True"
| "reader_in _ = False"

fun main_in :: "main_pc \<Rightarrow> bool" where
  "main_in M_Stop_Delete = True"
| "main_in M_Stop_Set = True"
| "main_in M_Stop_Unlock = True"
| "main_in _ = False"

fun inside :: "thread \<Rightarrow> 'e Input_Queue \<Rightarrow> bool" where
  "inside Main s = main_in (iq_main s)"
| "inside Handler s = handler_in (iq_handler s)"
| "inside (Reader i) s = reader_in (iq_reader s i)"

text \<open>The event the handler has taken and not yet handled.\<close>

definition in_hand :: "'e Input_Queue \<Rightarrow> 'e list" where
  "in_hand s = (case iq_handler s of H_Drained e \<Rightarrow> [e] | H_Taken e \<Rightarrow> [e] | H_Process e \<Rightarrow> [e] | _ \<Rightarrow> [])"

definition exclusive :: "'e Input_Queue \<Rightarrow> bool" where
  "exclusive s = (\<forall>t. inside t s \<longleftrightarrow> iq_mutex s = Held t)"

definition in_order :: "'e Input_Queue \<Rightarrow> bool" where
  "in_order s =
     (case iq_queue s of
        Some q \<Rightarrow> iq_pushed s = iq_handled s @ in_hand s @ q
      | None \<Rightarrow> prefix (iq_handled s @ in_hand s) (iq_pushed s))"

text \<open>Who empties the queue resets the event; who fills it is about to set it.\<close>

definition signals :: "'e Input_Queue \<Rightarrow> bool" where
  "signals s =
     ((\<forall>q. iq_queue s = Some q \<longrightarrow> q \<noteq> [] \<longrightarrow> iq_event s = Some False \<longrightarrow> (\<exists>i. iq_reader s i = R_Set)) \<and>
      (iq_handler s = H_Reset \<or> (\<exists>e. iq_handler s = H_Drained e) \<longrightarrow> iq_queue s = Some []))"

definition readers_idle :: "'e Input_Queue \<Rightarrow> bool" where
  "readers_idle s = (\<forall>i. iq_reader s i = R_Idle)"

definition phase :: "'e Input_Queue \<Rightarrow> bool" where
  "phase s =
     ((\<forall>i\<ge>iq_readers s. iq_reader s i = R_Idle) \<and>
     (case iq_main s of
        M_Off \<Rightarrow> iq_queue s = None \<and> iq_mutex s = No_Mutex \<and> iq_event s = None \<and> iq_handler s = H_Off \<and>
          readers_idle s \<and> \<not> iq_hooked s
      | M_Start_Queue \<Rightarrow> iq_queue s = None \<and> iq_mutex s = No_Mutex \<and> iq_event s = None \<and> iq_handler s = H_Off \<and>
          readers_idle s \<and> iq_pushed s = [] \<and> iq_handled s = []
      | M_Start_Mutex \<Rightarrow> iq_queue s = Some [] \<and> iq_mutex s = No_Mutex \<and> iq_event s = None \<and>
          iq_handler s = H_Off \<and> readers_idle s
      | M_Start_Event \<Rightarrow> iq_queue s = Some [] \<and> iq_mutex s = Free \<and> iq_event s = None \<and>
          iq_handler s = H_Off \<and> readers_idle s
      | M_Start_Thread \<Rightarrow> iq_queue s \<noteq> None \<and> iq_mutex s \<noteq> No_Mutex \<and> iq_event s \<noteq> None \<and> iq_handler s = H_Off
      | M_Stop_Event \<Rightarrow> iq_queue s = None \<and> iq_mutex s = Free \<and> iq_event s = Some True \<and>
          iq_handler s = H_Done \<and> readers_idle s \<and> \<not> iq_hooked s
      | M_Stop_Mutex \<Rightarrow> iq_queue s = None \<and> iq_mutex s = Free \<and> iq_event s = None \<and>
          iq_handler s = H_Done \<and> readers_idle s \<and> \<not> iq_hooked s
      | pc \<Rightarrow>
          iq_mutex s \<noteq> No_Mutex \<and> iq_event s \<noteq> None \<and> iq_handler s \<noteq> H_Off \<and>
          (pc \<in> {M_On, M_Uninstall} \<or> readers_idle s \<and> \<not> iq_hooked s) \<and>
          (pc \<in> {M_On, M_Uninstall, M_Stop_Lock, M_Stop_Delete} \<longleftrightarrow> iq_queue s \<noteq> None) \<and>
          (iq_queue s \<noteq> None \<longrightarrow> iq_handler s \<noteq> H_Done \<and> iq_handler s \<noteq> H_Quit) \<and>
          (pc \<in> {M_Stop_Unlock, M_Stop_Wait} \<longrightarrow> iq_event s = Some True) \<and>
          (iq_queue s = None \<longrightarrow> iq_handler s \<noteq> H_Unlock \<and> (\<forall>e. iq_handler s \<noteq> H_Taken e))))"

definition queue_ok :: "'e Input_Queue \<Rightarrow> bool" where
  "queue_ok s = (\<not> iq_fault s \<and> exclusive s \<and> in_order s \<and> signals s \<and> phase s)"

section \<open>Each thread keeps it\<close>

text \<open>While the handler runs, or a reader is at work, the objects are there.\<close>

lemma handler_alive:
  assumes "phase s" and "iq_handler s \<noteq> H_Off"
  shows "iq_event s \<noteq> None \<or> iq_handler s = H_Done" and "iq_mutex s \<noteq> No_Mutex"
  using assms by (auto simp: phase_def split: main_pc.splits)

lemma reader_alive:
  assumes "phase s" and "iq_reader s i \<noteq> R_Idle"
  shows "iq_event s \<noteq> None" and "iq_mutex s \<noteq> No_Mutex" and "iq_main s \<in> {M_Start_Thread, M_On, M_Uninstall}"
    and "iq_queue s \<noteq> None"
  using assms by (auto simp: phase_def readers_idle_def split: main_pc.splits)

text \<open>A thread that enters, leaves, or stays where it is.\<close>

lemma exclusive_same:
  "exclusive s \<Longrightarrow> (\<And>u. inside u s' = inside u s) \<Longrightarrow> iq_mutex s' = iq_mutex s \<Longrightarrow> exclusive s'"
  by (simp add: exclusive_def)

lemma exclusive_enter:
  "exclusive s \<Longrightarrow> iq_mutex s = Free \<Longrightarrow> (\<And>u. inside u s' = (u = t \<or> inside u s)) \<Longrightarrow> iq_mutex s' = Held t \<Longrightarrow>
     exclusive s'"
  by (simp add: exclusive_def) blast

lemma exclusive_leave:
  "exclusive s \<Longrightarrow> (\<And>u. inside u s' = (u \<noteq> t \<and> inside u s)) \<Longrightarrow> iq_mutex s = Held t \<Longrightarrow> iq_mutex s' = Free \<Longrightarrow>
     exclusive s'"
  by (simp add: exclusive_def) blast

lemma acquired:
  assumes "acquireMutex t s = Some s'" and "iq_mutex s \<noteq> No_Mutex"
  shows "iq_mutex s = Free \<and> s' = s\<lparr>iq_mutex := Held t\<rparr>"
  using assms by (auto simp: acquireMutex_def split: lock.splits)

lemma released:
  assumes "exclusive s" and "inside t s"
  shows "iq_mutex s = Held t \<and> releaseMutex t s = s\<lparr>iq_mutex := Free\<rparr>"
  using assms by (simp add: exclusive_def releaseMutex_def)

lemma inside_frame [simp]:
  "inside u (s\<lparr>iq_mutex := m\<rparr>) = inside u s" "inside u (s\<lparr>iq_queue := q\<rparr>) = inside u s"
  "inside u (s\<lparr>iq_event := ev\<rparr>) = inside u s" "inside u (s\<lparr>iq_pushed := p\<rparr>) = inside u s"
  "inside u (s\<lparr>iq_handled := p\<rparr>) = inside u s" "inside u (s\<lparr>iq_fault := b\<rparr>) = inside u s"
  "inside u (s\<lparr>iq_hooked := b\<rparr>) = inside u s"
  "inside u (s\<lparr>iq_handler := h\<rparr>) = (if u = Handler then handler_in h else inside u s)"
  "inside u (set_reader i r s) = (if u = Reader i then reader_in r else inside u s)"
  "inside u (s\<lparr>iq_main := pc\<rparr>) = (if u = Main then main_in pc else inside u s)"
  by (cases u; simp add: set_reader_def)+

lemma set_reader_frame [simp]:
  "iq_mutex (set_reader i pc s) = iq_mutex s" "iq_fault (set_reader i pc s) = iq_fault s"
  "iq_queue (set_reader i pc s) = iq_queue s" "iq_event (set_reader i pc s) = iq_event s"
  "iq_main (set_reader i pc s) = iq_main s" "iq_handler (set_reader i pc s) = iq_handler s"
  "iq_hooked (set_reader i pc s) = iq_hooked s" "iq_pushed (set_reader i pc s) = iq_pushed s"
  "iq_handled (set_reader i pc s) = iq_handled s" "iq_readers (set_reader i pc s) = iq_readers s"
  by (simp_all add: set_reader_def)

lemma event_frame [simp]:
  "iq_mutex (setEvent s) = iq_mutex s" "iq_fault (setEvent s) = iq_fault s" "inside u (setEvent s) = inside u s"
  "iq_mutex (resetEvent s) = iq_mutex s" "iq_fault (resetEvent s) = iq_fault s" "inside u (resetEvent s) = inside u s"
  by (simp_all add: setEvent_def resetEvent_def)

text \<open>The ways a step can go.\<close>

lemma locking_step:
  fixes s s' :: "'e Input_Queue"
  assumes ex: "exclusive s" and mutex: "iq_mutex s \<noteq> No_Mutex" and acq: "acquireMutex t s = Some s1"
    and other: "\<And>u. u \<noteq> t \<Longrightarrow> inside u s' = inside u s" and t: "inside t s'"
    and s': "iq_mutex s' = iq_mutex s1" "iq_fault s' = iq_fault s1"
  shows "exclusive s' \<and> iq_fault s' = iq_fault s"
proof -
  have "inside u s' = (u = t \<or> inside u s)" for u using other [of u] t by auto
  then show ?thesis using acquired [OF acq mutex] exclusive_enter [OF ex, of s' t] s' by simp
qed

lemma unlocking_step:
  fixes s s' :: "'e Input_Queue"
  assumes ex: "exclusive s" and t: "inside t s" "\<not> inside t s'"
    and other: "\<And>u. u \<noteq> t \<Longrightarrow> inside u s' = inside u s"
    and s': "iq_mutex s' = iq_mutex (releaseMutex t s)" "iq_fault s' = iq_fault (releaseMutex t s)"
  shows "exclusive s' \<and> iq_fault s' = iq_fault s"
proof -
  have "inside u s' = (u \<noteq> t \<and> inside u s)" for u using other [of u] t by auto
  then show ?thesis using released [OF ex t(1)] exclusive_leave [OF ex, of s' t] s' by simp
qed

lemma plain_step:
  fixes s s' :: "'e Input_Queue"
  assumes ex: "exclusive s" and t: "inside t s' = inside t s"
    and other: "\<And>u. u \<noteq> t \<Longrightarrow> inside u s' = inside u s"
    and s': "iq_mutex s' = iq_mutex s" "iq_fault s' = iq_fault s"
  shows "exclusive s' \<and> iq_fault s' = iq_fault s"
proof -
  have "inside u s' = inside u s" for u using other [of u] t by (cases "u = t") auto
  then show ?thesis using exclusive_same [OF ex, of s'] s' by simp
qed

lemma mutex_calls [simp]:
  "inside u (releaseMutex t s) = inside u s"
  "iq_handler (releaseMutex t s) = iq_handler s" "iq_main (releaseMutex t s) = iq_main s"
  "iq_reader (releaseMutex t s) = iq_reader s"
  by (auto simp: releaseMutex_def split: lock.splits)

lemma inside_acquire: "acquireMutex t s = Some s1 \<Longrightarrow> inside u s1 = inside u s"
  by (auto simp: acquireMutex_def split: lock.splits)

lemma reader_keeps_exclusive:
  assumes ex: "exclusive s" and ph: "phase s" and step: "reader_step i s = Some s'"
  shows "exclusive s' \<and> iq_fault s' = iq_fault s"
proof -
  note alive = reader_alive(2) [OF ph, of i]
  have other: "inside u s' = inside u s" if "u \<noteq> Reader i" for u
    using step that
    by (auto simp: reader_step_def inside_acquire split: reader_pc.splits option.splits if_splits)
  show ?thesis
  proof (cases "iq_reader s i")
    case (R_Lock e)
    then obtain s1 where s1: "acquireMutex (Reader i) s = Some s1" "s' = set_reader i (R_Push e) s1"
      using step by (auto simp: reader_step_def)
    show ?thesis by (rule locking_step [OF ex _ s1(1) other]) (use R_Lock alive s1 in simp_all)
  next
    case (R_Push e)
    show ?thesis
      by (rule plain_step [OF ex _ other]) (use step R_Push in \<open>auto simp: reader_step_def set_reader_def split: option.splits\<close>)
  next
    case R_Set
    show ?thesis
      by (rule plain_step [OF ex _ other]) (use step R_Set in \<open>auto simp: reader_step_def set_reader_def\<close>)
  next
    case R_Unlock
    show ?thesis
      by (rule unlocking_step [OF ex _ _ other]) (use step R_Unlock in \<open>auto simp: reader_step_def set_reader_def\<close>)
  qed (use step in \<open>simp add: reader_step_def\<close>)
qed

lemma handler_keeps_exclusive:
  assumes ex: "exclusive s" and ph: "phase s" and step: "handler_step a s = Some s'"
  shows "exclusive s' \<and> iq_fault s' = iq_fault s"
proof -
  note alive = handler_alive(2) [OF ph]
  have other: "inside u s' = inside u s" if "u \<noteq> Handler" for u
    using step that
    by (auto simp: handler_step_def inside_acquire split: handler_pc.splits option.splits list.splits if_splits)
  consider (lock) "iq_handler s = H_Lock \<or> iq_handler s = H_Relock"
    | (unlock) "iq_handler s = H_Quit \<or> iq_handler s = H_Unlock \<or> (\<exists>e. iq_handler s = H_Taken e)"
    | (plain) "iq_handler s = H_Test \<or> iq_handler s = H_Reset \<or> iq_handler s = H_Wait \<or>
        (\<exists>e. iq_handler s = H_Drained e) \<or> (\<exists>e. iq_handler s = H_Process e)"
    using step by (cases "iq_handler s") (auto simp: handler_step_def)
  then show ?thesis
  proof cases
    case lock
    then obtain s1 where s1: "acquireMutex Handler s = Some s1" "s' = s1\<lparr>iq_handler := H_Test\<rparr>"
      using step by (auto simp: handler_step_def)
    show ?thesis by (rule locking_step [OF ex _ s1(1) other]) (use lock alive s1 in auto)
  next
    case unlock
    show ?thesis
      by (rule unlocking_step [OF ex _ _ other]) (use step unlock in \<open>auto simp: handler_step_def\<close>)
  next
    case plain
    show ?thesis
      by (rule plain_step [OF ex _ other])
        (use step plain in \<open>auto simp: handler_step_def split: option.splits list.splits if_splits\<close>)
  qed
qed

lemma main_phase:
  assumes "phase s"
  shows "iq_main s = M_Start_Mutex \<Longrightarrow> iq_mutex s = No_Mutex"
    and "iq_main s = M_Stop_Lock \<Longrightarrow> iq_mutex s \<noteq> No_Mutex"
    and "iq_main s = M_Stop_Event \<Longrightarrow> iq_mutex s = Free \<and> iq_handler s = H_Done"
    and "iq_main s = M_Stop_Mutex \<Longrightarrow> iq_mutex s = Free \<and> iq_handler s = H_Done"
    and "iq_main s = M_Start_Thread \<Longrightarrow> iq_handler s = H_Off"
  using assms by (simp_all add: phase_def)

lemma main_keeps_exclusive:
  assumes ex: "exclusive s" and ph: "phase s" and step: "main_step s = Some s'"
  shows "exclusive s' \<and> iq_fault s' = iq_fault s"
proof -
  note phases = main_phase [OF ph]
  have other: "inside u s' = inside u s" if "u \<noteq> Main" for u
    using step that phases
    by (auto simp: main_step_defs inside_acquire split: main_pc.splits if_splits)
  consider (lock) "iq_main s = M_Stop_Lock" | (unlock) "iq_main s = M_Stop_Unlock"
    | (create) "iq_main s = M_Start_Mutex \<or> iq_main s = M_Stop_Mutex"
    | (plain) "iq_main s \<notin> {M_Stop_Lock, M_Stop_Unlock, M_Start_Mutex, M_Stop_Mutex}"
    by blast
  then show ?thesis
  proof cases
    case lock
    then obtain s1 where s1: "acquireMutex Main s = Some s1" "s' = s1\<lparr>iq_main := M_Stop_Delete\<rparr>"
      using step by (auto simp: main_step_defs)
    show ?thesis by (rule locking_step [OF ex _ s1(1) other]) (use lock phases s1 in auto)
  next
    case unlock
    show ?thesis
      by (rule unlocking_step [OF ex _ _ other]) (use step unlock in \<open>auto simp: main_step_defs\<close>)
  next
    case create
    then have "\<not> inside u s" for u using ex phases by (auto simp: exclusive_def)
    moreover have "\<not> inside u s'" for u
      using calculation other [of u] create step by (cases "u = Main") (auto simp: main_step_defs)
    ultimately show ?thesis using create step phases by (auto simp: exclusive_def main_step_defs)
  next
    case plain
    then have "inside Main s' = inside Main s" "iq_mutex s' = iq_mutex s" "iq_fault s' = iq_fault s"
      using step phases(3) by (auto simp: main_step_defs split: main_pc.splits if_splits)
    then show ?thesis using plain_step [OF ex _ other] by blast
  qed
qed

text \<open>The order of events.\<close>

lemma handler_keeps_order:
  assumes "in_order s" "handler_step a s = Some s'"
  shows "in_order s'"
  using assms
  by (cases "iq_handler s")
    (auto simp: handler_step_def in_order_def in_hand_def acquireMutex_def releaseMutex_def resetEvent_def
       split: lock.splits if_splits option.splits list.splits)

lemma reader_keeps_order:
  assumes "in_order s" "reader_step i s = Some s'"
  shows "in_order s'"
  using assms
  by (cases "iq_reader s i")
    (auto simp: reader_step_def in_order_def in_hand_def acquireMutex_def releaseMutex_def setEvent_def
       split: lock.splits if_splits option.splits list.splits)

lemma main_keeps_order:
  assumes "in_order s" "phase s" "main_step s = Some s'"
  shows "in_order s'"
proof -
  have start: "iq_main s = M_Off \<Longrightarrow> iq_queue s = None \<and> in_hand s = []"
    "iq_main s = M_Start_Queue \<Longrightarrow> in_hand s = [] \<and> iq_pushed s = [] \<and> iq_handled s = []"
    "iq_main s = M_Start_Thread \<Longrightarrow> in_hand s = []"
    "iq_main s = M_Stop_Mutex \<Longrightarrow> in_hand s = []"
    using assms(2) by (auto simp: phase_def in_hand_def)
  show ?thesis
    using assms(1,3) start
    by (cases "iq_main s")
      (auto simp: main_step_defs in_order_def in_hand_def acquireMutex_def releaseMutex_def setEvent_def
         split: lock.splits if_splits option.splits)
qed

text \<open>The event is set when there is something to do.\<close>

lemma handler_keeps_signals:
  assumes "signals s" "handler_step a s = Some s'"
  shows "signals s'"
  using assms
  by (cases "iq_handler s")
    (auto simp: handler_step_def signals_def acquireMutex_def releaseMutex_def resetEvent_def
       split: lock.splits if_splits option.splits list.splits)

lemma reader_keeps_signals:
  assumes sig: "signals s" and ex: "exclusive s" and step: "reader_step i s = Some s'"
  shows "signals s'"
proof -
  have out: "iq_handler s \<noteq> H_Reset \<and> iq_handler s \<noteq> H_Drained e" if "reader_in (iq_reader s i)" for e
    using ex that unfolding exclusive_def by (metis handler_in.simps(3,5) inside.simps(2,3) lock.inject thread.distinct(5))
  have keep: "\<exists>j. iq_reader (set_reader i pc s0) j = R_Set"
    if "iq_reader s j = R_Set" "iq_reader s i \<noteq> R_Set" "iq_reader s0 = iq_reader s" for pc s0 j
    using that by (intro exI [of _ j]) (auto simp: set_reader_def)
  show ?thesis
  proof (cases "iq_reader s i")
    case (R_Lock e)
    then show ?thesis using sig step keep
      by (auto simp: reader_step_def signals_def acquireMutex_def split: lock.splits)
  next
    case (R_Push e)
    then show ?thesis using sig step keep out
      by (auto simp: reader_step_def signals_def set_reader_def split: option.splits)
  next
    case R_Set
    then show ?thesis using sig step
      by (auto simp: reader_step_def signals_def setEvent_def split: if_splits)
  next
    case R_Unlock
    then show ?thesis using sig step keep
      by (auto simp: reader_step_def signals_def releaseMutex_def split: lock.splits if_splits)
  qed (use step in \<open>simp add: reader_step_def\<close>)
qed

lemma main_keeps_signals:
  assumes sig: "signals s" and ex: "exclusive s" and ph: "phase s" and step: "main_step s = Some s'"
  shows "signals s'"
proof -
  have out: "iq_handler s \<noteq> H_Reset \<and> iq_handler s \<noteq> H_Drained e" if "iq_main s = M_Stop_Delete" for e
    using ex that unfolding exclusive_def by (metis handler_in.simps(3,5) inside.simps(1,2) lock.inject main_in.simps(1) thread.distinct(1))
  have start: "iq_main s = M_Start_Queue \<Longrightarrow> iq_handler s = H_Off" "iq_main s = M_Start_Event \<Longrightarrow> iq_queue s = Some []"
    using ph by (simp_all add: phase_def)
  show ?thesis
    using sig step out start
    by (cases "iq_main s")
      (auto simp: main_step_defs signals_def acquireMutex_def releaseMutex_def setEvent_def
         split: lock.splits if_splits option.splits)
qed

text \<open>What holds in each phase of starting and stopping.\<close>

lemma handler_keeps_phase:
  assumes ph: "phase s" and sig: "signals s" and step: "handler_step a s = Some s'"
  shows "phase s'"
proof -
  have sig: "iq_handler s = H_Reset \<Longrightarrow> iq_queue s = Some []" "iq_handler s = H_Drained e \<Longrightarrow> iq_queue s = Some []" for e
    using sig by (auto simp: signals_def)
  have alive: "iq_handler s \<noteq> H_Off" "iq_handler s \<noteq> H_Done" using step by (auto simp: handler_step_def)
  have same: "iq_main s' = iq_main s" "iq_hooked s' = iq_hooked s" "iq_reader s' = iq_reader s"
    "iq_readers s' = iq_readers s"
    "iq_queue s' = None \<longleftrightarrow> iq_queue s = None" "iq_event s' = None \<longleftrightarrow> iq_event s = None"
    "iq_mutex s \<noteq> No_Mutex \<Longrightarrow> iq_mutex s' \<noteq> No_Mutex" "iq_handler s' \<noteq> H_Off"
    "iq_queue s = None \<Longrightarrow> iq_event s' = iq_event s"
    using step sig
    by (cases "iq_handler s";
      auto simp: handler_step_def acquireMutex_def releaseMutex_def resetEvent_def
        split: lock.splits if_splits option.splits list.splits)+
  have pcs: "iq_queue s \<noteq> None \<Longrightarrow> iq_handler s \<noteq> H_Quit \<Longrightarrow> iq_handler s' \<noteq> H_Done \<and> iq_handler s' \<noteq> H_Quit"
    "iq_queue s = None \<Longrightarrow> iq_handler s' \<noteq> H_Unlock \<and> (\<forall>e. iq_handler s' \<noteq> H_Taken e)"
    using step sig
    by (cases "iq_handler s";
      auto simp: handler_step_def acquireMutex_def releaseMutex_def resetEvent_def
        split: lock.splits if_splits option.splits list.splits)+
  show ?thesis
    using ph alive same pcs unfolding phase_def readers_idle_def
    by (cases "iq_main s") simp_all
qed

lemma reader_keeps_phase:
  assumes ph: "phase s" and step: "reader_step i s = Some s'"
  shows "phase s'"
proof -
  have busy: "iq_reader s i \<noteq> R_Idle" using step by (auto simp: reader_step_def)
  note alive = reader_alive [OF ph busy]
  have "i < iq_readers s" using ph busy unfolding phase_def by (metis not_less)
  moreover have "iq_readers s' = iq_readers s" "j \<noteq> i \<Longrightarrow> iq_reader s' j = iq_reader s j" for j
    using step
    by (cases "iq_reader s i";
      auto simp: reader_step_def set_reader_def acquireMutex_def releaseMutex_def setEvent_def
        split: lock.splits if_splits option.splits)+
  ultimately have others: "\<forall>j\<ge>iq_readers s'. iq_reader s' j = R_Idle" using ph by (auto simp: phase_def)
  have same: "iq_main s' = iq_main s" "iq_hooked s' = iq_hooked s" "iq_handler s' = iq_handler s"
    "iq_queue s' = None \<longleftrightarrow> iq_queue s = None" "iq_event s' = None \<longleftrightarrow> iq_event s = None"
    "iq_mutex s \<noteq> No_Mutex \<Longrightarrow> iq_mutex s' \<noteq> No_Mutex"
    using step
    by (cases "iq_reader s i";
      auto simp: reader_step_def acquireMutex_def releaseMutex_def setEvent_def
        split: lock.splits if_splits option.splits list.splits)+
  show ?thesis
    using ph alive same others unfolding phase_def
    by (cases "iq_main s") auto
qed

lemma main_keeps_phase:
  assumes ph: "phase s" and ex: "exclusive s" and step: "main_step s = Some s'"
  shows "phase s'"
proof -
  have out: "iq_handler s \<noteq> H_Unlock \<and> (\<forall>e. iq_handler s \<noteq> H_Taken e)" if "iq_main s = M_Stop_Delete"
    using ex that unfolding exclusive_def
    by (metis handler_in.simps(4,6) inside.simps(1,2) lock.inject main_in.simps(1) thread.distinct(1))
  have free: "iq_mutex s = Free" if "iq_main s = M_Stop_Wait" "iq_handler s = H_Done"
  proof (rule ccontr)
    have idle: "readers_idle s" "iq_mutex s \<noteq> No_Mutex" using ph that by (simp_all add: phase_def)
    assume "iq_mutex s \<noteq> Free"
    then obtain t where "iq_mutex s = Held t" using idle by (cases "iq_mutex s") auto
    then have "inside t s" using ex by (simp add: exclusive_def)
    then show False using that idle by (cases t) (simp_all add: readers_idle_def)
  qed
  have joined: "readers_idle s" if "readers_joined s"
    unfolding readers_idle_def
  proof
    fix i
    show "iq_reader s i = R_Idle"
      using ph that by (cases "i < iq_readers s") (auto simp: phase_def readers_joined_def list_all_iff)
  qed
  show ?thesis
    using ph step out free joined
    by (cases "iq_main s")
      (auto simp: main_step_defs phase_def readers_idle_def acquireMutex_def releaseMutex_def setEvent_def
         split: lock.splits if_splits option.splits)
qed

lemma key_keeps:
  assumes ok: "queue_ok s" and hook: "iq_hooked s" and idle: "iq_reader s i = R_Idle" "i < iq_readers s" and event: "iq_event s \<noteq> None"
  shows "queue_ok (set_reader i (R_Lock e) s)"
proof -
  let ?s = "set_reader i (R_Lock e) s"
  have "inside u ?s = inside u s" for u using idle by auto
  then have "exclusive ?s" using ok exclusive_same [of s ?s] by (simp add: queue_ok_def)
  moreover have "signals ?s"
    using ok idle unfolding queue_ok_def signals_def set_reader_def by (auto, metis reader_pc.distinct(5))
  moreover have "phase ?s"
    using ok hook event idle unfolding queue_ok_def phase_def by (cases "iq_main s") (simp_all add: set_reader_def)
  moreover have "in_hand ?s = in_hand s" by (simp add: in_hand_def)
  then have "in_order ?s" using ok by (simp add: queue_ok_def in_order_def split: option.splits)
  ultimately show ?thesis using ok by (simp add: queue_ok_def)
qed

lemma queue_step_ok:
  assumes "queue_ok s" "queue_step libc True s s'"
  shows "queue_ok s'"
  using assms(2)
proof cases
  case (step_handler a)
  then show ?thesis
    using assms(1) handler_keeps_exclusive [where s = s and s' = s' and a = a] handler_keeps_order [where s = s and s' = s' and a = a]
      handler_keeps_signals [where s = s and s' = s' and a = a] handler_keeps_phase [where s = s and s' = s' and a = a]
    by (simp add: queue_ok_def)
next
  case (step_reader i)
  then show ?thesis
    using assms(1) reader_keeps_exclusive [where s = s and s' = s' and i = i] reader_keeps_order [where s = s and s' = s' and i = i]
      reader_keeps_signals [where s = s and s' = s' and i = i] reader_keeps_phase [where s = s and s' = s' and i = i]
    by (simp add: queue_ok_def)
next
  case step_main
  then show ?thesis
    using assms(1) main_keeps_exclusive [of s s'] main_keeps_order [of s s']
      main_keeps_signals [of s s'] main_keeps_phase [of s s']
    by (simp add: queue_ok_def)
next
  case (step_key i e)
  then show ?thesis using key_keeps [OF assms(1), of i e] by simp
qed simp

lemma queue_ok_init: "queue_ok (Input_Queue_init n :: 'e Input_Queue)"
proof -
  let ?s = "Input_Queue_init n :: 'e Input_Queue"
  have "\<not> inside t ?s" for t by (cases t) (simp_all add: Input_Queue_init_def)
  then have "exclusive ?s" by (simp add: exclusive_def) (simp add: Input_Queue_init_def)
  then show ?thesis
    by (simp add: queue_ok_def in_order_def signals_def phase_def readers_idle_def in_hand_def Input_Queue_init_def)
qed

lemma calm_queue_ok: "queue_reach libc True s \<Longrightarrow> queue_ok s"
  by (induction rule: queue_reach.induct) (auto intro: queue_ok_init queue_step_ok)

section \<open>The handler alone\<close>

text \<open>The handler as far as it gets in a number of steps while the other threads rest, with the answers
  of the library for each step.\<close>

fun run_handler :: "(nat \<Rightarrow> thread_answer) \<Rightarrow> nat \<Rightarrow> 'e Input_Queue \<Rightarrow> 'e Input_Queue" where
  "run_handler as 0 s = s"
| "run_handler as (Suc n) s =
     (case handler_step (as 0) s of None \<Rightarrow> s | Some s' \<Rightarrow> run_handler (\<lambda>i. as (Suc i)) n s')"

fun pc_rank :: "bool \<Rightarrow> 'e handler_pc \<Rightarrow> nat" where
  "pc_rank up (H_Drained e) = 7"
| "pc_rank up (H_Taken e) = 6"
| "pc_rank up H_Unlock = (if up then 6 else 1)"
| "pc_rank up (H_Process e) = 5"
| "pc_rank up H_Wait = (if up then 5 else 0)"
| "pc_rank up H_Lock = 4"
| "pc_rank up H_Relock = 4"
| "pc_rank up H_Test = 3"
| "pc_rank up H_Reset = 2"
| "pc_rank up H_Quit = 2"
| "pc_rank up H_Off = 0"
| "pc_rank up H_Done = 0"

definition queue_rank :: "'e Input_Queue \<Rightarrow> nat" where
  "queue_rank s = 10 * length (case iq_queue s of Some q \<Rightarrow> q | None \<Rightarrow> []) +
     pc_rank (iq_event s = Some True) (iq_handler s)"

lemma handler_rank:
  assumes "handler_step a s = Some s'" and "iq_event s \<noteq> None" and "iq_handler s = H_Wait \<Longrightarrow> iq_event s \<noteq> Some False"
  shows "queue_rank s' < queue_rank s"
  using assms
  by (cases "iq_handler s")
    (auto simp: handler_step_def queue_rank_def acquireMutex_def releaseMutex_def resetEvent_def
       split: lock.splits if_splits option.splits list.splits)

text \<open>Where it stops when it can have the mutex.\<close>

lemma handler_stops:
  assumes "handler_step a s = None" and "join_returns a" and "iq_mutex s = Free \<or> iq_mutex s = Held Handler" and "exclusive s"
    and "iq_event s \<noteq> None"
  shows "iq_handler s = H_Off \<or> iq_handler s = H_Done \<or> iq_handler s = H_Wait \<and> iq_event s = Some False"
proof -
  have "iq_mutex s \<noteq> Held Handler" if "iq_handler s = H_Lock \<or> iq_handler s = H_Relock"
    using assms(4) that unfolding exclusive_def by (metis handler_in.simps(8,10) inside.simps(2))
  then show ?thesis
    using assms(1-3)
    by (cases "iq_handler s")
      (auto simp: handler_step_def acquireMutex_def waitForObject_def join_returns_def split: lock.splits if_splits option.splits)
qed

lemma handler_frame:
  assumes "handler_step a s = Some s'"
  shows "iq_pushed s' = iq_pushed s" "iq_main s' = iq_main s" "iq_reader s' = iq_reader s"
    "iq_queue s' = None \<longleftrightarrow> iq_queue s = None" "iq_event s' = None \<longleftrightarrow> iq_event s = None"
    "iq_handler s \<noteq> H_Off \<Longrightarrow> iq_handler s' \<noteq> H_Off"
    "iq_mutex s \<noteq> No_Mutex \<Longrightarrow> iq_mutex s = Free \<or> iq_mutex s = Held Handler \<Longrightarrow>
       iq_mutex s' = Free \<or> iq_mutex s' = Held Handler"
  using assms
  by (cases "iq_handler s";
    auto simp: handler_step_def acquireMutex_def releaseMutex_def resetEvent_def
      split: lock.splits if_splits option.splits list.splits)+

lemma run_handler_stops:
  assumes "queue_ok s" and "iq_mutex s = Free \<or> iq_mutex s = Held Handler" and "iq_event s \<noteq> None"
    and "iq_handler s \<noteq> H_Off" and "\<And>i. iq_reader s i \<noteq> R_Set" and "\<And>i. join_returns (as i)"
  shows "\<exists>n. let t = run_handler as n s in queue_ok t \<and> iq_pushed t = iq_pushed s \<and>
     (iq_queue t = None \<longleftrightarrow> iq_queue s = None) \<and> iq_main t = iq_main s \<and>
     (iq_handler t = H_Done \<or> iq_handler t = H_Wait \<and> iq_event t = Some False) \<and>
     (\<forall>q. iq_queue t = Some q \<longrightarrow> iq_handler t = H_Wait \<longrightarrow> q = [])"
  using assms
proof (induction "queue_rank s" arbitrary: s as rule: less_induct)
  case less
  show ?case
  proof (cases "iq_handler s = H_Done \<or> iq_handler s = H_Wait \<and> iq_event s = Some False")
    case stop: True
    moreover have "q = []" if "iq_queue s = Some q" "iq_handler s = H_Wait" for q
      using that stop less.prems(1,5) by (auto simp: queue_ok_def signals_def)
    ultimately show ?thesis using less.prems(1) by (intro exI [of _ 0]) auto
  next
    case going: False
    have "handler_step (as 0) s \<noteq> None"
      using handler_stops [OF _ less.prems(6) [of 0] less.prems(2)] going less.prems by (auto simp: queue_ok_def)
    then obtain s' where Some: "handler_step (as 0) s = Some s'" by blast
    have ok: "queue_ok s'"
      by (rule queue_step_ok [OF less.prems(1) step_handler [OF _ Some, of "\<lambda>_. True"]]) simp
    note frame = handler_frame [OF Some]
    have rank: "queue_rank s' < queue_rank s" by (rule handler_rank [OF Some less.prems(3)]) (use going in blast)
    obtain n where n: "let t = run_handler (\<lambda>i. as (Suc i)) n s' in queue_ok t \<and> iq_pushed t = iq_pushed s' \<and>
        (iq_queue t = None \<longleftrightarrow> iq_queue s' = None) \<and> iq_main t = iq_main s' \<and>
        (iq_handler t = H_Done \<or> iq_handler t = H_Wait \<and> iq_event t = Some False) \<and>
        (\<forall>q. iq_queue t = Some q \<longrightarrow> iq_handler t = H_Wait \<longrightarrow> q = [])"
      using less.hyps [OF rank ok, of "\<lambda>i. as (Suc i)"] less.prems(2-6) frame by auto
    show ?thesis using n frame by (intro exI [of _ "Suc n"]) (simp add: Some Let_def)
  qed
qed

text \<open>If the library takes the address for a running thread and waits for its end, the handler stays in
  its wait, whatever is in the queue.\<close>

lemma handler_hangs:
  "iq_handler s = H_Wait \<Longrightarrow> iq_event s \<noteq> None \<Longrightarrow> (\<And>i. as i = (EBUSY, None)) \<Longrightarrow> run_handler as n s = s"
  by (cases n) (auto simp: handler_step_def waitForObject_def EBUSY_def)

lemma handler_done_alone:
  assumes reach: "queue_reach libc True s" and run: "iq_handler s \<noteq> H_Off"
    and alone: "\<And>t. inside t s \<Longrightarrow> t = Handler" and joins: "\<And>i. join_returns (as i)"
  shows "\<exists>n. let t = run_handler as n s in
           if iq_queue s = None then iq_handler t = H_Done
           else iq_handler t = H_Wait \<and> iq_queue t = Some [] \<and> iq_handled t = iq_pushed s"
proof (cases "iq_handler s = H_Done")
  case True
  then have "iq_queue s = None"
    using calm_queue_ok [OF reach] by (auto simp: queue_ok_def phase_def split: main_pc.splits)
  then show ?thesis using True by (intro exI [of _ 0]) simp
next
  case False
  note ok = calm_queue_ok [OF reach]
  have ph: "phase s" and ex: "exclusive s" using ok by (simp_all add: queue_ok_def)
  note alive = handler_alive [OF ph run]
  have mutex: "iq_mutex s = Free \<or> iq_mutex s = Held Handler"
    using alive(2) alone ex by (cases "iq_mutex s") (auto simp: exclusive_def)
  have "iq_reader s i \<noteq> R_Set" for i using alone [of "Reader i"] by auto
  then obtain n where n: "let t = run_handler as n s in queue_ok t \<and> iq_pushed t = iq_pushed s \<and>
      (iq_queue t = None \<longleftrightarrow> iq_queue s = None) \<and> iq_main t = iq_main s \<and>
      (iq_handler t = H_Done \<or> iq_handler t = H_Wait \<and> iq_event t = Some False) \<and>
      (\<forall>q. iq_queue t = Some q \<longrightarrow> iq_handler t = H_Wait \<longrightarrow> q = [])"
    using run_handler_stops [OF ok mutex _ run, of as] alive(1) False joins by blast
  let ?t = "run_handler as n s"
  have t: "phase ?t" "in_order ?t" using n by (simp_all add: Let_def queue_ok_def)
  show ?thesis
  proof (cases "iq_queue s")
    case None
    have "iq_main s \<in> {M_Stop_Wait, M_Stop_Event, M_Stop_Mutex}"
      using ph None run alone [of Main] by (auto simp: phase_def split: main_pc.splits)
    then have "iq_handler ?t = H_Wait \<Longrightarrow> iq_event ?t \<noteq> Some False"
      using t(1) n by (auto simp: phase_def Let_def)
    then show ?thesis using n None by (auto simp: Let_def)
  next
    case (Some q)
    then have "iq_handler ?t \<noteq> H_Done"
      using t(1) n by (auto simp: phase_def Let_def split: main_pc.splits)
    then show ?thesis using n Some t(2)
      by (intro exI [of _ n]) (auto simp: Let_def in_order_def in_hand_def split: option.splits)
  qed
qed

section \<open>Properties\<close>

text \<open>C10: Readers, handler and the thread that starts and stops the engine never meet in the queue,
  and keys are handled in the order in which they were pushed, none twice and none left out: at
  every moment of every interleaving the keys pushed are those handled, then the one in hand, then
  those in the queue; when stopping has deleted the queue, those handled are the first ones. No
  mutex is released by a thread that does not hold it and nothing is destroyed under the handler.
  The runs are those in which no key arrives while the engine creates its objects and the handler
  ends within the two seconds it is given. It does not matter what the wait for the event returns,
  nor what the C library answers when it is asked whether the event is a thread.\<close>

theorem keys_are_handled_in_order:
  assumes "queue_reach libc True s"
  shows "(\<forall>t u. inside t s \<longrightarrow> inside u s \<longrightarrow> t = u) \<and> \<not> iq_fault s \<and>
         (case iq_queue s of
            Some q \<Rightarrow> iq_pushed s = iq_handled s @ in_hand s @ q
          | None \<Rightarrow> prefix (iq_handled s @ in_hand s) (iq_pushed s))"
  using calm_queue_ok [OF assms] by (auto simp: queue_ok_def exclusive_def in_order_def)

text \<open>C11: No wake-up is lost and the handler can always be stopped, if the C library, asked to join the
  event as if it were a thread, does not block (what it does is undefined): it may say that there is no
  such thread, that the thread has ended, or fail. From every state of a calm run in which no other thread
  is in the queue, the handler alone then reaches, if there is a queue, its wait with all keys handled
  that were pushed, and if the queue was deleted, its end. A library that does block keeps it in
  its wait with a key in the queue.\<close>

theorem handler_catches_up:
  assumes reach: "queue_reach libc True s" and run: "iq_handler s \<noteq> H_Off"
    and alone: "\<And>t. inside t s \<Longrightarrow> t = Handler"
  shows "((\<forall>i. join_returns (as i)) \<longrightarrow>
         (\<exists>n. let t = run_handler as n s in
           if iq_queue s = None then iq_handler t = H_Done
           else iq_handler t = H_Wait \<and> iq_queue t = Some [] \<and> iq_handled t = iq_pushed s)) \<and>
    (iq_handler s = H_Wait \<longrightarrow> iq_event s \<noteq> None \<longrightarrow> (\<forall>i. as i = (EBUSY, None)) \<longrightarrow> (\<forall>n. run_handler as n s = s))"
proof (intro conjI impI)
  assume "\<forall>i. join_returns (as i)"
  then show "\<exists>n. let t = run_handler as n s in
      if iq_queue s = None then iq_handler t = H_Done
      else iq_handler t = H_Wait \<and> iq_queue t = Some [] \<and> iq_handled t = iq_pushed s"
    using handler_done_alone [OF assms] by blast
next
  assume "iq_handler s = H_Wait" "iq_event s \<noteq> None" "\<forall>i. as i = (EBUSY, None)"
  then show "\<forall>n. run_handler as n s = s" using handler_hangs by blast
qed

text \<open>Runs as lists of who moves. In the first the engine is up and has handled one of two keys; the
  library says that there is no such thread (\<^verbatim>\<open>ESRCH\<close>).\<close>

datatype 'e move = By_Handler thread_answer | By_Reader nat | By_Main | Key nat 'e

fun moves :: "'e move list \<Rightarrow> 'e Input_Queue \<Rightarrow> 'e Input_Queue option" where
  "moves [] s = Some s"
| "moves (By_Handler a # ms) s = (case handler_step a s of None \<Rightarrow> None | Some s' \<Rightarrow> moves ms s')"
| "moves (By_Reader i # ms) s = (case reader_step i s of None \<Rightarrow> None | Some s' \<Rightarrow> moves ms s')"
| "moves (By_Main # ms) s =
     (case main_step s of None \<Rightarrow> None | Some s' \<Rightarrow> moves ms s')"
| "moves (Key i e # ms) s =
     (if iq_hooked s \<and> i < iq_readers s \<and> iq_reader s i = R_Idle then moves ms (set_reader i (R_Lock e) s) else None)"

fun calm_moves :: "'e move list \<Rightarrow> 'e Input_Queue \<Rightarrow> bool" where
  "calm_moves [] s = True"
| "calm_moves (m # ms) s =
     ((case m of Key i e \<Rightarrow> iq_event s \<noteq> None | _ \<Rightarrow> True) \<and>
      (case moves [m] s of None \<Rightarrow> True | Some s' \<Rightarrow> calm_moves ms s'))"

fun answers_in :: "(thread_answer \<Rightarrow> bool) \<Rightarrow> 'e move list \<Rightarrow> bool" where
  "answers_in libc [] = True"
| "answers_in libc (m # ms) = ((case m of By_Handler a \<Rightarrow> libc a | _ \<Rightarrow> True) \<and> answers_in libc ms)"

lemma moves_reach:
  "queue_reach libc calm s \<Longrightarrow> (calm \<Longrightarrow> calm_moves ms s) \<Longrightarrow> answers_in libc ms \<Longrightarrow> moves ms s = Some t \<Longrightarrow> queue_reach libc calm t"
proof (induction ms arbitrary: s)
  case (Cons m ms)
  then obtain s' where s': "moves [m] s = Some s'" "moves ms s' = Some t"
    by (cases m) (auto split: option.splits if_splits)
  have "queue_step libc calm s s'"
    using s'(1) Cons.prems(2,3)
    by (cases m) (auto split: option.splits if_splits intro: queue_step.intros)
  then have "queue_reach libc calm s'" by (rule queue_next [OF Cons.prems(1)])
  then show ?case by (rule Cons.IH) (use Cons.prems(2,3) s' in auto)
qed simp

definition started :: "nat move list" where
  "started = [By_Main, By_Main, By_Main, By_Main, By_Main,
     Key 0 7, By_Reader 0, By_Reader 0, By_Reader 0, By_Reader 0,
     Key 1 8, By_Reader 1, By_Reader 1, By_Reader 1, By_Reader 1,
     By_Handler (3, None), By_Handler (3, None), By_Handler (3, None), By_Handler (3, None)]"

definition started_state :: "nat Input_Queue" where
  "started_state = the (moves started (Input_Queue_init 2))"

lemma started_reach:
  assumes "libc (3, None)"
  shows "queue_reach libc True started_state"
proof -
  have "answers_in libc started" using assms by (simp add: started_def)
  moreover
  have "moves started (Input_Queue_init 2) \<noteq> None" "calm_moves started (Input_Queue_init 2)" by code_simp+
  ultimately show ?thesis
    using moves_reach [OF queue_start, of True started] by (auto simp: started_state_def)
qed

theorem keys_are_handled_in_order_witness:
  "iq_queue started_state = Some [8] \<and> iq_pushed started_state = [7] @ [] @ [8] \<and> \<not> iq_fault started_state"
proof -
  have "iq_queue started_state = Some [8]" "iq_handled started_state = [7]" "in_hand started_state = []"
    by code_simp+
  then show ?thesis using keys_are_handled_in_order [OF started_reach [of "\<lambda>_. True"]] by simp
qed

text \<open>The library may also say that the thread has ended: then the wait returns at once.\<close>

theorem handler_catches_up_witness:
  "(\<exists>n. iq_handler (run_handler (\<lambda>_. (3, None)) n started_state) = H_Wait \<and>
      iq_handled (run_handler (\<lambda>_. (3, None)) n started_state) = [7, 8]) \<and>
   (\<exists>n. iq_handled (run_handler (\<lambda>_. (0, None)) n started_state) = [7, 8])"
proof -
  have state: "iq_handler started_state \<noteq> H_Off" "iq_queue started_state \<noteq> None" "iq_pushed started_state = [7, 8]"
    and out: "iq_mutex started_state = Free"
    by code_simp+
  note reach = started_reach [of "\<lambda>_. True", simplified]
  have "\<not> inside t started_state" for t
    using calm_queue_ok [OF reach] out by (simp add: queue_ok_def exclusive_def)
  then have "t = Handler" if "inside t started_state" for t using that by blast
  from handler_catches_up [OF reach state(1) this, of "\<lambda>_. (3, None)"]
    handler_catches_up [OF reach state(1) this, of "\<lambda>_. (0, None)"]
  show ?thesis using state by (auto simp: Let_def join_returns_def EBUSY_def)
qed

text \<open>C12: The hook is installed before the queue, its mutex and its event are created. If keys arrive
  in between, their readers run without the mutex, since acquiring the null handle fails unseen:
  two of them can be about to change the queue at the same time, and one can release a mutex it
  does not hold.\<close>

theorem early_keys_race:
  "(\<exists>s. queue_reach libc False s \<and> iq_queue s = Some [] \<and> iq_reader s 0 = R_Push (1 :: nat) \<and> iq_reader s 1 = R_Push 2) \<and>
   (\<exists>s. queue_reach libc False (s :: nat Input_Queue) \<and> iq_fault s)"
proof -
  let ?ms = "[By_Main, Key 0 1, By_Reader 0, Key 1 2, By_Reader 1, By_Main] :: nat move list"
  let ?ns = "?ms @ [By_Main, By_Reader 0, By_Reader 0, By_Reader 0]"
  let ?m = "moves ?ms (Input_Queue_init 2)" let ?n = "moves ?ns (Input_Queue_init 2)"
  have "map_option (\<lambda>s. (iq_queue s, iq_reader s 0, iq_reader s 1)) ?m = Some (Some [], R_Push 1, R_Push 2)"
    by code_simp
  then obtain s where s: "?m = Some s" "(iq_queue s, iq_reader s 0, iq_reader s 1) = (Some [], R_Push 1, R_Push 2)"
    unfolding map_option_eq_Some by blast
  have "map_option iq_fault ?n = Some True" by code_simp
  then obtain t where t: "?n = Some t" "iq_fault t" unfolding map_option_eq_Some by blast
  have "queue_reach libc False s" by (rule moves_reach [OF queue_start _ _ s(1)]) simp_all
  moreover have "queue_reach libc False t" by (rule moves_reach [OF queue_start _ _ t(1)]) simp_all
  ultimately show ?thesis using s(2) t(2) by blast
qed

end
