(* ===== verification/Ipc_Channel.thy ===== *)
theory Ipc_Channel
  imports Prelude
begin

text \<open>
  The channel between the daemon and the graphical interface
  (src/core/platform/linux/ipc_channel_qt.cpp): messages as frames with a length in front, cut out
  of the bytes of a socket as they arrive. Byte arrays are strings, sockets are numbers; whether a
  socket is connected, and what has arrived on it, are arguments.
\<close>

section \<open>The library\<close>

text \<open>
  Qt's byte array and data stream: \<^verbatim>\<open>left\<close>, \<^verbatim>\<open>mid\<close>, \<^verbatim>\<open>remove\<close>, the bytes that \<^verbatim>\<open>resize\<close> adds (their
  values are unspecified), and a \<^verbatim>\<open>quint32\<close> written and read in big-endian order.
\<close>

record Qt_Bytes =
  qb_left :: "string \<Rightarrow> int \<Rightarrow> string"
  qb_mid :: "string \<Rightarrow> int \<Rightarrow> int \<Rightarrow> string"
  qb_remove :: "string \<Rightarrow> int \<Rightarrow> int \<Rightarrow> string"
  qb_resize :: "nat \<Rightarrow> string"
  qb_put :: "u32 \<Rightarrow> string"
  qb_get :: "string \<Rightarrow> u32"

text \<open>What the documentation of the library says of them.\<close>

definition qt_documented :: "Qt_Bytes \<Rightarrow> bool" where
  "qt_documented qt \<longleftrightarrow>
     (\<forall>b n. 0 \<le> n \<longrightarrow> qb_left qt b n = take (nat n) b) \<and>
     (\<forall>b p n. 0 \<le> p \<longrightarrow> 0 \<le> n \<longrightarrow> qb_mid qt b p n = take (nat n) (drop (nat p) b)) \<and>
     (\<forall>b p n. 0 \<le> p \<longrightarrow> 0 \<le> n \<longrightarrow> qb_remove qt b p n = take (nat p) b @ drop (nat (p + n)) b) \<and>
     (\<forall>n. length (qb_resize qt n) = n) \<and>
     (\<forall>x. length (qb_put qt x) = 4) \<and>
     (\<forall>x r. qb_get qt (qb_put qt x @ r) = x)"

section \<open>Messages\<close>

text \<open>The payload of \<^verbatim>\<open>yamy::ipc::Message\<close> is the memory from its pointer on, None for a null pointer.\<close>

record ChannelMessage =
  cm_type :: u32
  cm_data :: "string option"
  cm_size :: nat

definition INT_MAX :: nat where "INT_MAX = 2 ^ 31 - 1"

text \<open>The bytes \<^verbatim>\<open>send\<close> writes; None if it drops the message.\<close>

definition serialize :: "Qt_Bytes \<Rightarrow> ChannelMessage \<Rightarrow> string option" where
  "serialize qt msg =
     (let totalSize = 4 + word_of_nat (cm_size msg);
          head = qb_put qt totalSize @ qb_put qt (cm_type msg)
      in if cm_data msg \<noteq> None \<and> 0 < cm_size msg \<and> cm_size msg < INT_MAX
         then Some (head @ take (cm_size msg) (the (cm_data msg)))
         else if INT_MAX \<le> cm_size msg then None
         else Some head)"

section \<open>The channel\<close>

text \<open>A received message is recorded with the socket it came from.\<close>

record IPCChannel =
  ic_clientSocket :: "nat option"
  ic_server :: bool
  ic_isServerMode :: bool
  ic_serverClientSockets :: "nat list"
  ic_clientReceiveBuffers :: "nat \<Rightarrow> string option"
  ic_receiveBuffer :: string
  ic_received :: "(nat \<times> ChannelMessage) list"
  ic_written :: "(nat \<times> string) list"
  ic_disconnected :: nat

definition new_IPCChannel :: IPCChannel where
  "new_IPCChannel = \<lparr>ic_clientSocket = None, ic_server = False, ic_isServerMode = False,
     ic_serverClientSockets = [], ic_clientReceiveBuffers = (\<lambda>_. None), ic_receiveBuffer = [],
     ic_received = [], ic_written = [], ic_disconnected = 0\<rparr>"

definition ic_disconnect :: "IPCChannel \<Rightarrow> IPCChannel" where
  "ic_disconnect ic = ic\<lparr>ic_serverClientSockets := [], ic_clientReceiveBuffers := (\<lambda>_. None),
     ic_receiveBuffer := []\<rparr>"

text \<open>\<open>unconnected\<close>: the sockets in \<^verbatim>\<open>UnconnectedState\<close>; \<open>new\<close> is the socket made when there is none.\<close>

definition ic_connect :: "(nat \<Rightarrow> bool) \<Rightarrow> nat \<Rightarrow> IPCChannel \<Rightarrow> IPCChannel" where
  "ic_connect unconnected new ic =
     (let ic = (case ic_clientSocket ic of
                  Some s \<Rightarrow> if \<not> unconnected s then ic_disconnect ic else ic
                | None \<Rightarrow> ic);
          ic = ic\<lparr>ic_isServerMode := False\<rparr>
      in case ic_clientSocket ic of
           Some s \<Rightarrow> ic
         | None \<Rightarrow> ic\<lparr>ic_clientSocket := Some new\<rparr>)"

definition ic_listen :: "IPCChannel \<Rightarrow> IPCChannel" where
  "ic_listen ic = ic\<lparr>ic_isServerMode := True, ic_server := True\<rparr>"

definition ic_isConnected :: "(nat \<Rightarrow> bool) \<Rightarrow> IPCChannel \<Rightarrow> bool" where
  "ic_isConnected conn ic =
     (if ic_isServerMode ic then list_ex conn (ic_serverClientSockets ic)
      else case ic_clientSocket ic of Some s \<Rightarrow> conn s | None \<Rightarrow> False)"

definition ic_send :: "Qt_Bytes \<Rightarrow> (nat \<Rightarrow> bool) \<Rightarrow> ChannelMessage \<Rightarrow> IPCChannel \<Rightarrow> IPCChannel" where
  "ic_send qt conn msg ic =
     (case serialize qt msg of
        None \<Rightarrow> ic
      | Some bufferData \<Rightarrow>
          let targets = filter conn
                (if ic_isServerMode ic then ic_serverClientSockets ic
                 else case ic_clientSocket ic of Some s \<Rightarrow> [s] | None \<Rightarrow> [])
          in ic\<lparr>ic_written := ic_written ic @ map (\<lambda>s. (s, bufferData)) targets\<rparr>)"

text \<open>
  The loop over the complete messages of a buffer; it may run forever, so its result is an option.
  Sums of an \<^verbatim>\<open>int\<close> and the \<^verbatim>\<open>uint32_t\<close> wrap around, the first of them is then read as an \<^verbatim>\<open>int\<close>;
  the size of the data is computed in 64 bits.
\<close>

definition frame_data :: "Qt_Bytes \<Rightarrow> string \<Rightarrow> nat \<Rightarrow> string" where
  "frame_data qt messageData dataSize =
     (let raw = take dataSize (drop 4 messageData) in raw @ drop (length raw) (qb_resize qt dataSize))"

partial_function (option) processReceiveBuffer ::
    "Qt_Bytes \<Rightarrow> string \<Rightarrow> ChannelMessage list \<Rightarrow> (string \<times> ChannelMessage list) option" where
  "processReceiveBuffer qt buffer emitted =
     (if length buffer < 4 then Some (buffer, emitted)
      else
        let messageSize = qb_get qt (qb_left qt buffer 4) in
        if int (length buffer) < sint (4 + messageSize) then Some (buffer, emitted)
        else
          let messageData = qb_mid qt buffer 4 (uint messageSize);
              buffer = qb_remove qt buffer 0 (uint (4 + messageSize));
              messageType = qb_get qt messageData;
              dataSize = (ucast messageSize :: u64) - 4
          in if INT_MAX \<le> unat dataSize then processReceiveBuffer qt buffer emitted
             else processReceiveBuffer qt buffer
               (emitted @ [\<lparr>cm_type = messageType,
                            cm_data = (if 0 < dataSize then Some (frame_data qt messageData (unat dataSize)) else None),
                            cm_size = unat dataSize\<rparr>]))"

text \<open>The slot for arrived bytes; the map of buffers adds an empty one for a socket it does not know.\<close>

definition onReadyRead :: "Qt_Bytes \<Rightarrow> nat \<Rightarrow> string \<Rightarrow> IPCChannel \<Rightarrow> IPCChannel option" where
  "onReadyRead qt s bytes ic =
     (if ic_isServerMode ic then
        let buffer = (case ic_clientReceiveBuffers ic s of None \<Rightarrow> [] | Some b \<Rightarrow> b) @ bytes in
        Option.bind (processReceiveBuffer qt buffer []) (\<lambda>(buffer, emitted).
          Some (ic\<lparr>ic_clientReceiveBuffers := (ic_clientReceiveBuffers ic)(s \<mapsto> buffer),
                   ic_received := ic_received ic @ map (Pair s) emitted\<rparr>))
      else
        Option.bind (processReceiveBuffer qt (ic_receiveBuffer ic @ bytes) []) (\<lambda>(buffer, emitted).
          Some (ic\<lparr>ic_receiveBuffer := buffer, ic_received := ic_received ic @ map (Pair s) emitted\<rparr>)))"

definition onNewConnection :: "nat option \<Rightarrow> IPCChannel \<Rightarrow> IPCChannel" where
  "onNewConnection pending ic =
     (if \<not> ic_server ic then ic
      else case pending of
          None \<Rightarrow> ic
        | Some s \<Rightarrow> ic\<lparr>ic_serverClientSockets := ic_serverClientSockets ic @ [s],
                       ic_clientReceiveBuffers := (ic_clientReceiveBuffers ic)(s \<mapsto> [])\<rparr>)"

definition onDisconnected :: "nat \<Rightarrow> IPCChannel \<Rightarrow> IPCChannel" where
  "onDisconnected s ic =
     (let ic = (if ic_isServerMode ic
                then ic\<lparr>ic_serverClientSockets := remove1 s (ic_serverClientSockets ic),
                        ic_clientReceiveBuffers := (ic_clientReceiveBuffers ic)(s := None)\<rparr>
                else ic\<lparr>ic_receiveBuffer := []\<rparr>)
      in ic\<lparr>ic_disconnected := Suc (ic_disconnected ic)\<rparr>)"

datatype LocalSocketError =
  PeerClosedError | ConnectionRefusedError | SocketAccessError | SocketResourceError | OtherSocketError

definition onError :: "nat \<Rightarrow> LocalSocketError \<Rightarrow> IPCChannel \<Rightarrow> IPCChannel" where
  "onError s error ic = (if error \<noteq> OtherSocketError then onDisconnected s ic else ic)"

section \<open>What the bytes of a frame are\<close>

definition frame :: "Qt_Bytes \<Rightarrow> ChannelMessage \<Rightarrow> string" where
  "frame qt m = qb_put qt (4 + word_of_nat (cm_size m)) @ qb_put qt (cm_type m) @
     (case cm_data m of Some d \<Rightarrow> d | None \<Rightarrow> [])"

text \<open>A message whose size is that of its data, and whose frame is shorter than 2 GB.\<close>

definition sendable :: "ChannelMessage \<Rightarrow> bool" where
  "sendable m \<longleftrightarrow> cm_size m + 8 < 2 ^ 31 \<and> (case cm_data m of None \<Rightarrow> cm_size m = 0 | Some d \<Rightarrow> length d = cm_size m)"

definition arrived :: "ChannelMessage \<Rightarrow> ChannelMessage" where
  "arrived m = m\<lparr>cm_data := (if cm_size m = 0 then None else cm_data m)\<rparr>"

lemma qt_simps:
  assumes "qt_documented qt"
  shows "0 \<le> n \<Longrightarrow> qb_left qt b n = take (nat n) b"
    and "0 \<le> p \<Longrightarrow> 0 \<le> n \<Longrightarrow> qb_mid qt b p n = take (nat n) (drop (nat p) b)"
    and "0 \<le> p \<Longrightarrow> 0 \<le> n \<Longrightarrow> qb_remove qt b p n = take (nat p) b @ drop (nat (p + n)) b"
    and "length (qb_put qt x) = 4"
    and "qb_get qt (qb_put qt x @ r) = x"
    and "qb_get qt (qb_put qt x) = x"
    and "length (qb_resize qt k) = k"
  using assms unfolding qt_documented_def by (blast, blast, blast, blast, blast, metis append_Nil2, blast)

lemma serialize_frame: "sendable m \<Longrightarrow> serialize qt m = Some (frame qt m)"
  by (auto simp: sendable_def serialize_def frame_def Let_def INT_MAX_def split: option.splits)

lemma frame_length: "qt_documented qt \<Longrightarrow> sendable m \<Longrightarrow> length (frame qt m) = 8 + cm_size m"
  by (auto simp: frame_def sendable_def qt_simps split: option.splits)

text \<open>The numbers of a frame.\<close>

lemma frame_numbers:
  assumes "n + 8 < 2 ^ 31"
  shows "sint (4 + (4 + word_of_nat n) :: u32) = int n + 8"
    and "uint (4 + (4 + word_of_nat n) :: u32) = int n + 8"
    and "uint (4 + word_of_nat n :: u32) = int n + 4"
    and "unat ((ucast (4 + word_of_nat n :: u32) :: u64) - 4) = n"
proof -
  have u: "4 + (4 + word_of_nat n) = (word_of_nat (n + 8) :: u32)" "4 + word_of_nat n = (word_of_nat (n + 4) :: u32)"
    by simp_all
  have uint: "uint (word_of_nat k :: u32) = int k" if "k < 2 ^ 32" for k
    using that by (simp add: unsigned_of_nat take_bit_nat_eq_self)
  show "uint (4 + (4 + word_of_nat n) :: u32) = int n + 8"
    unfolding u(1) using assms by (subst uint) simp_all
  show "uint (4 + word_of_nat n :: u32) = int n + 4"
    unfolding u(2) using assms by (subst uint) simp_all
  show "sint (4 + (4 + word_of_nat n) :: u32) = int n + 8"
    unfolding u(1) using assms by (subst sint_uint, subst uint) (simp_all add: signed_take_bit_int_eq_self)
  have "(ucast (word_of_nat (n + 4) :: u32) :: u64) = word_of_nat (n + 4)"
    using assms by (subst unsigned_of_nat) (simp add: take_bit_nat_eq_self)
  then have "(ucast (4 + word_of_nat n :: u32) :: u64) - 4 = word_of_nat n" unfolding u(2) by simp
  then show "unat ((ucast (4 + word_of_nat n :: u32) :: u64) - 4) = n"
    using assms by (simp add: unsigned_of_nat take_bit_nat_eq_self)
qed

end
