(* ===== verification/Ipc_Delivery.thy ===== *)
theory Ipc_Delivery
  imports Ipc_Channel "HOL-Library.Sublist"
begin

text \<open>
  What the channel makes of a stream of bytes: each client's messages arrive once and in order
  however the bytes are cut into pieces and interleaved with those of other clients; and which
  headers stop it.
\<close>

lemma ex2I: "P a b \<Longrightarrow> \<exists>x y. P x y"
  by blast

lemma ex3I: "P a b c \<Longrightarrow> \<exists>x y z. P x y z"
  by blast

section \<open>One buffer\<close>

declare processReceiveBuffer.simps [simp del]

text \<open>A header of a frame is known as soon as four bytes are there.\<close>

lemma prefix_header:
  assumes "qt_documented qt" and "prefix b (frame qt m @ r)" and "4 \<le> length b"
  shows "qb_left qt b 4 = qb_put qt (4 + word_of_nat (cm_size m))"
proof -
  have "qb_left qt b 4 = take 4 (frame qt m @ r)"
    using assms by (auto simp: qt_simps prefix_def simp del: take_append) simp
  also have "\<dots> = qb_put qt (4 + word_of_nat (cm_size m))"
    using qt_simps(4) [OF assms(1)] by (simp add: frame_def)
  finally show ?thesis .
qed

lemma process_waits:
  assumes "qt_documented qt" and "sendable m" and "prefix b (frame qt m)" and "length b < length (frame qt m)"
  shows "processReceiveBuffer qt b out = Some (b, out)"
proof (cases "length b < 4")
  case True
  then show ?thesis by (simp add: processReceiveBuffer.simps)
next
  case False
  have "qb_get qt (qb_left qt b 4) = 4 + word_of_nat (cm_size m)"
    using prefix_header [of qt b m "[]"] assms(1,3) False by (simp add: qt_simps)
  moreover have "int (length b) < sint (4 + (4 + word_of_nat (cm_size m)) :: u32)"
    using assms frame_length [OF assms(1,2)] frame_numbers(1) by (simp add: sendable_def)
  ultimately show ?thesis by (subst processReceiveBuffer.simps) (simp add: Let_def)
qed

lemma process_frame:
  assumes qt: "qt_documented qt" and m: "sendable m"
  shows "processReceiveBuffer qt (frame qt m @ b) out = processReceiveBuffer qt b (out @ [arrived m])"
proof -
  let ?n = "cm_size m" and ?b = "frame qt m @ b"
  have n: "?n + 8 < 2 ^ 31" using m by (simp add: sendable_def)
  have len: "length (frame qt m) = 8 + ?n" by (rule frame_length [OF qt m])
  have put: "length (qb_put qt x) = 4" for x using qt by (rule qt_simps)
  define pay where "pay = (case cm_data m of Some d \<Rightarrow> d | None \<Rightarrow> [])"
  have pay: "length pay = ?n" using m by (auto simp: sendable_def pay_def split: option.splits)
  have head: "qb_get qt (qb_left qt ?b 4) = 4 + word_of_nat ?n"
    using prefix_header [of qt ?b m b] qt len by (simp add: qt_simps)
  have mid: "qb_mid qt ?b 4 (int ?n + 4) = qb_put qt (cm_type m) @ pay"
    using pay put by (simp add: qt_simps [OF qt] frame_def pay_def nat_add_distrib)
  have rem: "qb_remove qt ?b 0 (int ?n + 8) = b"
    using len by (simp add: qt_simps [OF qt] nat_add_distrib)
  have small: "\<not> INT_MAX \<le> ?n" using n by (simp add: INT_MAX_def)
  have fit: "\<not> int (length ?b) < int ?n + 8" using len by simp
  have pos: "0 < (ucast (4 + word_of_nat ?n :: u32) :: u64) - 4 \<longleftrightarrow> 0 < ?n"
    using frame_numbers(4) [OF n] by (metis unat_gt_0 word_gt_0 gr0I unat_0 unsigned_0)
  have dat: "frame_data qt (qb_put qt (cm_type m) @ pay) ?n = pay"
    using put pay by (simp add: frame_data_def Let_def qt_simps [OF qt])
  have msg: "\<lparr>cm_type = cm_type m, cm_data = (if 0 < ?n then Some pay else None), cm_size = ?n\<rparr> = arrived m"
    using m by (cases m) (auto simp: arrived_def pay_def sendable_def split: option.splits)
  have four: "\<not> length ?b < 4" using len by simp
  show ?thesis
    by (subst processReceiveBuffer.simps)
      (simp only: Let_def head frame_numbers [OF n] mid rem fit four small if_False if_True qt_simps(5) [OF qt]
        pos dat msg)
qed

section \<open>A stream\<close>

definition stream :: "Qt_Bytes \<Rightarrow> ChannelMessage list \<Rightarrow> string" where
  "stream qt ms = concat (map (frame qt) ms)"

lemma stream_simps [simp]:
  "stream qt [] = []" "stream qt (m # ms) = frame qt m @ stream qt ms"
  by (simp_all add: stream_def)

text \<open>What is left in the buffer: the beginning of the next frame.\<close>

definition waiting :: "Qt_Bytes \<Rightarrow> ChannelMessage list \<Rightarrow> string \<Rightarrow> bool" where
  "waiting qt ms b \<longleftrightarrow> (case ms of [] \<Rightarrow> b = [] | m # _ \<Rightarrow> strict_prefix b (frame qt m))"

lemma process_stream:
  assumes qt: "qt_documented qt" and ms: "\<forall>m\<in>set ms. sendable m" and b: "prefix b (stream qt ms)"
  shows "\<exists>done left' b'. ms = done @ left' \<and> b = stream qt done @ b' \<and> waiting qt left' b' \<and>
    processReceiveBuffer qt b out = Some (b', out @ map arrived done)"
  using ms b
proof (induction ms arbitrary: b out)
  case Nil
  then show ?case
    by (intro exI [of _ "[]"]) (simp add: waiting_def processReceiveBuffer.simps)
next
  case (Cons m ms)
  have m: "sendable m" using Cons.prems by simp
  have "prefix b (frame qt m) \<or> (\<exists>r. b = frame qt m @ r \<and> prefix r (stream qt ms))"
    using Cons.prems(2) by (simp add: prefix_append)
  then consider (part) "strict_prefix b (frame qt m)" | (whole) r where "b = frame qt m @ r" "prefix r (stream qt ms)"
    by (metis append_Nil2 Nil_prefix strict_prefix_def)
  then show ?case
  proof cases
    case part
    then have "processReceiveBuffer qt b out = Some (b, out)"
      by (intro process_waits [OF qt m]) (auto simp: strict_prefix_def dest: prefix_length_less simp: prefix_length_less)
    then show ?thesis using part
      by (intro ex3I [of _ "[]" "m # ms" b]) (simp add: waiting_def)
  next
    case whole
    obtain dn lf b' where r: "ms = dn @ lf" "r = stream qt dn @ b'" "waiting qt lf b'"
      "processReceiveBuffer qt r (out @ [arrived m]) = Some (b', (out @ [arrived m]) @ map arrived dn)"
      using Cons.IH [OF _ whole(2), of "out @ [arrived m]"] Cons.prems by auto
    then show ?thesis using whole(1) process_frame [OF qt m]
      by (intro ex3I [of _ "m # dn" lf b']) simp
  qed
qed

text \<open>The next piece of a stream.\<close>

lemma stream_append: "stream qt (xs @ ys) = stream qt xs @ stream qt ys"
  by (simp add: stream_def)

lemma process_piece:
  assumes qt: "qt_documented qt" and ms: "\<forall>m\<in>set (dn @ lf). sendable m"
    and b: "prefix (stream qt dn @ b @ piece) (stream qt (dn @ lf))"
  shows "\<exists>more' lf' b'. lf = more' @ lf' \<and> b @ piece = stream qt more' @ b' \<and> waiting qt lf' b' \<and>
    processReceiveBuffer qt (b @ piece) [] = Some (b', map arrived more')"
proof -
  have "prefix (b @ piece) (stream qt lf)" using b by (simp add: stream_append)
  from process_stream [OF qt _ this, of "[]"] ms show ?thesis by auto
qed

section \<open>The server\<close>

text \<open>Pieces arrive on sockets, in any order.\<close>

fun feed :: "Qt_Bytes \<Rightarrow> (nat \<times> string) list \<Rightarrow> IPCChannel \<Rightarrow> IPCChannel option" where
  "feed qt [] ic = Some ic"
| "feed qt (a # as) ic = Option.bind (onReadyRead qt (fst a) (snd a) ic) (feed qt as)"

definition bytes_of :: "nat \<Rightarrow> (nat \<times> string) list \<Rightarrow> string" where
  "bytes_of c as = concat (map snd (filter (\<lambda>a. fst a = c) as))"

definition received_from :: "nat \<Rightarrow> IPCChannel \<Rightarrow> ChannelMessage list" where
  "received_from c ic = map snd (filter (\<lambda>r. fst r = c) (ic_received ic))"

definition buffer_of :: "nat \<Rightarrow> IPCChannel \<Rightarrow> string" where
  "buffer_of c ic = (case ic_clientReceiveBuffers ic c of None \<Rightarrow> [] | Some b \<Rightarrow> b)"

lemma bytes_of_append: "bytes_of c (as @ bs) = bytes_of c as @ bytes_of c bs"
  by (simp add: bytes_of_def)

text \<open>Each client's bytes are the frames of the messages received, and what its buffer holds.\<close>

definition client_inv ::
    "Qt_Bytes \<Rightarrow> ChannelMessage list \<Rightarrow> string \<Rightarrow> nat \<Rightarrow> IPCChannel \<Rightarrow> bool" where
  "client_inv qt ms bytes c ic \<longleftrightarrow> (\<exists>dn lf. ms = dn @ lf \<and> bytes = stream qt dn @ buffer_of c ic \<and>
     waiting qt lf (buffer_of c ic) \<and> received_from c ic = map arrived dn)"

lemma client_inv_frame:
  "client_inv qt ms bytes c ic \<Longrightarrow> buffer_of c ic' = buffer_of c ic \<Longrightarrow> received_from c ic' = received_from c ic \<Longrightarrow>
   client_inv qt ms bytes c ic'"
  by (simp add: client_inv_def)

lemma onReadyRead_step:
  assumes qt: "qt_documented qt" and sv: "ic_isServerMode ic"
    and ms: "\<forall>m\<in>set ms. sendable m" and inv: "client_inv qt ms bytes s ic"
    and p: "prefix (bytes @ piece) (stream qt ms)"
  shows "\<exists>ic'. onReadyRead qt s piece ic = Some ic' \<and> ic_isServerMode ic' \<and>
    client_inv qt ms (bytes @ piece) s ic' \<and>
    (\<forall>c. c \<noteq> s \<longrightarrow> buffer_of c ic' = buffer_of c ic \<and> received_from c ic' = received_from c ic)"
proof -
  obtain dn lf where d: "ms = dn @ lf" "bytes = stream qt dn @ buffer_of s ic" "received_from s ic = map arrived dn"
    using inv by (auto simp: client_inv_def)
  obtain mo lf' b' where m: "lf = mo @ lf'" "buffer_of s ic @ piece = stream qt mo @ b'" "waiting qt lf' b'"
      "processReceiveBuffer qt (buffer_of s ic @ piece) [] = Some (b', map arrived mo)"
    using process_piece [OF qt, of dn lf "buffer_of s ic" piece] ms p d by auto
  let ?ic = "ic\<lparr>ic_clientReceiveBuffers := (ic_clientReceiveBuffers ic)(s \<mapsto> b'),
    ic_received := ic_received ic @ map (Pair s) (map arrived mo)\<rparr>"
  have step: "onReadyRead qt s piece ic = Some ?ic"
    using sv m(4) by (simp add: onReadyRead_def buffer_of_def Let_def)
  have own: "buffer_of s ?ic = b'" "received_from s ?ic = map arrived (dn @ mo)"
    using d(3) by (simp_all add: buffer_of_def received_from_def filter_map comp_def)
  have "client_inv qt ms (bytes @ piece) s ?ic"
    unfolding client_inv_def own using d m by (intro ex2I [of _ "dn @ mo" lf']) (simp add: stream_append)
  moreover have "buffer_of c ?ic = buffer_of c ic" "received_from c ?ic = received_from c ic" if "c \<noteq> s" for c
    using that by (simp_all add: buffer_of_def received_from_def filter_map comp_def)
  ultimately show ?thesis using step sv by auto
qed

lemma feed_inv:
  assumes qt: "qt_documented qt" and ms: "\<forall>c. \<forall>m\<in>set (sent c). sendable m"
  shows "ic_isServerMode ic \<Longrightarrow> \<forall>c. client_inv qt (sent c) (bytes_of c before) c ic \<Longrightarrow>
    \<forall>c. prefix (bytes_of c (before @ as)) (stream qt (sent c)) \<Longrightarrow>
    \<exists>ic'. feed qt as ic = Some ic' \<and> (\<forall>c. client_inv qt (sent c) (bytes_of c (before @ as)) c ic')"
proof (induction as arbitrary: before ic)
  case Nil
  then show ?case by simp
next
  case (Cons a as)
  obtain s piece where a: "a = (s, piece)" by fastforce
  have bytes: "bytes_of s (before @ [a]) = bytes_of s before @ piece"
    "c \<noteq> s \<Longrightarrow> bytes_of c (before @ [a]) = bytes_of c before" for c
    by (auto simp: bytes_of_def a)
  have pre: "prefix (bytes_of c (before @ [a])) (stream qt (sent c))" for c
    using Cons.prems(3) [rule_format, of c] bytes_of_append [of c "before @ [a]" as]
    by (metis append.assoc append_Cons append_Nil append_prefixD)
  have all: "\<forall>m\<in>set (sent s). sendable m" using ms by blast
  obtain ic1 where ic1: "onReadyRead qt s piece ic = Some ic1" "ic_isServerMode ic1"
      "client_inv qt (sent s) (bytes_of s before @ piece) s ic1"
      "\<And>c. c \<noteq> s \<Longrightarrow> buffer_of c ic1 = buffer_of c ic \<and> received_from c ic1 = received_from c ic"
    using onReadyRead_step [OF qt Cons.prems(1) all Cons.prems(2) [rule_format, of s], of piece]
      pre [of s] unfolding bytes(1) by blast
  have "client_inv qt (sent c) (bytes_of c (before @ [a])) c ic1" for c
    using ic1(3,4) bytes Cons.prems(2) client_inv_frame by (cases "c = s") metis+
  then obtain ic' where "feed qt as ic1 = Some ic'"
      "\<forall>c. client_inv qt (sent c) (bytes_of c ((before @ [a]) @ as)) c ic'"
    using Cons.IH [OF ic1(2), of "before @ [a]"] Cons.prems(3) by auto
  then show ?case using ic1(1) by (simp add: a)
qed

section \<open>The sender\<close>

lemma send_written:
  assumes "\<forall>m\<in>set ms. sendable m" and "\<not> ic_isServerMode ic" and "ic_clientSocket ic = Some s" and "conn s"
  shows "ic_written (fold (ic_send qt conn) ms ic) = ic_written ic @ map (\<lambda>m. (s, frame qt m)) ms"
  using assms
proof (induction ms arbitrary: ic)
  case (Cons m ms)
  have "ic_send qt conn m ic = ic\<lparr>ic_written := ic_written ic @ [(s, frame qt m)]\<rparr>"
    using Cons.prems by (simp add: ic_send_def serialize_frame Let_def)
  then show ?case using Cons by simp
qed simp

text \<open>What a client writes that connects and sends the messages.\<close>

definition client_writes :: "Qt_Bytes \<Rightarrow> ChannelMessage list \<Rightarrow> string" where
  "client_writes qt ms =
     concat (map snd (ic_written (fold (ic_send qt (\<lambda>_. True)) ms (ic_connect (\<lambda>_. True) 0 new_IPCChannel))))"

lemma client_writes_stream: "\<forall>m\<in>set ms. sendable m \<Longrightarrow> client_writes qt ms = stream qt ms"
  unfolding client_writes_def
  by (subst send_written [of _ _ 0]) (simp_all add: ic_connect_def new_IPCChannel_def Let_def stream_def comp_def)

lemma waiting_all:
  assumes "stream qt dn @ b = stream qt (dn @ lf)" and "waiting qt lf b"
  shows "lf = [] \<and> b = []"
proof (cases lf)
  case Nil
  then show ?thesis using assms by (simp add: waiting_def)
next
  case (Cons m lf')
  then have "b = frame qt m @ stream qt lf'" using assms(1) by (simp add: stream_append)
  then show ?thesis using assms(2) Cons by (auto simp: waiting_def strict_prefix_def prefix_def)
qed

section \<open>A header that stops the channel\<close>

lemma bad_header_numbers:
  "sint (4 + (0xFFFFFFFC :: u32)) = 0" "uint (4 + (0xFFFFFFFC :: u32)) = 0"
  "INT_MAX \<le> unat ((ucast (0xFFFFFFFC :: u32) :: u64) - 4)"
  by (simp_all add: INT_MAX_def)

lemma process_hangs:
  assumes qt: "qt_documented qt"
  shows "processReceiveBuffer qt (qb_put qt 0xFFFFFFFC @ r) out = None"
proof -
  have put: "qb_left qt (qb_put qt x @ r) 4 = qb_put qt x" for x
    using qt_simps(1,4) [OF qt] by simp
  have rem: "qb_remove qt b 0 0 = b" for b
    using qt_simps(3) [OF qt, of 0 0 b] by simp
  have "qt' = qt \<longrightarrow> b = qb_put qt 0xFFFFFFFC @ r \<longrightarrow> False"
    if "processReceiveBuffer qt' b out' = Some y" for qt' b out' y
  proof (rule processReceiveBuffer.raw_induct
      [where P = "\<lambda>qt' b out' y. qt' = qt \<longrightarrow> b = qb_put qt 0xFFFFFFFC @ r \<longrightarrow> False", OF _ that], intro impI)
    fix f qt' b out' y
    assume IH: "\<And>qt' b out' y. f qt' b out' = Some y \<Longrightarrow> qt' = qt \<longrightarrow> b = qb_put qt 0xFFFFFFFC @ r \<longrightarrow> False"
      and eq: "(if length b < 4 then Some (b, out')
         else let messageSize = qb_get qt' (qb_left qt' b 4) in
           if int (length b) < sint (4 + messageSize) then Some (b, out')
           else let messageData = qb_mid qt' b 4 (uint messageSize);
                    buffer = qb_remove qt' b 0 (uint (4 + messageSize));
                    messageType = qb_get qt' messageData;
                    dataSize = (ucast messageSize :: u64) - 4
                in if INT_MAX \<le> unat dataSize then f qt' buffer out'
                   else f qt' buffer
                     (out' @ [\<lparr>cm_type = messageType,
                       cm_data = (if 0 < dataSize then Some (frame_data qt' messageData (unat dataSize)) else None),
                       cm_size = unat dataSize\<rparr>])) = Some y"
      and b: "qt' = qt" "b = qb_put qt 0xFFFFFFFC @ r"
    have "\<not> length b < 4" "qb_get qt (qb_left qt b 4) = 0xFFFFFFFC"
      using b qt_simps(4,6) [OF qt] put by simp_all
    then have "f qt b out' = Some y"
      using eq by (simp only: b(1) Let_def bad_header_numbers rem if_False if_True of_nat_less_0_iff)
    then show False using IH b by blast
  qed
  then show ?thesis by (metis option.exhaust)
qed

lemma process_returns:
  assumes qt: "qt_documented qt"
  shows "\<forall>i. i + 4 \<le> length b \<longrightarrow> qb_get qt (take 4 (drop i b)) \<noteq> 0xFFFFFFFC \<Longrightarrow>
    \<exists>y. processReceiveBuffer qt b out = Some y"
proof (induction "length b" arbitrary: b out rule: less_induct)
  case less
  show ?case
  proof (cases "length b < 4")
    case True
    then show ?thesis by (simp add: processReceiveBuffer.simps)
  next
    case False
    let ?n = "qb_get qt (qb_left qt b 4)"
    let ?b = "qb_remove qt b 0 (uint (4 + ?n))"
    have "?n \<noteq> 0xFFFFFFFC" using less.prems [rule_format, of 0] False by (simp add: qt_simps [OF qt])
    then have "4 + ?n \<noteq> 0"
      by (auto simp: add_eq_0_iff)
    then have pos: "0 < uint (4 + ?n)" by (metis uint_0_iff uint_ge_0 order_less_le)
    have b: "?b = drop (nat (uint (4 + ?n))) b" by (simp add: qt_simps [OF qt])
    have smaller: "length ?b < length b" using b pos False by (simp add: zero_less_nat_eq flip: nat_uint_eq)
    have "\<forall>i. i + 4 \<le> length ?b \<longrightarrow> qb_get qt (take 4 (drop i ?b)) \<noteq> 0xFFFFFFFC"
      unfolding b using less.prems by (simp add: add.commute)
    then have "\<exists>y. processReceiveBuffer qt ?b out' = Some y" for out'
      using less.hyps [OF smaller] by blast
    then show ?thesis using False by (subst processReceiveBuffer.simps) (simp add: Let_def)
  qed
qed

section \<open>The library as functions on lists\<close>

definition plain_qt :: Qt_Bytes where
  "plain_qt =
     \<lparr>qb_left = (\<lambda>b n. take (nat n) b), qb_mid = (\<lambda>b p n. take (nat n) (drop (nat p) b)),
      qb_remove = (\<lambda>b p n. take (nat p) b @ drop (nat (p + n)) b),
      qb_resize = (\<lambda>n. replicate n CHR 0x00),
      qb_put = (\<lambda>x. map (\<lambda>i. char_of (unat x div 256 ^ i)) [3, 2, 1, 0]),
      qb_get = (\<lambda>b. word_of_nat (foldl (\<lambda>a c. a * 256 + of_char c) 0 (take 4 b)))\<rparr>"

lemma four_bytes:
  assumes "n < 4294967296"
  shows "(((n div 16777216) mod 256 * 256 + (n div 65536) mod 256) * 256 + (n div 256) mod 256) * 256 + n mod 256 = (n :: nat)"
proof -
  have q: "n div 65536 = n div 256 div 256" "n div 16777216 = n div 256 div 256 div 256"
    by (simp_all add: div_mult2_eq [symmetric])
  have "n div 256 div 256 div 256 < 256" using assms by (simp add: div_mult2_eq [symmetric] less_mult_imp_div_less)
  then show ?thesis unfolding q by (simp only: mod_less div_mult_mod_eq)
qed

lemma plain_qt_documented: "qt_documented plain_qt"
proof -
  have "qb_get plain_qt (qb_put plain_qt x @ r) = x" for x r
  proof -
    have "unat x < 4294967296" using unsigned_less [of x] by simp
    then have fold: "foldl (\<lambda>a c. a * 256 + of_char c) 0 (map (\<lambda>i. char_of (unat x div 256 ^ i)) [3, 2, 1, 0]) = unat x"
      using four_bytes [of "unat x"] by (simp add: algebra_simps)
    have put: "take 4 (qb_put plain_qt x @ r) = map (\<lambda>i. char_of (unat x div 256 ^ i)) [3, 2, 1, 0]"
      by (simp add: plain_qt_def)
    have "qb_get plain_qt b = word_of_nat (foldl (\<lambda>a c. a * 256 + of_char c) 0 (take 4 b))" for b
      by (simp add: plain_qt_def)
    then show ?thesis by (simp only: put fold) simp
  qed
  then show ?thesis by (simp add: qt_documented_def) (simp add: plain_qt_def)
qed

lemma messages_reach:
  assumes "qt_documented qt" and "\<forall>c. \<forall>m\<in>set (sent c). sendable m"
    and "\<forall>c. bytes_of c pieces = client_writes qt (sent c)"
  shows "\<exists>ic. feed qt pieces (fold (\<lambda>c. onNewConnection (Some c)) clients (ic_listen new_IPCChannel)) = Some ic \<and>
    (\<forall>c. received_from c ic = map arrived (sent c) \<and> buffer_of c ic = [])"
proof -
  have start: "ic_isServerMode ic \<and> ic_received ic = [] \<and> (\<forall>c. buffer_of c ic = []) \<Longrightarrow>
      let ic' = fold (\<lambda>c. onNewConnection (Some c)) cs ic
      in ic_isServerMode ic' \<and> ic_received ic' = [] \<and> (\<forall>c. buffer_of c ic' = [])" for cs ic
    by (induction cs arbitrary: ic) (simp_all add: onNewConnection_def buffer_of_def Let_def)
  define ic0 where "ic0 = fold (\<lambda>c. onNewConnection (Some c)) clients (ic_listen new_IPCChannel)"
  have ic0: "ic_isServerMode ic0" "ic_received ic0 = []" "buffer_of c ic0 = []" for c
    using start [of "ic_listen new_IPCChannel" clients]
    by (simp_all add: ic0_def Let_def ic_listen_def new_IPCChannel_def buffer_of_def)
  have writes: "client_writes qt (sent c) = stream qt (sent c)" for c
    using assms(2) by (simp add: client_writes_stream)
  have "client_inv qt (sent c) (bytes_of c []) c ic0" for c
    unfolding client_inv_def
    by (intro ex2I [of _ "[]" "sent c"])
      (auto simp: ic0 bytes_of_def waiting_def received_from_def frame_def strict_prefix_def qt_simps [OF assms(1)]
        split: list.split dest!: arg_cong [of _ _ length])
  then obtain ic where ic: "feed qt pieces ic0 = Some ic"
      "\<forall>c. client_inv qt (sent c) (bytes_of c ([] @ pieces)) c ic"
    using feed_inv [OF assms(1,2) ic0(1), of "[]" pieces] assms(3) writes by auto
  have "received_from c ic = map arrived (sent c) \<and> buffer_of c ic = []" for c
  proof -
    obtain dn lf where d: "sent c = dn @ lf" "stream qt (sent c) = stream qt dn @ buffer_of c ic"
        "waiting qt lf (buffer_of c ic)" "received_from c ic = map arrived dn"
      using ic(2) assms(3) writes unfolding client_inv_def by (metis append_Nil)
    then have "lf = [] \<and> buffer_of c ic = []" by (intro waiting_all [of qt dn]) simp_all
    then show ?thesis using d by simp
  qed
  then show ?thesis using ic(1) by (auto simp: ic0_def)
qed

section \<open>Properties\<close>

text \<open>C13: Messages reach the server as they were sent. However the bytes of the clients are cut into
  pieces and interleaved, once all have arrived the server has received from each client exactly
  that client's messages, in order (a message without data with a null pointer), and no bytes are
  left in its buffers.\<close>

theorem messages_are_delivered:
  assumes "qt_documented qt" and "\<forall>c. \<forall>m\<in>set (sent c). sendable m"
    and "\<forall>c. bytes_of c pieces = client_writes qt (sent c)"
  shows "\<exists>ic. feed qt pieces (fold (\<lambda>c. onNewConnection (Some c)) clients (ic_listen new_IPCChannel)) = Some ic \<and>
    (\<forall>c. received_from c ic = map arrived (sent c) \<and> buffer_of c ic = [])"
  using assms by (rule messages_reach)

definition ex_sent :: "nat \<Rightarrow> ChannelMessage list" where
  "ex_sent c =
     (if c = 1 then [\<lparr>cm_type = 0x5001, cm_data = None, cm_size = 0\<rparr>, \<lparr>cm_type = 0x5002, cm_data = Some ''x'', cm_size = 1\<rparr>]
      else if c = 2 then [\<lparr>cm_type = 0x5005, cm_data = Some [], cm_size = 0\<rparr>]
      else [])"

lemma ex_sendable: "\<forall>c. \<forall>m\<in>set (ex_sent c). sendable m"
  by (simp add: ex_sent_def sendable_def)

definition ex_pieces :: "(nat \<times> string) list" where
  "ex_pieces = (let w = client_writes plain_qt (ex_sent 1) in
     [(1, take 3 w), (2, client_writes plain_qt (ex_sent 2)), (1, drop 3 w)])"

theorem messages_are_delivered_witness:
  "\<exists>ic. feed plain_qt ex_pieces (fold (\<lambda>c. onNewConnection (Some c)) [1, 2] (ic_listen new_IPCChannel)) = Some ic \<and>
     map cm_type (received_from 1 ic) = [0x5001, 0x5002] \<and>
     received_from 2 ic = [\<lparr>cm_type = 0x5005, cm_data = None, cm_size = 0\<rparr>]"
proof -
  have "client_writes plain_qt [] = []" by (simp add: client_writes_stream)
  then have "\<forall>c. bytes_of c ex_pieces = client_writes plain_qt (ex_sent c)"
    by (simp add: bytes_of_def ex_pieces_def Let_def) (simp add: ex_sent_def)
  from messages_are_delivered [OF plain_qt_documented ex_sendable this, of "[1, 2]"]
  obtain ic where "feed plain_qt ex_pieces (fold (\<lambda>c. onNewConnection (Some c)) [1, 2] (ic_listen new_IPCChannel)) = Some ic"
    "received_from c ic = map arrived (ex_sent c)" for c by blast
  then show ?thesis by (intro exI [of _ ic]) (simp add: ex_sent_def arrived_def)
qed

text \<open>C14: A client stops the daemon with four bytes: after any number of complete messages, a header
  of FF FF FF FC is a length for which the frame wraps around to no bytes at all; the loop removes
  nothing, takes its data for too large, and starts again, so the slot never returns.\<close>

theorem four_bytes_stop_the_daemon:
  assumes "qt_documented qt" and "\<forall>m\<in>set ms. sendable m"
    and "ic_isServerMode ic" and "buffer_of s ic = []"
  shows "onReadyRead qt s (client_writes qt ms @ qb_put qt 0xFFFFFFFC @ bytes) ic = None"
proof -
  have "processReceiveBuffer qt (stream qt ms @ qb_put qt 0xFFFFFFFC @ bytes) out = None" for out
    using assms(2)
    by (induction ms arbitrary: out) (simp_all add: process_hangs [OF assms(1)] process_frame [OF assms(1)])
  then show ?thesis
    using assms(3,4) client_writes_stream [OF assms(2)] by (simp add: onReadyRead_def buffer_of_def Let_def)
qed

theorem four_bytes_stop_the_daemon_witness:
  "onReadyRead plain_qt 7 (client_writes plain_qt (ex_sent 1) @ [CHR 0xFF, CHR 0xFF, CHR 0xFF, CHR 0xFC])
     (onNewConnection (Some 7) (ic_listen new_IPCChannel)) = None"
proof -
  have "qb_put plain_qt 0xFFFFFFFC = [CHR 0xFF, CHR 0xFF, CHR 0xFF, CHR 0xFC]"
    by (simp add: plain_qt_def char_of_def bit_Suc_0_iff)
  then show ?thesis
    using four_bytes_stop_the_daemon [OF plain_qt_documented, of "ex_sent 1" _ 7 "[]"] ex_sendable
    by (simp add: onNewConnection_def ic_listen_def new_IPCChannel_def buffer_of_def)
qed

text \<open>That header is the only thing that stops the channel: on bytes, valid frames or not, of which no
  four in a row are that number, the loop ends.\<close>

theorem other_bytes_are_processed:
  assumes "qt_documented qt"
    and "\<forall>i. i + 4 \<le> length (buffer_of s ic @ bytes) \<longrightarrow> qb_get qt (take 4 (drop i (buffer_of s ic @ bytes))) \<noteq> 0xFFFFFFFC"
    and "ic_isServerMode ic"
  shows "\<exists>ic'. onReadyRead qt s bytes ic = Some ic'"
  using process_returns [OF assms(1,2), of "[]"] assms(3) by (auto simp: onReadyRead_def buffer_of_def Let_def)

theorem other_bytes_are_processed_witness:
  "\<exists>ic. onReadyRead plain_qt 7 [CHR 0xFF, CHR 0xFF, CHR 0xFF, CHR 0xFD, CHR 0x00]
     (onNewConnection (Some 7) (ic_listen new_IPCChannel)) = Some ic"
proof -
  let ?ic = "onNewConnection (Some 7) (ic_listen new_IPCChannel)"
  let ?b = "[CHR 0xFF, CHR 0xFF, CHR 0xFF, CHR 0xFD, CHR 0x00]"
  have ic: "buffer_of 7 ?ic = []" "ic_isServerMode ?ic"
    by (simp_all add: onNewConnection_def ic_listen_def new_IPCChannel_def buffer_of_def)
  have "list_all (\<lambda>i. qb_get plain_qt (take 4 (drop i ?b)) \<noteq> 0xFFFFFFFC) [0, 1]"
    by (simp add: plain_qt_def)
  then have "\<forall>i. i + 4 \<le> length ?b \<longrightarrow> qb_get plain_qt (take 4 (drop i ?b)) \<noteq> 0xFFFFFFFC"
    by (auto simp: le_Suc_eq numeral_eq_Suc)
  then show ?thesis using other_bytes_are_processed [OF plain_qt_documented, of 7 ?ic ?b] ic by simp
qed

end
