(* ===== verification/Engine_Ipc.thy ===== *)
theory Engine_Ipc
  imports Engine_State Config_List
begin

text \<open>
  Commands of the graphical interface to the engine (src/core/engine/engine_ipc_handler.cpp): each
  is a message with bytes, each answer a status and a list of configurations in fields of fixed
  size. The handler works on the engine and on the configuration manager; the notifications of the
  switch itself, and the investigation of windows, are left out.
\<close>

section \<open>Messages\<close>

text \<open>The numbers of \<^verbatim>\<open>yamy::MessageType\<close> the handler knows, and those of \<^verbatim>\<open>yamy::ipc::MessageType\<close>.\<close>

definition CmdGetStatus :: nat where "CmdGetStatus = 0x5001"
definition CmdSetEnabled :: nat where "CmdSetEnabled = 0x5002"
definition CmdSwitchConfig :: nat where "CmdSwitchConfig = 0x5003"
definition CmdReloadConfig :: nat where "CmdReloadConfig = 0x5004"
definition CmdGetLockStatus :: nat where "CmdGetLockStatus = 0x5005"
definition CmdAddConfig :: nat where "CmdAddConfig = 0x5006"
definition CmdRemoveConfig :: nat where "CmdRemoveConfig = 0x5007"
definition CmdEnableInvestigateMode :: nat where "CmdEnableInvestigateMode = 0x1003"
definition CmdDisableInvestigateMode :: nat where "CmdDisableInvestigateMode = 0x1004"

lemmas command_defs = CmdGetStatus_def CmdSetEnabled_def CmdSwitchConfig_def CmdReloadConfig_def
  CmdGetLockStatus_def CmdAddConfig_def CmdRemoveConfig_def CmdEnableInvestigateMode_def
  CmdDisableInvestigateMode_def

definition kMaxConfigNameLength :: nat where "kMaxConfigNameLength = 256"
definition kMaxStatusMessageLength :: nat where "kMaxStatusMessageLength = 256"
definition kMaxConfigEntries :: nat where "kMaxConfigEntries = 16"

text \<open>The payload is None for a null pointer; its size is otherwise the number of its bytes.\<close>

record Message =
  msg_type :: nat
  msg_data :: "string option"

datatype Response =
    RspStatus (rs_running: bool) (rs_enabled: bool) (rs_activeConfig: string) (rs_lastError: string)
  | RspConfigList (rc_count: nat) (rc_configs: "string list")
  | LockStatusUpdate "u32 list"

section \<open>The process\<close>

record 's Daemon =
  dm_engine :: Engine
  dm_running :: bool
  dm_manager :: "'s ConfigManager"
  dm_connected :: bool
  dm_investigate :: bool
  dm_sent :: "Response list"

text \<open>What the calls need of the outside: the kernel's codes, the layout, the loader and whether the
  engine is busy at each try, the store's operations and the file system.\<close>

record 's Outside =
  ou_ev :: "evkey \<Rightarrow> u16"
  ou_layout :: string
  ou_load :: "string \<Rightarrow> Setting option"
  ou_busy :: "nat \<Rightarrow> bool"
  ou_store :: "'s ConfigStore"
  ou_files :: File_System

definition NUL :: char where "NUL = CHR 0x00"

text \<open>Into a field of a given length, cut off and ended by zeros.\<close>

definition copyStringField :: "nat \<Rightarrow> string \<Rightarrow> string" where
  "copyStringField n s = (let s = take (n - 1) s in s @ replicate (n - length s) NUL)"

text \<open>A \<^verbatim>\<open>std::string\<close> made of a field: up to its first zero, and beyond the field without one.\<close>

definition field_string :: "nat \<Rightarrow> string \<Rightarrow> string run" where
  "field_string n bytes =
     (if NUL \<in> set (take n bytes) then Inr (takeWhile (\<lambda>c. c \<noteq> NUL) bytes) else Inl Undefined)"

definition send :: "Response \<Rightarrow> 's Daemon \<Rightarrow> 's Daemon" where
  "send r d = (if dm_connected d then d\<lparr>dm_sent := dm_sent d @ [r]\<rparr> else d)"

definition sendGuiStatus :: "string \<Rightarrow> 's Daemon \<Rightarrow> 's Daemon" where
  "sendGuiStatus err d =
     send (RspStatus (dm_running d) (en_isEnabled (dm_engine d))
       (copyStringField kMaxConfigNameLength (getActiveConfig (dm_manager d)))
       (copyStringField kMaxStatusMessageLength err)) d"

definition displayName :: "ConfigEntry \<Rightarrow> string" where
  "displayName e = (if display_name e = [] then stem (path e) else display_name e)"

definition sendGuiConfigList :: "'s Daemon \<Rightarrow> 's Daemon" where
  "sendGuiConfigList d =
     (let configs = m_configs (dm_manager d);
          n = min (length configs) kMaxConfigEntries;
          blank = replicate (kMaxConfigEntries - n) (replicate kMaxConfigNameLength NUL)
      in send (RspConfigList n
           (map (\<lambda>e. copyStringField kMaxConfigNameLength (displayName e)) (take n configs) @ blank)) d)"

definition answer :: "string \<Rightarrow> 's Daemon \<Rightarrow> 's Daemon" where
  "answer err d = sendGuiConfigList (sendGuiStatus err d)"

section \<open>Commands\<close>

definition find_config :: "string \<Rightarrow> ConfigEntry list \<Rightarrow> ConfigEntry option" where
  "find_config requestedName configs =
     find (\<lambda>e. display_name e = requestedName \<or> path e = requestedName) configs"

text \<open>\<^verbatim>\<open>switchConfiguration\<close> tells the manager when it loaded a configuration.\<close>

definition switch_engine :: "'s Outside \<Rightarrow> string \<Rightarrow> 's Daemon \<Rightarrow> (bool \<times> 's Daemon) run" where
  "switch_engine ou p d =
     run_bind (switchConfiguration (ou_ev ou) (ou_layout ou) (ou_load ou) (ou_busy ou) p (dm_engine d))
       (\<lambda>(ok, e). Inr (ok, d\<lparr>dm_engine := e,
          dm_manager := (if ok \<and> en_currentConfigPath (dm_engine d) \<noteq> p
            then fst (snd (setActiveConfig (ou_store ou) (ou_files ou) p (dm_manager d)))
            else dm_manager d)\<rparr>))"

text \<open>The switch of both commands: the error for the answer.\<close>

definition switch_to :: "'s Outside \<Rightarrow> string \<Rightarrow> string \<Rightarrow> 's Daemon \<Rightarrow> (string \<times> 's Daemon) run" where
  "switch_to ou failed targetPath d =
     run_bind (switch_engine ou targetPath d) (\<lambda>(ok, d).
       if ok then Inr ([], d\<lparr>dm_manager :=
           fst (snd (setActiveConfig (ou_store ou) (ou_files ou) targetPath (dm_manager d)))\<rparr>)
       else Inr (failed @ targetPath, d))"

text \<open>A name in the payload, of which the command's structure takes 256 bytes.\<close>

definition requested :: "Message \<Rightarrow> string option run" where
  "requested msg =
     (case msg_data msg of
        Some bytes \<Rightarrow> if kMaxConfigNameLength \<le> length bytes
                       then run_bind (field_string kMaxConfigNameLength bytes) (\<lambda>s. Inr (Some s))
                       else Inr None
      | None \<Rightarrow> Inr None)"

definition handle_switch :: "'s Outside \<Rightarrow> Message \<Rightarrow> 's Daemon \<Rightarrow> (string \<times> 's Daemon) run" where
  "handle_switch ou msg d =
     run_bind (requested msg) (\<lambda>r. case r of
        None \<Rightarrow> Inr (''Invalid CmdSwitchConfig payload'', d)
      | Some requestedName \<Rightarrow>
          (case find_config requestedName (m_configs (dm_manager d)) of
             None \<Rightarrow> Inr (''Config not found: '' @ requestedName, d)
           | Some e \<Rightarrow> switch_to ou ''Failed to switch config: '' (path e) d))"

definition handle_reload :: "'s Outside \<Rightarrow> Message \<Rightarrow> 's Daemon \<Rightarrow> (string \<times> 's Daemon) run" where
  "handle_reload ou msg d =
     run_bind (requested msg) (\<lambda>r. case r of
        None \<Rightarrow> Inr (''Invalid CmdReloadConfig payload'', d)
      | Some requestedName \<Rightarrow>
          if requestedName \<noteq> [] then
            (case find_config requestedName (m_configs (dm_manager d)) of
               None \<Rightarrow> Inr (''Config not found: '' @ requestedName, d)
             | Some e \<Rightarrow> switch_to ou ''Failed to reload config: '' (path e) d)
          else
            let targetPath = getActiveConfig (dm_manager d) in
            if targetPath = [] then Inr (''No active config to reload'', d)
            else switch_to ou ''Failed to reload config: '' targetPath d)"

definition handle_add :: "'s Outside \<Rightarrow> Message \<Rightarrow> 's Daemon \<Rightarrow> (string \<times> 's Daemon) run" where
  "handle_add ou msg d =
     run_bind (requested msg) (\<lambda>r. case r of
        None \<Rightarrow> Inr (''Empty config path provided'', d)
      | Some pathToAdd \<Rightarrow>
          if pathToAdd = [] then Inr (''Empty config path provided'', d)
          else
            let (ok, m) = addConfig (ou_store ou) (ou_files ou) pathToAdd (dm_manager d) in
            Inr (if ok then [] else ''Failed to add config: '' @ pathToAdd, d\<lparr>dm_manager := m\<rparr>))"

definition handle_remove :: "'s Outside \<Rightarrow> Message \<Rightarrow> 's Daemon \<Rightarrow> (string \<times> 's Daemon) run" where
  "handle_remove ou msg d =
     run_bind (requested msg) (\<lambda>r. case r of
        None \<Rightarrow> Inr (''Empty config path provided'', d)
      | Some pathToRemove \<Rightarrow>
          if pathToRemove = [] then Inr (''Empty config path provided'', d)
          else
            let (ok, m) = removeConfig (ou_store ou) pathToRemove (dm_manager d) in
            Inr (if ok then [] else ''Failed to remove config: '' @ pathToRemove, d\<lparr>dm_manager := m\<rparr>))"

definition handle_enable :: "Message \<Rightarrow> 's Daemon \<Rightarrow> string \<times> 's Daemon" where
  "handle_enable msg d =
     (case msg_data msg of
        Some (b # _) \<Rightarrow> ([], d\<lparr>dm_engine := (dm_engine d)\<lparr>en_isEnabled := b \<noteq> NUL\<rparr>\<rparr>)
      | _ \<Rightarrow> (''Invalid CmdSetEnabled payload'', d))"

definition handleIpcMessage :: "'s Outside \<Rightarrow> Message \<Rightarrow> 's Daemon \<Rightarrow> 's Daemon run" where
  "handleIpcMessage ou msg d =
     (let answered = (\<lambda>r. run_bind r (\<lambda>(err, d). Inr (answer err d))) in
      if msg_type msg = CmdGetStatus then Inr (answer [] d)
      else if msg_type msg = CmdGetLockStatus then
        Inr (send (LockStatusUpdate (lock_bits (ms_state (en_modifierState (dm_engine d))))) d)
      else if msg_type msg = CmdSetEnabled then answered (Inr (handle_enable msg d))
      else if msg_type msg = CmdSwitchConfig then answered (handle_switch ou msg d)
      else if msg_type msg = CmdReloadConfig then answered (handle_reload ou msg d)
      else if msg_type msg = CmdAddConfig then answered (handle_add ou msg d)
      else if msg_type msg = CmdRemoveConfig then answered (handle_remove ou msg d)
      else if msg_type msg = CmdEnableInvestigateMode then Inr (d\<lparr>dm_investigate := True\<rparr>)
      else if msg_type msg = CmdDisableInvestigateMode then Inr (d\<lparr>dm_investigate := False\<rparr>)
      else Inr d)"

end
