(* ===== verification/Ipc_Commands.thy ===== *)
theory Ipc_Commands
  imports Engine_Ipc Loaded_Engine Config_Switching
begin

text \<open>
  What the commands promise: the form of every answer, the truth of the status after a switch, and
  what a reload of the active configuration does.
\<close>

section \<open>The switch\<close>

lemma take_over_keys_path:
  "take_over_keys new e = Inr (st, e') \<Longrightarrow> en_currentConfigPath e' = en_currentConfigPath e"
  by (auto simp: take_over_keys_def run_bind_Inr Let_def split: option.splits)

lemma buildSubstitutionTable_path:
  "buildSubstitutionTable ev layout kb e = Inr e' \<Longrightarrow> en_currentConfigPath e' = en_currentConfigPath e"
  by (auto simp: buildSubstitutionTable_def run_bind_Inr Let_def split: if_splits)

lemma setSetting_path:
  assumes "setSetting ev layout st e = Inr (ok, e')"
  shows "en_currentConfigPath e' = en_currentConfigPath e"
proof (cases "en_isSynchronizing e")
  case True
  then show ?thesis using assms by (simp add: setSetting_def)
next
  case False
  then obtain st' e1 where e1: "take_over_keys st e = Inr (st', e1)"
    using assms by (auto simp: setSetting_def run_bind_Inr)
  then obtain g where build: "buildSubstitutionTable ev layout (st_keyboard st')
      (case g of None \<Rightarrow> e1\<lparr>en_setting := Some st', en_settingDeleted := False, en_globalKeymap := g\<rparr>
       | Some i \<Rightarrow> setCurrentKeymap (Some i) False
            (e1\<lparr>en_setting := Some st', en_settingDeleted := False, en_globalKeymap := g\<rparr>)) = Inr e'"
    using assms False unfolding setSetting_def by (auto simp: run_bind_Inr Let_def)
  show ?thesis
    using buildSubstitutionTable_path [OF build] take_over_keys_path [OF e1]
    by (simp add: setCurrentKeymap_def split: option.splits)
qed

lemma apply_retry_path:
  assumes "\<And>e ok e'. f e = Inr (ok, e') \<Longrightarrow> en_currentConfigPath e' = en_currentConfigPath e"
  shows "apply_retry f busy n e = Inr (k, e') \<Longrightarrow> en_currentConfigPath e' = en_currentConfigPath e"
  using assms
proof (induction f busy n e rule: apply_retry.induct)
  case (1 f busy n e)
  from 1(2) obtain ok e1 where e1: "f (e\<lparr>en_isSynchronizing := busy n\<rparr>) = Inr (ok, e1)"
    and rest: "(if \<not> ok \<and> n < maxRetries then apply_retry f busy (Suc n) e1 else Inr (n, e1)) = Inr (k, e')"
    by (subst (asm) apply_retry.simps) (auto simp: run_bind_Inr)
  have "en_currentConfigPath e1 = en_currentConfigPath e" using 1(3) [OF e1] by simp
  moreover have "en_currentConfigPath e' = en_currentConfigPath e1" if "\<not> ok \<and> n < maxRetries"
    using 1(1) [of ok e1] that rest 1(3) by simp
  ultimately show ?case using rest by (auto split: if_splits)
qed

text \<open>The engine runs a setting: it is the one loaded, but for the marks of which keys are down, which a new
  setting takes over from the old one; its global keymap is found, and the event processor is compiled
  from it, unless events are being generated.\<close>

definition up_to_presses :: "Keyboard \<Rightarrow> Keyboard \<Rightarrow> bool" where
  "up_to_presses kb kb' \<longleftrightarrow>
     (let unmarked = (\<lambda>k. k\<lparr>m_isPressed := False, m_isPressedOnWin32 := False, m_isPressedByAssign := False\<rparr>);
          plain = (\<lambda>kb. kb\<lparr>kb_store := map unmarked (kb_store kb), m_syncKey := unmarked (m_syncKey kb)\<rparr>)
      in plain kb = plain kb')"

definition runs :: "(evkey \<Rightarrow> u16) \<Rightarrow> string \<Rightarrow> Setting \<Rightarrow> Engine \<Rightarrow> bool" where
  "runs ev layout new e \<longleftrightarrow>
     \<not> en_settingDeleted e \<and>
     (\<exists>kb. en_setting e = Some (new\<lparr>st_keyboard := kb\<rparr>) \<and> up_to_presses kb (st_keyboard new) \<and>
        (\<not> 0 < en_recursionGuard e \<longrightarrow>
           en_eventProcessor e = Some (build_processor ev layout kb (en_setting e) (st_keySeqs new) (global_keymap new)))) \<and>
     map_option ((!) (st_keymaps new)) (en_globalKeymap e) = global_keymap new"

lemma up_to_presses_trans: "up_to_presses a b \<Longrightarrow> up_to_presses b c \<Longrightarrow> up_to_presses a c"
  by (simp add: up_to_presses_def Let_def)

lemma up_to_presses_update:
  "up_to_presses (update_key r (\<lambda>q. q\<lparr>m_isPressed := x, m_isPressedOnWin32 := y, m_isPressedByAssign := z\<rparr>) kb) kb"
proof (cases r)
  case (KeyAt i)
  then show ?thesis
    by (cases "i < length (kb_store kb)")
      (simp_all add: up_to_presses_def update_key_def map_update list_update_beyond Let_def,
       simp add: list_update_same_conv)
qed (simp_all add: up_to_presses_def update_key_def Let_def)

lemma copy_flags_presses: "copy_flags old k new = Inr new' \<Longrightarrow> up_to_presses new' new"
  by (auto simp: copy_flags_def run_bind_Inr up_to_presses_update split: option.splits)
    (simp add: up_to_presses_def)

lemma take_over_keys_result:
  assumes "take_over_keys new e = Inr (st, e')"
  shows "st = new\<lparr>st_keyboard := st_keyboard st\<rparr> \<and> up_to_presses (st_keyboard st) (st_keyboard new) \<and>
    en_recursionGuard e' = en_recursionGuard e"
proof (cases "en_setting e")
  case None
  then show ?thesis using assms by (simp add: take_over_keys_def up_to_presses_def)
next
  case (Some old)
  then obtain okb nkb where fold: "run_fold (copy_flags okb) (all_keys okb) (st_keyboard new) = Inr nkb"
    and st: "st = new\<lparr>st_keyboard := nkb\<rparr>" "en_recursionGuard e' = en_recursionGuard e"
    using assms by (auto simp: take_over_keys_def run_bind_Inr Let_def)
  have "up_to_presses nkb (st_keyboard new)"
    by (rule run_fold_invariant [OF _ _ fold, where P = "\<lambda>kb. up_to_presses kb (st_keyboard new)"])
      (blast intro: copy_flags_presses up_to_presses_trans, simp add: up_to_presses_def)
  then show ?thesis using st by simp
qed

lemma buildSubstitutionTable_result:
  assumes "buildSubstitutionTable ev layout kb e = Inr e'" and "en_setting e = Some st" and "\<not> en_settingDeleted e"
    and "g = map_option ((!) (st_keymaps st)) (en_globalKeymap e)"
  shows "en_setting e' = Some st \<and> \<not> en_settingDeleted e' \<and> en_globalKeymap e' = en_globalKeymap e \<and>
    en_recursionGuard e' = en_recursionGuard e \<and>
    (\<not> 0 < en_recursionGuard e \<longrightarrow> en_eventProcessor e' = Some (build_processor ev layout kb (Some st) (st_keySeqs st) g))"
  using assms
  by (cases "en_globalKeymap e")
    (auto simp: buildSubstitutionTable_def run_bind_Inr setting_of_def deref_def keymap_at_def Let_def split: if_splits)

lemma setSetting_result:
  assumes "setSetting ev layout new e = Inr (ok, e')"
  shows "(ok \<longleftrightarrow> \<not> en_isSynchronizing e) \<and> (\<not> ok \<longrightarrow> e' = e) \<and> (ok \<longrightarrow> runs ev layout new e')"
proof (cases "en_isSynchronizing e")
  case True
  then show ?thesis using assms by (simp add: setSetting_def)
next
  case False
  then obtain st e1 where e1: "take_over_keys new e = Inr (st, e1)"
    using assms by (auto simp: setSetting_def run_bind_Inr)
  define g where "g = (case keymaps_searchByName ''Global'' (st_keymaps st) of
      Some i \<Rightarrow> Some i | None \<Rightarrow> if st_keymaps st = [] then None else Some (length (st_keymaps st) - 1))"
  define e2 where "e2 = e1\<lparr>en_setting := Some st, en_settingDeleted := False, en_globalKeymap := g\<rparr>"
  define e3 where "e3 = (case g of None \<Rightarrow> e2 | Some i \<Rightarrow> setCurrentKeymap (Some i) False e2)"
  have "run_bind (buildSubstitutionTable ev layout (st_keyboard st) e3) (\<lambda>e4. Inr (True, e4)) = Inr (ok, e')"
    using assms unfolding setSetting_def e1 if_not_P [OF False] run_bind_simps prod.case Let_def g_def [symmetric]
      e2_def [symmetric] e3_def [symmetric] .
  then have build: "buildSubstitutionTable ev layout (st_keyboard st) e3 = Inr e'" and ok: "ok"
    by (auto simp: run_bind_Inr)
  have e3: "en_setting e3 = Some st" "\<not> en_settingDeleted e3" "en_globalKeymap e3 = g"
    by (simp_all add: e3_def e2_def setCurrentKeymap_def Let_def split: option.split)
  note take_over = take_over_keys_result [OF e1]
  have kms: "st_keymaps st = st_keymaps new" "st_keySeqs st = st_keySeqs new"
    by (subst conjunct1 [OF take_over], simp)+
  have g: "map_option ((!) (st_keymaps st)) (en_globalKeymap e3) = global_keymap new"
    unfolding e3(3) kms global_keymap_def g_def ..
  note built = buildSubstitutionTable_result [OF build e3(1,2) g [symmetric]]
  have st: "en_setting e' = Some (new\<lparr>st_keyboard := st_keyboard st\<rparr>)" using built take_over by metis
  have proc: "\<not> 0 < en_recursionGuard e' \<longrightarrow> en_eventProcessor e' =
      Some (build_processor ev layout (st_keyboard st) (en_setting e') (st_keySeqs new) (global_keymap new))"
    using built unfolding kms by simp
  have "map_option ((!) (st_keymaps new)) (en_globalKeymap e') = global_keymap new"
    using built g unfolding kms by simp
  then have "runs ev layout new e'" unfolding runs_def using st proc built take_over by blast
  then show ?thesis using ok False by simp
qed

lemma apply_retry_runs:
  "apply_retry (setSetting ev layout new) busy n e = Inr (k, e') \<Longrightarrow> k < maxRetries \<Longrightarrow> runs ev layout new e'"
proof (induction "maxRetries - n" arbitrary: n e rule: less_induct)
  case less
  from less.prems(1) obtain ok e1 where e1: "setSetting ev layout new (e\<lparr>en_isSynchronizing := busy n\<rparr>) = Inr (ok, e1)"
    and more: "(if \<not> ok \<and> n < maxRetries then apply_retry (setSetting ev layout new) busy (Suc n) e1 else Inr (n, e1)) = Inr (k, e')"
    by (subst (asm) apply_retry.simps) (auto simp: run_bind_Inr)
  show ?case
  proof (cases ok)
    case True
    then show ?thesis using more setSetting_result [OF e1] by simp
  next
    case False
    then have "n < maxRetries" and again: "apply_retry (setSetting ev layout new) busy (Suc n) e1 = Inr (k, e')"
      using more less.prems(2) by (auto split: if_splits)
    then show ?thesis using less.hyps [OF _ again less.prems(2)] by simp
  qed
qed

text \<open>The engine runs the configuration exactly if the switch says so.\<close>

lemma switchConfiguration_runs:
  assumes "switchConfiguration ev layout ld busy p e = Inr (True, e')"
  shows "if en_currentConfigPath e = p then e' = e else \<exists>new. ld p = Some new \<and> runs ev layout new e'"
proof (cases "en_currentConfigPath e = p")
  case True
  then show ?thesis using assms by (simp add: switchConfiguration_def)
next
  case False
  then obtain new where new: "ld p = Some new" using assms by (auto simp: switchConfiguration_def split: option.splits)
  obtain n e1 where e1: "apply_retry (setSetting ev layout new) busy 0 e = Inr (n, e1)" "n < maxRetries"
    and e': "e' = e1\<lparr>en_currentConfigPath := p\<rparr>"
    using assms False new by (auto simp: switchConfiguration_def run_bind_Inr split: if_splits)
  have "runs ev layout new e'" using apply_retry_runs [OF e1] unfolding e' by (simp add: runs_def)
  then show ?thesis using False new by simp
qed

lemma switchConfiguration_path:
  assumes "switchConfiguration ev layout ld busy p e = Inr (ok, e')"
  shows "ok \<longleftrightarrow> en_currentConfigPath e' = p"
proof (cases "en_currentConfigPath e = p")
  case True
  then show ?thesis using assms by (simp add: switchConfiguration_def)
next
  case False
  show ?thesis
  proof (cases "ld p")
    case None
    then show ?thesis using assms False by (auto simp: switchConfiguration_def)
  next
    case (Some new)
    then obtain n e1 where e1: "apply_retry (setSetting ev layout new) busy 0 e = Inr (n, e1)"
      and res: "(if maxRetries \<le> n then Inr (False, e1\<lparr>en_settingDeleted := en_settingDeleted e1 \<or> \<not> busy n\<rparr>)
        else Inr (True, e1\<lparr>en_currentConfigPath := p\<rparr>)) = (Inr (ok, e') :: (bool \<times> Engine) run)"
      using assms False by (auto simp: switchConfiguration_def run_bind_Inr)
    have "en_currentConfigPath e1 = en_currentConfigPath e"
      by (rule apply_retry_path [OF setSetting_path e1])
    then show ?thesis using res False by (auto split: if_splits)
  qed
qed

lemma setActiveConfig_active:
  assumes "p \<in> set (paths m)"
  shows "getActiveConfig (fst (snd (setActiveConfig cs F p m))) = p"
    and "paths (fst (snd (setActiveConfig cs F p m))) = paths m"
proof -
  obtain i where i: "i < length (m_configs m)" "findConfig m p = int i" "path (m_configs m ! i) = p"
    using findConfig_cases [of m p] assms by blast
  have frame: "m_configs (fst (snd (setActiveConfig cs F p m))) = m_configs m"
    "m_activeIndex (fst (snd (setActiveConfig cs F p m))) = int i"
    using i by (auto simp: setActiveConfig_def Let_def)
  then show "getActiveConfig (fst (snd (setActiveConfig cs F p m))) = p"
    "paths (fst (snd (setActiveConfig cs F p m))) = paths m"
    using i by (simp_all add: getActiveConfig_def paths_def)
qed

lemma switch_to_result:
  assumes "switch_to ou why p d = Inr (err, d')" and "p \<in> set (paths (dm_manager d))" and "why \<noteq> []"
  shows "err = [] \<longleftrightarrow> en_currentConfigPath (dm_engine d') = p \<and> getActiveConfig (dm_manager d') = p"
    and "err = [] \<Longrightarrow> en_currentConfigPath (dm_engine d') = p \<and> getActiveConfig (dm_manager d') = p"
    and "dm_connected d' = dm_connected d" and "dm_sent d' = dm_sent d"
    and "err = [] \<Longrightarrow> if en_currentConfigPath (dm_engine d) = p then dm_engine d' = dm_engine d
      else \<exists>new. ou_load ou p = Some new \<and> runs (ou_ev ou) (ou_layout ou) new (dm_engine d')"
proof -
  obtain ok e where e: "switchConfiguration (ou_ev ou) (ou_layout ou) (ou_load ou) (ou_busy ou) p (dm_engine d) = Inr (ok, e)"
    using assms(1) by (auto simp: switch_to_def switch_engine_def run_bind_Inr)
  let ?act = "\<lambda>m. fst (snd (setActiveConfig (ou_store ou) (ou_files ou) p m))"
  let ?m = "if ok \<and> en_currentConfigPath (dm_engine d) \<noteq> p then ?act (dm_manager d) else dm_manager d"
  have m: "p \<in> set (paths ?m)" using assms(2) setActiveConfig_active(2) [OF assms(2)] by simp
  have d': "(err, d') = (if ok then ([], d\<lparr>dm_engine := e, dm_manager := ?act ?m\<rparr>)
      else (why @ p, d\<lparr>dm_engine := e, dm_manager := ?m\<rparr>))"
    using assms(1) by (auto simp: switch_to_def switch_engine_def e split: if_splits)
  show goal: "err = [] \<longleftrightarrow> en_currentConfigPath (dm_engine d') = p \<and> getActiveConfig (dm_manager d') = p"
    using d' switchConfiguration_path [OF e] setActiveConfig_active(1) [OF m] assms(3) by (auto split: if_splits)
  then show "err = [] \<Longrightarrow> en_currentConfigPath (dm_engine d') = p \<and> getActiveConfig (dm_manager d') = p" by blast
  show "dm_connected d' = dm_connected d" "dm_sent d' = dm_sent d" using d' by (auto split: if_splits)
  assume "err = []"
  then have "ok" "dm_engine d' = e" using d' assms(3) by (auto split: if_splits)
  then show "if en_currentConfigPath (dm_engine d) = p then dm_engine d' = dm_engine d
      else \<exists>new. ou_load ou p = Some new \<and> runs (ou_ev ou) (ou_layout ou) new (dm_engine d')"
    using switchConfiguration_runs [of "ou_ev ou" "ou_layout ou" "ou_load ou" "ou_busy ou" p "dm_engine d" e] e by simp
qed

lemma find_config_path: "find_config s (m_configs m) = Some e \<Longrightarrow> path e \<in> set (paths m)"
  by (auto simp: find_config_def find_Some_iff paths_def)

section \<open>The answers\<close>

text \<open>A field the client may read: of its length, and ended by a zero within it.\<close>

definition wf_field :: "string \<Rightarrow> bool" where
  "wf_field f \<longleftrightarrow> length f = 256 \<and> last f = NUL"

definition wf_Response :: "Response \<Rightarrow> bool" where
  "wf_Response r = (case r of
     RspStatus running enabled activeConfig lastError \<Rightarrow> wf_field activeConfig \<and> wf_field lastError
   | RspConfigList n configs \<Rightarrow> n \<le> 16 \<and> length configs = 16 \<and> (\<forall>f\<in>set configs. wf_field f)
   | LockStatusUpdate bits \<Rightarrow> length bits = 8)"

lemma wf_field_copy [simp]: "wf_field (copyStringField 256 s)"
  by (simp add: wf_field_def copyStringField_def Let_def)

lemma wf_field_blank [simp]: "wf_field (replicate 256 NUL)"
  by (simp add: wf_field_def)

text \<open>What is read of a field is what was written, cut off.\<close>

lemma field_roundtrip:
  "NUL \<notin> set s \<Longrightarrow> field_string 256 (copyStringField 256 s @ rest') = Inr (take 255 s)"
proof -
  assume s: "NUL \<notin> set s"
  have nz: "NUL \<notin> set (take 255 s)" using s in_set_takeD by fastforce
  obtain k where k: "256 - length (take 255 s) = Suc k"
    by (cases "256 - length (take 255 s)") (auto simp: min_def split: if_splits)
  have copy: "copyStringField 256 s = take 255 s @ NUL # replicate k NUL"
    using k by (simp add: copyStringField_def Let_def)
  have len: "length (copyStringField 256 s) = 256" by (simp add: copyStringField_def Let_def)
  have "take 256 (copyStringField 256 s @ rest') = copyStringField 256 s" using len by simp
  then have "NUL \<in> set (take 256 (copyStringField 256 s @ rest'))" by (simp only: copy) simp
  moreover have "takeWhile (\<lambda>c. c \<noteq> NUL) (copyStringField 256 s @ rest') = take 255 s"
    unfolding copy append_assoc using nz by (subst takeWhile_append2) auto
  ultimately show ?thesis by (simp add: field_string_def)
qed

text \<open>What a step sends: well-formed answers, and none without a connection.\<close>

definition sends_wf :: "'s Daemon \<Rightarrow> 's Daemon \<Rightarrow> bool" where
  "sends_wf d d' \<longleftrightarrow> (\<exists>rs. dm_sent d' = dm_sent d @ rs \<and> (\<not> dm_connected d \<longrightarrow> rs = []) \<and>
     (\<forall>r\<in>set rs. wf_Response r)) \<and> dm_connected d' = dm_connected d"

lemma lock_bits_length: "length (lock_bits w) = 8"
proof -
  have "length (fold (lock_bits_step w) xs lb) = length lb" for xs lb
    by (induction xs arbitrary: lb) (simp_all add: lock_bits_step_def)
  then show ?thesis by (simp add: lock_bits_def)
qed

lemma sends_wf_frame: "dm_sent d' = dm_sent d \<Longrightarrow> dm_connected d' = dm_connected d \<Longrightarrow> sends_wf d d'"
  by (simp add: sends_wf_def)

lemma sends_wf_trans: "sends_wf d d1 \<Longrightarrow> sends_wf d1 d2 \<Longrightarrow> sends_wf d d2"
  unfolding sends_wf_def by (metis UnE append.assoc append_Nil2 set_append)

lemma sends_wf_send: "wf_Response r \<Longrightarrow> sends_wf d (send r d)"
  by (auto simp: sends_wf_def send_def)

lemma sends_wf_answer: "sends_wf d (answer err d)"
proof -
  have "sends_wf d (sendGuiStatus err d)"
    unfolding sendGuiStatus_def kMaxConfigNameLength_def kMaxStatusMessageLength_def
    by (rule sends_wf_send) (simp add: wf_Response_def)
  moreover have "sends_wf d' (sendGuiConfigList d')" for d' :: "'a Daemon"
    unfolding sendGuiConfigList_def kMaxConfigNameLength_def kMaxConfigEntries_def Let_def
    by (rule sends_wf_send) (auto simp: wf_Response_def)
  ultimately show ?thesis unfolding answer_def by (rule sends_wf_trans)
qed

lemma switch_to_frame:
  "switch_to ou why p d = Inr (err, d') \<Longrightarrow> sends_wf d d'"
  by (rule sends_wf_frame) (auto simp: switch_to_def switch_engine_def run_bind_Inr split: if_splits)

lemma sends_wf_fields [simp]:
  "sends_wf d (d\<lparr>dm_manager := m\<rparr>)" "sends_wf d (d\<lparr>dm_engine := e\<rparr>)" "sends_wf d d"
  "sends_wf d (d\<lparr>dm_investigate := b\<rparr>)"
  by (simp_all add: sends_wf_frame)

lemma handle_switch_frame: "handle_switch ou msg d = Inr (err, d') \<Longrightarrow> sends_wf d d'"
  unfolding handle_switch_def
  by (cases "requested msg") (auto split: option.splits dest: switch_to_frame)

lemma handle_reload_frame: "handle_reload ou msg d = Inr (err, d') \<Longrightarrow> sends_wf d d'"
  unfolding handle_reload_def Let_def
  by (cases "requested msg") (auto split: option.splits if_splits dest: switch_to_frame)

lemma handle_add_frame: "handle_add ou msg d = Inr (err, d') \<Longrightarrow> sends_wf d d'"
  unfolding handle_add_def
  by (cases "requested msg") (auto split: option.splits if_splits prod.splits)

lemma handle_remove_frame: "handle_remove ou msg d = Inr (err, d') \<Longrightarrow> sends_wf d d'"
  unfolding handle_remove_def
  by (cases "requested msg") (auto split: option.splits if_splits prod.splits)

lemma handle_enable_frame: "handle_enable msg d = (err, d') \<Longrightarrow> sends_wf d d'"
  by (auto simp: handle_enable_def split: option.splits list.splits)

lemmas commands_frame = handle_switch_frame handle_reload_frame handle_add_frame handle_remove_frame
  handle_enable_frame

lemma sends_wf_answered: "sends_wf d d1 \<Longrightarrow> sends_wf d (answer err d1)"
  using sends_wf_answer by (rule sends_wf_trans [rotated])

lemma handleIpcMessage_sends: "handleIpcMessage ou msg d = Inr d' \<Longrightarrow> sends_wf d d'"
proof -
  assume h: "handleIpcMessage ou msg d = Inr d'"
  have locks: "wf_Response (LockStatusUpdate (lock_bits w))" for w
    by (simp add: wf_Response_def lock_bits_length)
  have r: "sends_wf d d'" if "run_bind r (\<lambda>(err, d). Inr (answer err d)) = (Inr d' :: 'a Daemon run)"
      "\<And>err d1. r = Inr (err, d1) \<Longrightarrow> sends_wf d d1" for r :: "(string \<times> 'a Daemon) run"
    using that by (cases r) (auto intro: sends_wf_answered)
  show ?thesis
    using h unfolding handleIpcMessage_def Let_def
    by (simp only: sum.inject split: if_splits)
      (auto simp: sends_wf_answer sends_wf_send [OF locks] split: prod.splits
        intro: r commands_frame sends_wf_answered)
qed

section \<open>A client\<close>

text \<open>The engine runs nothing yet; one configuration is listed, and its file holds a mapping.\<close>

definition ex_ipc_daemon :: "bool \<Rightarrow> QSettings Daemon" where
  "ex_ipc_daemon active =
     \<lparr>dm_engine = (if active then (new_Engine False False)\<lparr>en_currentConfigPath := ''/c/a.json''\<rparr>
                  else new_Engine False False), dm_running = True,
      dm_manager = ConfigManager_init\<lparr>
        m_configs := [\<lparr>path = ''/c/a.json'', display_name = ''a'', exists = True\<rparr>],
        m_activeIndex := (if active then 0 else -1)\<rparr>,
      dm_connected = True, dm_investigate = False, dm_sent = []\<rparr>"

definition ex_outside :: "QSettings Outside" where
  "ex_outside = \<lparr>ou_ev = linux_ev, ou_layout = ''us'', ou_load = (\<lambda>p. Some ex_loaded), ou_busy = (\<lambda>n. False),
     ou_store = plain_store, ou_files = example_files\<rparr>"

definition ex_request :: "nat \<Rightarrow> string \<Rightarrow> Message" where
  "ex_request t s = \<lparr>msg_type = t, msg_data = Some (copyStringField 256 s)\<rparr>"

lemma ex_requested: "NUL \<notin> set s \<Longrightarrow> requested (ex_request t s) = Inr (Some (take 255 s))"
  using field_roundtrip [of s "[]"]
  by (simp add: requested_def ex_request_def kMaxConfigNameLength_def) (simp add: copyStringField_def Let_def)

section \<open>Properties\<close>

text \<open>C33: The answer to a switch is true: unless it is cut off by undefined behaviour, the error in
  the status is empty exactly if a configuration of that name or path is listed, the engine has the path
  of the first such one as its own, and the manager calls it active; and the name in the status is the
  manager's active configuration. And then the engine runs what the loader made of that file: its setting
  is the loaded one, only with the marks of the keys that are down carried over, its global keymap is the
  loaded one's, and its event processor is compiled from it (unless it is generating events at that
  moment). Only if the engine had that path before, nothing is loaded and it stays as it was.\<close>

theorem switch_status_is_true:
  assumes msg: "msg_type msg = CmdSwitchConfig" "requested msg = Inr (Some requestedName)"
    and conn: "dm_connected d" and res: "handleIpcMessage ou msg d = Inr d'"
  shows "\<exists>err configs.
    dm_sent d' = dm_sent d @
      [RspStatus (dm_running d') (en_isEnabled (dm_engine d'))
         (copyStringField 256 (getActiveConfig (dm_manager d'))) (copyStringField 256 err), configs] \<and>
    (err = [] \<longleftrightarrow> (\<exists>e. find_config requestedName (m_configs (dm_manager d)) = Some e \<and>
        en_currentConfigPath (dm_engine d') = path e \<and> getActiveConfig (dm_manager d') = path e)) \<and>
    (err = [] \<longrightarrow> (if en_currentConfigPath (dm_engine d) = en_currentConfigPath (dm_engine d') then dm_engine d' = dm_engine d
        else \<exists>new. ou_load ou (en_currentConfigPath (dm_engine d')) = Some new \<and>
               runs (ou_ev ou) (ou_layout ou) new (dm_engine d')))"
proof -
  obtain err d1 where d1: "handle_switch ou msg d = Inr (err, d1)" "d' = answer err d1"
    using res msg(1) by (auto simp: handleIpcMessage_def command_defs run_bind_Inr Let_def)
  have facts: "dm_connected d1 \<and> dm_sent d1 = dm_sent d \<and>
      (err = [] \<longleftrightarrow> (\<exists>e. find_config requestedName (m_configs (dm_manager d)) = Some e \<and>
        en_currentConfigPath (dm_engine d1) = path e \<and> getActiveConfig (dm_manager d1) = path e)) \<and>
      (err = [] \<longrightarrow> (if en_currentConfigPath (dm_engine d) = en_currentConfigPath (dm_engine d1) then dm_engine d1 = dm_engine d
        else \<exists>new. ou_load ou (en_currentConfigPath (dm_engine d1)) = Some new \<and>
               runs (ou_ev ou) (ou_layout ou) new (dm_engine d1)))"
  proof (cases "find_config requestedName (m_configs (dm_manager d))")
    case None
    then show ?thesis using d1(1) msg(2) conn by (auto simp: handle_switch_def)
  next
    case (Some e)
    then have sw: "switch_to ou ''Failed to switch config: '' (path e) d = Inr (err, d1)"
      using d1(1) msg(2) by (simp add: handle_switch_def)
    note switched = switch_to_result [OF sw find_config_path [OF Some]]
    have "(err = []) = (en_currentConfigPath (dm_engine d1) = path e \<and> getActiveConfig (dm_manager d1) = path e)"
      by (rule switched(1)) simp
    moreover have "if en_currentConfigPath (dm_engine d) = en_currentConfigPath (dm_engine d1) then dm_engine d1 = dm_engine d
        else \<exists>new. ou_load ou (en_currentConfigPath (dm_engine d1)) = Some new \<and>
               runs (ou_ev ou) (ou_layout ou) new (dm_engine d1)" if "err = []"
    proof -
      have "en_currentConfigPath (dm_engine d1) = path e" using switched(2) that by simp
      then show ?thesis using switched(5) that by simp
    qed
    moreover have "dm_connected d1" "dm_sent d1 = dm_sent d" using switched(3,4) conn by simp_all
    ultimately show ?thesis unfolding Some by (intro conjI impI) simp_all
  qed
  have same: "dm_engine d' = dm_engine d1" "dm_manager d' = dm_manager d1" "dm_running d' = dm_running d1"
    by (simp_all add: d1(2) answer_def sendGuiStatus_def sendGuiConfigList_def send_def Let_def)
  show ?thesis
    unfolding same using facts
    by (intro exI [of _ err]) (simp add: d1(2) answer_def sendGuiStatus_def sendGuiConfigList_def send_def Let_def
        kMaxConfigNameLength_def kMaxStatusMessageLength_def)
qed

theorem switch_status_is_true_witness:
  "\<exists>d'. handleIpcMessage ex_outside (ex_request CmdSwitchConfig ''a'') (ex_ipc_daemon False) = Inr d' \<and>
     en_currentConfigPath (dm_engine d') = ''/c/a.json'' \<and> runs linux_ev ''us'' ex_loaded (dm_engine d')"
proof -
  let ?d = "ex_ipc_daemon False"
  let ?e = "\<lparr>path = ''/c/a.json'', display_name = ''a'', exists = True\<rparr>"
  obtain e0 where e0: "setSetting linux_ev ''us'' ex_loaded (new_Engine False False) = Inr (True, e0)"
    using setSetting_loaded [OF ex_loaded_setting ex_loaded_codes] by blast
  have idle: "(new_Engine False False)\<lparr>en_isSynchronizing := False\<rparr> = new_Engine False False"
    by (simp add: new_Engine_def)
  have "apply_retry (setSetting linux_ev ''us'' ex_loaded) (\<lambda>n. False) 0 (new_Engine False False) = Inr (0, e0)"
    by (subst apply_retry.simps) (simp add: idle e0)
  then have sw: "switchConfiguration linux_ev ''us'' (\<lambda>p. Some ex_loaded) (\<lambda>n. False) ''/c/a.json''
      (new_Engine False False) = Inr (True, e0\<lparr>en_currentConfigPath := ''/c/a.json''\<rparr>)"
    by (simp add: switchConfiguration_def maxRetries_def) (simp add: new_Engine_def)
  have found: "find_config ''a'' (m_configs (dm_manager ?d)) = Some ?e"
    by (simp add: find_config_def ex_ipc_daemon_def)
  have req: "requested (ex_request CmdSwitchConfig ''a'') = Inr (Some ''a'')"
    using ex_requested [of "''a''" CmdSwitchConfig] by (simp add: NUL_def)
  let ?e1 = "e0\<lparr>en_currentConfigPath := ''/c/a.json''\<rparr>"
  let ?act = "\<lambda>m. fst (snd (setActiveConfig plain_store example_files ''/c/a.json'' m))"
  let ?d1 = "?d\<lparr>dm_engine := ?e1, dm_manager := ?act (?act (dm_manager ?d))\<rparr>"
  have "en_currentConfigPath (dm_engine ?d) \<noteq> ''/c/a.json''" by (simp add: ex_ipc_daemon_def new_Engine_def)
  moreover have "switchConfiguration linux_ev ''us'' (\<lambda>p. Some ex_loaded) (\<lambda>n. False) ''/c/a.json'' (dm_engine ?d) = Inr (True, ?e1)"
    using sw by (simp add: ex_ipc_daemon_def)
  ultimately have "handle_switch ex_outside (ex_request CmdSwitchConfig ''a'') ?d = Inr ([], ?d1)"
    using req found by (simp add: handle_switch_def switch_to_def switch_engine_def ex_outside_def)
  then have h: "handleIpcMessage ex_outside (ex_request CmdSwitchConfig ''a'') ?d = Inr (answer [] ?d1)"
    by (simp add: handleIpcMessage_def command_defs Let_def ex_request_def)
  have p: "''/c/a.json'' \<in> set (paths (dm_manager ?d))" by (simp add: ex_ipc_daemon_def paths_def)
  then have "''/c/a.json'' \<in> set (paths (?act (dm_manager ?d)))" by (simp only: setActiveConfig_active(2))
  from setActiveConfig_active(1) [OF this]
  have active: "getActiveConfig (?act (?act (dm_manager ?d))) = ''/c/a.json''" .
  have now: "en_currentConfigPath (dm_engine (answer [] ?d1)) = ''/c/a.json''"
    "en_currentConfigPath (dm_engine ?d) = []" "getActiveConfig (dm_manager (answer [] ?d1)) = ''/c/a.json''"
    using active by (simp_all add: answer_def sendGuiStatus_def sendGuiConfigList_def send_def Let_def)
      (simp add: ex_ipc_daemon_def new_Engine_def)
  have ex: "msg_type (ex_request CmdSwitchConfig ''a'') = CmdSwitchConfig" "dm_connected ?d"
    by (simp_all add: ex_request_def ex_ipc_daemon_def)
  have "runs (ou_ev ex_outside) (ou_layout ex_outside) ex_loaded (dm_engine (answer [] ?d1))"
    using switch_status_is_true [OF ex(1) req ex(2) h] found now by (auto simp: ex_outside_def)
  then show ?thesis using h now by (auto simp: ex_outside_def)
qed

text \<open>C34: A reload of the configuration the engine runs does nothing: the guard against reload loops
  in the switch takes it for loaded. Whatever the file holds by now, the engine is the same
  afterwards, and the answer reports no error.\<close>

theorem reload_is_ignored:
  assumes msg: "msg_type msg = CmdReloadConfig" "requested msg = Inr (Some [])"
    and active: "getActiveConfig (dm_manager d) = en_currentConfigPath (dm_engine d)"
      "en_currentConfigPath (dm_engine d) \<noteq> []"
    and conn: "dm_connected d"
  shows "\<exists>d' status configs. handleIpcMessage ou msg d = Inr d' \<and> dm_engine d' = dm_engine d \<and>
     dm_sent d' = dm_sent d @ [status, configs] \<and> rs_lastError status = replicate 256 NUL"
proof -
  let ?p = "en_currentConfigPath (dm_engine d)"
  let ?m = "fst (snd (setActiveConfig (ou_store ou) (ou_files ou) ?p (dm_manager d)))"
  have "switchConfiguration (ou_ev ou) (ou_layout ou) (ou_load ou) (ou_busy ou) ?p (dm_engine d) = Inr (True, dm_engine d)"
    by (simp add: switchConfiguration_def)
  then have "handle_reload ou msg d = Inr ([], d\<lparr>dm_manager := ?m\<rparr>)"
    using msg active by (simp add: handle_reload_def switch_to_def switch_engine_def Let_def)
  then have "handleIpcMessage ou msg d = Inr (answer [] (d\<lparr>dm_manager := ?m\<rparr>))"
    using msg(1) by (simp add: handleIpcMessage_def command_defs Let_def)
  then show ?thesis
    using conn by (simp add: answer_def sendGuiStatus_def sendGuiConfigList_def send_def Let_def
        copyStringField_def kMaxStatusMessageLength_def)
qed

theorem reload_is_ignored_witness:
  "\<exists>d' status configs. handleIpcMessage ex_outside (ex_request CmdReloadConfig []) (ex_ipc_daemon True) = Inr d' \<and>
     dm_engine d' = dm_engine (ex_ipc_daemon True) \<and> dm_sent d' = [status, configs] \<and>
     rs_lastError status = replicate 256 NUL"
proof -
  have ex: "msg_type (ex_request CmdReloadConfig []) = CmdReloadConfig"
    "dm_connected (ex_ipc_daemon True)" "dm_sent (ex_ipc_daemon True) = []"
    "getActiveConfig (dm_manager (ex_ipc_daemon True)) = en_currentConfigPath (dm_engine (ex_ipc_daemon True))"
    "en_currentConfigPath (dm_engine (ex_ipc_daemon True)) \<noteq> []"
    by (simp_all add: ex_request_def ex_ipc_daemon_def getActiveConfig_def)
  have req: "requested (ex_request CmdReloadConfig []) = Inr (Some [])"
    using ex_requested [of "[]" CmdReloadConfig] by simp
  show ?thesis
    using reload_is_ignored [OF ex(1) req ex(4,5,2), of ex_outside] ex(3) by simp
qed

text \<open>Whatever message arrives, and in whatever state, the answers have the form the client
  relies on: the fields for names and errors are 256 characters long and end with a zero, the list
  of configurations has sixteen of them and a count of at most sixteen, the locks are eight words;
  and nothing is sent without a connection.\<close>

theorem answers_are_readable:
  assumes "handleIpcMessage ou msg d = Inr d'"
  shows "\<exists>rs. dm_sent d' = dm_sent d @ rs \<and> (\<not> dm_connected d \<longrightarrow> rs = []) \<and> (\<forall>r\<in>set rs. wf_Response r)"
  using handleIpcMessage_sends [OF assms] by (auto simp: sends_wf_def)

theorem answers_are_readable_witness:
  "\<exists>d' rs. handleIpcMessage ex_outside (ex_request CmdGetStatus []) (ex_ipc_daemon True) = Inr d' \<and>
     dm_sent d' = rs \<and> length rs = 2 \<and> (\<forall>r\<in>set rs. wf_Response r)"
proof -
  have h: "handleIpcMessage ex_outside (ex_request CmdGetStatus []) (ex_ipc_daemon True) =
      Inr (answer [] (ex_ipc_daemon True))"
    by (simp add: handleIpcMessage_def ex_request_def)
  have "dm_sent (ex_ipc_daemon True) = []" "length (dm_sent (answer [] (ex_ipc_daemon True))) = 2"
    by (simp_all add: ex_ipc_daemon_def answer_def sendGuiStatus_def sendGuiConfigList_def send_def Let_def)
  then show ?thesis using answers_are_readable [OF h] h by auto
qed

end
