(* ===== verification/Ipc_Client.thy ===== *)
theory Ipc_Client
  imports Ipc_Delivery Ipc_Commands
begin

text \<open>
  The graphical interface's end of the channel (src/ui/qt/ipc_client_gui.cpp): requests, received
  messages, and the attempts to reconnect. The timers are their states; whether the channel is
  connected is an argument. Names are their UTF-8 bytes.
\<close>

section \<open>The client\<close>

datatype GuiSignal =
    statusReceived string
  | configListReceived string
  | lockStatusReceived string
  | connectionStateChanged bool

record IPCClientGUI =
  gc_channel :: bool
  gc_serverName :: string
  gc_connectionPoller :: bool
  gc_reconnectTimer :: "nat option"
  gc_reconnectAttempts :: nat
  gc_lastConnected :: bool
  gc_shouldReconnect :: bool
  gc_connects :: "string list"
  gc_sent :: "ChannelMessage list"
  gc_signals :: "GuiSignal list"

definition new_IPCClientGUI :: "bool \<Rightarrow> IPCClientGUI" where
  "new_IPCClientGUI channel = \<lparr>gc_channel = channel, gc_serverName = ''yamy-engine'',
     gc_connectionPoller = False, gc_reconnectTimer = None, gc_reconnectAttempts = 0,
     gc_lastConnected = False, gc_shouldReconnect = False, gc_connects = [], gc_sent = [], gc_signals = []\<rparr>"

definition kMaxAttempts :: nat where "kMaxAttempts = 3"
definition kBackoffMs :: "nat list" where "kBackoffMs = [1000, 2000, 4000]"

definition scheduleReconnectAttempt :: "IPCClientGUI \<Rightarrow> IPCClientGUI" where
  "scheduleReconnectAttempt g =
     (if gc_reconnectTimer g \<noteq> None \<or> kMaxAttempts \<le> gc_reconnectAttempts g then g
      else let delay = kBackoffMs ! gc_reconnectAttempts g in
           g\<lparr>gc_reconnectAttempts := Suc (gc_reconnectAttempts g), gc_reconnectTimer := Some delay\<rparr>)"

text \<open>\<open>up\<close>: the channel says it is connected.\<close>

definition gc_isConnected :: "bool \<Rightarrow> IPCClientGUI \<Rightarrow> bool" where
  "gc_isConnected up g \<longleftrightarrow> gc_channel g \<and> up"

definition pollConnectionState :: "bool \<Rightarrow> IPCClientGUI \<Rightarrow> IPCClientGUI" where
  "pollConnectionState up g =
     (let connected = gc_isConnected up g;
          g = (if connected \<noteq> gc_lastConnected g
               then let g = g\<lparr>gc_lastConnected := connected,
                               gc_signals := gc_signals g @ [connectionStateChanged connected]\<rparr>
                    in if connected then g\<lparr>gc_reconnectAttempts := 0, gc_reconnectTimer := None\<rparr> else g
               else g)
      in if \<not> connected \<and> gc_shouldReconnect g then scheduleReconnectAttempt g else g)"

definition channel_connect :: "IPCClientGUI \<Rightarrow> IPCClientGUI" where
  "channel_connect g = (if gc_channel g then g\<lparr>gc_connects := gc_connects g @ [gc_serverName g]\<rparr> else g)"

definition connectToDaemon :: "string \<Rightarrow> bool \<Rightarrow> IPCClientGUI \<Rightarrow> IPCClientGUI" where
  "connectToDaemon serverName up g =
     (let g = (if serverName \<noteq> [] then g\<lparr>gc_serverName := serverName\<rparr> else g);
          g = g\<lparr>gc_shouldReconnect := True, gc_reconnectAttempts := 0, gc_reconnectTimer := None\<rparr>
      in pollConnectionState up ((channel_connect g)\<lparr>gc_connectionPoller := True\<rparr>))"

definition disconnectFromDaemon :: "bool \<Rightarrow> IPCClientGUI \<Rightarrow> IPCClientGUI" where
  "disconnectFromDaemon up g =
     pollConnectionState up (g\<lparr>gc_shouldReconnect := False, gc_reconnectAttempts := 0,
       gc_reconnectTimer := None, gc_connectionPoller := False\<rparr>)"

text \<open>The timer for one attempt fires.\<close>

definition attemptReconnect :: "IPCClientGUI \<Rightarrow> IPCClientGUI" where
  "attemptReconnect g =
     (let g = g\<lparr>gc_reconnectTimer := None\<rparr> in
      if \<not> gc_channel g \<or> \<not> gc_shouldReconnect g then g else channel_connect g)"

section \<open>Messages\<close>

text \<open>The numbers the client compares with, and the sizes of the structures.\<close>

definition RspStatus_type :: nat where "RspStatus_type = 0x5101"
definition RspConfigList_type :: nat where "RspConfigList_type = 0x5102"
definition LockStatusUpdate_type :: nat where "LockStatusUpdate_type = 0x3004"
definition ipc_LockStatusUpdate :: nat where "ipc_LockStatusUpdate = 0x0200"

definition sizeof_RspStatusPayload :: nat where "sizeof_RspStatusPayload = 514"
definition sizeof_RspConfigListPayload :: nat where "sizeof_RspConfigListPayload = 4100"
definition sizeof_LockStatusMessage :: nat where "sizeof_LockStatusMessage = 32"

lemmas wire_defs = RspStatus_type_def RspConfigList_type_def LockStatusUpdate_type_def
  ipc_LockStatusUpdate_def sizeof_RspStatusPayload_def sizeof_RspConfigListPayload_def
  sizeof_LockStatusMessage_def

definition payload :: "ChannelMessage \<Rightarrow> string" where
  "payload m = (case cm_data m of Some d \<Rightarrow> d | None \<Rightarrow> [])"

definition handleMessage :: "ChannelMessage \<Rightarrow> IPCClientGUI \<Rightarrow> IPCClientGUI" where
  "handleMessage m g =
     (let rawType = unat (cm_type m); emit = (\<lambda>s. g\<lparr>gc_signals := gc_signals g @ [s]\<rparr>) in
      if rawType = RspStatus_type \<and> sizeof_RspStatusPayload \<le> cm_size m
      then emit (statusReceived (payload m))
      else if rawType = RspConfigList_type \<and> sizeof_RspConfigListPayload \<le> cm_size m
      then emit (configListReceived (payload m))
      else if rawType = ipc_LockStatusUpdate \<and> sizeof_LockStatusMessage \<le> cm_size m
      then emit (lockStatusReceived (payload m))
      else g)"

definition sendMessage :: "nat \<Rightarrow> string option \<Rightarrow> IPCClientGUI \<Rightarrow> IPCClientGUI" where
  "sendMessage t d g =
     (if \<not> gc_channel g then g
      else g\<lparr>gc_sent := gc_sent g @ [\<lparr>cm_type = word_of_nat t, cm_data = d,
                                       cm_size = (case d of Some bs \<Rightarrow> length bs | None \<Rightarrow> 0)\<rparr>]\<rparr>)"

definition sendGetStatus :: "IPCClientGUI \<Rightarrow> IPCClientGUI" where
  "sendGetStatus = sendMessage CmdGetStatus None"

definition sendGetLockStatus :: "IPCClientGUI \<Rightarrow> IPCClientGUI" where
  "sendGetLockStatus = sendMessage CmdGetLockStatus None"

definition sendSetEnabled :: "bool \<Rightarrow> IPCClientGUI \<Rightarrow> IPCClientGUI" where
  "sendSetEnabled enabled = sendMessage CmdSetEnabled (Some [if enabled then CHR 0x01 else NUL])"

definition sendSwitchConfig :: "string \<Rightarrow> IPCClientGUI \<Rightarrow> IPCClientGUI" where
  "sendSwitchConfig configName = sendMessage CmdSwitchConfig (Some (copyStringField 256 configName))"

definition sendReloadConfig :: "string \<Rightarrow> IPCClientGUI \<Rightarrow> IPCClientGUI" where
  "sendReloadConfig configName = sendMessage CmdReloadConfig (Some (copyStringField 256 configName))"

definition sendAddConfig :: "string \<Rightarrow> IPCClientGUI \<Rightarrow> IPCClientGUI" where
  "sendAddConfig configPath = sendMessage CmdAddConfig (Some (copyStringField 256 configPath))"

definition sendRemoveConfig :: "string \<Rightarrow> IPCClientGUI \<Rightarrow> IPCClientGUI" where
  "sendRemoveConfig configPath = sendMessage CmdRemoveConfig (Some (copyStringField 256 configPath))"

section \<open>Daemon and client\<close>

text \<open>A received message as the engine's handler sees it.\<close>

definition engine_message :: "ChannelMessage \<Rightarrow> Message" where
  "engine_message m = \<lparr>msg_type = unat (cm_type m), msg_data = map_option (take (cm_size m)) (cm_data m)\<rparr>"

text \<open>An answer as the message the engine sends; \<open>bytes\<close> is the memory of the structure.\<close>

definition answer_message :: "(Response \<Rightarrow> string) \<Rightarrow> Response \<Rightarrow> ChannelMessage" where
  "answer_message bytes r = (case r of
     RspStatus running enabled active err \<Rightarrow>
       \<lparr>cm_type = word_of_nat RspStatus_type, cm_data = Some (bytes r), cm_size = sizeof_RspStatusPayload\<rparr>
   | RspConfigList n configs \<Rightarrow>
       \<lparr>cm_type = word_of_nat RspConfigList_type, cm_data = Some (bytes r), cm_size = sizeof_RspConfigListPayload\<rparr>
   | LockStatusUpdate bits \<Rightarrow>
       \<lparr>cm_type = word_of_nat LockStatusUpdate_type, cm_data = Some (bytes r), cm_size = sizeof_LockStatusMessage\<rparr>)"

end
