(* ===== verification/Ipc_End_To_End.thy ===== *)
theory Ipc_End_To_End
  imports Ipc_Client
begin

text \<open>
  Client, channel and engine together: what becomes of the names in requests, of the answers, and
  of the attempts to reconnect.
\<close>

section \<open>Requests\<close>

definition switch_request :: "string \<Rightarrow> ChannelMessage" where
  "switch_request name =
     \<lparr>cm_type = word_of_nat CmdSwitchConfig, cm_data = Some (copyStringField 256 name), cm_size = 256\<rparr>"

lemma copy_length [simp]: "length (copyStringField 256 s) = 256"
  by (simp add: copyStringField_def Let_def)

lemma sends_requests:
  "gc_channel g \<Longrightarrow> gc_sent (fold sendSwitchConfig names g) = gc_sent g @ map switch_request names"
  by (induction names arbitrary: g) (simp_all add: sendSwitchConfig_def sendMessage_def switch_request_def)

lemma switch_request_sendable: "sendable (switch_request name)"
  by (simp add: sendable_def switch_request_def)

lemma switch_request_read:
  assumes "NUL \<notin> set name"
  shows "requested (engine_message (arrived (switch_request name))) = Inr (Some (take 255 name))"
  using field_roundtrip [OF assms, of "[]"]
  by (simp add: requested_def engine_message_def arrived_def switch_request_def kMaxConfigNameLength_def)

section \<open>Answers\<close>

definition answer_signals :: "(Response \<Rightarrow> string) \<Rightarrow> Response \<Rightarrow> GuiSignal list" where
  "answer_signals bytes r = (case r of
     RspStatus _ _ _ _ \<Rightarrow> [statusReceived (bytes r)]
   | RspConfigList _ _ \<Rightarrow> [configListReceived (bytes r)]
   | LockStatusUpdate _ \<Rightarrow> [])"

lemma handle_answer:
  "handleMessage (answer_message bytes r) g = g\<lparr>gc_signals := gc_signals g @ answer_signals bytes r\<rparr>"
  by (cases r) (simp_all add: handleMessage_def answer_message_def answer_signals_def wire_defs Let_def payload_def)

lemma handle_answers:
  "gc_signals (fold (\<lambda>r. handleMessage (answer_message bytes r)) rs g) =
   gc_signals g @ concat (map (answer_signals bytes) rs)"
  by (induction rs arbitrary: g) (simp_all add: handle_answer)

section \<open>Reconnecting\<close>

datatype ClientEvent = Poll bool | Reconnect_Timer

definition client_step :: "ClientEvent \<Rightarrow> IPCClientGUI \<Rightarrow> IPCClientGUI" where
  "client_step e g = (case e of
     Poll up \<Rightarrow> if gc_connectionPoller g then pollConnectionState up g else g
   | Reconnect_Timer \<Rightarrow> if gc_reconnectTimer g \<noteq> None then attemptReconnect g else g)"

text \<open>The attempts made are those counted, but for the one the timer waits for.\<close>

definition attempts_inv :: "nat \<Rightarrow> IPCClientGUI \<Rightarrow> bool" where
  "attempts_inv n g \<longleftrightarrow> gc_reconnectAttempts g \<le> 3 \<and> \<not> gc_lastConnected g \<and>
     length (gc_connects g) + (if gc_reconnectTimer g = None then 0 else 1) \<le> n + gc_reconnectAttempts g"

lemma attempts_schedule: "attempts_inv n g \<Longrightarrow> attempts_inv n (scheduleReconnectAttempt g)"
  by (auto simp: attempts_inv_def scheduleReconnectAttempt_def kMaxAttempts_def Let_def)

lemma attempts_step:
  assumes "attempts_inv n g" and "e \<noteq> Poll True"
  shows "attempts_inv n (client_step e g)"
proof (cases e)
  case (Poll up)
  then show ?thesis using assms attempts_schedule [OF assms(1)]
    by (cases up) (auto simp: client_step_def pollConnectionState_def gc_isConnected_def Let_def attempts_inv_def)
next
  case Reconnect_Timer
  then show ?thesis using assms
    by (auto simp: client_step_def attemptReconnect_def channel_connect_def attempts_inv_def Let_def)
qed

lemma attempts_run:
  "attempts_inv n g \<Longrightarrow> \<forall>e\<in>set es. e \<noteq> Poll True \<Longrightarrow> attempts_inv n (fold client_step es g)"
  by (induction es arbitrary: g) (simp_all add: attempts_step)

text \<open>
  While the daemon stays away, the client makes at most four attempts, however its timers fire:
  the first and three more. After that only a new \<^verbatim>\<open>connectToDaemon\<close> connects it again.
\<close>

theorem at_most_four_attempts:
  assumes "\<not> gc_lastConnected g" and "\<forall>e\<in>set es. e \<noteq> Poll True"
  shows "length (gc_connects (fold client_step es (connectToDaemon name False g))) \<le> length (gc_connects g) + 4"
proof -
  let ?g = "(channel_connect ((if name \<noteq> [] then g\<lparr>gc_serverName := name\<rparr> else g)
    \<lparr>gc_shouldReconnect := True, gc_reconnectAttempts := 0, gc_reconnectTimer := None\<rparr>))\<lparr>gc_connectionPoller := True\<rparr>"
  have start: "attempts_inv (length (gc_connects g) + 1) ?g"
    using assms(1) by (simp add: attempts_inv_def channel_connect_def)
  have "connectToDaemon name False g = client_step (Poll False) ?g"
    by (simp add: connectToDaemon_def client_step_def Let_def)
  then have "attempts_inv (length (gc_connects g) + 1) (fold client_step es (connectToDaemon name False g))"
    using attempts_run [OF attempts_step [OF start] assms(2)] by simp
  then show ?thesis by (simp add: attempts_inv_def split: if_splits)
qed

section \<open>Properties\<close>

text \<open>C35: The engine reads the names the user chose: however the bytes of the client's requests are
  cut into pieces on their way, the engine's handler finds in them the names of the requests, in
  order, each cut off at 255 bytes.\<close>

theorem requests_reach_the_engine:
  assumes "qt_documented qt" and "gc_channel g" and "gc_sent g = []"
    and "\<forall>name\<in>set names. NUL \<notin> set name"
    and "concat pieces = client_writes qt (gc_sent (fold sendSwitchConfig names g))"
  shows "\<exists>ic. feed qt (map (Pair s) pieces) (onNewConnection (Some s) (ic_listen new_IPCChannel)) = Some ic \<and>
    map (\<lambda>m. (msg_type (engine_message m), requested (engine_message m))) (received_from s ic) =
    map (\<lambda>name. (CmdSwitchConfig, Inr (Some (take 255 name)))) names"
proof -
  let ?sent = "\<lambda>c. if c = s then map switch_request names else []"
  have sendable: "\<forall>c. \<forall>m\<in>set (?sent c). sendable m" using switch_request_sendable by auto
  have bytes: "bytes_of c (map (Pair s) pieces) = (if c = s then concat pieces else [])" for c
    by (simp add: bytes_of_def filter_map comp_def)
  have "\<forall>c. bytes_of c (map (Pair s) pieces) = client_writes qt (?sent c)"
    using assms(5) sends_requests [OF assms(2), of names] assms(3) client_writes_stream [of "[]" qt]
    by (simp add: bytes)
  from messages_reach [OF assms(1) sendable this, of "[s]"]
  obtain ic where ic: "feed qt (map (Pair s) pieces) (onNewConnection (Some s) (ic_listen new_IPCChannel)) = Some ic"
      "received_from s ic = map arrived (map switch_request names)"
    by (auto split: if_splits)
  have "msg_type (engine_message (arrived (switch_request name))) = CmdSwitchConfig" for name
    by (simp add: engine_message_def arrived_def switch_request_def CmdSwitchConfig_def)
  then show ?thesis using ic assms(4) switch_request_read by (intro exI [of _ ic]) simp
qed

theorem requests_reach_the_engine_witness:
  "let w = client_writes plain_qt (gc_sent (fold sendSwitchConfig [''a'', ''b''] (new_IPCClientGUI True))) in
   \<exists>ic. feed plain_qt [(7, take 5 w), (7, drop 5 w)] (onNewConnection (Some 7) (ic_listen new_IPCChannel)) = Some ic \<and>
     map (\<lambda>m. (msg_type (engine_message m), requested (engine_message m))) (received_from 7 ic) =
       [(CmdSwitchConfig, Inr (Some ''a'')), (CmdSwitchConfig, Inr (Some ''b''))]"
proof -
  let ?w = "client_writes plain_qt (gc_sent (fold sendSwitchConfig [''a'', ''b''] (new_IPCClientGUI True)))"
  have "gc_channel (new_IPCClientGUI True)" "gc_sent (new_IPCClientGUI True) = []"
    "\<forall>name\<in>set [''a'', ''b'']. NUL \<notin> set name" "concat [take 5 ?w, drop 5 ?w] = ?w"
    by (simp_all add: new_IPCClientGUI_def NUL_def)
  from requests_reach_the_engine [OF plain_qt_documented this, of 7] show ?thesis by (simp add: Let_def)
qed

text \<open>C36: The client never learns of locks: the engine answers every request for the locks with a message of
  the number 0x3004, the client waits for 0x0200. Of the answers to any message, those with a
  status or a list reach the interface, in order, those with locks do not.\<close>

theorem lock_status_is_dropped:
  assumes "handleIpcMessage ou msg d = Inr d'" and "dm_connected d" and "gc_signals g = []"
  shows "\<exists>rs. dm_sent d' = dm_sent d @ rs \<and>
    gc_signals (fold (\<lambda>r. handleMessage (answer_message bytes r)) rs g) =
      (if msg_type msg = CmdGetLockStatus then [] else concat (map (answer_signals bytes) rs)) \<and>
    (msg_type msg = CmdGetLockStatus \<longrightarrow> (\<exists>bits. rs = [LockStatusUpdate bits]))"
proof -
  obtain rs where rs: "dm_sent d' = dm_sent d @ rs"
    using handleIpcMessage_sends [OF assms(1)] by (auto simp: sends_wf_def)
  have "\<exists>bits. rs = [LockStatusUpdate bits]" if "msg_type msg = CmdGetLockStatus"
    using assms(1,2) that rs by (auto simp: handleIpcMessage_def command_defs send_def)
  then show ?thesis using rs assms(3) by (intro exI [of _ rs]) (auto simp: handle_answers answer_signals_def)
qed

theorem lock_status_is_dropped_witness:
  "\<exists>d' bits. handleIpcMessage ex_outside (ex_request CmdGetLockStatus []) (ex_ipc_daemon True) = Inr d' \<and>
     dm_sent d' = [LockStatusUpdate bits] \<and>
     gc_signals (handleMessage (answer_message (\<lambda>_. replicate 32 NUL) (LockStatusUpdate bits)) (new_IPCClientGUI True)) = []"
proof -
  let ?d = "ex_ipc_daemon True"
  let ?d' = "send (LockStatusUpdate (lock_bits (ms_state (en_modifierState (dm_engine ?d))))) ?d"
  have h: "handleIpcMessage ex_outside (ex_request CmdGetLockStatus []) ?d = Inr ?d'"
    by (simp add: handleIpcMessage_def command_defs ex_request_def)
  have ex: "dm_connected ?d" "dm_sent ?d = []" "gc_signals (new_IPCClientGUI True) = []"
    "msg_type (ex_request CmdGetLockStatus []) = CmdGetLockStatus"
    by (simp_all add: ex_ipc_daemon_def new_IPCClientGUI_def ex_request_def)
  show ?thesis
    using lock_status_is_dropped [OF h ex(1,3), of "\<lambda>_. replicate 32 NUL"] h ex(2,4) by auto
qed

end
