(* ===== verification/Metadata_Roundtrip.thy ===== *)
theory Metadata_Roundtrip
  imports Config_Metadata Session_Roundtrip
begin

text \<open>
  What is read back of saved metadata. A member is found by its quoted name, so the texts in front of
  it must not be that name; between quotes the search only compares whole texts.
\<close>

section \<open>Searching between quotes\<close>

lemma find_key_front:
  "QUOTE \<notin> set u \<Longrightarrow> find_after (QUOTE # ks) (u @ QUOTE # s) = find_after (QUOTE # ks) (QUOTE # s)"
  by (rule find_after_skip)

lemma find_key_segment:
  assumes "QUOTE \<notin> set v" and "QUOTE \<notin> set key" and "v \<noteq> key"
  shows "find_after (QUOTE # key @ [QUOTE]) (QUOTE # v @ QUOTE # s) = find_after (QUOTE # key @ [QUOTE]) (QUOTE # s)"
proof -
  have "take (length (QUOTE # key @ [QUOTE])) (QUOTE # v @ QUOTE # s) \<noteq> QUOTE # key @ [QUOTE]"
  proof
    assume "take (length (QUOTE # key @ [QUOTE])) (QUOTE # v @ QUOTE # s) = QUOTE # key @ [QUOTE]"
    then have "v @ QUOTE # s = (key @ [QUOTE]) @ drop (Suc (length key)) (v @ QUOTE # s)"
      by (metis append_take_drop_id length_append_singleton length_Cons list.inject take_Suc_Cons)
    then have "takeWhile (\<lambda>c. c \<noteq> QUOTE) (v @ QUOTE # s) = takeWhile (\<lambda>c. c \<noteq> QUOTE) (key @ QUOTE # drop (Suc (length key)) (v @ QUOTE # s))"
      by simp
    then show False using assms takeWhile_until(1) [of QUOTE] by metis
  qed
  then have "find_after (QUOTE # key @ [QUOTE]) (QUOTE # v @ QUOTE # s) = find_after (QUOTE # key @ [QUOTE]) (v @ QUOTE # s)"
    by simp
  then show ?thesis using find_key_front [OF assms(1)] by simp
qed

lemma member_value_front:
  "QUOTE \<notin> set u \<Longrightarrow> member_value (u @ QUOTE # s) key = member_value (QUOTE # s) key"
  by (simp add: member_value_def find_key_front)

lemma member_value_segment:
  assumes "QUOTE \<notin> set v" and "QUOTE \<notin> set key" and "v \<noteq> key"
  shows "member_value (QUOTE # v @ QUOTE # s) key = member_value (QUOTE # s) key"
  unfolding member_value_def find_key_segment [OF assms] by (rule refl)

text \<open>A text as its pieces between quotes.\<close>

fun quoted :: "string list \<Rightarrow> string \<Rightarrow> string" where
  "quoted [] s = s"
| "quoted (v # vs) s = QUOTE # v @ quoted vs s"

lemma member_value_quoted:
  assumes "QUOTE \<notin> set key"
  shows "list_all (\<lambda>v. QUOTE \<notin> set v \<and> v \<noteq> key) vs \<Longrightarrow>
    member_value (quoted vs (QUOTE # s)) key = member_value (QUOTE # s) key"
proof (induction vs)
  case (Cons v vs)
  obtain t where "quoted vs (QUOTE # s) = QUOTE # t" by (cases vs) simp_all
  then show ?case using Cons member_value_segment [of v key t] assms by simp
qed simp

lemma member_value_here: "member_value (QUOTE # key @ QUOTE # CHR '':'' # s) key = Some s"
  using find_after_here [of "QUOTE # key @ [QUOTE]" "CHR '':'' # s"] find_after_here [of "'':''" s]
  by (simp add: member_value_def)

text \<open>The value of a member, by what follows its colon.\<close>

lemma extractString_value:
  assumes "member_value json key = Some (CHR '' '' # QUOTE # escapeJson p @ QUOTE # s)"
    and "QUOTE \<notin> set p" and "p = [] \<or> last p \<noteq> BACKSLASH"
  shows "extractString json key = Some p"
proof -
  have "find_after [QUOTE] (CHR '' '' # QUOTE # escapeJson p @ QUOTE # s) = Some (escapeJson p @ QUOTE # s)"
    using find_after_skip [of QUOTE "'' ''" "[]"] find_after_here [of "[QUOTE]"] by (simp add: QUOTE_def)
  moreover have "scan_string QUOTE (escapeJson p @ QUOTE # s) = Some (escapeJson p, s)"
  proof (rule scan_string_to_quote [OF escape_no_quote [OF assms(2)]])
    show "(if escapeJson p = [] then QUOTE else last (escapeJson p)) \<noteq> BACKSLASH"
      using assms(3) last_escape [of p] by (auto simp: escape_empty QUOTE_def BACKSLASH_def)
  qed
  ultimately show ?thesis by (simp add: extractString_def assms(1) unescape_escape)
qed

lemma extractInt_value:
  assumes "member_value json key = Some (CHR '' '' # to_string i @ CHR '','' # s)"
    and "- (2 ^ 63) \<le> i" "i < 2 ^ 63"
  shows "extractInt json key = Some i"
proof -
  have "extractInt ([] @ QUOTE # CHR ''k'' # [] @ QUOTE # CHR '':'' # CHR '' '' # to_string i @ CHR '','' # s) [CHR ''k''] = Some i"
    by (rule extractInt_at [OF _ assms(2,3) not_digits(4)]) simp
  moreover have "member_value (QUOTE # CHR ''k'' # QUOTE # CHR '':'' # CHR '' '' # to_string i @ CHR '','' # s) [CHR ''k''] =
      Some (CHR '' '' # to_string i @ CHR '','' # s)"
    using member_value_here [of "[CHR ''k'']"] by simp
  ultimately show ?thesis by (simp only: extractInt_def assms(1) append_Nil)
qed

section \<open>Tags\<close>

definition plain_text :: "string \<Rightarrow> bool" where
  "plain_text s \<longleftrightarrow> QUOTE \<notin> set s \<and> (s = [] \<or> last s \<noteq> BACKSLASH)"

definition plain_tag :: "string \<Rightarrow> bool" where
  "plain_tag s \<longleftrightarrow> plain_text s \<and> CHR '']'' \<notin> set s"

lemma escape_bracket: "CHR '']'' \<notin> set s \<Longrightarrow> CHR '']'' \<notin> set (escapeJson s)"
  by (induction s) (auto simp: QUOTE_def BACKSLASH_def split: if_splits)

lemma tags_no_bracket: "list_all plain_tag ts \<Longrightarrow> CHR '']'' \<notin> set (tags_text b ts)"
  by (induction ts arbitrary: b) (auto simp: plain_tag_def escape_bracket QUOTE_def)

lemma array_strings_tags: "list_all plain_tag ts \<Longrightarrow> array_strings (tags_text b ts) = ts"
proof (induction ts arbitrary: b)
  case Nil
  then show ?case by (simp add: array_strings.simps QUOTE_def)
next
  case (Cons t ts)
  let ?r = "tags_text False ts"
  have t: "QUOTE \<notin> set t" "t = [] \<or> last t \<noteq> BACKSLASH" using Cons.prems by (auto simp: plain_tag_def plain_text_def)
  have "find_after [QUOTE] (tags_text b (t # ts)) = Some (escapeJson t @ QUOTE # ?r)"
    using find_after_here [of "[QUOTE]"] find_after_skip [of QUOTE "'', ''" "[]"] by (auto simp: QUOTE_def)
  moreover have "scan_string QUOTE (escapeJson t @ QUOTE # ?r) = Some (escapeJson t, ?r)"
  proof (rule scan_string_to_quote [OF escape_no_quote [OF t(1)]])
    show "(if escapeJson t = [] then QUOTE else last (escapeJson t)) \<noteq> BACKSLASH"
      using t(2) last_escape [of t] by (auto simp: escape_empty QUOTE_def BACKSLASH_def)
  qed
  ultimately show ?case
    using Cons by (subst array_strings.simps) (simp add: unescape_escape)
qed

section \<open>The whole file\<close>

definition member_names :: "string list" where
  "member_names = [''name'', ''description'', ''author'', ''createdDate'', ''modifiedDate'', ''tags'']"

text \<open>Texts without quotes that do not end in a backslash and are not names of members; tags without
  brackets.\<close>

definition plain_info :: "ConfigMetadataInfo \<Rightarrow> bool" where
  "plain_info m \<longleftrightarrow>
     list_all (\<lambda>s. plain_text s \<and> s \<notin> set member_names) [md_name m, md_description m, md_author m] \<and>
     list_all plain_tag (md_tags m)"

lemma escape_not_name:
  assumes "s \<notin> set member_names" and "k \<in> set member_names"
  shows "escapeJson s \<noteq> k"
proof
  assume e: "escapeJson s = k"
  have "list_all (\<lambda>k. unescapeJson k = k) member_names" by code_simp
  then have "unescapeJson k = k" using assms(2) by (simp add: list_all_iff)
  then show False using unescape_escape [of s] e assms by simp
qed

lemma names_no_quote: "k \<in> set member_names \<Longrightarrow> QUOTE \<notin> set k"
  by (auto simp: member_names_def QUOTE_def)

lemma md_parse_toJson:
  assumes plain: "plain_info m"
    and time: "- (2 ^ 63) \<le> md_createdDate m" "md_createdDate m < 2 ^ 63"
      "- (2 ^ 63) \<le> md_modifiedDate m" "md_modifiedDate m < 2 ^ 63"
  shows "md_parseJson (md_toJson m) = m"
proof -
  let ?json = "md_toJson m" and ?u = "''{'' @ CHR 0x0A # ''  ''" and ?sep = "'','' @ CHR 0x0A # ''  ''"
  let ?n = "escapeJson (md_name m)" and ?d = "escapeJson (md_description m)" and ?a = "escapeJson (md_author m)"
  let ?c = "'': '' @ to_string (md_createdDate m) @ ?sep" and ?m = "'': '' @ to_string (md_modifiedDate m) @ ?sep"
  let ?v1 = "[''name'', '': '', ?n, ?sep]"
  let ?v2 = "?v1 @ [''description'', '': '', ?d, ?sep]"
  let ?v3 = "?v2 @ [''author'', '': '', ?a, ?sep]"
  let ?v4 = "?v3 @ [''createdDate'', ?c]"
  let ?v5 = "?v4 @ [''modifiedDate'', ?m]"
  let ?tags = "tags_text True (md_tags m) @ '']'' @ NL @ ''}'' @ NL"
  have texts: "plain_text (md_name m)" "plain_text (md_description m)" "plain_text (md_author m)"
    "list_all plain_tag (md_tags m)"
    using plain by (simp_all add: plain_info_def)
  have noq: "QUOTE \<notin> set ?n" "QUOTE \<notin> set ?d" "QUOTE \<notin> set ?a" "QUOTE \<notin> set ?c" "QUOTE \<notin> set ?m"
    "QUOTE \<notin> set ?u" "QUOTE \<notin> set ?sep" "QUOTE \<notin> set '': ''"
    using texts escape_no_quote number_plain(1) by (auto simp: plain_text_def QUOTE_def)
  have neq: "?n \<noteq> k" "?d \<noteq> k" "?a \<noteq> k" if "k \<in> set member_names" for k
    using plain escape_not_name [OF _ that] by (auto simp: plain_info_def)
  have sep: "?c \<noteq> k" "?m \<noteq> k" "?sep \<noteq> k" "'': '' \<noteq> k" if "k \<in> set member_names" for k
    using that by (auto simp: member_names_def)
  have found: "member_value (?u @ quoted vs (QUOTE # k @ QUOTE # CHR '':'' # s)) k = Some s"
    if "k \<in> set member_names" "list_all (\<lambda>v. QUOTE \<notin> set v \<and> v \<noteq> k) vs" for k vs s
  proof -
    obtain t where t: "quoted vs (QUOTE # k @ QUOTE # CHR '':'' # s) = QUOTE # t" by (cases vs) simp_all
    have "member_value (?u @ QUOTE # t) k = member_value (QUOTE # t) k"
      by (rule member_value_front [OF noq(6)])
    also have "\<dots> = member_value (QUOTE # k @ QUOTE # CHR '':'' # s) k"
      using member_value_quoted [OF names_no_quote [OF that(1)] that(2)] t by metis
    finally show ?thesis by (simp only: t member_value_here)
  qed
  have in_names: "''name'' \<in> set member_names" "''description'' \<in> set member_names" "''author'' \<in> set member_names"
    "''createdDate'' \<in> set member_names" "''modifiedDate'' \<in> set member_names" "''tags'' \<in> set member_names"
    by (simp_all add: member_names_def)
  have plain_names: "QUOTE \<notin> set ''name''" "QUOTE \<notin> set ''description''" "QUOTE \<notin> set ''author''"
    "QUOTE \<notin> set ''createdDate''" "QUOTE \<notin> set ''modifiedDate''"
    using in_names names_no_quote by blast+
  note plain_text_def [simp]
  note vs = noq neq [OF in_names(2)] neq [OF in_names(3)] neq [OF in_names(4)] neq [OF in_names(5)] neq [OF in_names(6)]
    sep [OF in_names(2)] sep [OF in_names(3)] sep [OF in_names(4)] sep [OF in_names(5)] sep [OF in_names(6)] plain_names
  let ?t6 = "CHR '' '' # CHR ''['' # ?tags"
  let ?t5 = "CHR '' '' # to_string (md_modifiedDate m) @ ?sep @ QUOTE # ''tags'' @ QUOTE # CHR '':'' # ?t6"
  let ?t4 = "CHR '' '' # to_string (md_createdDate m) @ ?sep @ QUOTE # ''modifiedDate'' @ QUOTE # CHR '':'' # ?t5"
  let ?t3 = "CHR '' '' # QUOTE # ?a @ QUOTE # ?sep @ QUOTE # ''createdDate'' @ QUOTE # CHR '':'' # ?t4"
  let ?t2 = "CHR '' '' # QUOTE # ?d @ QUOTE # ?sep @ QUOTE # ''author'' @ QUOTE # CHR '':'' # ?t3"
  let ?t1 = "CHR '' '' # QUOTE # ?n @ QUOTE # ?sep @ QUOTE # ''description'' @ QUOTE # CHR '':'' # ?t2"
  have jt: "?json = ?u @ quoted [] (QUOTE # ''name'' @ QUOTE # CHR '':'' # ?t1)"
    "?json = ?u @ quoted ?v1 (QUOTE # ''description'' @ QUOTE # CHR '':'' # ?t2)"
    "?json = ?u @ quoted ?v2 (QUOTE # ''author'' @ QUOTE # CHR '':'' # ?t3)"
    "?json = ?u @ quoted ?v3 (QUOTE # ''createdDate'' @ QUOTE # CHR '':'' # ?t4)"
    "?json = ?u @ quoted ?v4 (QUOTE # ''modifiedDate'' @ QUOTE # CHR '':'' # ?t5)"
    "?json = ?u @ quoted ?v5 (QUOTE # ''tags'' @ QUOTE # CHR '':'' # ?t6)"
    by (simp_all add: md_toJson_def member_text_def NL_def)
  have mv: "member_value ?json ''name'' = Some ?t1"
    "member_value ?json ''description'' = Some ?t2"
    "member_value ?json ''author'' = Some ?t3"
    "member_value ?json ''createdDate'' = Some ?t4"
    "member_value ?json ''modifiedDate'' = Some ?t5"
    "member_value ?json ''tags'' = Some ?t6"
    subgoal unfolding jt(1) by (rule found [OF in_names(1)]) simp
    subgoal unfolding jt(2) by (rule found [OF in_names(2)]) (use vs in simp)
    subgoal unfolding jt(3) by (rule found [OF in_names(3)]) (use vs in simp)
    subgoal unfolding jt(4) by (rule found [OF in_names(4)]) (use vs in simp)
    subgoal unfolding jt(5) by (rule found [OF in_names(5)]) (use vs in simp)
    subgoal unfolding jt(6) by (rule found [OF in_names(6)]) (use vs in simp)
    done
  have "extractString ?json ''name'' = Some (md_name m)"
    by (rule extractString_value [OF mv(1)]) (use texts(1) in simp_all)
  moreover have "extractString ?json ''description'' = Some (md_description m)"
    by (rule extractString_value [OF mv(2)]) (use texts(2) in simp_all)
  moreover have "extractString ?json ''author'' = Some (md_author m)"
    by (rule extractString_value [OF mv(3)]) (use texts(3) in simp_all)
  moreover have "extractInt ?json ''createdDate'' = Some (md_createdDate m)"
    by (rule extractInt_value [OF _ time(1,2)]) (use mv(4) in simp)
  moreover have "extractInt ?json ''modifiedDate'' = Some (md_modifiedDate m)"
    by (rule extractInt_value [OF _ time(3,4)]) (use mv(5) in simp)
  moreover have "extractStringArray ?json ''tags'' = Some (md_tags m)"
    using find_after_here [of "''[''"] split_char_here [OF tags_no_bracket [OF texts(4)]]
      array_strings_tags [OF texts(4)] by (simp add: extractStringArray_def mv(6))
  ultimately show ?thesis by (simp add: md_parseJson_def)
qed

lemma md_save_file:
  assumes "md_save now pw_dir F p m = (True, F', m')"
  shows "m' = dated now m \<and> environment F' = environment F \<and>
    read_file F' (getMetadataPath pw_dir F p) = Some (md_toJson m')"
proof -
  obtain F1 where F1: "ensureMetadataDirExists pw_dir F = (True, F1)" "m' = dated now m"
    "write_file (getMetadataPath pw_dir F p) (md_toJson (dated now m)) F1 = Some F'"
    using assms by (auto simp: md_save_def Let_def split: prod.splits if_splits option.splits)
  have "environment F1 = environment F"
    using F1(1) by (auto simp: ensureMetadataDirExists_def split: prod.splits if_splits dest!: ensureDir_environment)
  moreover have "environment F' = environment F1"
    using F1(3) by (auto simp: write_file_def split: if_splits)
  ultimately show ?thesis using F1 read_write_file by simp
qed

lemma md_save_opens:
  "fst (md_save now pw_dir F p m) \<longleftrightarrow> fst (ensureMetadataDirExists pw_dir F) \<and>
     can_open_out (snd (ensureMetadataDirExists pw_dir F)) (getMetadataPath pw_dir F p)"
  by (simp add: md_save_def write_file_def Let_def split_beta)

section \<open>What is not read back\<close>

text \<open>A tag with a bracket ends the array; a name that is that of a later member hides it.\<close>

lemma bracket_tag_lost: "md_tags (md_parseJson (md_toJson (addTag 1 ''a]b'' new_ConfigMetadataInfo))) = []"
  by code_simp

lemma author_name_hides_author:
  "md_author (md_parseJson (md_toJson (setAuthor 1 ''me'' (setDescription 1 ''d'' (setName 1 ''author'' new_ConfigMetadataInfo)))))
     = ''d''"
  by code_simp

section \<open>Property\<close>

text \<open>C38: Saved metadata is read back as it was saved, with the dates set that were not, and so it is
  by every configuration whose path gives the same file name: slashes and underscores, blanks and
  hyphens are one, and other characters are dropped. The texts must not have quotes or end in a
  backslash, none of them may be the name of a member (one that stands in front of that member would hide it), and tags must not have brackets.\<close>

theorem metadata_roundtrip:
  assumes plain: "plain_info m"
    and time: "- (2 ^ 63) \<le> md_createdDate (dated now m)" "md_createdDate (dated now m) < 2 ^ 63"
      "- (2 ^ 63) \<le> md_modifiedDate (dated now m)" "md_modifiedDate (dated now m) < 2 ^ 63"
    and saved: "md_save now pw_dir F p m = (True, F', m')"
    and same: "pathToMetadataFilename p' = pathToMetadataFilename p"
  shows "m' = dated now m \<and> md_load later pw_dir F' p' = (True, m')"
proof -
  have fl: "m' = dated now m" "environment F' = environment F"
    "read_file F' (getMetadataPath pw_dir F p) = Some (md_toJson m')"
    using md_save_file [OF saved] by simp_all
  have "getMetadataPath pw_dir F' p' = getMetadataPath pw_dir F p"
    using same same_environment(3) [OF fl(2)] by (simp add: getMetadataPath_def getMetadataDir_def)
  moreover have "plain_info m'"
    using plain unfolding fl(1) by (simp add: plain_info_def dated_def Let_def)
  then have "md_parseJson (md_toJson m') = m'" using md_parse_toJson time fl(1) by simp
  ultimately show ?thesis using fl by (simp add: md_load_def)
qed

theorem metadata_roundtrip_witness:
  "\<exists>F' m'. md_save 7 None example_home ''/a b'' (addTag 5 ''vim'' (setName 5 ''Keys'' new_ConfigMetadataInfo)) =
     (True, F', m') \<and> md_createdDate m' = 7 \<and> md_load 9 None F' ''/a-b'' = (True, m')"
proof -
  let ?m = "addTag 5 ''vim'' (setName 5 ''Keys'' new_ConfigMetadataInfo)"
  have name: "pathToMetadataFilename ''/a b'' = ''_a-b.json''"
    "pathToMetadataFilename ''/a-b'' = ''_a-b.json''"
    by (simp_all add: pathToMetadataFilename_def safe_char_def isalnum_def isdigit_def)
  have "fst (md_save 7 None example_home ''/a b'' ?m)"
    unfolding md_save_opens getMetadataPath_def name by (intro conjI) code_simp+
  then obtain F' m' where saved: "md_save 7 None example_home ''/a b'' ?m = (True, F', m')"
    by (metis (full_types) prod.collapse)
  have d: "dated 7 ?m = ?m\<lparr>md_createdDate := 7\<rparr>"
    by (simp add: dated_def addTag_def setName_def new_ConfigMetadataInfo_def)
  have "plain_info ?m" by code_simp
  moreover have "pathToMetadataFilename ''/a-b'' = pathToMetadataFilename ''/a b''" by (simp only: name)
  moreover have "md_modifiedDate (dated 7 ?m) = 5" "md_createdDate (dated 7 ?m) = 7"
    unfolding d by (simp_all add: addTag_def setName_def new_ConfigMetadataInfo_def)
  ultimately show ?thesis using metadata_roundtrip [OF _ _ _ _ _ saved, of "''/a-b''" 9] saved by simp
qed

end
