(* ===== verification/Template_Creation.thy ===== *)
theory Template_Creation
  imports Config_Templates Metadata_Roundtrip Archive_Roundtrip Config_Switching
begin

text \<open>
  What creating a configuration from a template does and leaves alone: the new file, the manager's
  list, the metadata, and every other file.
\<close>

section \<open>Files that stay\<close>

lemma ensureDir_keeps: "ensureDir p F = (ok, F') \<Longrightarrow> keeps_files F F'"
  by (auto simp: ensureDir_def createDirectory_def split: if_splits option.splits file_node.splits
      intro: keeps_files_new)

lemma ensureMetadataDir_keeps: "ensureMetadataDirExists pw_dir F = (ok, F') \<Longrightarrow> keeps_files F F'"
  by (auto simp: ensureMetadataDirExists_def split: prod.splits if_splits
      dest!: ensureDir_keeps intro: keeps_files_trans)

lemma md_save_keeps:
  assumes "md_save now pw_dir F p info = (ok, F', info')"
    and "resolve F q \<noteq> resolve F (getMetadataPath pw_dir F p)"
  shows "resolve F' = resolve F" and "read_file F' q = read_file F q"
proof -
  obtain ok1 F1 where F1: "ensureMetadataDirExists pw_dir F = (ok1, F1)" by fastforce
  have keep: "resolve F1 = resolve F" "read_file F1 q = read_file F q"
    using ensureMetadataDir_keeps [OF F1] by (simp_all add: keeps_files_def)
  let ?p = "getMetadataPath pw_dir F p" and ?c = "md_toJson (dated now info)"
  have "md_save now pw_dir F p info = (if \<not> ok1 then (False, F1, info)
      else case write_file ?p ?c F1 of None \<Rightarrow> (False, F1, dated now info) | Some F2 \<Rightarrow> (True, F2, dated now info))"
    by (simp only: md_save_def F1 Let_def prod.case)
  then consider "F' = F1" | "write_file ?p ?c F1 = Some F'"
    using assms(1) by (simp split: if_splits option.splits)
  then have "resolve F' = resolve F \<and> read_file F' q = read_file F q"
  proof cases
    case 1
    then show ?thesis using keep by simp
  next
    case 2
    then show ?thesis using write_file_result(1,3) [OF 2] keep assms(2) by simp
  qed
  then show "resolve F' = resolve F" "read_file F' q = read_file F q" by blast+
qed

lemma create_dirs_environment: "create_dirs n p F = Some F' \<Longrightarrow> environment F' = environment F"
  by (induction n arbitrary: p F') (auto split: if_splits option.splits)

lemma ensure_parent_environment: "ensure_parent p F = Some F' \<Longrightarrow> environment F' = environment F"
  by (auto simp: ensure_parent_def create_directories_def Let_def split: if_splits
      simp del: create_dirs.simps intro: create_dirs_environment)

lemma add_created_paths:
  "set (paths (add_created cs p m)) = insert p (set (paths m))"
  "distinct (paths m) \<Longrightarrow> distinct (paths (add_created cs p m))"
proof -
  have save: "m_configs (save cs m') = m_configs m'" for m'
    by (simp add: save_def split: option.split)
  have in_list: "findConfig m p < 0 \<longleftrightarrow> p \<notin> set (paths m)"
  proof (cases rule: findConfig_cases [of m p])
    case absent
    then show ?thesis by simp
  next
    case (present i)
    have "path (m_configs m ! i) \<in> set (paths m)" using present(1) by (simp add: paths_def)
    then show ?thesis using present by simp
  qed
  show "set (paths (add_created cs p m)) = insert p (set (paths m))"
    "distinct (paths m) \<Longrightarrow> distinct (paths (add_created cs p m))"
    using in_list by (auto simp: add_created_def paths_def save)
qed

section \<open>What a template gives\<close>

text \<open>The new file is there with the template in it; the metadata comes after it.\<close>

definition new_file :: "TemplateName \<Rightarrow> string \<Rightarrow> File_System \<Rightarrow> File_System \<Rightarrow> bool" where
  "new_file t p F F2 \<longleftrightarrow> \<not> fileExists F p \<and>
     (case ensure_parent p F of None \<Rightarrow> False | Some F1 \<Rightarrow> write_file p (templateContent t) F1 = Some F2)"

text \<open>The metadata directory is there or can be made, and the metadata file can be opened for writing.\<close>

definition metadata_writable :: "string option \<Rightarrow> File_System \<Rightarrow> string \<Rightarrow> bool" where
  "metadata_writable pw_dir F p \<longleftrightarrow> fst (ensureMetadataDirExists pw_dir F) \<and>
     can_open_out (snd (ensureMetadataDirExists pw_dir F)) (getMetadataPath pw_dir F p)"

text \<open>Metadata of a file made from a template: its name, where it came from, and nothing else.\<close>

definition says_origin :: "TemplateName \<Rightarrow> string \<Rightarrow> ConfigMetadataInfo \<Rightarrow> bool" where
  "says_origin t p i \<longleftrightarrow> md_name i = extractName p \<and>
     md_description i = ''Created from '' @ templateDisplayName t @ '' template'' \<and>
     md_author i = [] \<and> md_tags i = []"

lemma template_metadata_says_origin: "says_origin t p (dated now (template_metadata now t p))"
  by (simp add: says_origin_def dated_def template_metadata_def Let_def
      setDescription_def setName_def new_ConfigMetadataInfo_def)

lemma new_fileE:
  assumes "new_file t p F F2"
  obtains F1 where "\<not> fileExists F p" and "ensure_parent p F = Some F1"
    and "write_file p (templateContent t) F1 = Some F2"
  using assms unfolding new_file_def by (cases "ensure_parent p F") auto

lemma read_file_no_file: "\<not> fileExists F p \<Longrightarrow> read_file F p = None"
  using is_regular_file_iff [of F p] is_regular_file_exists [of F p] by (auto simp: fileExists_def)

lemma read_file_resolve: "resolve F q = resolve F p \<Longrightarrow> read_file F q = read_file F p"
  by (simp add: read_file_def file_at_def)

lemma new_file_result:
  assumes "new_file t p F F2"
  shows "resolve F2 = resolve F" and "read_file F2 p = Some (templateContent t)"
    and "read_file F q = Some c \<Longrightarrow> read_file F2 q = Some c"
    and "getMetadataPath pw_dir F2 p' = getMetadataPath pw_dir F p'"
proof -
  obtain F1 where new: "\<not> fileExists F p" and F1: "ensure_parent p F = Some F1"
    and F2: "write_file p (templateContent t) F1 = Some F2"
    using assms by (rule new_fileE)
  have keep: "resolve F1 = resolve F" "\<And>x. read_file F1 x = read_file F x"
    using ensure_parent_keeps [OF F1] by (simp_all add: keeps_files_def)
  show "resolve F2 = resolve F" by (simp only: write_file_result(1) [OF F2] keep)
  show "read_file F2 p = Some (templateContent t)" by (rule write_file_result(2) [OF F2])
  show "read_file F2 q = Some c" if "read_file F q = Some c"
  proof -
    have "resolve F1 q \<noteq> resolve F1 p"
      using that read_file_no_file [OF new] read_file_resolve [of F q p] unfolding keep by force
    from write_file_result(3) [OF F2 this] show ?thesis by (simp only: keep that)
  qed
  have "environment F2 = environment F1"
    using F2 by (auto simp: write_file_def split: if_splits)
  then have "environment F2 = environment F"
    by (simp only: ensure_parent_environment [OF F1])
  from same_environment(3) [OF this] show "getMetadataPath pw_dir F2 p' = getMetadataPath pw_dir F p'"
    by (simp add: getMetadataPath_def getMetadataDir_def)
qed

lemma template_fails:
  assumes run: "createFromTemplate now pw_dir cs t p F m = (r, F', m')" and no: "\<nexists>F2. new_file t p F F2"
  shows "\<not> tr_success r \<and> m' = m \<and> keeps_files F F'"
proof (cases "fileExists F p")
  case True
  then show ?thesis using run by (auto simp: createFromTemplate_def template_failed_def keeps_files_def)
next
  case new: False
  show ?thesis
  proof (cases "ensure_parent p F")
    case None
    then show ?thesis using run new by (auto simp: createFromTemplate_def template_failed_def keeps_files_def)
  next
    case (Some F1)
    have "write_file p (templateContent t) F1 = None"
      using no new Some by (simp add: new_file_def)
    then show ?thesis using run new Some ensure_parent_keeps [OF Some]
      by (auto simp: createFromTemplate_def template_failed_def)
  qed
qed

lemma template_run:
  assumes "new_file t p F F2" and "md_save now pw_dir F2 p (template_metadata now t p) = (saved, F3, info)"
  shows "createFromTemplate now pw_dir cs t p F m =
    (\<lparr>tr_success = True, tr_errorMessage = [], tr_createdPath = p\<rparr>, F3, add_created cs p m)"
  using assms(1) by (rule new_fileE) (simp add: createFromTemplate_def Let_def assms(2))

lemma template_created:
  assumes run: "createFromTemplate now pw_dir cs t p F m = (r, F', m')" and F2: "new_file t p F F2"
  shows "tr_success r \<and> tr_createdPath r = p \<and> m' = add_created cs p m \<and>
    (resolve F q \<noteq> resolve F (getMetadataPath pw_dir F p) \<longrightarrow> read_file F' q = read_file F2 q) \<and>
    (metadata_writable pw_dir F2 p \<longrightarrow>
       (\<exists>i. read_file F' (getMetadataPath pw_dir F p) = Some (md_toJson i) \<and> says_origin t p i))"
proof -
  let ?i = "template_metadata now t p"
  obtain saved F3 info where F3: "md_save now pw_dir F2 p ?i = (saved, F3, info)" by (metis prod.exhaust)
  have res: "F' = F3" "m' = add_created cs p m" "tr_success r" "tr_createdPath r = p"
    using run template_run [OF F2 F3, of cs m] by auto
  have "read_file F3 q = read_file F2 q" if "resolve F q \<noteq> resolve F (getMetadataPath pw_dir F p)"
    using md_save_keeps(2) [OF F3, of q] that by (simp add: new_file_result [OF F2])
  moreover have "read_file F3 (getMetadataPath pw_dir F p) = Some (md_toJson (dated now ?i))"
    if "metadata_writable pw_dir F2 p"
  proof -
    have "saved" using that md_save_opens [of now pw_dir F2 p ?i] F3 by (simp add: metadata_writable_def)
    then show ?thesis using md_save_file [of now pw_dir F2 p ?i F3 info] F3 by (simp add: new_file_result [OF F2])
  qed
  ultimately show ?thesis using res template_metadata_says_origin by blast
qed

text \<open>An example: two configurations, a third is made.\<close>

lemma example_metadata_writable:
  "metadata_writable None (set_node ''/h/.yamy/n'' (Regular_File c k) example_files) ''/h/.yamy/n''"
  unfolding metadata_writable_def by code_simp

lemma example_created: "\<exists>F2. new_file Template_Vim ''/h/.yamy/n'' example_files F2 \<and> metadata_writable None F2 ''/h/.yamy/n''"
proof -
  let ?p = "''/h/.yamy/n''" and ?F = "example_files"
  have "\<not> fileExists ?F ?p" "fs_exists ?F (parent_path ?p)" "can_open_out ?F ?p" by code_simp+
  then show ?thesis
    by (auto simp: new_file_def ensure_parent_def write_file_def intro: example_metadata_writable)
qed

lemma example_not_metadata:
  "x = ''/h/.yamy/n'' \<or> x = ''/h/.yamy/a.mayu'' \<Longrightarrow>
   resolve example_files x \<noteq> resolve example_files (getMetadataPath None example_files ''/h/.yamy/n'')"
  by (auto simp: getMetadataPath_def getMetadataDir_def getHomeDir_def nonempty_env_def example_files_def)

text \<open>C37: A configuration is created only where there was no file, and exactly when its directory can be made
  and the file opened for writing. Then the file is the template, the manager lists it once (the list had
  no repetitions), and, if the metadata file can be written, it holds the JSON of a record with the file's
  base name, the description "Created from <template> template", no author and no tags. Otherwise the
  manager is unchanged. In both cases every file but the metadata file stays as it was; the new file is
  the template unless its path is that of the metadata.
\<close>

theorem template_is_created:
  assumes run: "createFromTemplate now pw_dir cs t p F m = (r, F', m')"
    and list: "distinct (paths m)"
  shows "(tr_success r \<longleftrightarrow> (\<exists>F2. new_file t p F F2)) \<and>
    (resolve F q \<noteq> resolve F (getMetadataPath pw_dir F p) \<longrightarrow> read_file F q = Some c \<longrightarrow> read_file F' q = Some c) \<and>
    (\<not> tr_success r \<longrightarrow> m' = m) \<and>
    (tr_success r \<longrightarrow> distinct (paths m') \<and> set (paths m') = insert p (set (paths m)) \<and> tr_createdPath r = p) \<and>
    (new_file t p F F2 \<longrightarrow>
       (resolve F p \<noteq> resolve F (getMetadataPath pw_dir F p) \<longrightarrow> read_file F' p = Some (templateContent t)) \<and>
       (metadata_writable pw_dir F2 p \<longrightarrow>
          (\<exists>i. read_file F' (getMetadataPath pw_dir F p) = Some (md_toJson i) \<and> says_origin t p i)))"
proof (cases "\<exists>F2. new_file t p F F2")
  case False
  then show ?thesis using template_fails [OF run] by (auto simp: keeps_files_def)
next
  case True
  then obtain F3 where new: "new_file t p F F3" by blast
  have same: "F2 = F3" if "new_file t p F F2"
    using that new by (auto simp: new_file_def split: option.splits)
  have "read_file F3 q = Some c" if "read_file F q = Some c" using that by (rule new_file_result(3) [OF new])
  then show ?thesis
    using template_created [OF run new, of q] template_created [OF run new, of p] new new_file_result(2) [OF new]
      add_created_paths [where cs = cs and p = p and m = m] list same by auto
qed

theorem template_is_created_witness:
  "\<exists>r F' m'. createFromTemplate 7 None plain_store Template_Vim ''/h/.yamy/n''
       example_files ConfigManager_init = (r, F', m') \<and>
     tr_success r \<and> ''/h/.yamy/n'' \<in> set (paths m') \<and> read_file F' ''/h/.yamy/n'' = Some TEMPLATE_VIM \<and>
     read_file F' ''/h/.yamy/a.mayu'' = Some [] \<and>
     (\<exists>i. read_file F' (getMetadataPath None example_files ''/h/.yamy/n'') = Some (md_toJson i) \<and>
        md_name i = ''n'' \<and> md_description i = ''Created from Vim template'')"
proof -
  obtain F2 where F2: "new_file Template_Vim ''/h/.yamy/n'' example_files F2" "metadata_writable None F2 ''/h/.yamy/n''"
    using example_created by blast
  obtain r F' m' where run: "createFromTemplate 7 None plain_store Template_Vim ''/h/.yamy/n''
      example_files ConfigManager_init = (r, F', m')"
    by (metis prod.exhaust)
  have init: "read_file example_files ''/h/.yamy/a.mayu'' = Some []"
    "distinct (paths (ConfigManager_init :: QSettings ConfigManager))" "extractName ''/h/.yamy/n'' = ''n''" by code_simp+
  note created = template_is_created [OF run init(2), of "''/h/.yamy/a.mayu''" "[]" F2]
  obtain i where "read_file F' (getMetadataPath None example_files ''/h/.yamy/n'') = Some (md_toJson i)"
    "says_origin Template_Vim ''/h/.yamy/n'' i"
    using created F2 by blast
  moreover have "md_name i = ''n'' \<and> md_description i = ''Created from Vim template''" if "says_origin Template_Vim ''/h/.yamy/n'' i" for i
    using that init(3) by (simp add: says_origin_def)
  moreover have "tr_success r" using created F2(1) by blast
  moreover have "''/h/.yamy/n'' \<in> set (paths m')" "read_file F' ''/h/.yamy/n'' = Some TEMPLATE_VIM"
    "read_file F' ''/h/.yamy/a.mayu'' = Some []"
    using created F2(1) init(1) example_not_metadata by (auto simp del: read_file_def)
  ultimately show ?thesis using run by blast
qed

end
