(* ===== verification/Config_Validator.thy ===== *)
theory Config_Validator
  imports Loaded_Engine Template_Creation
begin

text \<open>
  The check of a configuration before it is used (src/core/settings/config_validator.cpp), and what it
  says about the loader: what loads is valid, but not the other way round, and what the program's own
  templates give is neither. The JSON parser is an argument, as it is of the loader; the text its
  exception adds to a message is left out.
\<close>

section \<open>Results\<close>

datatype ValidationSeverity = Error | Warning

record ValidationError =
  ve_lineNumber :: nat
  ve_columnNumber :: nat
  ve_severity :: ValidationSeverity
  ve_code :: string
  ve_message :: string
  ve_context :: string

definition new_ValidationError :: "nat \<Rightarrow> ValidationSeverity \<Rightarrow> string \<Rightarrow> string \<Rightarrow> ValidationError" where
  "new_ValidationError line sev code msg =
     \<lparr>ve_lineNumber = line, ve_columnNumber = 0, ve_severity = sev, ve_code = code, ve_message = msg,
      ve_context = []\<rparr>"

definition isError :: "ValidationError \<Rightarrow> bool" where
  "isError e \<longleftrightarrow> ve_severity e = Error"

definition ve_format :: "ValidationError \<Rightarrow> string" where
  "ve_format e =
     (if 0 < ve_lineNumber e
      then ''('' @ to_string (int (ve_lineNumber e)) @
           (if 0 < ve_columnNumber e then '':'' @ to_string (int (ve_columnNumber e)) else []) @ '')''
      else []) @ '' : '' @
     (if ve_severity e = Error then ''error'' else ''warning'') @
     (if ve_code e \<noteq> [] then '' '' @ ve_code e else []) @ '': '' @ ve_message e @
     (if ve_context e \<noteq> [] then NL @ ''    '' @ ve_context e else [])"

record ValidationResult =
  vr_errors :: "ValidationError list"
  vr_hasErrors :: bool
  vr_hasWarnings :: bool

definition new_ValidationResult :: ValidationResult where
  "new_ValidationResult = \<lparr>vr_errors = [], vr_hasErrors = False, vr_hasWarnings = False\<rparr>"

definition errorCount :: "ValidationResult \<Rightarrow> nat" where
  "errorCount r = length (filter isError (vr_errors r))"

definition warningCount :: "ValidationResult \<Rightarrow> nat" where
  "warningCount r = length (filter (\<lambda>e. \<not> isError e) (vr_errors r))"

definition isValid :: "ValidationResult \<Rightarrow> bool" where
  "isValid r \<longleftrightarrow> \<not> vr_hasErrors r"

definition formatAll :: "ValidationResult \<Rightarrow> string" where
  "formatAll r = concat (map (\<lambda>e. ve_format e @ NL) (vr_errors r))"

section \<open>The check\<close>

definition add_error :: "string \<Rightarrow> string \<Rightarrow> ValidationResult \<Rightarrow> ValidationResult" where
  "add_error code msg r =
     r\<lparr>vr_errors := vr_errors r @ [new_ValidationError 0 Error code msg], vr_hasErrors := True\<rparr>"

definition add_warning :: "string \<Rightarrow> string \<Rightarrow> ValidationResult \<Rightarrow> ValidationResult" where
  "add_warning code msg r =
     r\<lparr>vr_errors := vr_errors r @ [new_ValidationError 0 Warning code msg], vr_hasWarnings := True\<rparr>"

definition json_contains :: "json \<Rightarrow> string \<Rightarrow> bool" where
  "json_contains j k \<longleftrightarrow> json_member j k \<noteq> None"

definition validateString :: "(string \<Rightarrow> json option) \<Rightarrow> string \<Rightarrow> string \<Rightarrow> ValidationResult" where
  "validateString parse body name =
     (if find_after ''.json'' name \<noteq> None then
        (case parse body of
           None \<Rightarrow> add_error ''E003'' ''JSON parse error: '' new_ValidationResult
         | Some j \<Rightarrow>
             let r = new_ValidationResult;
                 r = (if \<not> json_contains j ''keyboard''
                      then add_warning ''W001'' (''Missing '' @ [CHR 0x27] @ ''keyboard'' @ [CHR 0x27] @
                             '' section - config may not work correctly'') r else r);
                 r = (if \<not> json_contains j ''mappings'' \<and> \<not> json_contains j ''virtualModifiers''
                      then add_warning ''W002'' (''No '' @ [CHR 0x27] @ ''mappings'' @ [CHR 0x27] @ '' or '' @
                             [CHR 0x27] @ ''virtualModifiers'' @ [CHR 0x27] @ '' defined - config has no effect'') r else r)
             in if \<not> json_contains j ''version''
                then add_warning ''W003'' (''Missing '' @ [CHR 0x27] @ ''version'' @ [CHR 0x27] @
                       '' field - assuming latest version'') r else r)
      else add_error ''E004'' ''.mayu files are no longer supported - please convert to JSON format'' new_ValidationResult)"

text \<open>Opening a directory for reading succeeds (on Linux, with libstdc++) and nothing is read from it. A
  file that is neither regular nor a directory counts as one that does not open.\<close>

definition readFile :: "File_System \<Rightarrow> string \<Rightarrow> string option" where
  "readFile F p = (if is_directory F p then Some [] else read_file F p)"

definition validate :: "(string \<Rightarrow> json option) \<Rightarrow> File_System \<Rightarrow> string \<Rightarrow> ValidationResult" where
  "validate parse F configPath =
     (if \<not> fs_exists F configPath
      then add_error ''E001'' (''Configuration file not found: '' @ configPath) new_ValidationResult
      else case readFile F configPath of
        None \<Rightarrow> add_error ''E002'' (''Failed to read configuration file: '' @ configPath) new_ValidationResult
      | Some body \<Rightarrow> validateString parse body configPath)"

section \<open>Lemmas\<close>

text \<open>The flags say what the list holds.\<close>

definition flags_ok :: "ValidationResult \<Rightarrow> bool" where
  "flags_ok r \<longleftrightarrow> (vr_hasErrors r \<longleftrightarrow> 0 < errorCount r) \<and> (vr_hasWarnings r \<longleftrightarrow> 0 < warningCount r)"

lemma flags_ok_simps [simp]:
  "flags_ok new_ValidationResult"
  "flags_ok r \<Longrightarrow> flags_ok (add_error code msg r)"
  "flags_ok r \<Longrightarrow> flags_ok (add_warning code msg r)"
  by (auto simp: flags_ok_def new_ValidationResult_def errorCount_def warningCount_def add_error_def
      add_warning_def isError_def new_ValidationError_def)

lemma validate_flags: "flags_ok (validate parse F p)"
  by (simp add: validate_def validateString_def Let_def split: option.split)

lemma hasErrors_simps [simp]:
  "\<not> vr_hasErrors new_ValidationResult" "vr_hasErrors (add_error code msg r)"
  "vr_hasErrors (add_warning code msg r) \<longleftrightarrow> vr_hasErrors r"
  "vr_errors (add_warning code msg r) = vr_errors r @ [new_ValidationError 0 Warning code msg]"
  "vr_errors new_ValidationResult = []"
  by (simp_all add: new_ValidationResult_def add_error_def add_warning_def)

lemma readFile_regular: "read_file F p = Some c \<Longrightarrow> readFile F p = Some c"
  by (auto simp: readFile_def read_file_def is_directory_def split: option.splits file_node.splits)

lemma directory_is_not_json:
  "is_directory F p \<Longrightarrow> parse [] = None \<Longrightarrow> vr_hasErrors (validate parse F p)"
  by (auto simp: validate_def readFile_def validateString_def is_directory_def fs_exists_def)

text \<open>The members the loader needs.\<close>

lemma loaded_members:
  assumes "load_config j st = Some st'"
  shows "json_contains j ''keyboard''" and "json_contains j ''version''"
proof -
  have "validateSchema j" using assms by (simp add: load_config_def split: if_splits)
  then show "json_contains j ''keyboard''" "json_contains j ''version''"
    by (auto simp: validateSchema_def json_contains_def json_string_def split: option.splits)
qed

section \<open>Properties\<close>

text \<open>C39: The flags of the result of a check and its counts agree, whatever the file. And the check accepts
  what the loader loads: a file that loads, under a name with .json in it, has no errors, and the
  only warning it can get is that it maps nothing.\<close>

theorem what_loads_is_valid:
  fixes parse :: "string \<Rightarrow> json option" and F :: File_System and p :: string
  defines "r \<equiv> validate parse F p"
  shows "(vr_hasErrors r \<longleftrightarrow> 0 < errorCount r) \<and> (vr_hasWarnings r \<longleftrightarrow> 0 < warningCount r) \<and>
    (Json_Config_Loader.load parse (read_file F p) st = Some st' \<longrightarrow> find_after ''.json'' p \<noteq> None \<longrightarrow>
       isValid r \<and> errorCount r = 0 \<and> set (map ve_code (vr_errors r)) \<subseteq> {''W002''})"
proof -
  have flags: "flags_ok r" unfolding r_def by (rule validate_flags)
  have "isValid r \<and> set (map ve_code (vr_errors r)) \<subseteq> {''W002''}"
    if loads: "Json_Config_Loader.load parse (read_file F p) st = Some st'" and name: "find_after ''.json'' p \<noteq> None"
  proof -
    obtain body j where b: "read_file F p = Some body" "parse body = Some j" "load_config j st = Some st'"
      using loads by (auto simp: Json_Config_Loader.load_def loadJsonFile_def split: option.splits if_splits)
    have ex: "fs_exists F p" using b(1) is_regular_file_iff is_regular_file_exists by blast
    show ?thesis
      using loaded_members [OF b(3)] ex readFile_regular [OF b(1)] b(2) name
      by (auto simp: r_def isValid_def validate_def validateString_def Let_def new_ValidationError_def)
  qed
  then show ?thesis using flags by (auto simp: flags_ok_def isValid_def)
qed

text \<open>The loaded example is valid under a .json name; under another name it has one error.\<close>

theorem what_loads_is_valid_witness:
  "isValid (validate (\<lambda>_. Some ex_config)
     (example_files\<lparr>nodes := [''/c.json'' \<mapsto> Regular_File ''x'' 0]\<rparr>) ''/c.json'') \<and>
   errorCount (validate (\<lambda>_. Some ex_config)
     (example_files\<lparr>nodes := [''/c.mayu'' \<mapsto> Regular_File ''x'' 0]\<rparr>) ''/c.mayu'') > 0"
proof -
  let ?F = "example_files\<lparr>nodes := [''/c.json'' \<mapsto> Regular_File ''x'' 0]\<rparr>"
  let ?G = "example_files\<lparr>nodes := [''/c.mayu'' \<mapsto> Regular_File ''x'' 0]\<rparr>"
  have "Json_Config_Loader.load (\<lambda>_. Some ex_config) (read_file ?F ''/c.json'') new_Setting = Some ex_loaded"
    using ex_loads by (simp add: Json_Config_Loader.load_def loadJsonFile_def read_file_def file_at_def example_files_def)
  then have "isValid (validate (\<lambda>_. Some ex_config) ?F ''/c.json'')"
    using what_loads_is_valid [of "\<lambda>_. Some ex_config" ?F "''/c.json''" new_Setting ex_loaded] by simp
  moreover have "vr_hasErrors (validate (\<lambda>_. Some ex_config) ?G ''/c.mayu'')"
    by (simp add: validate_def validateString_def split: option.split)
  ultimately show ?thesis
    using what_loads_is_valid [of "\<lambda>_. Some ex_config" ?G "''/c.mayu''"] by blast
qed

text \<open>The other way round it is not so: the check lets pass what the loader refuses.\<close>

lemma valid_but_not_loaded:
  "isValid (validateString (\<lambda>_. Some (JArray [])) body ''a.json'') \<and>
   Json_Config_Loader.load (\<lambda>_. Some (JArray [])) (Some body) st = None"
  by (simp add: isValid_def validateString_def Let_def json_contains_def json_member_def
      Json_Config_Loader.load_def loadJsonFile_def load_config_def validateSchema_def is_object_def)

text \<open>What is documented of the parser (nlohmann's, called without its option to ignore comments): the text of
  a JSON document, after white space and possibly a byte order mark, begins with an object, an array,
  a string, a number, true, false or null.\<close>

definition json_start :: "string \<Rightarrow> bool" where
  "json_start s = (case dropWhile (\<lambda>c. c \<in> set [CHR '' '', CHR 0x09, CHR 0x0A, CHR 0x0D]) s of
     [] \<Rightarrow> False
   | c # _ \<Rightarrow> c \<in> set (CHR 0xEF # CHR 0x22 # ''{[-0123456789tfn''))"

definition json_parser :: "(string \<Rightarrow> json option) \<Rightarrow> bool" where
  "json_parser parse \<longleftrightarrow> (\<forall>s. parse s \<noteq> None \<longrightarrow> json_start s)"

lemma template_starts_with_comment: "\<exists>s. templateContent t = CHR ''#'' # s"
  by (cases t) (simp_all add: TEMPLATE_DEFAULT_def TEMPLATE_EMACS_def TEMPLATE_EMACS_1_def TEMPLATE_VIM_def
      TEMPLATE_VIM_1_def text_lines_def)

lemma template_is_not_json:
  assumes "json_parser parse"
  shows "parse (templateContent t) = None"
proof -
  have "\<not> json_start (templateContent t)"
    using template_starts_with_comment [of t] by (auto simp: json_start_def)
  then show ?thesis using assms by (auto simp: json_parser_def)
qed

text \<open>C40: A configuration made from one of the program's templates cannot be used: the template texts are in
  the old syntax and begin with a comment sign, with which no JSON document begins. So, for every JSON
  parser, the check of the new file reports exactly one error, that it is not JSON or, when its name does
  not have .json in it, that the old syntax is not supported, and the loader loads nothing. The path is
  not that of the file's own metadata.\<close>

theorem templates_are_rejected:
  assumes run: "createFromTemplate now pw_dir cs t p F m = (r, F', m')" "tr_success r"
    and meta: "resolve F p \<noteq> resolve F (getMetadataPath pw_dir F p)"
    and parser: "json_parser parse"
  shows "map ve_code (vr_errors (validate parse F' p)) =
      [if find_after ''.json'' p \<noteq> None then ''E003'' else ''E004''] \<and>
    \<not> isValid (validate parse F' p) \<and> Json_Config_Loader.load parse (read_file F' p) st = None"
proof -
  obtain F2 where F2: "new_file t p F F2" using template_fails [OF run(1)] run(2) by blast
  have body: "read_file F' p = Some (templateContent t)"
    using template_created [OF run(1) F2, of p] meta new_file_result(2) [OF F2] by simp
  then have "fs_exists F' p" using is_regular_file_iff is_regular_file_exists by blast
  then show ?thesis
    using body readFile_regular [OF body] template_is_not_json [OF parser, of t]
    by (simp add: isValid_def validate_def validateString_def Json_Config_Loader.load_def loadJsonFile_def
        add_error_def new_ValidationResult_def new_ValidationError_def)
qed

text \<open>A parser that accepts a text in braces, and the Vim template.\<close>

theorem templates_are_rejected_witness:
  "\<exists>r F' m'. createFromTemplate 7 None plain_store Template_Vim ''/h/.yamy/n''
       example_files ConfigManager_init = (r, F', m') \<and>
     \<not> isValid (validate (\<lambda>s. if s = ''{}'' then Some ex_config else None) F' ''/h/.yamy/n'')"
proof -
  let ?parse = "\<lambda>s. if s = ''{}'' then Some ex_config else None"
  obtain F2 where F2: "new_file Template_Vim ''/h/.yamy/n'' example_files F2" using example_created by blast
  obtain r F' m' where run: "createFromTemplate 7 None plain_store Template_Vim ''/h/.yamy/n''
      example_files ConfigManager_init = (r, F', m')"
    by (metis prod.exhaust)
  have "json_parser ?parse" by (simp add: json_parser_def json_start_def)
  then show ?thesis
    using templates_are_rejected [OF run _ _, of ?parse new_Setting] template_created [OF run F2] run
      example_not_metadata [of "''/h/.yamy/n''"] by blast
qed

end
