(* ===== verification/Spec2Isabelle.thy ===== *)
theory Spec2Isabelle
  imports Hold_Tap Engine_Invariants Loaded_Engine End_To_End Stuck_Key Config_Switching Archive_Roundtrip
    Session_Roundtrip Auto_Start Key_Queue Named_Backups Input_Queue Ipc_End_To_End
    Config_Validator
begin

text \<open>
  YAMY is a keyboard remapper. This development models its key handling core in the Linux build,
  and the management of its configuration files.

  \<^bold>\<open>How the program works.\<close> A hook reads evdev events from the keyboards and queues them. The
  engine's handler thread takes one event at a time, looks its key up in the configured keyboard,
  works out the modifiers in force, and then either runs the key's sequence of actions or sends
  the event through the event processor, which maps it in three layers: evdev code to YAMY scan
  code, substitution by compiled rules and hold/tap detection of virtual modifiers, and YAMY scan
  code to evdev code. What the engine decides to press or release goes to an injector.

  \<^bold>\<open>Parts, bottom up.\<close>
  \<^item> Prelude: widths of machine integers, association lists for hash maps, C strings.
  \<^item> Key_Types (src/core/input/keyboard.h, keyboard.cpp): scan codes, keys, modifier sets, modified keys.
  \<^item> Modifier_State (src/core/input/modifier_state.cpp): the bit set of standard, virtual and lock
    modifiers.
  \<^item> Modifier_Key_Handler (src/core/engine/modifier_key_handler.cpp): the hold/tap state machine.
  \<^item> Lookup_Table (src/core/engine/lookup_table.h, compiled_rule.h): buckets of compiled rules.
  \<^item> Keycode_Mapping (src/platform/linux/keycode_mapping.cpp): the code tables.
  \<^item> Event_Processor (src/core/engine/engine_event_processor.cpp): the three layers.
  \<^item> Hold_Tap: what hold/tap detection promises over sequences of events.
  \<^item> Keyboard_Model, Keymap_Model (src/core/input/keyboard.cpp, keymap.cpp): the key store, key
    sequences, keymaps and their searches.
  \<^item> Rule_Compiler (src/core/engine/engine.cpp, engine_setting.cpp): from substitutes and
    assignments to the rule table; the virtual keymap.
  \<^item> Engine_State (src/core/engine/engine.h, engine_lifecycle.cpp, engine_input.cpp,
    engine_modifier.cpp, engine_setting.cpp): the engine's members, injection, generation of key
    and modifier events, changing the configuration.
  \<^item> Key_Generation: what generating modifier events promises.
  \<^item> Engine_Generator (src/core/engine/engine_generator.cpp, src/core/commands): actions,
    sequences, keymaps, commands.
  \<^item> Engine_Handler (engine_generator.cpp, src/core/engine/engine_keyboard_handler.cpp): one event
    through the engine.
  \<^item> Engine_Invariants: the invariant of the engine and what follows from it.
  \<^item> Json_Config_Loader (src/core/settings/json_config_loader.cpp): from a parsed JSON value to a
    setting.
  \<^item> Loaded_Configuration: what the loader accepts and the shape of the settings it makes.
  \<^item> Loaded_Engine: the engine with a loaded configuration.
  \<^item> Platform_Input (src/platform/linux/device_manager_linux.cpp, input_hook_linux.cpp): the choice
    of devices, and from evdev events to the engine's events.
  \<^item> Platform_Output (src/platform/linux/input_injector_linux.cpp): from the engine's requests to
    the writes on the virtual device.
  \<^item> Double_Conversion, End_To_End: the code of a key on its way through both translations, and
    reader, engine and injector together.
  \<^item> Remapping: a small machine from codes to codes, and the proof that reader, engine and event
    processor implement it; what is down on the virtual device.
  \<^item> Stuck_Key: a configuration and four events after which a key is down on the system that
    nothing on the keyboard releases.
  \<^item> Cpp_Text, File_System: what the code uses of \<^verbatim>\<open>std::string\<close> and \<^verbatim>\<open>std::filesystem\<close>.
  \<^item> Config_Store (src/utils/config_store.h, qsettings_config_store.h): the contract of the persistent
    store as a locale, and QSettings as its interpretation.
  \<^item> Config_Watcher (src/core/settings/config_watcher.cpp): from file system signals to reloads.
  \<^item> Config_Manager (src/core/settings/config_manager.cpp): the list of configurations, the active
    one, saving, loading, scanning and switching; Config_List, Config_Lifecycle, Config_Switching:
    its invariant over all operations (new configurations from templates among them) and restarts,
    switching, and what is reloaded.
  \<^item> Config_Includes (config_manager.cpp): the include lines of a configuration and the search for
    all files it includes, with its termination.
  \<^item> Archive_Format, Config_Archive (config_manager.cpp): the package format, export and import;
    Archive_Roundtrip: what an import makes of an exported package.
  \<^item> Flat_Json, Session_Manager (src/core/settings/session_manager.cpp): members found in a text
    without parsing it, and the session file; Session_Roundtrip: what a saved session restores;
    Auto_Start: the desktop entry.
  \<^item> Config_Backup, Backup_Limit (config_manager.cpp): backups, which are kept and what they are
    restored to; Named_Backups (src/core/settings/config_backup.cpp): the second implementation,
    which nothing calls.
  \<^item> Config_Metadata (src/core/settings/config_metadata.cpp): name, author and tags of a
    configuration in a file of their own; Metadata_Roundtrip: what is read back, and for which
    configurations. Template_Texts, Config_Templates (config_manager.cpp): the texts of the
    templates, and new configurations from them; Template_Creation: what that makes and what it leaves.
    Config_Validator (src/core/settings/config_validator.cpp): the check of a configuration, and how
    its answer relates to the loader's.
  \<^item> Input_Queue (engine_lifecycle.cpp, engine_keyboard_handler.cpp, sync_linux.cpp): the queue
    between the reader threads and the handler thread, and starting and stopping the engine, as
    interleaved steps of the threads; order, exclusion, no lost wake-up, what the wait for an event
    rests on, and what goes wrong when keys arrive while the engine starts.
  \<^item> Engine_Ipc (src/core/engine/engine_ipc_handler.cpp, src/core/platform/ipc_defs.h): the
    commands of the graphical interface over the engine and the manager; Ipc_Commands: the form of
    the answers, the truth of the status after a switch and what the engine then runs, and why a
    reload does nothing.
  \<^item> Ipc_Channel (src/core/platform/linux/ipc_channel_qt.cpp): frames cut out of the bytes of sockets;
    Ipc_Delivery: every message arrives once and in order however the bytes are cut and
    interleaved, and the one header on which the loop never ends.
  \<^item> Ipc_Client (src/ui/qt/ipc_client_gui.cpp): the user interface's end; Ipc_End_To_End: requests
    and answers between both ends, and the attempts to reconnect.
  \<^item> Key_Queue (src/driver/keyque.c): the Windows driver's ring buffer, as an interpretation of a
    locale for bounded queues.

  \<^bold>\<open>How state and operations correspond.\<close> A class is a record with the class's member names
  (prefixed where two classes share one), a method is a definition of the method's name that takes
  the record last and returns it updated. Pointers into the keyboard's lists are references
  (\<open>keyref\<close>: the position of a key in the store, an event key, the sync key), pointers to keymaps
  and sequences are positions in lists that grow at the end, newest last, where the code pushes in
  front. Machine integers are words; \<^verbatim>\<open>int\<close> counters far from their bounds are integers, and user
  controlled arithmetic that overflows is a failure. Operations of the engine return
  \<^typ>\<open>'a run\<close>: a failure (undefined behaviour, a violated contract, fuel used up) or the new state.
  Everything the engine asks of the injector is recorded in \<open>en_injected\<close>, in order.

  \<^bold>\<open>Parameters.\<close> The numbers of linux/input-event-codes.h are the function \<open>ev\<close>
  (\<open>ev_ok\<close>: what the theorems need of it; \<open>linux_ev\<close>: the kernel's values), the other header
  constants the record \<open>evdev_abi\<close>. What the kernel answers is an argument. Clock readings are
  arguments. The JSON parser is an argument of the loader and of the check (\<open>json_parser\<close>: how a text
  begins that it accepts). The file system of a moment is an argument; which file a path names is its
  function \<open>resolve\<close>. The operations of the store are an argument of the manager. What the C library
  answers when the handle of an event is given to it as a thread's, which \<^verbatim>\<open>waitForObject\<close> does, is
  the argument \<open>libc\<close> (\<open>join_returns\<close>: it does not block in the join).
  Qt's byte arrays and data streams are the record \<open>Qt_Bytes\<close> (\<open>qt_documented\<close>: what the library
  documents; \<open>plain_qt\<close>: as functions on lists).

  \<^bold>\<open>Commands.\<close> The commands that change the engine's state or ask something of the injector are
  definitions of Engine_Generator, \<^verbatim>\<open>&VK\<close> and \<^verbatim>\<open>&MouseWheel\<close> among them. The others (windows, dialogs,
  the shell, the clipboard, the mouse pointer and the help) act on the desktop through the platform,
  keep nothing in the engine and are \<open>FD_Other\<close>, with no effect on the modelled state. The invariant
  of the engine holds for settings without \<^verbatim>\<open>&VK\<close> and \<^verbatim>\<open>&MouseWheel\<close>, which ask the injector for
  something that comes from no key (\<open>refs_ok\<close>, \<open>raw_command\<close>); no loader makes these.

  \<^bold>\<open>Fuel.\<close> Sequences, keymaps and commands call each other without a bound. \<open>gen\<close> cuts the calls off
  at a depth and fails with \<open>Out_of_fuel\<close>; theorems about runs hold for every fuel. The search for
  included files needs fuel one above the number of files, which is proved to be enough.

  \<^bold>\<open>Not modelled.\<close> The Qt and Win32 user interfaces (but for the client's end of the channel), the
  Windows hook and driver (but for its queue), X11 window queries, the control server of the
  command line tool, logging, metrics and the crash handler: they call libraries and hold no key
  handling state. Of the engine's commands for the user interface, the investigation of a window.
  Debug output of the modelled functions is left out; it reads the names of keys, which the
  keyboard's keys all have.
\<close>

end
